(* ===== verification/Prelude.thy ===== *)
theory Prelude
  imports Main "HOL-Library.Word"
begin

text \<open>
  The vocabulary the other theories share: the machine integer types, the result type of code that
  can abort the process, counted loops over arrays, and the lemmas on words, lists and loops that
  the component proofs use.

  Arrays of a fixed length are lists; a loop \<open>for(i = 0; i < n; ++i)\<close> is
  \<open>for_loop n body s\<close>. Code that may abort returns \<open>crash + 'a\<close>, with \<open>Inl\<close> for the
  abort, and \<open>bindR\<close> sequences such computations.
\<close>

unbundle bit_operations_syntax

type_synonym u8 = "8 word"
type_synonym u16 = "16 word"
type_synonym u32 = "32 word"
type_synonym u64 = "64 word"

named_theorems unat_facts "rules that read word operations as operations on natural numbers"
named_theorems loop_facts "closed forms of counted loops"

section \<open>Results of code that may abort\<close>

datatype crash =
    OutOfMemory
  | OutOfBounds
  | DivisionByZero
  | NullPointer
  | Aborted string

fun bindR :: "'e + 'a \<Rightarrow> ('a \<Rightarrow> 'e + 'b) \<Rightarrow> 'e + 'b" where
  "bindR (Inl e) f = Inl e"
| "bindR (Inr x) f = f x"

lemma bindR_Inr_iff: "bindR m f = Inr y \<longleftrightarrow> (\<exists>x. m = Inr x \<and> f x = Inr y)"
  by (cases m) auto

lemma bindR_Inl_iff: "bindR m f = Inl e \<longleftrightarrow> m = Inl e \<or> (\<exists>x. m = Inr x \<and> f x = Inl e)"
  by (cases m) auto

lemma bindR_assoc: "bindR (bindR m f) g = bindR m (\<lambda>x. bindR (f x) g)"
  by (cases m) auto

text \<open>A computation that may also not end is \<open>(crash + 'a) option\<close>, with \<open>None\<close> for not ending; \<open>bindO\<close> sequences them.\<close>

definition bindO :: "('e + 'a) option \<Rightarrow> ('a \<Rightarrow> ('e + 'b) option) \<Rightarrow> ('e + 'b) option" where
  "bindO m f = (case m of None \<Rightarrow> None | Some (Inl e) \<Rightarrow> Some (Inl e) | Some (Inr x) \<Rightarrow> f x)"

lemma bindO_simps [simp]:
  "bindO None f = None" "bindO (Some (Inl e)) f = Some (Inl e)" "bindO (Some (Inr x)) f = f x"
  by (simp_all add: bindO_def)

lemma bindO_Inr_iff: "bindO m f = Some (Inr y) \<longleftrightarrow> (\<exists>x. m = Some (Inr x) \<and> f x = Some (Inr y))"
  by (auto simp: bindO_def split: option.splits sum.splits)

section \<open>Counted loops\<close>

definition for_loop :: "nat \<Rightarrow> (nat \<Rightarrow> 's \<Rightarrow> 's) \<Rightarrow> 's \<Rightarrow> 's" where
  "for_loop n body s = fold body [0..<n] s"

lemma for_loop_0 [simp]: "for_loop 0 body s = s"
  by (simp add: for_loop_def)

lemma for_loop_Suc: "for_loop (Suc n) body s = body n (for_loop n body s)"
  by (simp add: for_loop_def)

lemma for_loop_invariant:
  assumes "P 0 s" and "\<And>i s. i < n \<Longrightarrow> P i s \<Longrightarrow> P (Suc i) (body i s)"
  shows "P n (for_loop n body s)"
  using assms by (induction n) (auto simp: for_loop_Suc)

lemma for_loop_length:
  "(\<And>i s. length (body i s) = length s) \<Longrightarrow> length (for_loop n body s) = length s"
  by (induction n) (auto simp: for_loop_Suc)

text \<open>The loop that updates each cell of an array from its own old value.\<close>

lemma for_loop_update_nth:
  assumes "n \<le> length xs" and "j < length xs"
  shows "for_loop n (\<lambda>i ys. ys[i := g i (ys ! i)]) xs ! j = (if j < n then g j (xs ! j) else xs ! j)"
  using assms
proof (induction n)
  case (Suc n)
  have "length (for_loop n (\<lambda>i ys. ys[i := g i (ys ! i)]) xs) = length xs"
    by (rule for_loop_length) simp
  with Suc show ?case by (auto simp: for_loop_Suc nth_list_update)
qed simp

lemma for_loop_update_length [simp]:
  "length (for_loop n (\<lambda>i ys. ys[i := g i (ys ! i)]) xs) = length xs"
  by (rule for_loop_length) simp

lemma for_loop_update_map [loop_facts]:
  "n = length xs \<Longrightarrow> for_loop n (\<lambda>i ys. ys[i := g i (ys ! i)]) xs = map (\<lambda>i. g i (xs ! i)) [0..<n]"
  by (rule nth_equalityI) (auto simp: for_loop_update_nth)

lemma for_loop_update_map2 [loop_facts]:
  assumes "n = length xs" and "length ys = n"
  shows "for_loop n (\<lambda>i zs. zs[i := h (zs ! i) (ys ! i)]) xs = map2 h xs ys"
  using assms for_loop_update_map [where g = "\<lambda>i z. h z (ys ! i)" and xs = xs and n = n]
  by (auto intro!: nth_equalityI)

section \<open>Words read as natural numbers\<close>

lemma unat_and_mask [unat_facts]: "unat (x AND mask n) = unat x mod 2 ^ n"
  by (metis take_bit_eq_mask unsigned_take_bit_eq take_bit_eq_mod)

lemma unat_drop_bit [unat_facts]: "unat (drop_bit n x) = unat x div 2 ^ n"
  unfolding unat_drop_bit_eq by (rule drop_bit_eq_div)

lemma unat_sub_le [unat_facts]: "y \<le> x \<Longrightarrow> unat (x - y) = unat x - unat y"
  for x y :: "'a :: len word"
  by (rule unat_sub)

lemma unat_add_bound [unat_facts]:
  "unat x + unat y < 2 ^ LENGTH('a) \<Longrightarrow> unat (x + y) = unat x + unat y"
  for x y :: "'a :: len word"
  by (simp add: unat_word_ariths)

lemma unat_lt_64: "unat (x :: u64) < 2 ^ 64"
  using unsigned_less [of x, where 'a = nat] by simp

lemma unat_of_nat_small [unat_facts]:
  "n < 2 ^ LENGTH('a) \<Longrightarrow> unat (of_nat n :: 'a :: len word) = n"
  by (simp add: take_bit_nat_eq_self unat_of_nat)

end
