(* ===== verification/DefineValues.thy ===== *)
theory DefineValues
  imports Prelude
begin

text \<open>
  The configuration constants, enumerations and macros of \<^verbatim>\<open>src_light/definevalues.h\<close>.

  An enumeration is a datatype with the source's constructors; \<open>code\<close>-functions give the
  integer each enumerator stands for, because the profiler computes enumerators by integer
  arithmetic and casts them back. A cast of an integer that names no enumerator is \<open>None\<close>.
\<close>

named_theorems config "values of the configuration constants"

definition LAST_USER_ADDR :: u64 where [config]: "LAST_USER_ADDR = 0x7fffffffffff"
definition ONE_KB :: nat where [config]: "ONE_KB = 1024"
definition ONE_MB :: nat where [config]: "ONE_MB = 1048576"
definition ONE_GB :: nat where [config]: "ONE_GB = 1073741824"
definition CACHELINE_SIZE :: nat where [config]: "CACHELINE_SIZE = 64"
definition PAGESIZE :: nat where [config]: "PAGESIZE = 4096"
definition NUM_CACHELINES_PER_PAGE :: nat where [config]: "NUM_CACHELINES_PER_PAGE = 64"
definition MMAP_PAGES :: nat where [config]: "MMAP_PAGES = 129"
definition DATA_MMAP_PAGES :: nat where [config]: "DATA_MMAP_PAGES = MMAP_PAGES - 1"
definition MAPSIZE :: nat where [config]: "MAPSIZE = MMAP_PAGES * PAGESIZE"
definition DATA_MAPSIZE :: nat where [config]: "DATA_MAPSIZE = DATA_MMAP_PAGES * PAGESIZE"
definition ABNORMAL_VALUE :: nat where [config]: "ABNORMAL_VALUE = 100000000"
definition MAX_OBJ_NUM :: nat where [config]: "MAX_OBJ_NUM = 4194304"
definition MAX_LOCK_NUM :: nat where [config]: "MAX_LOCK_NUM = 512"
definition MAX_THREAD_NUMBER :: nat where [config]: "MAX_THREAD_NUMBER = 1024"

text \<open>The \<open>MAX\<close> and \<open>MIN\<close> macros; each evaluates its arguments once.\<close>

definition C_MAX :: "'a :: linorder \<Rightarrow> 'a \<Rightarrow> 'a" where
  "C_MAX a b = (if a > b then a else b)"

definition C_MIN :: "'a :: linorder \<Rightarrow> 'a \<Rightarrow> 'a" where
  "C_MIN a b = (if a < b then a else b)"

lemma C_MAX_max [simp]: "C_MAX a b = max a b"
  by (auto simp: C_MAX_def max_def)

lemma C_MIN_min [simp]: "C_MIN a b = min a b"
  by (auto simp: C_MIN_def min_def)

datatype ObjectSizeType = SMALL | MEDIUM | LARGE

fun ObjectSizeType_code :: "ObjectSizeType \<Rightarrow> int" where
  "ObjectSizeType_code SMALL = 0"
| "ObjectSizeType_code MEDIUM = 1"
| "ObjectSizeType_code LARGE = 2"

text \<open>The code compares size classes by their numbers.\<close>

instantiation ObjectSizeType :: linorder
begin

definition less_eq_ObjectSizeType :: "ObjectSizeType \<Rightarrow> ObjectSizeType \<Rightarrow> bool" where
  "less_eq_ObjectSizeType a b \<longleftrightarrow> ObjectSizeType_code a \<le> ObjectSizeType_code b"

definition less_ObjectSizeType :: "ObjectSizeType \<Rightarrow> ObjectSizeType \<Rightarrow> bool" where
  "less_ObjectSizeType a b \<longleftrightarrow> ObjectSizeType_code a < ObjectSizeType_code b"

instance
proof
  fix a b :: ObjectSizeType
  show "a \<le> b \<Longrightarrow> b \<le> a \<Longrightarrow> a = b"
    by (cases a; cases b) (simp_all add: less_eq_ObjectSizeType_def)
qed (auto simp: less_eq_ObjectSizeType_def less_ObjectSizeType_def)

end

datatype AllocationFunction = MALLOC | FREE | CALLOC | REALLOC | POSIX_MEMALIGN | MEMALIGN

datatype AllocationTypeForOutputData =
    SERIAL_SMALL_NEW_MALLOC
  | SERIAL_SMALL_REUSED_MALLOC
  | SERIAL_MEDIUM_NEW_MALLOC
  | SERIAL_MEDIUM_REUSED_MALLOC
  | SERIAL_LARGE_MALLOC
  | PARALLEL_SMALL_NEW_MALLOC
  | PARALLEL_SMALL_REUSED_MALLOC
  | PARALLEL_MEDIUM_NEW_MALLOC
  | PARALLEL_MEDIUM_REUSED_MALLOC
  | PARALLEL_LARGE_MALLOC
  | SERIAL_SMALL_FREE
  | SERIAL_MEDIUM_FREE
  | SERIAL_LARGE_FREE
  | PARALLEL_SMALL_FREE
  | PARALLEL_MEDIUM_FREE
  | PARALLEL_LARGE_FREE
  | SERIAL_NORMAL_CALLOC
  | PARALLEL_NORMAL_CALLOC
  | SERIAL_NORMAL_REALLOC
  | PARALLEL_NORMAL_REALLOC
  | SERIAL_NORMAL_POSIX_MEMALIGN
  | PARALLEL_NORMAL_POSIX_MEMALIGN
  | SERIAL_NORMAL_MEMALIGN
  | PARALLEL_NORMAL_MEMALIGN

definition allocation_types :: "AllocationTypeForOutputData list" where
  "allocation_types =
    [SERIAL_SMALL_NEW_MALLOC, SERIAL_SMALL_REUSED_MALLOC, SERIAL_MEDIUM_NEW_MALLOC,
     SERIAL_MEDIUM_REUSED_MALLOC, SERIAL_LARGE_MALLOC,
     PARALLEL_SMALL_NEW_MALLOC, PARALLEL_SMALL_REUSED_MALLOC, PARALLEL_MEDIUM_NEW_MALLOC,
     PARALLEL_MEDIUM_REUSED_MALLOC, PARALLEL_LARGE_MALLOC,
     SERIAL_SMALL_FREE, SERIAL_MEDIUM_FREE, SERIAL_LARGE_FREE,
     PARALLEL_SMALL_FREE, PARALLEL_MEDIUM_FREE, PARALLEL_LARGE_FREE,
     SERIAL_NORMAL_CALLOC, PARALLEL_NORMAL_CALLOC, SERIAL_NORMAL_REALLOC, PARALLEL_NORMAL_REALLOC,
     SERIAL_NORMAL_POSIX_MEMALIGN, PARALLEL_NORMAL_POSIX_MEMALIGN,
     SERIAL_NORMAL_MEMALIGN, PARALLEL_NORMAL_MEMALIGN]"

definition NUM_OF_ALLOCATIONTYPEFOROUTPUTDATA :: nat where
  [config]: "NUM_OF_ALLOCATIONTYPEFOROUTPUTDATA = 24"

lemma upt_24: "[0..<24] = [0, 1, 2, 3, 4, 5, 6, 7, 8, 9, 10, 11, 12, 13, 14, 15, 16, 17, 18, 19, 20, 21, 22, 23 :: nat]"
  by (simp add: upt_rec)

text \<open>The enumerator an integer is cast to.\<close>

definition AllocationType_of_int :: "int \<Rightarrow> AllocationTypeForOutputData option" where
  "AllocationType_of_int i =
    (if 0 \<le> i \<and> i < 24 then Some (allocation_types ! nat i) else None)"

fun AllocationType_index :: "AllocationTypeForOutputData \<Rightarrow> nat" where
  "AllocationType_index SERIAL_SMALL_NEW_MALLOC = 0"
| "AllocationType_index SERIAL_SMALL_REUSED_MALLOC = 1"
| "AllocationType_index SERIAL_MEDIUM_NEW_MALLOC = 2"
| "AllocationType_index SERIAL_MEDIUM_REUSED_MALLOC = 3"
| "AllocationType_index SERIAL_LARGE_MALLOC = 4"
| "AllocationType_index PARALLEL_SMALL_NEW_MALLOC = 5"
| "AllocationType_index PARALLEL_SMALL_REUSED_MALLOC = 6"
| "AllocationType_index PARALLEL_MEDIUM_NEW_MALLOC = 7"
| "AllocationType_index PARALLEL_MEDIUM_REUSED_MALLOC = 8"
| "AllocationType_index PARALLEL_LARGE_MALLOC = 9"
| "AllocationType_index SERIAL_SMALL_FREE = 10"
| "AllocationType_index SERIAL_MEDIUM_FREE = 11"
| "AllocationType_index SERIAL_LARGE_FREE = 12"
| "AllocationType_index PARALLEL_SMALL_FREE = 13"
| "AllocationType_index PARALLEL_MEDIUM_FREE = 14"
| "AllocationType_index PARALLEL_LARGE_FREE = 15"
| "AllocationType_index SERIAL_NORMAL_CALLOC = 16"
| "AllocationType_index PARALLEL_NORMAL_CALLOC = 17"
| "AllocationType_index SERIAL_NORMAL_REALLOC = 18"
| "AllocationType_index PARALLEL_NORMAL_REALLOC = 19"
| "AllocationType_index SERIAL_NORMAL_POSIX_MEMALIGN = 20"
| "AllocationType_index PARALLEL_NORMAL_POSIX_MEMALIGN = 21"
| "AllocationType_index SERIAL_NORMAL_MEMALIGN = 22"
| "AllocationType_index PARALLEL_NORMAL_MEMALIGN = 23"

lemma AllocationType_index_less [simp]: "AllocationType_index t < 24"
  by (cases t) auto

lemma AllocationType_roundtrip: "AllocationType_of_int (int (AllocationType_index t)) = Some t"
  by (cases t) (auto simp: AllocationType_of_int_def allocation_types_def)

datatype LockTypes = MUTEX | SPIN | MUTEXTRY | SPINTRY

fun LockTypes_index :: "LockTypes \<Rightarrow> nat" where
  "LockTypes_index MUTEX = 0"
| "LockTypes_index SPIN = 1"
| "LockTypes_index MUTEXTRY = 2"
| "LockTypes_index SPINTRY = 3"

definition NUM_OF_LOCKTYPES :: nat where [config]: "NUM_OF_LOCKTYPES = 4"

lemma LockTypes_index_less [simp]: "LockTypes_index t < 4"
  by (cases t) auto

datatype SystemCallTypes = MMAP | MADVISE | SBRK | MPROTECT | MUNMAP | MREMAP

fun SystemCallTypes_index :: "SystemCallTypes \<Rightarrow> nat" where
  "SystemCallTypes_index MMAP = 0"
| "SystemCallTypes_index MADVISE = 1"
| "SystemCallTypes_index SBRK = 2"
| "SystemCallTypes_index MPROTECT = 3"
| "SystemCallTypes_index MUNMAP = 4"
| "SystemCallTypes_index MREMAP = 5"

definition NUM_OF_SYSTEMCALLTYPES :: nat where [config]: "NUM_OF_SYSTEMCALLTYPES = 6"

lemma SystemCallTypes_index_less [simp]: "SystemCallTypes_index t < 6"
  by (cases t) auto

datatype eMemAccessType =
  E_MEM_NONE | E_MEM_LOAD | E_MEM_STORE | E_MEM_PFETCH | E_MEM_EXEC | E_MEM_UNKNOWN

text \<open>
  \<open>rdtscp\<close> combines the two 32-bit halves the instruction leaves in EAX and EDX; the halves are
  arguments because the counter belongs to the machine.
\<close>

definition rdtscp :: "u32 \<Rightarrow> u32 \<Rightarrow> u64" where
  "rdtscp lo hi = ucast lo OR push_bit 32 (ucast hi)"

text \<open>\<open>alignup\<close>, which \<^verbatim>\<open>shadowmemory.hh\<close>, \<^verbatim>\<open>hashmap.hh\<close> and \<^verbatim>\<open>programstatus.cpp\<close> each define alike.\<close>

definition alignup :: "u64 \<Rightarrow> u64 \<Rightarrow> u64" where
  "alignup sz alignto =
    (if sz mod alignto = 0 then sz else (sz + (alignto - 1)) AND NOT (alignto - 1))"

end
