(* ===== verification/Structs.thy ===== *)
theory Structs
  imports DefineValues
begin

text \<open>
  The accumulators of \<^verbatim>\<open>src_light/structs.h\<close> and \<^verbatim>\<open>structs.cpp\<close>: per-thread
  counters of system calls, locks and sampled memory accesses, and the operations that add them
  up. Counters keep their C widths, so sums wrap.

  The arrays indexed by allocation type have 24 cells; \<open>wf\<close>-predicates say so.
\<close>

record AllocatingType =
  doingAllocation :: bool
  objectSizeType :: ObjectSizeType
  objectSizeTypeForPrediction :: ObjectSizeType
  allocatingFunction :: AllocationFunction
  at_objectSize :: u32
  objectAddress :: u64
  isReuse :: bool

record SystemCallData =
  sc_num :: u32
  sc_cycles :: u64

definition SystemCallData_addOneSystemCall :: "SystemCallData \<Rightarrow> u64 \<Rightarrow> SystemCallData" where
  "SystemCallData_addOneSystemCall d cycles =
    d\<lparr>sc_num := sc_num d + 1, sc_cycles := sc_cycles d + cycles\<rparr>"

definition SystemCallData_add :: "SystemCallData \<Rightarrow> SystemCallData \<Rightarrow> SystemCallData" where
  "SystemCallData_add d n =
    d\<lparr>sc_num := sc_num d + sc_num n, sc_cycles := sc_cycles d + sc_cycles n\<rparr>"

record OverviewLockData =
  ov_numOfLocks :: u32
  ov_numOfCalls :: "u32 list"
  ov_numOfCallsWithContentions :: "u32 list"
  ov_totalCycles :: "u64 list"

definition add_cells :: "'a :: plus list \<Rightarrow> 'a list \<Rightarrow> 'a list" where
  "add_cells xs ys =
    for_loop NUM_OF_ALLOCATIONTYPEFOROUTPUTDATA (\<lambda>i zs. zs[i := zs ! i + ys ! i]) xs"

definition OverviewLockData_add :: "OverviewLockData \<Rightarrow> OverviewLockData \<Rightarrow> OverviewLockData" where
  "OverviewLockData_add d n =
    d\<lparr>ov_numOfLocks := ov_numOfLocks d + ov_numOfLocks n,
      ov_numOfCalls := add_cells (ov_numOfCalls d) (ov_numOfCalls n),
      ov_numOfCallsWithContentions :=
        add_cells (ov_numOfCallsWithContentions d) (ov_numOfCallsWithContentions n),
      ov_totalCycles := add_cells (ov_totalCycles d) (ov_totalCycles n)\<rparr>"

record DetailLockData =
  lockType :: LockTypes
  dl_numOfCalls :: "u32 list"
  dl_numOfCallsWithContentions :: "u32 list"
  dl_cycles :: "u64 list"

definition DetailLockData_newDetailLockData :: "LockTypes \<Rightarrow> DetailLockData" where
  "DetailLockData_newDetailLockData t =
    \<lparr>lockType = t, dl_numOfCalls = replicate 24 0, dl_numOfCallsWithContentions = replicate 24 0,
     dl_cycles = replicate 24 0\<rparr>"

text \<open>
  The loop returns at the first allocation type whose average lock time passes 500 cycles; the
  guard before the division is the source's short-circuit \<open>&&\<close>.
\<close>

definition DetailLockData_isAnImportantLock :: "u32 list \<Rightarrow> DetailLockData \<Rightarrow> bool" where
  "DetailLockData_isAnImportantLock numOfSampledCountingFunctions d =
    list_ex (\<lambda>i. numOfSampledCountingFunctions ! i \<noteq> 0
        \<and> dl_cycles d ! i div ucast (numOfSampledCountingFunctions ! i) > 500)
      [0..<NUM_OF_ALLOCATIONTYPEFOROUTPUTDATA]"

definition DetailLockData_add :: "DetailLockData \<Rightarrow> DetailLockData \<Rightarrow> DetailLockData" where
  "DetailLockData_add d n =
    d\<lparr>lockType := lockType n,
      dl_numOfCalls := add_cells (dl_numOfCalls d) (dl_numOfCalls n),
      dl_numOfCallsWithContentions :=
        add_cells (dl_numOfCallsWithContentions d) (dl_numOfCallsWithContentions n),
      dl_cycles := add_cells (dl_cycles d) (dl_cycles n)\<rparr>"

record FriendlinessStatus =
  numOfSampling :: u32
  totalMemoryUsageOfSampledPages :: u64
  totalMemoryUsageOfSampledCacheLines :: u64

definition FriendlinessStatus_recordANewSampling ::
  "FriendlinessStatus \<Rightarrow> u64 \<Rightarrow> u64 \<Rightarrow> FriendlinessStatus" where
  "FriendlinessStatus_recordANewSampling f memoryUsageOfCacheLine memoryUsageOfPage =
    f\<lparr>numOfSampling := numOfSampling f + 1,
      totalMemoryUsageOfSampledCacheLines :=
        totalMemoryUsageOfSampledCacheLines f + memoryUsageOfCacheLine,
      totalMemoryUsageOfSampledPages := totalMemoryUsageOfSampledPages f + memoryUsageOfPage\<rparr>"

definition FriendlinessStatus_add ::
  "FriendlinessStatus \<Rightarrow> FriendlinessStatus \<Rightarrow> FriendlinessStatus" where
  "FriendlinessStatus_add f n =
    f\<lparr>numOfSampling := numOfSampling f + numOfSampling n,
      totalMemoryUsageOfSampledPages :=
        totalMemoryUsageOfSampledPages f + totalMemoryUsageOfSampledPages n,
      totalMemoryUsageOfSampledCacheLines :=
        totalMemoryUsageOfSampledCacheLines f + totalMemoryUsageOfSampledCacheLines n\<rparr>"

section \<open>Shape of the arrays\<close>

definition cells :: "'a list \<Rightarrow> bool" where
  "cells xs \<longleftrightarrow> length xs = NUM_OF_ALLOCATIONTYPEFOROUTPUTDATA"

definition OverviewLockData_wf :: "OverviewLockData \<Rightarrow> bool" where
  "OverviewLockData_wf d \<longleftrightarrow> cells (ov_numOfCalls d) \<and> cells (ov_numOfCallsWithContentions d)
    \<and> cells (ov_totalCycles d)"

definition DetailLockData_wf :: "DetailLockData \<Rightarrow> bool" where
  "DetailLockData_wf d \<longleftrightarrow> cells (dl_numOfCalls d) \<and> cells (dl_numOfCallsWithContentions d)
    \<and> cells (dl_cycles d)"

lemma add_cells_eq: "cells xs \<Longrightarrow> cells ys \<Longrightarrow> add_cells xs ys = map2 (+) xs ys"
  unfolding add_cells_def cells_def by (rule for_loop_update_map2) simp_all

lemma add_cells_nth:
  "cells xs \<Longrightarrow> cells ys \<Longrightarrow> i < 24 \<Longrightarrow> add_cells xs ys ! i = xs ! i + ys ! i"
  by (simp add: add_cells_eq) (simp add: cells_def config)

lemma length_add_cells [simp]: "length (add_cells xs ys) = length xs"
  unfolding add_cells_def by (rule for_loop_length) simp

lemma cells_add_cells [simp]: "cells (add_cells xs ys) = cells xs"
  by (simp add: cells_def)

lemma add_cells_commute:
  "cells xs \<Longrightarrow> cells ys \<Longrightarrow> add_cells xs ys = add_cells ys xs"
  for xs ys :: "'a :: comm_monoid_add list"
  by (simp add: add_cells_eq cells_def list_eq_iff_nth_eq add.commute)

lemma add_cells_assoc:
  "cells xs \<Longrightarrow> cells ys \<Longrightarrow> cells zs \<Longrightarrow>
    add_cells (add_cells xs ys) zs = add_cells xs (add_cells ys zs)"
  for xs ys zs :: "'a :: comm_monoid_add list"
  by (rule nth_equalityI) (auto simp: add_cells_nth cells_def config add.assoc)

lemma add_cells_left_commute:
  "cells xs \<Longrightarrow> cells ys \<Longrightarrow> cells zs \<Longrightarrow>
    add_cells (add_cells xs ys) zs = add_cells (add_cells xs zs) ys"
  for xs ys zs :: "'a :: comm_monoid_add list"
  by (simp add: add_cells_assoc) (simp add: add_cells_commute)

lemma OverviewLockData_add_wf:
  "OverviewLockData_wf d \<Longrightarrow> OverviewLockData_wf (OverviewLockData_add d n)"
  by (simp add: OverviewLockData_wf_def OverviewLockData_add_def)

lemma DetailLockData_add_wf:
  "DetailLockData_wf d \<Longrightarrow> DetailLockData_wf (DetailLockData_add d n)"
  by (simp add: DetailLockData_wf_def DetailLockData_add_def)

lemma newDetailLockData_wf [simp]: "DetailLockData_wf (DetailLockData_newDetailLockData t)"
  by (simp add: DetailLockData_wf_def DetailLockData_newDetailLockData_def cells_def config)

section \<open>Merging accumulators: the order does not matter\<close>

lemma SystemCallData_add_left_commute:
  "SystemCallData_add (SystemCallData_add d m) n = SystemCallData_add (SystemCallData_add d n) m"
  by (simp add: SystemCallData_add_def)

lemma FriendlinessStatus_add_left_commute:
  "FriendlinessStatus_add (FriendlinessStatus_add d m) n
    = FriendlinessStatus_add (FriendlinessStatus_add d n) m"
  by (simp add: FriendlinessStatus_add_def)

lemma OverviewLockData_add_left_commute:
  assumes "OverviewLockData_wf d" "OverviewLockData_wf m" "OverviewLockData_wf n"
  shows "OverviewLockData_add (OverviewLockData_add d m) n
    = OverviewLockData_add (OverviewLockData_add d n) m"
  using assms by (simp add: OverviewLockData_add_def OverviewLockData_wf_def add_cells_left_commute)

lemma DetailLockData_add_left_commute:
  assumes "DetailLockData_wf d" "DetailLockData_wf m" "DetailLockData_wf n"
    and "lockType m = lockType n"
  shows "DetailLockData_add (DetailLockData_add d m) n
    = DetailLockData_add (DetailLockData_add d n) m"
  using assms by (simp add: DetailLockData_add_def DetailLockData_wf_def add_cells_left_commute)

end
