(* ===== verification/HashList.thy ===== *)
theory HashList
  imports Prelude
begin

text \<open>
  The intrusive circular doubly linked list of \<^verbatim>\<open>src_light/hashlist.hh\<close>.

  Nodes are addresses; a heap holds the two link fields of every node. \<open>ring h head xs\<close> says that
  the list with sentinel \<open>head\<close> holds exactly the nodes \<open>xs\<close>, in this order. The lemmas show what
  each operation does to the abstract list \<open>xs\<close>, and that it leaves other rings alone.
\<close>

record list_heap =
  next_of :: "u64 \<Rightarrow> u64"
  prev_of :: "u64 \<Rightarrow> u64"

definition set_next :: "list_heap \<Rightarrow> u64 \<Rightarrow> u64 \<Rightarrow> list_heap" where
  "set_next h node v = h\<lparr>next_of := (next_of h)(node := v)\<rparr>"

definition set_prev :: "list_heap \<Rightarrow> u64 \<Rightarrow> u64 \<Rightarrow> list_heap" where
  "set_prev h node v = h\<lparr>prev_of := (prev_of h)(node := v)\<rparr>"

lemma links_of_set [simp]:
  "next_of (set_next h a v) = (next_of h)(a := v)" "prev_of (set_next h a v) = prev_of h"
  "prev_of (set_prev h a v) = (prev_of h)(a := v)" "next_of (set_prev h a v) = next_of h"
  by (simp_all add: set_next_def set_prev_def)

section \<open>The operations\<close>

definition nodeInit :: "list_heap \<Rightarrow> u64 \<Rightarrow> list_heap" where
  "nodeInit h node = set_next (set_prev h node node) node node"

definition listInit :: "list_heap \<Rightarrow> u64 \<Rightarrow> list_heap" where
  "listInit h node = nodeInit h node"

definition isListEmpty :: "list_heap \<Rightarrow> u64 \<Rightarrow> bool" where
  "isListEmpty h head \<longleftrightarrow> next_of h head = head"

text \<open>\<open>None\<close> is the null pointer.\<close>

definition tailList :: "list_heap \<Rightarrow> u64 \<Rightarrow> u64 option" where
  "tailList h head = (if \<not> isListEmpty h head then Some (prev_of h head) else None)"

definition insert_between :: "list_heap \<Rightarrow> u64 \<Rightarrow> u64 \<Rightarrow> u64 \<Rightarrow> list_heap" where
  "insert_between h node prev nxt =
    (let h = set_next h node nxt;
         h = set_prev h node prev;
         h = set_next h prev node
     in set_prev h nxt node)"

definition listInsertNode :: "list_heap \<Rightarrow> u64 \<Rightarrow> u64 \<Rightarrow> list_heap" where
  "listInsertNode h node prev = insert_between h node prev (next_of h prev)"

definition listInsertTail :: "list_heap \<Rightarrow> u64 \<Rightarrow> u64 \<Rightarrow> list_heap" where
  "listInsertTail h node head = insert_between h node (prev_of h head) head"

definition listUpdateEntry :: "list_heap \<Rightarrow> u64 \<Rightarrow> list_heap" where
  "listUpdateEntry h node = insert_between h node (prev_of h node) (next_of h node)"

definition listInsertHead :: "list_heap \<Rightarrow> u64 \<Rightarrow> u64 \<Rightarrow> list_heap" where
  "listInsertHead h node head = insert_between h node head (next_of h head)"

definition list_link :: "list_heap \<Rightarrow> u64 \<Rightarrow> u64 \<Rightarrow> list_heap" where
  "list_link h p n = set_prev (set_next h p n) n p"

definition listInsertList :: "list_heap \<Rightarrow> u64 \<Rightarrow> u64 \<Rightarrow> list_heap" where
  "listInsertList h list where =
    (let h = list_link h where list in list_link h (prev_of h list) (next_of h where))"

definition listRemoveNode :: "list_heap \<Rightarrow> u64 \<Rightarrow> list_heap" where
  "listRemoveNode h node = nodeInit (list_link h (prev_of h node) (next_of h node)) node"

definition listRemoveNodeOnly :: "list_heap \<Rightarrow> u64 \<Rightarrow> list_heap" where
  "listRemoveNodeOnly h node = list_link h (prev_of h node) (next_of h node)"

definition isListTail :: "list_heap \<Rightarrow> u64 \<Rightarrow> u64 \<Rightarrow> bool" where
  "isListTail h list node \<longleftrightarrow> prev_of h list = node"

definition listRetrieveItem :: "list_heap \<Rightarrow> u64 \<Rightarrow> u64 option \<times> list_heap" where
  "listRetrieveItem h list =
    (if \<not> isListEmpty h list
     then (Some (next_of h list), listRemoveNode h (next_of h list))
     else (None, h))"

definition listRetrieveAllItems :: "list_heap \<Rightarrow> u64 \<Rightarrow> u64 \<Rightarrow> list_heap" where
  "listRetrieveAllItems h dest src =
    (let first = next_of h src; last = prev_of h src;
         h = set_prev h first dest;
         h = set_next h last dest;
         h = set_next h dest first;
         h = set_prev h dest last
     in listInit h src)"

section \<open>The abstract list a ring holds\<close>

fun links :: "list_heap \<Rightarrow> u64 \<Rightarrow> u64 list \<Rightarrow> u64 \<Rightarrow> bool" where
  "links h a [] b \<longleftrightarrow> next_of h a = b \<and> prev_of h b = a"
| "links h a (x # xs) b \<longleftrightarrow> next_of h a = x \<and> prev_of h x = a \<and> links h x xs b"

definition ring :: "list_heap \<Rightarrow> u64 \<Rightarrow> u64 list \<Rightarrow> bool" where
  "ring h head xs \<longleftrightarrow> distinct (head # xs) \<and> links h head xs head"

lemma links_append:
  "links h a (xs @ y # ys) b \<longleftrightarrow> links h a xs y \<and> links h y ys b"
  by (induction xs arbitrary: a) auto

lemma links_cong:
  assumes "\<forall>p \<in> set (a # xs). next_of h' p = next_of h p"
    and "\<forall>p \<in> set (xs @ [b]). prev_of h' p = prev_of h p"
  shows "links h' a xs b = links h a xs b"
  using assms by (induction xs arbitrary: a) auto

lemma links_last: "links h a xs b \<Longrightarrow> prev_of h b = last (a # xs)"
  by (induction xs arbitrary: a) auto

lemma links_first: "links h a xs b \<Longrightarrow> next_of h a = hd (xs @ [b])"
  by (cases xs) auto

lemma ring_last: "ring h head xs \<Longrightarrow> prev_of h head = last (head # xs)"
  unfolding ring_def by (blast dest: links_last)

lemma ring_first: "ring h head xs \<Longrightarrow> next_of h head = hd (xs @ [head])"
  unfolding ring_def by (blast dest: links_first)

lemma ring_cong:
  assumes "\<forall>p \<in> set (head # xs). next_of h' p = next_of h p \<and> prev_of h' p = prev_of h p"
  shows "ring h' head xs = ring h head xs"
  using assms links_cong [of head xs h' h head] by (auto simp: ring_def)

lemma ring_node:
  assumes "ring h head (xs @ x # ys)"
  shows "prev_of h x = last (head # xs)" "next_of h x = hd (ys @ [head])"
  using assms by (auto simp: ring_def links_append dest: links_last links_first)

lemma ring_nextE:
  assumes "ring h head xs" and "i < length xs"
  shows "next_of h (xs ! i) = (xs @ [head]) ! Suc i"
proof -
  have "ring h head (take i xs @ xs ! i # drop (Suc i) xs)"
    using assms by (simp add: id_take_nth_drop[symmetric])
  then have "next_of h (xs ! i) = hd (drop (Suc i) xs @ [head])" by (rule ring_node)
  also have "\<dots> = (xs @ [head]) ! Suc i"
    using assms(2) by (cases "Suc i < length xs") (auto simp: hd_append hd_drop_conv_nth nth_append)
  finally show ?thesis .
qed

lemma insert_between_links [simp]:
  "next_of (insert_between h node p n) = (next_of h)(node := n, p := node)"
  "prev_of (insert_between h node p n) = (prev_of h)(node := p, n := node)"
  by (simp_all add: insert_between_def Let_def)

lemma links_insert:
  assumes "links h a (xs @ ys) b" and "node \<notin> set (a # xs @ ys @ [b])"
    and "distinct (a # xs @ ys)" and "b \<notin> set (xs @ ys)"
  shows "links (insert_between h node (last (a # xs)) (hd (ys @ [b]))) a (xs @ node # ys) b"
  using assms
proof (induction xs arbitrary: a)
  case Nil
  show ?case
  proof (cases ys)
    case Nil
    with Nil.prems show ?thesis by auto
  next
    case (Cons y ys')
    have "links (insert_between h node a y) y ys' b = links h y ys' b"
      using Nil.prems Cons by (intro links_cong) auto
    with Nil.prems Cons show ?thesis by auto
  qed
next
  case (Cons x xs)
  let ?h = "insert_between h node (last (x # xs)) (hd (ys @ [b]))"
  have IH: "links ?h x (xs @ node # ys) b"
    using Cons.prems by (intro Cons.IH) auto
  have "a \<noteq> last (x # xs)" using Cons.prems by (metis append_Cons distinct.simps(2) in_set_conv_decomp
        last_in_set list.distinct(1) list.set_intros(2) set_append UnI1 append.assoc)
  moreover have "x \<noteq> hd (ys @ [b])" using Cons.prems by (cases ys) auto
  ultimately show ?case using Cons.prems IH by auto
qed

lemma ring_insert:
  assumes "ring h head (xs @ ys)" and "node \<notin> set (head # xs @ ys)"
  shows "ring (insert_between h node (last (head # xs)) (hd (ys @ [head]))) head (xs @ node # ys)"
  using assms links_insert [of h head xs ys head node] unfolding ring_def by auto

lemma ring_listInit [simp]: "ring (listInit h node) node []"
  by (simp add: ring_def listInit_def nodeInit_def)

lemma ring_listInsertTail:
  assumes "ring h head xs" and "node \<notin> set (head # xs)"
  shows "ring (listInsertTail h node head) head (xs @ [node])"
  using ring_insert [of h head xs "[]" node] assms
  by (simp add: listInsertTail_def ring_last)

lemma ring_listInsertHead:
  assumes "ring h head xs" and "node \<notin> set (head # xs)"
  shows "ring (listInsertHead h node head) head (node # xs)"
  using ring_insert [of h head "[]" xs node] assms
  by (simp add: listInsertHead_def ring_first)

lemma list_link_links [simp]:
  "next_of (list_link h p n) = (next_of h)(p := n)"
  "prev_of (list_link h p n) = (prev_of h)(n := p)"
  by (simp_all add: list_link_def)

lemma links_remove:
  assumes "links h a (xs @ node # ys) b" and "distinct (a # xs @ node # ys)"
    and "b \<notin> set (xs @ node # ys)"
  shows "links (list_link h (last (a # xs)) (hd (ys @ [b]))) a (xs @ ys) b"
  using assms
proof (induction xs arbitrary: a)
  case Nil
  show ?case
  proof (cases ys)
    case Nil
    then show ?thesis by simp
  next
    case (Cons y ys')
    have "links (list_link h a y) y ys' b = links h y ys' b"
      using Nil.prems Cons by (intro links_cong) auto
    with Nil.prems Cons show ?thesis by auto
  qed
next
  case (Cons x xs)
  let ?h = "list_link h (last (x # xs)) (hd (ys @ [b]))"
  have IH: "links ?h x (xs @ ys) b" using Cons.prems by (intro Cons.IH) auto
  have "a \<noteq> last (x # xs)" using Cons.prems last_in_set [of "x # xs"] by auto
  moreover have "x \<noteq> hd (ys @ [b])" using Cons.prems by (cases ys) auto
  ultimately show ?case using Cons.prems IH by auto
qed

lemma ring_listRemoveNodeOnly:
  assumes "ring h head (xs @ node # ys)"
  shows "ring (listRemoveNodeOnly h node) head (xs @ ys)"
  using assms links_remove [of h head xs node ys head] ring_node [OF assms]
  by (auto simp: ring_def listRemoveNodeOnly_def)

lemma ring_listRemoveNode:
  assumes "ring h head (xs @ node # ys)"
  shows "ring (listRemoveNode h node) head (xs @ ys)" and "ring (listRemoveNode h node) node []"
proof -
  have only: "ring (listRemoveNodeOnly h node) head (xs @ ys)"
    using assms by (rule ring_listRemoveNodeOnly)
  have "ring (nodeInit (listRemoveNodeOnly h node) node) head (xs @ ys)
      = ring (listRemoveNodeOnly h node) head (xs @ ys)"
    using assms by (intro ring_cong) (auto simp: nodeInit_def ring_def)
  with only show "ring (listRemoveNode h node) head (xs @ ys)"
    by (simp add: listRemoveNode_def listRemoveNodeOnly_def)
  show "ring (listRemoveNode h node) node []"
    by (simp add: listRemoveNode_def ring_def nodeInit_def)
qed

lemma ring_isListEmpty: "ring h head xs \<Longrightarrow> isListEmpty h head \<longleftrightarrow> xs = []"
  by (cases xs) (auto simp: isListEmpty_def ring_def)

lemma ring_tailList:
  "ring h head xs \<Longrightarrow> tailList h head = (if xs = [] then None else Some (last xs))"
  by (simp add: tailList_def ring_isListEmpty ring_last)

lemma ring_isListTail:
  "ring h head xs \<Longrightarrow> xs \<noteq> [] \<Longrightarrow> isListTail h head node \<longleftrightarrow> node = last xs"
  by (auto simp: isListTail_def ring_last)

lemma ring_listRetrieveItem:
  assumes "ring h head (x # xs)"
  shows "fst (listRetrieveItem h head) = Some x"
    and "ring (snd (listRetrieveItem h head)) head xs"
  using assms ring_listRemoveNode(1) [of h head "[]" x xs] ring_first [OF assms]
  by (auto simp: listRetrieveItem_def ring_isListEmpty)

text \<open>A ring is not touched by an operation whose written nodes lie outside it.\<close>

lemma ring_listInsertTail_other:
  assumes "ring h head xs" and "ring h other ys"
    and "set (head # xs) \<inter> set (other # ys) = {}" and "node \<notin> set (other # ys)"
  shows "ring (listInsertTail h node head) other ys"
proof -
  have "last (head # xs) \<notin> set (other # ys)" using assms(3) last_in_set [of "head # xs"] by auto
  with assms have "ring (listInsertTail h node head) other ys = ring h other ys"
    by (intro ring_cong) (auto simp: listInsertTail_def ring_last)
  with assms(2) show ?thesis by simp
qed

lemma ring_listInit_other:
  assumes "ring h other ys" and "node \<notin> set (other # ys)"
  shows "ring (listInit h node) other ys"
proof -
  have "ring (listInit h node) other ys = ring h other ys"
    using assms by (intro ring_cong) (auto simp: listInit_def nodeInit_def)
  with assms(1) show ?thesis by simp
qed

section \<open>Moving a whole list\<close>

lemma links_relabel_ends:
  assumes "links h a xs b" and "xs \<noteq> []" and "distinct xs"
    and "next_of h' a' = hd xs" and "prev_of h' (hd xs) = a'"
    and "next_of h' (last xs) = b'" and "prev_of h' b' = last xs"
    and "\<forall>p \<in> set (butlast xs). next_of h' p = next_of h p"
    and "\<forall>p \<in> set (tl xs). prev_of h' p = prev_of h p"
  shows "links h' a' xs b'"
proof -
  obtain x ys where xs: "xs = x # ys" using assms(2) by (cases xs) auto
  have "links h' x ys b'"
  proof (cases "ys = []")
    case True
    with assms xs show ?thesis by simp
  next
    case False
    then obtain zs z where ys: "ys = zs @ [z]" by (cases ys rule: rev_cases) auto
    have "links h x zs z" using assms(1) xs ys by (simp add: links_append)
    moreover have "links h' x zs z = links h x zs z"
      using assms xs ys by (intro links_cong) auto
    ultimately show ?thesis using assms xs ys by (simp add: links_append)
  qed
  with assms xs show ?thesis by simp
qed

lemma ring_listRetrieveAllItems:
  assumes src: "ring h src xs" and "xs \<noteq> []" and dest: "dest \<notin> set (src # xs)"
  shows "ring (listRetrieveAllItems h dest src) dest xs"
    and "ring (listRetrieveAllItems h dest src) src []"
proof -
  let ?h = "listRetrieveAllItems h dest src"
  have d: "distinct (src # xs)" and l: "links h src xs src" using src by (auto simp: ring_def)
  have n: "next_of ?h = (next_of h)(last xs := dest, dest := hd xs, src := src)"
    and p: "prev_of ?h = (prev_of h)(hd xs := dest, dest := last xs, src := src)"
    using assms(2) ring_first [OF src] ring_last [OF src]
    by (auto simp: listRetrieveAllItems_def listInit_def nodeInit_def Let_def)
  have hd: "hd xs \<in> set xs" and la: "last xs \<in> set xs" using assms(2) by simp_all
  have nb: "last xs \<notin> set (butlast xs)"
    using d assms(2) by (cases xs rule: rev_cases) auto
  have nt: "hd xs \<notin> set (tl xs)"
    using d assms(2) by (cases xs) auto
  have "links ?h dest xs dest"
    using hd la dest d nb nt assms(2)
    by (intro links_relabel_ends [OF l assms(2)])
       (auto simp: n p dest: in_set_butlastD list.set_sel(2) [OF assms(2)])
  with d dest show "ring ?h dest xs" by (auto simp: ring_def)
  show "ring ?h src []" by (simp add: ring_def n p)
qed

text \<open>
  With an empty source the operation leaves \<open>dest\<close> linked to the source's sentinel: \<open>dest\<close> is not
  the head of any list.
\<close>

lemma listRetrieveAllItems_empty_source:
  assumes "ring h src []" and "dest \<noteq> src"
  shows "next_of (listRetrieveAllItems h dest src) dest = src"
    and "\<not> ring (listRetrieveAllItems h dest src) dest ys"
proof -
  let ?h = "listRetrieveAllItems h dest src"
  have first: "next_of h src = src" "prev_of h src = src" using assms(1) by (auto simp: ring_def)
  show n: "next_of ?h dest = src"
    using assms(2) first by (auto simp: listRetrieveAllItems_def listInit_def nodeInit_def Let_def)
  have p: "prev_of ?h src = src"
    by (simp add: listRetrieveAllItems_def listInit_def nodeInit_def Let_def)
  show "\<not> ring ?h dest ys" using n p assms(2) by (cases ys) (auto simp: ring_def)
qed

text \<open>
  \<open>listInsertList\<close> overwrites the link it reads next, so its second statement repeats its first:
  the old successor of \<open>where\<close> is no longer reachable from \<open>where\<close>.
\<close>

lemma listInsertList_eq_link: "listInsertList h list where = list_link h where list"
  by (simp add: listInsertList_def Let_def list_link_def set_next_def set_prev_def fun_upd_idem)

section \<open>Properties\<close>

text \<open>A run of insertions at the tail, and of retrievals.\<close>

fun insertTails :: "list_heap \<Rightarrow> u64 list \<Rightarrow> u64 \<Rightarrow> list_heap" where
  "insertTails h [] head = h"
| "insertTails h (n # ns) head = insertTails (listInsertTail h n head) ns head"

fun retrieveItems :: "list_heap \<Rightarrow> nat \<Rightarrow> u64 \<Rightarrow> u64 option list \<times> list_heap" where
  "retrieveItems h 0 head = ([], h)"
| "retrieveItems h (Suc k) head =
    (let (x, h') = listRetrieveItem h head; (xs, h'') = retrieveItems h' k head in (x # xs, h''))"

lemma ring_insertTails:
  "ring h head xs \<Longrightarrow> distinct ns \<Longrightarrow> set ns \<inter> set (head # xs) = {} \<Longrightarrow> ring (insertTails h ns head) head (xs @ ns)"
proof (induction ns arbitrary: h xs)
  case (Cons n ns)
  then have "ring (listInsertTail h n head) head (xs @ [n])" by (intro ring_listInsertTail) auto
  from Cons.IH [OF this] Cons.prems show ?case by auto
qed simp

lemma retrieveItems_ring:
  "ring h head (xs @ ys) \<Longrightarrow>
    fst (retrieveItems h (length xs) head) = map Some xs
    \<and> ring (snd (retrieveItems h (length xs) head)) head ys"
proof (induction xs arbitrary: h)
  case (Cons x xs)
  obtain h' where "listRetrieveItem h head = (Some x, h')" "ring h' head (xs @ ys)"
    using ring_listRetrieveItem [of h head x "xs @ ys"] Cons.prems by (cases "listRetrieveItem h head") auto
  with Cons.IH [of h'] show ?case by (auto split: prod.splits)
qed simp

text \<open>
  C19: the list is a first-in first-out queue: distinct nodes inserted at the tail of an empty list
  come back from \<open>listRetrieveItem\<close> in the order they went in, one more retrieval finds nothing, and
  the list is empty again.
\<close>

theorem list_is_fifo:
  assumes "distinct ns" and "head \<notin> set ns"
  shows "let h' = insertTails (listInit h head) ns head; (xs, h'') = retrieveItems h' (length ns) head
     in xs = map Some ns \<and> fst (listRetrieveItem h'' head) = None \<and> isListEmpty h'' head"
proof -
  have "ring (insertTails (listInit h head) ns head) head (ns @ [])"
    using ring_insertTails [of "listInit h head" head "[]" ns] assms by simp
  note r = retrieveItems_ring [OF this]
  have "isListEmpty (snd (retrieveItems (insertTails (listInit h head) ns head) (length ns) head)) head"
    using r ring_isListEmpty [of _ head "[]"] by blast
  with r show ?thesis by (auto simp: Let_def listRetrieveItem_def split: prod.splits)
qed

theorem list_is_fifo_witness:
  "fst (retrieveItems (insertTails (listInit \<lparr>next_of = \<lambda>_. 0, prev_of = \<lambda>_. 0\<rparr> 16) [32, 48, 64] 16) 3 16)
    = map Some [32, 48, 64]"
  using list_is_fifo [of "[32, 48, 64]" 16 "\<lparr>next_of = \<lambda>_. 0, prev_of = \<lambda>_. 0\<rparr>"]
  by (simp add: Let_def numeral_3_eq_3 split: prod.splits)

lemma links_next_closed:
  "links h a xs b \<Longrightarrow> p \<in> set (a # xs) \<Longrightarrow> next_of h p \<in> set (xs @ [b])"
  by (induction xs arbitrary: a) auto

text \<open>
  \<open>listInsertList\<close> does not splice: its second statement reads the link its first one has just
  overwritten. Following \<open>next\<close> from \<open>where\<close> afterwards stays in the inserted ring for ever, so the
  nodes that followed \<open>where\<close> are lost and the walk never comes back to \<open>where\<close>.
\<close>

theorem listInsertList_loses_tail:
  assumes "ring h list xs" and "where \<notin> set (list # xs)"
  shows "(next_of (listInsertList h list where) ^^ Suc k) where \<in> set (list # xs)"
proof (induction k)
  case 0
  show ?case by (simp add: listInsertList_eq_link)
next
  case (Suc k)
  define p where "p = (next_of (listInsertList h list where) ^^ Suc k) where"
  have p: "p \<in> set (list # xs)" using Suc by (simp add: p_def)
  have "next_of h p \<in> set (list # xs)"
    using links_next_closed [of h list xs list p] assms(1) p by (auto simp: ring_def)
  moreover have "p \<noteq> where" using p assms(2) by metis
  ultimately have "next_of (listInsertList h list where) p \<in> set (list # xs)"
    by (simp add: listInsertList_eq_link)
  then show ?case by (simp add: p_def)
qed

theorem listInsertList_loses_tail_witness:
  "(next_of (listInsertList \<lparr>next_of = id(16 := 64, 64 := 16, 32 := 48, 48 := 32),
      prev_of = id(16 := 64, 64 := 16, 32 := 48, 48 := 32)\<rparr> 16 32) ^^ Suc 2) 32 \<in> {16, 64 :: u64}"
  using listInsertList_loses_tail [of "\<lparr>next_of = id(16 := 64, 64 := 16, 32 := 48, 48 := 32),
      prev_of = id(16 := 64, 64 := 16, 32 := 48, 48 := 32)\<rparr>" 16 "[64]" 32 2]
  by (simp add: ring_def)

end
