(* ===== verification/MyMalloc.thy ===== *)
theory MyMalloc
  imports DefineValues
begin

text \<open>
  The profiler's private allocators (\<^verbatim>\<open>src_light/mymalloc.h\<close>, \<^verbatim>\<open>mymalloc.cpp\<close>): one
  static region for allocations made before the profiler is ready, and one mapped region per
  thread for hash table entries. Both are bump allocators; none checks its bound.

  The address \<open>RealX::mmap\<close> returns belongs to the kernel and is an argument.
\<close>

record ProfilerMemory =
  pm_initialized :: bool
  pm_startPointer :: u64
  pm_objectNum :: u32
  pm_endPointer :: u64
  pm_overheadPointer :: u64

definition PROFILER_MEMORY_SIZE :: u64 where [config]: "PROFILER_MEMORY_SIZE = 2 * 1073741824"

definition MMAP_PROFILER_HASH_MEMORY_SIZE :: u64 where
  [config]: "MMAP_PROFILER_HASH_MEMORY_SIZE = 8 * 1073741824"

definition ProfilerMemory_initialize :: "ProfilerMemory \<Rightarrow> ProfilerMemory" where
  "ProfilerMemory_initialize m =
    m\<lparr>pm_endPointer := pm_startPointer m + PROFILER_MEMORY_SIZE,
      pm_overheadPointer := pm_startPointer m,
      pm_initialized := True\<rparr>"

definition ProfilerMemory_checkAndInitialize :: "ProfilerMemory \<Rightarrow> ProfilerMemory" where
  "ProfilerMemory_checkAndInitialize m =
    (if \<not> pm_initialized m then ProfilerMemory_initialize m else m)"

definition ProfilerMemory_GetASpaceFromMemory :: "ProfilerMemory \<Rightarrow> u64 \<Rightarrow> ProfilerMemory" where
  "ProfilerMemory_GetASpaceFromMemory m sz =
    m\<lparr>pm_overheadPointer := pm_overheadPointer m + sz, pm_objectNum := pm_objectNum m + 1\<rparr>"

definition ProfilerMemory_newObjectAddr :: "ProfilerMemory \<Rightarrow> u64 \<Rightarrow> u64" where
  "ProfilerMemory_newObjectAddr m sz = pm_overheadPointer m - sz"

definition ProfilerMemory_mallocWithoutLock :: "ProfilerMemory \<Rightarrow> u64 \<Rightarrow> u64 \<times> ProfilerMemory" where
  "ProfilerMemory_mallocWithoutLock m sz =
    (let m = ProfilerMemory_checkAndInitialize m;
         m = ProfilerMemory_GetASpaceFromMemory m sz
     in (ProfilerMemory_newObjectAddr m sz, m))"

definition ProfilerMemory_inMemory :: "ProfilerMemory \<Rightarrow> u64 \<Rightarrow> bool" where
  "ProfilerMemory_inMemory m addr \<longleftrightarrow> addr \<ge> pm_startPointer m \<and> addr \<le> pm_endPointer m"

definition ProfilerMemory_ifInProfilerMemoryThenFree ::
  "ProfilerMemory \<Rightarrow> u64 \<Rightarrow> bool \<times> ProfilerMemory" where
  "ProfilerMemory_ifInProfilerMemoryThenFree m addr =
    (let m = ProfilerMemory_checkAndInitialize m in (ProfilerMemory_inMemory m addr, m))"

record MMAPProfilerMemory =
  mm_initialized :: bool
  mm_objectNum :: u32
  mm_startPointer :: u64
  mm_endPointer :: u64
  mm_overheadPointer :: u64
  mm_currentSize :: u64

definition MMAPProfilerMemory_initialize ::
  "u64 \<Rightarrow> MMAPProfilerMemory \<Rightarrow> u64 \<Rightarrow> MMAPProfilerMemory" where
  "MMAPProfilerMemory_initialize mmap_result m setSize =
    m\<lparr>mm_currentSize := setSize,
      mm_startPointer := mmap_result,
      mm_endPointer := mmap_result + setSize,
      mm_overheadPointer := mmap_result,
      mm_initialized := True\<rparr>"

text \<open>\<open>finalize\<close> unmaps the part that was never handed out; the range unmapped is returned.\<close>

definition MMAPProfilerMemory_finalize ::
  "MMAPProfilerMemory \<Rightarrow> (u64 \<times> u64) \<times> MMAPProfilerMemory" where
  "MMAPProfilerMemory_finalize m =
    ((mm_overheadPointer m, mm_endPointer m - mm_overheadPointer m), m\<lparr>mm_initialized := False\<rparr>)"

definition MMAPProfilerMemory_GetASpaceFromMemory ::
  "MMAPProfilerMemory \<Rightarrow> u64 \<Rightarrow> MMAPProfilerMemory" where
  "MMAPProfilerMemory_GetASpaceFromMemory m sz =
    m\<lparr>mm_overheadPointer := mm_overheadPointer m + sz, mm_objectNum := mm_objectNum m + 1\<rparr>"

definition MMAPProfilerMemory_newObjectAddr :: "MMAPProfilerMemory \<Rightarrow> u64 \<Rightarrow> u64" where
  "MMAPProfilerMemory_newObjectAddr m sz = mm_overheadPointer m - sz"

definition MMAPProfilerMemory_malloc ::
  "MMAPProfilerMemory \<Rightarrow> u64 \<Rightarrow> u64 \<times> MMAPProfilerMemory" where
  "MMAPProfilerMemory_malloc m sz =
    (let m = MMAPProfilerMemory_GetASpaceFromMemory m sz
     in (MMAPProfilerMemory_newObjectAddr m sz, m))"

definition MMAPProfilerMemory_inMemory :: "MMAPProfilerMemory \<Rightarrow> u64 \<Rightarrow> bool" where
  "MMAPProfilerMemory_inMemory m addr \<longleftrightarrow> addr \<ge> mm_startPointer m \<and> addr \<le> mm_endPointer m"

definition MMAPProfilerMemory_ifInProfilerMemoryThenFree :: "MMAPProfilerMemory \<Rightarrow> u64 \<Rightarrow> bool" where
  "MMAPProfilerMemory_ifInProfilerMemoryThenFree m addr = MMAPProfilerMemory_inMemory m addr"

text \<open>
  The static members of \<open>MyMalloc\<close>. \<open>XThreadMemory::malloc\<close> hands out the cells of an array of
  1024 thread records by index; \<open>hashMalloc\<close> indexes the regions by the running thread. Indexing
  past the array is \<open>OutOfBounds\<close>.
\<close>

record MyMalloc =
  profilerMemory :: ProfilerMemory
  xthread_idx :: u16
  threadLocalProfilerHashMemory :: "MMAPProfilerMemory list"

definition XThreadMemory_malloc :: "u16 \<Rightarrow> crash + (nat \<times> u16)" where
  "XThreadMemory_malloc idx =
    (if unat idx < MAX_THREAD_NUMBER then Inr (unat idx, idx + 1) else Inl OutOfBounds)"

definition MyMalloc_initializeForThreadLocalHashMemory ::
  "u64 \<Rightarrow> MyMalloc \<Rightarrow> nat \<Rightarrow> crash + MyMalloc" where
  "MyMalloc_initializeForThreadLocalHashMemory mmap_result mm threadIndex =
    (if threadIndex < length (threadLocalProfilerHashMemory mm)
     then Inr (mm\<lparr>threadLocalProfilerHashMemory :=
       (threadLocalProfilerHashMemory mm)[threadIndex :=
         MMAPProfilerMemory_initialize mmap_result
           (threadLocalProfilerHashMemory mm ! threadIndex) MMAP_PROFILER_HASH_MEMORY_SIZE]\<rparr>)
     else Inl OutOfBounds)"

definition MyMalloc_finalizeForThreadLocalHashMemory :: "MyMalloc \<Rightarrow> nat \<Rightarrow> crash + MyMalloc" where
  "MyMalloc_finalizeForThreadLocalHashMemory mm threadIndex =
    (if threadIndex < length (threadLocalProfilerHashMemory mm)
     then Inr (mm\<lparr>threadLocalProfilerHashMemory :=
       (threadLocalProfilerHashMemory mm)[threadIndex :=
         snd (MMAPProfilerMemory_finalize (threadLocalProfilerHashMemory mm ! threadIndex))]\<rparr>)
     else Inl OutOfBounds)"

definition MyMalloc_threadLocalHashMemoryInitialized :: "MyMalloc \<Rightarrow> nat \<Rightarrow> crash + bool" where
  "MyMalloc_threadLocalHashMemoryInitialized mm threadIndex =
    (if threadIndex < length (threadLocalProfilerHashMemory mm)
     then Inr (mm_initialized (threadLocalProfilerHashMemory mm ! threadIndex))
     else Inl OutOfBounds)"

definition MyMalloc_malloc :: "MyMalloc \<Rightarrow> u64 \<Rightarrow> u64 \<times> MyMalloc" where
  "MyMalloc_malloc mm sz =
    (let (object, pm) = ProfilerMemory_mallocWithoutLock (profilerMemory mm) sz
     in (object, mm\<lparr>profilerMemory := pm\<rparr>))"

definition MyMalloc_ifInProfilerMemoryThenFree :: "MyMalloc \<Rightarrow> u64 \<Rightarrow> bool \<times> MyMalloc" where
  "MyMalloc_ifInProfilerMemoryThenFree mm addr =
    (let (r, pm) = ProfilerMemory_ifInProfilerMemoryThenFree (profilerMemory mm) addr
     in (r, mm\<lparr>profilerMemory := pm\<rparr>))"

definition MyMalloc_hashMalloc :: "MyMalloc \<Rightarrow> nat \<Rightarrow> u64 \<Rightarrow> crash + (u64 \<times> MyMalloc)" where
  "MyMalloc_hashMalloc mm runningThreadIndex sz =
    (if runningThreadIndex < length (threadLocalProfilerHashMemory mm)
     then (let (object, m) = MMAPProfilerMemory_malloc
                 (threadLocalProfilerHashMemory mm ! runningThreadIndex) sz
           in Inr (object, mm\<lparr>threadLocalProfilerHashMemory :=
                (threadLocalProfilerHashMemory mm)[runningThreadIndex := m]\<rparr>))
     else Inl OutOfBounds)"

definition MyMalloc_xthreadMalloc :: "MyMalloc \<Rightarrow> crash + (nat \<times> MyMalloc)" where
  "MyMalloc_xthreadMalloc mm =
    bindR (XThreadMemory_malloc (xthread_idx mm)) (\<lambda>(i, idx). Inr (i, mm\<lparr>xthread_idx := idx\<rparr>))"

section \<open>What a region has handed out\<close>

text \<open>A run of requests, and the blocks (address, size) it returned.\<close>

fun mmap_mallocs :: "MMAPProfilerMemory \<Rightarrow> u64 list \<Rightarrow> (u64 \<times> u64) list \<times> MMAPProfilerMemory" where
  "mmap_mallocs m [] = ([], m)"
| "mmap_mallocs m (sz # sizes) =
    (let (p, m') = MMAPProfilerMemory_malloc m sz; (ps, m'') = mmap_mallocs m' sizes
     in ((p, sz) # ps, m''))"

definition block_range :: "u64 \<times> u64 \<Rightarrow> nat set" where
  "block_range b = {unat (fst b) ..< unat (fst b) + unat (snd b)}"

lemma MMAP_malloc_fst [simp]: "fst (MMAPProfilerMemory_malloc m sz) = mm_overheadPointer m"
  by (simp add: MMAPProfilerMemory_malloc_def MMAPProfilerMemory_newObjectAddr_def
      MMAPProfilerMemory_GetASpaceFromMemory_def Let_def)

lemma MMAP_malloc_snd [simp]:
  "snd (MMAPProfilerMemory_malloc m sz) = MMAPProfilerMemory_GetASpaceFromMemory m sz"
  by (simp add: MMAPProfilerMemory_malloc_def Let_def)

lemma mmap_mallocs_Cons:
  "fst (mmap_mallocs m (s # ss)) = (mm_overheadPointer m, s)
     # fst (mmap_mallocs (MMAPProfilerMemory_GetASpaceFromMemory m s) ss)"
  "snd (mmap_mallocs m (s # ss)) = snd (mmap_mallocs (MMAPProfilerMemory_GetASpaceFromMemory m s) ss)"
  using MMAP_malloc_fst [of m s] MMAP_malloc_snd [of m s]
  by (auto split: prod.splits simp del: MMAP_malloc_fst MMAP_malloc_snd)

declare mmap_mallocs.simps(2) [simp del]

lemma GetASpace_overhead [simp]:
  "mm_overheadPointer (MMAPProfilerMemory_GetASpaceFromMemory m s) = mm_overheadPointer m + s"
  by (simp add: MMAPProfilerMemory_GetASpaceFromMemory_def)

text \<open>While the region lasts, the blocks lie after the bump pointer, in order.\<close>

lemma mmap_mallocs_blocks:
  assumes "unat (mm_overheadPointer m) + (\<Sum>s\<leftarrow>sizes. unat s) < 2 ^ 64"
  shows "(\<forall>b \<in> set (fst (mmap_mallocs m sizes)). unat (mm_overheadPointer m) \<le> unat (fst b)
      \<and> unat (fst b) + unat (snd b) \<le> unat (mm_overheadPointer m) + (\<Sum>s\<leftarrow>sizes. unat s))
    \<and> sorted_wrt (\<lambda>b c. unat (fst b) + unat (snd b) \<le> unat (fst c)) (fst (mmap_mallocs m sizes))
    \<and> unat (mm_overheadPointer (snd (mmap_mallocs m sizes)))
      = unat (mm_overheadPointer m) + (\<Sum>s\<leftarrow>sizes. unat s)"
  using assms
proof (induction sizes arbitrary: m)
  case (Cons s ss)
  let ?m = "MMAPProfilerMemory_GetASpaceFromMemory m s"
  have adv: "unat (mm_overheadPointer ?m) = unat (mm_overheadPointer m) + unat s"
    using Cons.prems by (simp add: unat_add_bound)
  with Cons.IH [of ?m] Cons.prems show ?case
    by (fastforce simp: mmap_mallocs_Cons)
qed simp

lemma mmap_mallocs_in_region:
  assumes "unat (mm_overheadPointer m) + (\<Sum>s\<leftarrow>sizes. unat s) < 2 ^ 64"
    and "b \<in> set (fst (mmap_mallocs m sizes))"
  shows "unat (mm_overheadPointer m) \<le> unat (fst b)"
    and "unat (fst b) + unat (snd b) \<le> unat (mm_overheadPointer m) + (\<Sum>s\<leftarrow>sizes. unat s)"
  using mmap_mallocs_blocks [OF assms(1)] assms(2) by auto

lemma mmap_mallocs_disjoint:
  assumes "unat (mm_overheadPointer m) + (\<Sum>s\<leftarrow>sizes. unat s) < 2 ^ 64" (is "?bound < _")
    and "i < j" and "j < length (fst (mmap_mallocs m sizes))"
  shows "block_range (fst (mmap_mallocs m sizes) ! i) \<inter> block_range (fst (mmap_mallocs m sizes) ! j) = {}"
proof -
  have "sorted_wrt (\<lambda>b c. unat (fst b) + unat (snd b) \<le> unat (fst c)) (fst (mmap_mallocs m sizes))"
    using mmap_mallocs_blocks [OF assms(1)] by blast
  from sorted_wrt_nth_less [OF this assms(2,3)] show ?thesis by (auto simp: block_range_def)
qed

section \<open>Properties\<close>


definition unused_region :: MMAPProfilerMemory where
  "unused_region = \<lparr>mm_initialized = False, mm_objectNum = 0, mm_startPointer = 0, mm_endPointer = 0,
    mm_overheadPointer = 0, mm_currentSize = 0\<rparr>"


end
