(* ===== verification/HashMap.thy ===== *)
theory HashMap
  imports HashList MyMalloc
begin

text \<open>
  The chained hash table of \<^verbatim>\<open>src_light/hashmap.hh\<close>, with its hash functions from
  \<^verbatim>\<open>hashfuncs.hh\<close>.

  Buckets and entries live at addresses. A bucket is a list sentinel and a 16-bit entry count; an
  entry is a list node, a key and a value. Entries come from the running thread's private region.
  A pointer to an entry's value is modelled by the entry's address. The operations are compiled
  without \<open>LOCK_PROTECTION\<close>, as the source sets it.
\<close>

section \<open>Hash functions\<close>

definition hashAddr :: "u64 \<Rightarrow> u64" where
  "hashAddr addr = drop_bit 7 addr"

definition hash_uint8_t :: "u8 \<Rightarrow> u64" where
  "hash_uint8_t x = ucast x"

definition hash_uint16_t :: "u16 \<Rightarrow> u64" where
  "hash_uint16_t x = ucast x"

definition hash_uint32_t :: "u32 \<Rightarrow> u64" where
  "hash_uint32_t x = ucast x"

definition hash_uint64_t :: "u64 \<Rightarrow> u64" where
  "hash_uint64_t x = x"

definition compareAddr :: "u64 \<Rightarrow> u64 \<Rightarrow> bool" where
  "compareAddr addr1 addr2 \<longleftrightarrow> addr1 = addr2"

definition compare_uint8_t :: "u8 \<Rightarrow> u8 \<Rightarrow> bool" where
  "compare_uint8_t var1 var2 \<longleftrightarrow> var1 = var2"

definition compare_uint64_t :: "u64 \<Rightarrow> u64 \<Rightarrow> bool" where
  "compare_uint64_t var1 var2 \<longleftrightarrow> var1 = var2"

section \<open>The table\<close>

record ('k, 'v) HashMap =
  hm_initialized :: bool
  hm_buckets :: u64
  hm_bucketsTotal :: u64
  hm_totalEntry :: u64
  hm_lists :: list_heap
  hm_count :: "u64 \<Rightarrow> u16"
  hm_key :: "u64 \<Rightarrow> 'k"
  hm_value :: "u64 \<Rightarrow> 'v"
  hm_hashfunc :: "'k \<Rightarrow> u64"
  hm_keycmp :: "'k \<Rightarrow> 'k \<Rightarrow> bool"
  hm_sizeof_entry :: u64

text \<open>\<open>sizeof (struct HashBucket)\<close>: two pointers and a short, padded.\<close>

definition SIZEOF_HASHBUCKET :: u64 where [config]: "SIZEOF_HASHBUCKET = 24"

definition bucket_addr :: "('k, 'v) HashMap \<Rightarrow> u64 \<Rightarrow> u64" where
  "bucket_addr hm index = hm_buckets hm + index * SIZEOF_HASHBUCKET"

definition getHashBucket :: "('k, 'v) HashMap \<Rightarrow> u64 \<Rightarrow> u64 option" where
  "getHashBucket hm index =
    (if index < hm_bucketsTotal hm then Some (bucket_addr hm index) else None)"

definition HashBucket_initialize :: "('k, 'v) HashMap \<Rightarrow> u64 \<Rightarrow> ('k, 'v) HashMap" where
  "HashBucket_initialize hm b =
    hm\<lparr>hm_count := (hm_count hm)(b := 0), hm_lists := listInit (hm_lists hm) b\<rparr>"

definition getFirstEntry :: "('k, 'v) HashMap \<Rightarrow> u64 \<Rightarrow> u64" where
  "getFirstEntry hm b = next_of (hm_lists hm) b"

definition nextEntry :: "('k, 'v) HashMap \<Rightarrow> u64 \<Rightarrow> u64" where
  "nextEntry hm e = next_of (hm_lists hm) e"

text \<open>The size of the mapping \<open>initialize\<close> asks for; the address it gets is an argument below.\<close>

definition HashMap_mapsize :: "u64 \<Rightarrow> u64" where
  "HashMap_mapsize sz = alignup (sz * SIZEOF_HASHBUCKET) 4096"

definition HashMap_initialize ::
  "u64 \<Rightarrow> ('k \<Rightarrow> u64) \<Rightarrow> ('k \<Rightarrow> 'k \<Rightarrow> bool) \<Rightarrow> u64 \<Rightarrow> ('k, 'v) HashMap \<Rightarrow> ('k, 'v) HashMap" where
  "HashMap_initialize mmap_result hfunc kcmp sz hm =
    (if hm_initialized hm then hm
     else
       (let hm = hm\<lparr>hm_bucketsTotal := sz, hm_totalEntry := 0, hm_hashfunc := hfunc,
                   hm_keycmp := kcmp, hm_buckets := mmap_result\<rparr>;
            hm = for_loop (unat sz) (\<lambda>i hm. HashBucket_initialize hm (bucket_addr hm (of_nat i))) hm
        in hm\<lparr>hm_initialized := True\<rparr>))"

definition hashIndex :: "('k, 'v) HashMap \<Rightarrow> 'k \<Rightarrow> u64" where
  "hashIndex hm key = hm_hashfunc hm key AND (hm_bucketsTotal hm - 1)"

text \<open>The \<open>while\<close> loop of \<open>getEntry\<close>: at most \<open>count\<close> entries, starting at \<open>entry\<close>.\<close>

fun getEntry_loop :: "('k, 'v) HashMap \<Rightarrow> 'k \<Rightarrow> u64 \<Rightarrow> nat \<Rightarrow> u64 option" where
  "getEntry_loop hm key entry 0 = None"
| "getEntry_loop hm key entry (Suc count) =
    (if hm_keycmp hm (hm_key hm entry) key then Some entry
     else getEntry_loop hm key (nextEntry hm entry) count)"

definition getEntry :: "('k, 'v) HashMap \<Rightarrow> u64 \<Rightarrow> 'k \<Rightarrow> u64 option" where
  "getEntry hm first key = getEntry_loop hm key (getFirstEntry hm first) (unat (hm_count hm first))"

text \<open>A null bucket is dereferenced by every caller.\<close>

definition with_bucket :: "('k, 'v) HashMap \<Rightarrow> 'k \<Rightarrow> (u64 \<Rightarrow> crash + 'r) \<Rightarrow> crash + 'r" where
  "with_bucket hm key f =
    (case getHashBucket hm (hashIndex hm key) of None \<Rightarrow> Inl NullPointer | Some b \<Rightarrow> f b)"

definition HashMap_find :: "('k, 'v) HashMap \<Rightarrow> 'k \<Rightarrow> crash + u64 option" where
  "HashMap_find hm key = with_bucket hm key (\<lambda>first. Inr (getEntry hm first key))"

definition createNewEntry ::
  "('k, 'v) HashMap \<Rightarrow> MyMalloc \<Rightarrow> nat \<Rightarrow> 'k \<Rightarrow> 'v \<Rightarrow> crash + (u64 \<times> ('k, 'v) HashMap \<times> MyMalloc)" where
  "createNewEntry hm mm tid key val =
    bindR (MyMalloc_hashMalloc mm tid (hm_sizeof_entry hm)) (\<lambda>(entry, mm).
      Inr (entry, hm\<lparr>hm_lists := listInit (hm_lists hm) entry,
                     hm_key := (hm_key hm)(entry := key),
                     hm_value := (hm_value hm)(entry := val)\<rparr>, mm))"

definition insertEntry ::
  "('k, 'v) HashMap \<Rightarrow> MyMalloc \<Rightarrow> nat \<Rightarrow> u64 \<Rightarrow> 'k \<Rightarrow> 'v
    \<Rightarrow> crash + (u64 \<times> ('k, 'v) HashMap \<times> MyMalloc)" where
  "insertEntry hm mm tid head key val =
    bindR (createNewEntry hm mm tid key val) (\<lambda>(entry, hm, mm).
      Inr (entry, hm\<lparr>hm_lists := listInsertTail (hm_lists hm) entry head,
                     hm_count := (hm_count hm)(head := hm_count hm head + 1),
                     hm_totalEntry := hm_totalEntry hm + 1\<rparr>, mm))"

definition HashMap_insert ::
  "('k, 'v) HashMap \<Rightarrow> MyMalloc \<Rightarrow> nat \<Rightarrow> 'k \<Rightarrow> 'v
    \<Rightarrow> crash + (u64 \<times> ('k, 'v) HashMap \<times> MyMalloc)" where
  "HashMap_insert hm mm tid key val =
    with_bucket hm key (\<lambda>first. insertEntry hm mm tid first key val)"

text \<open>Returns whether the key was already there.\<close>

definition HashMap_insertIfAbsent ::
  "('k, 'v) HashMap \<Rightarrow> MyMalloc \<Rightarrow> nat \<Rightarrow> 'k \<Rightarrow> 'v
    \<Rightarrow> crash + (bool \<times> ('k, 'v) HashMap \<times> MyMalloc)" where
  "HashMap_insertIfAbsent hm mm tid key val =
    with_bucket hm key (\<lambda>first.
      case getEntry hm first key of
        None \<Rightarrow> bindR (insertEntry hm mm tid first key val) (\<lambda>(_, hm, mm). Inr (False, hm, mm))
      | Some _ \<Rightarrow> Inr (True, hm, mm))"

text \<open>A client writes through the value pointer \<open>find\<close> or \<open>insert\<close> gave it.\<close>

definition HashMap_assign :: "('k, 'v) HashMap \<Rightarrow> u64 \<Rightarrow> 'v \<Rightarrow> ('k, 'v) HashMap" where
  "HashMap_assign hm entry val = hm\<lparr>hm_value := (hm_value hm)(entry := val)\<rparr>"

definition getEntryNumber :: "('k, 'v) HashMap \<Rightarrow> u64" where
  "getEntryNumber hm = hm_totalEntry hm"

section \<open>The iterator\<close>

text \<open>
  An iterator is the current entry and bucket position; \<open>None\<close> for the entry is \<open>end()\<close>. The
  search for the next non-empty bucket runs over positions below \<open>_bucketsTotal\<close>.
\<close>

fun scan_buckets :: "('k, 'v) HashMap \<Rightarrow> u64 \<Rightarrow> nat \<Rightarrow> (u64 \<times> u64) option" where
  "scan_buckets hm pos 0 = None"
| "scan_buckets hm pos (Suc n) =
    (case getHashBucket hm pos of
       None \<Rightarrow> None
     | Some b \<Rightarrow> if hm_count hm b \<noteq> 0 then Some (getFirstEntry hm b, pos)
                 else scan_buckets hm (pos + 1) n)"

definition HashMap_begin :: "('k, 'v) HashMap \<Rightarrow> (u64 \<times> u64) option" where
  "HashMap_begin hm = scan_buckets hm 0 (unat (hm_bucketsTotal hm))"

definition iterator_next :: "('k, 'v) HashMap \<Rightarrow> u64 \<times> u64 \<Rightarrow> (u64 \<times> u64) option" where
  "iterator_next hm it =
    (let (entry, pos) = it in
     if \<not> isListTail (hm_lists hm) (bucket_addr hm pos) entry
     then Some (nextEntry hm entry, pos)
     else scan_buckets hm (pos + 1) (unat (hm_bucketsTotal hm) - unat pos - 1))"

text \<open>The entries a range-based \<open>for\<close> visits, with fuel for the number of steps.\<close>

fun iterate :: "('k, 'v) HashMap \<Rightarrow> nat \<Rightarrow> (u64 \<times> u64) option \<Rightarrow> u64 list option" where
  "iterate hm fuel None = Some []"
| "iterate hm 0 (Some it) = None"
| "iterate hm (Suc fuel) (Some it) =
    map_option ((#) (fst it)) (iterate hm fuel (iterator_next hm it))"

end
