(* ===== verification/HashMap_Correct.thy ===== *)
theory HashMap_Correct
  imports HashMap
begin

text \<open>
  The hash table refines a finite map. \<open>hm_rep hm B\<close> says that bucket \<open>i\<close> of \<open>hm\<close> is a well-formed
  ring holding the entries \<open>B i\<close>, each in the bucket its key hashes to; \<open>hm_abs\<close> is the map it
  stands for. Lookups agree with that map as long as no bucket holds more than 65535 entries, the
  bound of the bucket's 16-bit count.

  \<open>region_ok\<close> states what the bump allocators guarantee: entries handed out lie below the bump
  pointer of their thread's region, regions do not overlap, and the bucket array lies outside them.
\<close>

definition bucket_at :: "('k, 'v) HashMap \<Rightarrow> nat \<Rightarrow> u64" where
  "bucket_at hm i = bucket_addr hm (of_nat i)"

definition nbuckets :: "('k, 'v) HashMap \<Rightarrow> nat" where
  "nbuckets hm = unat (hm_bucketsTotal hm)"

definition bucket_of :: "('k, 'v) HashMap \<Rightarrow> 'k \<Rightarrow> nat" where
  "bucket_of hm k = unat (hashIndex hm k)"

definition bucket_nodes :: "('k, 'v) HashMap \<Rightarrow> (nat \<Rightarrow> u64 list) \<Rightarrow> nat \<Rightarrow> u64 set" where
  "bucket_nodes hm B i = set (bucket_at hm i # B i)"

definition hm_rep :: "('k, 'v) HashMap \<Rightarrow> (nat \<Rightarrow> u64 list) \<Rightarrow> bool" where
  "hm_rep hm B \<longleftrightarrow> 0 < nbuckets hm
    \<and> (\<forall>a b. hm_keycmp hm a b \<longleftrightarrow> a = b)
    \<and> (\<forall>i < nbuckets hm. ring (hm_lists hm) (bucket_at hm i) (B i)
         \<and> hm_count hm (bucket_at hm i) = of_nat (length (B i)) \<and> length (B i) < 65536
         \<and> (\<forall>e \<in> set (B i). bucket_of hm (hm_key hm e) = i)
         \<and> distinct (map (hm_key hm) (B i)))
    \<and> (\<forall>i < nbuckets hm. \<forall>j < nbuckets hm. i \<noteq> j \<longrightarrow> bucket_nodes hm B i \<inter> bucket_nodes hm B j = {})"

definition hm_abs :: "('k, 'v) HashMap \<Rightarrow> (nat \<Rightarrow> u64 list) \<Rightarrow> 'k \<Rightarrow> 'v option" where
  "hm_abs hm B k = map_option (hm_value hm) (find (\<lambda>e. hm_key hm e = k) (B (bucket_of hm k)))"

lemma bucket_of_less: "0 < nbuckets hm \<Longrightarrow> bucket_of hm k < nbuckets hm"
proof -
  assume "0 < nbuckets hm"
  have "hashIndex hm k \<le> hm_bucketsTotal hm - 1" by (simp add: hashIndex_def word_and_le1)
  moreover have "hm_bucketsTotal hm - 1 < hm_bucketsTotal hm"
    using \<open>0 < nbuckets hm\<close> by (auto simp: nbuckets_def word_less_nat_alt unat_minus_one unat_gt_0)
  ultimately show ?thesis by (auto simp: bucket_of_def nbuckets_def word_less_nat_alt word_le_nat_alt)
qed

lemma with_bucket_eq:
  "0 < nbuckets hm \<Longrightarrow> with_bucket hm k f = f (bucket_at hm (bucket_of hm k))"
  using bucket_of_less [of hm k]
  by (simp add: with_bucket_def getHashBucket_def word_less_nat_alt bucket_of_def nbuckets_def bucket_at_def)

lemma getEntry_loop_links:
  "links (hm_lists hm) a xs b \<Longrightarrow>
    getEntry_loop hm k (next_of (hm_lists hm) a) (length xs) = find (\<lambda>e. hm_keycmp hm (hm_key hm e) k) xs"
  by (induction xs arbitrary: a) (auto simp: nextEntry_def)

lemma getEntry_rep:
  assumes "hm_rep hm B" and "i < nbuckets hm"
  shows "getEntry hm (bucket_at hm i) k = find (\<lambda>e. hm_key hm e = k) (B i)"
proof -
  have r: "ring (hm_lists hm) (bucket_at hm i) (B i)"
    and c: "unat (hm_count hm (bucket_at hm i)) = length (B i)"
    and cmp: "\<And>a b. hm_keycmp hm a b \<longleftrightarrow> a = b"
    using assms by (auto simp: hm_rep_def unat_of_nat_small)
  from r have "links (hm_lists hm) (bucket_at hm i) (B i) (bucket_at hm i)" by (simp add: ring_def)
  from getEntry_loop_links [OF this, of k] show ?thesis
    by (simp add: getEntry_def getFirstEntry_def c cmp)
qed

lemma find_append:
  "find P (xs @ ys) = (case find P xs of None \<Rightarrow> find P ys | Some x \<Rightarrow> Some x)"
  by (induction xs) auto

lemma find_in_set: "find P xs = Some e \<Longrightarrow> e \<in> set xs \<and> P e"
  by (induction xs) (auto split: if_splits)

lemma find_unique_iff:
  assumes "inj_on f (set xs)"
  shows "find (\<lambda>e. f e = k) xs = Some e \<longleftrightarrow> e \<in> set xs \<and> f e = k"
  using assms by (induction xs) auto

lemma HashMap_find_rep:
  assumes "hm_rep hm B"
  shows "HashMap_find hm k = Inr (find (\<lambda>e. hm_key hm e = k) (B (bucket_of hm k)))"
  using assms bucket_of_less [of hm k]
  by (simp add: HashMap_find_def with_bucket_eq getEntry_rep hm_rep_def [of hm B, THEN iffD1])

lemma HashMap_find_abs:
  assumes "hm_rep hm B"
  shows "\<exists>r. HashMap_find hm k = Inr r \<and> map_option (hm_value hm) r = hm_abs hm B k"
  using HashMap_find_rep [OF assms] by (simp add: hm_abs_def)

section \<open>Writing through a value pointer\<close>

lemma hm_rep_assign: "hm_rep (HashMap_assign hm e v) B = hm_rep hm B"
  by (simp add: hm_rep_def HashMap_assign_def nbuckets_def bucket_at_def bucket_addr_def bucket_of_def
      hashIndex_def bucket_nodes_def)

lemma hm_abs_assign:
  assumes "hm_rep hm B" and "HashMap_find hm k = Inr (Some e)"
  shows "hm_abs (HashMap_assign hm e v) B = (hm_abs hm B)(k \<mapsto> v)"
proof
  fix k'
  let ?b = "\<lambda>k. B (bucket_of hm k)"
  have pos: "0 < nbuckets hm" using assms(1) by (simp add: hm_rep_def)
  have found: "find (\<lambda>e. hm_key hm e = k) (?b k) = Some e"
    using HashMap_find_rep [OF assms(1), of k] assms(2) by simp
  have "hm_key hm e = k" using found by (auto simp: find_Some_iff)
  have same: "bucket_of (HashMap_assign hm e v) = bucket_of hm" "hm_key (HashMap_assign hm e v) = hm_key hm"
    by (auto simp: HashMap_assign_def bucket_of_def hashIndex_def)
  show "hm_abs (HashMap_assign hm e v) B k' = ((hm_abs hm B)(k \<mapsto> v)) k'"
  proof (cases "k' = k")
    case True
    with found show ?thesis by (simp add: hm_abs_def same) (simp add: HashMap_assign_def)
  next
    case False
    have "find (\<lambda>e. hm_key hm e = k') (?b k') \<noteq> Some e"
      using \<open>hm_key hm e = k\<close> False by (auto simp: find_Some_iff)
    with False show ?thesis
      by (cases "find (\<lambda>e. hm_key hm e = k') (?b k')") (auto simp: hm_abs_def same, auto simp: HashMap_assign_def)
  qed
qed

section \<open>Insertion\<close>

text \<open>The table after \<open>insertEntry\<close> linked the new entry \<open>p\<close>.\<close>

definition linked_entry :: "('k, 'v) HashMap \<Rightarrow> u64 \<Rightarrow> u64 \<Rightarrow> 'k \<Rightarrow> 'v \<Rightarrow> ('k, 'v) HashMap" where
  "linked_entry hm p b key val =
    hm\<lparr>hm_lists := listInsertTail (listInit (hm_lists hm) p) p b,
       hm_key := (hm_key hm)(p := key), hm_value := (hm_value hm)(p := val),
       hm_count := (hm_count hm)(b := hm_count hm b + 1), hm_totalEntry := hm_totalEntry hm + 1\<rparr>"

lemma insertEntry_eq:
  assumes "MyMalloc_hashMalloc mm tid (hm_sizeof_entry hm) = Inr (p, mm')"
  shows "insertEntry hm mm tid b key val = Inr (p, linked_entry hm p b key val, mm')"
  using assms by (simp add: insertEntry_def createNewEntry_def linked_entry_def)

lemma linked_entry_simps [simp]:
  "nbuckets (linked_entry hm p b key val) = nbuckets hm"
  "bucket_at (linked_entry hm p b key val) = bucket_at hm"
  "bucket_of (linked_entry hm p b key val) = bucket_of hm"
  "hm_keycmp (linked_entry hm p b key val) = hm_keycmp hm"
  "hm_key (linked_entry hm p b key val) = (hm_key hm)(p := key)"
  "hm_value (linked_entry hm p b key val) = (hm_value hm)(p := val)"
  "hm_count (linked_entry hm p b key val) = (hm_count hm)(b := hm_count hm b + 1)"
  "hm_lists (linked_entry hm p b key val) = listInsertTail (listInit (hm_lists hm) p) p b"
  "hm_sizeof_entry (linked_entry hm p b key val) = hm_sizeof_entry hm"
  "hm_buckets (linked_entry hm p b key val) = hm_buckets hm"
  by (auto simp: linked_entry_def nbuckets_def bucket_at_def bucket_addr_def bucket_of_def hashIndex_def)

lemma linked_entry_rep:
  fixes hm :: "('k, 'v) HashMap" and key :: 'k
  defines "i \<equiv> bucket_of hm key"
  assumes rep: "hm_rep hm B" and room: "length (B i) < 65535"
    and fresh: "\<forall>j < nbuckets hm. p \<notin> bucket_nodes hm B j"
    and absent: "hm_abs hm B key = None"
  shows "hm_rep (linked_entry hm p (bucket_at hm i) key val) (B(i := B i @ [p]))"
    and "hm_abs (linked_entry hm p (bucket_at hm i) key val) (B(i := B i @ [p])) = (hm_abs hm B)(key \<mapsto> val)"
proof -
  let ?hm = "linked_entry hm p (bucket_at hm i) key val" and ?B = "B(i := B i @ [p])"
  have pos: "0 < nbuckets hm" and cmp: "\<And>a b. hm_keycmp hm a b \<longleftrightarrow> a = b"
    using rep by (simp_all add: hm_rep_def)
  have i: "i < nbuckets hm" unfolding i_def using pos by (rule bucket_of_less)
  have buck: "ring (hm_lists hm) (bucket_at hm j) (B j)"
      "hm_count hm (bucket_at hm j) = of_nat (length (B j))" "length (B j) < 65536"
      "\<forall>e \<in> set (B j). bucket_of hm (hm_key hm e) = j" "distinct (map (hm_key hm) (B j))"
    if "j < nbuckets hm" for j using rep that by (auto simp: hm_rep_def)
  have disj: "bucket_nodes hm B j \<inter> bucket_nodes hm B l = {}"
    if "j < nbuckets hm" "l < nbuckets hm" "j \<noteq> l" for j l
    using rep that by (auto simp: hm_rep_def)
  have p_not: "p \<notin> set (bucket_at hm j # B j)" if "j < nbuckets hm" for j
    using fresh that by (simp add: bucket_nodes_def)
  have init: "ring (listInit (hm_lists hm) p) (bucket_at hm j) (B j)" if "j < nbuckets hm" for j
    using buck(1) [OF that] p_not [OF that] by (rule ring_listInit_other)
  have ne: "bucket_at hm j \<noteq> bucket_at hm i" if "j < nbuckets hm" "j \<noteq> i" for j
    using disj [OF that(1) i that(2)] by (auto simp: bucket_nodes_def)
  have key_ne: "key \<notin> hm_key hm ` set (B i)"
    using absent by (auto simp: hm_abs_def find_None_iff i_def)
  have bucket: "ring (hm_lists ?hm) (bucket_at ?hm j) (?B j)
      \<and> hm_count ?hm (bucket_at ?hm j) = of_nat (length (?B j)) \<and> length (?B j) < 65536
      \<and> (\<forall>e \<in> set (?B j). bucket_of ?hm (hm_key ?hm e) = j)
      \<and> distinct (map (hm_key ?hm) (?B j))" if j: "j < nbuckets hm" for j
  proof (cases "j = i")
    case True
    have keys: "map ((hm_key hm)(p := key)) (B i) = map (hm_key hm) (B i)"
      using p_not [OF i] by (intro map_cong) auto
    from True i init [OF i] buck [OF i] p_not [OF i] room key_ne show ?thesis
      by (auto simp: ring_listInsertTail keys i_def)
  next
    case False
    have keys: "map ((hm_key hm)(p := key)) (B j) = map (hm_key hm) (B j)"
      using p_not [OF j] by (intro map_cong) auto
    have "ring (listInsertTail (listInit (hm_lists hm) p) p (bucket_at hm i)) (bucket_at hm j) (B j)"
      using init [OF i] init [OF j] disj [OF i j] False p_not [OF j]
      by (intro ring_listInsertTail_other) (auto simp: bucket_nodes_def)
    with False j buck [OF j] p_not [OF j] ne show ?thesis by (auto simp: keys)
  qed
  have nodes: "bucket_nodes ?hm ?B j = (if j = i then insert p (bucket_nodes hm B i) else bucket_nodes hm B j)" for j
    by (auto simp: bucket_nodes_def)
  show rep': "hm_rep ?hm ?B"
    unfolding hm_rep_def using pos cmp bucket disj fresh i by (auto simp: nodes)
  show "hm_abs ?hm ?B = (hm_abs hm B)(key \<mapsto> val)"
  proof
    fix k
    have fresh_k: "p \<notin> set (B (bucket_of hm k))" using p_not [OF bucket_of_less [OF pos]] by simp
    have keep: "find (\<lambda>e. ((hm_key hm)(p := key)) e = k) (B (bucket_of hm k))
        = find (\<lambda>e. hm_key hm e = k) (B (bucket_of hm k))"
      using fresh_k by (intro find_cong) auto
    have val: "map_option ((hm_value hm)(p := val)) (find (\<lambda>e. hm_key hm e = k) (B (bucket_of hm k)))
        = map_option (hm_value hm) (find (\<lambda>e. hm_key hm e = k) (B (bucket_of hm k)))"
      using fresh_k
      by (cases "find (\<lambda>e. hm_key hm e = k) (B (bucket_of hm k))") (auto dest: find_in_set)
    show "hm_abs ?hm ?B k = ((hm_abs hm B)(key \<mapsto> val)) k"
    proof (cases "k = key")
      case True
      have "find (\<lambda>e. ((hm_key hm)(p := key)) e = key) (B i @ [p]) = Some p"
        using key_ne p_not [OF i]
        by (auto simp: find_append split: option.splits dest!: find_in_set)
      with True show ?thesis by (simp add: hm_abs_def i_def)
    next
      case False
      have "find (\<lambda>e. ((hm_key hm)(p := key)) e = k) (?B (bucket_of hm k))
          = find (\<lambda>e. hm_key hm e = k) (B (bucket_of hm k))"
      proof (cases "bucket_of hm k = i")
        case True
        have single: "find (\<lambda>e. ((hm_key hm)(p := key)) e = k) [p] = None" using False by simp
        have B: "?B (bucket_of hm k) = B (bucket_of hm k) @ [p]" using True by simp
        show ?thesis unfolding B find_append keep single by (simp split: option.splits)
      next
        case other: False
        then have B: "?B (bucket_of hm k) = B (bucket_of hm k)" by simp
        show ?thesis unfolding B by (rule keep)
      qed
      with False val show ?thesis by (simp add: hm_abs_def)
    qed
  qed
qed

section \<open>Initialisation\<close>

lemma unat_bucket_addr:
  assumes "unat base + 24 * n \<le> 2 ^ 64" and "i < n"
  shows "unat (base + of_nat i * (24 :: u64)) = unat base + 24 * i"
proof -
  have "i < 2 ^ 64" using assms by linarith
  then have "unat (of_nat i * 24 :: u64) = 24 * i"
    using assms by (simp add: unat_word_ariths unat_of_nat_small)
  with assms show ?thesis by (simp add: unat_add_bound)
qed

text \<open>Bucket \<open>j\<close> is an empty ring with count 0.\<close>

definition bucket_empty :: "('k, 'v) HashMap \<Rightarrow> nat \<Rightarrow> bool" where
  "bucket_empty hm j \<longleftrightarrow> ring (hm_lists hm) (bucket_at hm j) [] \<and> hm_count hm (bucket_at hm j) = 0"

lemma HashBucket_initialize_simps [simp]:
  "bucket_at (HashBucket_initialize hm b) = bucket_at hm"
  "bucket_addr (HashBucket_initialize hm b) = bucket_addr hm"
  "hm_bucketsTotal (HashBucket_initialize hm b) = hm_bucketsTotal hm"
  "hm_buckets (HashBucket_initialize hm b) = hm_buckets hm"
  "hm_keycmp (HashBucket_initialize hm b) = hm_keycmp hm"
  "hm_hashfunc (HashBucket_initialize hm b) = hm_hashfunc hm"
  "hm_sizeof_entry (HashBucket_initialize hm b) = hm_sizeof_entry hm"
  by (auto simp: HashBucket_initialize_def bucket_at_def bucket_addr_def)

lemma bucket_empty_initialize:
  assumes "bucket_empty hm j \<or> bucket_at hm j = b"
  shows "bucket_empty (HashBucket_initialize hm b) j"
  using assms ring_listInit_other [of "hm_lists hm" "bucket_at hm j" "[]" b]
  by (cases "bucket_at hm j = b") (auto simp: bucket_empty_def HashBucket_initialize_def bucket_at_def bucket_addr_def)

lemma HashMap_initialize_rep:
  fixes hf :: "'k \<Rightarrow> u64" and hm :: "('k, 'v) HashMap"
  assumes "\<not> hm_initialized hm" and "0 < sz" and "unat base + 24 * unat sz \<le> 2 ^ 64"
    and cmp: "\<And>a b. kcmp a b \<longleftrightarrow> a = b"
  defines "hm' \<equiv> HashMap_initialize base hf kcmp sz hm"
  shows "hm_rep hm' (\<lambda>_. [])" and "hm_abs hm' (\<lambda>_. []) = Map.empty"
    and "hm_bucketsTotal hm' = sz" and "hm_buckets hm' = base" and "hm_sizeof_entry hm' = hm_sizeof_entry hm"
proof -
  define hm1 where "hm1 = hm\<lparr>hm_bucketsTotal := sz, hm_totalEntry := 0, hm_hashfunc := hf,
    hm_keycmp := kcmp, hm_buckets := base\<rparr>"
  define hm2 where "hm2 = for_loop (unat sz) (\<lambda>i hm. HashBucket_initialize hm (bucket_addr hm (of_nat i))) hm1"
  have hm': "hm' = hm2\<lparr>hm_initialized := True\<rparr>"
    using assms(1) by (simp add: hm'_def HashMap_initialize_def hm1_def hm2_def Let_def)
  have inv: "(\<forall>j < unat sz. bucket_empty hm2 j) \<and> hm_bucketsTotal hm2 = sz \<and> hm_buckets hm2 = base
      \<and> hm_keycmp hm2 = kcmp \<and> hm_sizeof_entry hm2 = hm_sizeof_entry hm"
    unfolding hm2_def
    by (rule for_loop_invariant [where P = "\<lambda>i h. (\<forall>j < i. bucket_empty h j) \<and> hm_bucketsTotal h = sz
        \<and> hm_buckets h = base \<and> hm_keycmp h = kcmp \<and> hm_sizeof_entry h = hm_sizeof_entry hm"])
       (auto simp: hm1_def less_Suc_eq bucket_at_def intro!: bucket_empty_initialize)
  have n: "nbuckets hm' = unat sz" using inv by (simp add: hm' nbuckets_def)
  have addr: "unat (bucket_at hm' i) = unat base + 24 * i" if "i < unat sz" for i
    using inv unat_bucket_addr [OF assms(3) that] by (simp add: hm' bucket_at_def bucket_addr_def config)
  have "bucket_at hm' i \<noteq> bucket_at hm' j" if "i < unat sz" "j < unat sz" "i \<noteq> j" for i j
    using addr [OF that(1)] addr [OF that(2)] that(3) by auto
  then show "hm_rep hm' (\<lambda>_. [])"
    using inv assms(2) cmp n
    by (auto simp: hm_rep_def bucket_nodes_def bucket_empty_def hm' bucket_at_def bucket_addr_def unat_gt_0)
  show "hm_abs hm' (\<lambda>_. []) = Map.empty" by (auto simp: hm_abs_def)
  show "hm_bucketsTotal hm' = sz" "hm_buckets hm' = base" "hm_sizeof_entry hm' = hm_sizeof_entry hm"
    using inv by (auto simp: hm')
qed

section \<open>Iteration\<close>

lemma word_of_nat_Suc: "(of_nat pos :: u64) + 1 = of_nat (Suc pos)"
  by simp

lemma scan_buckets_rep:
  assumes rep: "hm_rep hm B" and "pos + m = nbuckets hm"
  shows "scan_buckets hm (of_nat pos) m =
    (case find (\<lambda>j. B j \<noteq> []) [pos..<nbuckets hm] of None \<Rightarrow> None | Some j \<Rightarrow> Some (hd (B j), of_nat j))"
  using assms(2)
proof (induction m arbitrary: pos)
  case (Suc m)
  have lt: "pos < nbuckets hm" using Suc.prems by simp
  have small: "unat (of_nat pos :: u64) = pos"
    using lt unat_lt_64 [of "hm_bucketsTotal hm"] by (intro unat_of_nat_small) (simp add: nbuckets_def)
  have get: "getHashBucket hm (of_nat pos) = Some (bucket_at hm pos)"
    using lt small by (simp add: getHashBucket_def bucket_at_def word_less_nat_alt nbuckets_def)
  have r: "ring (hm_lists hm) (bucket_at hm pos) (B pos)"
    and c: "hm_count hm (bucket_at hm pos) = of_nat (length (B pos))" and "length (B pos) < 65536"
    using rep lt by (auto simp: hm_rep_def)
  then have cz: "hm_count hm (bucket_at hm pos) = 0 \<longleftrightarrow> B pos = []"
    using unat_of_nat_small [of "length (B pos)", where 'a = 16] by (auto simp: unat_eq_zero[symmetric])
  have upt: "[pos..<nbuckets hm] = pos # [Suc pos..<nbuckets hm]" using lt by (simp add: upt_conv_Cons)
  have "getFirstEntry hm (bucket_at hm pos) = hd (B pos)" if "B pos \<noteq> []"
    using ring_first [OF r] that by (simp add: getFirstEntry_def)
  then show ?case
    using Suc.IH [of "Suc pos"] Suc.prems cz by (simp add: get upt word_of_nat_Suc)
qed simp

lemma iterate_bucket:
  assumes rep: "hm_rep hm B" and lt: "pos < nbuckets hm" and i: "i < length (B pos)"
    and rest: "\<And>fuel. length R \<le> fuel \<Longrightarrow>
      iterate hm fuel (scan_buckets hm (of_nat (Suc pos)) (nbuckets hm - Suc pos)) = Some R"
    and fuel: "length (drop i (B pos)) + length R \<le> fuel"
  shows "iterate hm fuel (Some (B pos ! i, of_nat pos)) = Some (drop i (B pos) @ R)"
  using i fuel
proof (induction "length (B pos) - i" arbitrary: i fuel)
  case (Suc d)
  have r: "ring (hm_lists hm) (bucket_at hm pos) (B pos)" and d: "distinct (B pos)"
    using rep lt by (auto simp: hm_rep_def ring_def)
  have ne: "B pos \<noteq> []" using Suc.prems by auto
  have small: "unat (of_nat pos :: u64) = pos"
    using lt unat_lt_64 [of "hm_bucketsTotal hm"] by (intro unat_of_nat_small) (simp add: nbuckets_def)
  have tail: "isListTail (hm_lists hm) (bucket_addr hm (of_nat pos)) (B pos ! i) \<longleftrightarrow> Suc i = length (B pos)"
    using ring_isListTail [OF r ne] d ne Suc.prems
    by (auto simp: bucket_at_def last_conv_nth nth_eq_iff_index_eq)
  obtain f where f: "fuel = Suc f" using Suc.prems by (cases fuel) auto
  have dr: "drop i (B pos) = B pos ! i # drop (Suc i) (B pos)" using Suc.prems by (simp add: Cons_nth_drop_Suc)
  show ?case
  proof (cases "Suc i = length (B pos)")
    case True
    have "iterate hm f (scan_buckets hm (of_nat (Suc pos)) (nbuckets hm - Suc pos)) = Some R"
      using Suc.prems f True by (intro rest) simp
    with True tail small show ?thesis
      by (simp add: f dr iterator_next_def word_of_nat_Suc nbuckets_def del: of_nat_Suc)
  next
    case False
    then have lt': "Suc i < length (B pos)" using Suc.prems by simp
    have nxt: "nextEntry hm (B pos ! i) = B pos ! Suc i"
      using ring_nextE [OF r, of i] lt' by (simp add: nextEntry_def nth_append)
    have "iterate hm f (Some (B pos ! Suc i, of_nat pos)) = Some (drop (Suc i) (B pos) @ R)"
      using Suc.prems Suc.hyps(2) lt' f by (intro Suc.hyps(1)) auto
    with False tail nxt show ?thesis by (simp add: f dr iterator_next_def)
  qed
qed simp

lemma iterate_scan:
  assumes rep: "hm_rep hm B" and "pos + m = nbuckets hm"
    and "length (concat (map B [pos..<nbuckets hm])) \<le> fuel"
  shows "iterate hm fuel (scan_buckets hm (of_nat pos) m) = Some (concat (map B [pos..<nbuckets hm]))"
  using assms(2,3)
proof (induction m arbitrary: pos fuel)
  case (Suc m)
  have lt: "pos < nbuckets hm" using Suc.prems by simp
  have upt: "[pos..<nbuckets hm] = pos # [Suc pos..<nbuckets hm]" using lt by (simp add: upt_conv_Cons)
  have rest: "iterate hm f (scan_buckets hm (of_nat (Suc pos)) (nbuckets hm - Suc pos))
      = Some (concat (map B [Suc pos..<nbuckets hm]))"
    if "length (concat (map B [Suc pos..<nbuckets hm])) \<le> f" for f
    using Suc.IH [of "Suc pos" f] Suc.prems(1) that by (simp add: Suc.prems(1)[symmetric])
  show ?case
  proof (cases "B pos = []")
    case True
    then have "scan_buckets hm (of_nat pos) (Suc m) = scan_buckets hm (of_nat (Suc pos)) m"
      using scan_buckets_rep [OF rep Suc.prems(1)] scan_buckets_rep [OF rep, of "Suc pos" m] Suc.prems(1)
      by (simp add: upt)
    moreover have "concat (map B [pos..<nbuckets hm]) = concat (map B [Suc pos..<nbuckets hm])"
      by (simp only: upt) (simp add: True)
    moreover have "m = nbuckets hm - Suc pos" using Suc.prems(1) by simp
    ultimately show ?thesis using rest [of fuel] Suc.prems(2) by simp
  next
    case False
    then have "scan_buckets hm (of_nat pos) (Suc m) = Some (B pos ! 0, of_nat pos)"
      using scan_buckets_rep [OF rep Suc.prems(1)] by (simp add: upt hd_conv_nth)
    moreover have "iterate hm fuel (Some (B pos ! 0, of_nat pos))
        = Some (drop 0 (B pos) @ concat (map B [Suc pos..<nbuckets hm]))"
      using False Suc.prems(2) upt lt by (intro iterate_bucket [OF rep lt _ rest]) auto
    ultimately show ?thesis by (simp add: upt)
  qed
qed simp

lemma iterate_begin:
  assumes "hm_rep hm B" and "length (concat (map B [0..<nbuckets hm])) \<le> fuel"
  shows "iterate hm fuel (HashMap_begin hm) = Some (concat (map B [0..<nbuckets hm]))"
  using iterate_scan [OF assms(1), of 0 "nbuckets hm" fuel] assms(2)
  by (simp add: HashMap_begin_def nbuckets_def)

section \<open>Properties\<close>

text \<open>A table with one bucket, at 0x1000, that holds one entry, at 0x2000.\<close>

definition one_entry :: "'v \<Rightarrow> (u64, 'v) HashMap" where
  "one_entry v =
    \<lparr>hm_initialized = True, hm_buckets = 0x1000, hm_bucketsTotal = 1, hm_totalEntry = 1,
     hm_lists = \<lparr>next_of = id(0x1000 := 0x2000, 0x2000 := 0x1000), prev_of = id(0x1000 := 0x2000, 0x2000 := 0x1000)\<rparr>,
     hm_count = \<lambda>_. 1, hm_key = \<lambda>_. 7, hm_value = \<lambda>_. v, hm_hashfunc = hashAddr, hm_keycmp = compareAddr,
     hm_sizeof_entry = 32\<rparr>"

lemma one_entry_rep: "hm_rep (one_entry v) (\<lambda>_. [0x2000])"
  by (simp add: hm_rep_def one_entry_def nbuckets_def bucket_at_def bucket_addr_def ring_def bucket_of_def
      hashIndex_def compareAddr_def)

definition one_entry_map :: "(u64, nat) HashMap" where
  "one_entry_map = one_entry 9"

lemma one_entry_map_rep: "hm_rep one_entry_map (\<lambda>_. [0x2000])"
  unfolding one_entry_map_def by (rule one_entry_rep)

text \<open>The entries of all buckets, listed: distinct keys, and exactly what \<open>find\<close> finds.\<close>

lemma entries_of_rep:
  assumes "hm_rep hm B"
  shows "distinct (map (hm_key hm) (concat (map B [0..<nbuckets hm])))"
    and "HashMap_find hm k = Inr (Some e) \<longleftrightarrow> e \<in> set (concat (map B [0..<nbuckets hm])) \<and> hm_key hm e = k"
proof -
  let ?n = "nbuckets hm" let ?es = "concat (map B [0..<?n])"
  have b: "\<And>i e. i < ?n \<Longrightarrow> e \<in> set (B i) \<Longrightarrow> bucket_of hm (hm_key hm e) = i"
    and d: "\<And>i. i < ?n \<Longrightarrow> distinct (map (hm_key hm) (B i))" and pos: "0 < ?n"
    using assms by (auto simp: hm_rep_def)
  have "m \<le> ?n \<Longrightarrow> distinct (map (hm_key hm) (concat (map B [0..<m])))" for m
  proof (induction m)
    case (Suc m)
    have "hm_key hm e \<noteq> hm_key hm e'" if "i < m" "e \<in> set (B i)" "e' \<in> set (B m)" for i e e'
      using b [of i e] b [of m e'] that Suc.prems by auto
    with Suc d [of m] show ?case by (auto simp: image_iff)
  qed simp
  then show "distinct (map (hm_key hm) ?es)" by blast
  show "HashMap_find hm k = Inr (Some e) \<longleftrightarrow> e \<in> set ?es \<and> hm_key hm e = k"
  proof -
    let ?L = "B (bucket_of hm k)"
    have "inj_on (hm_key hm) (set ?L)"
      using d [of "bucket_of hm k"] bucket_of_less [OF pos, of k] by (simp add: distinct_map)
    then have "find (\<lambda>e. hm_key hm e = k) ?L = Some e \<longleftrightarrow> e \<in> set ?L \<and> hm_key hm e = k"
      by (rule find_unique_iff)
    also have "\<dots> \<longleftrightarrow> e \<in> set ?es \<and> hm_key hm e = k"
      using bucket_of_less [OF pos, of k] by (auto dest: b)
    finally show ?thesis using HashMap_find_rep [OF assms, of k] by simp
  qed
qed

text \<open>
  C16: a range-based \<open>for\<close> over the table ends and visits every entry exactly once: the keys it meets are
  distinct, and they are, with their values, what \<open>find\<close> returns.
\<close>

theorem iteration_visits_every_entry_once:
  assumes "hm_rep hm B"
  shows "\<exists>es. (\<forall>fuel \<ge> length es. iterate hm fuel (HashMap_begin hm) = Some es)
    \<and> distinct (map (hm_key hm) es)
    \<and> (\<forall>k e. HashMap_find hm k = Inr (Some e) \<longleftrightarrow> e \<in> set es \<and> hm_key hm e = k)"
  using iterate_begin [OF assms] entries_of_rep [OF assms]
  by (intro exI [of _ "concat (map B [0..<nbuckets hm])"]) blast

theorem iteration_visits_every_entry_once_witness:
  "\<exists>es. iterate one_entry_map (length es) (HashMap_begin one_entry_map) = Some es \<and> 0x2000 \<in> set es"
proof -
  have "HashMap_find one_entry_map 7 = Inr (Some 0x2000)"
    using HashMap_find_rep [OF one_entry_map_rep, of 7] by (simp add: one_entry_map_def one_entry_def)
  with iteration_visits_every_entry_once [OF one_entry_map_rep] show ?thesis by blast
qed

text \<open>
  C17: the 16-bit count of a bucket wraps: once a bucket's count is 65535, the next insertion into it sets
  the count to 0, and \<open>find\<close> then misses every key of the bucket, the one just inserted included.
\<close>

theorem full_bucket_loses_its_entries:
  assumes "HashMap_insert hm mm tid key val = Inr (e, hm', mm')" and "0 < nbuckets hm"
    and "hm_count hm (bucket_at hm (bucket_of hm key)) = 65535" and "bucket_of hm k = bucket_of hm key"
  shows "HashMap_find hm' k = Inr None"
proof -
  obtain p mm1 where "MyMalloc_hashMalloc mm tid (hm_sizeof_entry hm) = Inr (p, mm1)"
    using assms(1,2)
    by (cases "MyMalloc_hashMalloc mm tid (hm_sizeof_entry hm)")
       (auto simp: HashMap_insert_def with_bucket_eq insertEntry_def createNewEntry_def)
  then have "hm' = linked_entry hm p (bucket_at hm (bucket_of hm key)) key val"
    using assms(1) by (auto simp: HashMap_insert_def with_bucket_eq [OF assms(2)] insertEntry_eq)
  with assms(2-4) show ?thesis
    by (simp add: HashMap_find_def with_bucket_eq getEntry_def)
qed

theorem full_bucket_loses_its_entries_witness:
  "\<exists>e hm' mm'. HashMap_insert (one_entry_map\<lparr>hm_count := \<lambda>_. 65535\<rparr>)
      \<lparr>profilerMemory = \<lparr>pm_initialized = False, pm_startPointer = 0, pm_objectNum = 0, pm_endPointer = 0,
         pm_overheadPointer = 0\<rparr>, xthread_idx = 0,
       threadLocalProfilerHashMemory = [\<lparr>mm_initialized = True, mm_objectNum = 0, mm_startPointer = 0x10000,
         mm_endPointer = 0x20000, mm_overheadPointer = 0x10000, mm_currentSize = 0x10000\<rparr>]\<rparr> 0 8 10
    = Inr (e, hm', mm') \<and> HashMap_find hm' 8 = Inr None"
  (is "\<exists>e hm' mm'. HashMap_insert ?hm ?mm 0 8 10 = _ \<and> _")
proof -
  have n: "0 < nbuckets ?hm" by (simp add: nbuckets_def one_entry_map_def one_entry_def)
  obtain e hm' mm' where i: "HashMap_insert ?hm ?mm 0 8 10 = Inr (e, hm', mm')"
    by (simp add: HashMap_insert_def with_bucket_eq [OF n] insertEntry_def createNewEntry_def
        MyMalloc_hashMalloc_def MMAPProfilerMemory_malloc_def Let_def)
  from full_bucket_loses_its_entries [OF i n, of 8] i show ?thesis by auto
qed

end
