(* ===== verification/Table.thy ===== *)
theory Table
  imports HashMap_Correct
begin

text \<open>
  The interface the profiler's clients use a hash table through: find a key, insert a new one,
  write through the pointer that was found. The locale states what a table promises for it; the
  hash table provides it while its counts and its thread's memory region have room. The lemmas of
  the locale are about the clients' find-or-insert pattern and about merging one table's entries
  into another.
\<close>

text \<open>
  \<open>upsert\<close> is the pattern of \<^verbatim>\<open>ObjTable::allocUpdate\<close>, \<^verbatim>\<open>GlobalStatus::globalize\<close> and the lock
  functions: look the key up, insert a fresh value if it is absent, otherwise update in place.
\<close>

definition upsert ::
  "('s \<Rightarrow> 'k \<Rightarrow> 'v option) \<Rightarrow> ('s \<Rightarrow> 'k \<Rightarrow> 'v \<Rightarrow> crash + 's) \<Rightarrow> ('s \<Rightarrow> 'k \<Rightarrow> 'v \<Rightarrow> 's)
    \<Rightarrow> 's \<Rightarrow> 'k \<Rightarrow> 'v \<Rightarrow> ('v \<Rightarrow> 'v) \<Rightarrow> crash + 's" where
  "upsert look ins asg s k fresh upd =
    (case look s k of None \<Rightarrow> ins s k fresh | Some v \<Rightarrow> Inr (asg s k (upd v)))"

fun upserts ::
  "('s \<Rightarrow> 'k \<Rightarrow> 'v option) \<Rightarrow> ('s \<Rightarrow> 'k \<Rightarrow> 'v \<Rightarrow> crash + 's) \<Rightarrow> ('s \<Rightarrow> 'k \<Rightarrow> 'v \<Rightarrow> 's)
    \<Rightarrow> ('v \<Rightarrow> 'v \<Rightarrow> 'v) \<Rightarrow> 's \<Rightarrow> ('k \<times> 'v) list \<Rightarrow> crash + 's" where
  "upserts look ins asg comb s [] = Inr s"
| "upserts look ins asg comb s ((k, v) # kvs) =
    bindR (upsert look ins asg s k v (\<lambda>old. comb old v)) (\<lambda>s. upserts look ins asg comb s kvs)"

definition merge_value :: "('v \<Rightarrow> 'v \<Rightarrow> 'v) \<Rightarrow> 'v option \<Rightarrow> 'v option \<Rightarrow> 'v option" where
  "merge_value comb old new =
    (case new of None \<Rightarrow> old | Some v \<Rightarrow> (case old of None \<Rightarrow> Some v | Some w \<Rightarrow> Some (comb w v)))"

locale table =
  fixes look :: "'s \<Rightarrow> 'k \<Rightarrow> 'v option"
    and ins :: "'s \<Rightarrow> 'k \<Rightarrow> 'v \<Rightarrow> crash + 's"
    and asg :: "'s \<Rightarrow> 'k \<Rightarrow> 'v \<Rightarrow> 's"
    and invar :: "'s \<Rightarrow> bool"
    and room :: "'s \<Rightarrow> nat \<Rightarrow> bool"
  assumes insert_new: "invar s \<Longrightarrow> look s k = None \<Longrightarrow> room s (Suc n) \<Longrightarrow>
      \<exists>s'. ins s k v = Inr s' \<and> invar s' \<and> room s' n \<and> look s' = (look s)(k \<mapsto> v)"
    and assign_old: "invar s \<Longrightarrow> look s k = Some w \<Longrightarrow>
      invar (asg s k v) \<and> look (asg s k v) = (look s)(k \<mapsto> v) \<and> room (asg s k v) = room s"
    and room_less: "room s (Suc n) \<Longrightarrow> room s n"
begin

lemma upsert_spec:
  assumes "invar s" and "room s (Suc n)"
  shows "\<exists>s'. upsert look ins asg s k v f = Inr s' \<and> invar s' \<and> room s' n
    \<and> look s' = (look s)(k \<mapsto> (case look s k of None \<Rightarrow> v | Some w \<Rightarrow> f w))"
proof (cases "look s k")
  case None
  from insert_new [OF assms(1) None assms(2), of v] None show ?thesis by (auto simp: upsert_def)
next
  case (Some w)
  from assign_old [OF assms(1) Some, of "f w"] room_less [OF assms(2)] Some show ?thesis
    by (auto simp: upsert_def)
qed

lemma upserts_spec:
  assumes "invar s" and "room s (length kvs)" and "distinct (map fst kvs)"
  shows "\<exists>s'. upserts look ins asg comb s kvs = Inr s' \<and> invar s'
    \<and> (\<forall>k. look s' k = merge_value comb (look s k) (map_of kvs k))"
  using assms
proof (induction kvs arbitrary: s)
  case (Cons kv kvs)
  obtain k v where kv: "kv = (k, v)" by (cases kv)
  obtain s1 where s1: "upsert look ins asg s k v (\<lambda>old. comb old v) = Inr s1" "invar s1"
      "room s1 (length kvs)"
      "look s1 = (look s)(k \<mapsto> (case look s k of None \<Rightarrow> v | Some w \<Rightarrow> comb w v))"
    using upsert_spec [OF Cons.prems(1), of "length kvs" k v "\<lambda>old. comb old v"] Cons.prems(2) by auto
  obtain s2 where s2: "upserts look ins asg comb s1 kvs = Inr s2" "invar s2"
      "\<forall>k. look s2 k = merge_value comb (look s1 k) (map_of kvs k)"
    using Cons.IH [OF s1(2,3)] Cons.prems(3) by auto
  have "map_of kvs k = None" using Cons.prems(3) kv by (simp add: map_of_eq_None_iff)
  with s1 s2 kv show ?case by (auto simp: merge_value_def split: option.splits)
qed (auto simp: merge_value_def)

end

section \<open>The hash table provides the interface\<close>

type_synonym ('k, 'v) table_state = "('k, 'v) HashMap \<times> MyMalloc"

definition table_lookup :: "('k, 'v) table_state \<Rightarrow> 'k \<Rightarrow> 'v option" where
  "table_lookup s k =
    (case HashMap_find (fst s) k of Inr (Some e) \<Rightarrow> Some (hm_value (fst s) e) | _ \<Rightarrow> None)"

definition table_insert :: "nat \<Rightarrow> ('k, 'v) table_state \<Rightarrow> 'k \<Rightarrow> 'v \<Rightarrow> crash + ('k, 'v) table_state" where
  "table_insert tid s k v =
    bindR (HashMap_insert (fst s) (snd s) tid k v) (\<lambda>(_, hm, mm). Inr (hm, mm))"

definition table_assign :: "('k, 'v) table_state \<Rightarrow> 'k \<Rightarrow> 'v \<Rightarrow> ('k, 'v) table_state" where
  "table_assign s k v =
    (case HashMap_find (fst s) k of Inr (Some e) \<Rightarrow> (HashMap_assign (fst s) e v, snd s) | _ \<Rightarrow> s)"

definition region_span :: "MMAPProfilerMemory \<Rightarrow> u64 set" where
  "region_span m = {mm_startPointer m..<mm_endPointer m}"

definition regions_ok :: "MMAPProfilerMemory list \<Rightarrow> bool" where
  "regions_ok rs \<longleftrightarrow>
    (\<forall>t < length rs. mm_startPointer (rs ! t) \<le> mm_overheadPointer (rs ! t)
        \<and> mm_overheadPointer (rs ! t) \<le> mm_endPointer (rs ! t))
    \<and> (\<forall>t < length rs. \<forall>u < length rs. t \<noteq> u \<longrightarrow>
        region_span (rs ! t) \<inter> region_span (rs ! u) = {})"

definition handed_out :: "MMAPProfilerMemory list \<Rightarrow> u64 set" where
  "handed_out rs = (\<Union>t < length rs. {mm_startPointer (rs ! t)..<mm_overheadPointer (rs ! t)})"

definition owned :: "MMAPProfilerMemory list \<Rightarrow> u64 set" where
  "owned rs = (\<Union>t < length rs. region_span (rs ! t))"

definition region_ok :: "MyMalloc \<Rightarrow> ('k, 'v) HashMap \<Rightarrow> (nat \<Rightarrow> u64 list) \<Rightarrow> bool" where
  "region_ok mm hm B \<longleftrightarrow> regions_ok (threadLocalProfilerHashMemory mm)
    \<and> (\<forall>i < nbuckets hm. bucket_at hm i \<notin> owned (threadLocalProfilerHashMemory mm)
        \<and> set (B i) \<subseteq> handed_out (threadLocalProfilerHashMemory mm))"

definition table_invar :: "nat \<Rightarrow> ('k, 'v) table_state \<Rightarrow> bool" where
  "table_invar tid s \<longleftrightarrow> tid < length (threadLocalProfilerHashMemory (snd s))
    \<and> 0 < hm_sizeof_entry (fst s) \<and> (\<exists>B. hm_rep (fst s) B \<and> region_ok (snd s) (fst s) B)"

definition table_room :: "nat \<Rightarrow> ('k, 'v) table_state \<Rightarrow> nat \<Rightarrow> bool" where
  "table_room tid s n \<longleftrightarrow>
    (\<forall>i < nbuckets (fst s). unat (hm_count (fst s) (bucket_at (fst s) i)) + n < 65536)
    \<and> unat (mm_overheadPointer (threadLocalProfilerHashMemory (snd s) ! tid))
        + n * unat (hm_sizeof_entry (fst s))
      \<le> unat (mm_endPointer (threadLocalProfilerHashMemory (snd s) ! tid))"

lemma table_lookup_abs: "hm_rep hm B \<Longrightarrow> table_lookup (hm, mm) = hm_abs hm B"
  using HashMap_find_rep [of hm B] by (auto simp: table_lookup_def hm_abs_def split: option.splits)

text \<open>One request to the running thread's region.\<close>

definition bump :: "MyMalloc \<Rightarrow> nat \<Rightarrow> u64 \<Rightarrow> MMAPProfilerMemory list" where
  "bump mm tid sz = (threadLocalProfilerHashMemory mm)[tid :=
     MMAPProfilerMemory_GetASpaceFromMemory (threadLocalProfilerHashMemory mm ! tid) sz]"

lemma hashMalloc_eq:
  assumes "tid < length (threadLocalProfilerHashMemory mm)"
  shows "MyMalloc_hashMalloc mm tid sz =
    Inr (mm_overheadPointer (threadLocalProfilerHashMemory mm ! tid),
         mm\<lparr>threadLocalProfilerHashMemory := bump mm tid sz\<rparr>)"
  using assms MMAP_malloc_fst [of "threadLocalProfilerHashMemory mm ! tid" sz]
    MMAP_malloc_snd [of "threadLocalProfilerHashMemory mm ! tid" sz]
  by (auto simp: MyMalloc_hashMalloc_def bump_def split: prod.splits simp del: MMAP_malloc_fst MMAP_malloc_snd)

lemma GetASpace_other [simp]:
  "mm_startPointer (MMAPProfilerMemory_GetASpaceFromMemory m s) = mm_startPointer m"
  "mm_endPointer (MMAPProfilerMemory_GetASpaceFromMemory m s) = mm_endPointer m"
  "region_span (MMAPProfilerMemory_GetASpaceFromMemory m s) = region_span m"
  by (simp_all add: MMAPProfilerMemory_GetASpaceFromMemory_def region_span_def)

lemma bump_nth:
  "t < length (threadLocalProfilerHashMemory mm) \<Longrightarrow> bump mm tid sz ! t =
    (if t = tid then MMAPProfilerMemory_GetASpaceFromMemory (threadLocalProfilerHashMemory mm ! tid) sz
     else threadLocalProfilerHashMemory mm ! t)"
  by (auto simp: bump_def nth_list_update)

lemma length_bump [simp]: "length (bump mm tid sz) = length (threadLocalProfilerHashMemory mm)"
  by (simp add: bump_def)

text \<open>The request fits into the thread's region.\<close>

definition bump_ok :: "MyMalloc \<Rightarrow> nat \<Rightarrow> u64 \<Rightarrow> bool" where
  "bump_ok mm tid sz \<longleftrightarrow> tid < length (threadLocalProfilerHashMemory mm)
    \<and> regions_ok (threadLocalProfilerHashMemory mm) \<and> 0 < sz
    \<and> unat (mm_overheadPointer (threadLocalProfilerHashMemory mm ! tid)) + unat sz
      \<le> unat (mm_endPointer (threadLocalProfilerHashMemory mm ! tid))"

abbreviation next_block :: "MyMalloc \<Rightarrow> nat \<Rightarrow> u64" where
  "next_block mm tid \<equiv> mm_overheadPointer (threadLocalProfilerHashMemory mm ! tid)"

lemma bump_adds:
  assumes "bump_ok mm tid sz"
  shows "next_block mm tid + sz \<le> mm_endPointer (threadLocalProfilerHashMemory mm ! tid)"
    and "next_block mm tid < next_block mm tid + sz"
proof -
  have "unat (next_block mm tid + sz) = unat (next_block mm tid) + unat sz"
    using assms unat_lt_64 [of "mm_endPointer (threadLocalProfilerHashMemory mm ! tid)"]
    by (intro unat_add_bound) (simp add: bump_ok_def)
  with assms show "next_block mm tid + sz \<le> mm_endPointer (threadLocalProfilerHashMemory mm ! tid)"
    "next_block mm tid < next_block mm tid + sz"
    by (auto simp: bump_ok_def word_le_nat_alt word_less_nat_alt unat_gt_0)
qed

lemma bump_start:
  "bump_ok mm tid sz \<Longrightarrow> mm_startPointer (threadLocalProfilerHashMemory mm ! tid) \<le> next_block mm tid"
  by (auto simp: regions_ok_def bump_ok_def)

lemma bump_in_region:
  assumes "bump_ok mm tid sz"
  shows "next_block mm tid \<in> region_span (threadLocalProfilerHashMemory mm ! tid)"
  using bump_adds [OF assms] bump_start [OF assms] by (auto simp: region_span_def)

lemma bump_regions_ok:
  assumes "bump_ok mm tid sz"
  shows "regions_ok (bump mm tid sz)"
proof -
  have "mm_startPointer (threadLocalProfilerHashMemory mm ! tid) \<le> next_block mm tid + sz"
    using bump_start [OF assms] bump_adds(2) [OF assms] by simp
  with assms bump_adds(1) [OF assms] show ?thesis
    unfolding regions_ok_def bump_ok_def by (simp add: bump_nth)
qed

lemma bump_owned: "owned (bump mm tid sz) = owned (threadLocalProfilerHashMemory mm)"
  unfolding owned_def length_bump by (rule SUP_cong) (auto simp: bump_nth)

lemma bump_owns: "bump_ok mm tid sz \<Longrightarrow> next_block mm tid \<in> owned (threadLocalProfilerHashMemory mm)"
  using bump_in_region unfolding owned_def bump_ok_def by blast

lemma bump_handed_out:
  assumes "bump_ok mm tid sz"
  shows "insert (next_block mm tid) (handed_out (threadLocalProfilerHashMemory mm)) \<subseteq> handed_out (bump mm tid sz)"
proof -
  let ?rs = "threadLocalProfilerHashMemory mm"
  have mono: "mm_overheadPointer (?rs ! t) \<le> mm_overheadPointer (bump mm tid sz ! t)
      \<and> mm_startPointer (bump mm tid sz ! t) = mm_startPointer (?rs ! t)" if "t < length ?rs" for t
    using that bump_adds(2) [OF assms] by (auto simp: bump_nth)
  have "handed_out ?rs \<subseteq> handed_out (bump mm tid sz)"
    unfolding handed_out_def length_bump
    using mono by (intro UN_mono) (auto intro: less_le_trans)
  moreover have "next_block mm tid \<in> handed_out (bump mm tid sz)"
    using assms bump_start [OF assms] bump_adds(2) [OF assms]
    unfolding handed_out_def bump_ok_def length_bump
    by (intro UN_I [of tid]) (auto simp: bump_nth)
  ultimately show ?thesis by blast
qed

lemma bump_fresh:
  assumes "bump_ok mm tid sz"
  shows "next_block mm tid \<notin> handed_out (threadLocalProfilerHashMemory mm)"
proof
  let ?rs = "threadLocalProfilerHashMemory mm"
  assume "next_block mm tid \<in> handed_out ?rs"
  then obtain t where t: "t < length ?rs" "mm_startPointer (?rs ! t) \<le> next_block mm tid"
    "next_block mm tid < mm_overheadPointer (?rs ! t)"
    by (auto simp: handed_out_def)
  have "t \<noteq> tid" using t by auto
  then have "region_span (?rs ! t) \<inter> region_span (?rs ! tid) = {}"
    using assms t(1) unfolding bump_ok_def regions_ok_def by blast
  moreover have "mm_overheadPointer (?rs ! t) \<le> mm_endPointer (?rs ! t)"
    using assms t(1) unfolding bump_ok_def regions_ok_def by blast
  then have "next_block mm tid \<in> region_span (?rs ! t)"
    using t by (auto simp: region_span_def)
  ultimately show False using bump_in_region [OF assms] by blast
qed

text \<open>An insertion takes the next block of the thread's region and links it to its bucket.\<close>

lemma insert_linked:
  fixes hm :: "('k, 'v) HashMap" and mm tid and k :: 'k and v :: 'v
  defines "p \<equiv> next_block mm tid" and "i \<equiv> bucket_of hm k"
  defines "hm' \<equiv> linked_entry hm p (bucket_at hm i) k v"
    and "mm' \<equiv> mm\<lparr>threadLocalProfilerHashMemory := bump mm tid (hm_sizeof_entry hm)\<rparr>"
  assumes inv: "table_invar tid (hm, mm)" and absent: "table_lookup (hm, mm) k = None"
    and room: "table_room tid (hm, mm) (Suc n)"
  obtains B where "hm_rep hm B" and "hm_rep hm' (B(i := B i @ [p]))" and "region_ok mm' hm' (B(i := B i @ [p]))"
    and "hm_abs hm' (B(i := B i @ [p])) = (hm_abs hm B)(k \<mapsto> v)"
    and "bump_ok mm tid (hm_sizeof_entry hm)" and "i < nbuckets hm"
    and "unat (hm_count hm (bucket_at hm i)) < 65535"
    and "HashMap_insert hm mm tid k v = Inr (p, hm', mm')" and "HashMap_find hm' k = Inr (Some p)"
proof -
  let ?rs = "threadLocalProfilerHashMemory mm" and ?sz = "hm_sizeof_entry hm"
  obtain B where rep: "hm_rep hm B" and reg: "region_ok mm hm B" and tid: "tid < length ?rs" and sz: "0 < ?sz"
    using inv by (auto simp: table_invar_def)
  have pos: "0 < nbuckets hm" using rep by (simp add: hm_rep_def)
  then have i: "i < nbuckets hm" unfolding i_def by (rule bucket_of_less)
  have fits: "unat p + unat ?sz \<le> unat (mm_endPointer (?rs ! tid))"
    using room by (simp add: table_room_def p_def)
  have bm: "bump_ok mm tid ?sz" using reg tid sz fits by (simp add: bump_ok_def region_ok_def p_def)
  have fresh: "\<forall>j < nbuckets hm. p \<notin> bucket_nodes hm B j"
    using reg bump_fresh [OF bm] bump_owns [OF bm]
    by (auto simp: region_ok_def bucket_nodes_def p_def)
  have cnt: "unat (hm_count hm (bucket_at hm j)) = length (B j)" if "j < nbuckets hm" for j
    using rep that by (auto simp: hm_rep_def unat_of_nat_small)
  have len: "length (B i) < 65535" using room i cnt [OF i] by (force simp: table_room_def)
  have abs: "hm_abs hm B k = None" using absent by (simp add: table_lookup_abs [OF rep])
  have linked: "hm_rep hm' (B(i := B i @ [p]))" "hm_abs hm' (B(i := B i @ [p])) = (hm_abs hm B)(k \<mapsto> v)"
    unfolding hm'_def i_def using linked_entry_rep [OF rep len [unfolded i_def] fresh abs] by auto
  have ins: "HashMap_insert hm mm tid k v = Inr (p, hm', mm')"
    using insertEntry_eq [OF hashMalloc_eq [OF tid, of ?sz]]
    by (simp add: HashMap_insert_def with_bucket_eq [OF pos] hm'_def mm'_def p_def i_def)
  have reg': "region_ok mm' hm' (B(i := B i @ [p]))"
    using reg bump_regions_ok [OF bm] bump_handed_out [OF bm]
    by (auto simp: region_ok_def hm'_def mm'_def p_def bump_owned)
  have same: "bucket_of hm' k = i" by (simp add: hm'_def i_def)
  have "find (\<lambda>e. hm_key hm e = k) (B i) = None" using abs by (simp add: hm_abs_def i_def)
  moreover have "p \<notin> set (B i)" using fresh i by (auto simp: bucket_nodes_def)
  ultimately have "find (\<lambda>e. hm_key hm' e = k) (B i) = None" by (auto simp: find_None_iff hm'_def)
  then have "find (\<lambda>e. hm_key hm' e = k) (B i @ [p]) = Some p" by (simp add: find_append hm'_def)
  then have fnd: "HashMap_find hm' k = Inr (Some p)" using HashMap_find_rep [OF linked(1), of k] by (simp add: same)
  show thesis using that [OF rep linked(1) reg' linked(2) bm i _ ins fnd] cnt [OF i] len by simp
qed

lemma table_insert_new:
  assumes inv: "table_invar tid s" and absent: "table_lookup s k = None" and room: "table_room tid s (Suc n)"
  shows "\<exists>s'. table_insert tid s k v = Inr s' \<and> table_invar tid s' \<and> table_room tid s' n
    \<and> table_lookup s' = (table_lookup s)(k \<mapsto> v)"
proof -
  obtain hm mm where s: "s = (hm, mm)" by (cases s)
  let ?rs = "threadLocalProfilerHashMemory mm" and ?sz = "hm_sizeof_entry hm" and ?i = "bucket_of hm k"
  define p where "p = next_block mm tid"
  define hm' where "hm' = linked_entry hm p (bucket_at hm ?i) k v"
  define mm' where "mm' = mm\<lparr>threadLocalProfilerHashMemory := bump mm tid ?sz\<rparr>"
  obtain B where rep: "hm_rep hm B" and rep': "hm_rep hm' (B(?i := B ?i @ [p]))"
    and reg': "region_ok mm' hm' (B(?i := B ?i @ [p]))"
    and abs': "hm_abs hm' (B(?i := B ?i @ [p])) = (hm_abs hm B)(k \<mapsto> v)"
    and bm: "bump_ok mm tid ?sz" and i: "?i < nbuckets hm"
    and len: "unat (hm_count hm (bucket_at hm ?i)) < 65535"
    and ins: "HashMap_insert hm mm tid k v = Inr (p, hm', mm')"
    using insert_linked [OF assms [unfolded s], of v] unfolding hm'_def mm'_def p_def by blast
  have tid: "tid < length ?rs" and sz: "0 < ?sz" using inv by (auto simp: table_invar_def s)
  have fits: "unat p + unat ?sz \<le> unat (mm_endPointer (?rs ! tid))"
    using room by (simp add: table_room_def s p_def)
  have "table_invar tid (hm', mm')"
    using rep' reg' tid sz by (auto simp: table_invar_def hm'_def mm'_def)
  moreover have "table_room tid (hm', mm') n"
  proof -
    have 1: "unat (hm_count hm' (bucket_at hm' j)) + n < 65536" if "j < nbuckets hm'" for j
    proof (cases "bucket_at hm j = bucket_at hm ?i")
      case True
      have "unat (hm_count hm (bucket_at hm ?i) + 1) = unat (hm_count hm (bucket_at hm ?i)) + 1"
        using len by (simp add: unat_add_bound)
      with True room i show ?thesis by (auto simp: hm'_def table_room_def s)
    next
      case False
      with room that show ?thesis by (fastforce simp: hm'_def table_room_def s)
    qed
    have "unat (p + ?sz) = unat p + unat ?sz"
      using fits unat_lt_64 [of "mm_endPointer (?rs ! tid)"] by (intro unat_add_bound) simp
    with 1 room tid show ?thesis
      by (simp add: table_room_def s mm'_def bump_nth p_def hm'_def algebra_simps)
  qed
  moreover have "table_lookup (hm', mm') = (table_lookup s)(k \<mapsto> v)"
    by (simp add: table_lookup_abs [OF rep'] abs' s table_lookup_abs [OF rep])
  ultimately show ?thesis using ins by (intro exI [of _ "(hm', mm')"]) (simp add: table_insert_def s)
qed

lemma table_assign_old:
  assumes inv: "table_invar tid s" and found: "table_lookup s k = Some w"
  shows "table_invar tid (table_assign s k v)
    \<and> table_lookup (table_assign s k v) = (table_lookup s)(k \<mapsto> v)
    \<and> table_room tid (table_assign s k v) = table_room tid s"
proof -
  obtain hm mm where s: "s = (hm, mm)" by (cases s)
  obtain B where rep: "hm_rep hm B" and reg: "region_ok mm hm B"
    using inv by (auto simp: table_invar_def s)
  obtain e where e: "HashMap_find hm k = Inr (Some e)"
    using found by (auto simp: table_lookup_def s split: sum.splits option.splits)
  have a: "table_assign s k v = (HashMap_assign hm e v, mm)" by (simp add: table_assign_def s e)
  have same: "nbuckets (HashMap_assign hm e v) = nbuckets hm" "bucket_at (HashMap_assign hm e v) = bucket_at hm"
    "hm_count (HashMap_assign hm e v) = hm_count hm" "hm_sizeof_entry (HashMap_assign hm e v) = hm_sizeof_entry hm"
    by (auto simp: HashMap_assign_def nbuckets_def bucket_at_def bucket_addr_def)
  have "hm_rep (HashMap_assign hm e v) B" by (simp add: hm_rep_assign rep)
  with reg inv have "table_invar tid (table_assign s k v)"
    by (auto simp: table_invar_def a [unfolded s] s region_ok_def same)
  moreover have "table_lookup (table_assign s k v) = (table_lookup s)(k \<mapsto> v)"
    using hm_abs_assign [OF rep e, of v]
    by (simp add: a [unfolded s] s table_lookup_abs [OF rep] table_lookup_abs [where B = B] hm_rep_assign rep)
  moreover have "table_room tid (table_assign s k v) = table_room tid s"
    by (auto simp: table_room_def a [unfolded s] s same fun_eq_iff)
  ultimately show ?thesis by blast
qed

lemma table_room_less: "table_room tid s (Suc n) \<Longrightarrow> table_room tid s n"
  by (fastforce simp: table_room_def)

interpretation hash_table: table table_lookup "table_insert tid" table_assign "table_invar tid" "table_room tid"
  for tid
  by unfold_locales (fact table_insert_new table_assign_old table_room_less)+

section \<open>A freshly initialised table\<close>

lemma table_invar_initialize:
  assumes "\<not> hm_initialized hm" and "0 < sz" and "unat base + 24 * unat sz \<le> 2 ^ 64"
    and "\<And>a b. kcmp a b \<longleftrightarrow> a = b" and "0 < hm_sizeof_entry hm"
    and "tid < length (threadLocalProfilerHashMemory mm)" and "regions_ok (threadLocalProfilerHashMemory mm)"
    and "\<forall>i < unat sz. base + of_nat i * 24 \<notin> owned (threadLocalProfilerHashMemory mm)"
  shows "table_invar tid (HashMap_initialize base hf kcmp sz hm, mm)"
    and "table_lookup (HashMap_initialize base hf kcmp sz hm, mm) = Map.empty"
proof -
  note init = HashMap_initialize_rep [OF assms(1-3), of kcmp hf, OF assms(4)]
  have "region_ok mm (HashMap_initialize base hf kcmp sz hm) (\<lambda>_. [])"
    using init(3,4) assms(7,8)
    by (auto simp: region_ok_def bucket_at_def bucket_addr_def nbuckets_def config)
  with init(1,5) assms(5,6) show "table_invar tid (HashMap_initialize base hf kcmp sz hm, mm)"
    by (auto simp: table_invar_def)
  show "table_lookup (HashMap_initialize base hf kcmp sz hm, mm) = Map.empty"
    using init(1,2) by (simp add: table_lookup_abs)
qed

section \<open>Properties\<close>

text \<open>
  C15: the hash table is a finite map: inserting a key that \<open>find\<close> does not know succeeds while there is
  room, afterwards \<open>find\<close> of the key gives an entry with the value, the values of all other keys are as
  before, and the invariant is kept.
\<close>

theorem insert_then_find:
  assumes "table_invar tid (hm, mm)" and "table_lookup (hm, mm) k = None" and "table_room tid (hm, mm) 1"
  shows "\<exists>e hm' mm'. HashMap_insert hm mm tid k v = Inr (e, hm', mm')
    \<and> (\<exists>e'. HashMap_find hm' k = Inr (Some e') \<and> hm_value hm' e' = v)
    \<and> (\<forall>k'. k' \<noteq> k \<longrightarrow> table_lookup (hm', mm') k' = table_lookup (hm, mm) k')
    \<and> table_invar tid (hm', mm')"
proof -
  obtain e hm' mm' where i: "HashMap_insert hm mm tid k v = Inr (e, hm', mm')" "table_invar tid (hm', mm')"
    and l: "table_lookup (hm', mm') = (table_lookup (hm, mm))(k \<mapsto> v)"
    using hash_table.insert_new [OF assms(1,2), of 0 v] assms(3) by (auto simp: table_insert_def bindR_Inr_iff)
  have "table_lookup (hm', mm') k = Some v" by (simp add: l)
  then have "\<exists>e'. HashMap_find hm' k = Inr (Some e') \<and> hm_value hm' e' = v"
    by (auto simp: table_lookup_def split: sum.splits option.splits)
  with i l show ?thesis by auto
qed

definition small_memory :: MyMalloc where
  "small_memory = \<lparr>profilerMemory = \<lparr>pm_initialized = False, pm_startPointer = 0, pm_objectNum = 0,
      pm_endPointer = 0, pm_overheadPointer = 0\<rparr>, xthread_idx = 0,
    threadLocalProfilerHashMemory = [\<lparr>mm_initialized = True, mm_objectNum = 0, mm_startPointer = 0x2000,
      mm_endPointer = 0x4000, mm_overheadPointer = 0x3000, mm_currentSize = 0x2000\<rparr>]\<rparr>"

lemma one_entry_table: "table_invar 0 (one_entry v, small_memory)"
  using one_entry_rep [of v]
  by (auto simp: table_invar_def region_ok_def regions_ok_def owned_def handed_out_def region_span_def
      one_entry_def nbuckets_def bucket_at_def bucket_addr_def small_memory_def)

theorem insert_then_find_witness:
  "\<exists>e hm' mm'. HashMap_insert one_entry_map small_memory 0 8 10 = Inr (e, hm', mm')
    \<and> (\<exists>e'. HashMap_find hm' 8 = Inr (Some e') \<and> hm_value hm' e' = 10)"
proof -
  have "HashMap_find one_entry_map 8 = Inr None"
    using HashMap_find_rep [OF one_entry_map_rep, of 8] by (simp add: one_entry_map_def one_entry_def)
  then have "table_lookup (one_entry_map, small_memory) 8 = None" by (simp add: table_lookup_def)
  moreover have "table_room 0 (one_entry_map, small_memory) 1"
    by (simp add: table_room_def one_entry_map_def one_entry_def nbuckets_def small_memory_def)
  ultimately show ?thesis
    using insert_then_find [OF one_entry_table [of "9 :: nat", folded one_entry_map_def], of 8 10] by blast
qed

end
