(* ===== verification/ObjTable.thy ===== *)
theory ObjTable
  imports Table
begin

text \<open>
  The table of live and past objects (\<^verbatim>\<open>src_light/objTable.h\<close>, \<^verbatim>\<open>objTable.cpp\<close>) and the call
  keys it stores (\<^verbatim>\<open>callsite.cpp\<close>). An object is looked up by its address; the first allocation
  at an address inserts an entry, a later one overwrites it and counts as reuse. Nothing removes
  an entry.

  What the running thread contributes (its stack, its index, the return address the profiler reads
  from a fixed stack offset) is the argument \<open>CallEnv\<close>. The spin locks around the insertions are
  modelled in \<open>Spinlock\<close>; here each operation runs alone.
\<close>

record ObjStat =
  os_callKey :: u8
  os_tid :: u16
  os_size :: u32

definition newObj :: "u8 \<Rightarrow> u16 \<Rightarrow> u32 \<Rightarrow> ObjStat" where
  "newObj callKey tid sz = \<lparr>os_callKey = callKey, os_tid = tid, os_size = sz\<rparr>"

record CallEnv =
  ce_stackTop :: u64
  ce_returnAddr :: u64
  ce_stackBottom :: u64
  ce_tid :: u16

definition getStackOffset :: "CallEnv \<Rightarrow> u64" where
  "getStackOffset env = ce_stackBottom env - ce_stackTop env"

record Callsite =
  callKeyBook :: "bool list"
  numCallKey :: u16
  callTable :: "(u8, u64) HashMap"

definition NUM_CALLKEY :: nat where [config]: "NUM_CALLKEY = 256"

definition callKey_of :: "CallEnv \<Rightarrow> u8" where
  "callKey_of env = ucast (drop_bit 4 (getStackOffset env + ce_returnAddr env))"

definition getCallKey ::
  "CallEnv \<Rightarrow> u8 \<Rightarrow> Callsite \<Rightarrow> MyMalloc \<Rightarrow> crash + (u8 \<times> Callsite \<times> MyMalloc)" where
  "getCallKey env oldCallKey cs mm =
    (let callKey = callKey_of env in
     if callKey \<noteq> oldCallKey \<and> \<not> callKeyBook cs ! unat callKey
     then bindR (HashMap_insertIfAbsent (callTable cs) mm (unat (ce_tid env)) callKey (ce_returnAddr env))
       (\<lambda>(_, t, mm). Inr (callKey, cs\<lparr>callKeyBook := (callKeyBook cs)[unat callKey := True],
                                      callTable := t, numCallKey := numCallKey cs + 1\<rparr>, mm))
     else Inr (callKey, cs, mm))"

text \<open>The lock an address hashes to.\<close>

definition HashLocksSet_index :: "u64 \<Rightarrow> u64" where
  "HashLocksSet_index address = hashAddr address AND (of_nat MAX_OBJ_NUM - 1)"

definition CallKeyHashLocksSet_index :: "u8 \<Rightarrow> u64" where
  "CallKeyHashLocksSet_index key = hash_uint8_t key AND (of_nat NUM_CALLKEY - 1)"

record ObjTable =
  objStatusMap :: "(u64, ObjStat) HashMap"
  ot_callsite :: Callsite
  ot_memory :: MyMalloc

definition ObjTable_initialize :: "u64 \<Rightarrow> ObjTable \<Rightarrow> ObjTable" where
  "ObjTable_initialize mmap_result t =
    t\<lparr>objStatusMap :=
       HashMap_initialize mmap_result hashAddr compareAddr (of_nat MAX_OBJ_NUM) (objStatusMap t)\<rparr>"

definition ObjTable_allocUpdate :: "CallEnv \<Rightarrow> u32 \<Rightarrow> u64 \<Rightarrow> ObjTable \<Rightarrow> crash + (bool \<times> ObjTable)" where
  "ObjTable_allocUpdate env sz address t =
    bindR (HashMap_find (objStatusMap t) address) (\<lambda>status.
      case status of
        None \<Rightarrow>
          bindR (getCallKey env 0 (ot_callsite t) (ot_memory t)) (\<lambda>(key, cs, mm).
          bindR (HashMap_insert (objStatusMap t) mm (unat (ce_tid env)) address
                  (newObj key (ce_tid env) sz)) (\<lambda>(_, m, mm).
          Inr (False, t\<lparr>objStatusMap := m, ot_callsite := cs, ot_memory := mm\<rparr>)))
      | Some e \<Rightarrow>
          bindR (getCallKey env (os_callKey (hm_value (objStatusMap t) e)) (ot_callsite t) (ot_memory t))
            (\<lambda>(key, cs, mm).
          Inr (True, t\<lparr>objStatusMap := HashMap_assign (objStatusMap t) e
                         ((hm_value (objStatusMap t) e)\<lparr>os_callKey := key, os_tid := ce_tid env,
                                                        os_size := sz\<rparr>),
                       ot_callsite := cs, ot_memory := mm\<rparr>)))"

text \<open>\<open>freeUpdate\<close> only looks up; the entry stays.\<close>

definition ObjTable_freeUpdate :: "u64 \<Rightarrow> ObjTable \<Rightarrow> crash + ObjStat option" where
  "ObjTable_freeUpdate address t =
    bindR (HashMap_find (objStatusMap t) address)
      (\<lambda>status. Inr (map_option (hm_value (objStatusMap t)) status))"

section \<open>Correctness\<close>

abbreviation ot_state :: "ObjTable \<Rightarrow> (u64, ObjStat) table_state" where
  "ot_state t \<equiv> (objStatusMap t, ot_memory t)"

abbreviation ot_call_state :: "ObjTable \<Rightarrow> (u8, u64) table_state" where
  "ot_call_state t \<equiv> (callTable (ot_callsite t), ot_memory t)"

text \<open>
  Both tables are well formed for the running thread, and the thread's region has room for one
  entry of each.
\<close>

definition ObjTable_ok :: "CallEnv \<Rightarrow> ObjTable \<Rightarrow> bool" where
  "ObjTable_ok env t \<longleftrightarrow> table_invar (unat (ce_tid env)) (ot_state t)
    \<and> table_invar (unat (ce_tid env)) (ot_call_state t) \<and> length (callKeyBook (ot_callsite t)) = 256"

definition ObjTable_room :: "CallEnv \<Rightarrow> ObjTable \<Rightarrow> bool" where
  "ObjTable_room env t \<longleftrightarrow>
    (\<forall>i < nbuckets (objStatusMap t). unat (hm_count (objStatusMap t) (bucket_at (objStatusMap t) i)) < 65535)
    \<and> table_room (unat (ce_tid env)) (ot_call_state t) 1
    \<and> unat (next_block (ot_memory t) (unat (ce_tid env)))
        + unat (hm_sizeof_entry (callTable (ot_callsite t))) + unat (hm_sizeof_entry (objStatusMap t))
      \<le> unat (mm_endPointer (threadLocalProfilerHashMemory (ot_memory t) ! unat (ce_tid env)))"

text \<open>Another table's insertion only moves the bump pointer.\<close>

lemma table_invar_bump:
  assumes "table_invar tid (hm, mm)" and "bump_ok mm tid sz"
  shows "table_invar tid (hm, mm\<lparr>threadLocalProfilerHashMemory := bump mm tid sz\<rparr>)"
  using assms bump_regions_ok [OF assms(2)] bump_handed_out [OF assms(2)]
  by (fastforce simp: table_invar_def region_ok_def bump_owned)

lemma table_find_Inr:
  assumes "table_invar tid (hm, mm)"
  obtains r where "HashMap_find hm k = Inr r" "table_lookup (hm, mm) k = map_option (hm_value hm) r"
  using assms HashMap_find_rep by (fastforce simp: table_invar_def table_lookup_def split: option.splits)

lemma insertIfAbsent_cases:
  assumes inv: "table_invar tid (hm, mm)" and room: "table_room tid (hm, mm) 1"
  obtains b where "HashMap_insertIfAbsent hm mm tid k v = Inr (True, hm, mm)"
  | hm' where "HashMap_insertIfAbsent hm mm tid k v
        = Inr (False, hm', mm\<lparr>threadLocalProfilerHashMemory := bump mm tid (hm_sizeof_entry hm)\<rparr>)"
      "table_invar tid (hm', mm\<lparr>threadLocalProfilerHashMemory := bump mm tid (hm_sizeof_entry hm)\<rparr>)"
      "bump_ok mm tid (hm_sizeof_entry hm)"
proof -
  obtain B where rep: "hm_rep hm B" and tid: "tid < length (threadLocalProfilerHashMemory mm)"
    and reg: "region_ok mm hm B" and sz: "0 < hm_sizeof_entry hm"
    using inv by (auto simp: table_invar_def)
  have pos: "0 < nbuckets hm" using rep by (simp add: hm_rep_def)
  have wb: "\<And>f. with_bucket hm k f = f (bucket_at hm (bucket_of hm k))" using pos by (rule with_bucket_eq)
  have ge: "HashMap_find hm k = Inr (getEntry hm (bucket_at hm (bucket_of hm k)) k)"
    by (simp add: HashMap_find_def wb)
  show thesis
  proof (cases "getEntry hm (bucket_at hm (bucket_of hm k)) k")
    case (Some e)
    then show thesis using that(1) by (simp add: HashMap_insertIfAbsent_def wb)
  next
    case None
    have bm: "bump_ok mm tid (hm_sizeof_entry hm)"
      using room tid reg sz by (simp add: bump_ok_def table_room_def region_ok_def)
    have "table_lookup (hm, mm) k = None" using ge None by (simp add: table_lookup_def)
    then obtain s' where s': "table_insert tid (hm, mm) k v = Inr s'" "table_invar tid s'"
      using hash_table.insert_new [OF inv, of k 0 v] room by auto
    note ins = insertEntry_eq [OF hashMalloc_eq [OF tid, of "hm_sizeof_entry hm"], of "bucket_at hm (bucket_of hm k)" k v]
    let ?hm = "linked_entry hm (next_block mm tid) (bucket_at hm (bucket_of hm k)) k v"
    have "s' = (?hm, mm\<lparr>threadLocalProfilerHashMemory := bump mm tid (hm_sizeof_entry hm)\<rparr>)"
      using s'(1) ins by (simp add: table_insert_def HashMap_insert_def wb)
    with s' show thesis
      using that(2) [of ?hm] ins bm by (simp add: HashMap_insertIfAbsent_def wb None)
  qed
qed

text \<open>
  \<open>getCallKey\<close> returns the key of the call site, and leaves both tables usable; it takes at most
  one entry from the thread's region.
\<close>

lemma getCallKey_spec:
  assumes ok: "ObjTable_ok env t" and room: "ObjTable_room env t"
  obtains cs mm where "getCallKey env old (ot_callsite t) (ot_memory t) = Inr (callKey_of env, cs, mm)"
    and "ObjTable_ok env (t\<lparr>ot_callsite := cs, ot_memory := mm\<rparr>)"
    and "table_room (unat (ce_tid env)) (objStatusMap t, mm) 1"
proof -
  let ?tid = "unat (ce_tid env)" and ?cs = "ot_callsite t" and ?mm = "ot_memory t"
  have inv: "table_invar ?tid (callTable ?cs, ?mm)" and inv2: "table_invar ?tid (objStatusMap t, ?mm)"
    and cr: "table_room ?tid (callTable ?cs, ?mm) 1" and len: "length (callKeyBook ?cs) = 256"
    using ok room by (auto simp: ObjTable_ok_def ObjTable_room_def)
  have room0: "table_room ?tid (objStatusMap t, ?mm) 1"
    using room by (auto simp: ObjTable_room_def table_room_def)
  show thesis
  proof (cases "callKey_of env \<noteq> old \<and> \<not> callKeyBook ?cs ! unat (callKey_of env)")
    case False
    then have "getCallKey env old ?cs ?mm = Inr (callKey_of env, ?cs, ?mm)"
      by (auto simp: getCallKey_def Let_def)
    from that [OF this] ok room0 show thesis by (simp add: ObjTable_ok_def)
  next
    case True
    then have new: "getCallKey env old ?cs ?mm = bindR (HashMap_insertIfAbsent (callTable ?cs) ?mm ?tid (callKey_of env) (ce_returnAddr env))
       (\<lambda>(_, ct, mm). Inr (callKey_of env, ?cs\<lparr>callKeyBook := (callKeyBook ?cs)[unat (callKey_of env) := True],
                                      callTable := ct, numCallKey := numCallKey ?cs + 1\<rparr>, mm))"
      by (simp add: getCallKey_def Let_def)
    show thesis
    proof (rule insertIfAbsent_cases [OF inv cr, of "callKey_of env" "ce_returnAddr env"])
      assume "HashMap_insertIfAbsent (callTable ?cs) ?mm ?tid (callKey_of env) (ce_returnAddr env)
        = Inr (True, callTable ?cs, ?mm)"
      then show thesis using that new ok room0 len by (simp add: ObjTable_ok_def)
    next
      fix ct
      let ?mm' = "?mm\<lparr>threadLocalProfilerHashMemory := bump ?mm ?tid (hm_sizeof_entry (callTable ?cs))\<rparr>"
      assume i: "HashMap_insertIfAbsent (callTable ?cs) ?mm ?tid (callKey_of env) (ce_returnAddr env) = Inr (False, ct, ?mm')"
        and ct: "table_invar ?tid (ct, ?mm')" and bm: "bump_ok ?mm ?tid (hm_sizeof_entry (callTable ?cs))"
      have "unat (next_block ?mm ?tid + hm_sizeof_entry (callTable ?cs))
          = unat (next_block ?mm ?tid) + unat (hm_sizeof_entry (callTable ?cs))"
        using bm unat_lt_64 [of "mm_endPointer (threadLocalProfilerHashMemory ?mm ! ?tid)"]
        by (intro unat_add_bound) (simp add: bump_ok_def)
      then have "table_room ?tid (objStatusMap t, ?mm') 1"
        using room bm by (simp add: ObjTable_room_def table_room_def bump_nth bump_ok_def)
      then show thesis
        using that new i ct table_invar_bump [OF inv2 bm] len by (simp add: ObjTable_ok_def)
    qed
  qed
qed

lemma allocUpdate_spec:
  assumes ok: "ObjTable_ok env t" and room: "ObjTable_room env t"
  shows "\<exists>reused t'. ObjTable_allocUpdate env sz address t = Inr (reused, t')
    \<and> (reused \<longleftrightarrow> table_lookup (ot_state t) address \<noteq> None)
    \<and> table_lookup (ot_state t') = (table_lookup (ot_state t))(address \<mapsto> newObj (callKey_of env) (ce_tid env) sz)
    \<and> ObjTable_ok env t'"
proof -
  let ?tid = "unat (ce_tid env)"
  have inv: "table_invar ?tid (objStatusMap t, ot_memory t)" using ok by (simp add: ObjTable_ok_def)
  obtain r where r: "HashMap_find (objStatusMap t) address = Inr r"
    "table_lookup (ot_state t) address = map_option (hm_value (objStatusMap t)) r"
    using table_find_Inr [OF inv] by blast
  have mm_irrelevant: "table_lookup (objStatusMap t, mm) = table_lookup (ot_state t)" for mm
    by (rule ext) (simp add: table_lookup_def split: sum.splits option.splits)
  show ?thesis
  proof (cases r)
    case None
    obtain cs mm where g: "getCallKey env 0 (ot_callsite t) (ot_memory t) = Inr (callKey_of env, cs, mm)"
      "ObjTable_ok env (t\<lparr>ot_callsite := cs, ot_memory := mm\<rparr>)" "table_room ?tid (objStatusMap t, mm) 1"
      using getCallKey_spec [OF ok room] by blast
    have inv': "table_invar ?tid (objStatusMap t, mm)" using g(2) by (simp add: ObjTable_ok_def)
    have absent: "table_lookup (objStatusMap t, mm) address = None" using r(2) None mm_irrelevant [of mm] by simp
    have room0: "table_room ?tid (objStatusMap t, mm) (Suc 0)" using g(3) by simp
    obtain e m mm' where i: "HashMap_insert (objStatusMap t) mm ?tid address (newObj (callKey_of env) (ce_tid env) sz) = Inr (e, m, mm')"
      and inv'': "table_invar ?tid (m, mm')"
      and look: "table_lookup (m, mm') = (table_lookup (objStatusMap t, mm))(address \<mapsto> newObj (callKey_of env) (ce_tid env) sz)"
      using hash_table.insert_new [OF inv' absent room0, of "newObj (callKey_of env) (ce_tid env) sz"]
      by (auto simp: table_insert_def bindR_Inr_iff)
    have bm: "bump_ok mm ?tid (hm_sizeof_entry (objStatusMap t))"
      using room0 inv' by (auto simp: bump_ok_def table_room_def table_invar_def region_ok_def)
    have pos: "0 < nbuckets (objStatusMap t)" using inv by (auto simp: table_invar_def hm_rep_def)
    have "mm' = mm\<lparr>threadLocalProfilerHashMemory := bump mm ?tid (hm_sizeof_entry (objStatusMap t))\<rparr>"
      using i bm insertEntry_eq [OF hashMalloc_eq [of ?tid mm "hm_sizeof_entry (objStatusMap t)"]]
      by (simp add: HashMap_insert_def with_bucket_eq [OF pos] bump_ok_def)
    then have "table_invar ?tid (callTable cs, mm')"
      using table_invar_bump [OF _ bm, of "callTable cs"] g(2) by (simp add: ObjTable_ok_def)
    with inv'' g(2) have "ObjTable_ok env (t\<lparr>objStatusMap := m, ot_callsite := cs, ot_memory := mm'\<rparr>)"
      by (simp add: ObjTable_ok_def)
    moreover have "ObjTable_allocUpdate env sz address t
        = Inr (False, t\<lparr>objStatusMap := m, ot_callsite := cs, ot_memory := mm'\<rparr>)"
      using r(1) None g(1) i by (simp add: ObjTable_allocUpdate_def)
    moreover have "table_lookup (ot_state t) address = None" using r(2) None by simp
    ultimately show ?thesis using look mm_irrelevant [of mm] by auto
  next
    case (Some e)
    let ?old = "hm_value (objStatusMap t) e"
    obtain cs mm where g: "getCallKey env (os_callKey ?old) (ot_callsite t) (ot_memory t) = Inr (callKey_of env, cs, mm)"
      "ObjTable_ok env (t\<lparr>ot_callsite := cs, ot_memory := mm\<rparr>)"
      using getCallKey_spec [OF ok room] by blast
    have inv': "table_invar ?tid (objStatusMap t, mm)" using g(2) by (simp add: ObjTable_ok_def)
    have new: "?old\<lparr>os_callKey := callKey_of env, os_tid := ce_tid env, os_size := sz\<rparr>
        = newObj (callKey_of env) (ce_tid env) sz"
      by (simp add: newObj_def)
    have found: "table_lookup (objStatusMap t, mm) address = Some ?old" using r(2) Some mm_irrelevant [of mm] by simp
    have asg: "table_assign (objStatusMap t, mm) address v = (HashMap_assign (objStatusMap t) e v, mm)" for v
      using r(1) Some by (simp add: table_assign_def)
    let ?hm = "HashMap_assign (objStatusMap t) e (newObj (callKey_of env) (ce_tid env) sz)"
    let ?t = "t\<lparr>objStatusMap := ?hm, ot_callsite := cs, ot_memory := mm\<rparr>"
    have a: "table_invar ?tid (?hm, mm)"
      "table_lookup (?hm, mm) = (table_lookup (objStatusMap t, mm))(address \<mapsto> newObj (callKey_of env) (ce_tid env) sz)"
      using hash_table.assign_old [OF inv' found, of "newObj (callKey_of env) (ce_tid env) sz", unfolded asg]
      by blast+
    have run: "ObjTable_allocUpdate env sz address t = Inr (True, ?t)"
      using r(1) Some g(1) by (simp add: ObjTable_allocUpdate_def new)
    have "ObjTable_ok env ?t" using a(1) g(2) by (simp add: ObjTable_ok_def)
    moreover have "table_lookup (ot_state ?t) = (table_lookup (ot_state t))(address \<mapsto> newObj (callKey_of env) (ce_tid env) sz)"
      using a(2) mm_irrelevant [of mm] by simp
    moreover have "table_lookup (ot_state t) address \<noteq> None" using r(2) Some by simp
    ultimately show ?thesis using run by blast
  qed
qed

lemma freeUpdate_spec:
  assumes "ObjTable_ok env t"
  shows "ObjTable_freeUpdate address t = Inr (table_lookup (ot_state t) address)"
proof -
  have "table_invar (unat (ce_tid env)) (objStatusMap t, ot_memory t)" using assms by (simp add: ObjTable_ok_def)
  then obtain r where "HashMap_find (objStatusMap t) address = Inr r"
    "table_lookup (ot_state t) address = map_option (hm_value (objStatusMap t)) r"
    by (rule table_find_Inr)
  then show ?thesis by (simp add: ObjTable_freeUpdate_def)
qed

section \<open>A start state\<close>

text \<open>
  The program's start: a region for the running thread, and both tables initialised on mappings
  that do not touch it.
\<close>

definition sample_memory :: MyMalloc where
  "sample_memory = \<lparr>profilerMemory = \<lparr>pm_initialized = False, pm_startPointer = 0x1000, pm_objectNum = 0,
      pm_endPointer = 0, pm_overheadPointer = 0\<rparr>, xthread_idx = 0,
    threadLocalProfilerHashMemory = [MMAPProfilerMemory_initialize 0x7f0000000000
      \<lparr>mm_initialized = False, mm_objectNum = 0, mm_startPointer = 0, mm_endPointer = 0,
       mm_overheadPointer = 0, mm_currentSize = 0\<rparr> MMAP_PROFILER_HASH_MEMORY_SIZE]\<rparr>"

definition empty_map :: "('k \<Rightarrow> u64) \<Rightarrow> ('k \<Rightarrow> 'k \<Rightarrow> bool) \<Rightarrow> u64 \<Rightarrow> 'v \<Rightarrow> 'k \<Rightarrow> ('k, 'v) HashMap" where
  "empty_map hf cmp entry_size v k =
    \<lparr>hm_initialized = False, hm_buckets = 0, hm_bucketsTotal = 0, hm_totalEntry = 0,
     hm_lists = \<lparr>next_of = \<lambda>_. 0, prev_of = \<lambda>_. 0\<rparr>, hm_count = \<lambda>_. 0, hm_key = \<lambda>_. k,
     hm_value = \<lambda>_. v, hm_hashfunc = hf, hm_keycmp = cmp, hm_sizeof_entry = entry_size\<rparr>"

definition sample_objtable :: ObjTable where
  "sample_objtable = ObjTable_initialize 0x100000000000
    \<lparr>objStatusMap = empty_map hashAddr compareAddr 32 (newObj 0 0 0) 0,
     ot_callsite = \<lparr>callKeyBook = replicate 256 False, numCallKey = 0,
       callTable = HashMap_initialize 0x200000000000 hash_uint8_t compare_uint8_t 256
         (empty_map hash_uint8_t compare_uint8_t 32 0 0)\<rparr>,
     ot_memory = sample_memory\<rparr>"

definition sample_env :: CallEnv where
  "sample_env = \<lparr>ce_stackTop = 0x7ffd00001000, ce_returnAddr = 0x401230,
    ce_stackBottom = 0x7ffd00002000, ce_tid = 0\<rparr>"

lemma initialized_counts:
  fixes hf :: "'k \<Rightarrow> u64" and hm :: "('k, 'v) HashMap"
  assumes "\<not> hm_initialized hm" and "0 < sz" and "unat base + 24 * unat sz \<le> 2 ^ 64"
    and "\<And>a b. kcmp a b \<longleftrightarrow> a = b"
  defines "hm' \<equiv> HashMap_initialize base hf kcmp sz hm"
  shows "i < nbuckets hm' \<Longrightarrow> hm_count hm' (bucket_at hm' i) = 0"
  using HashMap_initialize_rep(1) [OF assms(1-3), where kcmp = kcmp, OF assms(4)]
  by (auto simp: hm_rep_def hm'_def)

lemma sample_region:
  "threadLocalProfilerHashMemory sample_memory = [\<lparr>mm_initialized = True, mm_objectNum = 0,
    mm_startPointer = 0x7f0000000000, mm_endPointer = 0x7f0200000000,
    mm_overheadPointer = 0x7f0000000000, mm_currentSize = 0x200000000\<rparr>]"
  by (simp add: sample_memory_def MMAPProfilerMemory_initialize_def config)

lemma sample_objtable_ok: "ObjTable_ok sample_env sample_objtable" "ObjTable_room sample_env sample_objtable"
proof -
  let ?cm = "empty_map hash_uint8_t compare_uint8_t 32 (0::u64) 0"
  let ?om = "empty_map hashAddr compareAddr 32 (newObj 0 0 0) 0"
  let ?c = "HashMap_initialize 0x200000000000 hash_uint8_t compare_uint8_t 256 ?cm"
  let ?o = "HashMap_initialize 0x100000000000 hashAddr compareAddr (of_nat MAX_OBJ_NUM) ?om"
  have cmp: "compare_uint8_t a b \<longleftrightarrow> a = b" "compareAddr x y \<longleftrightarrow> x = y" for a b x y
    by (simp_all add: compare_uint8_t_def compareAddr_def)
  have fresh: "\<not> hm_initialized ?cm" "\<not> hm_initialized ?om" by (simp_all add: empty_map_def)
  have sz: "hm_sizeof_entry ?c = 32" "hm_sizeof_entry ?o = 32"
    using HashMap_initialize_rep(5) [OF fresh(1), of 256 "0x200000000000" compare_uint8_t hash_uint8_t]
      HashMap_initialize_rep(5) [OF fresh(2), of "of_nat MAX_OBJ_NUM" "0x100000000000" compareAddr hashAddr] cmp
    by (simp_all add: empty_map_def config)
  have szo: "hm_sizeof_entry (HashMap_initialize 0x100000000000 hashAddr compareAddr 4194304 ?om) = 32"
    using sz(2) by (simp add: config)
  have mem: "ot_memory sample_objtable = sample_memory" "objStatusMap sample_objtable = ?o"
      "callTable (ot_callsite sample_objtable) = ?c" "length (callKeyBook (ot_callsite sample_objtable)) = 256"
    by (simp_all add: sample_objtable_def ObjTable_initialize_def)
  have reg: "regions_ok (threadLocalProfilerHashMemory sample_memory)"
    by (simp add: sample_region regions_ok_def)
  have out: "unat (base :: u64) + 24 * n \<le> 0x300000000000 \<Longrightarrow> i < n \<Longrightarrow>
      base + of_nat i * 24 \<notin> owned (threadLocalProfilerHashMemory sample_memory)" for base i n
  proof -
    assume a: "unat base + 24 * n \<le> 0x300000000000" "i < n"
    then have "unat (base + of_nat i * 24) = (unat base + i * 24) mod 2 ^ 64"
      by (simp add: unat_word_ariths unat_of_nat mod_simps)
    with a have "unat (base + of_nat i * 24) < 0x7f0000000000" by simp
    then show ?thesis by (auto simp: sample_region owned_def region_span_def word_le_nat_alt)
  qed
  show "ObjTable_ok sample_env sample_objtable"
    using table_invar_initialize(1) [OF fresh(1), of 256 "0x200000000000" compare_uint8_t 0 sample_memory hash_uint8_t]
      table_invar_initialize(1) [OF fresh(2), of "of_nat MAX_OBJ_NUM" "0x100000000000" compareAddr 0 sample_memory hashAddr]
      cmp out [of "0x200000000000" 256] out [of "0x100000000000" MAX_OBJ_NUM]
    by (simp add: ObjTable_ok_def mem sample_env_def reg [unfolded sample_region] empty_map_def config sample_region)
  show "ObjTable_room sample_env sample_objtable"
    using initialized_counts [OF fresh(1), of 256 "0x200000000000" compare_uint8_t _ hash_uint8_t]
      initialized_counts [OF fresh(2), of "of_nat MAX_OBJ_NUM" "0x100000000000" compareAddr _ hashAddr] cmp
    by (simp add: ObjTable_room_def table_room_def mem sz szo sample_region sample_env_def config)
qed

section \<open>Properties\<close>

text \<open>
  C14: an allocation is recorded and a later free finds it. \<open>allocUpdate\<close> of \<open>sz\<close> bytes at an address
  reports whether the address was seen before, \<open>freeUpdate\<close> of that address then returns the new
  call key, thread and size, what it returns for any other address is unchanged, and the
  table stays well formed.
\<close>

theorem allocUpdate_then_freeUpdate:
  assumes "ObjTable_ok env t" and "ObjTable_room env t"
  shows "\<exists>reused t'. ObjTable_allocUpdate env sz a t = Inr (reused, t')
    \<and> reused = (ObjTable_freeUpdate a t \<noteq> Inr None)
    \<and> ObjTable_freeUpdate a t' = Inr (Some (newObj (callKey_of env) (ce_tid env) sz))
    \<and> ObjTable_freeUpdate b t' = (if b = a then ObjTable_freeUpdate a t' else ObjTable_freeUpdate b t)
    \<and> ObjTable_ok env t'"
  using allocUpdate_spec [OF assms, of sz a] assms(1) by (auto simp: freeUpdate_spec)

theorem allocUpdate_then_freeUpdate_witness:
  "\<exists>reused t'. ObjTable_allocUpdate sample_env 48 0x5560000010a0 sample_objtable = Inr (reused, t')
    \<and> ObjTable_freeUpdate 0x5560000010a0 t' = Inr (Some (newObj (callKey_of sample_env) 0 48))"
  using allocUpdate_then_freeUpdate [OF sample_objtable_ok, of 48 "0x5560000010a0" 0]
  by (auto simp: sample_env_def)

end
