(* ===== verification/ConflictData.thy ===== *)
theory ConflictData
  imports Structs "HOL-Library.Multiset"
begin

text \<open>
  The miss statistics of \<^verbatim>\<open>shadowmemory.hh\<close> and \<^verbatim>\<open>shadowmemory.cpp\<close>: \<open>ConflictData\<close> collects the cache
  misses per cache set and the lines of the sets that conflict, \<open>CoherencyData\<close> the threads that
  touch the words of a line. Pointers to cache map entries are positions in the cache map
  (\<^verbatim>\<open>nullptr\<close> is None). A report prints what \<open>fprintf\<close> would, as a list of items.
\<close>

section \<open>Conflict misses\<close>

record ConflictData =
  cd_numOfCme :: u8
  cd_setOfCme :: "u8 list"
  cd_numOfCmePerSet :: "u8 list"
  cd_objNumPerSet :: "u8 list"
  cd_callKeyPerSet :: "(u8 \<times> u8) list"
  cd_totalMisses :: u32
  cd_missesPerSet :: "u32 list"
  cd_cme :: "nat option list"

definition CME :: nat where [config]: "CME = 128"

definition ConflictData_zero :: ConflictData where
  "ConflictData_zero = \<lparr>cd_numOfCme = 0, cd_setOfCme = replicate CME 0, cd_numOfCmePerSet = replicate 64 0,
    cd_objNumPerSet = replicate 64 0, cd_callKeyPerSet = replicate 64 (0, 0), cd_totalMisses = 0,
    cd_missesPerSet = replicate 64 0, cd_cme = replicate CME None\<rparr>"

text \<open>The two flags a cache map entry keeps in the upper bits of \<open>misses\<close>, and the counter below them.\<close>

definition CONFLICT_BIT :: u8 where [config]: "CONFLICT_BIT = 0x80"
definition COHERENCY_BIT :: u8 where [config]: "COHERENCY_BIT = 0x40"
definition MISS_MASK :: u8 where [config]: "MISS_MASK = 0x3f"

definition has_bit :: "u8 \<Rightarrow> u8 \<Rightarrow> bool" where
  "has_bit misses b \<longleftrightarrow> misses AND b \<noteq> 0"

definition cache_set :: "u64 \<Rightarrow> u8" where
  "cache_set addr = ucast (drop_bit 6 (addr AND 0xfff))"

text \<open>
  \<open>addMiss\<close> gets the entry's \<open>misses\<close> byte and returns it updated. The locked block repeats the test
  before it; without another thread in between the second test has the same outcome.
\<close>

definition ConflictData_addMiss :: "u64 \<Rightarrow> nat \<Rightarrow> u8 \<Rightarrow> ConflictData \<Rightarrow> u8 \<times> ConflictData" where
  "ConflictData_addMiss addr cme misses cd =
    (let setId = cache_set addr; s = unat setId;
         cd = cd\<lparr>cd_totalMisses := cd_totalMisses cd + 1\<rparr>;
         cd = cd\<lparr>cd_missesPerSet := (cd_missesPerSet cd)[s := cd_missesPerSet cd ! s + 1]\<rparr>
     in if cd_totalMisses cd \<ge> 50 \<and> cd_missesPerSet cd ! s * 20 \<ge> cd_totalMisses cd
           \<and> \<not> has_bit misses CONFLICT_BIT \<and> \<not> has_bit misses COHERENCY_BIT
           \<and> unat (cd_numOfCme cd) < CME \<and> cd_numOfCmePerSet cd ! s < 16
        then (misses OR CONFLICT_BIT,
              cd\<lparr>cd_cme := (cd_cme cd)[unat (cd_numOfCme cd) := Some cme],
                 cd_setOfCme := (cd_setOfCme cd)[unat (cd_numOfCme cd) := setId],
                 cd_numOfCme := cd_numOfCme cd + 1,
                 cd_numOfCmePerSet := (cd_numOfCmePerSet cd)[s := cd_numOfCmePerSet cd ! s + 1]\<rparr>)
        else (misses, cd))"

text \<open>The index loop of \<open>checkObj\<close> (and of the coherency functions): the first hit, or the bound.\<close>

fun find_index :: "nat \<Rightarrow> nat option list \<Rightarrow> nat \<Rightarrow> nat" where
  "find_index 0 xs c = 0"
| "find_index (Suc n) [] c = 0"
| "find_index (Suc n) (x # xs) c = (if x = Some c then 0 else Suc (find_index n xs c))"

definition note_key :: "u8 \<Rightarrow> u8 \<times> u8 \<Rightarrow> u8 \<times> u8" where
  "note_key callKey ks =
    (if fst ks \<noteq> 0
     then (if fst ks \<noteq> callKey \<and> snd ks = 0 then (fst ks, callKey) else ks)
     else (callKey, snd ks))"

definition ConflictData_checkObj :: "nat \<Rightarrow> u8 \<Rightarrow> ConflictData \<Rightarrow> crash + ConflictData" where
  "ConflictData_checkObj cme callKey cd =
    (let i = find_index (unat (cd_numOfCme cd)) (cd_cme cd) cme in
     if i < CME \<and> unat (cd_setOfCme cd ! i) < 64
     then (let s = unat (cd_setOfCme cd ! i) in
           Inr (cd\<lparr>cd_objNumPerSet := (cd_objNumPerSet cd)[s := cd_objNumPerSet cd ! s + 1],
                   cd_callKeyPerSet := (cd_callKeyPerSet cd)[s := note_key callKey (cd_callKeyPerSet cd ! s)]\<rparr>))
     else Inl OutOfBounds)"

text \<open>
  \<open>printOutput\<close>: one report per listed line of a set with at least five percent of the misses; a set
  that the allocator caused is counted once, because its misses are then reset. \<open>scores\<close> has room for
  20 values. The entries' \<open>misses\<close> bytes are read through \<open>m\<close>.
\<close>

datatype ConflictReport =
  AllocatorConflict u8 u32 u32 u32 "u8 list"
| ApplicationConflict u8 u32 "u8 list"

definition reported_keys :: "u8 \<times> u8 \<Rightarrow> u8 list" where
  "reported_keys ks = [k \<leftarrow> [fst ks, snd ks]. k \<noteq> 0]"

definition conflict_step ::
  "(nat \<Rightarrow> u8) \<Rightarrow> nat \<Rightarrow> u8 list \<times> ConflictReport list \<times> ConflictData
    \<Rightarrow> crash + (u8 list \<times> ConflictReport list \<times> ConflictData)" where
  "conflict_step m i = (\<lambda>(scores, out, cd).
    case cd_cme cd ! i of
      None \<Rightarrow> Inl NullPointer
    | Some c \<Rightarrow>
        (let set = cd_setOfCme cd ! i; s = unat set; pc = cd_missesPerSet cd ! s * 100 div cd_totalMisses cd in
         if m c \<noteq> 0 \<and> cd_missesPerSet cd ! s * 20 \<ge> cd_totalMisses cd
         then (if cd_objNumPerSet cd ! s \<ge> 2
               then (if length scores < 20
                     then Inr (scores @ [ucast pc],
                          out @ [AllocatorConflict set pc (cd_missesPerSet cd ! s) (cd_totalMisses cd)
                                   (reported_keys (cd_callKeyPerSet cd ! s))],
                          cd\<lparr>cd_missesPerSet := (cd_missesPerSet cd)[s := 0]\<rparr>)
                     else Inl OutOfBounds)
               else Inr (scores, out @ [ApplicationConflict set pc (reported_keys (cd_callKeyPerSet cd ! s))], cd))
         else Inr (scores, out, cd)))"

fun conflict_loop ::
  "(nat \<Rightarrow> u8) \<Rightarrow> nat \<Rightarrow> nat \<Rightarrow> u8 list \<times> ConflictReport list \<times> ConflictData
    \<Rightarrow> crash + (u8 list \<times> ConflictReport list \<times> ConflictData)" where
  "conflict_loop m 0 i st = Inr st"
| "conflict_loop m (Suc n) i st = bindR (conflict_step m i st) (conflict_loop m n (Suc i))"

definition sort_descending :: "u8 list \<Rightarrow> u8 list" where
  "sort_descending scores = rev (sort scores)"

text \<open>The score sum of the conflict report: \<open>j\<close> is a 64-bit power of two.\<close>

fun conflict_score :: "u8 list \<Rightarrow> u64 \<Rightarrow> u8 \<Rightarrow> crash + u8" where
  "conflict_score [] j acc = Inr acc"
| "conflict_score (x # xs) j acc =
    (if j = 0 then Inl DivisionByZero else conflict_score xs (j * 2) (acc + ucast ((ucast x :: u64) div j)))"

definition ConflictData_printOutput ::
  "(nat \<Rightarrow> u8) \<Rightarrow> ConflictData \<Rightarrow> crash + ((ConflictReport list \<times> u8) option \<times> ConflictData)" where
  "ConflictData_printOutput m cd =
    (if cd_totalMisses cd \<ge> 50
     then bindR (conflict_loop m (unat (cd_numOfCme cd)) 0 ([], [], cd)) (\<lambda>(scores, out, cd).
       bindR (conflict_score (sort_descending scores) 1 0) (\<lambda>score. Inr (Some (out, score), cd)))
     else Inr (None, cd))"

section \<open>Coherency misses\<close>

record CoherencyData =
  co_callKey :: "u8 \<times> u8"
  co_misses :: u16
  co_allocateTid :: "u16 \<times> u16"
  co_tidsPerWord :: "u16 list list"
  co_cme :: "nat option"

definition NUM_WORD :: nat where [config]: "NUM_WORD = 8"

definition CoherencyData_zero :: CoherencyData where
  "CoherencyData_zero = \<lparr>co_callKey = (0, 0), co_misses = 0, co_allocateTid = (0, 0),
    co_tidsPerWord = replicate NUM_WORD (replicate 16 0), co_cme = None\<rparr>"

text \<open>The thread ids of one word: the loop stops at a free cell (0) or at the thread's own cell.\<close>

fun note_tid :: "u16 \<Rightarrow> u16 list \<Rightarrow> u16 list" where
  "note_tid tid [] = []"
| "note_tid tid (t # ts) = (if t \<noteq> 0 \<and> t \<noteq> tid then t # note_tid tid ts else tid # ts)"

definition word_index :: "u64 \<Rightarrow> nat" where
  "word_index addr = unat (drop_bit 3 (addr AND 63))"

definition CoherencyData_touch :: "u64 \<Rightarrow> u16 \<Rightarrow> CoherencyData \<Rightarrow> CoherencyData" where
  "CoherencyData_touch addr tid d =
    d\<lparr>co_tidsPerWord := (co_tidsPerWord d)[word_index addr := note_tid tid (co_tidsPerWord d ! word_index addr)]\<rparr>"

text \<open>The owner of a freed object, as \<open>freeUpdateCacheLines\<close> notes it.\<close>

definition CoherencyData_noteFree :: "u16 \<Rightarrow> u8 \<Rightarrow> CoherencyData \<Rightarrow> CoherencyData" where
  "CoherencyData_noteFree tid callKey d =
    (let (t0, t1) = co_allocateTid d; (k0, k1) = co_callKey d in
     if t0 \<noteq> 0
     then d\<lparr>co_allocateTid := (if t0 \<noteq> tid \<and> t1 = 0 then (t0, tid) else (t0, t1)),
            co_callKey := (if k0 \<noteq> callKey \<and> k1 = 0 then (k0, callKey) else (k0, k1))\<rparr>
     else d\<lparr>co_allocateTid := (tid, t1), co_callKey := (callKey, k1)\<rparr>)"

text \<open>
  The sharing test of the report, word by word: two threads on one word are true sharing, different
  first threads on two words false sharing.
\<close>

fun tids_count :: "u16 list \<Rightarrow> nat" where
  "tids_count [] = 0"
| "tids_count (t # ts) = (if t \<noteq> 0 then Suc (tids_count ts) else 0)"

fun sharing :: "u16 list list \<Rightarrow> u16 \<Rightarrow> bool \<times> bool \<Rightarrow> bool \<times> bool" where
  "sharing [] lastTid flags = flags"
| "sharing (ts # tss) lastTid (tru, fals) =
    (let j = tids_count ts; tru = (tru \<or> j \<ge> 2) in
     if lastTid = 0 then sharing tss (ts ! 0) (tru, fals)
     else sharing tss lastTid (tru, fals \<or> lastTid \<noteq> ts ! 0 \<or> j \<ge> 2))"

text \<open>
  The false sharing score: here the divisor \<open>j\<close> is a \<open>uint8_t\<close>.
\<close>

fun false_sharing_score :: "u8 list \<Rightarrow> u8 \<Rightarrow> u8 \<Rightarrow> crash + u8" where
  "false_sharing_score [] j acc = Inr acc"
| "false_sharing_score (x # xs) j acc =
    (if j = 0 then Inl DivisionByZero else false_sharing_score xs (j * 2) (acc + x div j))"

section \<open>Invariants\<close>

definition conflict_ok :: "ConflictData \<Rightarrow> bool" where
  "conflict_ok cd \<longleftrightarrow> length (cd_setOfCme cd) = CME \<and> length (cd_cme cd) = CME
    \<and> length (cd_numOfCmePerSet cd) = 64 \<and> length (cd_objNumPerSet cd) = 64
    \<and> length (cd_callKeyPerSet cd) = 64 \<and> length (cd_missesPerSet cd) = 64
    \<and> unat (cd_numOfCme cd) \<le> CME
    \<and> (\<forall>i < unat (cd_numOfCme cd). unat (cd_setOfCme cd ! i) < 64 \<and> cd_cme cd ! i \<noteq> None)"

text \<open>The lines on the list, whose index the searches find.\<close>

definition listed :: "nat \<Rightarrow> nat option list \<Rightarrow> nat \<Rightarrow> bool" where
  "listed n xs c \<longleftrightarrow> (\<exists>i < n. i < length xs \<and> xs ! i = Some c)"

lemma find_index_listed:
  "listed n xs c \<Longrightarrow> find_index n xs c < n \<and> find_index n xs c < length xs \<and> xs ! find_index n xs c = Some c"
proof (induction n xs c rule: find_index.induct)
  case (3 n x xs c)
  show ?case
  proof (cases "x = Some c")
    case False
    with 3(2) have "listed n xs c" unfolding listed_def by (auto simp: less_Suc_eq_0_disj)
    with 3(1) False show ?thesis by simp
  qed simp
qed (auto simp: listed_def)

lemma find_index_le: "find_index n xs c \<le> n"
  by (induction n xs c rule: find_index.induct) auto

lemma listed_append: "listed n xs d \<Longrightarrow> listed (Suc n) (xs[n := x]) d"
  unfolding listed_def by (metis length_list_update less_SucI nat_neq_iff nth_list_update_neq)

lemma listed_last: "n < length xs \<Longrightarrow> listed (Suc n) (xs[n := Some c]) c"
  unfolding listed_def by (metis length_list_update lessI nth_list_update_eq)

lemma unat_cache_set: "unat (cache_set addr) < 64"
proof -
  have "unat (drop_bit 6 addr AND 63) < 64"
    using unat_and_mask [of "drop_bit 6 addr" 6] by (simp add: mask_eq_exp_minus_1)
  then show ?thesis by (simp add: cache_set_def unsigned_ucast_eq take_bit_nat_eq_self)
qed

lemma has_bit_or: "has_bit (m OR b) b' \<longleftrightarrow> has_bit m b' \<or> has_bit b b'"
  by (auto simp: has_bit_def bit_eq_iff bit_simps)

lemma has_bit_self [simp]:
  "has_bit CONFLICT_BIT CONFLICT_BIT" "\<not> has_bit CONFLICT_BIT COHERENCY_BIT"
  "has_bit COHERENCY_BIT COHERENCY_BIT" "\<not> has_bit COHERENCY_BIT CONFLICT_BIT"
  "\<not> has_bit 0 b"
  by (simp_all add: has_bit_def config)

text \<open>The miss counter below the flags does not reach them.\<close>

lemma miss_increment:
  assumes "m AND MISS_MASK < 5"
  shows "has_bit (m + 1) CONFLICT_BIT = has_bit m CONFLICT_BIT" and "has_bit (m + 1) COHERENCY_BIT = has_bit m COHERENCY_BIT"
proof -
  define x where "x = (m AND 0x3f) + 1"
  have lt: "unat (m AND 0x3f) < 5" using assms by (simp add: word_less_nat_alt config)
  then have "unat x = unat (m AND 0x3f) + 1" unfolding x_def by (intro trans [OF unat_add_bound]) simp_all
  with lt have "unat x < 64" by simp
  then have x: "take_bit 6 x = x"
    using unat_and_mask [of x 6] by (intro word_unat_eq_iff [THEN iffD2]) (simp add: take_bit_eq_mask)
  have z: "take_bit 6 y AND 0x80 = 0" "take_bit 6 y AND 0x40 = 0" "take_bit 6 y AND 0xc0 = 0" for y :: u8
    by (simp_all add: take_bit_eq_mask mask_eq_exp_minus_1 ac_simps)
  have "(m AND 0xc0) OR (m AND 0x3f) = m AND 0xff" by (simp flip: bit.conj_disj_distrib)
  also have "(0xff :: u8) = - 1" by simp
  finally have "(m AND 0xc0) OR (m AND 0x3f) = m" by simp
  moreover have "(m AND 0xc0) + (m AND 0x3f) = (m AND 0xc0) OR (m AND 0x3f)"
    by (rule disjunctive_add_eq_or) (simp add: ac_simps)
  ultimately have "m + 1 = (m AND 0xc0) + x" by (simp add: x_def)
  also have "\<dots> = (m AND 0xc0) OR x"
    using z(3) [of x] by (intro disjunctive_add_eq_or) (simp add: x ac_simps)
  finally have m: "m + 1 = (m AND 0xc0) OR x" .
  have "(m + 1) AND 0x80 = m AND 0x80" "(m + 1) AND 0x40 = m AND 0x40"
    unfolding m bit.conj_disj_distrib2 using z [of x] by (simp_all add: x word_bw_assocs)
  then show "has_bit (m + 1) CONFLICT_BIT = has_bit m CONFLICT_BIT" "has_bit (m + 1) COHERENCY_BIT = has_bit m COHERENCY_BIT"
    by (simp_all add: has_bit_def config)
qed
lemma conflict_ok_zero [simp]: "conflict_ok ConflictData_zero"
  by (simp add: conflict_ok_def ConflictData_zero_def config)

lemma addMiss_spec:
  assumes ok: "conflict_ok cd" and r: "ConflictData_addMiss addr c m cd = (m', cd')"
  shows "conflict_ok cd'"
    and "listed (unat (cd_numOfCme cd)) (cd_cme cd) d \<Longrightarrow> listed (unat (cd_numOfCme cd')) (cd_cme cd') d"
    and "m' = m \<or> m' = m OR CONFLICT_BIT \<and> listed (unat (cd_numOfCme cd')) (cd_cme cd') c"
    and "cd_missesPerSet cd' = (cd_missesPerSet cd)[unat (cache_set addr) := cd_missesPerSet cd ! unat (cache_set addr) + 1]"
    and "cd_totalMisses cd' = cd_totalMisses cd + 1"
    and "cd_numOfCmePerSet cd' = cd_numOfCmePerSet cd
      \<or> cd_numOfCmePerSet cd ! unat (cache_set addr) < 16 \<and> cd_numOfCmePerSet cd'
        = (cd_numOfCmePerSet cd)[unat (cache_set addr) := cd_numOfCmePerSet cd ! unat (cache_set addr) + 1]"
proof -
  let ?n = "unat (cd_numOfCme cd)"
  have grow: "unat (cd_numOfCme cd + 1) = Suc ?n" if "?n < CME"
    using that by (simp add: unat_word_ariths config)
  have len: "length (cd_cme cd) = CME" "length (cd_setOfCme cd) = CME" using ok by (simp_all add: conflict_ok_def)
  show "conflict_ok cd'"
    using ok r grow unat_cache_set [of addr]
    by (auto simp: conflict_ok_def ConflictData_addMiss_def Let_def nth_list_update less_Suc_eq split: if_splits)
  show "listed (unat (cd_numOfCme cd')) (cd_cme cd') d" if "listed ?n (cd_cme cd) d"
    using that r grow listed_append [OF that] by (auto simp: ConflictData_addMiss_def Let_def split: if_splits)
  show "m' = m \<or> m' = m OR CONFLICT_BIT \<and> listed (unat (cd_numOfCme cd')) (cd_cme cd') c"
    using r grow len listed_last [of ?n "cd_cme cd" c] by (auto simp: ConflictData_addMiss_def Let_def split: if_splits)
  show "cd_missesPerSet cd' = (cd_missesPerSet cd)[unat (cache_set addr) := cd_missesPerSet cd ! unat (cache_set addr) + 1]"
    "cd_totalMisses cd' = cd_totalMisses cd + 1"
    using r by (auto simp: ConflictData_addMiss_def Let_def split: if_splits)
  show "cd_numOfCmePerSet cd' = cd_numOfCmePerSet cd
      \<or> cd_numOfCmePerSet cd ! unat (cache_set addr) < 16 \<and> cd_numOfCmePerSet cd'
        = (cd_numOfCmePerSet cd)[unat (cache_set addr) := cd_numOfCmePerSet cd ! unat (cache_set addr) + 1]"
    using r by (auto simp: ConflictData_addMiss_def Let_def split: if_splits)
qed

lemma checkObj_spec:
  assumes "conflict_ok cd" and "listed (unat (cd_numOfCme cd)) (cd_cme cd) c"
  obtains cd' where "ConflictData_checkObj c key cd = Inr cd'" "conflict_ok cd'"
    "cd_numOfCme cd' = cd_numOfCme cd" "cd_cme cd' = cd_cme cd"
proof -
  note f = find_index_listed [OF assms(2)]
  with assms(1) have "find_index (unat (cd_numOfCme cd)) (cd_cme cd) c < CME"
    "unat (cd_setOfCme cd ! find_index (unat (cd_numOfCme cd)) (cd_cme cd) c) < 64"
    by (auto simp: conflict_ok_def)
  with assms(1) that show ?thesis
    by (auto simp: ConflictData_checkObj_def conflict_ok_def Let_def)
qed

section \<open>The scores\<close>

definition miss_sum :: "u32 list \<Rightarrow> nat" where
  "miss_sum ms = (\<Sum>m\<leftarrow>ms. unat m)"

lemma miss_sum_update: "k < length ms \<Longrightarrow> miss_sum (ms[k := x]) + unat (ms ! k) = miss_sum ms + unat x"
  by (induction ms arbitrary: k) (auto simp: miss_sum_def nth_Cons split: nat.splits)

lemma miss_sum_nth: "k < length ms \<Longrightarrow> unat (ms ! k) \<le> miss_sum ms"
  using miss_sum_update [of k ms 0] by simp

lemma addMiss_miss_sum:
  assumes "conflict_ok cd" and "miss_sum (cd_missesPerSet cd) = unat (cd_totalMisses cd)"
    and "unat (cd_totalMisses cd) + 1 < 2 ^ 32"
  shows "miss_sum (cd_missesPerSet (snd (ConflictData_addMiss addr c m cd)))
    = unat (cd_totalMisses (snd (ConflictData_addMiss addr c m cd)))"
    and "unat (cd_totalMisses (snd (ConflictData_addMiss addr c m cd))) = unat (cd_totalMisses cd) + 1"
proof -
  let ?s = "unat (cache_set addr)"
  obtain m' cd' where r: "ConflictData_addMiss addr c m cd = (m', cd')" by fastforce
  note a = addMiss_spec(4,5) [OF assms(1) r]
  have s: "?s < length (cd_missesPerSet cd)" using assms(1) unat_cache_set by (simp add: conflict_ok_def)
  have t: "unat (cd_totalMisses cd + 1) = unat (cd_totalMisses cd) + 1"
    using assms(3) by (simp add: unat_add_bound)
  have "unat (cd_missesPerSet cd ! ?s + 1) = unat (cd_missesPerSet cd ! ?s) + 1"
    using miss_sum_nth [OF s] assms(2,3) by (simp add: unat_add_bound)
  with miss_sum_update [OF s, of "cd_missesPerSet cd ! ?s + 1"] assms(2) a t r
  show "miss_sum (cd_missesPerSet (snd (ConflictData_addMiss addr c m cd)))
      = unat (cd_totalMisses (snd (ConflictData_addMiss addr c m cd)))"
    and "unat (cd_totalMisses (snd (ConflictData_addMiss addr c m cd))) = unat (cd_totalMisses cd) + 1"
    by simp_all
qed

text \<open>
  While the report is made, a set's misses move from the table to the scores: both the number and the
  sum of the scores are bounded by the misses that are no longer in the table.
\<close>

definition scores_ok :: "ConflictData \<Rightarrow> u8 list \<Rightarrow> u32 list \<Rightarrow> bool" where
  "scores_ok cd scores ms \<longleftrightarrow> length ms = 64
    \<and> length scores * unat (cd_totalMisses cd) + 20 * miss_sum ms \<le> 20 * unat (cd_totalMisses cd)
    \<and> unat (cd_totalMisses cd) * (\<Sum>x\<leftarrow>scores. unat x) + 100 * miss_sum ms \<le> 100 * unat (cd_totalMisses cd)"

lemma scores_ok_step:
  assumes sc: "scores_ok cd scores ms" and T: "50 \<le> unat (cd_totalMisses cd)" "100 * unat (cd_totalMisses cd) < 2 ^ 32"
    and s: "s < 64" and big: "cd_totalMisses cd \<le> ms ! s * 20"
  shows "length scores < 20" and "scores_ok cd (scores @ [ucast (ms ! s * 100 div cd_totalMisses cd)]) (ms[s := 0])"
proof -
  let ?T = "unat (cd_totalMisses cd)" and ?m = "unat (ms ! s)"
  have len: "length ms = 64" using sc by (simp add: scores_ok_def)
  have upd: "miss_sum (ms[s := 0]) + ?m = miss_sum ms" using miss_sum_update [of s ms 0] s len by simp
  have le: "?m \<le> ?T" using miss_sum_nth [of s ms] sc s len by (auto simp: scores_ok_def)
  have m20: "unat (ms ! s * 20) = ?m * 20" and m100: "unat (ms ! s * 100) = ?m * 100"
    using le T(2) by (simp_all add: unat_word_ariths)
  have big': "?T \<le> ?m * 20" using big m20 by (simp add: word_le_nat_alt)
  have "(length scores + 1) * ?T + 20 * miss_sum (ms[s := 0]) \<le> length scores * ?T + 20 * miss_sum ms"
    using upd big' by (simp add: algebra_simps)
  then have cnt: "(length scores + 1) * ?T + 20 * miss_sum (ms[s := 0]) \<le> 20 * ?T"
    using sc by (simp add: scores_ok_def)
  then have "(length scores + 1) * ?T \<le> 20 * ?T" by linarith
  then show "length scores < 20" using T(1) by (simp only: mult_le_cancel2) simp
  have pc: "unat (ms ! s * 100 div cd_totalMisses cd) = ?m * 100 div ?T" by (simp add: unat_div_distrib m100)
  have "?m * 100 div ?T \<le> ?T * 100 div ?T" using le by (intro div_le_mono) simp
  then have "?m * 100 div ?T \<le> 100" using T(1) by simp
  then have sc8: "unat (ucast (ms ! s * 100 div cd_totalMisses cd) :: u8) = ?m * 100 div ?T"
    by (simp add: unsigned_ucast_eq pc take_bit_nat_eq_self)
  have part: "?T * (?m * 100 div ?T) \<le> ?m * 100" by simp
  have "?T * ((\<Sum>x\<leftarrow>scores. unat x) + ?m * 100 div ?T) + 100 * miss_sum (ms[s := 0]) \<le> 100 * ?T"
    using sc upd part unfolding scores_ok_def distrib_left by linarith
  with cnt len show "scores_ok cd (scores @ [ucast (ms ! s * 100 div cd_totalMisses cd)]) (ms[s := 0])"
    by (simp add: scores_ok_def sc8)
qed

lemma conflict_loop_ok:
  assumes "conflict_ok cd" and T: "50 \<le> unat (cd_totalMisses cd)" "100 * unat (cd_totalMisses cd) < 2 ^ 32"
  shows "i + n \<le> unat (cd_numOfCme cd) \<Longrightarrow> scores_ok cd scores ms \<Longrightarrow>
    \<exists>scores' out' ms'. conflict_loop m n i (scores, out, cd\<lparr>cd_missesPerSet := ms\<rparr>)
        = Inr (scores', out', cd\<lparr>cd_missesPerSet := ms'\<rparr>) \<and> scores_ok cd scores' ms'"
proof (induction n arbitrary: i scores out ms)
  case (Suc n)
  let ?s = "unat (cd_setOfCme cd ! i)"
  have "cd_cme cd ! i \<noteq> None" and s: "?s < 64"
    using assms(1) Suc.prems(1) by (auto simp: conflict_ok_def)
  then obtain c where c: "cd_cme cd ! i = Some c" by blast
  have "\<exists>scores' out' ms'. conflict_step m i (scores, out, cd\<lparr>cd_missesPerSet := ms\<rparr>)
      = Inr (scores', out', cd\<lparr>cd_missesPerSet := ms'\<rparr>) \<and> scores_ok cd scores' ms'"
    using scores_ok_step [OF Suc.prems(2) T s] Suc.prems(2) c by (auto simp: conflict_step_def Let_def)
  then obtain scores' out' ms' where st: "conflict_step m i (scores, out, cd\<lparr>cd_missesPerSet := ms\<rparr>)
      = Inr (scores', out', cd\<lparr>cd_missesPerSet := ms'\<rparr>)" "scores_ok cd scores' ms'" by blast
  with Suc.IH [of "Suc i" scores' ms' out'] Suc.prems(1) show ?case by simp
qed auto

lemma unat_div_le: "unat (a div b) \<le> unat a"
  for a b :: "'a :: len word"
  by (simp add: unat_div_distrib)

lemma conflict_score_le:
  "k + length xs \<le> 63 \<Longrightarrow> unat acc + (\<Sum>x\<leftarrow>xs. unat x) < 256 \<Longrightarrow>
    \<exists>r. conflict_score xs (2 ^ k) acc = Inr r \<and> unat r \<le> unat acc + (\<Sum>x\<leftarrow>xs. unat x)"
proof (induction xs arbitrary: k acc)
  case (Cons x xs)
  let ?q = "ucast ((ucast x :: u64) div 2 ^ k) :: u8"
  have "unat ((ucast x :: u64) div 2 ^ k) \<le> unat x"
    using unat_div_le [of "ucast x :: u64" "2 ^ k"] unsigned_less [of x, where 'a = nat]
    by (simp add: unsigned_ucast_eq take_bit_nat_eq_self)
  then have q: "unat ?q \<le> unat x"
    using unsigned_less [of x, where 'a = nat] by (simp add: unsigned_ucast_eq take_bit_nat_eq_self)
  have "(2 :: u64) ^ k \<noteq> 0" using Cons.prems(1) by (simp add: word_eq_iff_unsigned)
  moreover have "unat (acc + ?q) = unat acc + unat ?q"
    using q Cons.prems(2) by (intro unat_add_bound) simp
  ultimately show ?case
    using Cons.IH [of "Suc k" "acc + ?q"] Cons.prems q by (auto simp: mult.commute)
qed simp

lemma sum_sort_descending: "(\<Sum>x\<leftarrow>sort_descending xs. unat x) = (\<Sum>x\<leftarrow>xs. unat x)"
proof -
  have "mset (sort_descending xs) = mset xs" by (simp add: sort_descending_def)
  then have "mset (map unat (sort_descending xs)) = mset (map unat xs)" by simp
  then show ?thesis by (metis sum_mset_sum_list)
qed

lemma false_sharing_score_power:
  "k \<le> 8 \<Longrightarrow> false_sharing_score xs (2 ^ k) acc = Inl DivisionByZero \<longleftrightarrow> 8 < length xs + k \<and> xs \<noteq> []"
proof (induction xs arbitrary: k acc)
  case (Cons x xs)
  have z: "(2 :: u8) ^ k = 0" if "k = 8" using that by simp
  have nz: "(2 :: u8) ^ k \<noteq> 0" if "k < 8" using that by (simp add: word_eq_iff_unsigned)
  show ?case
  proof (cases "k = 8")
    case False
    with Cons.prems have "k < 8" by simp
    with nz Cons.IH [of "Suc k" "acc + x div 2 ^ k"] show ?thesis by (cases xs) (auto simp: mult.commute)
  qed (use z in simp)
qed simp

section \<open>Properties\<close>

text \<open>
  The conflict report is in bounds. While the per-set misses add up to the total (and the total times
  100 fits 32 bits), \<open>printOutput\<close> returns: at most 20 scores are written to \<open>scores[20]\<close>, no pointer is
  null and no divisor zero, and the score it prints is at most 100.
\<close>

theorem conflict_report_in_bounds:
  assumes "conflict_ok cd" and "miss_sum (cd_missesPerSet cd) = unat (cd_totalMisses cd)"
    and "100 * unat (cd_totalMisses cd) < 2 ^ 32"
  shows "\<exists>report cd'. ConflictData_printOutput m cd = Inr (report, cd')
    \<and> (report = None \<longleftrightarrow> unat (cd_totalMisses cd) < 50)
    \<and> (\<forall>out score. report = Some (out, score) \<longrightarrow> unat score \<le> 100)"
proof (cases "50 \<le> cd_totalMisses cd")
  case True
  then have T: "50 \<le> unat (cd_totalMisses cd)" by (simp add: word_le_nat_alt)
  have "scores_ok cd [] (cd_missesPerSet cd)" using assms(1,2) by (simp add: scores_ok_def conflict_ok_def)
  then obtain scores out ms where l: "conflict_loop m (unat (cd_numOfCme cd)) 0 ([], [], cd)
      = Inr (scores, out, cd\<lparr>cd_missesPerSet := ms\<rparr>)" and sc: "scores_ok cd scores ms"
    using conflict_loop_ok [OF assms(1) T assms(3), of 0 "unat (cd_numOfCme cd)" "[]" "cd_missesPerSet cd" m "[]"]
    by auto
  have "length scores * unat (cd_totalMisses cd) \<le> 20 * unat (cd_totalMisses cd)"
    using sc unfolding scores_ok_def by linarith
  then have "length scores \<le> 20" using T by simp
  moreover have "unat (cd_totalMisses cd) * (\<Sum>x\<leftarrow>scores. unat x) \<le> unat (cd_totalMisses cd) * 100"
    using sc unfolding scores_ok_def by linarith
  then have "(\<Sum>x\<leftarrow>scores. unat x) \<le> 100" using T by simp
  moreover have "length (sort_descending scores) = length scores" by (simp add: sort_descending_def)
  ultimately obtain r where "conflict_score (sort_descending scores) 1 0 = Inr r" "unat r \<le> 100"
    using conflict_score_le [of 0 "sort_descending scores" 0] by (auto simp: sum_sort_descending intro: le_trans)
  with l T True show ?thesis by (auto simp: ConflictData_printOutput_def)
next
  case False
  then have "unat (cd_totalMisses cd) < 50" by (simp add: word_le_nat_alt)
  with False show ?thesis by (simp add: ConflictData_printOutput_def)
qed

theorem conflict_report_in_bounds_witness:
  "\<exists>report cd'. ConflictData_printOutput (\<lambda>_. 3)
      (ConflictData_zero\<lparr>cd_totalMisses := 60, cd_missesPerSet := 60 # replicate 63 0,
         cd_numOfCme := 1, cd_cme := Some 5 # replicate 127 None\<rparr>) = Inr (report, cd') \<and> report \<noteq> None"
  using conflict_report_in_bounds [of "ConflictData_zero\<lparr>cd_totalMisses := 60, cd_missesPerSet := 60 # replicate 63 0,
         cd_numOfCme := 1, cd_cme := Some 5 # replicate 127 None\<rparr>" "\<lambda>_. 3"]
  by (force simp: conflict_ok_def ConflictData_zero_def miss_sum_def sum_list_replicate config nth_Cons split: nat.splits)

text \<open>
  the false sharing score divides by a \<open>uint8_t\<close> that doubles each round: exactly when there are more than
  eight scores it has become zero, and the report ends in a division by zero.
\<close>

theorem false_sharing_score_crashes_iff:
  "false_sharing_score xs 1 0 = Inl DivisionByZero \<longleftrightarrow> 8 < length xs"
  using false_sharing_score_power [of 0 xs 0] by auto

end
