(* ===== verification/Blocks.thy ===== *)
theory Blocks
  imports Prelude
begin

text \<open>
  Accounting of byte ranges in equal blocks: how many bytes of a range fall into each page or cache
  line, and the loop that \<^verbatim>\<open>shadowmemory.cpp\<close> runs over the blocks of an object (a first partial block,
  whole blocks, a last partial block). The locale states what the per-block updates have to do for the
  loop to keep exact counts; the pages and the cache lines provide it.
\<close>

section \<open>Bytes of a range in a block\<close>

definition overlap :: "nat \<Rightarrow> nat \<Rightarrow> nat \<Rightarrow> nat \<Rightarrow> nat" where
  "overlap B a n q = min (a + n) (q * B + B) - max a (q * B)"

lemma overlap_card: "overlap B a n q = card ({a..<a + n} \<inter> {q * B..<q * B + B})"
proof -
  have "{a..<a + n} \<inter> {q * B..<q * B + B} = {max a (q * B)..<min (a + n) (q * B + B)}" by auto
  then show ?thesis by (simp add: overlap_def)
qed

lemma overlap_le: "overlap B a n q \<le> B"
  by (auto simp: overlap_def)

lemma overlap_0 [simp]: "overlap B a 0 q = 0"
  by (auto simp: overlap_def)

lemma block_cases: "(q :: nat) = i \<or> q < i \<and> q * B + B \<le> i * B \<or> i < q \<and> i * B + B \<le> q * B"
proof (cases q i rule: linorder_cases)
  case less
  then have "Suc q * B \<le> i * B" by (intro mult_le_mono1) simp
  with less show ?thesis by simp
next
  case greater
  then have "Suc i * B \<le> q * B" by (intro mult_le_mono1) simp
  with greater show ?thesis by simp
qed simp

lemma overlap_first:
  assumes "off < B"
  shows "overlap B (i * B + off) n q
    = (if q = i then min (B - off) n else overlap B (Suc i * B) (n - min (B - off) n) q)"
  using block_cases [of q i B] assms by (auto simp: overlap_def)

lemma overlap_full:
  assumes "B \<le> n" and "0 < B"
  shows "overlap B (i * B) n q = (if q = i then B else overlap B (Suc i * B) (n - B) q)"
  using block_cases [of q i B] assms by (auto simp: overlap_def)

lemma overlap_last:
  assumes "n < B"
  shows "overlap B (i * B) n q = (if q = i then n else 0)"
  using block_cases [of q i B] assms by (auto simp: overlap_def)

text \<open>Disjoint ranges share a block without overfilling it.\<close>

definition disjoint_ranges :: "(nat \<times> nat) list \<Rightarrow> bool" where
  "disjoint_ranges L \<longleftrightarrow> sorted_wrt (\<lambda>r r'. {fst r..<fst r + snd r} \<inter> {fst r'..<fst r' + snd r'} = {}) L"

lemma sum_overlap_card:
  "disjoint_ranges L \<Longrightarrow> (\<Sum>r\<leftarrow>L. overlap B (fst r) (snd r) q)
    = card ((\<Union>r \<in> set L. {fst r..<fst r + snd r}) \<inter> {q * B..<q * B + B})"
proof (induction L)
  case (Cons r L)
  let ?blk = "{q * B..<q * B + B}" and ?r = "{fst r..<fst r + snd r}"
  let ?U = "\<Union>r \<in> set L. {fst r..<fst r + snd r}"
  have "?r \<inter> ?U = {}" using Cons.prems by (auto simp: disjoint_ranges_def)
  then have "(?r \<inter> ?blk) \<inter> (?U \<inter> ?blk) = {}" by blast
  moreover have "(\<Union>r \<in> set (r # L). {fst r..<fst r + snd r}) \<inter> ?blk = (?r \<inter> ?blk) \<union> (?U \<inter> ?blk)" by auto
  ultimately have "card ((\<Union>r \<in> set (r # L). {fst r..<fst r + snd r}) \<inter> ?blk)
      = card (?r \<inter> ?blk) + card (?U \<inter> ?blk)"
    by (simp add: card_Un_disjoint)
  with Cons show ?case by (simp add: overlap_card disjoint_ranges_def)
qed simp

lemma sum_overlap_le:
  "disjoint_ranges L \<Longrightarrow> (\<Sum>r\<leftarrow>L. overlap B (fst r) (snd r) q) \<le> B"
  unfolding sum_overlap_card
  by (rule order_trans [OF card_mono [of "{q * B..<q * B + B}"]]) auto

text \<open>The bytes that a list of ranges has in a block, and the pages of an object.\<close>

definition bytes_in :: "nat \<Rightarrow> (nat \<times> nat) list \<Rightarrow> nat \<Rightarrow> nat" where
  "bytes_in B xs q = (\<Sum>x\<leftarrow>xs. overlap B (fst x) (snd x) q)"

definition object_pages :: "nat \<Rightarrow> nat \<Rightarrow> nat set" where
  "object_pages off n = {off div 4096 .. (off + n - 1) div 4096}"

lemma bytes_in_remove1:
  "x \<in> set xs \<Longrightarrow> int (bytes_in B (remove1 x xs) q) = int (bytes_in B xs q) - int (overlap B (fst x) (snd x) q)"
  using sum_list_map_remove1 [of x xs "\<lambda>x. overlap B (fst x) (snd x) q"] by (simp add: bytes_in_def)

lemma disjoint_ranges_remove1: "disjoint_ranges xs \<Longrightarrow> disjoint_ranges (remove1 x xs)"
  unfolding disjoint_ranges_def by (induction xs) (auto dest: in_set_remove1 [THEN iffD1, rotated] notin_set_remove1)

lemma bytes_in_le: "disjoint_ranges xs \<Longrightarrow> bytes_in B xs q \<le> B"
  by (simp add: bytes_in_def sum_overlap_le)

lemma overlap_line_page: "0 < overlap 64 off n q \<Longrightarrow> q div 64 \<in> object_pages off n"
proof -
  assume "0 < overlap 64 off n q"
  then have "off < q * 64 + 64" "q * 64 < off + n" by (auto simp: overlap_def)
  then have "off div 64 \<le> q" "q \<le> (off + n - 1) div 64" by linarith+
  then have "off div 64 div 64 \<le> q div 64" "q div 64 \<le> (off + n - 1) div 64 div 64" by (auto intro: div_le_mono)
  then show ?thesis by (simp add: object_pages_def flip: div_mult2_eq)
qed

lemma overlap_in_page: "0 < overlap 4096 off n q \<Longrightarrow> q \<in> object_pages off n"
proof -
  assume "0 < overlap 4096 off n q"
  then have "off < q * 4096 + 4096" "q * 4096 < off + n" by (auto simp: overlap_def)
  then have "off div 4096 \<le> q" "q \<le> (off + n - 1) div 4096" by linarith+
  then show ?thesis by (simp add: object_pages_def)
qed

lemma page_overlaps: "q \<in> object_pages off n \<Longrightarrow> 0 < n \<Longrightarrow> 0 < overlap 4096 off n q"
proof -
  assume "q \<in> object_pages off n" and n: "0 < n"
  then have "off div 4096 \<le> q" "q \<le> (off + n - 1) div 4096" by (auto simp: object_pages_def)
  with n have "off < q * 4096 + 4096" "q * 4096 < off + n" by linarith+
  with n show ?thesis by (auto simp: overlap_def)
qed

lemma object_pages_finite [simp]: "finite (object_pages off n)"
  by (simp add: object_pages_def)

text \<open>A signed counter that stays within its range does not wrap.\<close>

lemma sint_add_small:
  fixes x :: "'a :: len word"
  assumes "0 \<le> sint x + sg * int b" and "sint x + sg * int b < 2 ^ (LENGTH('a) - 1)" and "sg = 1 \<or> sg = -1"
  shows "sint (if sg = 1 then x + of_nat b else x - of_nat b) = sint x + sg * int b"
proof -
  have y: "(if sg = 1 then x + of_nat b else x - of_nat b) = of_int (sint x + sg * int b)"
    using assms(3) by auto
  have "- (2 ^ (LENGTH('a) - 1)) \<le> sint x + sg * int b"
    using assms(1) by (rule order_trans [rotated]) simp
  then show ?thesis unfolding y sint_sbintrunc' using assms(2) by (rule signed_take_bit_int_eq_self)
qed

section \<open>The loop over the blocks of an object\<close>

function full_blocks :: "nat \<Rightarrow> (nat \<Rightarrow> 's \<Rightarrow> crash + 's) \<Rightarrow> nat \<Rightarrow> nat \<Rightarrow> 's \<Rightarrow> crash + (nat \<times> nat \<times> 's)" where
  "full_blocks B full n i s =
    (if 0 < B \<and> B \<le> n then bindR (full (Suc i) s) (full_blocks B full (n - B) (Suc i)) else Inr (n, i, s))"
  by pat_completeness auto
termination by (relation "measure (\<lambda>(_, _, n, _, _). n)") auto

declare full_blocks.simps [simp del]

definition update_blocks ::
  "nat \<Rightarrow> (nat \<Rightarrow> nat \<Rightarrow> 's \<Rightarrow> crash + 's) \<Rightarrow> (nat \<Rightarrow> 's \<Rightarrow> crash + 's) \<Rightarrow> nat \<Rightarrow> nat \<Rightarrow> nat \<Rightarrow> 's \<Rightarrow> crash + 's" where
  "update_blocks B part full i off n s =
    (let first = min (B - off) n in
     bindR (part i first s) (\<lambda>s.
     bindR (full_blocks B full (n - first) i s) (\<lambda>(rest, i, s).
     if rest > 0 then part (Suc i) rest s else Inr s)))"

locale block_counts =
  fixes B :: nat and sg :: int and view :: "'s \<Rightarrow> nat \<Rightarrow> int"
    and part :: "nat \<Rightarrow> nat \<Rightarrow> 's \<Rightarrow> crash + 's" and full :: "nat \<Rightarrow> 's \<Rightarrow> crash + 's"
    and blk :: "nat \<Rightarrow> bool" and inv :: "'s \<Rightarrow> bool"
  assumes block_size: "0 < B" and sign: "sg = 1 \<or> sg = -1"
    and part_ok: "inv s \<Longrightarrow> blk i \<Longrightarrow> b \<le> B \<Longrightarrow> 0 \<le> view s i \<Longrightarrow> view s i \<le> int B \<Longrightarrow>
      0 \<le> view s i + sg * int b \<Longrightarrow> view s i + sg * int b \<le> int B \<Longrightarrow>
      \<exists>s'. part i b s = Inr s' \<and> inv s' \<and> view s' = (view s)(i := view s i + sg * int b)"
    and full_ok: "inv s \<Longrightarrow> blk i \<Longrightarrow>
      \<exists>s'. full i s = Inr s' \<and> inv s' \<and> view s' = (view s)(i := if sg = 1 then int B else 0)"
begin

abbreviation fits :: "'s \<Rightarrow> (nat \<Rightarrow> nat) \<Rightarrow> bool" where
  "fits s ov \<equiv> \<forall>q. 0 \<le> view s q \<and> view s q \<le> int B \<and> 0 \<le> view s q + sg * int (ov q)
    \<and> view s q + sg * int (ov q) \<le> int B \<and> (0 < ov q \<longrightarrow> blk q)"

abbreviation counted :: "'s \<Rightarrow> (nat \<Rightarrow> nat) \<Rightarrow> nat \<Rightarrow> int" where
  "counted s ov \<equiv> (\<lambda>q. view s q + sg * int (ov q))"

lemma rest_exact:
  "inv s \<Longrightarrow> fits s (overlap B (Suc i * B) n) \<Longrightarrow>
    \<exists>s'. bindR (full_blocks B full n i s) (\<lambda>(rest, i, s). if rest > 0 then part (Suc i) rest s else Inr s) = Inr s'
      \<and> inv s' \<and> view s' = counted s (overlap B (Suc i * B) n)"
proof (induction n arbitrary: i s rule: less_induct)
  case (less n)
  show ?case
  proof (cases "B \<le> n")
    case True
    note ov = overlap_full [OF True block_size, of "Suc i"]
    have i: "blk (Suc i)" "view s (Suc i) + sg * int B \<le> int B" "0 \<le> view s (Suc i) + sg * int B"
        "0 \<le> view s (Suc i)" "view s (Suc i) \<le> int B"
      using spec [OF less.prems(2), of "Suc i"] block_size unfolding ov by auto
    obtain s1 where s1: "full (Suc i) s = Inr s1" "inv s1"
        "view s1 = (view s)(Suc i := if sg = 1 then int B else 0)"
      using full_ok [OF less.prems(1) i(1)] by blast
    have new: "view s1 = (view s)(Suc i := view s (Suc i) + sg * int B)"
      using s1(3) i sign by auto
    have zero: "overlap B (Suc (Suc i) * B) (n - B) (Suc i) = 0"
      by (auto simp: overlap_def)
    have "fits s1 (overlap B (Suc (Suc i) * B) (n - B))"
    proof (intro allI)
      fix q show "0 \<le> view s1 q \<and> view s1 q \<le> int B \<and> 0 \<le> view s1 q + sg * int (overlap B (Suc (Suc i) * B) (n - B) q)
        \<and> view s1 q + sg * int (overlap B (Suc (Suc i) * B) (n - B) q) \<le> int B
        \<and> (0 < overlap B (Suc (Suc i) * B) (n - B) q \<longrightarrow> blk q)"
        using spec [OF less.prems(2), of q] zero i unfolding ov new by (cases "q = Suc i") auto
    qed
    with less.IH [of "n - B" s1 "Suc i"] s1(2) True block_size
    obtain s2 where s2: "bindR (full_blocks B full (n - B) (Suc i) s1)
          (\<lambda>(rest, i, s). if rest > 0 then part (Suc i) rest s else Inr s) = Inr s2"
        "inv s2" "view s2 = counted s1 (overlap B (Suc (Suc i) * B) (n - B))"
      by auto
    have "view s2 = counted s (overlap B (Suc i * B) n)"
      unfolding s2(3) new by (rule ext) (use zero ov in auto)
    with s1 s2 True block_size show ?thesis by (subst full_blocks.simps) simp
  next
    case False
    note ov = overlap_last [of n B "Suc i"]
    have i: "0 < n \<Longrightarrow> blk (Suc i)" "0 \<le> view s (Suc i)" "view s (Suc i) \<le> int B"
        "0 \<le> view s (Suc i) + sg * int n" "view s (Suc i) + sg * int n \<le> int B"
      using spec [OF less.prems(2), of "Suc i"] ov False by auto
    have "\<exists>s'. (if n > 0 then part (Suc i) n s else Inr s) = Inr s' \<and> inv s'
        \<and> view s' = counted s (overlap B (Suc i * B) n)"
    proof (cases "n = 0")
      case False
      with part_ok [OF less.prems(1) i(1) _ i(2-5)] \<open>\<not> B \<le> n\<close> ov show ?thesis by (auto simp: fun_eq_iff)
    qed (use less.prems in auto)
    with False show ?thesis by (subst full_blocks.simps) simp
  qed
qed

lemma update_blocks_exact:
  assumes "inv s" and "off < B" and "0 < n" and "fits s (overlap B (i * B + off) n)"
  shows "\<exists>s'. update_blocks B part full i off n s = Inr s' \<and> inv s'
    \<and> view s' = counted s (overlap B (i * B + off) n)"
proof -
  let ?f = "min (B - off) n"
  note ov = overlap_first [OF assms(2), of i n]
  have i: "blk i" "0 \<le> view s i" "view s i \<le> int B" "0 \<le> view s i + sg * int ?f" "view s i + sg * int ?f \<le> int B"
    using spec [OF assms(4), of i] assms(2,3) unfolding ov by auto
  obtain s1 where s1: "part i ?f s = Inr s1" "inv s1" "view s1 = (view s)(i := view s i + sg * int ?f)"
    using part_ok [OF assms(1) i(1) min.coboundedI1 i(2-5)] by auto
  have zero: "overlap B (Suc i * B) (n - ?f) i = 0" by (auto simp: overlap_def)
  have "fits s1 (overlap B (Suc i * B) (n - ?f))"
  proof (intro allI)
    fix q show "0 \<le> view s1 q \<and> view s1 q \<le> int B \<and> 0 \<le> view s1 q + sg * int (overlap B (Suc i * B) (n - ?f) q)
      \<and> view s1 q + sg * int (overlap B (Suc i * B) (n - ?f) q) \<le> int B
      \<and> (0 < overlap B (Suc i * B) (n - ?f) q \<longrightarrow> blk q)"
      using spec [OF assms(4), of q] zero i unfolding ov s1(3) by (cases "q = i") auto
  qed
  from rest_exact [OF s1(2) this] obtain s2 where s2:
    "bindR (full_blocks B full (n - ?f) i s1) (\<lambda>(rest, i, s). if rest > 0 then part (Suc i) rest s else Inr s) = Inr s2"
    "inv s2" "view s2 = counted s1 (overlap B (Suc i * B) (n - ?f))" by blast
  have "view s2 = counted s (overlap B (i * B + off) n)"
    unfolding s2(3) s1(3) by (rule ext) (use zero ov in auto)
  with s1 s2 show ?thesis by (simp add: update_blocks_def)
qed

end

end
