(* ===== verification/ShadowMemory.thy ===== *)
theory ShadowMemory
  imports ConflictData Blocks ObjTable
begin

text \<open>
  \<^verbatim>\<open>shadowmemory.hh\<close> and \<^verbatim>\<open>shadowmemory.cpp\<close>: the bytes in use of every page and of every cache line,
  kept in a map of page entries per address range and one map of cache line entries that page entries
  point into. A \<open>PageMapEntry\<close> pointer is its range and its index there, a \<open>CacheMapEntry\<close> pointer
  the index in the cache map. An access outside a mapping is \<open>OutOfBounds\<close>.
\<close>

section \<open>State\<close>

text \<open>The counters are signed: \<open>num_used_bytes\<close> is read with \<open>sint\<close>.\<close>

record CacheMapEntry =
  cme_misses :: u8
  cme_num_used_bytes :: u8

record PageMapEntry =
  pme_num_used_bytes :: u16
  pme_cache_map_entry :: "nat option"

record ShadowMemory =
  sm_isInitialized :: bool
  sm_page_map :: "nat \<Rightarrow> nat \<Rightarrow> PageMapEntry"
  sm_cache_mapped :: bool
  sm_cache_map :: "nat \<Rightarrow> CacheMapEntry"
  sm_cache_map_bump_ptr :: nat
  sm_conflictData :: ConflictData
  sm_numOfCoherencyCaches :: u8
  sm_coherencyCaches :: "CoherencyData list"

definition NUM_ADDRESS_RANGE :: nat where [config]: "NUM_ADDRESS_RANGE = 8"
definition MAX_PAGE_MAP_ENTRIES :: nat where [config]: "MAX_PAGE_MAP_ENTRIES = 8589934592"
definition MAX_CACHE_MAP_ENTRIES :: nat where [config]: "MAX_CACHE_MAP_ENTRIES = 34359738368"

definition addressRanges :: "u64 list" where
  "addressRanges = [0x80000000000, 0x10000000000, 0xa0000000000, 0x120000000000, 0x140000000000,
    0x560000000000, 0x7f0000000000, 0x550000000000]"

text \<open>
  The results of the nine \<open>mmap\<close> calls are arguments. A page map that cannot be mapped aborts; for the
  cache map the code only prints an error and goes on.
\<close>

definition ShadowMemory_initialize ::
  "(nat \<Rightarrow> bool) \<Rightarrow> bool \<Rightarrow> ShadowMemory \<Rightarrow> crash + (bool \<times> ShadowMemory)" where
  "ShadowMemory_initialize page_mmap_ok cache_mmap_ok s =
    (if sm_isInitialized s then Inr (False, s)
     else if \<not> (\<forall>i \<in> set [0..<NUM_ADDRESS_RANGE]. page_mmap_ok i) then Inl (Aborted ''mmap of global page map failed'')
     else Inr (True, s\<lparr>sm_page_map := \<lambda>_ _. \<lparr>pme_num_used_bytes = 0, pme_cache_map_entry = None\<rparr>,
                       sm_cache_mapped := cache_mmap_ok,
                       sm_cache_map := \<lambda>_. \<lparr>cme_misses = 0, cme_num_used_bytes = 0\<rparr>,
                       sm_cache_map_bump_ptr := 0,
                       sm_isInitialized := True\<rparr>))"

section \<open>Page and cache line entries\<close>

definition update_page :: "nat \<Rightarrow> nat \<Rightarrow> (PageMapEntry \<Rightarrow> PageMapEntry) \<Rightarrow> ShadowMemory \<Rightarrow> crash + ShadowMemory" where
  "update_page r i f s =
    (if sm_isInitialized s \<and> r < NUM_ADDRESS_RANGE \<and> i < MAX_PAGE_MAP_ENTRIES
     then Inr (s\<lparr>sm_page_map := (sm_page_map s)(r := (sm_page_map s r)(i := f (sm_page_map s r i)))\<rparr>)
     else Inl OutOfBounds)"

definition update_cme :: "nat \<Rightarrow> (CacheMapEntry \<Rightarrow> CacheMapEntry) \<Rightarrow> ShadowMemory \<Rightarrow> crash + ShadowMemory" where
  "update_cme c f s =
    (if sm_cache_mapped s \<and> c < MAX_CACHE_MAP_ENTRIES
     then Inr (s\<lparr>sm_cache_map := (sm_cache_map s)(c := f (sm_cache_map s c))\<rparr>)
     else Inl OutOfBounds)"

definition PageMapEntry_addUsedBytes :: "nat \<Rightarrow> PageMapEntry \<Rightarrow> PageMapEntry" where
  "PageMapEntry_addUsedBytes num_bytes e = e\<lparr>pme_num_used_bytes := pme_num_used_bytes e + of_nat num_bytes\<rparr>"

definition PageMapEntry_subUsedBytes :: "nat \<Rightarrow> PageMapEntry \<Rightarrow> PageMapEntry" where
  "PageMapEntry_subUsedBytes num_bytes e = e\<lparr>pme_num_used_bytes := pme_num_used_bytes e - of_nat num_bytes\<rparr>"

definition PageMapEntry_setEmpty :: "PageMapEntry \<Rightarrow> PageMapEntry" where
  "PageMapEntry_setEmpty e = e\<lparr>pme_num_used_bytes := 0\<rparr>"

definition PageMapEntry_setFull :: "PageMapEntry \<Rightarrow> PageMapEntry" where
  "PageMapEntry_setFull e = e\<lparr>pme_num_used_bytes := of_nat PAGESIZE\<rparr>"

definition PageMapEntry_getUsedBytes :: "PageMapEntry \<Rightarrow> int" where
  "PageMapEntry_getUsedBytes e =
    (if sint (pme_num_used_bytes e) > int PAGESIZE then int PAGESIZE
     else if sint (pme_num_used_bytes e) < 0 then 0 else sint (pme_num_used_bytes e))"

definition CacheMapEntry_addUsedBytes :: "nat \<Rightarrow> CacheMapEntry \<Rightarrow> CacheMapEntry" where
  "CacheMapEntry_addUsedBytes num_bytes e = e\<lparr>cme_num_used_bytes := cme_num_used_bytes e + of_nat num_bytes\<rparr>"

definition CacheMapEntry_subUsedBytes :: "nat \<Rightarrow> CacheMapEntry \<Rightarrow> CacheMapEntry" where
  "CacheMapEntry_subUsedBytes num_bytes e = e\<lparr>cme_num_used_bytes := cme_num_used_bytes e - of_nat num_bytes\<rparr>"

definition CacheMapEntry_setFull :: "CacheMapEntry \<Rightarrow> CacheMapEntry" where
  "CacheMapEntry_setFull e = e\<lparr>cme_num_used_bytes := of_nat CACHELINE_SIZE\<rparr>"

definition CacheMapEntry_setEmpty :: "CacheMapEntry \<Rightarrow> CacheMapEntry" where
  "CacheMapEntry_setEmpty e = e\<lparr>cme_num_used_bytes := 0\<rparr>"

definition CacheMapEntry_getUsedBytes :: "CacheMapEntry \<Rightarrow> int" where
  "CacheMapEntry_getUsedBytes e =
    (if sint (cme_num_used_bytes e) > int CACHELINE_SIZE then int CACHELINE_SIZE
     else if sint (cme_num_used_bytes e) < 0 then 0 else sint (cme_num_used_bytes e))"

text \<open>
  \<open>getPageIndex\<close>: the first range whose start is not above the address and whose map has the page.
  The test allows the index one past the last entry. Range 8 stands for none; the index then is the
  one computed last.
\<close>

fun getPageIndex_loop :: "u64 \<Rightarrow> nat \<Rightarrow> u64 list \<Rightarrow> u64 \<Rightarrow> nat \<times> u64" where
  "getPageIndex_loop addr i [] index = (i, index)"
| "getPageIndex_loop addr i (r # rs) index =
    (if addr \<ge> r
     then (let index = drop_bit 12 (addr - r) in
           if unat index \<le> MAX_PAGE_MAP_ENTRIES then (i, index) else getPageIndex_loop addr (Suc i) rs index)
     else getPageIndex_loop addr (Suc i) rs index)"

definition getPageIndex :: "u64 \<Rightarrow> u64 \<Rightarrow> nat \<times> u64" where
  "getPageIndex uninitialised addr = getPageIndex_loop addr 0 addressRanges uninitialised"

definition doCacheMapBumpPointer :: "ShadowMemory \<Rightarrow> crash + (nat \<times> ShadowMemory)" where
  "doCacheMapBumpPointer s =
    (let cur = sm_cache_map_bump_ptr s; new = cur + NUM_CACHELINES_PER_PAGE in
     if new \<ge> MAX_CACHE_MAP_ENTRIES then Inl (Aborted ''cache map out of memory'')
     else Inr (cur, s\<lparr>sm_cache_map_bump_ptr := new\<rparr>))"

text \<open>\<open>getCacheMapEntry(true)\<close>; the double check under the lock has one outcome without other threads.\<close>

definition getCacheMapEntry :: "nat \<Rightarrow> nat \<Rightarrow> ShadowMemory \<Rightarrow> crash + (nat \<times> ShadowMemory)" where
  "getCacheMapEntry r i s =
    (if sm_isInitialized s \<and> r < NUM_ADDRESS_RANGE \<and> i < MAX_PAGE_MAP_ENTRIES
     then (case pme_cache_map_entry (sm_page_map s r i) of
             Some c \<Rightarrow> Inr (c, s)
           | None \<Rightarrow> bindR (doCacheMapBumpPointer s) (\<lambda>(c, s).
               bindR (update_page r i (\<lambda>e. e\<lparr>pme_cache_map_entry := Some c\<rparr>) s) (\<lambda>s. Inr (c, s))))
     else Inl OutOfBounds)"

section \<open>Objects\<close>

definition mallocUpdatePages :: "u64 \<Rightarrow> nat \<Rightarrow> nat \<Rightarrow> nat \<Rightarrow> ShadowMemory \<Rightarrow> crash + ShadowMemory" where
  "mallocUpdatePages uintaddr r page_index sz =
    update_blocks PAGESIZE (\<lambda>i n. update_page r i (PageMapEntry_addUsedBytes n))
      (\<lambda>i. update_page r i PageMapEntry_setFull) page_index (unat (uintaddr AND 0xfff)) sz"

definition freeUpdatePages :: "u64 \<Rightarrow> nat \<Rightarrow> nat \<Rightarrow> nat \<Rightarrow> ShadowMemory \<Rightarrow> crash + ShadowMemory" where
  "freeUpdatePages uintaddr r page_index sz =
    update_blocks PAGESIZE (\<lambda>i n. update_page r i (PageMapEntry_subUsedBytes n))
      (\<lambda>i. update_page r i PageMapEntry_setEmpty) page_index (unat (uintaddr AND 0xfff)) sz"

text \<open>
  The walk over the cache lines of an object: \<open>next_line\<close> steps \<open>current\<close>, or goes to the lines of the
  next page when the page's 64 lines are done. The position is (targetPage, cache\_index, current).
\<close>

type_synonym line_pos = "nat \<times> nat \<times> nat"

definition next_line :: "nat \<Rightarrow> line_pos \<Rightarrow> ShadowMemory \<Rightarrow> crash + (line_pos \<times> ShadowMemory)" where
  "next_line r = (\<lambda>(targetPage, cache_index, current) s.
    if cache_index = NUM_CACHELINES_PER_PAGE
    then bindR (getCacheMapEntry r (Suc targetPage) s) (\<lambda>(c, s). Inr ((Suc targetPage, 0, c), s))
    else Inr ((targetPage, cache_index, Suc current), s))"

function line_loop ::
  "nat \<Rightarrow> (nat \<Rightarrow> ShadowMemory \<Rightarrow> crash + ShadowMemory) \<Rightarrow> nat \<Rightarrow> line_pos \<Rightarrow> ShadowMemory
    \<Rightarrow> crash + (nat \<times> line_pos \<times> ShadowMemory)" where
  "line_loop r full size_remain pos s =
    (if size_remain \<ge> CACHELINE_SIZE
     then bindR (next_line r pos s) (\<lambda>((targetPage, cache_index, current), s).
       bindR (full current s)
         (line_loop r full (size_remain - CACHELINE_SIZE) (targetPage, Suc cache_index, current)))
     else Inr (size_remain, pos, s))"
  by pat_completeness auto
termination by (relation "measure (\<lambda>(_, _, n, _, _). n)") (auto simp: CACHELINE_SIZE_def)

declare line_loop.simps [simp del]

definition update_lines ::
  "(nat \<Rightarrow> nat \<Rightarrow> ShadowMemory \<Rightarrow> crash + ShadowMemory) \<Rightarrow> (nat \<Rightarrow> ShadowMemory \<Rightarrow> crash + ShadowMemory)
    \<Rightarrow> nat \<Rightarrow> nat \<Rightarrow> nat \<Rightarrow> nat \<Rightarrow> nat \<Rightarrow> ShadowMemory \<Rightarrow> crash + ShadowMemory" where
  "update_lines part full r page_index cache_index firstCacheLineOffset sz s =
    bindR (getCacheMapEntry r page_index s) (\<lambda>(c, s).
    (let current = c + cache_index; first = min (CACHELINE_SIZE - firstCacheLineOffset) sz in
     bindR (part first current s) (\<lambda>s.
     bindR (line_loop r full (sz - first) (page_index, Suc cache_index, current) s) (\<lambda>(size_remain, pos, s).
     if size_remain > 0
     then bindR (next_line r pos s) (\<lambda>((_, _, current), s). part size_remain current s)
     else Inr s))))"

definition mallocUpdateCacheLines :: "nat \<Rightarrow> nat \<Rightarrow> nat \<Rightarrow> nat \<Rightarrow> nat \<Rightarrow> ShadowMemory \<Rightarrow> crash + ShadowMemory" where
  "mallocUpdateCacheLines =
    update_lines (\<lambda>n c. update_cme c (CacheMapEntry_addUsedBytes n)) (\<lambda>c. update_cme c CacheMapEntry_setFull)"

text \<open>The owner checks of a freed line.\<close>

definition coherency_index :: "ShadowMemory \<Rightarrow> nat \<Rightarrow> nat" where
  "coherency_index s c = find_index (unat (sm_numOfCoherencyCaches s)) (map co_cme (sm_coherencyCaches s)) c"

definition check_conflict :: "ObjStat \<Rightarrow> nat \<Rightarrow> ShadowMemory \<Rightarrow> crash + ShadowMemory" where
  "check_conflict objStat c s =
    (if has_bit (cme_misses (sm_cache_map s c)) CONFLICT_BIT
     then bindR (ConflictData_checkObj c (os_callKey objStat) (sm_conflictData s))
            (\<lambda>cd. Inr (s\<lparr>sm_conflictData := cd\<rparr>))
     else Inr s)"

definition check_coherency :: "ObjStat \<Rightarrow> nat \<Rightarrow> ShadowMemory \<Rightarrow> crash + ShadowMemory" where
  "check_coherency objStat c s =
    (if has_bit (cme_misses (sm_cache_map s c)) COHERENCY_BIT
     then (let i = coherency_index s c in
           if i < length (sm_coherencyCaches s)
           then Inr (s\<lparr>sm_coherencyCaches := (sm_coherencyCaches s)[i :=
                  CoherencyData_noteFree (os_tid objStat) (os_callKey objStat) (sm_coherencyCaches s ! i)]\<rparr>)
           else Inl OutOfBounds)
     else Inr s)"

text \<open>A partly freed line, and a wholly freed one (whose conflict flag is dropped).\<close>

definition free_line_part :: "ObjStat \<Rightarrow> nat \<Rightarrow> nat \<Rightarrow> ShadowMemory \<Rightarrow> crash + ShadowMemory" where
  "free_line_part objStat n c s =
    bindR (update_cme c (CacheMapEntry_subUsedBytes n) s) (\<lambda>s.
    bindR (check_conflict objStat c s) (check_coherency objStat c))"

definition free_line_full :: "ObjStat \<Rightarrow> nat \<Rightarrow> ShadowMemory \<Rightarrow> crash + ShadowMemory" where
  "free_line_full objStat c s =
    (if has_bit (cme_misses (sm_cache_map s c)) CONFLICT_BIT
     then bindR (check_conflict objStat c s) (\<lambda>s.
       bindR (update_cme c (\<lambda>e. e\<lparr>cme_misses := cme_misses e AND 0x7f\<rparr>) s) (update_cme c CacheMapEntry_setEmpty))
     else update_cme c CacheMapEntry_setEmpty s)"

definition freeUpdateCacheLines :: "ObjStat \<Rightarrow> nat \<Rightarrow> nat \<Rightarrow> nat \<Rightarrow> nat \<Rightarrow> ShadowMemory \<Rightarrow> crash + ShadowMemory" where
  "freeUpdateCacheLines objStat r page_index cache_index firstCacheLineOffset =
    update_lines (free_line_part objStat) (free_line_full objStat) r page_index cache_index firstCacheLineOffset
      (unat (os_size objStat))"

definition mallocUpdateObject :: "u64 \<Rightarrow> u64 \<Rightarrow> u32 \<Rightarrow> ShadowMemory \<Rightarrow> crash + ShadowMemory" where
  "mallocUpdateObject junk address sz s =
    (if sz = 0 then Inr s
     else (let (r, page_index) = getPageIndex junk address in
       if r = NUM_ADDRESS_RANGE then Inr s
       else bindR (mallocUpdatePages address r (unat page_index) (unat sz) s)
         (mallocUpdateCacheLines r (unat page_index) (unat (drop_bit 6 (address AND 0xfff)))
            (unat (address AND 63)) (unat sz))))"

definition freeUpdateObject :: "u64 \<Rightarrow> u64 \<Rightarrow> ObjStat \<Rightarrow> ShadowMemory \<Rightarrow> crash + ShadowMemory" where
  "freeUpdateObject junk address objStat s =
    (if os_size objStat = 0 then Inr s
     else (let (r, page_index) = getPageIndex junk address in
       if r = NUM_ADDRESS_RANGE then Inr s
       else bindR (freeUpdatePages address r (unat page_index) (unat (os_size objStat)) s)
         (freeUpdateCacheLines objStat r (unat page_index) (unat (drop_bit 6 (address AND 0xfff)))
            (unat (address AND 63)))))"

section \<open>Pages given back\<close>

text \<open>\<open>clear\<close> zeroes the page's counter and, if it has any, its 64 cache line entries.\<close>

definition PageMapEntry_clear :: "nat \<Rightarrow> nat \<Rightarrow> ShadowMemory \<Rightarrow> crash + ShadowMemory" where
  "PageMapEntry_clear r i s =
    (if sm_isInitialized s \<and> r < NUM_ADDRESS_RANGE \<and> i < MAX_PAGE_MAP_ENTRIES
     then bindR (case pme_cache_map_entry (sm_page_map s r i) of
             None \<Rightarrow> Inr s
           | Some c \<Rightarrow>
               if sm_cache_mapped s \<and> c + NUM_CACHELINES_PER_PAGE \<le> MAX_CACHE_MAP_ENTRIES
               then Inr (s\<lparr>sm_cache_map := \<lambda>d. if c \<le> d \<and> d < c + NUM_CACHELINES_PER_PAGE
                      then \<lparr>cme_misses = 0, cme_num_used_bytes = 0\<rparr> else sm_cache_map s d\<rparr>)
               else Inl OutOfBounds)
          (update_page r i PageMapEntry_setEmpty)
     else Inl OutOfBounds)"

fun clear_pages :: "nat \<Rightarrow> nat \<Rightarrow> nat \<Rightarrow> ShadowMemory \<Rightarrow> crash + ShadowMemory" where
  "clear_pages 0 r i s = Inr s"
| "clear_pages (Suc n) r i s = bindR (PageMapEntry_clear r i s) (clear_pages n r (Suc i))"

definition cleanupPages :: "u64 \<Rightarrow> u64 \<Rightarrow> u64 \<Rightarrow> ShadowMemory \<Rightarrow> crash + ShadowMemory" where
  "cleanupPages junk uintaddr len s =
    (let (r, page_index) = getPageIndex junk uintaddr in
     clear_pages (unat (alignup len (of_nat PAGESIZE)) div PAGESIZE) r (unat page_index) s)"

section \<open>Samples\<close>

text \<open>
  \<open>doMemoryAccess\<close> adds one sample to the running thread's \<open>FriendlinessStatus\<close> and, on a miss, to
  the conflict and coherency data.
\<close>

definition note_coherency_miss :: "u64 \<Rightarrow> u16 \<Rightarrow> nat \<Rightarrow> ShadowMemory \<Rightarrow> crash + ShadowMemory" where
  "note_coherency_miss addr tid c s =
    (let touch = (\<lambda>i s. s\<lparr>sm_coherencyCaches := (sm_coherencyCaches s)[i :=
           CoherencyData_touch addr tid (sm_coherencyCaches s ! i)]\<rparr>) in
     if has_bit (cme_misses (sm_cache_map s c)) COHERENCY_BIT
     then (let i = coherency_index s c in
           if i < length (sm_coherencyCaches s)
           then Inr (touch i (s\<lparr>sm_coherencyCaches := (sm_coherencyCaches s)[i :=
                  (sm_coherencyCaches s ! i)\<lparr>co_misses := co_misses (sm_coherencyCaches s ! i) + 1\<rparr>]\<rparr>))
           else Inl OutOfBounds)
     else if sm_numOfCoherencyCaches s < 32
     then (let i = unat (sm_numOfCoherencyCaches s) in
           bindR (update_cme c (\<lambda>e. e\<lparr>cme_misses := cme_misses e OR COHERENCY_BIT\<rparr>) s) (\<lambda>s.
           Inr (touch i (s\<lparr>sm_numOfCoherencyCaches := sm_numOfCoherencyCaches s + 1,
                  sm_coherencyCaches := (sm_coherencyCaches s)[i :=
                    (sm_coherencyCaches s ! i)\<lparr>co_cme := Some c, co_misses := 5\<rparr>]\<rparr>))))
     else Inr s)"

definition note_miss :: "u64 \<Rightarrow> u16 \<Rightarrow> nat \<Rightarrow> ShadowMemory \<Rightarrow> crash + ShadowMemory" where
  "note_miss addr tid c s =
    (let (m, cd) = ConflictData_addMiss addr c (cme_misses (sm_cache_map s c)) (sm_conflictData s) in
     bindR (update_cme c (\<lambda>e. e\<lparr>cme_misses := m\<rparr>) (s\<lparr>sm_conflictData := cd\<rparr>)) (\<lambda>s.
     if m AND MISS_MASK \<ge> 5 then note_coherency_miss addr tid c s
     else update_cme c (\<lambda>e. e\<lparr>cme_misses := cme_misses e + 1\<rparr>) s))"

definition doMemoryAccess ::
  "u64 \<Rightarrow> u64 \<Rightarrow> u16 \<Rightarrow> bool \<Rightarrow> FriendlinessStatus \<times> ShadowMemory \<Rightarrow> crash + (FriendlinessStatus \<times> ShadowMemory)" where
  "doMemoryAccess junk addr tid miss = (\<lambda>(fs, s).
    (let (r, page_index) = getPageIndex junk addr; i = unat page_index in
     if r = NUM_ADDRESS_RANGE then Inr (fs, s)
     else if \<not> (sm_isInitialized s \<and> i < MAX_PAGE_MAP_ENTRIES) then Inl OutOfBounds
     else (let pme = sm_page_map s r i in
       if PageMapEntry_getUsedBytes pme = 0 then Inr (fs, s)
       else (case pme_cache_map_entry pme of
           None \<Rightarrow> Inr (fs, s)
         | Some base \<Rightarrow>
             (let c = base + unat (drop_bit 6 (addr AND 0xfff)) in
              if \<not> (sm_cache_mapped s \<and> c < MAX_CACHE_MAP_ENTRIES) then Inl OutOfBounds
              else if CacheMapEntry_getUsedBytes (sm_cache_map s c) = 0 then Inr (fs, s)
              else (let fs = FriendlinessStatus_recordANewSampling fs
                        (of_int (CacheMapEntry_getUsedBytes (sm_cache_map s c)))
                        (of_int (PageMapEntry_getUsedBytes pme)) in
                if miss then bindR (note_miss addr tid c s) (\<lambda>s. Inr (fs, s))
                else Inr (fs, s)))))))"

section \<open>The report\<close>

datatype CoherencyReport =
  CoherencyReport bool u8 "u16 \<times> u16" "u8 list" bool bool

text \<open>
  One round of \<open>printOutput\<close>: the line's percentage, whether two threads allocated on it, the call sites,
  and the kind of sharing. A line with sharing is removed from the conflict report by resetting its misses.
\<close>

definition report_coherency ::
  "nat \<Rightarrow> u8 list \<times> CoherencyReport list \<times> ShadowMemory \<Rightarrow> crash + (u8 list \<times> CoherencyReport list \<times> ShadowMemory)" where
  "report_coherency i = (\<lambda>(fScores, out, s).
    (let d = sm_coherencyCaches s ! i; T = cd_totalMisses (sm_conflictData s) in
     if T = 0 then Inl DivisionByZero
     else (let score = ucast (ucast (co_misses d) * 100 div T) :: u8 in
       if score = 0 then Inr (fScores, out, s)
       else (let (tru, fals) = sharing (co_tidsPerWord d) 0 (False, False); two = snd (co_allocateTid d) \<noteq> 0;
                 out = out @ [CoherencyReport two score (co_allocateTid d) (reported_keys (co_callKey d)) tru fals];
                 fScores = (if fals \<and> two then fScores @ [score] else fScores) in
             if tru \<or> fals
             then (case co_cme d of
                 None \<Rightarrow> Inl NullPointer
               | Some c \<Rightarrow> bindR (update_cme c (\<lambda>e. e\<lparr>cme_misses := 0\<rparr>) s) (\<lambda>s. Inr (fScores, out, s)))
             else Inr (fScores, out, s)))))"

fun report_coherencies ::
  "nat \<Rightarrow> nat \<Rightarrow> u8 list \<times> CoherencyReport list \<times> ShadowMemory \<Rightarrow> crash + (u8 list \<times> CoherencyReport list \<times> ShadowMemory)" where
  "report_coherencies 0 i st = Inr st"
| "report_coherencies (Suc n) i st = bindR (report_coherency i st) (report_coherencies n (Suc i))"

definition ShadowMemory_printOutput ::
  "ShadowMemory \<Rightarrow> crash + ((CoherencyReport list \<times> u8 option \<times> (ConflictReport list \<times> u8) option) \<times> ShadowMemory)" where
  "ShadowMemory_printOutput s =
    bindR (report_coherencies (unat (sm_numOfCoherencyCaches s)) 0 ([], [], s)) (\<lambda>(fScores, out, s).
    bindR (if fScores = [] then Inr None
           else bindR (false_sharing_score (sort_descending fScores) 1 0) (\<lambda>t. Inr (Some t))) (\<lambda>fScore.
    bindR (ConflictData_printOutput (\<lambda>c. cme_misses (sm_cache_map s c)) (sm_conflictData s)) (\<lambda>(report, cd).
    Inr ((out, fScore, report), s\<lparr>sm_conflictData := cd\<rparr>))))"

end
