(* ===== verification/ShadowMemory_Correct.thy ===== *)
theory ShadowMemory_Correct
  imports ShadowMemory
begin

text \<open>
  The shadow memory counts exactly: while the objects alive are disjoint, every page's and every cache
  line's counter is the number of bytes those objects have in it. The pages and the lines are two
  interpretations of the block counting interface, each for an allocation and for a free.
\<close>

section \<open>Well-formed shadow memory\<close>

abbreviation line_ptr :: "ShadowMemory \<Rightarrow> nat \<Rightarrow> nat \<Rightarrow> nat option" where
  "line_ptr s r i \<equiv> pme_cache_map_entry (sm_page_map s r i)"

definition page_view :: "nat \<Rightarrow> ShadowMemory \<Rightarrow> nat \<Rightarrow> int" where
  "page_view r s i = sint (pme_num_used_bytes (sm_page_map s r i))"

definition line_view :: "nat \<Rightarrow> ShadowMemory \<Rightarrow> nat \<Rightarrow> int" where
  "line_view r s q = (case line_ptr s r (q div 64) of None \<Rightarrow> 0
    | Some c \<Rightarrow> sint (cme_num_used_bytes (sm_cache_map s (c + q mod 64))))"

text \<open>The lines of different pages do not overlap, and no line is in use that was not handed out.\<close>

definition lines_ok :: "ShadowMemory \<Rightarrow> bool" where
  "lines_ok s \<longleftrightarrow>
    (\<forall>r i c. line_ptr s r i = Some c \<longrightarrow> c + 64 \<le> sm_cache_map_bump_ptr s)
    \<and> (\<forall>r i c r' i' c'. line_ptr s r i = Some c \<and> line_ptr s r' i' = Some c' \<and> (r, i) \<noteq> (r', i')
        \<longrightarrow> c + 64 \<le> c' \<or> c' + 64 \<le> c)
    \<and> (\<forall>c \<ge> sm_cache_map_bump_ptr s. sm_cache_map s c = \<lparr>cme_misses = 0, cme_num_used_bytes = 0\<rparr>)
    \<and> sm_cache_map_bump_ptr s < MAX_CACHE_MAP_ENTRIES"

text \<open>A flag in a line's \<open>misses\<close> means that the line is on the list the flag stands for.\<close>

definition flags_ok :: "ShadowMemory \<Rightarrow> nat \<Rightarrow> u8 \<Rightarrow> bool" where
  "flags_ok s c m \<longleftrightarrow>
    (has_bit m CONFLICT_BIT \<longrightarrow> listed (unat (cd_numOfCme (sm_conflictData s))) (cd_cme (sm_conflictData s)) c)
    \<and> (has_bit m COHERENCY_BIT \<longrightarrow> listed (unat (sm_numOfCoherencyCaches s)) (map co_cme (sm_coherencyCaches s)) c)"

definition sm_wf :: "ShadowMemory \<Rightarrow> bool" where
  "sm_wf s \<longleftrightarrow> sm_isInitialized s \<and> sm_cache_mapped s \<and> lines_ok s
    \<and> conflict_ok (sm_conflictData s)
    \<and> length (sm_coherencyCaches s) = 32 \<and> sm_numOfCoherencyCaches s \<le> 32
    \<and> (\<forall>c. flags_ok s c (cme_misses (sm_cache_map s c)))"

lemma sm_wfD:
  assumes "sm_wf s"
  shows "sm_isInitialized s" "sm_cache_mapped s" "lines_ok s" "conflict_ok (sm_conflictData s)"
    "length (sm_coherencyCaches s) = 32" "flags_ok s c (cme_misses (sm_cache_map s c))"
  using assms by (auto simp: sm_wf_def)

section \<open>Pages\<close>

text \<open>An update of page counters leaves everything else alone.\<close>

definition page_frame :: "nat \<Rightarrow> ShadowMemory \<Rightarrow> ShadowMemory \<Rightarrow> bool" where
  "page_frame r s0 s \<longleftrightarrow> sm_isInitialized s
    \<and> (\<forall>r' i. line_ptr s r' i = line_ptr s0 r' i) \<and> (\<forall>r'. r' \<noteq> r \<longrightarrow> page_view r' s = page_view r' s0)
    \<and> sm_cache_mapped s = sm_cache_mapped s0 \<and> sm_cache_map s = sm_cache_map s0
    \<and> sm_cache_map_bump_ptr s = sm_cache_map_bump_ptr s0 \<and> sm_conflictData s = sm_conflictData s0
    \<and> sm_numOfCoherencyCaches s = sm_numOfCoherencyCaches s0 \<and> sm_coherencyCaches s = sm_coherencyCaches s0"

lemma page_frame_wf: "page_frame r s0 s \<Longrightarrow> sm_wf s0 \<Longrightarrow> sm_wf s"
  by (auto simp: page_frame_def sm_wf_def lines_ok_def flags_ok_def)

lemma page_frame_lines: "page_frame r s0 s \<Longrightarrow> line_view r' s = line_view r' s0"
  by (rule ext) (auto simp: page_frame_def line_view_def split: option.splits)

lemma update_page_spec:
  assumes "page_frame r s0 s" and "r < 8" and "i < MAX_PAGE_MAP_ENTRIES"
    and "\<And>e. pme_cache_map_entry (f e) = pme_cache_map_entry e"
  shows "\<exists>s'. update_page r i f s = Inr s' \<and> page_frame r s0 s'
    \<and> page_view r s' = (page_view r s)(i := sint (pme_num_used_bytes (f (sm_page_map s r i))))"
  using assms by (auto simp: update_page_def page_frame_def page_view_def fun_eq_iff NUM_ADDRESS_RANGE_def)

lemma page_counts:
  assumes "sg = 1 \<or> sg = -1"
  shows "block_counts 4096 sg (page_view r)
    (\<lambda>i n. update_page r i (if sg = 1 then PageMapEntry_addUsedBytes n else PageMapEntry_subUsedBytes n))
    (\<lambda>i. update_page r i (if sg = 1 then PageMapEntry_setFull else PageMapEntry_setEmpty))
    (\<lambda>i. r < 8 \<and> i < MAX_PAGE_MAP_ENTRIES) (page_frame r s0)"
proof
  show "(0 :: nat) < 4096" "sg = 1 \<or> sg = -1" using assms by simp_all
  fix s i b
  assume fr: "page_frame r s0 s" and "r < 8 \<and> i < MAX_PAGE_MAP_ENTRIES"
  then have r: "r < 8" and i: "i < MAX_PAGE_MAP_ENTRIES" by simp_all
  show "\<exists>s'. update_page r i (if sg = 1 then PageMapEntry_setFull else PageMapEntry_setEmpty) s = Inr s'
      \<and> page_frame r s0 s' \<and> page_view r s' = (page_view r s)(i := if sg = 1 then int 4096 else 0)"
    using update_page_spec [OF fr r i, of PageMapEntry_setFull]
      update_page_spec [OF fr r i, of PageMapEntry_setEmpty]
    by (auto simp: PageMapEntry_setFull_def PageMapEntry_setEmpty_def PAGESIZE_def)
  assume b: "b \<le> 4096" "0 \<le> page_view r s i" "page_view r s i \<le> int 4096"
    "0 \<le> page_view r s i + sg * int b" "page_view r s i + sg * int b \<le> int 4096"
  let ?f = "if sg = 1 then PageMapEntry_addUsedBytes b else PageMapEntry_subUsedBytes b"
  have "sint (pme_num_used_bytes (?f (sm_page_map s r i))) = page_view r s i + sg * int b"
    using sint_add_small [of "pme_num_used_bytes (sm_page_map s r i)" sg b] b assms
    by (auto simp: page_view_def PageMapEntry_addUsedBytes_def PageMapEntry_subUsedBytes_def)
  then show "\<exists>s'. update_page r i ?f s = Inr s' \<and> page_frame r s0 s'
      \<and> page_view r s' = (page_view r s)(i := page_view r s i + sg * int b)"
    using update_page_spec [OF fr r i, of ?f]
    by (auto simp: PageMapEntry_addUsedBytes_def PageMapEntry_subUsedBytes_def)
qed

interpretation page_malloc: block_counts 4096 1 "page_view r"
  "\<lambda>i n. update_page r i (PageMapEntry_addUsedBytes n)" "\<lambda>i. update_page r i PageMapEntry_setFull"
  "\<lambda>i. r < 8 \<and> i < MAX_PAGE_MAP_ENTRIES" "page_frame r s0"
  for r s0
  using page_counts [of 1 r s0] by simp

interpretation page_free: block_counts 4096 "-1" "page_view r"
  "\<lambda>i n. update_page r i (PageMapEntry_subUsedBytes n)" "\<lambda>i. update_page r i PageMapEntry_setEmpty"
  "\<lambda>i. r < 8 \<and> i < MAX_PAGE_MAP_ENTRIES" "page_frame r s0"
  for r s0
  using page_counts [of "-1" r s0] by simp

section \<open>The walk over the cache lines\<close>

text \<open>
  \<open>line_op r f q\<close> is \<open>f\<close> on line \<open>q\<close> of range \<open>r\<close>, after its page got its entries. The walk, which asks
  for the entries once per page and steps a pointer in between, does the same.
\<close>

definition line_op ::
  "nat \<Rightarrow> (nat \<Rightarrow> ShadowMemory \<Rightarrow> crash + ShadowMemory) \<Rightarrow> nat \<Rightarrow> ShadowMemory \<Rightarrow> crash + ShadowMemory" where
  "line_op r f q s = bindR (getCacheMapEntry r (q div 64) s) (\<lambda>(c, s). f (c + q mod 64) s)"

definition mapped_page :: "nat \<Rightarrow> nat \<Rightarrow> nat \<Rightarrow> ShadowMemory \<Rightarrow> bool" where
  "mapped_page r i c s \<longleftrightarrow> sm_isInitialized s \<and> r < 8 \<and> i < MAX_PAGE_MAP_ENTRIES \<and> line_ptr s r i = Some c"

text \<open>The position before line \<open>q\<close>.\<close>

definition before_line :: "nat \<Rightarrow> line_pos \<Rightarrow> nat \<Rightarrow> ShadowMemory \<Rightarrow> bool" where
  "before_line r pos q s \<longleftrightarrow> (case pos of (tp, ci, cur) \<Rightarrow>
    1 \<le> ci \<and> ci \<le> 64 \<and> q = 64 * tp + ci \<and> (\<exists>c. mapped_page r tp c s \<and> Suc cur = c + ci))"

text \<open>An operation on a line's entry does not move the entries.\<close>

definition keeps_pages :: "(nat \<Rightarrow> ShadowMemory \<Rightarrow> crash + ShadowMemory) \<Rightarrow> bool" where
  "keeps_pages f \<longleftrightarrow> (\<forall>c s s'. f c s = Inr s' \<longrightarrow> sm_isInitialized s' = sm_isInitialized s
    \<and> sm_page_map s' = sm_page_map s)"

lemma mapped_page_keeps:
  "mapped_page r i c s \<Longrightarrow> keeps_pages f \<Longrightarrow> f d s = Inr s' \<Longrightarrow> mapped_page r i c s'"
  by (auto simp: mapped_page_def keeps_pages_def)

lemma getCacheMapEntry_mapped:
  "mapped_page r i c s \<Longrightarrow> getCacheMapEntry r i s = Inr (c, s)"
  by (simp add: mapped_page_def getCacheMapEntry_def NUM_ADDRESS_RANGE_def)

lemma getCacheMapEntry_mapped_after:
  "getCacheMapEntry r i s = Inr (c, s') \<Longrightarrow> mapped_page r i c s'"
  by (auto simp: getCacheMapEntry_def mapped_page_def NUM_ADDRESS_RANGE_def doCacheMapBumpPointer_def
      update_page_def bindR_Inr_iff Let_def split: if_splits option.splits)

lemma next_line_eq:
  assumes "before_line r pos q s"
  shows "next_line r pos s = bindR (getCacheMapEntry r (q div 64) s)
    (\<lambda>(c, s). Inr ((q div 64, q mod 64, c + q mod 64), s))"
proof -
  obtain tp ci cur where pos: "pos = (tp, ci, cur)" by (cases pos) auto
  from assms obtain c where b: "1 \<le> ci" "ci \<le> 64" "q = 64 * tp + ci" "mapped_page r tp c s" "Suc cur = c + ci"
    by (auto simp: before_line_def pos)
  show ?thesis
  proof (cases "ci = 64")
    case False
    with b have "q div 64 = tp" "q mod 64 = ci" by auto
    with b False getCacheMapEntry_mapped [OF b(4)] show ?thesis
      by (simp add: next_line_def pos NUM_CACHELINES_PER_PAGE_def)
  qed (use b in \<open>simp add: next_line_def pos NUM_CACHELINES_PER_PAGE_def\<close>)
qed

lemma before_line_next:
  assumes "getCacheMapEntry r (q div 64) s = Inr (c, s')" and "keeps_pages f" and "f d s' = Inr s''"
  shows "before_line r (q div 64, Suc (q mod 64), c + q mod 64) (Suc q) s''"
  using mapped_page_keeps [OF getCacheMapEntry_mapped_after [OF assms(1)] assms(2,3)]
  by (auto simp: before_line_def)

lemma line_loop_eq:
  assumes "keeps_pages full"
  shows "before_line r pos (Suc i) s \<Longrightarrow>
    bindR (line_loop r full n pos s) (\<lambda>(rest, pos, s).
      if rest > 0 then bindR (next_line r pos s) (\<lambda>((_, _, cur), s). part rest cur s) else Inr s)
    = bindR (full_blocks 64 (line_op r full) n i s) (\<lambda>(rest, i, s).
      if rest > 0 then line_op r (part rest) (Suc i) s else Inr s)"
proof (induction n arbitrary: pos i s rule: less_induct)
  case (less n)
  note eq = next_line_eq [OF less.prems]
  show ?case
  proof (cases "64 \<le> n")
    case True
    show ?thesis
    proof (cases "line_op r full (Suc i) s")
      case (Inl e)
      with True eq show ?thesis
        by (subst line_loop.simps, subst full_blocks.simps)
           (auto simp: line_op_def CACHELINE_SIZE_def bindR_Inl_iff split: sum.splits prod.splits)
    next
      case (Inr s2)
      then obtain c s1 where g: "getCacheMapEntry r (Suc i div 64) s = Inr (c, s1)" "full (c + Suc i mod 64) s1 = Inr s2"
        by (auto simp: line_op_def bindR_Inr_iff)
      have "before_line r (Suc i div 64, Suc (Suc i mod 64), c + Suc i mod 64) (Suc (Suc i)) s2"
        by (rule before_line_next [OF g(1) assms g(2)])
      from less.IH [OF _ this, of "n - 64"] True eq g Inr show ?thesis
        by (subst line_loop.simps, subst full_blocks.simps) (simp add: CACHELINE_SIZE_def)
    qed
  next
    case False
    with eq show ?thesis
      by (subst line_loop.simps, subst full_blocks.simps)
         (cases "getCacheMapEntry r (Suc i div 64) s", auto simp: line_op_def CACHELINE_SIZE_def)
  qed
qed

lemma update_lines_eq:
  assumes "keeps_pages full" and "\<And>n. keeps_pages (part n)" and "ci < 64"
  shows "update_lines part full r pi ci off n
    = update_blocks 64 (\<lambda>q n. line_op r (part n) q) (line_op r full) (64 * pi + ci) off n"
proof (rule ext)
  fix s
  have q: "(64 * pi + ci) div 64 = pi" "(64 * pi + ci) mod 64 = ci" using assms(3) by auto
  show "update_lines part full r pi ci off n s
      = update_blocks 64 (\<lambda>q n. line_op r (part n) q) (line_op r full) (64 * pi + ci) off n s"
  proof (cases "line_op r (part (min (64 - off) n)) (64 * pi + ci) s")
    case (Inl e)
    then show ?thesis
      by (auto simp: update_lines_def update_blocks_def line_op_def q assms(3) CACHELINE_SIZE_def Let_def bindR_Inl_iff
          split: sum.splits prod.splits)
  next
    case (Inr s2)
    then obtain c s1 where g: "getCacheMapEntry r pi s = Inr (c, s1)" "part (min (64 - off) n) (c + ci) s1 = Inr s2"
      by (auto simp: line_op_def q assms(3) bindR_Inr_iff)
    have "before_line r (pi, Suc ci, c + ci) (Suc (64 * pi + ci)) s2"
      using before_line_next [of r "64 * pi + ci" s c s1 "part (min (64 - off) n)" "c + ci" s2] assms g
      by (simp add: q)
    from line_loop_eq [OF assms(1) this, of "n - min (64 - off) n" part] g Inr show ?thesis
      by (simp add: update_lines_def update_blocks_def CACHELINE_SIZE_def)
  qed
qed

section \<open>Cache lines\<close>

text \<open>
  What an update of the lines of range \<open>r\<close> keeps, and the room in the cache map for the pages \<open>P\<close> of the
  range that have no lines yet.
\<close>

definition line_frame :: "nat \<Rightarrow> nat set \<Rightarrow> ShadowMemory \<Rightarrow> ShadowMemory \<Rightarrow> bool" where
  "line_frame r P s0 s \<longleftrightarrow> sm_wf s \<and> (\<forall>r'. page_view r' s = page_view r' s0)
    \<and> (\<forall>r'. r' \<noteq> r \<longrightarrow> line_view r' s = line_view r' s0)
    \<and> sm_cache_map_bump_ptr s + 64 * card {p \<in> P. line_ptr s r p = None} < MAX_CACHE_MAP_ENTRIES"

lemma unused_line_zero:
  assumes "lines_ok s" and "line_ptr s r (q div 64) = None"
  shows "line_view r s q = 0" and "sint (cme_num_used_bytes (sm_cache_map s (sm_cache_map_bump_ptr s + j))) = 0"
  using assms by (auto simp: line_view_def lines_ok_def)

lemma new_lines:
  assumes fr: "line_frame r P s0 s" and p: "p \<in> P" "finite P" "p < MAX_PAGE_MAP_ENTRIES" and r: "r < 8"
  shows "\<exists>c s'. getCacheMapEntry r p s = Inr (c, s') \<and> mapped_page r p c s' \<and> line_frame r P s0 s'
    \<and> line_view r s' = line_view r s"
proof (cases "line_ptr s r p")
  case (Some c)
  have "mapped_page r p c s" using Some fr p r by (simp add: mapped_page_def line_frame_def sm_wf_def)
  with getCacheMapEntry_mapped [OF this] fr show ?thesis by blast
next
  case None
  have wf: "sm_wf s" using fr by (simp add: line_frame_def)
  note wfD = sm_wfD [OF wf]
  let ?b = "sm_cache_map_bump_ptr s"
  let ?N = "\<lambda>s. {q \<in> P. line_ptr s r q = None}"
  have "p \<in> ?N s" using None p by simp
  then have "0 < card (?N s)" using p(2) by (auto simp: card_gt_0_iff)
  then have room: "?b + 64 < MAX_CACHE_MAP_ENTRIES" using fr by (auto simp: line_frame_def)
  let ?e = "(sm_page_map s r p)\<lparr>pme_cache_map_entry := Some ?b\<rparr>"
  let ?s = "s\<lparr>sm_cache_map_bump_ptr := ?b + 64, sm_page_map := (sm_page_map s)(r := (sm_page_map s r)(p := ?e))\<rparr>"
  have g: "getCacheMapEntry r p s = Inr (?b, ?s)"
    using None room wfD p r
    by (simp add: getCacheMapEntry_def doCacheMapBumpPointer_def update_page_def NUM_ADDRESS_RANGE_def
        NUM_CACHELINES_PER_PAGE_def Let_def not_le)
  have ptr: "line_ptr ?s r' i = (if r' = r \<and> i = p then Some ?b else line_ptr s r' i)" for r' i by simp
  have old: "line_ptr s r' i = Some c \<Longrightarrow> c + 64 \<le> ?b" for r' i c using wfD(3) by (simp add: lines_ok_def)
  have old': "line_ptr s r' i = Some c \<Longrightarrow> c \<le> ?b" for r' i c using old [of r' i c] by simp
  have "lines_ok ?s"
    using wfD(3) room old unfolding lines_ok_def ptr by (auto split: if_splits intro: old')
  then have wf': "sm_wf ?s" using wf by (auto simp: sm_wf_def flags_ok_def)
  have pv: "page_view r' ?s = page_view r' s" for r' by (auto simp: page_view_def fun_eq_iff)
  have lv: "line_view r' ?s = line_view r' s" for r'
  proof (rule ext)
    fix q show "line_view r' ?s q = line_view r' s q"
      using unused_line_zero [OF wfD(3), of r q] None by (auto simp: line_view_def split: option.splits)
  qed
  have "?N ?s = ?N s - {p}" by auto
  moreover have "card (?N s - {p}) = card (?N s) - 1" using \<open>p \<in> ?N s\<close> p(2) by (simp add: card_Diff_singleton)
  ultimately have "?b + 64 + 64 * card (?N ?s) = ?b + 64 * card (?N s)" using \<open>0 < card (?N s)\<close> by simp
  then have "line_frame r P s0 ?s"
    using fr wf' pv lv unfolding line_frame_def by (auto simp del: fun_upd_apply)
  moreover have "mapped_page r p ?b ?s" using wfD p r by (simp add: mapped_page_def)
  ultimately show ?thesis using g lv by blast
qed

text \<open>Writing one line's entry changes the view at that line only.\<close>

lemma update_line_view:
  assumes fr: "line_frame r P s0 s" and c: "line_ptr s r i = Some c" and j: "j < 64"
    and s': "s' = s\<lparr>sm_cache_map := (sm_cache_map s)(c + j := e),
      sm_conflictData := cd, sm_coherencyCaches := cs\<rparr>"
    and ok: "conflict_ok cd" "length cs = 32"
    and keep: "cd_numOfCme cd = cd_numOfCme (sm_conflictData s)" "cd_cme cd = cd_cme (sm_conflictData s)"
      "map co_cme cs = map co_cme (sm_coherencyCaches s)"
    and fl: "flags_ok s (c + j) (cme_misses e)"
  shows "line_frame r P s0 s'" and "line_view r s' = (line_view r s)(64 * i + j := sint (cme_num_used_bytes e))"
proof -
  have wf: "sm_wf s" using fr by (simp add: line_frame_def)
  note L = sm_wfD(3) [OF wf]
  have b: "c + 64 \<le> sm_cache_map_bump_ptr s" using L c by (simp add: lines_ok_def)
  have other: "c' + k \<noteq> c + j" if "line_ptr s r' i' = Some c'" "k < 64" "(r', i') \<noteq> (r, i)" for r' i' c' k
    using L c j that unfolding lines_ok_def by fastforce
  have same: "sm_page_map s' = sm_page_map s" "sm_cache_map_bump_ptr s' = sm_cache_map_bump_ptr s"
    "sm_cache_map s' = (sm_cache_map s)(c + j := e)" by (simp_all add: s')
  have "lines_ok s'" using L b j unfolding lines_ok_def same by simp
  then have "sm_wf s'" using wf ok fl keep by (auto simp: sm_wf_def s' flags_ok_def)
  moreover have v: "line_view r' s' q = (if r' = r \<and> q = 64 * i + j then sint (cme_num_used_bytes e) else line_view r' s q)" for r' q
  proof (cases "r' = r \<and> q div 64 = i")
    case True
    then have "q = 64 * i + q mod 64" by (metis div_mult_mod_eq mult.commute)
    with True c j show ?thesis by (auto simp: line_view_def same)
  next
    case False
    then have "\<not> (r' = r \<and> q = 64 * i + j)" using j by auto
    with False other [of r' "q div 64" _ "q mod 64"] show ?thesis
      by (auto simp: line_view_def same split: option.splits)
  qed
  moreover have "page_view r' s' = page_view r' s" for r' by (auto simp: page_view_def same fun_eq_iff)
  ultimately show "line_frame r P s0 s'"
    using fr unfolding line_frame_def same by (auto simp: fun_eq_iff)
  show "line_view r s' = (line_view r s)(64 * i + j := sint (cme_num_used_bytes e))"
    using v [of r] by (auto simp: fun_eq_iff)
qed

text \<open>An operation on an entry that the frame allows, lifted to lines.\<close>

definition line_update_ok ::
  "nat \<Rightarrow> nat set \<Rightarrow> ShadowMemory \<Rightarrow> (nat \<Rightarrow> ShadowMemory \<Rightarrow> crash + ShadowMemory) \<Rightarrow> (int \<Rightarrow> int) \<Rightarrow> bool" where
  "line_update_ok r P s0 f g \<longleftrightarrow> (\<forall>i c j s. line_frame r P s0 s \<and> mapped_page r i c s \<and> j < 64
      \<and> c + j < MAX_CACHE_MAP_ENTRIES \<longrightarrow>
    (\<exists>s'. f (c + j) s = Inr s' \<and> line_frame r P s0 s'
      \<and> line_view r s' = (line_view r s)(64 * i + j := g (sint (cme_num_used_bytes (sm_cache_map s (c + j)))))))"

lemma line_op_ok:
  assumes ok: "line_update_ok r P s0 f g"
    and fr: "line_frame r P s0 s" and q: "q div 64 \<in> P" and P: "finite P" "\<forall>p \<in> P. p < MAX_PAGE_MAP_ENTRIES" and r: "r < 8"
  shows "\<exists>s'. line_op r f q s = Inr s' \<and> line_frame r P s0 s' \<and> line_view r s' = (line_view r s)(q := g (line_view r s q))"
proof -
  obtain c s1 where g: "getCacheMapEntry r (q div 64) s = Inr (c, s1)" "mapped_page r (q div 64) c s1"
      "line_frame r P s0 s1" "line_view r s1 = line_view r s"
    using new_lines [OF fr q P(1) _ r] P(2) q by blast
  have "c + 64 \<le> sm_cache_map_bump_ptr s1" "sm_cache_map_bump_ptr s1 < MAX_CACHE_MAP_ENTRIES"
    using g(2,3) by (auto simp: line_frame_def sm_wf_def lines_ok_def mapped_page_def)
  then have lim: "c + q mod 64 < MAX_CACHE_MAP_ENTRIES" using mod_less_divisor [of 64 q] by linarith
  have q': "64 * (q div 64) + q mod 64 = q" by simp
  have "line_view r s1 q = sint (cme_num_used_bytes (sm_cache_map s1 (c + q mod 64)))"
    using g(2) by (simp add: line_view_def mapped_page_def)
  with ok [unfolded line_update_ok_def, rule_format, of s1 "q div 64" c "q mod 64"] g lim
  show ?thesis by (auto simp: line_op_def q')
qed

lemma update_cme_ok:
  assumes "\<And>e. cme_misses (h e) = cme_misses e" and "\<And>e. sint (cme_num_used_bytes (h e)) = g (sint (cme_num_used_bytes e))"
  shows "line_update_ok r P s0 (\<lambda>c. update_cme c h) g"
proof -
  have "\<exists>s'. update_cme (c + j) h s = Inr s' \<and> line_frame r P s0 s'
      \<and> line_view r s' = (line_view r s)(64 * i + j := g (sint (cme_num_used_bytes (sm_cache_map s (c + j)))))"
    if "line_frame r P s0 s" "mapped_page r i c s" "j < 64" "c + j < MAX_CACHE_MAP_ENTRIES" for i c j s
  proof -
    have wf: "sm_wf s" using that by (simp add: line_frame_def)
    have "update_cme (c + j) h s = Inr (s\<lparr>sm_cache_map := (sm_cache_map s)(c + j := h (sm_cache_map s (c + j)))\<rparr>)"
      using sm_wfD(2) [OF wf] that(4) by (simp add: update_cme_def)
    with update_line_view [OF that(1) _ that(3), where i = i and c = c and e = "h (sm_cache_map s (c + j))"
        and cd = "sm_conflictData s" and cs = "sm_coherencyCaches s"] that(2) sm_wfD [OF wf] assms
    show ?thesis by (simp add: mapped_page_def)
  qed
  then show ?thesis by (auto simp: line_update_ok_def)
qed

lemma noteFree_cme [simp]: "co_cme (CoherencyData_noteFree tid key d) = co_cme d"
  by (simp add: CoherencyData_noteFree_def Let_def split: prod.splits)

text \<open>The owner checks succeed and write only the miss data.\<close>

lemma checks_ok:
  assumes wf: "sm_wf s" and s1: "s1 = s\<lparr>sm_cache_map := (sm_cache_map s)(d := e)\<rparr>"
    and m: "cme_misses e = cme_misses (sm_cache_map s d)"
  obtains cd where "check_conflict obj d s1 = Inr (s1\<lparr>sm_conflictData := cd\<rparr>)" "conflict_ok cd"
    "cd_numOfCme cd = cd_numOfCme (sm_conflictData s)" "cd_cme cd = cd_cme (sm_conflictData s)"
proof (cases "has_bit (cme_misses e) CONFLICT_BIT")
  case True
  then have "listed (unat (cd_numOfCme (sm_conflictData s))) (cd_cme (sm_conflictData s)) d"
    using sm_wfD(6) [OF wf, of d] m by (simp add: flags_ok_def)
  from checkObj_spec [OF sm_wfD(4) [OF wf] this, of "os_callKey obj"] that True show ?thesis
    by (fastforce simp: check_conflict_def s1)
next
  case False
  with that [of "sm_conflictData s"] sm_wfD(4) [OF wf] show ?thesis by (simp add: check_conflict_def s1)
qed

lemma check_coherency_ok:
  assumes wf: "sm_wf s" and s1: "s1 = s\<lparr>sm_cache_map := (sm_cache_map s)(d := e), sm_conflictData := cd\<rparr>"
    and m: "cme_misses e = cme_misses (sm_cache_map s d)"
  obtains cs where "check_coherency obj d s1 = Inr (s1\<lparr>sm_coherencyCaches := cs\<rparr>)" "length cs = 32"
    "map co_cme cs = map co_cme (sm_coherencyCaches s)"
proof (cases "has_bit (cme_misses e) COHERENCY_BIT")
  case True
  then have "listed (unat (sm_numOfCoherencyCaches s)) (map co_cme (sm_coherencyCaches s)) d"
    using sm_wfD(6) [OF wf, of d] m by (simp add: flags_ok_def)
  from find_index_listed [OF this] have i: "coherency_index s1 d < 32"
    using sm_wfD(5) [OF wf] by (simp add: coherency_index_def s1)
  let ?i = "coherency_index s1 d"
  have "map co_cme ((sm_coherencyCaches s)[?i := CoherencyData_noteFree tid key (sm_coherencyCaches s ! ?i)])
      = map co_cme (sm_coherencyCaches s)" for tid key
    using i sm_wfD(5) [OF wf] by (simp add: map_update list_update_same_conv)
  with True i sm_wfD(5) [OF wf] that show ?thesis by (simp add: check_coherency_def s1 Let_def)
next
  case False
  with that [of "sm_coherencyCaches s"] sm_wfD(5) [OF wf] show ?thesis by (simp add: check_coherency_def s1)
qed

lemma free_line_part_ok:
  "line_update_ok r P s0 (free_line_part obj n) (\<lambda>k. sint ((of_int k :: u8) - of_nat n))"
proof -
  have "\<exists>s'. free_line_part obj n (c + j) s = Inr s' \<and> line_frame r P s0 s'
      \<and> line_view r s' = (line_view r s)(64 * i + j :=
          sint ((of_int (sint (cme_num_used_bytes (sm_cache_map s (c + j)))) :: u8) - of_nat n))"
    if fr: "line_frame r P s0 s" and mp: "mapped_page r i c s" and j: "j < 64"
      and lim: "c + j < MAX_CACHE_MAP_ENTRIES" for i c j s
  proof -
    have wf: "sm_wf s" using fr by (simp add: line_frame_def)
    let ?e = "CacheMapEntry_subUsedBytes n (sm_cache_map s (c + j))"
    let ?s1 = "s\<lparr>sm_cache_map := (sm_cache_map s)(c + j := ?e)\<rparr>"
    have m: "cme_misses ?e = cme_misses (sm_cache_map s (c + j))" by (simp add: CacheMapEntry_subUsedBytes_def)
    have u: "update_cme (c + j) (CacheMapEntry_subUsedBytes n) s = Inr ?s1"
      using sm_wfD(2) [OF wf] lim by (simp add: update_cme_def)
    obtain cd where cd: "check_conflict obj (c + j) ?s1 = Inr (?s1\<lparr>sm_conflictData := cd\<rparr>)" "conflict_ok cd"
        "cd_numOfCme cd = cd_numOfCme (sm_conflictData s)" "cd_cme cd = cd_cme (sm_conflictData s)"
      by (rule checks_ok [OF wf refl m])
    obtain cs where cs: "check_coherency obj (c + j) (?s1\<lparr>sm_conflictData := cd\<rparr>)
          = Inr (?s1\<lparr>sm_conflictData := cd, sm_coherencyCaches := cs\<rparr>)" "length cs = 32"
        "map co_cme cs = map co_cme (sm_coherencyCaches s)"
      by (rule check_coherency_ok [OF wf _ m, of "?s1\<lparr>sm_conflictData := cd\<rparr>" cd obj]) simp
    have run: "free_line_part obj n (c + j) s = Inr (?s1\<lparr>sm_conflictData := cd, sm_coherencyCaches := cs\<rparr>)"
      by (simp add: free_line_part_def u cd cs)
    have p: "line_ptr s r i = Some c" using mp by (simp add: mapped_page_def)
    have fl: "flags_ok s (c + j) (cme_misses ?e)" using sm_wfD(6) [OF wf] m by simp
    note v = update_line_view [OF fr p j refl cd(2) cs(2) cd(3,4) cs(3) fl]
    from v run show ?thesis by (simp add: CacheMapEntry_subUsedBytes_def)
  qed
  then show ?thesis by (auto simp: line_update_ok_def)
qed

lemma flag_dropped:
  "flags_ok s c m \<Longrightarrow> flags_ok s c (m AND 0x7f)"
  "\<not> has_bit (m AND 0x7f) CONFLICT_BIT"
proof -
  have "(m AND 0x7f) AND 0x80 = 0" by (simp add: word_bw_assocs)
  then show c: "\<not> has_bit (m AND 0x7f) CONFLICT_BIT" by (simp add: has_bit_def config)
  have "(m AND 0x7f) AND 0x40 = m AND 0x40" by (simp add: word_bw_assocs)
  then show "flags_ok s c m \<Longrightarrow> flags_ok s c (m AND 0x7f)"
    using c by (simp add: flags_ok_def has_bit_def config)
qed

lemma free_line_full_ok: "line_update_ok r P s0 (free_line_full obj) (\<lambda>_. 0)"
proof -
  have "\<exists>s'. free_line_full obj (c + j) s = Inr s' \<and> line_frame r P s0 s' \<and> line_view r s' = (line_view r s)(64 * i + j := 0)"
    if fr: "line_frame r P s0 s" and mp: "mapped_page r i c s" and j: "j < 64"
      and lim: "c + j < MAX_CACHE_MAP_ENTRIES" for i c j s
  proof -
    have wf: "sm_wf s" using fr by (simp add: line_frame_def)
    let ?m = "cme_misses (sm_cache_map s (c + j))"
    obtain cd where cd: "check_conflict obj (c + j) s = Inr (s\<lparr>sm_conflictData := cd\<rparr>)" "conflict_ok cd"
        "cd_numOfCme cd = cd_numOfCme (sm_conflictData s)" "cd_cme cd = cd_cme (sm_conflictData s)"
      by (rule checks_ok [OF wf, of s "c + j" "sm_cache_map s (c + j)" obj]) simp_all
    let ?e = "CacheMapEntry_setEmpty (sm_cache_map s (c + j))"
    let ?e' = "CacheMapEntry_setEmpty ((sm_cache_map s (c + j))\<lparr>cme_misses := ?m AND 0x7f\<rparr>)"
    have p: "line_ptr s r i = Some c" using mp by (simp add: mapped_page_def)
    have fl: "flags_ok s (c + j) (cme_misses ?e)" "flags_ok s (c + j) (cme_misses ?e')"
      using sm_wfD(6) [OF wf, of "c + j"] flag_dropped(1) by (simp_all add: CacheMapEntry_setEmpty_def)
    note v = update_line_view [OF fr p j refl cd(2) sm_wfD(5) [OF wf] cd(3,4) refl fl(2)]
    note v' = update_line_view [OF fr p j refl sm_wfD(4,5) [OF wf] refl refl refl fl(1)]
    show ?thesis
    proof (cases "has_bit ?m CONFLICT_BIT")
      case True
      have "free_line_full obj (c + j) s = Inr (s\<lparr>sm_cache_map := (sm_cache_map s)(c + j := ?e'),
          sm_conflictData := cd, sm_coherencyCaches := sm_coherencyCaches s\<rparr>)"
        using True cd sm_wfD(2) [OF wf] lim
        by (auto simp: free_line_full_def update_cme_def intro!: ShadowMemory.equality)
      with v show ?thesis by (simp add: CacheMapEntry_setEmpty_def)
    next
      case False
      then show ?thesis
        using v' sm_wfD(2) [OF wf] lim by (simp add: free_line_full_def update_cme_def CacheMapEntry_setEmpty_def)
    qed
  qed
  then show ?thesis by (auto simp: line_update_ok_def)
qed

lemma line_counts:
  assumes sg: "sg = 1 \<or> sg = -1"
    and part: "\<And>n. line_update_ok r P s0 (part n)
      (\<lambda>k. sint (if sg = 1 then (of_int k :: u8) + of_nat n else of_int k - of_nat n))"
    and full: "line_update_ok r P s0 full (\<lambda>_. if sg = 1 then 64 else 0)"
  shows "block_counts 64 sg (line_view r) (\<lambda>q n. line_op r (part n) q) (line_op r full)
    (\<lambda>q. r < 8 \<and> finite P \<and> (\<forall>p \<in> P. p < MAX_PAGE_MAP_ENTRIES) \<and> q div 64 \<in> P) (line_frame r P s0)"
proof
  show "(0 :: nat) < 64" "sg = 1 \<or> sg = -1" using sg by simp_all
  fix s i b
  assume fr: "line_frame r P s0 s"
    and "r < 8 \<and> finite P \<and> (\<forall>p \<in> P. p < MAX_PAGE_MAP_ENTRIES) \<and> i div 64 \<in> P"
  then have P: "finite P" "\<forall>p \<in> P. p < MAX_PAGE_MAP_ENTRIES" and r: "r < 8" and i: "i div 64 \<in> P" by simp_all
  show "\<exists>s'. line_op r full i s = Inr s' \<and> line_frame r P s0 s'
      \<and> line_view r s' = (line_view r s)(i := if sg = 1 then int 64 else 0)"
    using line_op_ok [OF full fr i P r] by (cases "sg = 1") simp_all
  assume b: "b \<le> 64" "0 \<le> line_view r s i" "line_view r s i \<le> int 64"
    "0 \<le> line_view r s i + sg * int b" "line_view r s i + sg * int b \<le> int 64"
  have "sint (of_int (line_view r s i) :: u8) = line_view r s i"
    unfolding sint_sbintrunc' using b by (intro signed_take_bit_int_eq_self) simp_all
  with sint_add_small [of "of_int (line_view r s i) :: u8" sg b] b sg
  have "sint (if sg = 1 then (of_int (line_view r s i) :: u8) + of_nat b else of_int (line_view r s i) - of_nat b)
      = line_view r s i + sg * int b"
    by simp
  with line_op_ok [OF part [of b] fr i P r]
  show "\<exists>s'. line_op r (part b) i s = Inr s' \<and> line_frame r P s0 s'
      \<and> line_view r s' = (line_view r s)(i := line_view r s i + sg * int b)"
    by simp
qed

interpretation line_malloc: block_counts 64 1 "line_view r"
  "\<lambda>q n. line_op r (\<lambda>c. update_cme c (CacheMapEntry_addUsedBytes n)) q"
  "line_op r (\<lambda>c. update_cme c CacheMapEntry_setFull)"
  "\<lambda>q. r < 8 \<and> finite P \<and> (\<forall>p \<in> P. p < MAX_PAGE_MAP_ENTRIES) \<and> q div 64 \<in> P" "line_frame r P s0"
  for r P s0
  by (rule line_counts [of 1])
     (auto intro!: update_cme_ok simp: CacheMapEntry_addUsedBytes_def CacheMapEntry_setFull_def CACHELINE_SIZE_def)

interpretation line_free: block_counts 64 "-1" "line_view r"
  "\<lambda>q n. line_op r (free_line_part obj n) q" "line_op r (free_line_full obj)"
  "\<lambda>q. r < 8 \<and> finite P \<and> (\<forall>p \<in> P. p < MAX_PAGE_MAP_ENTRIES) \<and> q div 64 \<in> P" "line_frame r P s0"
  for obj r P s0
  using line_counts [of "-1" r P s0 "free_line_part obj" "free_line_full obj"]
    free_line_part_ok [of r P s0 obj] free_line_full_ok [of r P s0 obj] by simp

lemma keeps_pagesI:
  "(\<And>c s s'. f c s = Inr s' \<Longrightarrow> sm_isInitialized s' = sm_isInitialized s \<and> sm_page_map s' = sm_page_map s)
    \<Longrightarrow> keeps_pages f"
  by (simp add: keeps_pages_def)

lemma keeps_pages_bind:
  "keeps_pages f \<Longrightarrow> keeps_pages g \<Longrightarrow> keeps_pages (\<lambda>c s. bindR (f c s) (g c))"
  unfolding keeps_pages_def bindR_Inr_iff by metis

lemma keeps_update_cme: "keeps_pages (\<lambda>c. update_cme c h)"
  by (rule keeps_pagesI) (auto simp: update_cme_def split: if_splits)

lemma keeps_check_conflict: "keeps_pages (check_conflict obj)"
  by (rule keeps_pagesI) (auto simp: check_conflict_def bindR_Inr_iff split: if_splits)

lemma keeps_check_coherency: "keeps_pages (check_coherency obj)"
  by (rule keeps_pagesI) (auto simp: check_coherency_def Let_def split: if_splits)

lemma keeps_free_line_part: "keeps_pages (free_line_part obj n)"
  using keeps_pages_bind [OF keeps_update_cme keeps_pages_bind [OF keeps_check_conflict keeps_check_coherency]]
  by (simp add: free_line_part_def [abs_def])

lemma keeps_free_line_full: "keeps_pages (free_line_full obj)"
proof (rule keeps_pagesI)
  fix c s s' assume "free_line_full obj c s = Inr s'"
  moreover have "keeps_pages (\<lambda>c s. bindR (check_conflict obj c s) (\<lambda>s.
      bindR (update_cme c (\<lambda>e. e\<lparr>cme_misses := cme_misses e AND 0x7f\<rparr>) s) (update_cme c CacheMapEntry_setEmpty)))"
    by (intro keeps_pages_bind keeps_check_conflict keeps_update_cme)
  ultimately show "sm_isInitialized s' = sm_isInitialized s \<and> sm_page_map s' = sm_page_map s"
    using keeps_update_cme [of CacheMapEntry_setEmpty] unfolding free_line_full_def keeps_pages_def
    by (metis (no_types, lifting))
qed

section \<open>Addresses\<close>

definition range_base :: "nat \<Rightarrow> nat" where
  "range_base r = unat (addressRanges ! r)"

lemma getPageIndex_loop_cases:
  "getPageIndex_loop a i rs junk = (r, idx) \<Longrightarrow> i \<le> r \<and> r \<le> i + length rs \<and>
    (r < i + length rs \<longrightarrow> rs ! (r - i) \<le> a \<and> idx = drop_bit 12 (a - rs ! (r - i)) \<and> unat idx \<le> MAX_PAGE_MAP_ENTRIES)"
proof (induction a i rs junk rule: getPageIndex_loop.induct)
  case (2 a i r' rs junk)
  show ?case
  proof (cases "r' \<le> a \<and> unat (drop_bit 12 (a - r')) \<le> MAX_PAGE_MAP_ENTRIES")
    case True
    with 2(3) have "r = i" "idx = drop_bit 12 (a - r')" by (auto simp: Let_def)
    with True show ?thesis by simp
  next
    case False
    obtain junk' where "getPageIndex_loop a (Suc i) rs junk' = (r, idx)"
      and "Suc i \<le> r \<and> r \<le> Suc i + length rs \<and> (r < Suc i + length rs \<longrightarrow> rs ! (r - Suc i) \<le> a
        \<and> idx = drop_bit 12 (a - rs ! (r - Suc i)) \<and> unat idx \<le> MAX_PAGE_MAP_ENTRIES)"
      using 2 False by (auto simp: Let_def split: if_splits)
    moreover obtain k where "r = Suc i + k" using calculation(2) le_Suc_ex by blast
    ultimately show ?thesis by auto
  qed
qed simp

lemma range_base_aligned: "r < 8 \<Longrightarrow> range_base r mod 4096 = 0"
proof -
  have "\<forall>x \<in> set addressRanges. unat x mod 4096 = 0" by (simp add: addressRanges_def)
  moreover assume "r < 8"
  then have "addressRanges ! r \<in> set addressRanges" by (intro nth_mem) (simp add: addressRanges_def)
  ultimately show ?thesis by (simp add: range_base_def)
qed

text \<open>A page has 64 lines of 64 bytes.\<close>

lemma line_in_page: "64 * (x div 4096) + (x mod 4096) div 64 = x div 64" for x :: nat
proof -
  have "x mod (64 * 64) = 64 * (x div 64 mod 64) + x mod 64" by (rule mod_mult2_eq)
  then have "(x mod 4096) div 64 = x div 64 mod 64" by simp
  moreover have "x div 4096 = x div 64 div 64" by (simp flip: div_mult2_eq)
  ultimately show ?thesis by simp
qed

lemma getPageIndex_range: "getPageIndex junk a = (r, idx) \<Longrightarrow> r \<le> 8"
  using getPageIndex_loop_cases [of a 0 addressRanges junk r idx] by (simp add: getPageIndex_def addressRanges_def)

lemma getPageIndex_offset:
  assumes g: "getPageIndex junk a = (r, idx)" and r: "r < 8"
  shows "range_base r \<le> unat a" and "unat idx = (unat a - range_base r) div 4096"
    and "(unat a - range_base r) mod 4096 = unat a mod 4096"
    and "unat a - range_base r < MAX_PAGE_MAP_ENTRIES * 4096 + 4096"
proof -
  have c: "addressRanges ! r \<le> a" "idx = drop_bit 12 (a - addressRanges ! r)" "unat idx \<le> MAX_PAGE_MAP_ENTRIES"
    using getPageIndex_loop_cases [of a 0 addressRanges junk r idx] g r by (auto simp: getPageIndex_def addressRanges_def)
  show b: "range_base r \<le> unat a" using c(1) by (simp add: range_base_def word_le_nat_alt)
  show i: "unat idx = (unat a - range_base r) div 4096"
    unfolding c(2) using c(1) by (simp add: unat_facts range_base_def)
  have "unat a = (unat a - range_base r) + range_base r" using b by simp
  then show "(unat a - range_base r) mod 4096 = unat a mod 4096"
    using range_base_aligned [OF r] by (metis mod_add_right_eq add_0_right)
  have "(unat a - range_base r) div 4096 \<le> MAX_PAGE_MAP_ENTRIES" using c(3) i by simp
  then show "unat a - range_base r < MAX_PAGE_MAP_ENTRIES * 4096 + 4096" by linarith
qed

text \<open>The masks and shifts of the code, as offsets in the range.\<close>

lemma object_offsets:
  assumes g: "getPageIndex junk a = (r, idx)" and r: "r < 8"
  defines "off \<equiv> unat a - range_base r"
  shows "unat (a AND 0xfff) = off mod 4096" and "unat (a AND 63) = off mod 64"
    and "unat idx * 4096 + unat (a AND 0xfff) = off"
    and "64 * unat idx + unat (drop_bit 6 (a AND 0xfff)) = off div 64"
    and "unat (drop_bit 6 (a AND 0xfff)) < 64"
proof -
  note o = getPageIndex_offset [OF g r, folded off_def]
  have m: "unat (a AND 0xfff) = unat a mod 4096" using unat_and_mask [of a 12] by (simp add: mask_eq_exp_minus_1)
  then show m': "unat (a AND 0xfff) = off mod 4096" using o by simp
  have "unat (a AND 63) = unat a mod 64" using unat_and_mask [of a 6] by (simp add: mask_eq_exp_minus_1)
  also have "\<dots> = (unat a mod 4096) mod 64" by (simp add: mod_mod_cancel)
  also have "\<dots> = (off mod 4096) mod 64" by (simp only: o(3))
  also have "\<dots> = off mod 64" by (simp add: mod_mod_cancel)
  finally show "unat (a AND 63) = off mod 64" .
  show "unat idx * 4096 + unat (a AND 0xfff) = off" unfolding m' o(2) by simp
  have d: "unat (drop_bit 6 (a AND 0xfff)) = (off mod 4096) div 64"
    unfolding unat_drop_bit m' by simp
  then show "unat (drop_bit 6 (a AND 0xfff)) < 64" by simp
  show "64 * unat idx + unat (drop_bit 6 (a AND 0xfff)) = off div 64"
    unfolding d o(2) by (rule line_in_page)
qed

section \<open>Exact counts\<close>

text \<open>The live objects: range, offset in the range, size.\<close>

type_synonym live = "(nat \<times> nat \<times> nat) list"

definition of_range :: "nat \<Rightarrow> live \<Rightarrow> (nat \<times> nat) list" where
  "of_range r L = [snd x. x \<leftarrow> L, fst x = r]"

definition accounted :: "live \<Rightarrow> ShadowMemory \<Rightarrow> bool" where
  "accounted L s \<longleftrightarrow> sm_wf s \<and> (\<forall>r < 8. disjoint_ranges (of_range r L)
    \<and> (\<forall>x \<in> set (of_range r L). fst x + snd x \<le> MAX_PAGE_MAP_ENTRIES * 4096)
    \<and> page_view r s = (\<lambda>i. int (bytes_in 4096 (of_range r L) i))
    \<and> line_view r s = (\<lambda>q. int (bytes_in 64 (of_range r L) q)))"

lemma of_range_Cons: "of_range r (x # L) = (if fst x = r then snd x # of_range r L else of_range r L)"
  by (simp add: of_range_def)

lemma of_range_remove1:
  "of_range r (remove1 x L) = (if fst x = r then remove1 (snd x) (of_range r L) else of_range r L)"
  by (induction L) (auto simp: of_range_def prod_eq_iff)

lemma of_range_mem: "(r, x) \<in> set L \<Longrightarrow> x \<in> set (of_range r L)"
  by (auto simp: of_range_def intro!: bexI [of _ "(r, x)"])

lemma overlap_page: "0 < overlap 4096 off n i \<Longrightarrow> off + n \<le> M * 4096 \<Longrightarrow> i < M"
  unfolding overlap_def by linarith

lemma accountedD:
  assumes "accounted L s" and "r < 8"
  shows "sm_wf s" "disjoint_ranges (of_range r L)"
    "x \<in> set (of_range r L) \<Longrightarrow> fst x + snd x \<le> MAX_PAGE_MAP_ENTRIES * 4096"
    "page_view r s = (\<lambda>i. int (bytes_in 4096 (of_range r L) i))"
    "line_view r s = (\<lambda>q. int (bytes_in 64 (of_range r L) q))"
  using assms by (auto simp: accounted_def)

text \<open>
  One object's update, from the two block loops to the whole state: \<open>sg\<close> is 1 for an allocation and -1
  for a free, and the new counts are those of the new list of live objects.
\<close>

lemma object_update:
  assumes acc: "accounted L s" and g: "getPageIndex junk a = (r, idx)" and r: "r < 8" and n: "0 < n"
  defines "off \<equiv> unat a - range_base r"
  assumes fit: "off + n \<le> MAX_PAGE_MAP_ENTRIES * 4096"
    and room: "sm_cache_map_bump_ptr s + 64 * card {p \<in> object_pages off n. line_ptr s r p = None} < MAX_CACHE_MAP_ENTRIES"
    and pages: "block_counts 4096 sg (page_view r) ppart pfull (\<lambda>i. r < 8 \<and> i < MAX_PAGE_MAP_ENTRIES) (page_frame r s)"
    and lines: "\<And>s0. block_counts 64 sg (line_view r) (\<lambda>q n. line_op r (lpart n) q) (line_op r lfull)
      (\<lambda>q. r < 8 \<and> finite (object_pages off n) \<and> (\<forall>p \<in> object_pages off n. p < MAX_PAGE_MAP_ENTRIES)
        \<and> q div 64 \<in> object_pages off n) (line_frame r (object_pages off n) s0)"
    and keep: "keeps_pages lfull" "\<And>n. keeps_pages (lpart n)"
    and xs: "\<And>B q. int (bytes_in B (of_range r L') q) = int (bytes_in B (of_range r L) q) + sg * int (overlap B off n q)"
      "disjoint_ranges (of_range r L')" "\<And>x. x \<in> set (of_range r L') \<Longrightarrow> fst x + snd x \<le> MAX_PAGE_MAP_ENTRIES * 4096"
      "\<And>r'. r' \<noteq> r \<Longrightarrow> of_range r' L' = of_range r' L"
  shows "\<exists>s'. bindR (update_blocks 4096 ppart pfull (unat idx) (unat (a AND 0xfff)) n s)
      (update_lines lpart lfull r (unat idx) (unat (drop_bit 6 (a AND 0xfff))) (unat (a AND 63)) n) = Inr s'
    \<and> accounted L' s'"
proof -
  note o = object_offsets [OF g r, folded off_def]
  note A = accountedD [OF acc r]
  have bound: "0 \<le> int (bytes_in B (of_range r L) q) \<and> int (bytes_in B (of_range r L) q) \<le> int B
      \<and> 0 \<le> int (bytes_in B (of_range r L) q) + sg * int (overlap B off n q)
      \<and> int (bytes_in B (of_range r L) q) + sg * int (overlap B off n q) \<le> int B" for B q
    unfolding xs(1) [symmetric] using bytes_in_le [OF A(2), of B q] bytes_in_le [OF xs(2), of B q] by simp
  have fr: "page_frame r s s" using A(1) by (simp add: page_frame_def sm_wf_def)
  have small: "unat (a AND 0xfff) < 4096" "unat (a AND 63) < 64" unfolding o(1,2) by simp_all
  have "\<forall>q. 0 \<le> page_view r s q \<and> page_view r s q \<le> int 4096
      \<and> 0 \<le> page_view r s q + sg * int (overlap 4096 (unat idx * 4096 + unat (a AND 0xfff)) n q)
      \<and> page_view r s q + sg * int (overlap 4096 (unat idx * 4096 + unat (a AND 0xfff)) n q) \<le> int 4096
      \<and> (0 < overlap 4096 (unat idx * 4096 + unat (a AND 0xfff)) n q \<longrightarrow> r < 8 \<and> q < MAX_PAGE_MAP_ENTRIES)"
    unfolding o(3) A(4) using bound [of 4096] r overlap_page [OF _ fit] by simp
  from block_counts.update_blocks_exact [OF pages fr small(1) n this]
  obtain s1 where s1: "update_blocks 4096 ppart pfull (unat idx) (unat (a AND 0xfff)) n s = Inr s1" "page_frame r s s1"
      "page_view r s1 = (\<lambda>q. page_view r s q + sg * int (overlap 4096 off n q))"
    unfolding o(3) by blast
  have wf1: "sm_wf s1" by (rule page_frame_wf [OF s1(2) A(1)])
  let ?P = "object_pages off n"
  have P: "finite ?P" "p \<in> ?P \<Longrightarrow> p < MAX_PAGE_MAP_ENTRIES" for p
    using fit n by (auto simp: object_pages_def)
  have fr1: "line_frame r ?P s1 s1"
    using wf1 room s1(2) by (simp add: line_frame_def page_frame_def)
  have lv: "line_view r s1 = (\<lambda>q. int (bytes_in 64 (of_range r L) q))"
    using page_frame_lines [OF s1(2), of r] A(5) by simp
  have off64: "(64 * unat idx + unat (drop_bit 6 (a AND 0xfff))) * 64 + unat (a AND 63) = off"
    unfolding o(2,4) by simp
  have "\<forall>q. 0 \<le> line_view r s1 q \<and> line_view r s1 q \<le> int 64
      \<and> 0 \<le> line_view r s1 q + sg * int (overlap 64 ((64 * unat idx + unat (drop_bit 6 (a AND 0xfff))) * 64 + unat (a AND 63)) n q)
      \<and> line_view r s1 q + sg * int (overlap 64 ((64 * unat idx + unat (drop_bit 6 (a AND 0xfff))) * 64 + unat (a AND 63)) n q) \<le> int 64
      \<and> (0 < overlap 64 ((64 * unat idx + unat (drop_bit 6 (a AND 0xfff))) * 64 + unat (a AND 63)) n q \<longrightarrow>
        r < 8 \<and> finite ?P \<and> (\<forall>p \<in> ?P. p < MAX_PAGE_MAP_ENTRIES) \<and> q div 64 \<in> ?P)"
    unfolding off64 lv using bound [of 64] r P overlap_line_page by simp
  from block_counts.update_blocks_exact [OF lines fr1 small(2) n this]
  obtain s2 where s2: "update_lines lpart lfull r (unat idx) (unat (drop_bit 6 (a AND 0xfff))) (unat (a AND 63)) n s1 = Inr s2"
      "line_frame r ?P s1 s2" "line_view r s2 = (\<lambda>q. line_view r s1 q + sg * int (overlap 64 off n q))"
    unfolding off64 update_lines_eq [OF keep o(5)] by blast
  have "accounted L' s2"
    unfolding accounted_def
  proof (intro conjI allI impI)
    show "sm_wf s2" using s2(2) by (simp add: line_frame_def)
    fix r' :: nat assume r': "r' < 8"
    note A' = accountedD [OF acc r']
    show "disjoint_ranges (of_range r' L')" "\<forall>x \<in> set (of_range r' L'). fst x + snd x \<le> MAX_PAGE_MAP_ENTRIES * 4096"
      using xs(2-4) A'(2,3) by (cases "r' = r", auto)+
    show "page_view r' s2 = (\<lambda>i. int (bytes_in 4096 (of_range r' L') i))"
      using s1(2,3) s2(2) A'(4) xs(1,4) by (cases "r' = r") (auto simp: line_frame_def page_frame_def)
    show "line_view r' s2 = (\<lambda>q. int (bytes_in 64 (of_range r' L') q))"
      using s2(2,3) lv A'(5) xs(1,4) page_frame_lines [OF s1(2), of r'] by (cases "r' = r") (auto simp: line_frame_def)
  qed
  with s1(1) s2(1) show ?thesis by simp
qed

lemma mallocUpdateObject_accounted:
  assumes acc: "accounted L s" and g: "getPageIndex junk a = (r, idx)" and r: "r < 8" and sz: "sz \<noteq> 0"
  defines "off \<equiv> unat a - range_base r" and "n \<equiv> unat sz"
  assumes fit: "off + n \<le> MAX_PAGE_MAP_ENTRIES * 4096" and new: "disjoint_ranges ((off, n) # of_range r L)"
    and room: "sm_cache_map_bump_ptr s + 64 * card {p \<in> object_pages off n. line_ptr s r p = None} < MAX_CACHE_MAP_ENTRIES"
  shows "\<exists>s'. mallocUpdateObject junk a sz s = Inr s' \<and> accounted ((r, off, n) # L) s'"
proof -
  have n: "0 < n" using sz by (simp add: n_def unat_gt_0)
  have "\<exists>s'. bindR (update_blocks 4096 (\<lambda>i n. update_page r i (PageMapEntry_addUsedBytes n))
        (\<lambda>i. update_page r i PageMapEntry_setFull) (unat idx) (unat (a AND 0xfff)) n s)
      (update_lines (\<lambda>n c. update_cme c (CacheMapEntry_addUsedBytes n)) (\<lambda>c. update_cme c CacheMapEntry_setFull)
        r (unat idx) (unat (drop_bit 6 (a AND 0xfff))) (unat (a AND 63)) n) = Inr s'
    \<and> accounted ((r, off, n) # L) s'"
    unfolding off_def
  proof (rule object_update [OF acc g r n fit [unfolded off_def] room [unfolded off_def]
        page_malloc.block_counts_axioms line_malloc.block_counts_axioms keeps_update_cme keeps_update_cme])
    show "disjoint_ranges (of_range r ((r, unat a - range_base r, n) # L))"
      using new by (simp add: of_range_Cons off_def)
  qed (use accountedD(3) [OF acc r] fit in \<open>auto simp: of_range_Cons bytes_in_def off_def\<close>)
  with g r sz show ?thesis
    by (simp add: mallocUpdateObject_def mallocUpdatePages_def mallocUpdateCacheLines_def n_def config)
qed

lemma live_pages_mapped:
  assumes acc: "accounted L s" and r: "r < 8" and x: "(off, n) \<in> set (of_range r L)" and p: "p \<in> object_pages off n" and n: "0 < n"
  shows "line_ptr s r p \<noteq> None"
proof -
  have p': "off div 4096 \<le> p" "p \<le> (off + n - 1) div 4096" using p by (auto simp: object_pages_def)
  define b where "b = max off (p * 4096)"
  have b: "off \<le> b" "b < off + n" "b div 4096 = p"
    using p' n by (auto simp: b_def max_def)
  let ?q = "b div 64"
  have q: "?q div 64 = p" using b(3) by (simp flip: div_mult2_eq)
  have "0 < overlap 64 off n ?q" using b(1,2) unfolding overlap_def by linarith
  also have "\<dots> \<le> bytes_in 64 (of_range r L) ?q"
    unfolding bytes_in_def using member_le_sum_list [of "overlap 64 off n ?q" "map (\<lambda>x. overlap 64 (fst x) (snd x) ?q) (of_range r L)"] x
    by force
  finally have "line_view r s ?q \<noteq> 0" using accountedD(5) [OF acc r] by simp
  then show ?thesis by (auto simp: line_view_def q split: option.splits)
qed

lemma freeUpdateObject_accounted:
  fixes obj :: ObjStat
  assumes acc: "accounted L s" and g: "getPageIndex junk a = (r, idx)" and r: "r < 8"
  defines "off \<equiv> unat a - range_base r" and "n \<equiv> unat (os_size obj)"
  assumes live: "(r, off, n) \<in> set L" and sz: "os_size obj \<noteq> 0"
  shows "\<exists>s'. freeUpdateObject junk a obj s = Inr s' \<and> accounted (remove1 (r, off, n) L) s'"
proof -
  have n: "0 < n" using sz by (simp add: n_def unat_gt_0)
  have x: "(off, n) \<in> set (of_range r L)" by (rule of_range_mem [OF live])
  have fit: "off + n \<le> MAX_PAGE_MAP_ENTRIES * 4096" using accountedD(3) [OF acc r x] by simp
  have none: "{p \<in> object_pages off n. line_ptr s r p = None} = {}"
    using live_pages_mapped [OF acc r x _ n] by auto
  have room: "sm_cache_map_bump_ptr s + 64 * card {p \<in> object_pages off n. line_ptr s r p = None} < MAX_CACHE_MAP_ENTRIES"
    unfolding none using accountedD(1) [OF acc r] by (simp add: sm_wf_def lines_ok_def)
  have "\<exists>s'. bindR (update_blocks 4096 (\<lambda>i n. update_page r i (PageMapEntry_subUsedBytes n))
        (\<lambda>i. update_page r i PageMapEntry_setEmpty) (unat idx) (unat (a AND 0xfff)) n s)
      (update_lines (free_line_part obj) (free_line_full obj)
        r (unat idx) (unat (drop_bit 6 (a AND 0xfff))) (unat (a AND 63)) n) = Inr s'
    \<and> accounted (remove1 (r, off, n) L) s'"
    unfolding off_def
  proof (rule object_update [OF acc g r n fit [unfolded off_def] room [unfolded off_def]
        page_free.block_counts_axioms line_free.block_counts_axioms keeps_free_line_full keeps_free_line_part])
    show "disjoint_ranges (of_range r (remove1 (r, unat a - range_base r, n) L))"
      using disjoint_ranges_remove1 [OF accountedD(2) [OF acc r]] by (simp add: of_range_remove1)
  qed (use x accountedD(3) [OF acc r] in \<open>auto simp: of_range_remove1 bytes_in_remove1 off_def dest: set_remove1_subset [THEN subsetD]\<close>)
  with g r sz show ?thesis
    by (simp add: freeUpdateObject_def freeUpdatePages_def freeUpdateCacheLines_def n_def config)
qed

lemma accounted_used_bytes:
  assumes "accounted L s" and "r < 8"
  shows "PageMapEntry_getUsedBytes (sm_page_map s r i) =
    int (card ((\<Union>x \<in> set (of_range r L). {fst x..<fst x + snd x}) \<inter> {i * 4096..<i * 4096 + 4096}))"
proof -
  note A = accountedD [OF assms]
  have "sint (pme_num_used_bytes (sm_page_map s r i)) = int (bytes_in 4096 (of_range r L) i)"
    using fun_cong [OF A(4), of i] by (simp add: page_view_def)
  moreover have "bytes_in 4096 (of_range r L) i \<le> 4096" by (rule bytes_in_le [OF A(2)])
  moreover have "bytes_in 4096 (of_range r L) i
      = card ((\<Union>x \<in> set (of_range r L). {fst x..<fst x + snd x}) \<inter> {i * 4096..<i * 4096 + 4096})"
    unfolding bytes_in_def by (rule sum_overlap_card [OF A(2)])
  ultimately show ?thesis by (simp add: PageMapEntry_getUsedBytes_def PAGESIZE_def)
qed

section \<open>Samples\<close>

text \<open>Writing the miss data keeps the state well formed and all counters.\<close>

definition same_counts :: "ShadowMemory \<Rightarrow> ShadowMemory \<Rightarrow> bool" where
  "same_counts s s' \<longleftrightarrow> sm_wf s' \<and> (\<forall>r. page_view r s' = page_view r s \<and> line_view r s' = line_view r s)"

lemma sm_wf_update:
  assumes wf: "sm_wf s" and c: "c < sm_cache_map_bump_ptr s"
    and s': "s' = s\<lparr>sm_cache_map := (sm_cache_map s)(c := e), sm_conflictData := cd,
      sm_numOfCoherencyCaches := k, sm_coherencyCaches := cs\<rparr>"
    and e: "cme_num_used_bytes e = cme_num_used_bytes (sm_cache_map s c)"
    and ok: "conflict_ok cd" "length cs = 32" "k \<le> 32"
    and mono: "\<And>d. listed (unat (cd_numOfCme (sm_conflictData s))) (cd_cme (sm_conflictData s)) d
        \<Longrightarrow> listed (unat (cd_numOfCme cd)) (cd_cme cd) d"
      "\<And>d. listed (unat (sm_numOfCoherencyCaches s)) (map co_cme (sm_coherencyCaches s)) d
        \<Longrightarrow> listed (unat k) (map co_cme cs) d"
    and fl: "flags_ok s' c (cme_misses e)"
  shows "same_counts s s'"
proof -
  have "lines_ok s'" using sm_wfD(3) [OF wf] c by (auto simp: lines_ok_def s')
  moreover have "flags_ok s' d (cme_misses (sm_cache_map s' d))" for d
  proof (cases "d = c")
    case True
    with fl show ?thesis by (simp add: s')
  next
    case False
    with sm_wfD(6) [OF wf, of d] mono [of d] show ?thesis by (auto simp: flags_ok_def s')
  qed
  ultimately have "sm_wf s'" using wf ok by (simp add: sm_wf_def s')
  moreover have "line_view r s' = line_view r s" for r
    by (rule ext) (auto simp: line_view_def s' e split: option.splits)
  moreover have "page_view r s' = page_view r s" for r by (rule ext) (simp add: page_view_def s')
  ultimately show ?thesis by (simp add: same_counts_def)
qed

lemma same_counts_trans: "same_counts s s1 \<Longrightarrow> same_counts s1 s2 \<Longrightarrow> same_counts s s2"
  by (simp add: same_counts_def)

lemma touch_cme [simp]: "co_cme (CoherencyData_touch addr tid d) = co_cme d"
  by (simp add: CoherencyData_touch_def)

lemma note_coherency_miss_ok:
  assumes wf: "sm_wf s" and c: "c < sm_cache_map_bump_ptr s"
  shows "\<exists>s'. note_coherency_miss addr tid c s = Inr s' \<and> same_counts s s'"
proof -
  note W = sm_wfD [OF wf]
  let ?e = "sm_cache_map s c" and ?n = "unat (sm_numOfCoherencyCaches s)"
  have lim: "c < MAX_CACHE_MAP_ENTRIES" using W(3) c by (auto simp: lines_ok_def)
  show ?thesis
  proof (cases "has_bit (cme_misses ?e) COHERENCY_BIT")
    case True
    then have l: "listed ?n (map co_cme (sm_coherencyCaches s)) c" using W(6) [of c] by (simp add: flags_ok_def)
    from find_index_listed [OF this] have i: "coherency_index s c < 32" using W(5) by (simp add: coherency_index_def)
    let ?i = "coherency_index s c"
    let ?d = "CoherencyData_touch addr tid ((sm_coherencyCaches s ! ?i)\<lparr>co_misses := co_misses (sm_coherencyCaches s ! ?i) + 1\<rparr>)"
    have m: "map co_cme ((sm_coherencyCaches s)[?i := ?d]) = map co_cme (sm_coherencyCaches s)"
      using i W(5) by (simp add: map_update list_update_same_conv)
    have "same_counts s (s\<lparr>sm_cache_map := (sm_cache_map s)(c := ?e), sm_conflictData := sm_conflictData s,
        sm_numOfCoherencyCaches := sm_numOfCoherencyCaches s, sm_coherencyCaches := (sm_coherencyCaches s)[?i := ?d]\<rparr>)"
      using W wf by (intro sm_wf_update [OF wf c refl]) (auto simp: m sm_wf_def flags_ok_def)
    with True i W(5) show ?thesis by (simp add: note_coherency_miss_def Let_def)
  next
    case False
    show ?thesis
    proof (cases "sm_numOfCoherencyCaches s < 32")
      case True
      then have n: "?n < 32" by (simp add: word_less_nat_alt)
      then have n1: "unat (sm_numOfCoherencyCaches s + 1) = Suc ?n" by (simp add: unat_add_bound)
      let ?e' = "?e\<lparr>cme_misses := cme_misses ?e OR COHERENCY_BIT\<rparr>"
      let ?d = "CoherencyData_touch addr tid ((sm_coherencyCaches s ! ?n)\<lparr>co_cme := Some c, co_misses := 5\<rparr>)"
      have m: "map co_cme ((sm_coherencyCaches s)[?n := ?d]) = (map co_cme (sm_coherencyCaches s))[?n := Some c]"
        using n W(5) by (simp add: map_update)
      have "same_counts s (s\<lparr>sm_cache_map := (sm_cache_map s)(c := ?e'), sm_conflictData := sm_conflictData s,
          sm_numOfCoherencyCaches := sm_numOfCoherencyCaches s + 1, sm_coherencyCaches := (sm_coherencyCaches s)[?n := ?d]\<rparr>)"
      proof (rule sm_wf_update [OF wf c refl])
        show "sm_numOfCoherencyCaches s + 1 \<le> 32" using n n1 by (simp add: word_le_nat_alt)
      qed (use W n W(6) [of c] listed_append listed_last [of ?n "map co_cme (sm_coherencyCaches s)" c]
          in \<open>auto simp: m n1 flags_ok_def has_bit_or\<close>)
      with True False W(2,5) n lim show ?thesis
        by (simp add: note_coherency_miss_def Let_def update_cme_def)
    next
      case False
      with \<open>\<not> has_bit (cme_misses ?e) COHERENCY_BIT\<close> wf show ?thesis
        by (simp add: note_coherency_miss_def same_counts_def)
    qed
  qed
qed

lemma note_miss_ok:
  assumes wf: "sm_wf s" and c: "c < sm_cache_map_bump_ptr s"
  shows "\<exists>s'. note_miss addr tid c s = Inr s' \<and> same_counts s s'"
proof -
  note W = sm_wfD [OF wf]
  let ?e = "sm_cache_map s c"
  have lim: "c < MAX_CACHE_MAP_ENTRIES" using W(3) c by (auto simp: lines_ok_def)
  obtain m cd where r: "ConflictData_addMiss addr c (cme_misses ?e) (sm_conflictData s) = (m, cd)" by fastforce
  note a = addMiss_spec [OF W(4) r]
  let ?s1 = "s\<lparr>sm_cache_map := (sm_cache_map s)(c := ?e\<lparr>cme_misses := m\<rparr>), sm_conflictData := cd,
    sm_numOfCoherencyCaches := sm_numOfCoherencyCaches s, sm_coherencyCaches := sm_coherencyCaches s\<rparr>"
  have s1: "same_counts s ?s1"
  proof (rule sm_wf_update [OF wf c refl])
    show "flags_ok ?s1 c (cme_misses (?e\<lparr>cme_misses := m\<rparr>))"
      using a(2) [of c] a(3) W(6) [of c] by (auto simp: flags_ok_def has_bit_or)
  qed (use W wf a in \<open>auto simp: sm_wf_def\<close>)
  then have wf1: "sm_wf ?s1" by (simp add: same_counts_def)
  have c1: "c < sm_cache_map_bump_ptr ?s1" using c by simp
  have u: "update_cme c (\<lambda>e. e\<lparr>cme_misses := m\<rparr>) (s\<lparr>sm_conflictData := cd\<rparr>) = Inr ?s1"
    using W(2) lim by (auto simp: update_cme_def intro!: ShadowMemory.equality)
  show ?thesis
  proof (cases "m AND MISS_MASK \<ge> 5")
    case True
    from note_coherency_miss_ok [OF wf1 c1] obtain s2
      where "note_coherency_miss addr tid c ?s1 = Inr s2" "same_counts ?s1 s2" by blast
    with True r u same_counts_trans [OF s1] show ?thesis by (auto simp: note_miss_def)
  next
    case False
    then have low: "m AND MISS_MASK < 5" by simp
    let ?e2 = "?e\<lparr>cme_misses := m + 1\<rparr>"
    let ?s2 = "?s1\<lparr>sm_cache_map := (sm_cache_map ?s1)(c := ?e2), sm_conflictData := cd,
      sm_numOfCoherencyCaches := sm_numOfCoherencyCaches s, sm_coherencyCaches := sm_coherencyCaches s\<rparr>"
    have "same_counts ?s1 ?s2"
    proof (rule sm_wf_update [OF wf1 c1 refl])
      show "flags_ok ?s2 c (cme_misses ?e2)"
        using sm_wfD(6) [OF wf1, of c] miss_increment [OF low] by (simp add: flags_ok_def)
    qed (use W wf a in \<open>auto simp: sm_wf_def\<close>)
    from same_counts_trans [OF s1 this] have "same_counts s ?s2" .
    moreover have "update_cme c (\<lambda>e. e\<lparr>cme_misses := cme_misses e + 1\<rparr>) ?s1 = Inr ?s2"
      using W(2) lim by (simp add: update_cme_def)
    ultimately show ?thesis using False r u by (simp add: note_miss_def)
  qed
qed

lemma doMemoryAccess_ok:
  assumes wf: "sm_wf s" and g: "getPageIndex junk addr = (r, idx)" and ok: "r < 8 \<longrightarrow> unat idx < MAX_PAGE_MAP_ENTRIES"
  shows "\<exists>fs' s'. doMemoryAccess junk addr tid miss (fs, s) = Inr (fs', s') \<and> same_counts s s'"
proof (cases "r = 8")
  case True
  with g wf show ?thesis by (simp add: doMemoryAccess_def same_counts_def config)
next
  case False
  with getPageIndex_range [OF g] have r: "r < 8" by simp
  note W = sm_wfD [OF wf]
  let ?i = "unat idx" and ?j = "unat (drop_bit 6 (addr AND 0xfff))"
  show ?thesis
  proof (cases "line_ptr s r ?i")
    case (Some base)
    have b: "base + 64 \<le> sm_cache_map_bump_ptr s" "sm_cache_map_bump_ptr s < MAX_CACHE_MAP_ENTRIES"
      using W(3) Some by (auto simp: lines_ok_def)
    with object_offsets(5) [OF g r] have c: "base + ?j < sm_cache_map_bump_ptr s" "base + ?j < MAX_CACHE_MAP_ENTRIES" by auto
    from note_miss_ok [OF wf c(1), of addr tid] obtain s'
      where "note_miss addr tid (base + ?j) s = Inr s'" "same_counts s s'" by blast
    with Some c W(1,2) r ok g wf show ?thesis
      by (simp add: doMemoryAccess_def Let_def NUM_ADDRESS_RANGE_def same_counts_def)
  qed (use W(1) r ok g wf in \<open>simp add: doMemoryAccess_def Let_def NUM_ADDRESS_RANGE_def same_counts_def\<close>)
qed

section \<open>Pages and their entries\<close>

lemma same_page_loop:
  assumes "unat a div 4096 = unat b div 4096"
  shows "\<forall>x \<in> set rs. unat x mod 4096 = 0 \<Longrightarrow> fst (getPageIndex_loop a i rs junk) < i + length rs \<Longrightarrow>
    getPageIndex_loop b i rs junk' = getPageIndex_loop a i rs junk"
proof (induction rs arbitrary: i junk junk')
  case (Cons x rs)
  have x: "unat x mod 4096 = 0" using Cons.prems(1) by simp
  then obtain k where k: "unat x = 4096 * k" by (metis mult_div_mod_eq add_0_right)
  have le: "x \<le> b \<longleftrightarrow> x \<le> a" 
    using assms less_eq_div_iff_mult_less_eq [of 4096 k "unat a"] less_eq_div_iff_mult_less_eq [of 4096 k "unat b"]
    by (simp add: word_le_nat_alt k mult.commute)
  have idx: "drop_bit 12 (b - x) = drop_bit 12 (a - x)" if "x \<le> a"
  proof (rule word_unat_eq_iff [THEN iffD2])
    have "unat (drop_bit 12 (y - x)) = unat y div 4096 - k" if "x \<le> y" for y
    proof -
      have "4096 * k \<le> unat y" using that k by (simp add: word_le_nat_alt)
      then have "(unat y - 4096 * k) div 4096 = unat y div 4096 - k" by linarith
      with that show ?thesis by (simp add: unat_drop_bit unat_sub_le k)
    qed
    with that le assms show "unat (drop_bit 12 (b - x)) = unat (drop_bit 12 (a - x))" by simp
  qed
  show ?case using Cons le idx by (auto simp: Let_def split: if_splits)
qed simp

section \<open>Properties\<close>

text \<open>A shadow memory just initialised.\<close>

definition fresh_shadow :: ShadowMemory where
  "fresh_shadow = \<lparr>sm_isInitialized = True, sm_page_map = \<lambda>_ _. \<lparr>pme_num_used_bytes = 0, pme_cache_map_entry = None\<rparr>,
    sm_cache_mapped = True, sm_cache_map = \<lambda>_. \<lparr>cme_misses = 0, cme_num_used_bytes = 0\<rparr>,
    sm_cache_map_bump_ptr = 0, sm_conflictData = ConflictData_zero, sm_numOfCoherencyCaches = 0,
    sm_coherencyCaches = replicate 32 CoherencyData_zero\<rparr>"

lemma fresh_shadow_initialized:
  "ShadowMemory_initialize (\<lambda>_. True) True (fresh_shadow\<lparr>sm_isInitialized := False\<rparr>) = Inr (True, fresh_shadow)"
  by (simp add: ShadowMemory_initialize_def fresh_shadow_def)

lemma fresh_shadow_accounted: "accounted [] fresh_shadow"
  by (auto simp: accounted_def fresh_shadow_def of_range_def bytes_in_def disjoint_ranges_def sm_wf_def lines_ok_def
      flags_ok_def page_view_def line_view_def fun_eq_iff MAX_CACHE_MAP_ENTRIES_def)

lemma sample_address:
  "getPageIndex 0 0x5560000010a0 = (7, 100663297)"
  "unat (0x5560000010a0 :: u64) - range_base 7 = 0x60000010a0"
  by (simp_all add: getPageIndex_def addressRanges_def range_base_def Let_def MAX_PAGE_MAP_ENTRIES_def)

lemma sample_object_live: "\<exists>s. accounted [(7, 0x60000010a0, 100)] s"
proof -
  have "object_pages 0x60000010a0 100 = {100663297}" by (auto simp: object_pages_def)
  then have "card {p \<in> object_pages 0x60000010a0 100. line_ptr fresh_shadow 7 p = None} \<le> 1"
    by (auto intro: order_trans [OF card_mono [of "{100663297}"]])
  then show ?thesis
    using mallocUpdateObject_accounted [OF fresh_shadow_accounted sample_address(1), of 100] sample_address(2)
    by (auto simp: of_range_def disjoint_ranges_def MAX_PAGE_MAP_ENTRIES_def MAX_CACHE_MAP_ENTRIES_def fresh_shadow_def)
qed

text \<open>
  C20: the shadow memory counts an allocation exactly. If the counters stand for a list of disjoint live
  objects and the new object overlaps none of them, lies in one address range and the cache map has room
  for its pages, then \<open>mallocUpdateObject\<close> succeeds, the counters stand for the longer list, and the used
  bytes of a page are the number of bytes live objects have in it.
\<close>

theorem malloc_counts_exactly:
  assumes "accounted L s" and "getPageIndex junk a = (r, idx)" and "r < 8" and "sz \<noteq> 0"
    and "unat a - range_base r + unat sz \<le> MAX_PAGE_MAP_ENTRIES * 4096"
    and "disjoint_ranges ((unat a - range_base r, unat sz) # of_range r L)"
    and "sm_cache_map_bump_ptr s
      + 64 * card {p \<in> object_pages (unat a - range_base r) (unat sz). line_ptr s r p = None} < MAX_CACHE_MAP_ENTRIES"
  shows "\<exists>s'. mallocUpdateObject junk a sz s = Inr s'
    \<and> accounted ((r, unat a - range_base r, unat sz) # L) s'
    \<and> (\<forall>i. PageMapEntry_getUsedBytes (sm_page_map s' r i) =
        int (card ((\<Union>x \<in> set ((unat a - range_base r, unat sz) # of_range r L). {fst x..<fst x + snd x})
          \<inter> {i * 4096..<i * 4096 + 4096})))"
proof -
  obtain s' where s': "mallocUpdateObject junk a sz s = Inr s'" "accounted ((r, unat a - range_base r, unat sz) # L) s'"
    using mallocUpdateObject_accounted [OF assms] by blast
  with accounted_used_bytes [OF s'(2) assms(3)] show ?thesis by (simp add: of_range_Cons)
qed

theorem malloc_counts_exactly_witness:
  "\<exists>s'. mallocUpdateObject 0 0x5560000010a0 100 fresh_shadow = Inr s' \<and> accounted [(7, 0x60000010a0, 100)] s'"
proof -
  have "object_pages 0x60000010a0 100 = {100663297}" by (auto simp: object_pages_def)
  then have "card {p \<in> object_pages 0x60000010a0 100. line_ptr fresh_shadow 7 p = None} \<le> 1"
    by (auto intro: order_trans [OF card_mono [of "{100663297}"]])
  then show ?thesis
    using malloc_counts_exactly [OF fresh_shadow_accounted sample_address(1), of 100] sample_address(2)
    by (auto simp: of_range_def disjoint_ranges_def MAX_PAGE_MAP_ENTRIES_def MAX_CACHE_MAP_ENTRIES_def fresh_shadow_def)
qed

text \<open>
  C17: a free takes back exactly what the allocation added: after \<open>freeUpdateObject\<close> of a live object with
  its recorded size, every page and line counter stands for the remaining objects; in particular a
  free right after its allocation restores all counters.
\<close>

theorem free_counts_exactly:
  assumes "accounted L s" and "getPageIndex junk a = (r, idx)" and "r < 8"
    and "(r, unat a - range_base r, unat (os_size obj)) \<in> set L" and "os_size obj \<noteq> 0"
  shows "\<exists>s'. freeUpdateObject junk a obj s = Inr s'
    \<and> accounted (remove1 (r, unat a - range_base r, unat (os_size obj)) L) s'"
  using freeUpdateObject_accounted [OF assms] .

theorem free_counts_exactly_witness:
  "\<exists>s s'. accounted [(7, 0x60000010a0, 100)] s \<and> freeUpdateObject 0 0x5560000010a0 (newObj 3 0 100) s = Inr s' \<and> accounted [] s'"
proof -
  obtain s where s: "accounted [(7, 0x60000010a0, 100)] s" using sample_object_live by blast
  then show ?thesis
    using free_counts_exactly [OF s sample_address(1), of "newObj 3 0 100"] sample_address(2) by (auto simp: newObj_def)
qed


text \<open>
  a page has one entry: two addresses in a mapped range get the same range and index exactly when they
  lie on the same page.
\<close>

theorem getPageIndex_identifies_pages:
  assumes "fst (getPageIndex junk a) < NUM_ADDRESS_RANGE"
  shows "getPageIndex junk' b = getPageIndex junk a \<longleftrightarrow> unat b div 4096 = unat a div 4096"
proof
  obtain r idx where g: "getPageIndex junk a = (r, idx)" by fastforce
  then have r: "r < 8" using assms by (simp add: config)
  assume "getPageIndex junk' b = getPageIndex junk a"
  with g have g': "getPageIndex junk' b = (r, idx)" by simp
  obtain k where k: "range_base r = 4096 * k" using range_base_aligned [OF r] by (metis mult_div_mod_eq add_0_right)
  have "unat x div 4096 = unat idx + k" if "getPageIndex j x = (r, idx)" for j x
    using getPageIndex_offset(1,2) [OF that r] unfolding k by linarith
  from this [OF g] this [OF g'] show "unat b div 4096 = unat a div 4096" by simp
next
  assume "unat b div 4096 = unat a div 4096"
  moreover have "\<forall>x \<in> set addressRanges. unat x mod 4096 = 0" by (simp add: addressRanges_def)
  ultimately show "getPageIndex junk' b = getPageIndex junk a"
    using same_page_loop [of a b addressRanges 0 junk junk'] assms
    by (simp add: getPageIndex_def config) (simp add: addressRanges_def)
qed

theorem getPageIndex_identifies_pages_witness:
  "getPageIndex 5 0x556000001fff = getPageIndex 0 0x5560000010a0"
  using getPageIndex_identifies_pages [of 0 "0x5560000010a0" 5 "0x556000001fff"] sample_address(1) by (simp add: config)



text \<open>
  C24: \<open>cleanupPages\<close> does not test for an address outside all ranges, as the other entry points do: then
  the range it indexes \<open>page_map_begin\<close> with is one past the array.
\<close>

theorem cleanup_outside_ranges_is_out_of_bounds:
  assumes "fst (getPageIndex junk addr) = NUM_ADDRESS_RANGE" and "PAGESIZE \<le> unat (alignup len (of_nat PAGESIZE))"
  shows "cleanupPages junk addr len s = Inl OutOfBounds"
proof -
  obtain n where "unat (alignup len (of_nat PAGESIZE)) div PAGESIZE = Suc n"
    using assms(2) by (metis PAGESIZE_def div_greater_zero_iff gr0_implies_Suc zero_less_numeral)
  with assms(1) show ?thesis
    by (auto simp: cleanupPages_def PageMapEntry_clear_def split: prod.splits)
qed

theorem cleanup_outside_ranges_is_out_of_bounds_witness:
  "cleanupPages 0 0x400000000000 5000 fresh_shadow = Inl OutOfBounds"
proof (rule cleanup_outside_ranges_is_out_of_bounds)
  show "fst (getPageIndex 0 0x400000000000) = NUM_ADDRESS_RANGE"
    by (simp add: getPageIndex_def addressRanges_def Let_def config)
  show "PAGESIZE \<le> unat (alignup 5000 (of_nat PAGESIZE))" by (simp add: alignup_def config)
qed

end
