(* ===== verification/Spinlock.thy ===== *)
theory Spinlock
  imports ShadowMemory_Correct
begin

text \<open>
  \<^verbatim>\<open>spinlock.hh\<close> as a step relation on the threads that use one lock, with mutual exclusion as its
  invariant, and one place of \<^verbatim>\<open>shadowmemory.cpp\<close> where the lock does not cover what it should: the
  coherency slot is flagged in the cache line before it is filled in.
\<close>

section \<open>The lock\<close>

text \<open>
  A thread is outside, in the \<open>while\<close> loop of \<open>lock()\<close>, or between \<open>lock()\<close> and \<open>unlock()\<close>. Each step is
  one atomic access: \<open>__atomic_exchange_n\<close> or \<open>__atomic_store_n\<close>.
\<close>

datatype phase = Outside | Spinning | Holding

record spinlock =
  sl_lock :: bool
  sl_phase :: "nat \<Rightarrow> phase"

definition spinlock_init :: spinlock where
  "spinlock_init = \<lparr>sl_lock = False, sl_phase = \<lambda>_. Outside\<rparr>"

definition spinlock_exchange :: "nat \<Rightarrow> spinlock \<Rightarrow> spinlock" where
  "spinlock_exchange t s = s\<lparr>sl_lock := True,
    sl_phase := (sl_phase s)(t := if sl_lock s then Spinning else Holding)\<rparr>"

definition spinlock_unlock :: "nat \<Rightarrow> spinlock \<Rightarrow> spinlock" where
  "spinlock_unlock t s = s\<lparr>sl_lock := False, sl_phase := (sl_phase s)(t := Outside)\<rparr>"

inductive spinlock_step :: "spinlock \<Rightarrow> spinlock \<Rightarrow> bool" where
  call: "sl_phase s t = Outside \<Longrightarrow> spinlock_step s (s\<lparr>sl_phase := (sl_phase s)(t := Spinning)\<rparr>)"
| exchange: "sl_phase s t = Spinning \<Longrightarrow> spinlock_step s (spinlock_exchange t s)"
| unlock: "sl_phase s t = Holding \<Longrightarrow> spinlock_step s (spinlock_unlock t s)"

inductive_cases spinlock_stepE: "spinlock_step s s'"

definition spinlock_inv :: "spinlock \<Rightarrow> bool" where
  "spinlock_inv s \<longleftrightarrow> (sl_lock s \<longleftrightarrow> (\<exists>t. sl_phase s t = Holding))
    \<and> (\<forall>t u. sl_phase s t = Holding \<and> sl_phase s u = Holding \<longrightarrow> t = u)"

lemma spinlock_inv_init: "spinlock_inv spinlock_init"
  by (simp add: spinlock_inv_def spinlock_init_def)

lemma spinlock_inv_step: "spinlock_step s s' \<Longrightarrow> spinlock_inv s \<Longrightarrow> spinlock_inv s'"
proof (erule spinlock_stepE)
  fix t assume inv: "spinlock_inv s" and "s' = s\<lparr>sl_phase := (sl_phase s)(t := Spinning)\<rparr>" "sl_phase s t = Outside"
  then show "spinlock_inv s'" by (auto simp: spinlock_inv_def) (metis phase.distinct(3))
next
  fix t assume inv: "spinlock_inv s" and "s' = spinlock_exchange t s" "sl_phase s t = Spinning"
  then show "spinlock_inv s'" by (auto simp: spinlock_inv_def spinlock_exchange_def) (metis phase.distinct(5))
next
  fix t assume inv: "spinlock_inv s" and "s' = spinlock_unlock t s" "sl_phase s t = Holding"
  then show "spinlock_inv s'" by (auto simp: spinlock_inv_def spinlock_unlock_def)
qed

lemma spinlock_reachable_inv: "spinlock_step\<^sup>*\<^sup>* spinlock_init s \<Longrightarrow> spinlock_inv s"
  by (induction rule: rtranclp_induct) (auto intro: spinlock_inv_init spinlock_inv_step)

section \<open>Claiming a coherency slot\<close>

text \<open>
  The slow path of \<open>doMemoryAccess\<close> in the order of its shared writes: take a slot under the lock, set the
  flag in the line, then write the line into the slot.
\<close>

definition coherency_claim :: "ShadowMemory \<Rightarrow> nat \<times> ShadowMemory" where
  "coherency_claim s = (unat (sm_numOfCoherencyCaches s),
    s\<lparr>sm_numOfCoherencyCaches := sm_numOfCoherencyCaches s + 1\<rparr>)"

definition coherency_flag :: "nat \<Rightarrow> ShadowMemory \<Rightarrow> crash + ShadowMemory" where
  "coherency_flag c = update_cme c (\<lambda>e. e\<lparr>cme_misses := cme_misses e OR COHERENCY_BIT\<rparr>)"

definition coherency_fill :: "nat \<Rightarrow> nat \<Rightarrow> ShadowMemory \<Rightarrow> ShadowMemory" where
  "coherency_fill c i s = s\<lparr>sm_coherencyCaches := (sm_coherencyCaches s)[i :=
    (sm_coherencyCaches s ! i)\<lparr>co_cme := Some c, co_misses := 5\<rparr>]\<rparr>"

text \<open>Run without interruption, the three writes are the path of the model.\<close>

lemma coherency_steps_eq:
  assumes "\<not> has_bit (cme_misses (sm_cache_map s c)) COHERENCY_BIT" and "sm_numOfCoherencyCaches s < 32"
    and "length (sm_coherencyCaches s) = 32"
  shows "note_coherency_miss addr tid c s =
    (let (i, s) = coherency_claim s in bindR (coherency_flag c s) (\<lambda>s.
       let s = coherency_fill c i s in
       Inr (s\<lparr>sm_coherencyCaches := (sm_coherencyCaches s)[i := CoherencyData_touch addr tid (sm_coherencyCaches s ! i)]\<rparr>)))"
  using assms
  by (auto simp: note_coherency_miss_def coherency_claim_def coherency_flag_def coherency_fill_def Let_def
      update_cme_def word_less_nat_alt intro!: ShadowMemory.equality)

lemma find_index_absent: "n \<le> length xs \<Longrightarrow> Some c \<notin> set (take n xs) \<Longrightarrow> find_index n xs c = n"
  by (induction n xs c rule: find_index.induct) auto

section \<open>Properties\<close>

text \<open>
  C26: the spin lock excludes: in every state that any interleaving of any number of threads can reach, at
  most one thread is between \<open>lock()\<close> and \<open>unlock()\<close>, and the lock word is set exactly while one is.
\<close>

theorem spinlock_mutual_exclusion:
  assumes "spinlock_step\<^sup>*\<^sup>* spinlock_init s"
  shows "(sl_phase s t = Holding \<and> sl_phase s u = Holding \<longrightarrow> t = u) \<and> (sl_lock s \<longleftrightarrow> (\<exists>t. sl_phase s t = Holding))"
  using spinlock_reachable_inv [OF assms] by (auto simp: spinlock_inv_def)

theorem spinlock_mutual_exclusion_witness:
  "\<exists>s. spinlock_step\<^sup>*\<^sup>* spinlock_init s \<and> sl_phase s 3 = Holding \<and> sl_phase s 4 = Spinning \<and> sl_lock s"
proof -
  let ?s1 = "spinlock_init\<lparr>sl_phase := (sl_phase spinlock_init)(3 := Spinning)\<rparr>"
  let ?s2 = "spinlock_exchange 3 ?s1"
  let ?s3 = "?s2\<lparr>sl_phase := (sl_phase ?s2)(4 := Spinning)\<rparr>"
  have "spinlock_step spinlock_init ?s1" by (rule call) (simp add: spinlock_init_def)
  moreover have "spinlock_step ?s1 ?s2" by (rule exchange) simp
  moreover have "spinlock_step ?s2 ?s3" by (rule call) (simp add: spinlock_exchange_def spinlock_init_def)
  ultimately have r: "spinlock_step\<^sup>*\<^sup>* spinlock_init ?s3" by auto
  have h: "sl_phase ?s3 3 = Holding \<and> sl_phase ?s3 4 = Spinning" by (simp add: spinlock_exchange_def spinlock_init_def)
  with spinlock_mutual_exclusion [OF r, of 3 3] r show ?thesis by blast
qed

text \<open>
  C40: no deadlock: in every reachable state a thread that spins can get the lock in at most two steps, one in
  which the holder, if there is one, unlocks, and one exchange of its own; and while another thread holds the
  lock its exchange changes nothing.
\<close>

theorem spinlock_waiter_can_get_the_lock:
  assumes "spinlock_step\<^sup>*\<^sup>* spinlock_init s" and "sl_phase s t = Spinning"
  shows "(\<exists>s1. (s1 = s \<or> (\<exists>u. sl_phase s u = Holding \<and> s1 = spinlock_unlock u s \<and> spinlock_step s s1))
        \<and> spinlock_step s1 (spinlock_exchange t s1) \<and> sl_phase (spinlock_exchange t s1) t = Holding)
    \<and> (sl_lock s \<longrightarrow> spinlock_exchange t s = s)"
proof
  have inv: "spinlock_inv s" by (rule spinlock_reachable_inv [OF assms(1)])
  show "sl_lock s \<longrightarrow> spinlock_exchange t s = s"
    using assms(2) by (auto simp: spinlock_exchange_def fun_eq_iff intro!: spinlock.equality)
  show "\<exists>s1. (s1 = s \<or> (\<exists>u. sl_phase s u = Holding \<and> s1 = spinlock_unlock u s \<and> spinlock_step s s1))
      \<and> spinlock_step s1 (spinlock_exchange t s1) \<and> sl_phase (spinlock_exchange t s1) t = Holding"
  proof (cases "sl_lock s")
    case True
    then obtain u where u: "sl_phase s u = Holding" using inv by (auto simp: spinlock_inv_def)
    then have "u \<noteq> t" using assms(2) by auto
    then have "sl_phase (spinlock_unlock u s) t = Spinning" using assms(2) by (simp add: spinlock_unlock_def)
    moreover have "sl_phase (spinlock_exchange t (spinlock_unlock u s)) t = Holding"
      by (simp add: spinlock_exchange_def spinlock_unlock_def)
    ultimately show ?thesis using u unlock exchange by blast
  next
    case False
    then have "sl_phase (spinlock_exchange t s) t = Holding" by (simp add: spinlock_exchange_def)
    then show ?thesis using assms(2) exchange by blast
  qed
qed

theorem spinlock_waiter_can_get_the_lock_witness:
  "\<exists>s1. spinlock_step s1 (spinlock_exchange 3 s1) \<and> sl_phase (spinlock_exchange 3 s1) 3 = Holding"
proof -
  let ?s = "spinlock_init\<lparr>sl_phase := (sl_phase spinlock_init)(3 := Spinning)\<rparr>"
  have "spinlock_step spinlock_init ?s" by (rule call) (simp add: spinlock_init_def)
  then have "spinlock_step\<^sup>*\<^sup>* spinlock_init ?s" by blast
  from spinlock_waiter_can_get_the_lock [OF this, of 3] show ?thesis by auto
qed



end
