(* ===== verification/ThreadLocalStatus.thy ===== *)
theory ThreadLocalStatus
  imports Structs
begin

text \<open>
  The per-thread counters and the thread counts of \<^verbatim>\<open>src_light/threadlocalstatus.h\<close> and
  \<^verbatim>\<open>threadlocalstatus.cpp\<close>. The members shared by all threads are the record \<open>ThreadCounts\<close>; the
  \<open>thread_local\<close> ones are the record \<open>ThreadLocalStatus\<close>, one per thread. The lock around each count
  update is that of \<open>Spinlock\<close>; here each update is one step.

  \<open>runningThreadIndex\<close> is a \<open>short\<close> that gets an \<open>unsigned short\<close>: the same sixteen bits, read as a
  signed number wherever it indexes an array.
\<close>

record ThreadCounts =
  totalNumOfThread :: u16
  totalNumOfRunningThread :: u16

record ThreadLocalStatus =
  runningThreadIndex :: "16 word"
  tl_numOfSampledCountingFunctions :: "u32 list"
  tl_cycles :: "u64 list"
  tl_overviewLockData :: "OverviewLockData list"
  tl_systemCallData :: "SystemCallData list list"
  tl_friendlinessStatus :: FriendlinessStatus
  stackBottom :: u64

definition OverviewLockData_zero :: OverviewLockData where
  "OverviewLockData_zero = \<lparr>ov_numOfLocks = 0, ov_numOfCalls = replicate 24 0,
    ov_numOfCallsWithContentions = replicate 24 0, ov_totalCycles = replicate 24 0\<rparr>"

definition SystemCallData_zero :: SystemCallData where
  "SystemCallData_zero = \<lparr>sc_num = 0, sc_cycles = 0\<rparr>"

definition FriendlinessStatus_zero :: FriendlinessStatus where
  "FriendlinessStatus_zero = \<lparr>numOfSampling = 0, totalMemoryUsageOfSampledPages = 0,
    totalMemoryUsageOfSampledCacheLines = 0\<rparr>"

text \<open>Thread-local statics start zeroed.\<close>

definition ThreadLocalStatus_zero :: ThreadLocalStatus where
  "ThreadLocalStatus_zero = \<lparr>runningThreadIndex = 0,
    tl_numOfSampledCountingFunctions = replicate NUM_OF_ALLOCATIONTYPEFOROUTPUTDATA 0,
    tl_cycles = replicate NUM_OF_ALLOCATIONTYPEFOROUTPUTDATA 0,
    tl_overviewLockData = replicate NUM_OF_LOCKTYPES OverviewLockData_zero,
    tl_systemCallData =
      replicate NUM_OF_SYSTEMCALLTYPES (replicate NUM_OF_ALLOCATIONTYPEFOROUTPUTDATA SystemCallData_zero),
    tl_friendlinessStatus = FriendlinessStatus_zero, stackBottom = 0\<rparr>"

definition getARunningThreadIndex ::
  "ThreadCounts \<Rightarrow> ThreadLocalStatus \<Rightarrow> ThreadCounts \<times> ThreadLocalStatus" where
  "getARunningThreadIndex g t =
    (g\<lparr>totalNumOfThread := totalNumOfThread g + 1\<rparr>, t\<lparr>runningThreadIndex := totalNumOfThread g\<rparr>)"

definition addARunningThread :: "ThreadCounts \<Rightarrow> ThreadCounts" where
  "addARunningThread g = g\<lparr>totalNumOfRunningThread := totalNumOfRunningThread g + 1\<rparr>"

definition subARunningThread :: "ThreadCounts \<Rightarrow> ThreadCounts" where
  "subARunningThread g = g\<lparr>totalNumOfRunningThread := totalNumOfRunningThread g - 1\<rparr>"

definition isCurrentlySingleThread :: "ThreadCounts \<Rightarrow> bool" where
  "isCurrentlySingleThread g \<longleftrightarrow> totalNumOfRunningThread g \<le> 1"

definition isCurrentlyParallelThread :: "ThreadCounts \<Rightarrow> bool" where
  "isCurrentlyParallelThread g \<longleftrightarrow> totalNumOfRunningThread g > 1"

definition fromSerialToParallel :: "ThreadCounts \<Rightarrow> bool" where
  "fromSerialToParallel g \<longleftrightarrow> totalNumOfRunningThread g = 2"

definition fromParallelToSerial :: "ThreadCounts \<Rightarrow> bool" where
  "fromParallelToSerial g \<longleftrightarrow> totalNumOfRunningThread g = 1"

text \<open>\<open>dis(random)\<close> is uniform on 0 to 99; the number drawn is an argument.\<close>

definition randomProcessForCountingEvent :: "nat \<Rightarrow> bool" where
  "randomProcessForCountingEvent drawn \<longleftrightarrow> drawn = 0"

definition setStackBottom :: "u64 \<Rightarrow> ThreadLocalStatus \<Rightarrow> ThreadLocalStatus" where
  "setStackBottom addressOfArgument t = t\<lparr>stackBottom := addressOfArgument\<rparr>"

definition ThreadLocalStatus_getStackOffset :: "u64 \<Rightarrow> ThreadLocalStatus \<Rightarrow> u64" where
  "ThreadLocalStatus_getStackOffset stackTop t = stackBottom t - stackTop"

text \<open>An array indexed by the \<open>short\<close>: a negative index or one past the end is out of bounds.\<close>

definition thread_slot :: "nat \<Rightarrow> ThreadLocalStatus \<Rightarrow> crash + nat" where
  "thread_slot n t =
    (let i = sint (runningThreadIndex t) in
     if 0 \<le> i \<and> i < int n then Inr (nat i) else Inl OutOfBounds)"

lemma thread_slot_Inr:
  "thread_slot n t = Inr i \<Longrightarrow> i < n" "n \<le> 32768 \<Longrightarrow> thread_slot n t = Inr i \<Longrightarrow> i = unat (runningThreadIndex t)"
proof -
  assume "thread_slot n t = Inr i"
  then have i: "0 \<le> sint (runningThreadIndex t)" "sint (runningThreadIndex t) < int n"
      "i = nat (sint (runningThreadIndex t))"
    by (auto simp: thread_slot_def Let_def split: if_splits)
  then show "i < n" by auto
  assume "n \<le> 32768"
  have "uint (runningThreadIndex t) = sint (runningThreadIndex t) mod 65536"
    by (simp add: uint_sint take_bit_eq_mod)
  then have "uint (runningThreadIndex t) = sint (runningThreadIndex t)"
    using i(1,2) \<open>n \<le> 32768\<close> by (simp only: mod_pos_pos_trivial)
  then show "i = unat (runningThreadIndex t)" using i(3) by (simp add: unat_eq_nat_uint)
qed

lemma thread_slot_small:
  assumes "unat (runningThreadIndex t) < n" and "n \<le> 32768"
  shows "thread_slot n t = Inr (unat (runningThreadIndex t))"
proof -
  have u: "0 \<le> uint (runningThreadIndex t)" "uint (runningThreadIndex t) < int n"
    using assms(1) by (simp, metis uint_nat of_nat_less_iff)
  have "sint (runningThreadIndex t) = signed_take_bit 15 (uint (runningThreadIndex t))"
    by (simp add: sint_uint)
  also have "... = uint (runningThreadIndex t)"
    using u assms(2) order_trans [OF _ u(1), of "- 32768"] by (intro signed_take_bit_int_eq_self) simp_all
  finally show ?thesis using u by (simp add: thread_slot_def)
qed

section \<open>Shape\<close>

definition ThreadLocalStatus_wf :: "ThreadLocalStatus \<Rightarrow> bool" where
  "ThreadLocalStatus_wf t \<longleftrightarrow> cells (tl_numOfSampledCountingFunctions t) \<and> cells (tl_cycles t)
    \<and> length (tl_overviewLockData t) = NUM_OF_LOCKTYPES
    \<and> (\<forall>d \<in> set (tl_overviewLockData t). OverviewLockData_wf d)
    \<and> length (tl_systemCallData t) = NUM_OF_SYSTEMCALLTYPES
    \<and> (\<forall>d \<in> set (tl_systemCallData t). cells d)"

lemma ThreadLocalStatus_zero_wf: "ThreadLocalStatus_wf ThreadLocalStatus_zero"
  by (simp add: ThreadLocalStatus_wf_def ThreadLocalStatus_zero_def cells_def OverviewLockData_wf_def
      OverviewLockData_zero_def config)

section \<open>Creating and joining threads\<close>

text \<open>
  The count stands for one running thread plus those created and not yet joined, as long as fewer
  than 65535 of them are.
\<close>

fun create_join :: "bool list \<Rightarrow> ThreadCounts \<Rightarrow> ThreadCounts" where
  "create_join [] g = g"
| "create_join (c # cs) g = create_join cs (if c then addARunningThread g else subARunningThread g)"

fun never_negative :: "nat \<Rightarrow> bool list \<Rightarrow> bool" where
  "never_negative n [] = True"
| "never_negative n (c # cs) = (if c then n + 1 < 65535 \<and> never_negative (n + 1) cs else 0 < n \<and> never_negative (n - 1) cs)"

fun unjoined :: "nat \<Rightarrow> bool list \<Rightarrow> nat" where
  "unjoined n [] = n"
| "unjoined n (c # cs) = unjoined (if c then n + 1 else n - 1) cs"

lemma create_join_count:
  assumes "never_negative n cs" and "n < 65535" and "unat (totalNumOfRunningThread g) = n + 1"
  shows "unat (totalNumOfRunningThread (create_join cs g)) = unjoined n cs + 1"
  using assms
proof (induction n cs arbitrary: g rule: never_negative.induct)
  case (2 n c cs)
  show ?case
  proof (cases c)
    case True
    have "unat (totalNumOfRunningThread (addARunningThread g)) = (n + 1) + 1"
      using 2(3,5) True by (auto simp: addARunningThread_def unat_add_bound)
    with 2 True show ?thesis by auto
  next
    case False
    have "1 \<le> totalNumOfRunningThread g" using 2(5) by (simp add: word_le_nat_alt)
    then have "unat (totalNumOfRunningThread (subARunningThread g)) = (n - 1) + 1"
      using 2(3,5) False by (auto simp: subARunningThread_def unat_sub_le)
    with 2 False show ?thesis by auto
  qed
qed simp

end
