(* ===== verification/ProgramStatus.thy ===== *)
theory ProgramStatus
  imports DefineValues
begin

text \<open>
  The profiler's life-cycle flags, the allocator's size thresholds and the file they are read from
  (\<^verbatim>\<open>src_light/programstatus.h\<close>, \<^verbatim>\<open>programstatus.cpp\<close>). A file is the list of the lines
  \<open>getline\<close> returns, a line a list of characters without NUL; opening the file and the output file
  are I/O. \<open>strtok\<close> and \<open>atoi\<close> of the C library are modelled: \<open>strtok\<close> with its one delimiter,
  returning the token and the rest of the line it keeps; \<open>atoi\<close> as \<open>strtol\<close> in base ten, which
  saturates at the range of \<open>long\<close>, cut down to \<open>int\<close>.
\<close>

section \<open>Tokens and numbers\<close>

definition strtok :: "char \<Rightarrow> string \<Rightarrow> (string \<times> string) option" where
  "strtok d s =
    (let s = dropWhile (\<lambda>c. c = d) s in
     if s = [] then None else Some (takeWhile (\<lambda>c. c \<noteq> d) s, tl (dropWhile (\<lambda>c. c \<noteq> d) s)))"

definition is_digit :: "char \<Rightarrow> bool" where
  "is_digit c \<longleftrightarrow> 48 \<le> (of_char c :: nat) \<and> (of_char c :: nat) \<le> 57"

definition is_space :: "char \<Rightarrow> bool" where
  "is_space c \<longleftrightarrow> (of_char c :: nat) = 32 \<or> 9 \<le> (of_char c :: nat) \<and> (of_char c :: nat) \<le> 13"

definition digits_value :: "string \<Rightarrow> int" where
  "digits_value s = foldl (\<lambda>n c. 10 * n + (int (of_char c) - 48)) 0 s"

definition strtol10 :: "string \<Rightarrow> int" where
  "strtol10 s =
    (let s = dropWhile is_space s;
         (neg, s) = (case s of c # t \<Rightarrow> if c = CHR ''-'' then (True, t) else if c = CHR ''+'' then (False, t)
                       else (False, s) | [] \<Rightarrow> (False, s));
         v = digits_value (takeWhile is_digit s)
     in if neg then max (- v) (- (2 ^ 63)) else min v (2 ^ 63 - 1))"

definition atoi :: "string \<Rightarrow> u32" where
  "atoi s = word_of_int (strtol10 s)"

section \<open>State\<close>

text \<open>\<open>profilerInitialized\<close> is \<open>thread_local\<close>: each thread has its own flag, initially false.\<close>

record ThreadFlags =
  profilerInitialized :: bool

record ProgramStatus =
  beginConclusion :: bool
  middleObjectThreshold :: u16
  largeObjectThreshold :: u32

definition ProgramStatus_zero :: ProgramStatus where
  "ProgramStatus_zero = \<lparr>beginConclusion = False, middleObjectThreshold = 0, largeObjectThreshold = 0\<rparr>"

definition setProfilerInitializedTrue :: "ThreadFlags \<Rightarrow> ThreadFlags" where
  "setProfilerInitializedTrue f = f\<lparr>profilerInitialized := True\<rparr>"

definition setBeginConclusionTrue :: "ProgramStatus \<Rightarrow> ProgramStatus" where
  "setBeginConclusionTrue p = p\<lparr>beginConclusion := True\<rparr>"

definition profilerNotInitialized :: "ThreadFlags \<Rightarrow> bool" where
  "profilerNotInitialized f \<longleftrightarrow> \<not> profilerInitialized f"

definition conclusionHasStarted :: "ProgramStatus \<Rightarrow> bool" where
  "conclusionHasStarted p \<longleftrightarrow> beginConclusion p"

text \<open>\<open>strcmp\<close> of an unset environment variable reads through a null pointer.\<close>

definition getInputInfoFileName :: "string option \<Rightarrow> crash + string" where
  "getInputInfoFileName ALLOCATOR =
    (case ALLOCATOR of
       None \<Rightarrow> Inl NullPointer
     | Some name \<Rightarrow>
         if name = ''libc228'' \<or> name = ''pthread'' then Inr ''/home/jinzhou/mmprof/info/libc228.info''
         else if name = ''libc221'' then Inr ''/home/jinzhou/mmprof/info/libc221.info''
         else if name = ''hoard'' then Inr ''/home/jinzhou/mmprof/info/libhoard.info''
         else if name = ''jemalloc'' then Inr ''/home/jinzhou/mmprof/info/libjemalloc.info''
         else if name = ''tcmalloc'' then Inr ''/home/jinzhou/mmprof/info/libtcmalloc.info''
         else if name = ''dieharder'' then Inr ''/home/jinzhou/mmprof/info/libdieharder.info''
         else if name = ''omalloc'' then Inr ''/home/jinzhou/mmprof/info/libomalloc.info''
         else if name = ''numalloc'' then Inr ''/home/jinzhou/mmprof/info/libnumalloc.info''
         else Inl (Aborted ''Info File Location Unknown''))"

text \<open>
  The two readers get the first token of the line and the rest of it; each calls \<open>strtok(NULL, " ")\<close>
  only when the token is its keyword, and \<open>atoi\<close> of the null pointer \<open>strtok\<close> returns at the end of
  the line crashes.
\<close>

definition read_atoi :: "string \<Rightarrow> crash + (u32 \<times> string)" where
  "read_atoi rest =
    (case strtok (CHR '' '') rest of None \<Rightarrow> Inl NullPointer | Some (t, rest) \<Rightarrow> Inr (atoi t, rest))"

definition readMiddleObjectThresholdFromInfo ::
  "string \<Rightarrow> string \<Rightarrow> ProgramStatus \<Rightarrow> crash + (string \<times> ProgramStatus)" where
  "readMiddleObjectThresholdFromInfo token rest p =
    (if token = ''middle_object_threshold''
     then bindR (read_atoi rest) (\<lambda>(v, rest). Inr (rest, p\<lparr>middleObjectThreshold := ucast v\<rparr>))
     else Inr (rest, p))"

definition readLargeObjectThresholdFromInfo ::
  "string \<Rightarrow> string \<Rightarrow> ProgramStatus \<Rightarrow> crash + (string \<times> ProgramStatus)" where
  "readLargeObjectThresholdFromInfo token rest p =
    (if token = ''large_object_threshold''
     then bindR (read_atoi rest) (\<lambda>(v, rest). Inr (rest, p\<lparr>largeObjectThreshold := v\<rparr>))
     else Inr (rest, p))"

fun readInputInfoFile :: "string list \<Rightarrow> ProgramStatus \<Rightarrow> crash + ProgramStatus" where
  "readInputInfoFile [] p = Inr p"
| "readInputInfoFile (line # ls) p =
    (if line = [] then Inr p else
     bindR
       (case strtok (CHR '' '') line of
          None \<Rightarrow> Inr p
        | Some (token, rest) \<Rightarrow>
            bindR (readMiddleObjectThresholdFromInfo token rest p) (\<lambda>(rest, p).
            bindR (readLargeObjectThresholdFromInfo token rest p) (\<lambda>(rest, p). Inr p)))
       (readInputInfoFile ls))"

definition hasMiddleObjectThreshold :: "ProgramStatus \<Rightarrow> bool" where
  "hasMiddleObjectThreshold p \<longleftrightarrow>
    0 < middleObjectThreshold p \<and> ucast (middleObjectThreshold p) < largeObjectThreshold p"

definition getObjectSizeType :: "ProgramStatus \<Rightarrow> u32 \<Rightarrow> ObjectSizeType" where
  "getObjectSizeType p sz =
    (if sz > largeObjectThreshold p then LARGE
     else if middleObjectThreshold p \<noteq> 0 \<and> sz \<ge> ucast (middleObjectThreshold p) then MEDIUM
     else SMALL)"

text \<open>What \<open>openInputInfoFile\<close> does with the files of a file system.\<close>

definition openInputInfoFile ::
  "(string \<Rightarrow> string list option) \<Rightarrow> string option \<Rightarrow> ProgramStatus \<Rightarrow> crash + ProgramStatus" where
  "openInputInfoFile files ALLOCATOR p =
    bindR (getInputInfoFileName ALLOCATOR) (\<lambda>name.
      case files name of
        None \<Rightarrow> Inl (Aborted ''Failed to open allocator info file'')
      | Some ls \<Rightarrow> readInputInfoFile ls p)"

section \<open>Decimal numbers\<close>

text \<open>The decimal numeral of a number, as \<^verbatim>\<open>info/*.info\<close> and \<open>%u\<close> write it.\<close>

function decimal :: "nat \<Rightarrow> string" where
  "decimal n = (if n < 10 then [char_of (48 + n)] else decimal (n div 10) @ [char_of (48 + n mod 10)])"
  by pat_completeness auto
termination by (relation "measure id") auto

declare decimal.simps [simp del]

lemma digit_char: "d < 10 \<Longrightarrow> (of_char (char_of (48 + d)) :: nat) = 48 + d"
  by (simp add: of_char_of)

lemma decimal_digits: "c \<in> set (decimal n) \<Longrightarrow> is_digit c"
proof (induction n rule: decimal.induct)
  case (1 n)
  have "n mod 10 < 10" by simp
  from 1 digit_char [OF this] digit_char [of n] show ?case
    by (subst (asm) decimal.simps) (auto simp: is_digit_def split: if_splits)
qed

lemma decimal_value: "digits_value (decimal n) = int n"
proof (induction n rule: decimal.induct)
  case (1 n)
  have "n mod 10 < 10" by simp
  from digit_char [OF this] have m: "(of_char (char_of (48 + n mod 10)) :: nat) = 48 + n mod 10" .
  show ?case
  proof (cases "n < 10")
    case True
    then show ?thesis using digit_char [OF True] by (subst decimal.simps) (simp add: digits_value_def)
  next
    case False
    have "digits_value (decimal n) = 10 * digits_value (decimal (n div 10)) + int (n mod 10)"
      using m by (subst decimal.simps) (simp add: digits_value_def False)
    also have "... = 10 * int (n div 10) + int (n mod 10)" using 1 False by simp
    also have "... = int n" by presburger
    finally show ?thesis .
  qed
qed

lemma decimal_not_Nil: "decimal n \<noteq> []"
  by (subst decimal.simps) auto

lemma digit_not_special:
  "is_digit c \<Longrightarrow> \<not> is_space c" "is_digit c \<Longrightarrow> c \<noteq> CHR ''-''" "is_digit c \<Longrightarrow> c \<noteq> CHR ''+''"
  "is_digit c \<Longrightarrow> c \<noteq> CHR '' ''"
  by (auto simp: is_digit_def is_space_def)

lemma strtol10_decimal:
  assumes "int n < 2 ^ 63" and "\<And>c r. rest = c # r \<Longrightarrow> \<not> is_digit c"
  shows "strtol10 (decimal n @ rest) = int n"
proof -
  obtain c ds where d: "decimal n = c # ds" using decimal_not_Nil by (cases "decimal n") auto
  then have c: "is_digit c" using decimal_digits [of c n] by simp
  have "takeWhile is_digit (decimal n @ rest) = decimal n"
    using decimal_digits assms(2) by (cases rest) (auto simp: takeWhile_append2)
  with c d assms(1) digit_not_special [OF c] decimal_value [of n] show ?thesis
    by (simp add: strtol10_def)
qed

lemma strtok_word:
  assumes "w \<noteq> []" and "\<And>c. c \<in> set w \<Longrightarrow> c \<noteq> d"
  shows "strtok d (w @ d # rest) = Some (w, rest)" "strtok d w = Some (w, [])"
proof -
  have "hd w \<noteq> d" using assms by simp
  then have dw: "dropWhile (\<lambda>c. c = d) (w @ r) = w @ r" for r using assms(1) by (cases w) auto
  have tw: "takeWhile (\<lambda>c. c \<noteq> d) (w @ d # rest) = w" "dropWhile (\<lambda>c. c \<noteq> d) (w @ d # rest) = d # rest"
    using assms(2) by (simp_all add: takeWhile_append2 dropWhile_append2)
  show "strtok d (w @ d # rest) = Some (w, rest)" using assms(1) by (simp add: strtok_def dw tw)
  have w: "dropWhile (\<lambda>c. c \<noteq> d) w = []" "takeWhile (\<lambda>c. c \<noteq> d) w = w"
    using assms(2) by (auto simp: takeWhile_eq_all_conv dropWhile_eq_Nil_conv)
  show "strtok d w = Some (w, [])"
    unfolding strtok_def Let_def dw [of "[]", unfolded append_Nil2] w using assms(1) by simp
qed

section \<open>Properties\<close>

definition info_line :: "string \<Rightarrow> nat \<Rightarrow> string" where
  "info_line key n = key @ '' '' @ decimal n @ [CHR 0x0A]"

lemma strtok_info_line:
  assumes "key \<noteq> []" and "\<And>c. c \<in> set key \<Longrightarrow> c \<noteq> CHR '' ''"
  shows "strtok (CHR '' '') (info_line key n) = Some (key, decimal n @ [CHR 0x0A])"
  using strtok_word(1) [OF assms, of "decimal n @ [CHR 0x0A]"] by (simp add: info_line_def)

lemma read_atoi_decimal:
  assumes "int n < 2 ^ 63"
  shows "read_atoi (decimal n @ [CHR 0x0A]) = Inr (of_nat n, [])"
proof -
  have "strtok (CHR '' '') (decimal n @ [CHR 0x0A]) = Some (decimal n @ [CHR 0x0A], [])"
    using decimal_digits digit_not_special(4) by (intro strtok_word(2)) auto
  then show ?thesis
    using strtol10_decimal [OF assms, of "[CHR 0x0A]"]
    by (simp add: read_atoi_def atoi_def is_digit_def)
qed

text \<open>
  Reading back what an info file says. For a file with a line for each threshold, in decimal, the
  profiler ends up with exactly these thresholds, whatever they were before, provided they fit the
  \<open>unsigned short\<close> and the \<open>unsigned int\<close>.
\<close>

theorem info_file_roundtrip:
  assumes "m < 2 ^ 16" and "l < 2 ^ 32"
  shows "readInputInfoFile
      [info_line ''middle_object_threshold'' m, info_line ''large_object_threshold'' l] p
    = Inr (p\<lparr>middleObjectThreshold := of_nat m, largeObjectThreshold := of_nat l\<rparr>)"
proof -
  have mid: "ucast (of_nat m :: u32) = (of_nat m :: u16)"
    using assms(1) by (simp add: word_unat_eq_iff unsigned_ucast_eq unat_of_nat take_bit_nat_eq_self)
  have "strtok (CHR '' '') (info_line ''middle_object_threshold'' m)
      = Some (''middle_object_threshold'', decimal m @ [CHR 0x0A])"
    by (rule strtok_info_line) auto
  moreover have "strtok (CHR '' '') (info_line ''large_object_threshold'' l)
      = Some (''large_object_threshold'', decimal l @ [CHR 0x0A])"
    by (rule strtok_info_line) auto
  ultimately show ?thesis
    using assms read_atoi_decimal [of m] read_atoi_decimal [of l]
    by (simp add: info_line_def readMiddleObjectThresholdFromInfo_def readLargeObjectThresholdFromInfo_def mid)
qed

theorem info_file_roundtrip_witness:
  "readInputInfoFile
      [info_line ''middle_object_threshold'' 256, info_line ''large_object_threshold'' 8192] ProgramStatus_zero
    = Inr (ProgramStatus_zero\<lparr>middleObjectThreshold := 256, largeObjectThreshold := 8192\<rparr>)"
  using info_file_roundtrip [of 256 8192 ProgramStatus_zero] by simp

text \<open>
  The size classes are intervals in the order of the enumeration: a larger object never gets a
  smaller class, whatever the thresholds, and a medium class exists exactly when the middle threshold
  is positive and at most the large one.
\<close>

theorem size_type_monotone:
  "mono (getObjectSizeType p) \<and> ((\<exists>a. getObjectSizeType p a = MEDIUM) \<longleftrightarrow>
      0 < middleObjectThreshold p \<and> ucast (middleObjectThreshold p) \<le> largeObjectThreshold p)"
proof
  show "mono (getObjectSizeType p)"
    by (rule monoI) (auto simp: getObjectSizeType_def less_eq_ObjectSizeType_def)
qed (auto simp: getObjectSizeType_def word_neq_0_conv intro!: exI [of _ "largeObjectThreshold p"])

theorem size_type_monotone_witness:
  "getObjectSizeType (ProgramStatus_zero\<lparr>middleObjectThreshold := 256, largeObjectThreshold := 8192\<rparr>) 300
    \<le> getObjectSizeType (ProgramStatus_zero\<lparr>middleObjectThreshold := 256, largeObjectThreshold := 8192\<rparr>) 9000"
  using size_type_monotone [of "ProgramStatus_zero\<lparr>middleObjectThreshold := 256, largeObjectThreshold := 8192\<rparr>"]
  by (simp add: monoD)

end
