(* ===== verification/Predictor.thy ===== *)
theory Predictor
  imports ThreadLocalStatus ProgramStatus
begin

text \<open>
  The performance predictor (\<^verbatim>\<open>src_light/predictor.h\<close>, \<^verbatim>\<open>predictor.cpp\<close>): it replays the run with
  the cycles another allocator needs per allocation function and estimates the critical path of the
  program. The shared members are the record \<open>Predictor\<close>, the \<open>thread_local\<close> ones the record
  \<open>PredictorThread\<close>. The time stamps \<open>rdtscp\<close> reads are arguments. All arithmetic is on \<open>uint64_t\<close>
  and wraps, as in the source.
\<close>

record Predictor =
  criticalCycle :: u64
  replacedCriticalCycle :: u64
  criticalCycleDepend :: u64
  replacedCriticalCycleDepend :: u64
  threadCycle :: "u64 list"
  threadReplacedCycle :: "u64 list"
  replacedFunctionCycles :: "u64 list"
  replacedMiddleObjectThreshold :: u16
  replacedLargeObjectThreshold :: u32
  lastThreadDepend :: bool
  lastThreadIndex :: u16

record PredictorThread =
  numOfFunctions :: "u32 list"
  totalFunctionCycles :: u64
  outsideStartCycle :: u64
  outsideStopCycle :: u64
  outsideCycle :: u64
  outsideCycleMinus :: u64

definition Predictor_zero :: Predictor where
  "Predictor_zero = \<lparr>criticalCycle = 0, replacedCriticalCycle = 0, criticalCycleDepend = 0,
    replacedCriticalCycleDepend = 0, threadCycle = replicate MAX_THREAD_NUMBER 0,
    threadReplacedCycle = replicate MAX_THREAD_NUMBER 0,
    replacedFunctionCycles = replicate NUM_OF_ALLOCATIONTYPEFOROUTPUTDATA 0,
    replacedMiddleObjectThreshold = 0, replacedLargeObjectThreshold = 0, lastThreadDepend = False,
    lastThreadIndex = 0\<rparr>"

definition PredictorThread_zero :: PredictorThread where
  "PredictorThread_zero = \<lparr>numOfFunctions = replicate NUM_OF_ALLOCATIONTYPEFOROUTPUTDATA 0,
    totalFunctionCycles = 0, outsideStartCycle = 0, outsideStopCycle = 0, outsideCycle = 0,
    outsideCycleMinus = 0\<rparr>"

definition getObjectSizeTypeForPrediction :: "ProgramStatus \<Rightarrow> Predictor \<Rightarrow> u32 \<Rightarrow> ObjectSizeType" where
  "getObjectSizeTypeForPrediction ps p sz =
    (if sz > replacedLargeObjectThreshold p then LARGE
     else if hasMiddleObjectThreshold ps \<and> sz \<ge> ucast (replacedMiddleObjectThreshold p) then MEDIUM
     else SMALL)"

section \<open>The predictor's info file\<close>

text \<open>\<open>strtok(NULL, " ")\<close> for each allocation type; \<open>(size_t) atoi\<close> extends the sign.\<close>

fun read_cycles :: "nat \<Rightarrow> nat \<Rightarrow> string \<Rightarrow> Predictor \<Rightarrow> crash + (string \<times> Predictor)" where
  "read_cycles 0 t rest p = Inr (rest, p)"
| "read_cycles (Suc n) t rest p =
    bindR (read_atoi rest) (\<lambda>(v, rest).
      read_cycles n (Suc t) rest
        (p\<lparr>replacedFunctionCycles := (replacedFunctionCycles p)[t := scast v]\<rparr>))"

definition readFunctionCyclesFromInfo :: "string \<Rightarrow> string \<Rightarrow> Predictor \<Rightarrow> crash + (string \<times> Predictor)" where
  "readFunctionCyclesFromInfo token rest p =
    (if token = ''function_cycles'' then read_cycles NUM_OF_ALLOCATIONTYPEFOROUTPUTDATA 0 rest p
     else Inr (rest, p))"

definition Predictor_readMiddleObjectThresholdFromInfo ::
  "string \<Rightarrow> string \<Rightarrow> Predictor \<Rightarrow> crash + (string \<times> Predictor)" where
  "Predictor_readMiddleObjectThresholdFromInfo token rest p =
    (if token = ''middle_object_threshold''
     then bindR (read_atoi rest) (\<lambda>(v, rest). Inr (rest, p\<lparr>replacedMiddleObjectThreshold := ucast v\<rparr>))
     else Inr (rest, p))"

definition Predictor_readLargeObjectThresholdFromInfo ::
  "string \<Rightarrow> string \<Rightarrow> Predictor \<Rightarrow> crash + (string \<times> Predictor)" where
  "Predictor_readLargeObjectThresholdFromInfo token rest p =
    (if token = ''large_object_threshold''
     then bindR (read_atoi rest) (\<lambda>(v, rest). Inr (rest, p\<lparr>replacedLargeObjectThreshold := v\<rparr>))
     else Inr (rest, p))"

fun readPredictorInfoFile :: "string list \<Rightarrow> Predictor \<Rightarrow> crash + Predictor" where
  "readPredictorInfoFile [] p = Inr p"
| "readPredictorInfoFile (line # ls) p =
    (if line = [] then Inr p else
     bindR
       (case strtok (CHR '' '') line of
          None \<Rightarrow> Inr p
        | Some (token, rest) \<Rightarrow>
            bindR (readFunctionCyclesFromInfo token rest p) (\<lambda>(rest, p).
            bindR (Predictor_readMiddleObjectThresholdFromInfo token rest p) (\<lambda>(rest, p).
            bindR (Predictor_readLargeObjectThresholdFromInfo token rest p) (\<lambda>(rest, p). Inr p))))
       (readPredictorInfoFile ls))"

definition openPredictorInfoFile :: "string list option \<Rightarrow> Predictor \<Rightarrow> crash + Predictor" where
  "openPredictorInfoFile file p =
    (case file of
       None \<Rightarrow> Inl (Aborted ''Failed to open prediction info file'')
     | Some ls \<Rightarrow> readPredictorInfoFile ls p)"

section \<open>Stages\<close>

definition clear_counters :: "PredictorThread \<Rightarrow> PredictorThread" where
  "clear_counters t = t\<lparr>numOfFunctions := replicate NUM_OF_ALLOCATIONTYPEFOROUTPUTDATA 0,
    totalFunctionCycles := 0, outsideCycle := 0\<rparr>"

definition globalInit ::
  "string list option \<Rightarrow> Predictor \<Rightarrow> PredictorThread \<Rightarrow> crash + (Predictor \<times> PredictorThread)" where
  "globalInit file p t =
    bindR (openPredictorInfoFile file p) (\<lambda>p.
      Inr (p\<lparr>criticalCycle := 0, replacedCriticalCycle := 0, criticalCycleDepend := 0,
             replacedCriticalCycleDepend := 0\<rparr>, clear_counters t))"

definition threadInit :: "PredictorThread \<Rightarrow> PredictorThread" where
  "threadInit t = clear_counters t"

text \<open>\<open>memset\<close> of the first \<open>totalNumOfThread\<close> of the 1024 cells.\<close>

definition zero_prefix :: "nat \<Rightarrow> u64 list \<Rightarrow> u64 list" where
  "zero_prefix n xs = replicate n 0 @ drop n xs"

definition cleanStageData ::
  "ThreadCounts \<Rightarrow> Predictor \<times> PredictorThread \<Rightarrow> crash + (Predictor \<times> PredictorThread)" where
  "cleanStageData g pt =
    (case pt of (p, t) \<Rightarrow>
      let n = unat (totalNumOfThread g) in
      if n \<le> MAX_THREAD_NUMBER
      then Inr (p\<lparr>threadCycle := zero_prefix n (threadCycle p),
                  threadReplacedCycle := zero_prefix n (threadReplacedCycle p)\<rparr>, clear_counters t)
      else Inl OutOfBounds)"

definition subOutsideCycle :: "u64 \<Rightarrow> PredictorThread \<Rightarrow> PredictorThread" where
  "subOutsideCycle cycles t = t\<lparr>outsideCycleMinus := outsideCycleMinus t + cycles\<rparr>"

definition outsideCycleStart :: "u64 \<Rightarrow> PredictorThread \<Rightarrow> PredictorThread" where
  "outsideCycleStart now t = t\<lparr>outsideStartCycle := now\<rparr>"

definition outsideCyclesStop :: "u64 \<Rightarrow> PredictorThread \<Rightarrow> PredictorThread" where
  "outsideCyclesStop now t =
    (let t = t\<lparr>outsideStopCycle := now\<rparr> in
     if outsideStopCycle t > outsideStartCycle t \<and> outsideStartCycle t \<noteq> 0
     then t\<lparr>outsideCycle := outsideCycle t + (outsideStopCycle t - outsideStartCycle t)\<rparr>
     else t)"

text \<open>The loop over the allocation types that adds what the replacing allocator would have cost.\<close>

definition add_replaced_cost :: "u64 list \<Rightarrow> u32 list \<Rightarrow> u64 \<Rightarrow> u64" where
  "add_replaced_cost repl num acc =
    for_loop NUM_OF_ALLOCATIONTYPEFOROUTPUTDATA
      (\<lambda>i acc. if repl ! i \<noteq> 0 then acc + ucast (num ! i) * repl ! i else acc) acc"

definition threadEnd ::
  "ThreadLocalStatus \<Rightarrow> PredictorThread \<Rightarrow> Predictor \<Rightarrow> crash + Predictor" where
  "threadEnd ts t p =
    bindR (thread_slot MAX_THREAD_NUMBER ts) (\<lambda>i.
      let tc = threadCycle p ! i + outsideCycle t;
          rc = add_replaced_cost (replacedFunctionCycles p) (numOfFunctions t)
                 (threadReplacedCycle p ! i + outsideCycle t - totalFunctionCycles t);
          p = p\<lparr>threadCycle := (threadCycle p)[i := tc],
                threadReplacedCycle := (threadReplacedCycle p)[i := rc]\<rparr>
      in if runningThreadIndex ts \<noteq> 0
         then (if tc = 0 then Inl DivisionByZero
               else if totalFunctionCycles t * 100 div tc < 2
               then Inr (p\<lparr>lastThreadIndex := runningThreadIndex ts, lastThreadDepend := True\<rparr>)
               else Inr (p\<lparr>lastThreadDepend := False\<rparr>))
         else Inr p)"

definition stopSerial ::
  "ThreadCounts \<Rightarrow> Predictor \<times> PredictorThread \<Rightarrow> crash + (Predictor \<times> PredictorThread)" where
  "stopSerial g pt =
    (case pt of (p, t) \<Rightarrow>
      cleanStageData g
        (p\<lparr>criticalCycle := criticalCycle p + outsideCycle t,
           criticalCycleDepend := criticalCycleDepend p + outsideCycle t,
           replacedCriticalCycle :=
             add_replaced_cost (replacedFunctionCycles p) (numOfFunctions t)
               (replacedCriticalCycle p + outsideCycle t - totalFunctionCycles t),
           replacedCriticalCycleDepend :=
             add_replaced_cost (replacedFunctionCycles p) (numOfFunctions t)
               (replacedCriticalCycleDepend p + outsideCycle t - totalFunctionCycles t)\<rparr>, t))"

text \<open>One round of the loop of \<open>stopParallel\<close> over the four running maxima.\<close>

definition stage_max ::
  "Predictor \<Rightarrow> nat \<Rightarrow> u64 \<times> u64 \<times> u64 \<times> u64 \<Rightarrow> u64 \<times> u64 \<times> u64 \<times> u64" where
  "stage_max p i m =
    (case m of (c, rc, cd, rcd) \<Rightarrow>
      if threadCycle p ! i \<noteq> 0 \<and> threadReplacedCycle p ! i \<noteq> 0
      then (let c = C_MAX c (threadCycle p ! i); rc = C_MAX rc (threadReplacedCycle p ! i) in
            if lastThreadDepend p \<and> i \<noteq> unat (lastThreadIndex p)
            then (c, rc, C_MAX cd (threadCycle p ! i), C_MAX rcd (threadReplacedCycle p ! i))
            else (c, rc, cd, rcd))
      else (c, rc, cd, rcd))"

definition stopParallel ::
  "ThreadCounts \<Rightarrow> Predictor \<times> PredictorThread \<Rightarrow> crash + (Predictor \<times> PredictorThread)" where
  "stopParallel g pt =
    (case pt of (p, t) \<Rightarrow>
      let n = unat (totalNumOfThread g) in
      if n \<le> MAX_THREAD_NUMBER
      then (case fold (stage_max p) [1..<n] (0, 0, 0, 0) of (c, rc, cd, rcd) \<Rightarrow>
             cleanStageData g
               (p\<lparr>criticalCycle := criticalCycle p + c,
                  criticalCycleDepend := criticalCycleDepend p + cd,
                  replacedCriticalCycle := replacedCriticalCycle p + rc,
                  replacedCriticalCycleDepend := replacedCriticalCycleDepend p + rcd\<rparr>, t))
      else Inl OutOfBounds)"

section \<open>The report\<close>

record PredictionReport =
  pr_replacing :: "(nat \<times> u64) list"
  pr_original :: u64
  pr_predicted :: u64
  pr_depend :: "(u64 \<times> u64) option"
  pr_ratio :: u64
  pr_dependRatio :: "u64 option"
  pr_speedUp :: u64

definition Predictor_printOutput :: "Predictor \<Rightarrow> PredictionReport" where
  "Predictor_printOutput p =
    \<lparr>pr_replacing = [(i, replacedFunctionCycles p ! i). i \<leftarrow> [0..<NUM_OF_ALLOCATIONTYPEFOROUTPUTDATA],
                     replacedFunctionCycles p ! i \<noteq> 0],
     pr_original = criticalCycle p,
     pr_predicted = replacedCriticalCycle p,
     pr_depend = (if lastThreadDepend p
                  then Some (criticalCycleDepend p, replacedCriticalCycleDepend p) else None),
     pr_ratio = (if replacedCriticalCycle p \<noteq> 0
                 then criticalCycle p * 100 div replacedCriticalCycle p else 100),
     pr_dependRatio = (if replacedCriticalCycle p \<noteq> 0 \<and> lastThreadDepend p
                          \<and> replacedCriticalCycleDepend p \<noteq> 0
                       then Some (criticalCycleDepend p * 100 div replacedCriticalCycleDepend p) else None),
     pr_speedUp = (if replacedCriticalCycle p \<noteq> 0 \<and> replacedCriticalCycle p < criticalCycle p
                   then (criticalCycle p - replacedCriticalCycle p) * 100 div replacedCriticalCycle p else 0)\<rparr>"

section \<open>The critical path of a parallel stage\<close>

text \<open>The threads a stage counts, and the largest of their cycles.\<close>

definition counted_threads :: "Predictor \<Rightarrow> nat \<Rightarrow> nat set" where
  "counted_threads p n = {i \<in> {1..<n}. threadCycle p ! i \<noteq> 0 \<and> threadReplacedCycle p ! i \<noteq> 0}"

definition depended_threads :: "Predictor \<Rightarrow> nat \<Rightarrow> nat set" where
  "depended_threads p n = (if lastThreadDepend p then counted_threads p n - {unat (lastThreadIndex p)} else {})"

definition longest :: "u64 list \<Rightarrow> nat set \<Rightarrow> u64" where
  "longest xs I = Max (insert 0 ((!) xs ` I))"

lemma longest_empty [simp]: "longest xs {} = 0"
  by (simp add: longest_def)

lemma longest_insert: "finite I \<Longrightarrow> longest xs (insert i I) = max (longest xs I) (xs ! i)"
  by (simp add: longest_def insert_commute [of 0] max.commute)

lemma finite_counted [simp]: "finite (counted_threads p n)" "finite (depended_threads p n)"
  by (simp_all add: counted_threads_def depended_threads_def)

lemma counted_threads_Suc:
  "1 \<le> n \<Longrightarrow> counted_threads p (Suc n)
    = (if threadCycle p ! n \<noteq> 0 \<and> threadReplacedCycle p ! n \<noteq> 0
       then insert n (counted_threads p n) else counted_threads p n)"
  by (auto simp: counted_threads_def less_Suc_eq)

lemma stage_max_fold:
  "1 \<le> n \<Longrightarrow> fold (stage_max p) [1..<n] (0, 0, 0, 0) =
    (longest (threadCycle p) (counted_threads p n), longest (threadReplacedCycle p) (counted_threads p n),
     longest (threadCycle p) (depended_threads p n), longest (threadReplacedCycle p) (depended_threads p n))"
proof (induction n)
  case (Suc n)
  show ?case
  proof (cases "n = 0")
    case False
    then have "depended_threads p (Suc n)
        = (if lastThreadDepend p \<and> n \<noteq> unat (lastThreadIndex p) \<and> threadCycle p ! n \<noteq> 0
              \<and> threadReplacedCycle p ! n \<noteq> 0
           then insert n (depended_threads p n) else depended_threads p n)"
      by (auto simp: depended_threads_def counted_threads_Suc)
    moreover have "[1..<Suc n] = [1..<n] @ [n]" using False by simp
    ultimately show ?thesis
      using False Suc.IH by (simp add: stage_max_def counted_threads_Suc longest_insert Let_def del: upt_Suc)
  qed (simp add: counted_threads_def depended_threads_def)
qed simp

section \<open>Predicting an allocator by itself\<close>

lemma add_replaced_cost_add:
  "add_replaced_cost repl num (acc + a) = add_replaced_cost repl num acc + a"
proof -
  have "for_loop n (\<lambda>i acc. if repl ! i \<noteq> 0 then acc + ucast (num ! i) * repl ! i else acc) (acc + a)
    = for_loop n (\<lambda>i acc. if repl ! i \<noteq> 0 then acc + ucast (num ! i) * repl ! i else acc) acc + a"
    for n :: nat and acc a :: u64
    by (induction n) (auto simp: for_loop_Suc)
  then show ?thesis by (simp add: add_replaced_cost_def)
qed

text \<open>
  The calls a thread made cost what the predictor says they cost. Then nothing distinguishes the
  original from the predicted cycles.
\<close>

definition matched :: "Predictor \<Rightarrow> PredictorThread \<Rightarrow> bool" where
  "matched p t \<longleftrightarrow> add_replaced_cost (replacedFunctionCycles p) (numOfFunctions t) 0 = totalFunctionCycles t"

definition undistinguished :: "Predictor \<Rightarrow> bool" where
  "undistinguished p \<longleftrightarrow> replacedCriticalCycle p = criticalCycle p
    \<and> replacedCriticalCycleDepend p = criticalCycleDepend p \<and> threadReplacedCycle p = threadCycle p"

lemma matched_cost:
  "matched p t \<Longrightarrow>
    add_replaced_cost (replacedFunctionCycles p) (numOfFunctions t) (a - totalFunctionCycles t) = a"
  using add_replaced_cost_add [of "replacedFunctionCycles p" "numOfFunctions t" 0 "a - totalFunctionCycles t"]
  by (simp add: matched_def)

lemma threadEnd_undistinguished:
  assumes "threadEnd ts t p = Inr p'" and "matched p t" and "undistinguished p"
  shows "undistinguished p'"
proof -
  obtain i where i: "thread_slot MAX_THREAD_NUMBER ts = Inr i"
    using assms(1) by (auto simp: threadEnd_def bindR_Inr_iff)
  define q where "q = p\<lparr>threadCycle := (threadCycle p)[i := threadCycle p ! i + outsideCycle t],
    threadReplacedCycle := (threadCycle p)[i := threadCycle p ! i + outsideCycle t]\<rparr>"
  have "threadReplacedCycle p = threadCycle p" using assms(3) by (simp add: undistinguished_def)
  then have "p' \<in> {q, q\<lparr>lastThreadDepend := False\<rparr>,
      q\<lparr>lastThreadIndex := runningThreadIndex ts, lastThreadDepend := True\<rparr>}"
    using assms(1) i matched_cost [OF assms(2)]
    by (simp add: threadEnd_def q_def Let_def split: if_splits)
  then show ?thesis using assms(3) by (auto simp: q_def undistinguished_def)
qed

lemma cleanStageData_undistinguished:
  "cleanStageData g (p, t) = Inr (p', t') \<Longrightarrow> undistinguished p \<Longrightarrow> undistinguished p'"
  by (auto simp: cleanStageData_def undistinguished_def Let_def split: if_splits)

lemma stopSerial_undistinguished:
  assumes "stopSerial g (p, t) = Inr (p', t')" and "matched p t" and "undistinguished p"
  shows "undistinguished p'"
  using assms(1) unfolding stopSerial_def prod.case
  by (rule cleanStageData_undistinguished)
     (use assms(3) matched_cost [OF assms(2)] in \<open>simp add: undistinguished_def\<close>)

lemma stopParallel_undistinguished:
  assumes "stopParallel g (p, t) = Inr (p', t')" and "undistinguished p"
  shows "undistinguished p'"
proof -
  obtain c cd where "fold (stage_max p) [1..<unat (totalNumOfThread g)] (0, 0, 0, 0) = (c, c, cd, cd)"
    using stage_max_fold [of "unat (totalNumOfThread g)" p] assms(2)
    by (cases "1 \<le> unat (totalNumOfThread g)") (auto simp: undistinguished_def)
  with assms(1) have "cleanStageData g
      (p\<lparr>criticalCycle := criticalCycle p + c, criticalCycleDepend := criticalCycleDepend p + cd,
         replacedCriticalCycle := replacedCriticalCycle p + c,
         replacedCriticalCycleDepend := replacedCriticalCycleDepend p + cd\<rparr>, t) = Inr (p', t')"
    by (auto simp: stopParallel_def Let_def split: if_splits)
  then show ?thesis
    by (rule cleanStageData_undistinguished) (use assms(2) in \<open>simp add: undistinguished_def\<close>)
qed

text \<open>Only the stage ends touch the shared cycles; each sees the running thread's counters.\<close>

inductive stage_step :: "Predictor \<Rightarrow> Predictor \<Rightarrow> bool" where
  thread_ends: "matched p t \<Longrightarrow> threadEnd ts t p = Inr p' \<Longrightarrow> stage_step p p'"
| serial_ends: "matched p t \<Longrightarrow> stopSerial g (p, t) = Inr (p', t') \<Longrightarrow> stage_step p p'"
| parallel_ends: "stopParallel g (p, t) = Inr (p', t') \<Longrightarrow> stage_step p p'"

inductive_cases stage_stepE: "stage_step p p'"

lemma stage_steps_undistinguished: "stage_step\<^sup>*\<^sup>* p p' \<Longrightarrow> undistinguished p \<Longrightarrow> undistinguished p'"
proof (induction rule: rtranclp_induct)
  case (step p' p'')
  from step.IH [OF step.prems] step(2) show ?case
    by (auto elim!: stage_stepE
        intro: threadEnd_undistinguished stopSerial_undistinguished stopParallel_undistinguished)
qed

lemma percent_of_itself:
  assumes "x \<noteq> 0" and "100 * unat x < 2 ^ 64"
  shows "x * 100 div x = (100 :: u64)"
proof -
  have "unat (x * 100) = unat x * 100 mod 2 ^ 64"
    using unat_word_ariths(2) [of x 100] by simp
  then have "unat (x * 100) = unat x * 100" using assms(2) by (simp add: mult.commute)
  then have "unat (x * 100 div x) = unat (100 :: u64)"
    using assms(1) unat_gt_0 [of x] by (simp only: unat_div) simp
  then show ?thesis by (simp only: word_unat_eq_iff)
qed
section \<open>Properties\<close>

text \<open>
  an allocator predicted by itself. If the calls of every stage cost exactly what the predictor's
  file says, then in every state the stage ends can reach from the start the predicted critical path
  is the measured one: the report shows the same cycles and no speed-up, and its ratio is 100 percent
  as long as a hundred times the cycles fit 64 bits.
\<close>

theorem self_prediction_changes_nothing:
  assumes "stage_step\<^sup>*\<^sup>* (Predictor_zero\<lparr>replacedFunctionCycles := costs\<rparr>) p"
  shows "pr_predicted (Predictor_printOutput p) = pr_original (Predictor_printOutput p)
    \<and> pr_speedUp (Predictor_printOutput p) = 0
    \<and> (100 * unat (criticalCycle p) < 2 ^ 64 \<longrightarrow> pr_ratio (Predictor_printOutput p) = 100)"
proof -
  have "undistinguished (Predictor_zero\<lparr>replacedFunctionCycles := costs\<rparr>)"
    by (simp add: undistinguished_def Predictor_zero_def)
  from stage_steps_undistinguished [OF assms this] have e: "replacedCriticalCycle p = criticalCycle p"
    by (simp add: undistinguished_def)
  show ?thesis by (auto simp: Predictor_printOutput_def e percent_of_itself)
qed

theorem self_prediction_changes_nothing_witness:
  "\<exists>p. stage_step\<^sup>*\<^sup>* (Predictor_zero\<lparr>replacedFunctionCycles := 40 # replicate 23 0\<rparr>) p
    \<and> criticalCycle p = 900 \<and> pr_ratio (Predictor_printOutput p) = 100"
proof -
  let ?t = "PredictorThread_zero\<lparr>numOfFunctions := 3 # replicate 23 0, totalFunctionCycles := 120,
    outsideCycle := 900\<rparr>"
  let ?p = "Predictor_zero\<lparr>replacedFunctionCycles := 40 # replicate 23 0\<rparr>"
  let ?g = "\<lparr>totalNumOfThread = 1, totalNumOfRunningThread = 2\<rparr>"
  have m: "matched ?p ?t"
    unfolding matched_def add_replaced_cost_def for_loop_def config upt_24 by simp
  obtain p' t' where s: "stopSerial ?g (?p, ?t) = Inr (p', t')" "criticalCycle p' = 900"
    by (simp add: stopSerial_def cleanStageData_def config Predictor_zero_def)
  have "stage_step\<^sup>*\<^sup>* ?p p'" using serial_ends [OF m s(1)] by blast
  with self_prediction_changes_nothing [OF this] s(2) show ?thesis by auto
qed

text \<open>
  C37: the length of a parallel stage. With the threads in range, \<open>stopParallel\<close> returns, adds to the
  critical path the largest cycle count of the threads of the stage (the first thread and those with
  a zero count left out), to the predicted path the largest predicted count, the same without the
  depended thread for the other two, and clears the stage.
\<close>

theorem parallel_stage_is_its_longest_thread:
  assumes "unat (totalNumOfThread g) \<le> MAX_THREAD_NUMBER"
  shows "\<exists>p' t'. stopParallel g (p, t) = Inr (p', t')
    \<and> criticalCycle p' = criticalCycle p
        + longest (threadCycle p) (counted_threads p (unat (totalNumOfThread g)))
    \<and> replacedCriticalCycle p' = replacedCriticalCycle p
        + longest (threadReplacedCycle p) (counted_threads p (unat (totalNumOfThread g)))
    \<and> criticalCycleDepend p' = criticalCycleDepend p
        + longest (threadCycle p) (depended_threads p (unat (totalNumOfThread g)))
    \<and> replacedCriticalCycleDepend p' = replacedCriticalCycleDepend p
        + longest (threadReplacedCycle p) (depended_threads p (unat (totalNumOfThread g)))
    \<and> (\<forall>i < unat (totalNumOfThread g). threadCycle p' ! i = 0 \<and> threadReplacedCycle p' ! i = 0)
    \<and> t' = clear_counters t"
proof (cases "1 \<le> unat (totalNumOfThread g)")
  case True
  from assms stage_max_fold [OF True, of p] show ?thesis
    by (simp add: stopParallel_def cleanStageData_def zero_prefix_def nth_append Let_def)
next
  case False
  then have "unat (totalNumOfThread g) = 0" by simp
  then show ?thesis
    by (simp add: stopParallel_def cleanStageData_def zero_prefix_def counted_threads_def depended_threads_def)
qed

theorem parallel_stage_is_its_longest_thread_witness:
  "\<exists>p' t'. stopParallel \<lparr>totalNumOfThread = 3, totalNumOfRunningThread = 1\<rparr>
      (Predictor_zero\<lparr>threadCycle := [0, 70, 50], threadReplacedCycle := [0, 60, 65]\<rparr>, PredictorThread_zero)
        = Inr (p', t') \<and> criticalCycle p' = 70 \<and> replacedCriticalCycle p' = 65"
proof -
  let ?p = "Predictor_zero\<lparr>threadCycle := [0, 70, 50], threadReplacedCycle := [0, 60, 65]\<rparr>"
  have range3: "{1..<3 :: nat} = {1, 2}" by auto
  have "counted_threads ?p 3 = {1, 2}"
    by (auto simp: counted_threads_def range3)
  with parallel_stage_is_its_longest_thread
      [of "\<lparr>totalNumOfThread = 3, totalNumOfRunningThread = 1\<rparr>" ?p PredictorThread_zero]
  show ?thesis by (auto simp: config longest_def Predictor_zero_def)
qed

text \<open>
  the predicted size class asks the wrong allocator. When the profiled allocator has no middle
  threshold, no size is ever predicted as medium, whatever thresholds the predicted allocator has;
  an object between its thresholds is predicted as small.
\<close>

theorem predicted_class_uses_profiled_allocator:
  assumes "\<not> hasMiddleObjectThreshold ps"
    and "ucast (replacedMiddleObjectThreshold p) \<le> sz" and "sz \<le> replacedLargeObjectThreshold p"
  shows "getObjectSizeTypeForPrediction ps p sz = SMALL
    \<and> (0 < replacedMiddleObjectThreshold p \<longrightarrow>
        getObjectSizeType (ps\<lparr>middleObjectThreshold := replacedMiddleObjectThreshold p,
                              largeObjectThreshold := replacedLargeObjectThreshold p\<rparr>) sz = MEDIUM)"
  using assms by (auto simp: getObjectSizeTypeForPrediction_def getObjectSizeType_def)

theorem predicted_class_uses_profiled_allocator_witness:
  "getObjectSizeTypeForPrediction (ProgramStatus_zero\<lparr>largeObjectThreshold := 132880\<rparr>)
      (Predictor_zero\<lparr>replacedMiddleObjectThreshold := 256, replacedLargeObjectThreshold := 8192\<rparr>) 300 = SMALL"
  using predicted_class_uses_profiled_allocator
      [of "ProgramStatus_zero\<lparr>largeObjectThreshold := 132880\<rparr>"
          "Predictor_zero\<lparr>replacedMiddleObjectThreshold := 256, replacedLargeObjectThreshold := 8192\<rparr>" 300]
  by (simp add: hasMiddleObjectThreshold_def ProgramStatus_zero_def)

text \<open>
  the end of a thread divides by its cycles. With the index in range, \<open>threadEnd\<close> of a thread other
  than the first one divides by zero exactly when the thread has no cycles: none left from before and
  none measured outside the allocator.
\<close>

theorem threadEnd_divides_by_zero_iff:
  assumes "unat (runningThreadIndex ts) < MAX_THREAD_NUMBER"
  shows "threadEnd ts t p = Inl DivisionByZero \<longleftrightarrow>
    runningThreadIndex ts \<noteq> 0 \<and> threadCycle p ! unat (runningThreadIndex ts) + outsideCycle t = 0"
proof -
  have "thread_slot MAX_THREAD_NUMBER ts = Inr (unat (runningThreadIndex ts))"
    using assms by (rule thread_slot_small) (simp add: config)
  then show ?thesis by (simp add: threadEnd_def Let_def)
qed

theorem threadEnd_divides_by_zero_iff_witness:
  "threadEnd (ThreadLocalStatus_zero\<lparr>runningThreadIndex := 2\<rparr>) PredictorThread_zero Predictor_zero
    = Inl DivisionByZero"
  using threadEnd_divides_by_zero_iff
      [of "ThreadLocalStatus_zero\<lparr>runningThreadIndex := 2\<rparr>" PredictorThread_zero Predictor_zero]
  by (simp add: config PredictorThread_zero_def Predictor_zero_def)

end
