(* ===== verification/AllocatingStatus.thy ===== *)
theory AllocatingStatus
  imports ShadowMemory Predictor
begin

text \<open>
  What a thread records while one allocation function runs (\<^verbatim>\<open>src_light/allocatingstatus.h\<close>,
  \<^verbatim>\<open>allocatingstatus.cpp\<close>): the kind of call, the cycles it took, the locks and system calls made
  inside it; and how these are added to the thread's counters, to the lock table and to the predictor
  when the call returns.

  An enumerator of \<open>AllocationTypeForOutputData\<close> is kept as its number, because the source computes
  it by arithmetic and uses it as an index. The queue of lock records holds pointers to values of the
  thread's lock table; a pointer is the address of the entry. An index outside an array is
  \<open>OutOfBounds\<close>. Time stamps and the drawn random number are arguments.
\<close>

record OverviewLockDataInAllocatingStatus =
  ao_numOfLocks :: u32
  ao_numOfCalls :: u32
  ao_numOfCallsWithContentions :: u32
  ao_cycles :: u64

definition Overview_zero :: OverviewLockDataInAllocatingStatus where
  "Overview_zero = \<lparr>ao_numOfLocks = 0, ao_numOfCalls = 0, ao_numOfCallsWithContentions = 0, ao_cycles = 0\<rparr>"

definition Overview_addANewLock :: "OverviewLockDataInAllocatingStatus \<Rightarrow> OverviewLockDataInAllocatingStatus" where
  "Overview_addANewLock d = d\<lparr>ao_numOfLocks := ao_numOfLocks d + 1\<rparr>"

definition Overview_addAContention :: "OverviewLockDataInAllocatingStatus \<Rightarrow> OverviewLockDataInAllocatingStatus" where
  "Overview_addAContention d = d\<lparr>ao_numOfCallsWithContentions := ao_numOfCallsWithContentions d + 1\<rparr>"

definition Overview_addCallAndCycles ::
  "u32 \<Rightarrow> u64 \<Rightarrow> OverviewLockDataInAllocatingStatus \<Rightarrow> OverviewLockDataInAllocatingStatus" where
  "Overview_addCallAndCycles calls cycles d =
    d\<lparr>ao_numOfCalls := ao_numOfCalls d + calls, ao_cycles := ao_cycles d + cycles\<rparr>"

definition LENGTH_OF_QUEUE :: nat where [config]: "LENGTH_OF_QUEUE = 1000"

record DetailLockDataInAllocatingStatus =
  ad_numOfCalls :: u32
  ad_numOfCallsWithContentions :: u32
  ad_cycles :: u64
  ad_address :: u64

definition Detail_zero :: DetailLockDataInAllocatingStatus where
  "Detail_zero = \<lparr>ad_numOfCalls = 0, ad_numOfCallsWithContentions = 0, ad_cycles = 0, ad_address = 0\<rparr>"

text \<open>\<open>writingIntoAddress\<close> adds the record to the cell of the current allocation type.\<close>

definition writingIntoAddress ::
  "nat \<Rightarrow> DetailLockDataInAllocatingStatus \<Rightarrow> (u64, DetailLockData) HashMap \<Rightarrow> (u64, DetailLockData) HashMap" where
  "writingIntoAddress ty d hm =
    (let v = hm_value hm (ad_address d) in
     HashMap_assign hm (ad_address d)
       (v\<lparr>dl_numOfCalls := (dl_numOfCalls v)[ty := dl_numOfCalls v ! ty + ad_numOfCalls d],
          dl_numOfCallsWithContentions :=
            (dl_numOfCallsWithContentions v)[ty := dl_numOfCallsWithContentions v ! ty + ad_numOfCallsWithContentions d],
          dl_cycles := (dl_cycles v)[ty := dl_cycles v ! ty + ad_cycles d]\<rparr>))"

text \<open>\<open>queueTail\<close> is a \<open>short\<close> between -1 and 999.\<close>

record LockQueue =
  queueTail :: int
  lq_queue :: "DetailLockDataInAllocatingStatus list"

definition LockQueue_zero :: LockQueue where
  "LockQueue_zero = \<lparr>queueTail = -1, lq_queue = replicate LENGTH_OF_QUEUE Detail_zero\<rparr>"

definition writingNewDataInTheQueue :: "u64 \<Rightarrow> LockQueue \<Rightarrow> LockQueue" where
  "writingNewDataInTheQueue address q =
    (if queueTail q < int LENGTH_OF_QUEUE - 1
     then (let t = queueTail q + 1 in
           q\<lparr>queueTail := t, lq_queue := (lq_queue q)[nat t := (lq_queue q ! nat t)\<lparr>ad_address := address\<rparr>]\<rparr>)
     else q)"

definition update_tail ::
  "(DetailLockDataInAllocatingStatus \<Rightarrow> DetailLockDataInAllocatingStatus) \<Rightarrow> LockQueue \<Rightarrow> crash + LockQueue" where
  "update_tail f q =
    (if 0 \<le> queueTail q \<and> queueTail q < int (length (lq_queue q))
     then Inr (q\<lparr>lq_queue := (lq_queue q)[nat (queueTail q) := f (lq_queue q ! nat (queueTail q))]\<rparr>)
     else Inl OutOfBounds)"

definition LockQueue_addAContention :: "LockQueue \<Rightarrow> crash + LockQueue" where
  "LockQueue_addAContention q =
    update_tail (\<lambda>d. d\<lparr>ad_numOfCallsWithContentions := ad_numOfCallsWithContentions d + 1\<rparr>) q"

definition LockQueue_addCallAndCycles :: "u32 \<Rightarrow> u64 \<Rightarrow> LockQueue \<Rightarrow> crash + LockQueue" where
  "LockQueue_addCallAndCycles calls cycles q =
    update_tail (\<lambda>d. d\<lparr>ad_numOfCalls := ad_numOfCalls d + calls, ad_cycles := ad_cycles d + cycles\<rparr>) q"

text \<open>\<open>memset\<close> of the used prefix.\<close>

definition cleanUpQueue :: "LockQueue \<Rightarrow> LockQueue" where
  "cleanUpQueue q =
    (let n = nat (queueTail q + 1) in
     q\<lparr>lq_queue := replicate n Detail_zero @ drop n (lq_queue q), queueTail := -1\<rparr>)"

definition writingIntoHashTable ::
  "nat \<Rightarrow> LockQueue \<Rightarrow> (u64, DetailLockData) HashMap \<Rightarrow> (u64, DetailLockData) HashMap" where
  "writingIntoHashTable ty q hm =
    fold (writingIntoAddress ty) (take (nat (queueTail q + 1)) (lq_queue q)) hm"

section \<open>The thread's allocating status\<close>

record AllocatingStatus =
  allocatingType :: AllocatingType
  allocationTypeForOutputData :: nat
  allocationTypeForPrediction :: nat
  cyclesBeforeRealFunction :: u64
  cyclesAfterRealFunction :: u64
  cyclesInRealFunction :: u64
  nowRunningLockType :: LockTypes
  queueOfDetailLockData :: LockQueue
  as_overviewLockData :: "OverviewLockDataInAllocatingStatus list"
  as_systemCallData :: "SystemCallData list"
  firstAllocation :: bool
  sampledForCountingEvent :: bool

definition AllocatingType_zero :: AllocatingType where
  "AllocatingType_zero = \<lparr>doingAllocation = False, objectSizeType = SMALL, objectSizeTypeForPrediction = SMALL,
    allocatingFunction = MALLOC, at_objectSize = 0, objectAddress = 0, isReuse = False\<rparr>"

definition AllocatingStatus_zero :: AllocatingStatus where
  "AllocatingStatus_zero = \<lparr>allocatingType = AllocatingType_zero, allocationTypeForOutputData = 0,
    allocationTypeForPrediction = 0, cyclesBeforeRealFunction = 0, cyclesAfterRealFunction = 0,
    cyclesInRealFunction = 0, nowRunningLockType = MUTEX, queueOfDetailLockData = LockQueue_zero,
    as_overviewLockData = replicate NUM_OF_LOCKTYPES Overview_zero,
    as_systemCallData = replicate NUM_OF_SYSTEMCALLTYPES SystemCallData_zero,
    firstAllocation = False, sampledForCountingEvent = False\<rparr>"

definition isFirstFunction :: "AllocatingStatus \<Rightarrow> bool \<times> AllocatingStatus" where
  "isFirstFunction a = (if \<not> firstAllocation a then (True, a\<lparr>firstAllocation := True\<rparr>) else (False, a))"

definition updateAllocatingTypeBeforeRealFunction ::
  "AllocationFunction \<Rightarrow> u32 \<Rightarrow> AllocatingStatus \<Rightarrow> AllocatingStatus" where
  "updateAllocatingTypeBeforeRealFunction f sz a =
    a\<lparr>allocatingType := (allocatingType a)\<lparr>allocatingFunction := f, at_objectSize := sz, doingAllocation := True\<rparr>\<rparr>"

definition updateFreeingTypeBeforeRealFunction ::
  "AllocationFunction \<Rightarrow> u64 \<Rightarrow> AllocatingStatus \<Rightarrow> AllocatingStatus" where
  "updateFreeingTypeBeforeRealFunction f address a =
    a\<lparr>allocatingType := (allocatingType a)\<lparr>allocatingFunction := f, objectAddress := address,
                                           doingAllocation := True\<rparr>\<rparr>"

definition updateAllocatingStatusBeforeRealFunction ::
  "AllocationFunction \<Rightarrow> u32 \<Rightarrow> nat \<Rightarrow> u64 \<Rightarrow> AllocatingStatus \<Rightarrow> AllocatingStatus" where
  "updateAllocatingStatusBeforeRealFunction f sz drawn now a =
    (updateAllocatingTypeBeforeRealFunction f sz a)
      \<lparr>sampledForCountingEvent := randomProcessForCountingEvent drawn, cyclesBeforeRealFunction := now\<rparr>"

text \<open>
  The memory status: the object table and the shadow memory. \<open>junk\<close> is the uninitialised page index
  \<open>getPageIndex\<close> leaves for an address outside the ranges.
\<close>

type_synonym memory_status = "ObjTable \<times> ShadowMemory"

definition updateMemoryStatusAfterAllocation ::
  "CallEnv \<Rightarrow> u64 \<Rightarrow> AllocatingStatus \<Rightarrow> memory_status \<Rightarrow> crash + (AllocatingStatus \<times> memory_status)" where
  "updateMemoryStatusAfterAllocation env junk a ms =
    bindR (ObjTable_allocUpdate env (at_objectSize (allocatingType a)) (objectAddress (allocatingType a)) (fst ms))
      (\<lambda>(reuse, ot).
    bindR (mallocUpdateObject junk (objectAddress (allocatingType a)) (at_objectSize (allocatingType a)) (snd ms))
      (\<lambda>sm. Inr (a\<lparr>allocatingType := (allocatingType a)\<lparr>isReuse := reuse\<rparr>\<rparr>, (ot, sm))))"

definition updateMemoryStatusBeforeFree ::
  "u64 \<Rightarrow> AllocatingStatus \<Rightarrow> memory_status \<Rightarrow> crash + (AllocatingStatus \<times> memory_status)" where
  "updateMemoryStatusBeforeFree junk a ms =
    bindR (ObjTable_freeUpdate (objectAddress (allocatingType a)) (fst ms)) (\<lambda>objStat.
      case objStat of
        None \<Rightarrow> Inr (a, ms)
      | Some obj \<Rightarrow>
          (let a = a\<lparr>allocatingType := (allocatingType a)\<lparr>at_objectSize := os_size obj\<rparr>\<rparr> in
           if at_objectSize (allocatingType a) \<noteq> 0
           then bindR (freeUpdateObject junk (objectAddress (allocatingType a)) obj (snd ms))
                  (\<lambda>sm. Inr (a, (fst ms, sm)))
           else Inr (a, ms)))"

definition updateFreeingStatusBeforeRealFunction ::
  "AllocationFunction \<Rightarrow> u64 \<Rightarrow> u64 \<Rightarrow> nat \<Rightarrow> u64 \<Rightarrow> AllocatingStatus \<Rightarrow> memory_status
    \<Rightarrow> crash + (AllocatingStatus \<times> memory_status)" where
  "updateFreeingStatusBeforeRealFunction f address junk drawn now a ms =
    bindR (updateMemoryStatusBeforeFree junk (updateFreeingTypeBeforeRealFunction f address a) ms)
      (\<lambda>(a, ms).
        Inr (if f = FREE
             then (a\<lparr>sampledForCountingEvent := randomProcessForCountingEvent drawn,
                     cyclesBeforeRealFunction := now\<rparr>, ms)
             else (a, ms)))"

definition note_cycles :: "u64 \<Rightarrow> AllocatingStatus \<Rightarrow> AllocatingStatus" where
  "note_cycles now a =
    (let a = a\<lparr>cyclesAfterRealFunction := now, cyclesInRealFunction := now - cyclesBeforeRealFunction a\<rparr> in
     if cyclesInRealFunction a > of_nat ABNORMAL_VALUE then a\<lparr>cyclesInRealFunction := 0\<rparr> else a)"

definition updateAllocatingStatusAfterRealFunction ::
  "CallEnv \<Rightarrow> u64 \<Rightarrow> u64 \<Rightarrow> u64 \<Rightarrow> AllocatingStatus \<Rightarrow> memory_status
    \<Rightarrow> crash + (AllocatingStatus \<times> memory_status)" where
  "updateAllocatingStatusAfterRealFunction env junk object now a ms =
    (let a = note_cycles now a in
     bindR (if allocatingFunction (allocatingType a) = MALLOC \<or> allocatingFunction (allocatingType a) = REALLOC
            then updateMemoryStatusAfterAllocation env junk
                   (a\<lparr>allocatingType := (allocatingType a)\<lparr>objectAddress := object\<rparr>\<rparr>) ms
            else Inr (a, ms))
       (\<lambda>(a, ms). Inr (a\<lparr>allocatingType := (allocatingType a)\<lparr>doingAllocation := False\<rparr>\<rparr>, ms)))"

definition updateFreeingStatusAfterRealFunction :: "u64 \<Rightarrow> AllocatingStatus \<Rightarrow> AllocatingStatus" where
  "updateFreeingStatusAfterRealFunction now a =
    (note_cycles now a)\<lparr>allocatingType := (allocatingType (note_cycles now a))\<lparr>doingAllocation := False\<rparr>\<rparr>"

section \<open>Classifying the call\<close>

text \<open>The arithmetic on enumerators, in \<open>int\<close> and cast back.\<close>

abbreviation par :: "ThreadCounts \<Rightarrow> int" where
  "par g \<equiv> (if isCurrentlyParallelThread g then 1 else 0)"

definition malloc_type :: "ThreadCounts \<Rightarrow> ObjectSizeType \<Rightarrow> bool \<Rightarrow> int" where
  "malloc_type g cls reuse = par g * 5 + ObjectSizeType_code cls * 2 + (if reuse then 1 else 0)"

definition other_type :: "ThreadCounts \<Rightarrow> AllocationFunction \<Rightarrow> int" where
  "other_type g f =
    (if f = CALLOC then 16 + par g else if f = REALLOC then 18 + par g
     else if f = POSIX_MEMALIGN then 20 + par g else 22 + par g)"

definition setAllocationTypeForOutputData :: "ThreadCounts \<Rightarrow> AllocatingStatus \<Rightarrow> AllocatingStatus" where
  "setAllocationTypeForOutputData g a =
    (let t = allocatingType a in
     a\<lparr>allocationTypeForOutputData := nat
        (if allocatingFunction t = MALLOC
         then malloc_type g (objectSizeType t) (objectSizeType t \<noteq> LARGE \<and> isReuse t)
         else if allocatingFunction t = FREE
         then 10 + par g * 3 + ObjectSizeType_code (objectSizeType t)
         else other_type g (allocatingFunction t))\<rparr>)"

text \<open>A function other than \<open>MALLOC\<close> and \<open>FREE\<close> leaves the type of the previous call in place.\<close>

definition setAllocationTypeForPrediction :: "AllocatingStatus \<Rightarrow> AllocatingStatus" where
  "setAllocationTypeForPrediction a =
    (let t = allocatingType a;
         cls = ObjectSizeType_code (objectSizeType t);
         prd = ObjectSizeType_code (objectSizeTypeForPrediction t);
         out = int (allocationTypeForOutputData a)
     in if cls = prd then a\<lparr>allocationTypeForPrediction := allocationTypeForOutputData a\<rparr>
        else if cls > prd
        then (if allocatingFunction t = MALLOC then a\<lparr>allocationTypeForPrediction := nat (out - (cls - prd) * 2)\<rparr>
              else if allocatingFunction t = FREE then a\<lparr>allocationTypeForPrediction := nat (out - (cls - prd))\<rparr>
              else a)
        else (if allocatingFunction t = MALLOC then a\<lparr>allocationTypeForPrediction := nat (out + (prd - cls) * 2)\<rparr>
              else if allocatingFunction t = FREE then a\<lparr>allocationTypeForPrediction := nat (out + (prd - cls))\<rparr>
              else a))"

definition setAllocationTypeForPredictionRaw :: "ThreadCounts \<Rightarrow> AllocatingStatus \<Rightarrow> AllocatingStatus" where
  "setAllocationTypeForPredictionRaw g a =
    (let t = allocatingType a in
     a\<lparr>allocationTypeForPrediction := nat
        (if allocatingFunction t = MALLOC
         then malloc_type g (objectSizeTypeForPrediction t) (objectSizeType t \<noteq> LARGE \<and> isReuse t)
         else if allocatingFunction t = FREE
         then 10 + par g * 3 + ObjectSizeType_code (objectSizeTypeForPrediction t)
         else other_type g (allocatingFunction t))\<rparr>)"

section \<open>Adding up\<close>

definition addUpOverviewLockDataToThreadLocalData ::
  "AllocatingStatus \<Rightarrow> ThreadLocalStatus \<Rightarrow> ThreadLocalStatus" where
  "addUpOverviewLockDataToThreadLocalData a ts =
    (let ty = allocationTypeForOutputData a in
     ts\<lparr>tl_overviewLockData :=
       for_loop NUM_OF_LOCKTYPES
         (\<lambda>i ds. ds[i := (\<lambda>d n.
            d\<lparr>ov_numOfLocks := ov_numOfLocks d + ao_numOfLocks n,
              ov_numOfCalls := (ov_numOfCalls d)[ty := ov_numOfCalls d ! ty + ao_numOfCalls n],
              ov_numOfCallsWithContentions :=
                (ov_numOfCallsWithContentions d)[ty := ov_numOfCallsWithContentions d ! ty + ao_numOfCallsWithContentions n],
              ov_totalCycles := (ov_totalCycles d)[ty := ov_totalCycles d ! ty + ao_cycles n]\<rparr>)
            (ds ! i) (as_overviewLockData a ! i)])
         (tl_overviewLockData ts)\<rparr>)"

definition addUpDetailLockDataToHashTable ::
  "AllocatingStatus \<Rightarrow> (u64, DetailLockData) HashMap \<Rightarrow> (u64, DetailLockData) HashMap" where
  "addUpDetailLockDataToHashTable a hm =
    writingIntoHashTable (allocationTypeForOutputData a) (queueOfDetailLockData a) hm"

definition cleanLockFunctionsInfoInAllocatingStatus :: "AllocatingStatus \<Rightarrow> AllocatingStatus" where
  "cleanLockFunctionsInfoInAllocatingStatus a =
    a\<lparr>as_overviewLockData := replicate NUM_OF_LOCKTYPES Overview_zero,
      queueOfDetailLockData := cleanUpQueue (queueOfDetailLockData a)\<rparr>"

definition addUpSyscallsInfoToThreadLocalData :: "AllocatingStatus \<Rightarrow> ThreadLocalStatus \<Rightarrow> ThreadLocalStatus" where
  "addUpSyscallsInfoToThreadLocalData a ts =
    (let ty = allocationTypeForOutputData a in
     ts\<lparr>tl_systemCallData :=
       for_loop NUM_OF_SYSTEMCALLTYPES
         (\<lambda>i ds. ds[i := (ds ! i)[ty := SystemCallData_add (ds ! i ! ty) (as_systemCallData a ! i)]])
         (tl_systemCallData ts)\<rparr>)"

definition addUpCountingEventsToThreadLocalData ::
  "AllocatingStatus \<Rightarrow> ThreadLocalStatus \<Rightarrow> ThreadLocalStatus" where
  "addUpCountingEventsToThreadLocalData a ts =
    (let ty = allocationTypeForOutputData a in
     ts\<lparr>tl_numOfSampledCountingFunctions :=
          (tl_numOfSampledCountingFunctions ts)[ty := tl_numOfSampledCountingFunctions ts ! ty + 1],
        tl_cycles := (tl_cycles ts)[ty := tl_cycles ts ! ty + cyclesInRealFunction a]\<rparr>)"

definition updateAllocatingInfoToThreadLocalData ::
  "ProgramStatus \<Rightarrow> ThreadCounts
    \<Rightarrow> AllocatingStatus \<times> ThreadLocalStatus \<times> (u64, DetailLockData) HashMap
    \<Rightarrow> AllocatingStatus \<times> ThreadLocalStatus \<times> (u64, DetailLockData) HashMap" where
  "updateAllocatingInfoToThreadLocalData ps g s =
    (case s of (a, ts, hm) \<Rightarrow>
      if sampledForCountingEvent a
      then (let a = a\<lparr>allocatingType := (allocatingType a)
                        \<lparr>objectSizeType := getObjectSizeType ps (at_objectSize (allocatingType a))\<rparr>\<rparr>;
                a = setAllocationTypeForOutputData g a;
                ts = addUpOverviewLockDataToThreadLocalData a ts;
                hm = addUpDetailLockDataToHashTable a hm;
                ts = addUpSyscallsInfoToThreadLocalData a ts;
                ts = addUpCountingEventsToThreadLocalData a ts;
                a = cleanLockFunctionsInfoInAllocatingStatus a
            in (a\<lparr>as_systemCallData := replicate NUM_OF_SYSTEMCALLTYPES SystemCallData_zero\<rparr>, ts, hm))
      else (a, ts, hm))"

definition updateAllocatingInfoToPredictor ::
  "ProgramStatus \<Rightarrow> ThreadCounts \<Rightarrow> Predictor \<Rightarrow> AllocatingStatus \<times> PredictorThread
    \<Rightarrow> AllocatingStatus \<times> PredictorThread" where
  "updateAllocatingInfoToPredictor ps g p s =
    (case s of (a, pt) \<Rightarrow>
      let a = a\<lparr>allocatingType := (allocatingType a)
                  \<lparr>objectSizeTypeForPrediction := getObjectSizeTypeForPrediction ps p (at_objectSize (allocatingType a))\<rparr>\<rparr>;
          a = (if sampledForCountingEvent a then setAllocationTypeForPrediction a
               else setAllocationTypeForPredictionRaw g a);
          ty = allocationTypeForPrediction a
      in (a, if replacedFunctionCycles p ! ty \<noteq> 0
             then pt\<lparr>numOfFunctions := (numOfFunctions pt)[ty := numOfFunctions pt ! ty + 1],
                     totalFunctionCycles := totalFunctionCycles pt + cyclesInRealFunction a\<rparr>
             else pt))"

definition outsideTrackedAllocation :: "AllocatingStatus \<Rightarrow> bool" where
  "outsideTrackedAllocation a \<longleftrightarrow> \<not> doingAllocation (allocatingType a)"

section \<open>What the calls inside the allocation record\<close>

definition addOneSyscallToSyscallData :: "SystemCallTypes \<Rightarrow> u64 \<Rightarrow> AllocatingStatus \<Rightarrow> AllocatingStatus" where
  "addOneSyscallToSyscallData t cycles a =
    a\<lparr>as_systemCallData := (as_systemCallData a)[SystemCallTypes_index t :=
        SystemCallData_addOneSystemCall (as_systemCallData a ! SystemCallTypes_index t) cycles]\<rparr>"

definition update_overview ::
  "LockTypes \<Rightarrow> (OverviewLockDataInAllocatingStatus \<Rightarrow> OverviewLockDataInAllocatingStatus)
    \<Rightarrow> AllocatingStatus \<Rightarrow> AllocatingStatus" where
  "update_overview t f a =
    a\<lparr>as_overviewLockData := (as_overviewLockData a)[LockTypes_index t := f (as_overviewLockData a ! LockTypes_index t)]\<rparr>"

definition recordANewLock :: "LockTypes \<Rightarrow> AllocatingStatus \<Rightarrow> AllocatingStatus" where
  "recordANewLock t a = update_overview t Overview_addANewLock a"

definition initForWritingOneLockData :: "LockTypes \<Rightarrow> u64 \<Rightarrow> AllocatingStatus \<Rightarrow> AllocatingStatus" where
  "initForWritingOneLockData t address a =
    a\<lparr>nowRunningLockType := t,
      queueOfDetailLockData := writingNewDataInTheQueue address (queueOfDetailLockData a)\<rparr>"

definition recordALockContention :: "AllocatingStatus \<Rightarrow> crash + AllocatingStatus" where
  "recordALockContention a =
    bindR (LockQueue_addAContention (queueOfDetailLockData a)) (\<lambda>q.
      Inr ((update_overview (nowRunningLockType a) Overview_addAContention a)\<lparr>queueOfDetailLockData := q\<rparr>))"

definition recordLockCallAndCycles :: "u32 \<Rightarrow> u64 \<Rightarrow> AllocatingStatus \<Rightarrow> crash + AllocatingStatus" where
  "recordLockCallAndCycles calls cycles a =
    bindR (LockQueue_addCallAndCycles calls cycles (queueOfDetailLockData a)) (\<lambda>q.
      Inr ((update_overview (nowRunningLockType a) (Overview_addCallAndCycles calls cycles) a)
             \<lparr>queueOfDetailLockData := q\<rparr>))"

end
