(* ===== verification/AllocatingStatus_Correct.thy ===== *)
theory AllocatingStatus_Correct
  imports AllocatingStatus
begin

text \<open>
  What \<open>AllocatingStatus\<close> guarantees: the numbers it computes for the kind of a call name the
  enumerator of that kind; the kind it predicts is right except in the cases stated here; and what
  the locks taken inside an allocation did reaches the thread's counters and the lock table exactly,
  as long as the queue of 1000 records suffices.
\<close>

section \<open>The kind of a call\<close>

text \<open>The intended meaning of the enumerators, written out.\<close>

fun output_type :: "bool \<Rightarrow> AllocationFunction \<Rightarrow> ObjectSizeType \<Rightarrow> bool \<Rightarrow> AllocationTypeForOutputData" where
  "output_type False MALLOC SMALL False = SERIAL_SMALL_NEW_MALLOC"
| "output_type False MALLOC SMALL True = SERIAL_SMALL_REUSED_MALLOC"
| "output_type False MALLOC MEDIUM False = SERIAL_MEDIUM_NEW_MALLOC"
| "output_type False MALLOC MEDIUM True = SERIAL_MEDIUM_REUSED_MALLOC"
| "output_type False MALLOC LARGE reuse = SERIAL_LARGE_MALLOC"
| "output_type True MALLOC SMALL False = PARALLEL_SMALL_NEW_MALLOC"
| "output_type True MALLOC SMALL True = PARALLEL_SMALL_REUSED_MALLOC"
| "output_type True MALLOC MEDIUM False = PARALLEL_MEDIUM_NEW_MALLOC"
| "output_type True MALLOC MEDIUM True = PARALLEL_MEDIUM_REUSED_MALLOC"
| "output_type True MALLOC LARGE reuse = PARALLEL_LARGE_MALLOC"
| "output_type False FREE SMALL reuse = SERIAL_SMALL_FREE"
| "output_type False FREE MEDIUM reuse = SERIAL_MEDIUM_FREE"
| "output_type False FREE LARGE reuse = SERIAL_LARGE_FREE"
| "output_type True FREE SMALL reuse = PARALLEL_SMALL_FREE"
| "output_type True FREE MEDIUM reuse = PARALLEL_MEDIUM_FREE"
| "output_type True FREE LARGE reuse = PARALLEL_LARGE_FREE"
| "output_type False CALLOC cls reuse = SERIAL_NORMAL_CALLOC"
| "output_type True CALLOC cls reuse = PARALLEL_NORMAL_CALLOC"
| "output_type False REALLOC cls reuse = SERIAL_NORMAL_REALLOC"
| "output_type True REALLOC cls reuse = PARALLEL_NORMAL_REALLOC"
| "output_type False POSIX_MEMALIGN cls reuse = SERIAL_NORMAL_POSIX_MEMALIGN"
| "output_type True POSIX_MEMALIGN cls reuse = PARALLEL_NORMAL_POSIX_MEMALIGN"
| "output_type False MEMALIGN cls reuse = SERIAL_NORMAL_MEMALIGN"
| "output_type True MEMALIGN cls reuse = PARALLEL_NORMAL_MEMALIGN"

definition actual_type :: "ThreadCounts \<Rightarrow> AllocatingType \<Rightarrow> AllocationTypeForOutputData" where
  "actual_type g t =
    output_type (isCurrentlyParallelThread g) (allocatingFunction t) (objectSizeType t) (isReuse t)"

definition predicted_type :: "ThreadCounts \<Rightarrow> AllocatingType \<Rightarrow> AllocationTypeForOutputData" where
  "predicted_type g t =
    output_type (isCurrentlyParallelThread g) (allocatingFunction t) (objectSizeTypeForPrediction t) (isReuse t)"

named_theorems type_codes "the arithmetic on enumerators, unfolded"

lemmas type_arith [type_codes] = setAllocationTypeForOutputData_def setAllocationTypeForPrediction_def
  setAllocationTypeForPredictionRaw_def malloc_type_def other_type_def Let_def

lemma setAllocationTypeForOutputData_type:
  "allocationTypeForOutputData (setAllocationTypeForOutputData g a)
    = AllocationType_index (actual_type g (allocatingType a))"
  by (cases "allocatingFunction (allocatingType a)"; cases "objectSizeType (allocatingType a)";
      cases "isReuse (allocatingType a)"; cases "isCurrentlyParallelThread g")
     (simp_all add: type_codes actual_type_def)

lemma setAllocationTypeForOutputData_rest [simp]:
  "allocatingType (setAllocationTypeForOutputData g a) = allocatingType a"
  "queueOfDetailLockData (setAllocationTypeForOutputData g a) = queueOfDetailLockData a"
  "as_overviewLockData (setAllocationTypeForOutputData g a) = as_overviewLockData a"
  "as_systemCallData (setAllocationTypeForOutputData g a) = as_systemCallData a"
  "cyclesInRealFunction (setAllocationTypeForOutputData g a) = cyclesInRealFunction a"
  by (simp_all add: type_codes)

section \<open>Lock records\<close>

text \<open>
  One lock operation inside an allocation, as the wrappers record it: \<open>lc_new\<close> when the lock was not in
  the table, the address of its entry, whether it was contended, and the cycles it took.
\<close>

record lock_call =
  lc_type :: LockTypes
  lc_new :: bool
  lc_entry :: u64
  lc_contended :: bool
  lc_cycles :: u64

definition record_lock_call :: "lock_call \<Rightarrow> AllocatingStatus \<Rightarrow> crash + AllocatingStatus" where
  "record_lock_call c a =
    (let a = (if lc_new c then recordANewLock (lc_type c) a else a);
         a = initForWritingOneLockData (lc_type c) (lc_entry c) a
     in bindR (if lc_contended c then recordALockContention a else Inr a)
          (recordLockCallAndCycles 1 (lc_cycles c)))"

fun record_lock_calls :: "lock_call list \<Rightarrow> AllocatingStatus \<Rightarrow> crash + AllocatingStatus" where
  "record_lock_calls [] a = Inr a"
| "record_lock_calls (c # cs) a = bindR (record_lock_call c a) (record_lock_calls cs)"

lemma record_lock_calls_snoc:
  "record_lock_calls (cs @ [c]) a = bindR (record_lock_calls cs a) (record_lock_call c)"
proof (induction cs arbitrary: a)
  case Nil
  show ?case by (cases "record_lock_call c a") auto
next
  case (Cons d cs)
  then show ?case by (cases "record_lock_call d a") auto
qed

definition queue_record :: "lock_call \<Rightarrow> DetailLockDataInAllocatingStatus" where
  "queue_record c = \<lparr>ad_numOfCalls = 1, ad_numOfCallsWithContentions = (if lc_contended c then 1 else 0),
    ad_cycles = lc_cycles c, ad_address = lc_entry c\<rparr>"

text \<open>The queue holds one record per call, then zeroes.\<close>

definition queue_holds :: "lock_call list \<Rightarrow> LockQueue \<Rightarrow> bool" where
  "queue_holds cs q \<longleftrightarrow> length cs \<le> LENGTH_OF_QUEUE \<and> queueTail q = int (length cs) - 1
    \<and> lq_queue q = map queue_record cs @ replicate (LENGTH_OF_QUEUE - length cs) Detail_zero"

text \<open>The overview of one lock type, and the sums it stands for.\<close>

definition of_type :: "LockTypes \<Rightarrow> lock_call list \<Rightarrow> lock_call list" where
  "of_type t cs = filter (\<lambda>c. lc_type c = t) cs"

definition of_entry :: "u64 \<Rightarrow> lock_call list \<Rightarrow> lock_call list" where
  "of_entry e cs = filter (\<lambda>c. lc_entry c = e) cs"

definition contended :: "lock_call list \<Rightarrow> u32" where
  "contended cs = of_nat (length (filter lc_contended cs))"

definition overview_of :: "lock_call list \<Rightarrow> OverviewLockDataInAllocatingStatus" where
  "overview_of cs = \<lparr>ao_numOfLocks = of_nat (length (filter lc_new cs)), ao_numOfCalls = of_nat (length cs),
    ao_numOfCallsWithContentions = contended cs, ao_cycles = sum_list (map lc_cycles cs)\<rparr>"

definition lock_types :: "LockTypes list" where
  "lock_types = [MUTEX, SPIN, MUTEXTRY, SPINTRY]"

definition recorded :: "lock_call list \<Rightarrow> AllocatingStatus \<Rightarrow> bool" where
  "recorded cs a \<longleftrightarrow> queue_holds cs (queueOfDetailLockData a)
    \<and> as_overviewLockData a = map (\<lambda>t. overview_of (of_type t cs)) lock_types"

definition unused :: "AllocatingStatus \<Rightarrow> bool" where
  "unused a \<longleftrightarrow> recorded [] a \<and> as_systemCallData a = replicate NUM_OF_SYSTEMCALLTYPES SystemCallData_zero"

lemma lock_types_nth [simp]: "lock_types ! LockTypes_index t = t"
  by (cases t) (simp_all add: lock_types_def)

lemma lock_types_update:
  "(map f lock_types)[LockTypes_index t := x] = map (f(t := x)) lock_types"
  by (cases t) (simp_all add: lock_types_def)

lemma lock_types_map_nth: "map f lock_types ! LockTypes_index t = f t"
  by (cases t) (simp_all add: lock_types_def)

lemma unused_zero: "unused AllocatingStatus_zero"
  by (simp add: unused_def recorded_def queue_holds_def AllocatingStatus_zero_def LockQueue_zero_def
      overview_of_def of_type_def lock_types_def Overview_zero_def contended_def config numeral_eq_Suc)

text \<open>A queue whose last used cell is \<open>y\<close>.\<close>

definition queue_at ::
  "DetailLockDataInAllocatingStatus list \<Rightarrow> DetailLockDataInAllocatingStatus
    \<Rightarrow> DetailLockDataInAllocatingStatus list \<Rightarrow> LockQueue" where
  "queue_at xs y ys = \<lparr>queueTail = int (length xs), lq_queue = xs @ y # ys\<rparr>"

lemma queue_at_ops:
  "LockQueue_addAContention (queue_at xs y ys)
    = Inr (queue_at xs (y\<lparr>ad_numOfCallsWithContentions := ad_numOfCallsWithContentions y + 1\<rparr>) ys)"
  "LockQueue_addCallAndCycles n t (queue_at xs y ys)
    = Inr (queue_at xs (y\<lparr>ad_numOfCalls := ad_numOfCalls y + n, ad_cycles := ad_cycles y + t\<rparr>) ys)"
  by (simp_all add: queue_at_def LockQueue_addAContention_def LockQueue_addCallAndCycles_def update_tail_def)

lemma writingNew_holds:
  assumes "queue_holds cs q" and "length cs < LENGTH_OF_QUEUE"
  shows "writingNewDataInTheQueue e q = queue_at (map queue_record cs) (Detail_zero\<lparr>ad_address := e\<rparr>)
    (replicate (LENGTH_OF_QUEUE - Suc (length cs)) Detail_zero)"
proof -
  have "replicate (LENGTH_OF_QUEUE - length cs) Detail_zero
      = Detail_zero # replicate (LENGTH_OF_QUEUE - Suc (length cs)) Detail_zero"
    using assms(2) by (metis Suc_diff_Suc replicate_Suc)
  with assms show ?thesis
    by (simp add: writingNewDataInTheQueue_def queue_at_def queue_holds_def nth_append list_update_append)
qed

lemma queue_at_holds:
  "length cs < LENGTH_OF_QUEUE \<Longrightarrow>
    queue_holds (cs @ [c]) (queue_at (map queue_record cs) (queue_record c)
      (replicate (LENGTH_OF_QUEUE - Suc (length cs)) Detail_zero))"
  by (simp add: queue_holds_def queue_at_def)

lemma of_type_snoc: "of_type t (cs @ [c]) = of_type t cs @ (if lc_type c = t then [c] else [])"
  by (simp add: of_type_def)

lemma overview_of_snoc:
  "overview_of (cs @ [c]) = Overview_addCallAndCycles 1 (lc_cycles c)
    ((if lc_contended c then Overview_addAContention else id)
      ((if lc_new c then Overview_addANewLock else id) (overview_of cs)))"
  by (simp add: overview_of_def contended_def Overview_addCallAndCycles_def Overview_addAContention_def
      Overview_addANewLock_def)

text \<open>The three updates of one lock call, on the overview of its type and on the last queue cell.\<close>

definition overview_step :: "lock_call \<Rightarrow> OverviewLockDataInAllocatingStatus \<Rightarrow> OverviewLockDataInAllocatingStatus" where
  "overview_step c d = Overview_addCallAndCycles 1 (lc_cycles c)
    ((if lc_contended c then Overview_addAContention else id)
      ((if lc_new c then Overview_addANewLock else id) d))"

definition cell_step :: "lock_call \<Rightarrow> DetailLockDataInAllocatingStatus \<Rightarrow> DetailLockDataInAllocatingStatus" where
  "cell_step c y =
    (let y = if lc_contended c then y\<lparr>ad_numOfCallsWithContentions := ad_numOfCallsWithContentions y + 1\<rparr> else y
     in y\<lparr>ad_numOfCalls := ad_numOfCalls y + 1, ad_cycles := ad_cycles y + lc_cycles c\<rparr>)"

lemma cell_step_fresh: "cell_step c (Detail_zero\<lparr>ad_address := lc_entry c\<rparr>) = queue_record c"
  by (simp add: cell_step_def queue_record_def Detail_zero_def Let_def)

lemma record_lock_call_eq:
  assumes "as_overviewLockData a = map f lock_types"
    and "writingNewDataInTheQueue (lc_entry c) (queueOfDetailLockData a) = queue_at xs y ys"
  shows "record_lock_call c a = Inr (a\<lparr>nowRunningLockType := lc_type c,
    queueOfDetailLockData := queue_at xs (cell_step c y) ys,
    as_overviewLockData := map (f(lc_type c := overview_step c (f (lc_type c)))) lock_types\<rparr>)"
proof (cases "lc_new c"; cases "lc_contended c")
qed (simp_all add: assms record_lock_call_def recordANewLock_def initForWritingOneLockData_def
      recordALockContention_def recordLockCallAndCycles_def update_overview_def Let_def
      lock_types_map_nth lock_types_update queue_at_ops overview_step_def cell_step_def)

lemma record_lock_call_recorded:
  assumes "recorded cs a" and "length cs < LENGTH_OF_QUEUE"
  shows "\<exists>a'. record_lock_call c a = Inr a' \<and> recorded (cs @ [c]) a'
    \<and> allocatingType a' = allocatingType a \<and> as_systemCallData a' = as_systemCallData a
    \<and> sampledForCountingEvent a' = sampledForCountingEvent a
    \<and> cyclesInRealFunction a' = cyclesInRealFunction a
    \<and> allocationTypeForOutputData a' = allocationTypeForOutputData a"
proof -
  let ?f = "\<lambda>t. overview_of (of_type t cs)"
  have h: "queue_holds cs (queueOfDetailLockData a)" and o: "as_overviewLockData a = map ?f lock_types"
    using assms(1) by (auto simp: recorded_def)
  have "?f(lc_type c := overview_step c (?f (lc_type c))) = (\<lambda>t. overview_of (of_type t (cs @ [c])))"
    by (auto simp: fun_eq_iff of_type_snoc overview_of_snoc overview_step_def)
  with record_lock_call_eq [OF o writingNew_holds [OF h assms(2)]] queue_at_holds [OF assms(2)]
  show ?thesis by (simp add: recorded_def cell_step_fresh)
qed

lemma record_lock_calls_recorded:
  assumes "recorded [] a" and "length cs \<le> LENGTH_OF_QUEUE"
  shows "\<exists>a'. record_lock_calls cs a = Inr a' \<and> recorded cs a'
    \<and> allocatingType a' = allocatingType a \<and> as_systemCallData a' = as_systemCallData a
    \<and> sampledForCountingEvent a' = sampledForCountingEvent a
    \<and> cyclesInRealFunction a' = cyclesInRealFunction a
    \<and> allocationTypeForOutputData a' = allocationTypeForOutputData a"
  using assms(2)
proof (induction cs rule: rev_induct)
  case Nil
  then show ?case using assms(1) by simp
next
  case (snoc c cs)
  then obtain a' where a': "record_lock_calls cs a = Inr a'" "recorded cs a'"
      "allocatingType a' = allocatingType a" "as_systemCallData a' = as_systemCallData a"
      "sampledForCountingEvent a' = sampledForCountingEvent a"
      "cyclesInRealFunction a' = cyclesInRealFunction a"
      "allocationTypeForOutputData a' = allocationTypeForOutputData a"
    by auto
  from record_lock_call_recorded [OF a'(2), of c] snoc.prems a' show ?case
    by (auto simp: record_lock_calls_snoc)
qed

section \<open>What reaches the lock table and the thread\<close>

definition detail_sum :: "nat \<Rightarrow> lock_call list \<Rightarrow> DetailLockData \<Rightarrow> DetailLockData" where
  "detail_sum ty cs v =
    v\<lparr>dl_numOfCalls := (dl_numOfCalls v)[ty := dl_numOfCalls v ! ty + of_nat (length cs)],
      dl_numOfCallsWithContentions :=
        (dl_numOfCallsWithContentions v)[ty := dl_numOfCallsWithContentions v ! ty + contended cs],
      dl_cycles := (dl_cycles v)[ty := dl_cycles v ! ty + sum_list (map lc_cycles cs)]\<rparr>"

lemma detail_sum_Nil [simp]: "detail_sum ty [] v = v"
  by (simp add: detail_sum_def contended_def)

lemma detail_sum_Cons:
  assumes "DetailLockData_wf v" and "ty < 24"
  shows "detail_sum ty cs (detail_sum ty [c] v) = detail_sum ty (c # cs) v"
  using assms by (simp add: detail_sum_def contended_def DetailLockData_wf_def cells_def config algebra_simps)

lemma detail_sum_wf: "DetailLockData_wf v \<Longrightarrow> DetailLockData_wf (detail_sum ty cs v)"
  by (simp add: detail_sum_def DetailLockData_wf_def cells_def)

lemma writing_one_record:
  "writingIntoAddress ty (queue_record c) hm =
    hm\<lparr>hm_value := (hm_value hm)(lc_entry c := detail_sum ty [c] (hm_value hm (lc_entry c)))\<rparr>"
  by (simp add: writingIntoAddress_def queue_record_def detail_sum_def contended_def HashMap_assign_def Let_def)

lemma writing_records:
  assumes "ty < 24" and "\<And>c. c \<in> set cs \<Longrightarrow> DetailLockData_wf (hm_value hm (lc_entry c))"
  shows "fold (writingIntoAddress ty) (map queue_record cs) hm
    = hm\<lparr>hm_value := \<lambda>e. detail_sum ty (of_entry e cs) (hm_value hm e)\<rparr>"
  using assms(2)
proof (induction cs arbitrary: hm)
  case (Cons c cs)
  let ?hm = "hm\<lparr>hm_value := (hm_value hm)(lc_entry c := detail_sum ty [c] (hm_value hm (lc_entry c)))\<rparr>"
  have "DetailLockData_wf (hm_value ?hm (lc_entry d))" if "d \<in> set cs" for d
    using Cons.prems that by (simp add: detail_sum_wf)
  from Cons.IH [OF this] Cons.prems [of c] assms(1) show ?case
    by (simp add: writing_one_record)
       (auto simp: fun_eq_iff of_entry_def detail_sum_Cons intro!: HashMap.equality)
qed (simp add: of_entry_def)

definition overview_sum :: "nat \<Rightarrow> OverviewLockDataInAllocatingStatus \<Rightarrow> OverviewLockData \<Rightarrow> OverviewLockData" where
  "overview_sum ty n d =
    d\<lparr>ov_numOfLocks := ov_numOfLocks d + ao_numOfLocks n,
      ov_numOfCalls := (ov_numOfCalls d)[ty := ov_numOfCalls d ! ty + ao_numOfCalls n],
      ov_numOfCallsWithContentions :=
        (ov_numOfCallsWithContentions d)[ty := ov_numOfCallsWithContentions d ! ty + ao_numOfCallsWithContentions n],
      ov_totalCycles := (ov_totalCycles d)[ty := ov_totalCycles d ! ty + ao_cycles n]\<rparr>"

lemma addUpOverview_nth:
  assumes "length (tl_overviewLockData ts) = NUM_OF_LOCKTYPES" and "i < 4"
  shows "tl_overviewLockData (addUpOverviewLockDataToThreadLocalData a ts) ! i
    = overview_sum (allocationTypeForOutputData a) (as_overviewLockData a ! i) (tl_overviewLockData ts ! i)"
  using assms for_loop_update_nth [of NUM_OF_LOCKTYPES "tl_overviewLockData ts" i
    "\<lambda>i d. overview_sum (allocationTypeForOutputData a) (as_overviewLockData a ! i) d"]
  by (simp add: addUpOverviewLockDataToThreadLocalData_def overview_sum_def config Let_def)

lemma addUp_keep_overview [simp]:
  "tl_overviewLockData (addUpSyscallsInfoToThreadLocalData a ts) = tl_overviewLockData ts"
  "tl_overviewLockData (addUpCountingEventsToThreadLocalData a ts) = tl_overviewLockData ts"
  by (simp_all add: addUpSyscallsInfoToThreadLocalData_def addUpCountingEventsToThreadLocalData_def Let_def)

lemma cleaned_unused:
  assumes "queue_holds cs (queueOfDetailLockData a)"
  shows "unused ((cleanLockFunctionsInfoInAllocatingStatus a)
    \<lparr>as_systemCallData := replicate NUM_OF_SYSTEMCALLTYPES SystemCallData_zero\<rparr>)"
proof -
  have "replicate (length cs) Detail_zero @ replicate (LENGTH_OF_QUEUE - length cs) Detail_zero
      = replicate LENGTH_OF_QUEUE Detail_zero"
    using assms by (simp add: queue_holds_def replicate_add [symmetric])
  then show ?thesis
    using assms by (simp add: unused_def recorded_def queue_holds_def cleanLockFunctionsInfoInAllocatingStatus_def
        cleanUpQueue_def lock_types_def of_type_def overview_of_def contended_def Overview_zero_def
        NUM_OF_LOCKTYPES_def numeral_eq_Suc)
qed

lemma update_all_spec:
  assumes rec: "recorded cs a" and s: "sampledForCountingEvent a"
    and ts: "length (tl_overviewLockData ts) = NUM_OF_LOCKTYPES"
    and hm: "\<And>c. c \<in> set cs \<Longrightarrow> DetailLockData_wf (hm_value hm (lc_entry c))"
  shows "\<exists>a' ts' ty. updateAllocatingInfoToThreadLocalData ps g (a, ts, hm)
      = (a', ts', hm\<lparr>hm_value := \<lambda>e. detail_sum ty (of_entry e cs) (hm_value hm e)\<rparr>)
    \<and> unused a' \<and> ty = AllocationType_index (actual_type g (allocatingType a'))
    \<and> objectSizeType (allocatingType a') = getObjectSizeType ps (at_objectSize (allocatingType a))
    \<and> (\<forall>t. tl_overviewLockData ts' ! LockTypes_index t
          = overview_sum ty (overview_of (of_type t cs)) (tl_overviewLockData ts ! LockTypes_index t))"
proof -
  let ?b = "setAllocationTypeForOutputData g (a\<lparr>allocatingType := (allocatingType a)
    \<lparr>objectSizeType := getObjectSizeType ps (at_objectSize (allocatingType a))\<rparr>\<rparr>)"
  let ?ty = "allocationTypeForOutputData ?b"
  have ty: "?ty < 24" "?ty = AllocationType_index (actual_type g (allocatingType ?b))"
    by (simp_all add: setAllocationTypeForOutputData_type)
  have q: "queue_holds cs (queueOfDetailLockData ?b)" using rec by (simp add: recorded_def)
  have "nat (queueTail (queueOfDetailLockData ?b) + 1) = length cs" using q by (simp add: queue_holds_def)
  then have "take (nat (queueTail (queueOfDetailLockData ?b) + 1)) (lq_queue (queueOfDetailLockData ?b))
      = map queue_record cs"
    using q by (simp add: queue_holds_def)
  then have "addUpDetailLockDataToHashTable ?b hm
      = hm\<lparr>hm_value := \<lambda>e. detail_sum ?ty (of_entry e cs) (hm_value hm e)\<rparr>"
    using writing_records [OF ty(1), of cs hm] hm
    by (simp only: addUpDetailLockDataToHashTable_def writingIntoHashTable_def)
  then have "updateAllocatingInfoToThreadLocalData ps g (a, ts, hm)
      = ((cleanLockFunctionsInfoInAllocatingStatus ?b)
           \<lparr>as_systemCallData := replicate NUM_OF_SYSTEMCALLTYPES SystemCallData_zero\<rparr>,
         addUpCountingEventsToThreadLocalData ?b (addUpSyscallsInfoToThreadLocalData ?b
           (addUpOverviewLockDataToThreadLocalData ?b ts)),
         hm\<lparr>hm_value := \<lambda>e. detail_sum ?ty (of_entry e cs) (hm_value hm e)\<rparr>)"
    using s by (simp add: updateAllocatingInfoToThreadLocalData_def Let_def)
  moreover have "as_overviewLockData ?b ! LockTypes_index t = overview_of (of_type t cs)" for t
    using rec by (simp add: recorded_def lock_types_map_nth)
  ultimately show ?thesis
    using cleaned_unused [OF q] ty(2) addUpOverview_nth [OF ts LockTypes_index_less, of ?b]
    by (auto simp: cleanLockFunctionsInfoInAllocatingStatus_def)
qed

section \<open>Properties\<close>

text \<open>
  C28: the class of a call. The number \<open>setAllocationTypeForOutputData\<close> computes is the enumerator that
  the mode of the program, the function called, the size class and the reuse of the address name.
\<close>

theorem output_type_is_the_named_one:
  "AllocationType_of_int (int (allocationTypeForOutputData (setAllocationTypeForOutputData g a)))
    = Some (actual_type g (allocatingType a))"
  by (simp only: setAllocationTypeForOutputData_type AllocationType_roundtrip)

text \<open>
  The class predicted for a sampled \<open>malloc\<close> or \<open>free\<close> is the one the predicted size class names,
  except for a \<open>malloc\<close> at a reused address of which exactly one of the two size classes is large. A
  small or medium object predicted large then counts as the enumerator after the large one: a small
  allocation of a parallel program, or the freeing of a small object.
\<close>

theorem predicted_type_wrong_iff:
  assumes "allocatingFunction (allocatingType a) \<in> {MALLOC, FREE}"
  shows "AllocationType_of_int (int (allocationTypeForPrediction
      (setAllocationTypeForPrediction (setAllocationTypeForOutputData g a))))
        = Some (predicted_type g (allocatingType a))
    \<longleftrightarrow> \<not> (allocatingFunction (allocatingType a) = MALLOC \<and> isReuse (allocatingType a)
         \<and> (objectSizeType (allocatingType a) = LARGE) \<noteq> (objectSizeTypeForPrediction (allocatingType a) = LARGE))"
proof -
  from assms consider "allocatingFunction (allocatingType a) = MALLOC" | "allocatingFunction (allocatingType a) = FREE" by auto
  then show ?thesis
    by cases (cases "objectSizeType (allocatingType a)"; cases "objectSizeTypeForPrediction (allocatingType a)";
        cases "isReuse (allocatingType a)"; cases "isCurrentlyParallelThread g";
        simp add: setAllocationTypeForPrediction_def Let_def setAllocationTypeForOutputData_type actual_type_def predicted_type_def
          AllocationType_of_int_def allocation_types_def)+
qed

theorem predicted_type_wrong_iff_witness:
  "let a = AllocatingStatus_zero\<lparr>allocatingType := AllocatingType_zero
         \<lparr>isReuse := True, objectSizeTypeForPrediction := LARGE\<rparr>\<rparr>;
       g = \<lparr>totalNumOfThread = 3, totalNumOfRunningThread = 2\<rparr>
   in AllocationType_of_int (int (allocationTypeForPrediction
      (setAllocationTypeForPrediction (setAllocationTypeForOutputData g a)))) \<noteq> Some (predicted_type g (allocatingType a))"
  using predicted_type_wrong_iff [of "AllocatingStatus_zero\<lparr>allocatingType := AllocatingType_zero
         \<lparr>isReuse := True, objectSizeTypeForPrediction := LARGE\<rparr>\<rparr>" "\<lparr>totalNumOfThread = 3, totalNumOfRunningThread = 2\<rparr>"]
  by (simp add: AllocatingType_zero_def Let_def)

text \<open>
  C29: lock accounting is exact. If at most 1000 lock operations happen inside a sampled call that starts
  with nothing recorded, they are all recorded, and afterwards each lock's entry of the table and each
  lock type's overview of the thread have grown, in the cell of the call's type and in no other, by
  exactly the calls, contentions and cycles of the operations on this lock and of this type; nothing
  is left recorded for the next call.
\<close>

theorem lock_accounting_exact:
  assumes "unused a" and "sampledForCountingEvent a" and "length cs \<le> LENGTH_OF_QUEUE"
    and "ThreadLocalStatus_wf ts" and "\<forall>c \<in> set cs. DetailLockData_wf (hm_value hm (lc_entry c))"
  shows "\<exists>a' a'' ts' ty. record_lock_calls cs a = Inr a'
    \<and> updateAllocatingInfoToThreadLocalData ps g (a', ts, hm)
      = (a'', ts', hm\<lparr>hm_value := \<lambda>e. detail_sum ty (of_entry e cs) (hm_value hm e)\<rparr>)
    \<and> unused a'' \<and> ty = AllocationType_index (actual_type g (allocatingType a''))
    \<and> (\<forall>t. tl_overviewLockData ts' ! LockTypes_index t
          = overview_sum ty (overview_of (of_type t cs)) (tl_overviewLockData ts ! LockTypes_index t))"
proof -
  obtain a' where a': "record_lock_calls cs a = Inr a'" "recorded cs a'" "sampledForCountingEvent a'"
    using record_lock_calls_recorded [of a cs] assms(1,2,3) by (auto simp: unused_def)
  from update_all_spec [OF a'(2,3), of ts hm ps g] assms(4,5) a'(1) show ?thesis
    by (auto simp: ThreadLocalStatus_wf_def)
qed

theorem lock_accounting_exact_witness:
  "\<exists>a' a'' ts' hm'. record_lock_calls
      [\<lparr>lc_type = MUTEX, lc_new = True, lc_entry = 64, lc_contended = True, lc_cycles = 30\<rparr>,
       \<lparr>lc_type = SPIN, lc_new = False, lc_entry = 96, lc_contended = False, lc_cycles = 20\<rparr>]
      (AllocatingStatus_zero\<lparr>sampledForCountingEvent := True\<rparr>) = Inr a'
    \<and> updateAllocatingInfoToThreadLocalData ProgramStatus_zero \<lparr>totalNumOfThread = 3, totalNumOfRunningThread = 2\<rparr>
        (a', ThreadLocalStatus_zero, empty_map hashAddr compareAddr 32 (DetailLockData_newDetailLockData MUTEX) 0)
      = (a'', ts', hm')
    \<and> unused a'' \<and> hm_value hm' 32 = DetailLockData_newDetailLockData MUTEX
    \<and> ov_numOfLocks (tl_overviewLockData ts' ! LockTypes_index MUTEX) = 1"
proof -
  let ?a = "AllocatingStatus_zero\<lparr>sampledForCountingEvent := True\<rparr>"
  let ?cs = "[\<lparr>lc_type = MUTEX, lc_new = True, lc_entry = 64, lc_contended = True, lc_cycles = 30\<rparr>,
       \<lparr>lc_type = SPIN, lc_new = False, lc_entry = 96, lc_contended = False, lc_cycles = 20\<rparr>]"
  let ?hm = "empty_map hashAddr compareAddr 32 (DetailLockData_newDetailLockData MUTEX) 0"
  have h: "unused ?a" "sampledForCountingEvent ?a" "length ?cs \<le> LENGTH_OF_QUEUE"
      "\<forall>c \<in> set ?cs. DetailLockData_wf (hm_value ?hm (lc_entry c))"
    using unused_zero by (simp_all add: unused_def recorded_def config empty_map_def)
  obtain a' a'' ts' ty where r: "record_lock_calls ?cs ?a = Inr a'"
      "updateAllocatingInfoToThreadLocalData ProgramStatus_zero \<lparr>totalNumOfThread = 3, totalNumOfRunningThread = 2\<rparr>
        (a', ThreadLocalStatus_zero, ?hm)
       = (a'', ts', ?hm\<lparr>hm_value := \<lambda>e. detail_sum ty (of_entry e ?cs) (hm_value ?hm e)\<rparr>)" "unused a''"
      "\<forall>t. tl_overviewLockData ts' ! LockTypes_index t = overview_sum ty (overview_of (of_type t ?cs))
        (tl_overviewLockData ThreadLocalStatus_zero ! LockTypes_index t)"
    using lock_accounting_exact [OF h(1-3) ThreadLocalStatus_zero_wf h(4)] by blast
  have "ov_numOfLocks (tl_overviewLockData ts' ! LockTypes_index MUTEX) = 1"
    using spec [OF r(4), of MUTEX]
    by (simp add: overview_sum_def overview_of_def of_type_def ThreadLocalStatus_zero_def
        OverviewLockData_zero_def config)
  moreover have "hm_value (?hm\<lparr>hm_value := \<lambda>e. detail_sum ty (of_entry e ?cs) (hm_value ?hm e)\<rparr>) 32
      = DetailLockData_newDetailLockData MUTEX"
    by (simp add: of_entry_def empty_map_def)
  ultimately show ?thesis using r(1-3) by blast
qed

lemma detail_sum_two:
  assumes "DetailLockData_wf v" and "ty < 24"
  shows "detail_sum ty [d, c] (detail_sum ty cs v) = detail_sum ty (cs @ [d, c\<lparr>lc_entry := e\<rparr>]) v"
  using assms by (simp add: detail_sum_def contended_def DetailLockData_wf_def cells_def config algebra_simps)

lemma merged_cell_writes:
  assumes "DetailLockData_wf (hm_value hm (lc_entry d))" and "ty < 24"
  shows "writingIntoAddress ty (cell_step c (queue_record d)) hm
    = hm\<lparr>hm_value := (hm_value hm)(lc_entry d := detail_sum ty [d, c] (hm_value hm (lc_entry d)))\<rparr>"
  using assms
  by (simp add: writingIntoAddress_def cell_step_def queue_record_def detail_sum_def contended_def
      HashMap_assign_def Let_def algebra_simps)

text \<open>
  when the queue is full, the next lock is blamed on the last one recorded. After exactly 1000 lock
  operations one more of them leaves the lock table as if it had been an operation on the lock of the
  thousandth, whatever lock it was.
\<close>

theorem full_lock_queue_blames_the_last_lock:
  assumes "unused a" and "length cs = LENGTH_OF_QUEUE" and "allocationTypeForOutputData a < 24"
    and "\<forall>d \<in> set cs. DetailLockData_wf (hm_value hm (lc_entry d))"
  shows "\<exists>a'. record_lock_calls (cs @ [c]) a = Inr a'
    \<and> addUpDetailLockDataToHashTable a' hm = hm\<lparr>hm_value := \<lambda>e. detail_sum (allocationTypeForOutputData a)
        (of_entry e (cs @ [c\<lparr>lc_entry := lc_entry (last cs)\<rparr>])) (hm_value hm e)\<rparr>"
proof -
  obtain bs d where cs: "cs = bs @ [d]"
    using assms(2) by (cases cs rule: rev_exhaust) (auto simp: config)
  obtain a' where a': "record_lock_calls cs a = Inr a'" "recorded cs a'"
      "allocationTypeForOutputData a' = allocationTypeForOutputData a"
    using record_lock_calls_recorded [of a cs] assms(1,2) by (auto simp: unused_def)
  then have q: "queueOfDetailLockData a' = queue_at (map queue_record bs) (queue_record d) []"
    using assms(2) cs by (intro LockQueue.equality) (auto simp: recorded_def queue_holds_def queue_at_def)
  then have "writingNewDataInTheQueue (lc_entry c) (queueOfDetailLockData a')
      = queue_at (map queue_record bs) (queue_record d) []"
    using assms(2) cs by (simp add: writingNewDataInTheQueue_def queue_at_def)
  moreover have "as_overviewLockData a' = map (\<lambda>t. overview_of (of_type t cs)) lock_types"
    using a'(2) by (simp add: recorded_def)
  ultimately obtain a'' where a'': "record_lock_calls (cs @ [c]) a = Inr a''"
      "queueOfDetailLockData a'' = queue_at (map queue_record bs) (cell_step c (queue_record d)) []"
      "allocationTypeForOutputData a'' = allocationTypeForOutputData a"
    using a' record_lock_call_eq [of a' "\<lambda>t. overview_of (of_type t cs)" c]
    by (auto simp: record_lock_calls_snoc)
  let ?ty = "allocationTypeForOutputData a"
  let ?hm = "hm\<lparr>hm_value := \<lambda>e. detail_sum ?ty (of_entry e bs) (hm_value hm e)\<rparr>"
  have wf: "DetailLockData_wf (hm_value hm (lc_entry x))" if "x \<in> set cs" for x using assms(4) that by blast
  have "addUpDetailLockDataToHashTable a'' hm
      = writingIntoAddress ?ty (cell_step c (queue_record d)) (fold (writingIntoAddress ?ty) (map queue_record bs) hm)"
    using a''(2,3) by (simp add: addUpDetailLockDataToHashTable_def writingIntoHashTable_def queue_at_def)
  also have "... = writingIntoAddress ?ty (cell_step c (queue_record d)) ?hm"
    using writing_records [OF assms(3), of bs hm] wf cs by simp
  also have "... = ?hm\<lparr>hm_value := (hm_value ?hm)
      (lc_entry d := detail_sum ?ty [d, c] (hm_value ?hm (lc_entry d)))\<rparr>"
    using wf cs by (intro merged_cell_writes [OF _ assms(3)]) (simp add: detail_sum_wf)
  also have "... = hm\<lparr>hm_value := \<lambda>e. detail_sum ?ty
      (of_entry e (cs @ [c\<lparr>lc_entry := lc_entry (last cs)\<rparr>])) (hm_value hm e)\<rparr>"
    using wf [of d] cs assms(3)
    by (auto simp: fun_eq_iff of_entry_def detail_sum_two intro!: HashMap.equality)
  finally show ?thesis using a''(1) by blast
qed

theorem full_lock_queue_blames_the_last_lock_witness:
  "\<exists>a'. record_lock_calls (replicate 1000 \<lparr>lc_type = SPIN, lc_new = False, lc_entry = 96, lc_contended = False, lc_cycles = 20\<rparr>
        @ [\<lparr>lc_type = MUTEX, lc_new = True, lc_entry = 64, lc_contended = True, lc_cycles = 30\<rparr>]) AllocatingStatus_zero = Inr a'
    \<and> hm_value (addUpDetailLockDataToHashTable a'
        (empty_map hashAddr compareAddr 32 (DetailLockData_newDetailLockData MUTEX) (0 :: u64))) 64
      = DetailLockData_newDetailLockData MUTEX"
proof -
  let ?c = "\<lparr>lc_type = SPIN, lc_new = False, lc_entry = 96, lc_contended = False, lc_cycles = 20\<rparr>"
  let ?hm = "empty_map hashAddr compareAddr 32 (DetailLockData_newDetailLockData MUTEX) (0 :: u64)"
  have h: "length (replicate 1000 ?c) = LENGTH_OF_QUEUE" "allocationTypeForOutputData AllocatingStatus_zero < 24"
      "\<forall>d \<in> set (replicate 1000 ?c). DetailLockData_wf (hm_value ?hm (lc_entry d))"
    by (simp_all add: config AllocatingStatus_zero_def empty_map_def)
  have l: "lc_entry (last (replicate 1000 ?c)) = 96" by (simp add: last_replicate)
  from full_lock_queue_blames_the_last_lock [OF unused_zero h,
      of "\<lparr>lc_type = MUTEX, lc_new = True, lc_entry = 64, lc_contended = True, lc_cycles = 30\<rparr>"]
  show ?thesis unfolding l by (auto simp: of_entry_def empty_map_def)
qed

end
