(* ===== verification/GlobalStatus.thy ===== *)
theory GlobalStatus
  imports AllocatingStatus_Correct
begin

text \<open>
  The program-wide counters and the report (\<^verbatim>\<open>src_light/globalstatus.h\<close>, \<^verbatim>\<open>globalstatus.cpp\<close>):
  a thread that ends adds its counters and its lock table to the global ones; at exit they are printed.
  The lock around \<open>globalize\<close> is that of \<open>Spinlock\<close>.

  A report is a value with the numbers that are printed; formatting is I/O. A quotient printed as a
  floating point number (\<open>%20.1lf\<close>) is kept as the pair of its operands, an integer quotient is computed
  and divides by zero where the source would.
\<close>

record GlobalStatus =
  gs_numOfSampledCountingFunctions :: "u32 list"
  gs_cycles :: "u64 list"
  gs_overviewLockData :: "OverviewLockData list"
  gs_systemCallData :: "SystemCallData list list"
  gs_friendlinessStatus :: FriendlinessStatus
  potentialMemoryLeakFunctions :: "64 word"

definition GlobalStatus_zero :: GlobalStatus where
  "GlobalStatus_zero = \<lparr>gs_numOfSampledCountingFunctions = replicate NUM_OF_ALLOCATIONTYPEFOROUTPUTDATA 0,
    gs_cycles = replicate NUM_OF_ALLOCATIONTYPEFOROUTPUTDATA 0,
    gs_overviewLockData = replicate NUM_OF_LOCKTYPES OverviewLockData_zero,
    gs_systemCallData =
      replicate NUM_OF_SYSTEMCALLTYPES (replicate NUM_OF_ALLOCATIONTYPEFOROUTPUTDATA SystemCallData_zero),
    gs_friendlinessStatus = FriendlinessStatus_zero, potentialMemoryLeakFunctions = 0\<rparr>"

text \<open>
  The first two loops of \<open>globalize\<close> and the last statement, on the arrays: allocation types outside,
  system call types inside.
\<close>

definition globalize_counters :: "ThreadLocalStatus \<Rightarrow> GlobalStatus \<Rightarrow> GlobalStatus" where
  "globalize_counters ts g =
    (let g = for_loop NUM_OF_ALLOCATIONTYPEFOROUTPUTDATA (\<lambda>ty g.
           g\<lparr>gs_cycles := (gs_cycles g)[ty := gs_cycles g ! ty + tl_cycles ts ! ty],
             gs_numOfSampledCountingFunctions := (gs_numOfSampledCountingFunctions g)
               [ty := gs_numOfSampledCountingFunctions g ! ty + tl_numOfSampledCountingFunctions ts ! ty],
             gs_systemCallData := for_loop NUM_OF_SYSTEMCALLTYPES (\<lambda>sc ds.
                 ds[sc := (ds ! sc)[ty := SystemCallData_add (ds ! sc ! ty) (tl_systemCallData ts ! sc ! ty)]])
               (gs_systemCallData g)\<rparr>) g;
         g = g\<lparr>gs_overviewLockData := for_loop NUM_OF_LOCKTYPES (\<lambda>i ds.
                 ds[i := OverviewLockData_add (ds ! i) (tl_overviewLockData ts ! i)]) (gs_overviewLockData g)\<rparr>
     in g\<lparr>gs_friendlinessStatus := FriendlinessStatus_add (gs_friendlinessStatus g) (tl_friendlinessStatus ts)\<rparr>)"

text \<open>
  The loop over the thread's lock table: find the lock in the global table, insert it or add to it.
  \<open>tid\<close> is the running thread, whose region the inserted entries come from.
\<close>

type_synonym lock_table = "(u64, DetailLockData) HashMap"

definition globalize_lock ::
  "nat \<Rightarrow> u64 \<Rightarrow> DetailLockData \<Rightarrow> lock_table \<times> MyMalloc \<Rightarrow> crash + (lock_table \<times> MyMalloc)" where
  "globalize_lock tid lock d gm =
    bindR (HashMap_find (fst gm) lock) (\<lambda>found.
      case found of
        None \<Rightarrow> bindR (HashMap_insert (fst gm) (snd gm) tid lock d) (\<lambda>(_, g, m). Inr (g, m))
      | Some e \<Rightarrow> Inr (HashMap_assign (fst gm) e (DetailLockData_add (hm_value (fst gm) e) d), snd gm))"

fun globalize_locks ::
  "nat \<Rightarrow> lock_table \<Rightarrow> u64 list \<Rightarrow> lock_table \<times> MyMalloc \<Rightarrow> crash + (lock_table \<times> MyMalloc)" where
  "globalize_locks tid usage [] gm = Inr gm"
| "globalize_locks tid usage (e # es) gm =
    bindR (globalize_lock tid (hm_key usage e) (hm_value usage e) gm) (globalize_locks tid usage es)"

text \<open>
  The whole of \<open>globalize\<close>. The number of iteration steps is bounded by fuel; \<open>None\<close> says that the
  iteration did not end within it.
\<close>

definition globalize ::
  "nat \<Rightarrow> nat \<Rightarrow> ThreadLocalStatus \<Rightarrow> lock_table \<Rightarrow> GlobalStatus \<Rightarrow> lock_table \<times> MyMalloc
    \<Rightarrow> (crash + (GlobalStatus \<times> lock_table \<times> MyMalloc)) option" where
  "globalize fuel tid ts usage g gm =
    map_option (\<lambda>es. bindR (globalize_locks tid usage es gm) (\<lambda>gm. Inr (globalize_counters ts g, gm)))
      (iterate usage fuel (HashMap_begin usage))"

section \<open>Leaks\<close>

definition countPotentialMemoryLeakFunctions :: "GlobalStatus \<Rightarrow> GlobalStatus" where
  "countPotentialMemoryLeakFunctions g =
    (let n = for_loop NUM_OF_ALLOCATIONTYPEFOROUTPUTDATA (\<lambda>ty n.
           if ty = AllocationType_index SERIAL_NORMAL_REALLOC \<or> ty = AllocationType_index PARALLEL_NORMAL_REALLOC then n
           else if ty = AllocationType_index SERIAL_SMALL_FREE \<or> ty = AllocationType_index PARALLEL_SMALL_FREE
               \<or> ty = AllocationType_index SERIAL_MEDIUM_FREE \<or> ty = AllocationType_index PARALLEL_MEDIUM_FREE
               \<or> ty = AllocationType_index SERIAL_LARGE_FREE \<or> ty = AllocationType_index PARALLEL_LARGE_FREE
           then n - ucast (gs_numOfSampledCountingFunctions g ! ty)
           else n + ucast (gs_numOfSampledCountingFunctions g ! ty)) (potentialMemoryLeakFunctions g)
     in g\<lparr>potentialMemoryLeakFunctions := if sint n < 0 then 0 else n\<rparr>)"

section \<open>The report\<close>

definition printNumOfAllocations :: "GlobalStatus \<Rightarrow> ((nat \<times> u32) list \<times> 64 word) \<times> GlobalStatus" where
  "printNumOfAllocations g =
    (let g' = countPotentialMemoryLeakFunctions g in
     (([(ty, gs_numOfSampledCountingFunctions g ! ty). ty \<leftarrow> [0..<NUM_OF_ALLOCATIONTYPEFOROUTPUTDATA],
        gs_numOfSampledCountingFunctions g ! ty \<noteq> 0], potentialMemoryLeakFunctions g'), g'))"

definition printCountingEvents :: "GlobalStatus \<Rightarrow> (nat \<times> u32 \<times> u64 \<times> u64) list" where
  "printCountingEvents g =
    [(ty, gs_numOfSampledCountingFunctions g ! ty, gs_cycles g ! ty,
      gs_cycles g ! ty div ucast (gs_numOfSampledCountingFunctions g ! ty)).
     ty \<leftarrow> [0..<NUM_OF_ALLOCATIONTYPEFOROUTPUTDATA], gs_numOfSampledCountingFunctions g ! ty \<noteq> 0]"

definition divide :: "'a :: len word \<Rightarrow> 'a word \<Rightarrow> crash + 'a word" where
  "divide a b = (if b = 0 then Inl DivisionByZero else Inr (a div b))"

text \<open>The lines about one lock (or lock type) and one allocation type.\<close>

record LockLines =
  ll_calls :: u32
  ll_callsPer :: "u32 \<times> u32"
  ll_contentions :: u32
  ll_contentionsPer :: "u32 \<times> u32"
  ll_rate :: u32
  ll_cycles :: u64
  ll_cyclesPerLock :: u64
  ll_cyclesPer :: u64

definition lock_lines :: "u32 \<Rightarrow> u32 \<Rightarrow> u32 \<Rightarrow> u64 \<Rightarrow> crash + LockLines" where
  "lock_lines sampled calls contentions cycles =
    bindR (divide (contentions * 100) calls) (\<lambda>rate.
    bindR (divide cycles (ucast calls)) (\<lambda>perLock.
    bindR (divide cycles (ucast sampled)) (\<lambda>per.
      Inr \<lparr>ll_calls = calls, ll_callsPer = (calls, sampled), ll_contentions = contentions,
           ll_contentionsPer = (contentions, sampled), ll_rate = rate, ll_cycles = cycles,
           ll_cyclesPerLock = perLock, ll_cyclesPer = per\<rparr>)))"

fun collect :: "('a \<Rightarrow> crash + 'b list) \<Rightarrow> 'a list \<Rightarrow> crash + 'b list" where
  "collect f [] = Inr []"
| "collect f (x # xs) = bindR (f x) (\<lambda>ys. bindR (collect f xs) (\<lambda>zs. Inr (ys @ zs)))"

definition lines_of_types ::
  "u32 list \<Rightarrow> u32 list \<Rightarrow> u32 list \<Rightarrow> u64 list \<Rightarrow> crash + (nat \<times> LockLines) list" where
  "lines_of_types sampled calls contentions cycles =
    collect (\<lambda>ty. if calls ! ty > 0
        then bindR (lock_lines (sampled ! ty) (calls ! ty) (contentions ! ty) (cycles ! ty)) (\<lambda>l. Inr [(ty, l)])
        else Inr []) [0..<NUM_OF_ALLOCATIONTYPEFOROUTPUTDATA]"

definition printOverviewLocks :: "GlobalStatus \<Rightarrow> crash + (nat \<times> (nat \<times> LockLines) list) list" where
  "printOverviewLocks g =
    collect (\<lambda>t. let d = gs_overviewLockData g ! t in
        if ov_numOfLocks d > 0
        then bindR (lines_of_types (gs_numOfSampledCountingFunctions g) (ov_numOfCalls d)
               (ov_numOfCallsWithContentions d) (ov_totalCycles d)) (\<lambda>ls. Inr [(t, ls)])
        else Inr [(t, [])]) [0..<NUM_OF_LOCKTYPES]"

definition printDetailLock :: "GlobalStatus \<Rightarrow> lock_table \<Rightarrow> u64 \<Rightarrow> crash + (u64 \<times> LockTypes \<times> (nat \<times> LockLines) list) list" where
  "printDetailLock g locks e =
    (let d = hm_value locks e in
     if DetailLockData_isAnImportantLock (gs_numOfSampledCountingFunctions g) d
     then bindR (lines_of_types (gs_numOfSampledCountingFunctions g) (dl_numOfCalls d)
            (dl_numOfCallsWithContentions d) (dl_cycles d)) (\<lambda>ls. Inr [(hm_key locks e, lockType d, ls)])
     else Inr [])"

definition printDetailLocks ::
  "nat \<Rightarrow> GlobalStatus \<Rightarrow> lock_table \<Rightarrow> (crash + (u64 \<times> LockTypes \<times> (nat \<times> LockLines) list) list) option" where
  "printDetailLocks fuel g locks =
    map_option (collect (printDetailLock g locks)) (iterate locks fuel (HashMap_begin locks))"

record SyscallLines =
  sl_num :: u32
  sl_numPer :: "u32 \<times> u32"
  sl_cycles :: u64
  sl_cyclesPerCall :: u64
  sl_cyclesPer :: u64

definition syscall_lines :: "u32 \<Rightarrow> SystemCallData \<Rightarrow> crash + SyscallLines" where
  "syscall_lines sampled d =
    bindR (divide (sc_cycles d) (ucast (sc_num d))) (\<lambda>perCall.
    bindR (divide (sc_cycles d) (ucast sampled)) (\<lambda>per.
      Inr \<lparr>sl_num = sc_num d, sl_numPer = (sc_num d, sampled), sl_cycles = sc_cycles d,
           sl_cyclesPerCall = perCall, sl_cyclesPer = per\<rparr>))"

definition printSyscalls :: "GlobalStatus \<Rightarrow> crash + (nat \<times> nat \<times> SyscallLines) list" where
  "printSyscalls g =
    collect (\<lambda>sc. collect (\<lambda>ty.
        if sc_num (gs_systemCallData g ! sc ! ty) > 0
        then bindR (syscall_lines (gs_numOfSampledCountingFunctions g ! ty) (gs_systemCallData g ! sc ! ty))
               (\<lambda>l. Inr [(sc, ty, l)])
        else Inr []) [0..<NUM_OF_ALLOCATIONTYPEFOROUTPUTDATA]) [0..<NUM_OF_SYSTEMCALLTYPES]"

type_synonym shadow_report = "CoherencyReport list \<times> u8 option \<times> (ConflictReport list \<times> u8) option"

definition printFriendliness ::
  "GlobalStatus \<Rightarrow> ShadowMemory \<Rightarrow> crash + ((u32 \<times> (u64 \<times> u64 \<times> shadow_report) option) \<times> ShadowMemory)" where
  "printFriendliness g s =
    (let f = gs_friendlinessStatus g; n = numOfSampling f in
     if n div 100 \<noteq> 0
     then bindR (ShadowMemory_printOutput s) (\<lambda>(r, s).
       Inr ((n, Some (totalMemoryUsageOfSampledPages f * 100 div ucast n div of_nat PAGESIZE,
                      totalMemoryUsageOfSampledCacheLines f * 100 div ucast n div of_nat CACHELINE_SIZE, r)), s))
     else Inr ((n, None), s))"

text \<open>\<open>printOutput\<close>, section after section in the source's order.\<close>

record Report =
  rp_largeObjectThreshold :: u32
  rp_numOfAllocations :: "(nat \<times> u32) list \<times> 64 word"
  rp_countingEvents :: "(nat \<times> u32 \<times> u64 \<times> u64) list"
  rp_overviewLocks :: "(nat \<times> (nat \<times> LockLines) list) list"
  rp_detailLocks :: "(u64 \<times> LockTypes \<times> (nat \<times> LockLines) list) list"
  rp_syscalls :: "(nat \<times> nat \<times> SyscallLines) list"
  rp_friendliness :: "u32 \<times> (u64 \<times> u64 \<times> shadow_report) option"
  rp_prediction :: PredictionReport

definition GlobalStatus_printOutput ::
  "nat \<Rightarrow> ProgramStatus \<Rightarrow> Predictor \<Rightarrow> lock_table \<Rightarrow> GlobalStatus \<Rightarrow> ShadowMemory
    \<Rightarrow> (crash + (Report \<times> GlobalStatus \<times> ShadowMemory)) option" where
  "GlobalStatus_printOutput fuel ps p locks g s =
    (let (nums, g) = printNumOfAllocations g in
     map_option (\<lambda>details.
       bindR (printOverviewLocks g) (\<lambda>ov.
       bindR details (\<lambda>dt.
       bindR (printSyscalls g) (\<lambda>sc.
       bindR (printFriendliness g s) (\<lambda>(fr, s).
         Inr (\<lparr>rp_largeObjectThreshold = largeObjectThreshold ps, rp_numOfAllocations = nums,
               rp_countingEvents = printCountingEvents g, rp_overviewLocks = ov, rp_detailLocks = dt,
               rp_syscalls = sc, rp_friendliness = fr, rp_prediction = Predictor_printOutput p\<rparr>, g, s))))))
       (printDetailLocks fuel g locks))"

end
