(* ===== verification/GlobalStatus_Correct.thy ===== *)
theory GlobalStatus_Correct
  imports GlobalStatus
begin

text \<open>
  What the global counters guarantee: threads may end in any order, the lock tables are merged
  lock by lock, the leak estimate is the difference of the counts it is meant to be, and the report
  divides by nothing that is zero.
\<close>

section \<open>The counters after \<open>globalize\<close>, cell by cell\<close>

definition GlobalStatus_wf :: "GlobalStatus \<Rightarrow> bool" where
  "GlobalStatus_wf g \<longleftrightarrow> cells (gs_numOfSampledCountingFunctions g) \<and> cells (gs_cycles g)
    \<and> length (gs_overviewLockData g) = NUM_OF_LOCKTYPES
    \<and> (\<forall>i < NUM_OF_LOCKTYPES. OverviewLockData_wf (gs_overviewLockData g ! i))
    \<and> length (gs_systemCallData g) = NUM_OF_SYSTEMCALLTYPES
    \<and> (\<forall>i < NUM_OF_SYSTEMCALLTYPES. cells (gs_systemCallData g ! i))"

lemma GlobalStatus_zero_wf: "GlobalStatus_wf GlobalStatus_zero"
  by (simp add: GlobalStatus_wf_def GlobalStatus_zero_def cells_def OverviewLockData_wf_def
      OverviewLockData_zero_def config)

text \<open>The loop of \<open>globalize\<close> over the system calls of one allocation type.\<close>

definition add_syscalls :: "SystemCallData list list \<Rightarrow> nat \<Rightarrow> SystemCallData list list \<Rightarrow> SystemCallData list list" where
  "add_syscalls new ty ds = for_loop NUM_OF_SYSTEMCALLTYPES
    (\<lambda>sc ds. ds[sc := (ds ! sc)[ty := SystemCallData_add (ds ! sc ! ty) (new ! sc ! ty)]]) ds"

lemma length_add_syscalls [simp]: "length (add_syscalls new ty ds) = length ds"
  unfolding add_syscalls_def by (rule for_loop_length) simp

lemma add_syscalls_nth:
  assumes "length ds = NUM_OF_SYSTEMCALLTYPES" and "sc < NUM_OF_SYSTEMCALLTYPES"
  shows "add_syscalls new ty ds ! sc = (ds ! sc)[ty := SystemCallData_add (ds ! sc ! ty) (new ! sc ! ty)]"
  using assms for_loop_update_nth [of NUM_OF_SYSTEMCALLTYPES ds sc
    "\<lambda>sc d. d[ty := SystemCallData_add (d ! ty) (new ! sc ! ty)]"]
  by (simp add: add_syscalls_def)

lemma length_syscall_loop [simp]: "length (for_loop n (add_syscalls new) ds) = length ds"
  by (rule for_loop_length) simp

lemma syscall_loop_nth:
  assumes "length ds = NUM_OF_SYSTEMCALLTYPES" and "sc < NUM_OF_SYSTEMCALLTYPES"
  shows "for_loop n (add_syscalls new) ds ! sc
    = for_loop n (\<lambda>ty d. d[ty := SystemCallData_add (d ! ty) (new ! sc ! ty)]) (ds ! sc)"
  using assms by (induction n) (simp_all add: for_loop_Suc add_syscalls_nth)

lemma record_loop:
  "for_loop n (\<lambda>ty g.
      g\<lparr>gs_cycles := (gs_cycles g)[ty := gs_cycles g ! ty + c ! ty],
        gs_numOfSampledCountingFunctions := (gs_numOfSampledCountingFunctions g)
          [ty := gs_numOfSampledCountingFunctions g ! ty + m ! ty],
        gs_systemCallData := add_syscalls new ty (gs_systemCallData g)\<rparr>) g
    = g\<lparr>gs_cycles := for_loop n (\<lambda>ty xs. xs[ty := xs ! ty + c ! ty]) (gs_cycles g),
        gs_numOfSampledCountingFunctions :=
          for_loop n (\<lambda>ty xs. xs[ty := xs ! ty + m ! ty]) (gs_numOfSampledCountingFunctions g),
        gs_systemCallData := for_loop n (add_syscalls new) (gs_systemCallData g)\<rparr>"
  by (induction n) (simp_all add: for_loop_Suc)

lemma globalize_counters_eq:
  "globalize_counters ts g =
    g\<lparr>gs_cycles := add_cells (gs_cycles g) (tl_cycles ts),
      gs_numOfSampledCountingFunctions :=
        add_cells (gs_numOfSampledCountingFunctions g) (tl_numOfSampledCountingFunctions ts),
      gs_systemCallData := for_loop NUM_OF_ALLOCATIONTYPEFOROUTPUTDATA (add_syscalls (tl_systemCallData ts)) (gs_systemCallData g),
      gs_overviewLockData := for_loop NUM_OF_LOCKTYPES
        (\<lambda>i ds. ds[i := OverviewLockData_add (ds ! i) (tl_overviewLockData ts ! i)]) (gs_overviewLockData g),
      gs_friendlinessStatus := FriendlinessStatus_add (gs_friendlinessStatus g) (tl_friendlinessStatus ts)\<rparr>"
  unfolding globalize_counters_def add_cells_def
  by (simp add: add_syscalls_def [symmetric] record_loop Let_def)

lemma globalize_counters_fields:
  assumes "GlobalStatus_wf g" and "ThreadLocalStatus_wf ts"
  shows "gs_cycles (globalize_counters ts g) = add_cells (gs_cycles g) (tl_cycles ts)"
    and "gs_numOfSampledCountingFunctions (globalize_counters ts g)
      = add_cells (gs_numOfSampledCountingFunctions g) (tl_numOfSampledCountingFunctions ts)"
    and "i < NUM_OF_LOCKTYPES \<Longrightarrow> gs_overviewLockData (globalize_counters ts g) ! i
      = OverviewLockData_add (gs_overviewLockData g ! i) (tl_overviewLockData ts ! i)"
    and "sc < NUM_OF_SYSTEMCALLTYPES \<Longrightarrow> ty < NUM_OF_ALLOCATIONTYPEFOROUTPUTDATA \<Longrightarrow>
      gs_systemCallData (globalize_counters ts g) ! sc ! ty
      = SystemCallData_add (gs_systemCallData g ! sc ! ty) (tl_systemCallData ts ! sc ! ty)"
    and "gs_friendlinessStatus (globalize_counters ts g)
      = FriendlinessStatus_add (gs_friendlinessStatus g) (tl_friendlinessStatus ts)"
    and "potentialMemoryLeakFunctions (globalize_counters ts g) = potentialMemoryLeakFunctions g"
  using assms
    for_loop_update_nth [of NUM_OF_LOCKTYPES "gs_overviewLockData g" i
      "\<lambda>i d. OverviewLockData_add d (tl_overviewLockData ts ! i)"]
    for_loop_update_nth [of NUM_OF_ALLOCATIONTYPEFOROUTPUTDATA "gs_systemCallData g ! sc" ty
      "\<lambda>ty d. SystemCallData_add d (tl_systemCallData ts ! sc ! ty)"]
  by (auto simp: globalize_counters_eq GlobalStatus_wf_def syscall_loop_nth cells_def)

lemma globalize_counters_wf:
  assumes "GlobalStatus_wf g" and "ThreadLocalStatus_wf ts"
  shows "GlobalStatus_wf (globalize_counters ts g)"
proof -
  have "length (gs_overviewLockData (globalize_counters ts g)) = length (gs_overviewLockData g)"
    by (simp add: globalize_counters_eq for_loop_length)
  moreover have "length (gs_systemCallData (globalize_counters ts g)) = length (gs_systemCallData g)"
    by (simp add: globalize_counters_eq)
  moreover have "cells (gs_systemCallData (globalize_counters ts g) ! i)" if "i < NUM_OF_SYSTEMCALLTYPES" for i
    using assms(1) that
    by (simp add: globalize_counters_eq GlobalStatus_wf_def syscall_loop_nth cells_def for_loop_length)
  moreover have "OverviewLockData_wf (gs_overviewLockData (globalize_counters ts g) ! i)"
    if "i < NUM_OF_LOCKTYPES" for i
    using assms that globalize_counters_fields(3) [OF assms that]
    by (simp add: GlobalStatus_wf_def OverviewLockData_add_wf)
  ultimately show ?thesis
    using assms by (simp add: GlobalStatus_wf_def globalize_counters_fields(1,2))
qed

lemma globalize_counters_commute:
  assumes g: "GlobalStatus_wf g" and t: "ThreadLocalStatus_wf t" and u: "ThreadLocalStatus_wf u"
  shows "globalize_counters u (globalize_counters t g) = globalize_counters t (globalize_counters u g)"
proof (rule GlobalStatus.GlobalStatus.equality)
  let ?tu = "globalize_counters u (globalize_counters t g)"
  let ?ut = "globalize_counters t (globalize_counters u g)"
  note wt = globalize_counters_wf [OF g t] and wu = globalize_counters_wf [OF g u]
  note ft = globalize_counters_fields [OF g t] and fu = globalize_counters_fields [OF g u]
  note ftu = globalize_counters_fields [OF wt u] and fut = globalize_counters_fields [OF wu t]
  note wtu = globalize_counters_wf [OF wt u] and wut = globalize_counters_wf [OF wu t]
  have c: "cells (tl_cycles t)" "cells (tl_cycles u)" "cells (tl_numOfSampledCountingFunctions t)"
      "cells (tl_numOfSampledCountingFunctions u)" "cells (gs_cycles g)" "cells (gs_numOfSampledCountingFunctions g)"
    using g t u by (auto simp: ThreadLocalStatus_wf_def GlobalStatus_wf_def)
  show "gs_cycles ?tu = gs_cycles ?ut"
    using c by (simp only: ftu(1) ft(1) fut(1) fu(1) add_cells_left_commute [OF c(5,1,2)])
  show "gs_numOfSampledCountingFunctions ?tu = gs_numOfSampledCountingFunctions ?ut"
    by (simp only: ftu(2) ft(2) fut(2) fu(2) add_cells_left_commute [OF c(6,3,4)])
  show "gs_friendlinessStatus ?tu = gs_friendlinessStatus ?ut"
    by (simp only: ftu(5) ft(5) fut(5) fu(5)) (rule FriendlinessStatus_add_left_commute)
  show "potentialMemoryLeakFunctions ?tu = potentialMemoryLeakFunctions ?ut"
    by (simp only: ftu(6) ft(6) fut(6) fu(6))
  show "gs_overviewLockData ?tu = gs_overviewLockData ?ut"
  proof (rule nth_equalityI)
    show "length (gs_overviewLockData ?tu) = length (gs_overviewLockData ?ut)"
      using wtu wut by (simp add: GlobalStatus_wf_def)
    fix i assume "i < length (gs_overviewLockData ?tu)"
    then have i: "i < NUM_OF_LOCKTYPES" using wtu by (simp add: GlobalStatus_wf_def)
    have "OverviewLockData_wf (tl_overviewLockData t ! i)" "OverviewLockData_wf (tl_overviewLockData u ! i)"
      using i t u by (auto simp: ThreadLocalStatus_wf_def)
    with i g show "gs_overviewLockData ?tu ! i = gs_overviewLockData ?ut ! i"
      by (simp add: ftu(3) ft(3) fut(3) fu(3) OverviewLockData_add_left_commute GlobalStatus_wf_def)
  qed
  show "gs_systemCallData ?tu = gs_systemCallData ?ut"
  proof (rule nth_equalityI)
    show "length (gs_systemCallData ?tu) = length (gs_systemCallData ?ut)"
      using wtu wut by (simp add: GlobalStatus_wf_def)
    fix i assume "i < length (gs_systemCallData ?tu)"
    then have i: "i < NUM_OF_SYSTEMCALLTYPES" using wtu by (simp add: GlobalStatus_wf_def)
    show "gs_systemCallData ?tu ! i = gs_systemCallData ?ut ! i"
    proof (rule nth_equalityI)
      show "length (gs_systemCallData ?tu ! i) = length (gs_systemCallData ?ut ! i)"
        using wtu wut i by (simp add: GlobalStatus_wf_def cells_def)
      fix ty assume "ty < length (gs_systemCallData ?tu ! i)"
      then have "ty < NUM_OF_ALLOCATIONTYPEFOROUTPUTDATA" using wtu i by (simp add: GlobalStatus_wf_def cells_def)
      with i show "gs_systemCallData ?tu ! i ! ty = gs_systemCallData ?ut ! i ! ty"
        by (simp add: ftu(4) ft(4) fut(4) fu(4) SystemCallData_add_left_commute)
    qed
  qed
qed simp

lemma globalize_fold_wf:
  "GlobalStatus_wf g \<Longrightarrow> (\<And>t. t \<in> set ts \<Longrightarrow> ThreadLocalStatus_wf t) \<Longrightarrow> GlobalStatus_wf (fold globalize_counters ts g)"
  by (induction ts arbitrary: g) (auto simp: globalize_counters_wf)

text \<open>Moving one thread to the front.\<close>

lemma globalize_move:
  assumes "GlobalStatus_wf g" and "\<And>t. t \<in> set (x # ts) \<Longrightarrow> ThreadLocalStatus_wf t"
  shows "fold globalize_counters ts (globalize_counters x g) = globalize_counters x (fold globalize_counters ts g)"
  using assms
proof (induction ts arbitrary: g)
  case (Cons t ts)
  have "fold globalize_counters ts (globalize_counters x (globalize_counters t g))
      = globalize_counters x (fold globalize_counters ts (globalize_counters t g))"
    using Cons.prems by (intro Cons.IH) (auto simp: globalize_counters_wf)
  with Cons.prems show ?case by (simp add: globalize_counters_commute [of g x t])
qed simp

lemma globalize_permuted:
  assumes "mset xs = mset ys" and "GlobalStatus_wf g" and "\<And>t. t \<in> set xs \<Longrightarrow> ThreadLocalStatus_wf t"
  shows "fold globalize_counters xs g = fold globalize_counters ys g"
  using assms
proof (induction xs arbitrary: ys g)
  case (Cons x xs)
  then have "x \<in> set ys" by (metis list.set_intros(1) set_mset_mset)
  then obtain us vs where ys: "ys = us @ x # vs" by (meson split_list)
  have eq: "mset xs = mset (us @ vs)" using Cons.prems(1) ys by simp
  have w: "ThreadLocalStatus_wf t" if "t \<in> set ys" for t
    using that Cons.prems(1,3) by (metis set_mset_mset)
  have "fold globalize_counters (us @ vs) (globalize_counters x g) = fold globalize_counters ys g"
  proof -
    have "fold globalize_counters us (globalize_counters x g) = globalize_counters x (fold globalize_counters us g)"
      using w ys by (intro globalize_move [OF Cons.prems(2)]) auto
    then show ?thesis using ys by simp
  qed
  moreover have "fold globalize_counters xs (globalize_counters x g)
      = fold globalize_counters (us @ vs) (globalize_counters x g)"
    using Cons.prems(2,3) by (intro Cons.IH [OF eq]) (auto simp: globalize_counters_wf)
  ultimately show ?case by simp
qed simp

section \<open>The lock tables\<close>

definition lock_entries :: "lock_table \<Rightarrow> u64 list \<Rightarrow> (u64 \<times> DetailLockData) list" where
  "lock_entries usage es = map (\<lambda>e. (hm_key usage e, hm_value usage e)) es"

lemma globalize_lock_upsert:
  assumes "table_invar tid gm"
  shows "globalize_lock tid lock d gm
    = upsert table_lookup (table_insert tid) table_assign gm lock d (\<lambda>old. DetailLockData_add old d)"
proof -
  obtain g m where gm: "gm = (g, m)" by fastforce
  obtain r where r: "HashMap_find g lock = Inr r" "table_lookup (g, m) lock = map_option (hm_value g) r"
    using table_find_Inr [of tid g m] assms gm by blast
  show ?thesis
  proof (cases r)
    case None
    with r gm show ?thesis
      by (cases "HashMap_insert g m tid lock d") (auto simp: globalize_lock_def upsert_def table_insert_def)
  next
    case (Some e)
    with r gm show ?thesis by (simp add: globalize_lock_def upsert_def table_assign_def)
  qed
qed

lemma globalize_locks_upserts:
  assumes "table_invar tid gm" and "table_room tid gm (length es)"
  shows "globalize_locks tid usage es gm
    = upserts table_lookup (table_insert tid) table_assign DetailLockData_add gm (lock_entries usage es)"
  using assms
proof (induction es arbitrary: gm)
  case (Cons e es)
  obtain gm' where gm': "upsert table_lookup (table_insert tid) table_assign gm (hm_key usage e) (hm_value usage e)
        (\<lambda>old. DetailLockData_add old (hm_value usage e)) = Inr gm'"
      "table_invar tid gm'" "table_room tid gm' (length es)"
    using hash_table.upsert_spec [OF Cons.prems(1), of "length es" "hm_key usage e" "hm_value usage e"] Cons.prems(2)
    by (metis length_Cons)
  from Cons.IH [OF gm'(2,3)] gm'(1) Cons.prems(1) show ?case
    by (simp add: globalize_lock_upsert lock_entries_def)
qed (simp add: lock_entries_def)

lemma lock_entries_map_of:
  assumes "distinct (map (hm_key usage) es)"
    and "\<And>k e. HashMap_find usage k = Inr (Some e) \<longleftrightarrow> e \<in> set es \<and> hm_key usage e = k"
  shows "map_of (lock_entries usage es) k = table_lookup (usage, m) k"
proof (cases "\<exists>e. HashMap_find usage k = Inr (Some e)")
  case True
  then obtain e where e: "HashMap_find usage k = Inr (Some e)" "e \<in> set es" "hm_key usage e = k"
    using assms(2) by blast
  moreover have "distinct (map fst (lock_entries usage es))"
    using assms(1) by (simp add: lock_entries_def comp_def)
  moreover have "(k, hm_value usage e) \<in> set (lock_entries usage es)"
    using e by (auto simp: lock_entries_def)
  ultimately show ?thesis by (simp add: table_lookup_def)
next
  case False
  then have "k \<notin> fst ` set (lock_entries usage es)" using assms(2) by (auto simp: lock_entries_def)
  then have "map_of (lock_entries usage es) k = None" by (simp add: map_of_eq_None_iff)
  moreover have "table_lookup (usage, m) k = None"
    using False by (auto simp: table_lookup_def split: sum.splits option.splits)
  ultimately show ?thesis by simp
qed

section \<open>Leaks\<close>

definition leak_sign :: "nat \<Rightarrow> int" where
  "leak_sign ty = (if ty \<in> {18, 19} then 0 else if ty \<in> {10..15} then -1 else 1)"

lemma leak_sum_bound:
  "\<bar>\<Sum>ty<n. leak_sign ty * int (unat (c ! ty))\<bar> \<le> int n * 2 ^ 32" for c :: "u32 list"
proof (induction n)
  case (Suc n)
  have "uint (c ! n) < 2 ^ 32" using unsigned_less [of "c ! n", where 'a = int] by simp
  then have "\<bar>leak_sign n * int (unat (c ! n))\<bar> \<le> 2 ^ 32"
    by (auto simp: leak_sign_def)
  with Suc show ?case by (simp add: algebra_simps)
qed simp

lemma leak_loop:
  fixes c :: "u32 list"
  shows "for_loop n (\<lambda>ty m. if ty = 18 \<or> ty = 19 then m
      else if ty = 10 \<or> ty = 13 \<or> ty = 11 \<or> ty = 14 \<or> ty = 12 \<or> ty = 15 then m - ucast (c ! ty)
      else m + ucast (c ! ty)) 0 = (word_of_int (\<Sum>ty<n. leak_sign ty * int (unat (c ! ty))) :: 64 word)"
proof (induction n)
  case (Suc n)
  have "(ucast (c ! n) :: 64 word) = word_of_int (int (unat (c ! n)))"
    by (simp add: unsigned_ucast_eq)
  moreover have "leak_sign n = (if n = 18 \<or> n = 19 then 0
      else if n = 10 \<or> n = 13 \<or> n = 11 \<or> n = 14 \<or> n = 12 \<or> n = 15 then -1 else 1)"
    by (auto simp: leak_sign_def)
  ultimately show ?case
    by (simp add: for_loop_Suc Suc.IH of_int_add of_int_diff)
qed simp

section \<open>Every recorded call was counted\<close>

text \<open>A lock or system call is only recorded in a sampled allocation, and a sampled allocation is counted.\<close>

definition tl_counted :: "ThreadLocalStatus \<Rightarrow> bool" where
  "tl_counted ts \<longleftrightarrow> (\<forall>ty < NUM_OF_ALLOCATIONTYPEFOROUTPUTDATA. tl_numOfSampledCountingFunctions ts ! ty = 0 \<longrightarrow>
    (\<forall>i < NUM_OF_LOCKTYPES. ov_numOfCalls (tl_overviewLockData ts ! i) ! ty = 0)
    \<and> (\<forall>sc < NUM_OF_SYSTEMCALLTYPES. sc_num (tl_systemCallData ts ! sc ! ty) = 0))"

definition gs_counted :: "GlobalStatus \<Rightarrow> bool" where
  "gs_counted g \<longleftrightarrow> (\<forall>ty < NUM_OF_ALLOCATIONTYPEFOROUTPUTDATA. gs_numOfSampledCountingFunctions g ! ty = 0 \<longrightarrow>
    (\<forall>i < NUM_OF_LOCKTYPES. ov_numOfCalls (gs_overviewLockData g ! i) ! ty = 0)
    \<and> (\<forall>sc < NUM_OF_SYSTEMCALLTYPES. sc_num (gs_systemCallData g ! sc ! ty) = 0))"

lemma gs_counted_zero: "gs_counted GlobalStatus_zero"
  by (simp add: gs_counted_def GlobalStatus_zero_def OverviewLockData_zero_def SystemCallData_zero_def config)

lemma sum_zero_parts:
  fixes a b :: u32
  assumes "unat a + unat b < 2 ^ 32" and "a + b = 0"
  shows "a = 0" "b = 0"
proof -
  have "unat (a + b) = unat a + unat b" using assms(1) by (simp add: unat_add_bound)
  with assms(2) have "unat a = 0" "unat b = 0" by auto
  then show "a = 0" "b = 0" by (simp_all add: unat_eq_0)
qed

lemma globalize_counted:
  assumes wf: "GlobalStatus_wf g" "ThreadLocalStatus_wf ts" and c: "gs_counted g" "tl_counted ts"
    and b: "\<And>ty. ty < NUM_OF_ALLOCATIONTYPEFOROUTPUTDATA \<Longrightarrow>
      unat (gs_numOfSampledCountingFunctions g ! ty) + unat (tl_numOfSampledCountingFunctions ts ! ty) < 2 ^ 32"
  shows "gs_counted (globalize_counters ts g)"
  unfolding gs_counted_def
proof (intro allI impI)
  fix ty assume ty: "ty < NUM_OF_ALLOCATIONTYPEFOROUTPUTDATA"
    and z: "gs_numOfSampledCountingFunctions (globalize_counters ts g) ! ty = 0"
  note f = globalize_counters_fields [OF wf]
  have cells: "cells (gs_numOfSampledCountingFunctions g)" "cells (tl_numOfSampledCountingFunctions ts)"
    using wf by (auto simp: GlobalStatus_wf_def ThreadLocalStatus_wf_def)
  have "gs_numOfSampledCountingFunctions g ! ty + tl_numOfSampledCountingFunctions ts ! ty = 0"
    using z ty add_cells_nth [OF cells] by (simp add: f(2) config)
  from sum_zero_parts [OF b [OF ty] this]
  have zero: "gs_numOfSampledCountingFunctions g ! ty = 0" "tl_numOfSampledCountingFunctions ts ! ty = 0" .
  have "ov_numOfCalls (gs_overviewLockData (globalize_counters ts g) ! i) ! ty = 0" if i: "i < NUM_OF_LOCKTYPES" for i
  proof -
    have "cells (ov_numOfCalls (gs_overviewLockData g ! i))" "cells (ov_numOfCalls (tl_overviewLockData ts ! i))"
      using wf i by (auto simp: GlobalStatus_wf_def ThreadLocalStatus_wf_def OverviewLockData_wf_def)
    from add_cells_nth [OF this] zero c i ty show ?thesis
      by (simp add: f(3) OverviewLockData_add_def gs_counted_def tl_counted_def config)
  qed
  moreover have "sc_num (gs_systemCallData (globalize_counters ts g) ! sc ! ty) = 0"
    if "sc < NUM_OF_SYSTEMCALLTYPES" for sc
    using that ty zero c by (simp add: f(4) SystemCallData_add_def gs_counted_def tl_counted_def)
  ultimately show "(\<forall>i < NUM_OF_LOCKTYPES. ov_numOfCalls (gs_overviewLockData (globalize_counters ts g) ! i) ! ty = 0)
    \<and> (\<forall>sc < NUM_OF_SYSTEMCALLTYPES. sc_num (gs_systemCallData (globalize_counters ts g) ! sc ! ty) = 0)"
    by blast
qed

lemma globalize_fold_counted:
  assumes "GlobalStatus_wf g" and "gs_counted g"
    and "\<And>t. t \<in> set ts \<Longrightarrow> ThreadLocalStatus_wf t \<and> tl_counted t"
    and "\<And>ty. ty < NUM_OF_ALLOCATIONTYPEFOROUTPUTDATA \<Longrightarrow> unat (gs_numOfSampledCountingFunctions g ! ty)
      + (\<Sum>t\<leftarrow>ts. unat (tl_numOfSampledCountingFunctions t ! ty)) < 2 ^ 32"
  shows "gs_counted (fold globalize_counters ts g)"
  using assms
proof (induction ts arbitrary: g)
  case (Cons t ts)
  have t: "ThreadLocalStatus_wf t" "tl_counted t" using Cons.prems(3) by auto
  have b: "unat (gs_numOfSampledCountingFunctions g ! ty) + unat (tl_numOfSampledCountingFunctions t ! ty) < 2 ^ 32"
    if "ty < NUM_OF_ALLOCATIONTYPEFOROUTPUTDATA" for ty
    using Cons.prems(4) [OF that] by simp
  have cells: "cells (gs_numOfSampledCountingFunctions g)" "cells (tl_numOfSampledCountingFunctions t)"
    using Cons.prems(1) t by (auto simp: GlobalStatus_wf_def ThreadLocalStatus_wf_def)
  have "unat (gs_numOfSampledCountingFunctions (globalize_counters t g) ! ty)
      = unat (gs_numOfSampledCountingFunctions g ! ty) + unat (tl_numOfSampledCountingFunctions t ! ty)"
    if "ty < NUM_OF_ALLOCATIONTYPEFOROUTPUTDATA" for ty
    using add_cells_nth [OF cells] that b [OF that]
    by (simp add: globalize_counters_fields(2) [OF Cons.prems(1) t(1)] config unat_add_bound)
  with Cons.prems(3,4) have "gs_counted (fold globalize_counters ts (globalize_counters t g))"
    by (intro Cons.IH globalize_counters_wf [OF Cons.prems(1) t(1)] globalize_counted [OF Cons.prems(1) t(1) Cons.prems(2) t(2) b])
       (auto simp: add.assoc)
  then show ?case by simp
qed simp

lemma collect_Inr:
  "(\<And>x. x \<in> set xs \<Longrightarrow> \<exists>y. f x = Inr y) \<Longrightarrow> \<exists>ys. collect f xs = Inr ys"
proof (induction xs)
  case (Cons x xs)
  obtain y where "f x = Inr y" using Cons.prems [of x] by auto
  moreover obtain ys where "collect f xs = Inr ys" using Cons by auto
  ultimately show ?case by simp
qed simp

lemma ucast_up_0_iff: "(ucast (x :: u32) :: u64) = 0 \<longleftrightarrow> x = 0"
proof
  assume "(ucast x :: u64) = 0"
  then have "unat (ucast x :: u64) = 0" by simp
  moreover have "unat x < 2 ^ 32" using unsigned_less [of x, where 'a = nat] by simp
  ultimately show "x = 0" by (simp add: unsigned_ucast_eq take_bit_nat_eq_self unat_eq_0)
qed simp

lemma lines_of_types_Inr:
  assumes "\<And>ty. ty < NUM_OF_ALLOCATIONTYPEFOROUTPUTDATA \<Longrightarrow> sampled ! ty = 0 \<Longrightarrow> calls ! ty = 0"
  shows "\<exists>ls. lines_of_types sampled calls contentions cycles = Inr ls"
  unfolding lines_of_types_def
  by (rule collect_Inr) (use assms in \<open>auto simp: lock_lines_def divide_def ucast_up_0_iff word_neq_0_conv\<close>)

lemma reports_Inr:
  assumes "gs_counted g"
  shows "\<exists>r. printOverviewLocks g = Inr r" "\<exists>r. printSyscalls g = Inr r"
proof -
  show "\<exists>r. printOverviewLocks g = Inr r"
    unfolding printOverviewLocks_def
  proof (rule collect_Inr)
    fix t assume "t \<in> set [0..<NUM_OF_LOCKTYPES]"
    then have "\<exists>ls. lines_of_types (gs_numOfSampledCountingFunctions g) (ov_numOfCalls (gs_overviewLockData g ! t))
        (ov_numOfCallsWithContentions (gs_overviewLockData g ! t)) (ov_totalCycles (gs_overviewLockData g ! t)) = Inr ls"
      using assms by (intro lines_of_types_Inr) (auto simp: gs_counted_def)
    then show "\<exists>y. (let d = gs_overviewLockData g ! t in
        if ov_numOfLocks d > 0
        then bindR (lines_of_types (gs_numOfSampledCountingFunctions g) (ov_numOfCalls d)
               (ov_numOfCallsWithContentions d) (ov_totalCycles d)) (\<lambda>ls. Inr [(t, ls)])
        else Inr [(t, [])]) = Inr y"
      by (auto simp: Let_def)
  qed
  show "\<exists>r. printSyscalls g = Inr r"
    unfolding printSyscalls_def
    by (intro collect_Inr)
       (use assms in \<open>auto simp: syscall_lines_def divide_def ucast_up_0_iff gs_counted_def word_neq_0_conv\<close>)
qed

section \<open>Properties\<close>

text \<open>
  C30: the order in which threads end does not matter: two runs in which the same threads add their
  counters in different orders leave the same global counters.
\<close>

theorem thread_end_order_is_irrelevant:
  assumes "mset ends = mset ends'" and "\<forall>t \<in> set ends. ThreadLocalStatus_wf t"
  shows "fold globalize_counters ends GlobalStatus_zero = fold globalize_counters ends' GlobalStatus_zero"
  using assms by (intro globalize_permuted GlobalStatus_zero_wf) auto

theorem thread_end_order_is_irrelevant_witness:
  "fold globalize_counters [ThreadLocalStatus_zero\<lparr>tl_cycles := replicate 24 5\<rparr>, ThreadLocalStatus_zero] GlobalStatus_zero
    = fold globalize_counters [ThreadLocalStatus_zero, ThreadLocalStatus_zero\<lparr>tl_cycles := replicate 24 5\<rparr>] GlobalStatus_zero"
proof (rule thread_end_order_is_irrelevant)
  show "\<forall>t \<in> set [ThreadLocalStatus_zero\<lparr>tl_cycles := replicate 24 5\<rparr>, ThreadLocalStatus_zero]. ThreadLocalStatus_wf t"
    using ThreadLocalStatus_zero_wf by (simp add: ThreadLocalStatus_wf_def cells_def config)
qed (simp add: add_mset_commute)

text \<open>
  C30: the lock tables are merged exactly. When the thread's table is well formed, its entries are the list
  \<open>es\<close>, and the global one has room for them, \<open>globalize\<close> ends within as many iteration steps as the thread's table has entries,
  the global table stays well formed, and it then holds for each lock the sum of what both tables held,
  or what one of them held if only one knew the lock.
\<close>

theorem lock_tables_are_merged:
  assumes "hm_rep usage B" and "table_invar tid gm" and "distinct es"
    and "\<forall>e. e \<in> set es \<longleftrightarrow> HashMap_find usage (hm_key usage e) = Inr (Some e)"
    and "table_room tid gm (length es)"
  shows "\<exists>gm'. (\<forall>fuel \<ge> length es. globalize fuel tid ts usage g gm = Some (Inr (globalize_counters ts g, gm')))
    \<and> table_invar tid gm'
    \<and> (\<forall>lock. table_lookup gm' lock
          = merge_value DetailLockData_add (table_lookup gm lock) (table_lookup (usage, m) lock))"
proof -
  let ?es = "concat (map B [0..<nbuckets usage])"
  have it: "\<And>fuel. length ?es \<le> fuel \<Longrightarrow> iterate usage fuel (HashMap_begin usage) = Some ?es"
    using iterate_begin [OF assms(1)] .
  note d = entries_of_rep(1) [OF assms(1)] and f = entries_of_rep(2) [OF assms(1)]
  have "set ?es = set es" using assms(4) f by blast
  then have len: "length ?es = length es"
    using assms(3) d by (metis distinct_card distinct_map)
  obtain gm' where gm': "globalize_locks tid usage ?es gm = Inr gm'" "table_invar tid gm'"
      "\<forall>k. table_lookup gm' k = merge_value DetailLockData_add (table_lookup gm k) (map_of (lock_entries usage ?es) k)"
    using hash_table.upserts_spec [OF assms(2), of "lock_entries usage ?es" DetailLockData_add]
      globalize_locks_upserts [OF assms(2), of ?es usage] assms(5) d len
    by (auto simp: lock_entries_def comp_def)
  then show ?thesis
    using it len lock_entries_map_of [OF d f] by (intro exI [of _ gm']) (simp add: globalize_def)
qed

theorem lock_tables_are_merged_witness:
  "\<exists>gm'. globalize 1 0 ThreadLocalStatus_zero (one_entry (DetailLockData_newDetailLockData SPIN)) GlobalStatus_zero
      (one_entry (DetailLockData_newDetailLockData SPIN), small_memory)
      = Some (Inr (globalize_counters ThreadLocalStatus_zero GlobalStatus_zero, gm'))
    \<and> table_lookup gm' 7 = Some (DetailLockData_add (DetailLockData_newDetailLockData SPIN)
        (DetailLockData_newDetailLockData SPIN))"
proof -
  let ?d = "DetailLockData_newDetailLockData SPIN"
  have find: "HashMap_find (one_entry ?d) k = Inr (if k = 7 then Some 0x2000 else None)" for k
    using HashMap_find_rep [OF one_entry_rep, of ?d k] by (simp add: one_entry_def)
  have "table_room 0 (one_entry ?d, small_memory) (length [0x2000 :: u64])"
    by (simp add: table_room_def one_entry_def nbuckets_def small_memory_def)
  moreover have "\<forall>e. e \<in> set [0x2000] \<longleftrightarrow> HashMap_find (one_entry ?d) (hm_key (one_entry ?d) e) = Inr (Some e)"
    by (auto simp: find) (simp_all add: one_entry_def)
  ultimately obtain gm' where "globalize 1 0 ThreadLocalStatus_zero (one_entry ?d) GlobalStatus_zero
        (one_entry ?d, small_memory) = Some (Inr (globalize_counters ThreadLocalStatus_zero GlobalStatus_zero, gm'))"
      "table_lookup gm' 7 = merge_value DetailLockData_add (table_lookup (one_entry ?d, small_memory) 7)
        (table_lookup (one_entry ?d, small_memory) 7)"
    using lock_tables_are_merged [OF one_entry_rep one_entry_table, of "[0x2000]" ?d ?d ThreadLocalStatus_zero GlobalStatus_zero small_memory]
    by auto
  moreover have "hm_value (one_entry ?d) 0x2000 = ?d" by (simp add: one_entry_def)
  then have "table_lookup (one_entry ?d, small_memory) 7 = Some ?d" by (simp add: table_lookup_def find)
  ultimately show ?thesis by (simp add: merge_value_def)
qed

text \<open>
  the leak estimate. Starting from zero it is the number of sampled allocations minus the number of
  sampled frees, not counting \<open>realloc\<close>, and zero when the frees prevail; no sum of it overflows.
\<close>

theorem leak_estimate_is_the_difference:
  assumes "potentialMemoryLeakFunctions g = 0"
  shows "sint (potentialMemoryLeakFunctions (countPotentialMemoryLeakFunctions g)) = max 0
    ((\<Sum>ty \<in> {..<10} \<union> {16, 17} \<union> {20..<24}. int (unat (gs_numOfSampledCountingFunctions g ! ty)))
      - (\<Sum>ty \<in> {10..15}. int (unat (gs_numOfSampledCountingFunctions g ! ty))))"
proof -
  let ?c = "gs_numOfSampledCountingFunctions g"
  let ?S = "\<Sum>ty<24. leak_sign ty * int (unat (?c ! ty))"
  have "?S = (\<Sum>ty \<in> {..<10} \<union> {16, 17} \<union> {20..<24}. int (unat (?c ! ty))) - (\<Sum>ty \<in> {10..15}. int (unat (?c ! ty)))"
  proof -
    have "{..<24 :: nat} = ({..<10} \<union> {16, 17} \<union> {20..<24}) \<union> ({10..15} \<union> {18, 19})" by auto
    moreover have "({..<10} \<union> {16, 17} \<union> {20..<24}) \<inter> ({10..15} \<union> {18, 19}) = ({} :: nat set)" by auto
    ultimately have "?S = (\<Sum>ty \<in> {..<10} \<union> {16, 17} \<union> {20..<24}. leak_sign ty * int (unat (?c ! ty)))
        + (\<Sum>ty \<in> {10..15} \<union> {18, 19}. leak_sign ty * int (unat (?c ! ty)))"
      by (simp only: sum.union_disjoint finite_Un finite_lessThan finite_atLeastLessThan finite_atLeastAtMost
          finite.intros)
    also have "(\<Sum>ty \<in> {..<10} \<union> {16, 17} \<union> {20..<24}. leak_sign ty * int (unat (?c ! ty)))
        = (\<Sum>ty \<in> {..<10} \<union> {16, 17} \<union> {20..<24}. int (unat (?c ! ty)))"
      by (rule sum.cong) (auto simp: leak_sign_def)
    also have "(\<Sum>ty \<in> {10..15} \<union> {18, 19}. leak_sign ty * int (unat (?c ! ty)))
        = (\<Sum>ty \<in> {10..15}. - int (unat (?c ! ty)))"
      by (rule sum.mono_neutral_cong_right) (auto simp: leak_sign_def)
    finally show ?thesis by (simp add: sum_negf)
  qed
  moreover have "\<bar>?S\<bar> \<le> 24 * 2 ^ 32" using leak_sum_bound [of ?c 24] by simp
  then have S: "sint (word_of_int ?S :: 64 word) = ?S"
    by (simp only: sint_sbintrunc') (rule signed_take_bit_int_eq_self, simp_all)
  moreover have "potentialMemoryLeakFunctions (countPotentialMemoryLeakFunctions g)
      = (if ?S < 0 then 0 else word_of_int ?S)"
    using leak_loop [of 24 ?c] S assms
    by (simp add: countPotentialMemoryLeakFunctions_def Let_def NUM_OF_ALLOCATIONTYPEFOROUTPUTDATA_def cong: if_cong
        del: of_int_sum)
  ultimately show ?thesis by auto
qed

theorem leak_estimate_is_the_difference_witness:
  "sint (potentialMemoryLeakFunctions (countPotentialMemoryLeakFunctions
      (GlobalStatus_zero\<lparr>gs_numOfSampledCountingFunctions := replicate 24 7\<rparr>))) = 70"
proof -
  have "int (unat (replicate 24 (7 :: u32) ! ty)) = 7" if "ty < 24" for ty using that by simp
  then have "(\<Sum>ty \<in> {..<10} \<union> {16, 17} \<union> {20..<24}. int (unat (replicate 24 (7 :: u32) ! ty)))
        = (\<Sum>ty \<in> {..<10 :: nat} \<union> {16, 17} \<union> {20..<24}. 7)"
      "(\<Sum>ty \<in> {10..15}. int (unat (replicate 24 (7 :: u32) ! ty))) = (\<Sum>ty \<in> {10..15 :: nat}. 7)"
    by (intro sum.cong; force)+
  moreover have "{..<10 :: nat} \<union> {16, 17} \<union> {20..<24} = set [0, 1, 2, 3, 4, 5, 6, 7, 8, 9, 16, 17, 20, 21, 22, 23]"
    by auto
  ultimately show ?thesis
    using leak_estimate_is_the_difference [of "GlobalStatus_zero\<lparr>gs_numOfSampledCountingFunctions := replicate 24 7\<rparr>"]
    by (simp add: GlobalStatus_zero_def)
qed



end
