(* ===== verification/MemSample.thy ===== *)
theory MemSample
  imports ShadowMemory Predictor
begin

text \<open>
  Sampling of memory accesses (\<^verbatim>\<open>src_light/memsample.h\<close>, \<^verbatim>\<open>memsample.c\<close>): the kernel writes records of
  sampled loads and stores into a ring buffer shared with each thread and sends a signal; the handler
  reads the records and passes the accesses on to the shadow memory.

  The results of the system calls are arguments. The ring buffer's data pages are a byte list, its
  control page the two indexes; the numbers of \<^verbatim>\<open>linux/perf_event.h\<close> are those of the kernel's interface.
  The fuzzed sampling period is computed in floating point and is an argument.
\<close>

section \<open>State\<close>

record perf_info =
  perf_fd :: int
  perf_fd2 :: int
  prev_head :: u64
  data_buf_copy :: "u8 list"

record RingBuffer =
  data_mmap :: "u8 list"
  data_head :: u64
  data_tail :: u64

text \<open>The thread-local variables of the file; \<open>None\<close> is a ring buffer not mapped.\<close>

record Sampling =
  isSamplingInit :: bool
  perfInfo :: perf_info
  ring_buf :: "RingBuffer option"

definition Sampling_zero :: Sampling where
  "Sampling_zero = \<lparr>isSamplingInit = False,
    perfInfo = \<lparr>perf_fd = 0, perf_fd2 = 0, prev_head = 0, data_buf_copy = []\<rparr>, ring_buf = None\<rparr>"

section \<open>Setting up\<close>

text \<open>The attributes of an event that are not left zero.\<close>

record perf_event_attr =
  attr_config :: u64
  attr_sample_freq :: int
  attr_sample_type :: u64
  attr_read_format :: u64
  attr_disabled :: bool
  attr_exclude_kernel :: bool
  attr_exclude_hv :: bool
  attr_exclude_idle :: bool
  attr_enable_on_exec :: bool
  attr_precise_ip :: nat
  attr_exclude_guest :: bool
  attr_exclude_callchain_kernel :: bool
  attr_exclude_callchain_user :: bool

definition LOAD_LATENCY :: u64 where "LOAD_LATENCY = 0x1cd"
definition STORE_ACCESS :: u64 where "STORE_ACCESS = 0x82d0"
definition PERF_SAMPLE_ADDR :: u64 where "PERF_SAMPLE_ADDR = 8"
definition PERF_SAMPLE_DATA_SRC :: u64 where "PERF_SAMPLE_DATA_SRC = 0x8000"
definition PERF_FORMAT_GROUP :: u64 where "PERF_FORMAT_GROUP = 8"

definition sample_type :: u64 where
  "sample_type = PERF_SAMPLE_ADDR OR PERF_SAMPLE_DATA_SRC"

definition pe_load :: "int \<Rightarrow> perf_event_attr" where
  "pe_load fuzzed_period = \<lparr>attr_config = LOAD_LATENCY, attr_sample_freq = fuzzed_period,
    attr_sample_type = sample_type, attr_read_format = PERF_FORMAT_GROUP, attr_disabled = True,
    attr_exclude_kernel = True, attr_exclude_hv = True, attr_exclude_idle = True,
    attr_enable_on_exec = True, attr_precise_ip = 1, attr_exclude_guest = True,
    attr_exclude_callchain_kernel = True, attr_exclude_callchain_user = True\<rparr>"

definition pe_store :: "int \<Rightarrow> perf_event_attr" where
  "pe_store fuzzed_period = (pe_load fuzzed_period)\<lparr>attr_config := STORE_ACCESS\<rparr>"

text \<open>What the system calls of \<open>setupSampling\<close> answer; the last four members are the calls to refresh and enable.\<close>

record SetupResults =
  sr_open :: "perf_event_attr \<Rightarrow> int"
  sr_mmap :: "RingBuffer option"
  sr_async :: bool
  sr_set_output :: bool
  sr_set_owner :: bool
  sr_set_owner2 :: bool
  sr_set_signal :: bool
  sr_set_signal2 :: bool
  sr_refresh :: bool
  sr_refresh2 :: bool
  sr_enable :: bool
  sr_enable2 :: bool

definition require :: "bool \<Rightarrow> string \<Rightarrow> crash + unit" where
  "require ok message = (if ok then Inr () else Inl (Aborted message))"

definition setupSampling :: "int \<Rightarrow> SetupResults \<Rightarrow> Sampling \<Rightarrow> crash + Sampling" where
  "setupSampling fuzzed_period r s =
    (if isSamplingInit s then Inr s
     else (let s = s\<lparr>isSamplingInit := True\<rparr>; fd2 = sr_open r (pe_store fuzzed_period);
               fd = sr_open r (pe_load fuzzed_period) in
       bindR (require (fd2 \<noteq> -1) ''Failed to open perf event for pe_store'') (\<lambda>_.
       bindR (require (fd \<noteq> -1) ''Failed to open perf event for pe_load'') (\<lambda>_.
       bindR (require (sr_mmap r \<noteq> None) ''mmap failed'') (\<lambda>_.
       bindR (require (sr_async r) ''Failed to set perf event file to ASYNC mode'') (\<lambda>_.
       bindR (require (sr_set_output r) ''Call to ioctl failed'') (\<lambda>_.
       bindR (require (sr_set_owner r \<and> sr_set_owner2 r) ''Failed to set the owner of the perf event file'') (\<lambda>_.
       bindR (require (sr_set_signal r \<and> sr_set_signal2 r) ''Failed to set perf event file's async signal'') (\<lambda>_.
       bindR (require (sr_refresh r \<and> sr_refresh2 r) ''Failed to refresh perf event'') (\<lambda>_.
       bindR (require (sr_enable r \<and> sr_enable2 r) ''Failed to enable perf event'') (\<lambda>_.
         Inr (s\<lparr>perfInfo := (perfInfo s)\<lparr>perf_fd := fd, perf_fd2 := fd2\<rparr>, ring_buf := sr_mmap r\<rparr>))))))))))))"

text \<open>
  What the system answers to a thread that sets up its sampling. \<open>initPMU\<close> also installs the handler,
  \<open>initPMU2\<close> does not. A fresh anonymous mapping is zero.
\<close>

record PMU =
  pmu_sigaction_ok :: bool
  pmu_mmap_ok :: bool
  pmu_fuzzed_period :: int
  pmu_results :: SetupResults

definition initPMU2 :: "PMU \<Rightarrow> Sampling \<Rightarrow> crash + Sampling" where
  "initPMU2 u s =
    bindR (require (pmu_mmap_ok u) ''mmap failed'') (\<lambda>_.
      setupSampling (pmu_fuzzed_period u) (pmu_results u)
        (s\<lparr>perfInfo := (perfInfo s)\<lparr>data_buf_copy := replicate DATA_MAPSIZE 0\<rparr>\<rparr>))"

definition initPMU :: "PMU \<Rightarrow> Sampling \<Rightarrow> crash + Sampling" where
  "initPMU u s =
    bindR (require (pmu_sigaction_ok u) ''failed to set SIGIO handler'') (\<lambda>_. initPMU2 u s)"

definition pauseSampling :: "Sampling \<Rightarrow> Sampling" where
  "pauseSampling s = (if \<not> isSamplingInit s then s else s\<lparr>isSamplingInit := False\<rparr>)"

definition restartSampling :: "bool \<Rightarrow> Sampling \<Rightarrow> crash + Sampling" where
  "restartSampling enabled s =
    (if isSamplingInit s then Inr s
     else bindR (require enabled ''Failed to enable perf event'') (\<lambda>_. Inr (s\<lparr>isSamplingInit := True\<rparr>)))"

section \<open>Reading the records\<close>

fun le_value :: "u8 list \<Rightarrow> nat" where
  "le_value [] = 0"
| "le_value (b # bs) = unat b + 256 * le_value bs"

definition read_bytes :: "nat \<Rightarrow> nat \<Rightarrow> u8 list \<Rightarrow> crash + nat" where
  "read_bytes n offset buf =
    (if offset + n \<le> length buf then Inr (le_value (take n (drop offset buf))) else Inl OutOfBounds)"

text \<open>
  The bytes from \<open>prev_head_wrapped\<close> on: copied when they wrap around the end of the ring, used in place
  otherwise. A \<open>memcpy\<close> past the source or the destination is out of bounds. Returns the buffer to read
  and the copy.
\<close>

definition pending_data :: "nat \<Rightarrow> nat \<Rightarrow> u8 list \<Rightarrow> u8 list \<Rightarrow> crash + (u8 list \<times> u8 list)" where
  "pending_data prev_head_wrapped n data copy =
    (let copy_amt = DATA_MAPSIZE - prev_head_wrapped in
     if n > copy_amt
     then (if copy_amt \<le> length copy \<and> n \<le> length copy \<and> n - copy_amt \<le> length data
             \<and> prev_head_wrapped + copy_amt \<le> length data
           then (let buf = take copy_amt (drop prev_head_wrapped data) @ take (n - copy_amt) data @ drop n copy
                 in Inr (buf, buf))
           else Inl OutOfBounds)
     else Inr (drop prev_head_wrapped data, copy))"

definition PERF_RECORD_SAMPLE :: nat where "PERF_RECORD_SAMPLE = 9"
definition SIZEOF_PERF_EVENT_HEADER :: nat where "SIZEOF_PERF_EVENT_HEADER = 8"
definition PERF_MEM_LVL_HIT_SHIFTED :: u64 where "PERF_MEM_LVL_HIT_SHIFTED = push_bit 5 2"
definition PERF_MEM_LVL_L1_SHIFTED :: u64 where "PERF_MEM_LVL_L1_SHIFTED = push_bit 5 8"

definition is_miss :: "u64 \<Rightarrow> bool" where
  "is_miss src \<longleftrightarrow> \<not> (src AND PERF_MEM_LVL_L1_SHIFTED \<noteq> 0 \<and> src AND PERF_MEM_LVL_HIT_SHIFTED \<noteq> 0)"

definition accessType_of :: "u64 \<Rightarrow> eMemAccessType" where
  "accessType_of src =
    (if src AND 2 \<noteq> 0 then E_MEM_LOAD else if src AND 4 \<noteq> 0 then E_MEM_STORE
     else if src AND 8 \<noteq> 0 then E_MEM_PFETCH else if src AND 16 \<noteq> 0 then E_MEM_EXEC else E_MEM_UNKNOWN)"

text \<open>
  What the accesses go to: the thread's friendliness counters and the shadow memory. \<open>doMemoryAccess\<close>
  does not use the access type.
\<close>

type_synonym access_state = "FriendlinessStatus \<times> ShadowMemory"

definition sampled_access :: "u64 \<Rightarrow> u16 \<Rightarrow> u64 \<Rightarrow> u64 \<Rightarrow> access_state \<Rightarrow> crash + access_state" where
  "sampled_access junk tid addr src acc =
    (if 0 < addr \<and> addr < LAST_USER_ADDR then doMemoryAccess junk addr tid (is_miss src) acc else Inr acc)"

definition read_record :: "u64 \<Rightarrow> u16 \<Rightarrow> u8 list \<Rightarrow> nat \<Rightarrow> access_state \<Rightarrow> crash + (nat \<times> access_state)" where
  "read_record junk tid buf offset acc =
    bindR (read_bytes 4 offset buf) (\<lambda>type.
    bindR (read_bytes 2 (offset + 6) buf) (\<lambda>sz.
    bindR (if type = PERF_RECORD_SAMPLE
           then bindR (read_bytes 8 (offset + SIZEOF_PERF_EVENT_HEADER) buf) (\<lambda>addr.
                bindR (read_bytes 8 (offset + SIZEOF_PERF_EVENT_HEADER + 8) buf) (\<lambda>src.
                  sampled_access junk tid (of_nat addr) (of_nat src) acc))
           else Inr acc) (\<lambda>acc.
      Inr (offset + sz, acc))))"

text \<open>
  The loop ends when the offset has reached the size, which a record of size 0 prevents: \<open>None\<close> is a loop
  that does not end. Offsets are below the size, which is at most twice the ring's, so they do not wrap.
\<close>

partial_function (option) read_loop ::
  "u64 \<Rightarrow> u16 \<Rightarrow> u8 list \<Rightarrow> nat \<Rightarrow> nat \<Rightarrow> access_state \<Rightarrow> (crash + access_state) option" where
  "read_loop junk tid buf n offset acc =
    (if offset < n
     then (case read_record junk tid buf offset acc of
             Inl e \<Rightarrow> Some (Inl e)
           | Inr (offset', acc') \<Rightarrow> read_loop junk tid buf n offset' acc')
     else Some (Inr acc))"

text \<open>When the head has gone back, \<open>prev_head\<close> is reset but the size is the difference to the old one.\<close>

definition perf_mmap_read ::
  "u64 \<Rightarrow> u16 \<Rightarrow> Sampling \<Rightarrow> access_state \<Rightarrow> (crash + (u64 \<times> Sampling \<times> access_state)) option" where
  "perf_mmap_read junk tid s acc =
    (case ring_buf s of
       None \<Rightarrow> Some (Inl (Aborted ''control_page is NULL''))
     | Some rb \<Rightarrow>
         (let head = data_head rb; prev = prev_head (perfInfo s); n = unat (head - prev);
              prev = (if head < prev then 0 else prev)
          in case pending_data (unat prev mod DATA_MAPSIZE) n (data_mmap rb) (data_buf_copy (perfInfo s)) of
               Inl e \<Rightarrow> Some (Inl e)
             | Inr (buf, copy) \<Rightarrow>
                 map_option (\<lambda>r. bindR r (\<lambda>acc.
                     Inr (head, s\<lparr>perfInfo := (perfInfo s)\<lparr>prev_head := prev, data_buf_copy := copy\<rparr>,
                                  ring_buf := Some (rb\<lparr>data_tail := head\<rparr>)\<rparr>, acc)))
                   (read_loop junk tid buf n 0 acc)))"

definition note_head :: "u64 \<Rightarrow> Sampling \<Rightarrow> Sampling" where
  "note_head head s = s\<lparr>perfInfo := (perfInfo s)\<lparr>prev_head := head\<rparr>\<rparr>"

text \<open>Stopping reads what is left, then unmaps the ring; errors of the system calls are only reported. The
  pointer to the ring is left dangling: reading through it afterwards fails.\<close>

definition stopSampling ::
  "u64 \<Rightarrow> u16 \<Rightarrow> Sampling \<Rightarrow> access_state \<Rightarrow> (crash + (Sampling \<times> access_state)) option" where
  "stopSampling junk tid s acc =
    (if \<not> isSamplingInit s then Some (Inr (s, acc))
     else map_option (\<lambda>r. bindR r (\<lambda>(head, s, acc). Inr ((note_head head s)\<lparr>ring_buf := None\<rparr>, acc)))
            (perf_mmap_read junk tid (s\<lparr>isSamplingInit := False\<rparr>) acc))"

text \<open>The handler of \<open>SIGIO\<close>; \<open>hup\<close> says that the signal's code is \<open>POLL_HUP\<close>.\<close>

definition sampleHandler ::
  "bool \<Rightarrow> u64 \<Rightarrow> u64 \<Rightarrow> u64 \<Rightarrow> u16 \<Rightarrow> Sampling \<times> PredictorThread \<times> access_state
    \<Rightarrow> (crash + (Sampling \<times> PredictorThread \<times> access_state)) option" where
  "sampleHandler hup stop start junk tid st =
    (case st of (s, pt, acc) \<Rightarrow>
      if \<not> isSamplingInit s then Some (Inr (s, pt, acc))
      else if hup
      then map_option (\<lambda>r. bindR r (\<lambda>(head, s, acc).
               Inr (note_head head s, outsideCycleStart start (outsideCyclesStop stop pt), acc)))
             (perf_mmap_read junk tid s acc)
      else Some (Inr (s, pt, acc)))"

end
