(* ===== verification/LibMallocProf.thy ===== *)
theory LibMallocProf
  imports GlobalStatus MemSample
begin

text \<open>
  The interposed functions (\<^verbatim>\<open>src_light/libmallocprof.cpp\<close>): the allocation functions, the system
  calls and the lock functions a program calls end up here, are passed on to the real ones and leave
  their traces in the state of the calling thread and of the profiler.

  What the real functions do belongs to the allocator and the kernel. A call of a real allocation
  function is given by the address it returns and by the interposed functions it calls itself, in order
  (\<open>RealX_call\<close>); \<open>Machine\<close> has what the processor contributes to one call: the time stamps before and
  after, the number drawn for sampling, the stack and the uninitialised page index. Resolving the real
  functions (\<open>RealX::initializer\<close>) and \<open>errno\<close> are left out.
\<close>

record Thread =
  th_flags :: ThreadFlags
  th_local :: ThreadLocalStatus
  th_alloc :: AllocatingStatus
  th_predict :: PredictorThread
  th_locks :: lock_table
  th_sampling :: Sampling

text \<open>The object table holds the profiler's private memory, \<open>MyMalloc\<close>, which all tables draw from.\<close>

record Profiler =
  pf_counts :: ThreadCounts
  pf_status :: ProgramStatus
  pf_predictor :: Predictor
  pf_objTable :: ObjTable
  pf_shadow :: ShadowMemory
  pf_global :: GlobalStatus
  pf_globalLocks :: lock_table

type_synonym state = "Thread \<times> Profiler"

record Machine =
  m_before :: u64
  m_after :: u64
  m_drawn :: nat
  m_junk :: u64
  m_stackTop :: u64
  m_returnAddr :: u64
  m_pmu :: PMU

definition env_of :: "Machine \<Rightarrow> Thread \<Rightarrow> CallEnv" where
  "env_of m t = \<lparr>ce_stackTop = m_stackTop m, ce_returnAddr = m_returnAddr m,
    ce_stackBottom = stackBottom (th_local t), ce_tid = runningThreadIndex (th_local t)\<rparr>"

abbreviation pf_memory :: "Profiler \<Rightarrow> MyMalloc" where
  "pf_memory p \<equiv> ot_memory (pf_objTable p)"

definition set_memory :: "MyMalloc \<Rightarrow> Profiler \<Rightarrow> Profiler" where
  "set_memory mm p = p\<lparr>pf_objTable := (pf_objTable p)\<lparr>ot_memory := mm\<rparr>\<rparr>"

section \<open>System calls\<close>

text \<open>
  \<open>outside\<close> and \<open>not sampled\<close> are the tests all of them start with; \<open>start\<close> and \<open>stop\<close> are the time
  stamps around the real call.
\<close>

definition not_recorded :: "Thread \<Rightarrow> bool" where
  "not_recorded t \<longleftrightarrow> outsideTrackedAllocation (th_alloc t) \<or> \<not> sampledForCountingEvent (th_alloc t)"

definition record_syscall :: "SystemCallTypes \<Rightarrow> u64 \<Rightarrow> u64 \<Rightarrow> Thread \<Rightarrow> Thread" where
  "record_syscall sc start stop t =
    t\<lparr>th_alloc := addOneSyscallToSyscallData sc (stop - start) (th_alloc t)\<rparr>"

definition yymmap :: "u64 \<Rightarrow> u64 \<Rightarrow> state \<Rightarrow> crash + state" where
  "yymmap start stop s =
    (case s of (t, p) \<Rightarrow>
      if profilerNotInitialized (th_flags t) then Inr (t, p)
      else if not_recorded t then Inr (t, p)
      else Inr (record_syscall MMAP start stop t, p))"

definition MADV_DONTNEED :: int where [config]: "MADV_DONTNEED = 4"

definition clean_pages :: "u64 \<Rightarrow> u64 \<Rightarrow> u64 \<Rightarrow> state \<Rightarrow> crash + state" where
  "clean_pages junk addr len s =
    bindR (cleanupPages junk addr len (pf_shadow (snd s)))
      (\<lambda>sm. Inr (fst s, (snd s)\<lparr>pf_shadow := sm\<rparr>))"

definition madvise :: "u64 \<Rightarrow> u64 \<Rightarrow> u64 \<Rightarrow> int \<Rightarrow> u64 \<Rightarrow> u64 \<Rightarrow> state \<Rightarrow> crash + state" where
  "madvise junk addr len advice start stop s =
    (if outsideTrackedAllocation (th_alloc (fst s)) then Inr s
     else bindR (if advice = MADV_DONTNEED then clean_pages junk addr len s else Inr s) (\<lambda>(t, p).
       if \<not> sampledForCountingEvent (th_alloc t) then Inr (t, p)
       else Inr (record_syscall MADVISE start stop t, p)))"

definition sbrk :: "u64 \<Rightarrow> u64 \<Rightarrow> state \<Rightarrow> crash + state" where
  "sbrk start stop s =
    (case s of (t, p) \<Rightarrow> if not_recorded t then Inr (t, p) else Inr (record_syscall SBRK start stop t, p))"

definition mprotect :: "u64 \<Rightarrow> u64 \<Rightarrow> state \<Rightarrow> crash + state" where
  "mprotect start stop s =
    (case s of (t, p) \<Rightarrow> if not_recorded t then Inr (t, p) else Inr (record_syscall MPROTECT start stop t, p))"

definition munmap :: "u64 \<Rightarrow> u64 \<Rightarrow> u64 \<Rightarrow> u64 \<Rightarrow> u64 \<Rightarrow> state \<Rightarrow> crash + state" where
  "munmap junk addr len start stop s =
    (if outsideTrackedAllocation (th_alloc (fst s)) then Inr s
     else bindR (clean_pages junk addr len s) (\<lambda>(t, p).
       if \<not> sampledForCountingEvent (th_alloc t) then Inr (t, p)
       else Inr (record_syscall MUNMAP start stop t, p)))"

definition mremap :: "u64 \<Rightarrow> u64 \<Rightarrow> state \<Rightarrow> crash + state" where
  "mremap start stop s =
    (case s of (t, p) \<Rightarrow> if not_recorded t then Inr (t, p) else Inr (record_syscall MREMAP start stop t, p))"

section \<open>Locks\<close>

text \<open>
  Find the lock in the thread's table, or insert it and count it as new. The running thread's region
  provides the entry; its index is the \<open>short\<close>.
\<close>

definition find_or_insert_lock :: "LockTypes \<Rightarrow> u64 \<Rightarrow> state \<Rightarrow> crash + (u64 \<times> state)" where
  "find_or_insert_lock ty lock s =
    (case s of (t, p) \<Rightarrow>
      bindR (HashMap_find (th_locks t) lock) (\<lambda>found.
        case found of
          Some e \<Rightarrow> Inr (e, (t, p))
        | None \<Rightarrow>
            bindR (thread_slot MAX_THREAD_NUMBER (th_local t)) (\<lambda>tid.
            bindR (HashMap_insert (th_locks t) (pf_memory p) tid lock (DetailLockData_newDetailLockData ty))
              (\<lambda>(e, locks, mm).
                Inr (e, (t\<lparr>th_locks := locks, th_alloc := recordANewLock ty (th_alloc t)\<rparr>, set_memory mm p))))))"

definition on_alloc :: "(AllocatingStatus \<Rightarrow> crash + AllocatingStatus) \<Rightarrow> state \<Rightarrow> crash + state" where
  "on_alloc f s = bindR (f (th_alloc (fst s))) (\<lambda>a. Inr ((fst s)\<lparr>th_alloc := a\<rparr>, snd s))"

definition start_lock :: "LockTypes \<Rightarrow> u64 \<Rightarrow> state \<Rightarrow> crash + state" where
  "start_lock ty lock s =
    bindR (find_or_insert_lock ty lock s) (\<lambda>(e, s). on_alloc (\<lambda>a. Inr (initForWritingOneLockData ty e a)) s)"

text \<open>\<open>lock_word\<close> is the value of \<open>__data.__lock\<close> (of \<open>*lock\<close>) when the function looks at it.\<close>

definition pthread_mutex_lock :: "u64 \<Rightarrow> int \<Rightarrow> u64 \<Rightarrow> u64 \<Rightarrow> state \<Rightarrow> crash + state" where
  "pthread_mutex_lock mutex lock_word start stop s =
    (if not_recorded (fst s) then Inr s
     else bindR (start_lock MUTEX mutex s) (\<lambda>s.
          bindR (if lock_word \<noteq> 0 then on_alloc recordALockContention s else Inr s) (\<lambda>s.
          on_alloc (recordLockCallAndCycles 1 (stop - start)) s)))"

definition pthread_spin_lock :: "u64 \<Rightarrow> int \<Rightarrow> u64 \<Rightarrow> u64 \<Rightarrow> state \<Rightarrow> crash + state" where
  "pthread_spin_lock lock lock_word start stop s =
    (if not_recorded (fst s) then Inr s
     else bindR (start_lock SPIN lock s) (\<lambda>s.
          bindR (if lock_word \<noteq> 1 then on_alloc recordALockContention s else Inr s) (\<lambda>s.
          on_alloc (recordLockCallAndCycles 1 (stop - start)) s)))"

definition pthread_spin_trylock :: "u64 \<Rightarrow> int \<Rightarrow> u64 \<Rightarrow> u64 \<Rightarrow> state \<Rightarrow> crash + state" where
  "pthread_spin_trylock lock result start stop s =
    (if not_recorded (fst s) then Inr s
     else bindR (start_lock SPINTRY lock s) (\<lambda>s.
          bindR (if result \<noteq> 0 then on_alloc recordALockContention s else Inr s) (\<lambda>s.
          on_alloc (recordLockCallAndCycles 1 (stop - start)) s)))"

definition pthread_mutex_trylock :: "u64 \<Rightarrow> int \<Rightarrow> u64 \<Rightarrow> u64 \<Rightarrow> state \<Rightarrow> crash + state" where
  "pthread_mutex_trylock mutex result start stop s =
    (if not_recorded (fst s) then Inr s
     else bindR (start_lock MUTEXTRY mutex s) (\<lambda>s.
          bindR (if result \<noteq> 0 then on_alloc recordALockContention s else Inr s) (\<lambda>s.
          on_alloc (recordLockCallAndCycles 1 (stop - start)) s)))"

definition pthread_mutex_unlock :: "state \<Rightarrow> crash + state" where
  "pthread_mutex_unlock s = Inr s"

definition pthread_spin_unlock :: "state \<Rightarrow> crash + state" where
  "pthread_spin_unlock s = Inr s"

section \<open>What a real allocation function calls\<close>

datatype inner_event =
    InnerMmap u64 u64
  | InnerMadvise u64 u64 int u64 u64
  | InnerSbrk u64 u64
  | InnerMprotect u64 u64
  | InnerMunmap u64 u64 u64 u64
  | InnerMremap u64 u64
  | InnerMutexLock u64 int u64 u64
  | InnerSpinLock u64 int u64 u64
  | InnerSpinTrylock u64 int u64 u64
  | InnerMutexTrylock u64 int u64 u64
  | InnerMutexUnlock
  | InnerSpinUnlock

fun inner_step :: "u64 \<Rightarrow> inner_event \<Rightarrow> state \<Rightarrow> crash + state" where
  "inner_step junk (InnerMmap a b) s = yymmap a b s"
| "inner_step junk (InnerMadvise addr len advice a b) s = madvise junk addr len advice a b s"
| "inner_step junk (InnerSbrk a b) s = sbrk a b s"
| "inner_step junk (InnerMprotect a b) s = mprotect a b s"
| "inner_step junk (InnerMunmap addr len a b) s = munmap junk addr len a b s"
| "inner_step junk (InnerMremap a b) s = mremap a b s"
| "inner_step junk (InnerMutexLock l w a b) s = pthread_mutex_lock l w a b s"
| "inner_step junk (InnerSpinLock l w a b) s = pthread_spin_lock l w a b s"
| "inner_step junk (InnerSpinTrylock l w a b) s = pthread_spin_trylock l w a b s"
| "inner_step junk (InnerMutexTrylock l w a b) s = pthread_mutex_trylock l w a b s"
| "inner_step junk InnerMutexUnlock s = pthread_mutex_unlock s"
| "inner_step junk InnerSpinUnlock s = pthread_spin_unlock s"

fun inner_steps :: "u64 \<Rightarrow> inner_event list \<Rightarrow> state \<Rightarrow> crash + state" where
  "inner_steps junk [] s = Inr s"
| "inner_steps junk (e # es) s = bindR (inner_step junk e s) (inner_steps junk es)"

record RealX_call =
  rx_object :: u64
  rx_inner :: "inner_event list"

section \<open>Allocation functions\<close>

text \<open>Which real function a wrapper called, with its arguments; \<open>NoCall\<close> when it called none.\<close>

datatype RealCall =
    NoCall
  | RealMalloc u64
  | RealCalloc u64 u64
  | RealFree u64
  | RealRealloc u64 u64
  | RealPosixMemalign u64 u64
  | RealMemalign u64 u64

text \<open>\<open>MyMalloc::malloc\<close> and \<open>ifInProfilerMemoryThenFree\<close>, on the profiler's memory.\<close>

definition profiler_malloc :: "u64 \<Rightarrow> state \<Rightarrow> u64 \<times> state" where
  "profiler_malloc sz s =
    (let (a, mm) = MyMalloc_malloc (pf_memory (snd s)) sz in (a, (fst s, set_memory mm (snd s))))"

definition in_profiler_memory :: "u64 \<Rightarrow> state \<Rightarrow> bool \<times> state" where
  "in_profiler_memory ptr s =
    (let (b, mm) = MyMalloc_ifInProfilerMemoryThenFree (pf_memory (snd s)) ptr
     in (b, (fst s, set_memory mm (snd s))))"

text \<open>The three statements after the real call.\<close>

definition after_allocation :: "Machine \<Rightarrow> u64 \<Rightarrow> state \<Rightarrow> crash + state" where
  "after_allocation m object s =
    (case s of (t, p) \<Rightarrow>
      bindR (updateAllocatingStatusAfterRealFunction (env_of m t) (m_junk m) object (m_after m) (th_alloc t)
              (pf_objTable p, pf_shadow p)) (\<lambda>(a, ot, sm).
        Inr (t\<lparr>th_alloc := a\<rparr>, p\<lparr>pf_objTable := ot, pf_shadow := sm\<rparr>)))"

definition update_infos :: "state \<Rightarrow> state" where
  "update_infos s =
    (case s of (t, p) \<Rightarrow>
      let (a, ts, locks) = updateAllocatingInfoToThreadLocalData (pf_status p) (pf_counts p)
                             (th_alloc t, th_local t, th_locks t);
          (a, pt) = updateAllocatingInfoToPredictor (pf_status p) (pf_counts p) (pf_predictor p) (a, th_predict t)
      in (t\<lparr>th_alloc := a, th_local := ts, th_locks := locks, th_predict := pt\<rparr>, p))"

definition tracked_allocation ::
  "AllocationFunction \<Rightarrow> u64 \<Rightarrow> Machine \<Rightarrow> RealX_call \<Rightarrow> state \<Rightarrow> crash + state" where
  "tracked_allocation f sz m rx s =
    (let t = fst s;
         t = t\<lparr>th_alloc := updateAllocatingStatusBeforeRealFunction f (ucast sz) (m_drawn m) (m_before m) (th_alloc t)\<rparr>
     in bindR (inner_steps (m_junk m) (rx_inner rx) (t, snd s)) (\<lambda>s.
        bindR (after_allocation m (rx_object rx) s) (\<lambda>s. Inr (update_infos s))))"

definition pass_through :: "Machine \<Rightarrow> RealX_call \<Rightarrow> state \<Rightarrow> RealCall \<Rightarrow> crash + (u64 \<times> RealCall \<times> state)" where
  "pass_through m rx s call =
    bindR (inner_steps (m_junk m) (rx_inner rx) s) (\<lambda>s. Inr (rx_object rx, call, s))"

definition not_tracking :: "state \<Rightarrow> bool" where
  "not_tracking s \<longleftrightarrow> \<not> outsideTrackedAllocation (th_alloc (fst s)) \<or> conclusionHasStarted (pf_status (snd s))"

definition main_not_initialized :: "state \<Rightarrow> bool" where
  "main_not_initialized s \<longleftrightarrow>
    runningThreadIndex (th_local (fst s)) = 0 \<and> profilerNotInitialized (th_flags (fst s))"

text \<open>The first tracked allocation of the first thread also sets up its sampling.\<close>

definition init_sampling :: "Machine \<Rightarrow> state \<Rightarrow> crash + state" where
  "init_sampling m s =
    bindR (initPMU (m_pmu m) (th_sampling (fst s))) (\<lambda>sp. Inr ((fst s)\<lparr>th_sampling := sp\<rparr>, snd s))"

definition yymalloc :: "u64 \<Rightarrow> Machine \<Rightarrow> RealX_call \<Rightarrow> state \<Rightarrow> crash + (u64 \<times> RealCall \<times> state)" where
  "yymalloc sz m rx s =
    (if sz = 0 then Inr (0, NoCall, s)
     else if main_not_initialized s
     then (let (a, s) = profiler_malloc sz s in Inr (a, NoCall, s))
     else if not_tracking s then pass_through m rx s (RealMalloc sz)
     else (let (first, a) = isFirstFunction (th_alloc (fst s));
               s = ((fst s)\<lparr>th_alloc := a\<rparr>, snd s)
           in bindR (tracked_allocation MALLOC sz m rx s) (\<lambda>s.
              bindR (if first \<and> runningThreadIndex (th_local (fst s)) = 0 then init_sampling m s else Inr s) (\<lambda>s.
                Inr (rx_object rx, RealMalloc sz, s)))))"

definition yycalloc :: "u64 \<Rightarrow> u64 \<Rightarrow> Machine \<Rightarrow> RealX_call \<Rightarrow> state \<Rightarrow> crash + (u64 \<times> RealCall \<times> state)" where
  "yycalloc nelem elsize m rx s =
    (if nelem * elsize = 0 then Inr (0, NoCall, s)
     else if main_not_initialized s
     then (let (a, s) = profiler_malloc (nelem * elsize) s in Inr (a, NoCall, s))
     else if not_tracking s then pass_through m rx s (RealCalloc nelem elsize)
     else bindR (tracked_allocation CALLOC (nelem * elsize) m rx s)
            (\<lambda>s. Inr (rx_object rx, RealCalloc nelem elsize, s)))"

definition free_before :: "AllocationFunction \<Rightarrow> u64 \<Rightarrow> Machine \<Rightarrow> state \<Rightarrow> crash + state" where
  "free_before f ptr m s =
    (case s of (t, p) \<Rightarrow>
      bindR (updateFreeingStatusBeforeRealFunction f ptr (m_junk m) (m_drawn m) (m_before m) (th_alloc t)
               (pf_objTable p, pf_shadow p)) (\<lambda>(a, ot, sm).
        Inr (t\<lparr>th_alloc := a\<rparr>, p\<lparr>pf_objTable := ot, pf_shadow := sm\<rparr>)))"

definition yyfree :: "u64 \<Rightarrow> Machine \<Rightarrow> RealX_call \<Rightarrow> state \<Rightarrow> crash + (RealCall \<times> state)" where
  "yyfree ptr m rx s =
    (if ptr = 0 then Inr (NoCall, s)
     else (let (inside, s) = in_profiler_memory ptr s in
       if inside \<or> profilerNotInitialized (th_flags (fst s)) then Inr (NoCall, s)
       else if not_tracking s
       then bindR (pass_through m rx s (RealFree ptr)) (\<lambda>(_, call, s). Inr (call, s))
       else bindR (free_before FREE ptr m s) (\<lambda>s.
            bindR (inner_steps (m_junk m) (rx_inner rx) s) (\<lambda>(t, p).
              let t = t\<lparr>th_alloc := updateFreeingStatusAfterRealFunction (m_after m) (th_alloc t)\<rparr>
              in Inr (RealFree ptr, update_infos (t, p))))))"

definition yyrealloc :: "u64 \<Rightarrow> u64 \<Rightarrow> Machine \<Rightarrow> RealX_call \<Rightarrow> state \<Rightarrow> crash + (u64 \<times> RealCall \<times> state)" where
  "yyrealloc ptr sz m rx s =
    (if main_not_initialized s
     then (let (_, s) = in_profiler_memory ptr s; (a, s) = profiler_malloc sz s in Inr (a, NoCall, s))
     else (let (inside, s) = in_profiler_memory ptr s in
       if inside then pass_through m rx s (RealMalloc sz)
       else if not_tracking s then pass_through m rx s (RealRealloc ptr sz)
       else bindR (if ptr \<noteq> 0 then free_before REALLOC ptr m s else Inr s) (\<lambda>s.
            bindR (tracked_allocation REALLOC sz m rx s)
              (\<lambda>s. Inr (rx_object rx, RealRealloc ptr sz, s)))))"

text \<open>\<open>posix_memalign\<close> stores the address through its pointer argument, left alone for size zero.\<close>

definition yyposix_memalign ::
  "u64 \<Rightarrow> u64 \<Rightarrow> Machine \<Rightarrow> RealX_call \<Rightarrow> state \<Rightarrow> crash + (u64 \<times> RealCall \<times> state)" where
  "yyposix_memalign alignment sz m rx s =
    (if sz = 0 then Inr (0, NoCall, s)
     else if \<not> outsideTrackedAllocation (th_alloc (fst s)) \<or> profilerNotInitialized (th_flags (fst s))
       \<or> conclusionHasStarted (pf_status (snd s))
     then pass_through m rx s (RealPosixMemalign alignment sz)
     else bindR (tracked_allocation POSIX_MEMALIGN sz m rx s)
            (\<lambda>s. Inr (rx_object rx, RealPosixMemalign alignment sz, s)))"

definition yymemalign ::
  "u64 \<Rightarrow> u64 \<Rightarrow> Machine \<Rightarrow> RealX_call \<Rightarrow> state \<Rightarrow> crash + (u64 \<times> RealCall \<times> state)" where
  "yymemalign alignment sz m rx s =
    (if sz = 0 then Inr (0, NoCall, s)
     else if main_not_initialized s
     then (let (a, s) = profiler_malloc sz s in Inr (a, NoCall, s))
     else if not_tracking s then pass_through m rx s (RealMemalign alignment sz)
     else bindR (tracked_allocation MEMALIGN sz m rx s)
            (\<lambda>s. Inr (rx_object rx, RealMemalign alignment sz, s)))"

section \<open>Samples\<close>

text \<open>
  A signal of the performance counters interrupts a thread, with the time stamps at the start and the end
  of the handler. What a thread's samples go to is its own friendliness counters and the shadow memory.
\<close>

definition samples_of :: "state \<Rightarrow> access_state" where
  "samples_of s = (tl_friendlinessStatus (th_local (fst s)), pf_shadow (snd s))"

definition set_samples :: "Sampling \<Rightarrow> access_state \<Rightarrow> state \<Rightarrow> state" where
  "set_samples sp acc s =
    ((fst s)\<lparr>th_sampling := sp, th_local := (th_local (fst s))\<lparr>tl_friendlinessStatus := fst acc\<rparr>\<rparr>,
     (snd s)\<lparr>pf_shadow := snd acc\<rparr>)"

definition sample_signal :: "bool \<Rightarrow> u64 \<Rightarrow> u64 \<Rightarrow> u64 \<Rightarrow> state \<Rightarrow> (crash + state) option" where
  "sample_signal hup stop start junk s =
    map_option (\<lambda>r. bindR r (\<lambda>(sp, pt, acc).
        Inr (set_samples sp acc ((fst s)\<lparr>th_predict := pt\<rparr>, snd s))))
      (sampleHandler hup stop start junk (runningThreadIndex (th_local (fst s)))
        (th_sampling (fst s), th_predict (fst s), samples_of s))"

definition stop_sampling :: "u64 \<Rightarrow> state \<Rightarrow> (crash + state) option" where
  "stop_sampling junk s =
    map_option (\<lambda>r. bindR r (\<lambda>(sp, acc). Inr (set_samples sp acc s)))
      (stopSampling junk (runningThreadIndex (th_local (fst s))) (th_sampling (fst s)) (samples_of s))"

end
