(* ===== verification/MemSample_Correct.thy ===== *)
theory MemSample_Correct
  imports MemSample ShadowMemory_Correct
begin

text \<open>
  The reader of the ring buffer against the layout of the kernel's records: whatever records were written, at
  whatever place of the ring, they are delivered in order, each sample once. Also where the reader leaves
  this contract: more pending bytes than the ring holds, and a record of size 0.
\<close>

section \<open>The layout of the records\<close>

text \<open>A record is a header (type, flags, size in bytes) and a body; a sample's body is the address and the source.\<close>

datatype perf_record =
    Sample u64 u64
  | Other nat "u8 list"

fun le_bytes :: "nat \<Rightarrow> nat \<Rightarrow> u8 list" where
  "le_bytes 0 x = []"
| "le_bytes (Suc n) x = of_nat (x mod 256) # le_bytes n (x div 256)"

definition header_bytes :: "nat \<Rightarrow> nat \<Rightarrow> u8 list" where
  "header_bytes type n = le_bytes 4 type @ le_bytes 2 0 @ le_bytes 2 n"

fun encode :: "perf_record \<Rightarrow> u8 list" where
  "encode (Sample addr src) =
    header_bytes PERF_RECORD_SAMPLE 24 @ le_bytes 8 (unat addr) @ le_bytes 8 (unat src)"
| "encode (Other type body) = header_bytes type (8 + length body) @ body"

fun record_ok :: "perf_record \<Rightarrow> bool" where
  "record_ok (Sample addr src) = True"
| "record_ok (Other type body) = (type \<noteq> PERF_RECORD_SAMPLE \<and> type < 2 ^ 32 \<and> 8 + length body < 2 ^ 16)"

text \<open>What the records should do to the state, in their order.\<close>

fun deliver :: "u64 \<Rightarrow> u16 \<Rightarrow> perf_record list \<Rightarrow> access_state \<Rightarrow> crash + access_state" where
  "deliver junk tid [] acc = Inr acc"
| "deliver junk tid (Sample addr src # rs) acc = bindR (sampled_access junk tid addr src acc) (deliver junk tid rs)"
| "deliver junk tid (Other type body # rs) acc = deliver junk tid rs acc"

text \<open>The \<open>n\<close> bytes of the ring from a position that only grows.\<close>

definition ring_bytes :: "u8 list \<Rightarrow> nat \<Rightarrow> nat \<Rightarrow> u8 list" where
  "ring_bytes data pos n = map (\<lambda>i. data ! ((pos + i) mod DATA_MAPSIZE)) [0..<n]"

definition buffers_ok :: "Sampling \<Rightarrow> RingBuffer \<Rightarrow> bool" where
  "buffers_ok s rb \<longleftrightarrow> ring_buf s = Some rb \<and> length (data_mmap rb) = DATA_MAPSIZE
    \<and> length (data_buf_copy (perfInfo s)) = DATA_MAPSIZE"

section \<open>Decoding\<close>

lemma length_le_bytes [simp]: "length (le_bytes n x) = n"
  by (induction n arbitrary: x) auto

lemma length_header_bytes [simp]: "length (header_bytes type n) = 8"
  by (simp add: header_bytes_def)

lemma le_value_le_bytes: "x < 256 ^ n \<Longrightarrow> le_value (le_bytes n x) = x"
proof (induction n arbitrary: x)
  case (Suc n)
  have "x div 256 < 256 ^ n"
    using Suc.prems by (simp add: less_mult_imp_div_less mult.commute)
  moreover have "unat (of_nat (x mod 256) :: u8) = x mod 256"
    by (rule unat_of_nat_small) simp
  ultimately show ?case
    using Suc.IH [of "x div 256"] by simp
qed simp

lemma read_bytes_at:
  assumes "x < 256 ^ n" and "off = length pre"
  shows "read_bytes n off (pre @ le_bytes n x @ post) = Inr x"
  using assms by (simp add: read_bytes_def le_value_le_bytes)

lemma read_bytes_field:
  assumes "buf = pre @ le_bytes n x @ post" and "x < 256 ^ n" and "off = length pre"
  shows "read_bytes n off buf = Inr x"
  using read_bytes_at assms by simp

lemma read_type:
  assumes "type < 2 ^ 32"
  shows "read_bytes 4 (length pre) (pre @ header_bytes type n @ post) = Inr type"
  by (rule read_bytes_field [where pre = pre and post = "le_bytes 2 0 @ le_bytes 2 n @ post"])
    (use assms in \<open>auto simp: header_bytes_def\<close>)

lemma read_size:
  assumes "n < 2 ^ 16"
  shows "read_bytes 2 (length pre + 6) (pre @ header_bytes type n @ post) = Inr n"
  by (rule read_bytes_field [where pre = "pre @ le_bytes 4 type @ le_bytes 2 0" and post = post])
    (use assms in \<open>auto simp: header_bytes_def\<close>)

lemma unat_lt_256: "unat (x :: u64) < 256 ^ 8"
  using unat_lt_64 [of x] by simp

lemma read_record_Sample:
  "read_record junk tid (pre @ encode (Sample addr src) @ post) (length pre) acc
    = bindR (sampled_access junk tid addr src acc) (\<lambda>acc. Inr (length pre + 24, acc))"
proof -
  let ?buf = "pre @ header_bytes PERF_RECORD_SAMPLE 24 @ le_bytes 8 (unat addr) @ le_bytes 8 (unat src) @ post"
  have "read_bytes 4 (length pre) ?buf = Inr PERF_RECORD_SAMPLE"
    by (rule read_type) (simp add: PERF_RECORD_SAMPLE_def)
  moreover have "read_bytes 2 (length pre + 6) ?buf = Inr 24"
    by (rule read_size) simp
  moreover have "read_bytes 8 (length pre + SIZEOF_PERF_EVENT_HEADER) ?buf = Inr (unat addr)"
    by (rule read_bytes_field [where pre = "pre @ header_bytes PERF_RECORD_SAMPLE 24"
          and post = "le_bytes 8 (unat src) @ post"])
      (use unat_lt_256 in \<open>auto simp: SIZEOF_PERF_EVENT_HEADER_def\<close>)
  moreover have "read_bytes 8 (length pre + SIZEOF_PERF_EVENT_HEADER + 8) ?buf = Inr (unat src)"
    by (rule read_bytes_field [where pre = "pre @ header_bytes PERF_RECORD_SAMPLE 24 @ le_bytes 8 (unat addr)"
          and post = post])
      (use unat_lt_256 in \<open>auto simp: SIZEOF_PERF_EVENT_HEADER_def\<close>)
  ultimately show ?thesis
    by (simp add: read_record_def)
qed

lemma read_record_Other:
  assumes "record_ok (Other type body)"
  shows "read_record junk tid (pre @ encode (Other type body) @ post) (length pre) acc
    = Inr (length pre + 8 + length body, acc)"
proof -
  let ?buf = "pre @ header_bytes type (8 + length body) @ body @ post"
  have "read_bytes 4 (length pre) ?buf = Inr type"
    by (rule read_type) (use assms in simp)
  moreover have "read_bytes 2 (length pre + 6) ?buf = Inr (8 + length body)"
    by (rule read_size) (use assms in simp)
  ultimately show ?thesis
    using assms by (simp add: read_record_def)
qed

lemma read_loop_delivers:
  assumes "\<forall>r \<in> set rs. record_ok r"
  shows "read_loop junk tid (pre @ concat (map encode rs) @ post) (length pre + length (concat (map encode rs)))
      (length pre) acc = Some (deliver junk tid rs acc)"
  using assms
proof (induction rs arbitrary: pre acc)
  case Nil
  show ?case by (simp add: read_loop.simps)
next
  case (Cons r rs)
  let ?post = "concat (map encode rs) @ post"
  have IH: "read_loop junk tid (pre @ encode r @ ?post)
      (length pre + (length (encode r) + length (concat (map encode rs)))) (length pre + length (encode r)) acc
    = Some (deliver junk tid rs acc)" for acc
    using Cons.IH [of "pre @ encode r" acc] Cons.prems by (simp add: add.assoc)
  show ?case
  proof (cases r)
    case (Sample addr src)
    have "length (encode r) = 24" by (simp add: Sample)
    with IH read_record_Sample [of junk tid pre addr src ?post acc] show ?thesis
      by (cases "sampled_access junk tid addr src acc") (simp_all add: Sample read_loop.simps [of _ _ _ _ "length pre"])
  next
    case (Other type body)
    have "length (encode r) = 8 + length body" by (simp add: Other)
    with IH read_record_Other [of type body junk tid pre ?post acc] Cons.prems show ?thesis
      by (simp add: Other read_loop.simps [of _ _ _ _ "length pre"] add.assoc)
  qed
qed

section \<open>The bytes to read\<close>

lemma ring_bytes_take_drop:
  assumes "length data = DATA_MAPSIZE" and "n \<le> DATA_MAPSIZE"
  shows "ring_bytes data pos n =
    (let w = pos mod DATA_MAPSIZE; amount = DATA_MAPSIZE - w in
     if n > amount then take amount (drop w data) @ take (n - amount) data else take n (drop w data))"
proof (rule nth_equalityI)
  have pos: "0 < DATA_MAPSIZE" by (simp add: config)
  then have w: "pos mod DATA_MAPSIZE < DATA_MAPSIZE" by simp
  then show "length (ring_bytes data pos n) = length (let w = pos mod DATA_MAPSIZE; amount = DATA_MAPSIZE - w in
     if n > amount then take amount (drop w data) @ take (n - amount) data else take n (drop w data))"
    using assms by (auto simp: ring_bytes_def Let_def)
  fix i
  assume "i < length (ring_bytes data pos n)"
  then have i: "i < n" by (simp add: ring_bytes_def)
  have "(pos + i) mod DATA_MAPSIZE = (pos mod DATA_MAPSIZE + i) mod DATA_MAPSIZE"
    by (simp add: mod_simps)
  also have "\<dots> = (if i < DATA_MAPSIZE - pos mod DATA_MAPSIZE then pos mod DATA_MAPSIZE + i
      else i - (DATA_MAPSIZE - pos mod DATA_MAPSIZE))"
  proof (cases "i < DATA_MAPSIZE - pos mod DATA_MAPSIZE")
    case True
    then show ?thesis by simp
  next
    case False
    then have "(pos mod DATA_MAPSIZE + i) mod DATA_MAPSIZE = (pos mod DATA_MAPSIZE + i - DATA_MAPSIZE) mod DATA_MAPSIZE"
      using w by (intro le_mod_geq) linarith
    also have "\<dots> = pos mod DATA_MAPSIZE + i - DATA_MAPSIZE"
      using i assms w by (intro mod_less) linarith
    finally show ?thesis using False w by simp
  qed
  finally show "ring_bytes data pos n ! i = (let w = pos mod DATA_MAPSIZE; amount = DATA_MAPSIZE - w in
     if n > amount then take amount (drop w data) @ take (n - amount) data else take n (drop w data)) ! i"
    using i assms w by (auto simp: ring_bytes_def Let_def nth_append)
qed

lemma pending_data_ok:
  assumes "length data = DATA_MAPSIZE" and "length copy = DATA_MAPSIZE" and "n \<le> DATA_MAPSIZE"
  shows "\<exists>post copy'. pending_data (pos mod DATA_MAPSIZE) n data copy = Inr (ring_bytes data pos n @ post, copy')
    \<and> length copy' = DATA_MAPSIZE"
proof -
  let ?w = "pos mod DATA_MAPSIZE"
  have w: "?w < DATA_MAPSIZE" by (simp add: config)
  note bytes = ring_bytes_take_drop [OF assms(1,3), of pos]
  show ?thesis
  proof (cases "n > DATA_MAPSIZE - ?w")
    case True
    have "n + ?w - DATA_MAPSIZE \<le> DATA_MAPSIZE" using assms w by linarith
    with True have "pending_data ?w n data copy
        = Inr (ring_bytes data pos n @ drop n copy, ring_bytes data pos n @ drop n copy)"
      using assms w bytes by (simp add: pending_data_def Let_def)
    moreover have "length (ring_bytes data pos n @ drop n copy) = DATA_MAPSIZE"
      using assms by (simp add: ring_bytes_def)
    ultimately show ?thesis by blast
  next
    case False
    then have "pending_data ?w n data copy = Inr (drop ?w data, copy)" and "ring_bytes data pos n = take n (drop ?w data)"
      using bytes by (simp_all add: pending_data_def Let_def)
    then have "pending_data ?w n data copy = Inr (ring_bytes data pos n @ drop n (drop ?w data), copy)"
      by (simp only: append_take_drop_id)
    then show ?thesis using assms(2) by blast
  qed
qed

lemma pending_data_overrun:
  assumes "length copy = DATA_MAPSIZE" and "DATA_MAPSIZE < n"
  shows "pending_data w n data copy = Inl OutOfBounds"
  using assms by (simp add: pending_data_def Let_def)

section \<open>Records that do not advance\<close>

lemma read_loop_result_advances:
  assumes "read_loop junk tid buf n offset acc = Some y"
  shows "offset < n \<longrightarrow> read_record junk tid buf offset acc \<noteq> Inr (offset, acc)"
proof -
  let ?stuck = "\<lambda>junk tid buf n offset acc. offset < n \<and> read_record junk tid buf offset acc = Inr (offset, acc)"
  have "\<not> ?stuck junk tid buf n offset acc"
    by (rule read_loop.raw_induct [OF _ assms, where P = "\<lambda>junk tid buf n offset acc y. \<not> ?stuck junk tid buf n offset acc"])
      (auto split: if_splits sum.splits prod.splits)
  then show ?thesis by blast
qed

lemma read_loop_stuck:
  "k < n \<Longrightarrow> read_record junk tid buf k acc = Inr (k, acc) \<Longrightarrow> read_loop junk tid buf n k acc = None"
  using read_loop_result_advances by fastforce

lemma read_record_header:
  assumes "type \<noteq> PERF_RECORD_SAMPLE" and "type < 2 ^ 32" and "n < 2 ^ 16"
  shows "read_record junk tid (header_bytes type n @ post) 0 acc = Inr (n, acc)"
  using assms read_type [of type "[]" n post] read_size [of n "[]" type post]
  by (simp add: read_record_def)

section \<open>The states of sampling\<close>

text \<open>
  What a thread's sampling goes through: setting up, the handler, pausing, restarting and stopping, with the
  kernel writing records in between. Restarting presumes that the ring is mapped.
\<close>

definition setup_ok :: "SetupResults \<Rightarrow> bool" where
  "setup_ok r \<longleftrightarrow> (\<forall>rb. sr_mmap r = Some rb \<longrightarrow> length (data_mmap rb) = DATA_MAPSIZE)"

inductive sampling_step :: "Sampling \<Rightarrow> Sampling \<Rightarrow> bool" where
  start: "setup_ok (pmu_results u) \<Longrightarrow> initPMU u s = Inr s' \<Longrightarrow> sampling_step s s'"
| start2: "setup_ok (pmu_results u) \<Longrightarrow> initPMU2 u s = Inr s' \<Longrightarrow> sampling_step s s'"
| pause: "sampling_step s (pauseSampling s)"
| restart: "ring_buf s \<noteq> None \<Longrightarrow> restartSampling b s = Inr s' \<Longrightarrow> sampling_step s s'"
| stop: "stopSampling junk tid s acc = Some (Inr (s', acc')) \<Longrightarrow> sampling_step s s'"
| handler: "sampleHandler hup c c' junk tid (s, pt, acc) = Some (Inr (s', pt', acc')) \<Longrightarrow> sampling_step s s'"
| kernel: "ring_buf s = Some rb \<Longrightarrow> length data = DATA_MAPSIZE
    \<Longrightarrow> sampling_step s (s\<lparr>ring_buf := Some (rb\<lparr>data_mmap := data, data_head := h\<rparr>)\<rparr>)"

definition sampling_ok :: "Sampling \<Rightarrow> bool" where
  "sampling_ok s \<longleftrightarrow> (isSamplingInit s \<longrightarrow> ring_buf s \<noteq> None)
    \<and> (\<forall>rb. ring_buf s = Some rb \<longrightarrow> length (data_mmap rb) = DATA_MAPSIZE
          \<and> length (data_buf_copy (perfInfo s)) = DATA_MAPSIZE)"

lemma require_Inr [simp]: "require b m = Inr u \<longleftrightarrow> b"
  by (simp add: require_def)

lemma pending_data_copy:
  assumes "pending_data w n data copy = Inr (buf, copy')" and "length copy = DATA_MAPSIZE"
    and "length data = DATA_MAPSIZE" and "w < DATA_MAPSIZE"
  shows "length copy' = DATA_MAPSIZE"
  using assms by (auto simp: pending_data_def Let_def split: if_splits)

lemma perf_mmap_read_ok:
  assumes "perf_mmap_read junk tid s acc = Some (Inr (head, s', acc'))" and "sampling_ok s"
  shows "isSamplingInit s' = isSamplingInit s \<and> ring_buf s' \<noteq> None \<and> sampling_ok s'"
proof -
  obtain rb where rb: "ring_buf s = Some rb"
    using assms(1) by (auto simp: perf_mmap_read_def split: option.splits)
  let ?prev = "if data_head rb < prev_head (perfInfo s) then 0 else prev_head (perfInfo s)"
  let ?n = "unat (data_head rb - prev_head (perfInfo s))"
  obtain buf copy where pending: "pending_data (unat ?prev mod DATA_MAPSIZE) ?n (data_mmap rb)
        (data_buf_copy (perfInfo s)) = Inr (buf, copy)"
    and s': "s' = s\<lparr>perfInfo := (perfInfo s)\<lparr>prev_head := ?prev, data_buf_copy := copy\<rparr>,
                    ring_buf := Some (rb\<lparr>data_tail := data_head rb\<rparr>)\<rparr>"
    using assms(1) rb unfolding perf_mmap_read_def
    by (simp add: Let_def bindR_Inr_iff del: mod_0 unat_0 split: sum.splits prod.splits) blast
  have lengths: "length (data_mmap rb) = DATA_MAPSIZE" "length (data_buf_copy (perfInfo s)) = DATA_MAPSIZE"
    using assms(2) rb by (auto simp: sampling_ok_def)
  have "length copy = DATA_MAPSIZE"
    by (rule pending_data_copy [OF pending lengths(2,1)]) (simp add: config)
  then show ?thesis using s' lengths by (simp add: sampling_ok_def)
qed

lemma stopSampling_ok:
  assumes "stopSampling junk tid s acc = Some (Inr (s', acc'))" and "sampling_ok s"
  shows "sampling_ok s' \<and> \<not> isSamplingInit s' \<and> (isSamplingInit s \<longrightarrow> ring_buf s' = None)"
proof (cases "isSamplingInit s")
  case True
  then obtain head s1 where r: "perf_mmap_read junk tid (s\<lparr>isSamplingInit := False\<rparr>) acc = Some (Inr (head, s1, acc'))"
    and s': "s' = (note_head head s1)\<lparr>ring_buf := None\<rparr>"
    using assms(1) by (auto simp: stopSampling_def bindR_Inr_iff)
  have "sampling_ok (s\<lparr>isSamplingInit := False\<rparr>)" using assms(2) by (simp add: sampling_ok_def)
  then have "\<not> isSamplingInit s1" using perf_mmap_read_ok [OF r] by simp
  then show ?thesis using s' by (simp add: sampling_ok_def note_head_def)
next
  case False
  then show ?thesis using assms by (simp add: stopSampling_def)
qed

lemma sampling_ok_note_head [simp]: "sampling_ok (note_head h s) = sampling_ok s"
  by (simp add: sampling_ok_def note_head_def)

lemma setupSampling_ok:
  assumes "setupSampling p r s = Inr s'" and "setup_ok r" and "sampling_ok s"
    and "length (data_buf_copy (perfInfo s)) = DATA_MAPSIZE"
  shows "sampling_ok s'"
  using assms by (auto simp: setupSampling_def sampling_ok_def setup_ok_def bindR_Inr_iff Let_def split: if_splits)

lemma initPMU2_ok:
  assumes "initPMU2 u s = Inr s'" and "setup_ok (pmu_results u)" and "sampling_ok s"
  shows "sampling_ok s'"
proof -
  let ?s = "s\<lparr>perfInfo := (perfInfo s)\<lparr>data_buf_copy := replicate DATA_MAPSIZE 0\<rparr>\<rparr>"
  have "setupSampling (pmu_fuzzed_period u) (pmu_results u) ?s = Inr s'" using assms(1) by (simp add: initPMU2_def bindR_Inr_iff)
  moreover have "sampling_ok ?s" using assms(3) by (simp add: sampling_ok_def)
  ultimately show ?thesis using setupSampling_ok assms(2) by simp
qed

lemma sampling_ok_step:
  assumes "sampling_step s s'" and "sampling_ok s"
  shows "sampling_ok s'"
  using assms
proof (cases rule: sampling_step.cases)
  case (start u)
  then show ?thesis using assms(2) initPMU2_ok by (auto simp: initPMU_def bindR_Inr_iff)
next
  case (start2 u)
  then show ?thesis using assms(2) initPMU2_ok by blast
next
  case pause
  then show ?thesis using assms(2) by (simp add: pauseSampling_def sampling_ok_def)
next
  case (restart b)
  then show ?thesis
    using assms(2) by (auto simp: restartSampling_def sampling_ok_def bindR_Inr_iff split: if_splits)
next
  case (stop junk tid acc acc')
  then show ?thesis using stopSampling_ok assms(2) by blast
next
  case (handler hup c c' junk tid pt acc pt' acc')
  then show ?thesis
    using assms(2) perf_mmap_read_ok [of junk tid s acc]
    by (fastforce simp: sampleHandler_def bindR_Inr_iff split: if_splits)
next
  case (kernel rb data h)
  then show ?thesis using assms(2) by (simp add: sampling_ok_def)
qed

lemma sampling_ok_reachable: "sampling_step\<^sup>*\<^sup>* Sampling_zero s \<Longrightarrow> sampling_ok s"
proof (induction rule: rtranclp_induct)
  case base
  show ?case by (simp add: Sampling_zero_def sampling_ok_def)
next
  case (step y z)
  show ?case by (rule sampling_ok_step [OF step.hyps(2) step.IH])
qed

section \<open>Samples and the accounting\<close>

text \<open>A sampled access that returns leaves the byte counts alone, and so does whatever passes accesses on.\<close>

lemma doMemoryAccess_accounted:
  assumes "doMemoryAccess junk addr tid miss (fs, s) = Inr (fs', s')" and acc: "accounted L s"
  shows "accounted L s'"
proof -
  obtain r idx where g: "getPageIndex junk addr = (r, idx)" by fastforce
  have wf: "sm_wf s" using acc by (simp add: accounted_def)
  have "r < 8 \<longrightarrow> unat idx < MAX_PAGE_MAP_ENTRIES"
    using assms(1) g by (auto simp: doMemoryAccess_def NUM_ADDRESS_RANGE_def Let_def split: if_splits)
  from doMemoryAccess_ok [OF wf g this, of tid miss fs] assms(1) acc show ?thesis
    by (auto simp: same_counts_def accounted_def)
qed

lemma sampled_access_accounted:
  "sampled_access junk tid addr src acc = Inr acc' \<Longrightarrow> accounted L (snd acc) \<Longrightarrow> accounted L (snd acc')"
  using doMemoryAccess_accounted by (cases acc, cases acc') (auto simp: sampled_access_def split: if_splits)

lemma read_record_accounted:
  assumes "read_record junk tid buf offset acc = Inr (offset', acc')" and "accounted L (snd acc)"
  shows "accounted L (snd acc')"
proof -
  obtain addr src where "sampled_access junk tid addr src acc = Inr acc' \<or> acc' = acc"
    using assms(1) by (auto simp: read_record_def bindR_Inr_iff split: if_splits)
  then show ?thesis using sampled_access_accounted assms(2) by blast
qed

lemma read_loop_accounted:
  assumes "read_loop junk tid buf n offset acc = Some r" and "r = Inr acc'" and "accounted L (snd acc)"
  shows "accounted L (snd acc')"
proof -
  have "accounted L (snd acc) \<longrightarrow> (\<forall>acc'. r = Inr acc' \<longrightarrow> accounted L (snd acc'))"
    by (rule read_loop.raw_induct [OF _ assms(1), where P = "\<lambda>junk tid buf n offset acc r.
          accounted L (snd acc) \<longrightarrow> (\<forall>acc'. r = Inr acc' \<longrightarrow> accounted L (snd acc'))"])
      (auto split: if_splits sum.splits prod.splits dest: read_record_accounted)
  then show ?thesis using assms(2,3) by blast
qed

lemma perf_mmap_read_accounted:
  assumes "perf_mmap_read junk tid s acc = Some (Inr (head, s', acc'))" and "accounted L (snd acc)"
  shows "accounted L (snd acc')"
proof -
  obtain buf n where "read_loop junk tid buf n 0 acc = Some (Inr acc')"
    using assms(1) by (auto simp: perf_mmap_read_def Let_def bindR_Inr_iff
        split: option.splits sum.splits prod.splits)
  then show ?thesis using read_loop_accounted assms(2) by blast
qed

lemma sampleHandler_accounted:
  assumes "sampleHandler hup stop start junk tid (s, pt, acc) = Some (Inr (s', pt', acc'))" and "accounted L (snd acc)"
  shows "accounted L (snd acc')"
  using assms perf_mmap_read_accounted
  by (fastforce simp: sampleHandler_def bindR_Inr_iff split: if_splits)

lemma sampleHandler_predictor:
  assumes "sampleHandler hup stop start junk tid (s, pt, acc) = Some (Inr (s', pt', acc'))"
  shows "pt' = pt \<or> pt' = outsideCycleStart start (outsideCyclesStop stop pt)"
  using assms by (auto simp: sampleHandler_def bindR_Inr_iff split: if_splits)

section \<open>Properties\<close>

text \<open>A ring at the position 524280 that holds one sample, which wraps around after its first 8 bytes.\<close>

definition sample_ring :: RingBuffer where
  "sample_ring = \<lparr>data_mmap = drop 8 (encode (Sample 0 0)) @ replicate (DATA_MAPSIZE - 24) 0 @ take 8 (encode (Sample 0 0)),
    data_head = 524304, data_tail = 0\<rparr>"

definition sample_sampling :: "u64 \<Rightarrow> RingBuffer \<Rightarrow> Sampling" where
  "sample_sampling prev rb = \<lparr>isSamplingInit = True, perfInfo = \<lparr>perf_fd = 3, perf_fd2 = 4, prev_head = prev,
    data_buf_copy = replicate DATA_MAPSIZE 0\<rparr>, ring_buf = Some rb\<rparr>"

lemma sample_ring_length: "length (data_mmap sample_ring) = DATA_MAPSIZE"
  by (simp add: sample_ring_def header_bytes_def config)

lemma sample_ring_bytes: "ring_bytes (data_mmap sample_ring) 524280 24 = encode (Sample 0 0)"
proof -
  have "take 8 (drop 524280 (data_mmap sample_ring)) @ take 16 (data_mmap sample_ring) = encode (Sample 0 0)"
    by (simp add: sample_ring_def config)
  then show ?thesis
    using ring_bytes_take_drop [OF sample_ring_length, of 24 524280] by (simp add: config)
qed

text \<open>
  C3: The reader gives back exactly the records that were written. If the bytes between the old head and the
  new one are the encodings of a list of records, wherever in the ring they lie and whether or not they wrap
  around its end, then reading ends, passes on each sampled access once and in order, skips the other
  records, and tells the kernel that everything up to the head has been read; a failure of the shadow memory
  is passed on.
\<close>

theorem records_are_read_back:
  assumes "buffers_ok s rb" and "\<forall>r \<in> set rs. record_ok r"
    and "n = length (concat (map encode rs))" and "n \<le> DATA_MAPSIZE"
    and "unat (prev_head (perfInfo s)) + n < 2 ^ 64"
    and "data_head rb = prev_head (perfInfo s) + of_nat n"
    and "ring_bytes (data_mmap rb) (unat (prev_head (perfInfo s))) n = concat (map encode rs)"
  shows "\<exists>copy. length copy = DATA_MAPSIZE \<and>
    perf_mmap_read junk tid s acc = Some (bindR (deliver junk tid rs acc) (\<lambda>acc.
      Inr (data_head rb, s\<lparr>perfInfo := (perfInfo s)\<lparr>data_buf_copy := copy\<rparr>,
                           ring_buf := Some (rb\<lparr>data_tail := data_head rb\<rparr>)\<rparr>, acc)))"
proof -
  let ?prev = "prev_head (perfInfo s)"
  have small: "n < 2 ^ 64" using assms(5) by linarith
  have n: "unat (of_nat n :: u64) = n" by (rule unat_of_nat_small) (use small in simp)
  have "\<not> data_head rb < ?prev"
    using assms(5,6) n unat_add_bound [of ?prev "of_nat n"] by (simp add: word_less_nat_alt)
  obtain post copy where pending: "pending_data (unat ?prev mod DATA_MAPSIZE) n (data_mmap rb) (data_buf_copy (perfInfo s))
      = Inr (concat (map encode rs) @ post, copy)" and copy: "length copy = DATA_MAPSIZE"
    using pending_data_ok [of "data_mmap rb" "data_buf_copy (perfInfo s)" n "unat ?prev"] assms
    by (auto simp: buffers_ok_def)
  have "read_loop junk tid (concat (map encode rs) @ post) n 0 acc = Some (deliver junk tid rs acc)"
    using read_loop_delivers [OF assms(2), of junk tid "[]" post acc] assms(3) by simp
  then have "perf_mmap_read junk tid s acc = Some (bindR (deliver junk tid rs acc) (\<lambda>acc.
      Inr (data_head rb, s\<lparr>perfInfo := (perfInfo s)\<lparr>prev_head := ?prev, data_buf_copy := copy\<rparr>,
                           ring_buf := Some (rb\<lparr>data_tail := data_head rb\<rparr>)\<rparr>, acc)))"
    using assms(1,6) n pending \<open>\<not> data_head rb < ?prev\<close> by (simp add: perf_mmap_read_def buffers_ok_def Let_def)
  then show ?thesis using copy by (intro exI [where x = copy]) simp
qed

lemma records_are_read_back_witness:
  "\<exists>copy. length copy = DATA_MAPSIZE \<and>
    perf_mmap_read 0 1 (sample_sampling 524280 sample_ring) (FriendlinessStatus_zero, fresh_shadow)
      = Some (bindR (deliver 0 1 [Sample 0 0] (FriendlinessStatus_zero, fresh_shadow)) (\<lambda>acc.
        Inr (524304, (sample_sampling 524280 sample_ring)\<lparr>perfInfo :=
            (perfInfo (sample_sampling 524280 sample_ring))\<lparr>data_buf_copy := copy\<rparr>,
          ring_buf := Some (sample_ring\<lparr>data_tail := 524304\<rparr>)\<rparr>, acc)))"
proof -
  have "data_head sample_ring = 524304" by (simp add: sample_ring_def)
  then show ?thesis
    using records_are_read_back [of "sample_sampling 524280 sample_ring" sample_ring "[Sample 0 0]" 24 0 1
        "(FriendlinessStatus_zero, fresh_shadow)"] sample_ring_length sample_ring_bytes
    by (simp add: sample_sampling_def buffers_ok_def config)
qed

text \<open>
  C40: What the reader does outside that contract. When more bytes are pending than the ring holds, copying
  them runs out of the buffers: the size is not limited, only a warning is printed. In particular this is so
  when the head is behind the old one, since the size is computed before the old head is reset. And a record
  other than a sample whose size field is 0 is read for ever.
\<close>

theorem reader_outside_its_contract:
  assumes "buffers_ok s rb" and "prev = prev_head (perfInfo s)"
  shows "(DATA_MAPSIZE < unat (data_head rb - prev) \<longrightarrow> perf_mmap_read junk tid s acc = Some (Inl OutOfBounds))
    \<and> (data_head rb < prev \<and> prev \<le> 2 ^ 63 \<longrightarrow> perf_mmap_read junk tid s acc = Some (Inl OutOfBounds))
    \<and> (prev \<le> data_head rb \<and> 8 \<le> unat (data_head rb - prev) \<and> unat (data_head rb - prev) \<le> DATA_MAPSIZE
        \<and> type \<noteq> PERF_RECORD_SAMPLE \<and> type < 2 ^ 32
        \<and> take 8 (ring_bytes (data_mmap rb) (unat prev) (unat (data_head rb - prev))) = header_bytes type 0
      \<longrightarrow> perf_mmap_read junk tid s acc = None)"
proof (intro conjI impI)
  show overrun: "perf_mmap_read junk tid s acc = Some (Inl OutOfBounds)" if "DATA_MAPSIZE < unat (data_head rb - prev)"
    using assms pending_data_overrun [OF _ that, of "data_buf_copy (perfInfo s)"]
    by (simp add: perf_mmap_read_def buffers_ok_def Let_def)
  show "perf_mmap_read junk tid s acc = Some (Inl OutOfBounds)" if "data_head rb < prev \<and> prev \<le> 2 ^ 63"
  proof (rule overrun)
    have "unat (data_head rb - prev) = unat (data_head rb) + 2 ^ 64 - unat prev"
      using that by (simp add: unat_sub_if' word_less_nat_alt)
    moreover have "unat prev \<le> 2 ^ 63"
      using that by (simp add: word_le_nat_alt)
    ultimately have "2 ^ 63 \<le> unat (data_head rb - prev)" by simp
    then show "DATA_MAPSIZE < unat (data_head rb - prev)" by (simp add: config)
  qed
  show "perf_mmap_read junk tid s acc = None"
    if contents: "prev \<le> data_head rb \<and> 8 \<le> unat (data_head rb - prev) \<and> unat (data_head rb - prev) \<le> DATA_MAPSIZE
        \<and> type \<noteq> PERF_RECORD_SAMPLE \<and> type < 2 ^ 32
        \<and> take 8 (ring_bytes (data_mmap rb) (unat prev) (unat (data_head rb - prev))) = header_bytes type 0"
  proof -
    let ?n = "unat (data_head rb - prev)"
    obtain post copy where pending: "pending_data (unat prev mod DATA_MAPSIZE) ?n (data_mmap rb) (data_buf_copy (perfInfo s))
        = Inr (ring_bytes (data_mmap rb) (unat prev) ?n @ post, copy)"
      using pending_data_ok [of "data_mmap rb" "data_buf_copy (perfInfo s)" ?n "unat prev"] assms(1) contents
      unfolding buffers_ok_def by blast
    obtain rest where "ring_bytes (data_mmap rb) (unat prev) ?n = header_bytes type 0 @ rest"
      using contents by (metis append_take_drop_id)
    then have "read_record junk tid (ring_bytes (data_mmap rb) (unat prev) ?n @ post) 0 acc = Inr (0, acc)"
      using contents by (simp add: read_record_header)
    then have "read_loop junk tid (ring_bytes (data_mmap rb) (unat prev) ?n @ post) ?n 0 acc = None"
      using contents by (intro read_loop_stuck) auto
    moreover have "\<not> data_head rb < prev" using contents by (simp add: not_less)
    ultimately show ?thesis
      using assms pending by (simp add: perf_mmap_read_def buffers_ok_def Let_def)
  qed
qed

lemma reader_outside_its_contract_witness:
  "perf_mmap_read 0 1 (sample_sampling 524305 sample_ring) (FriendlinessStatus_zero, fresh_shadow)
    = Some (Inl OutOfBounds)"
proof -
  have "data_head sample_ring = 524304" by (simp add: sample_ring_def)
  then show ?thesis
    using reader_outside_its_contract [of "sample_sampling 524305 sample_ring" sample_ring 524305 0 1
        "(FriendlinessStatus_zero, fresh_shadow)"] sample_ring_length
    by (simp add: sample_sampling_def buffers_ok_def)
qed

definition sample_setup :: SetupResults where
  "sample_setup = \<lparr>sr_open = \<lambda>a. if attr_config a = LOAD_LATENCY then 3 else 4,
    sr_mmap = Some \<lparr>data_mmap = replicate DATA_MAPSIZE 0, data_head = 0, data_tail = 0\<rparr>, sr_async = True,
    sr_set_output = True, sr_set_owner = True, sr_set_owner2 = True, sr_set_signal = True, sr_set_signal2 = True,
    sr_refresh = True, sr_refresh2 = True, sr_enable = True, sr_enable2 = True\<rparr>"

definition sample_pmu :: PMU where
  "sample_pmu = \<lparr>pmu_sigaction_ok = True, pmu_mmap_ok = True, pmu_fuzzed_period = 10000, pmu_results = sample_setup\<rparr>"

definition sample_ready :: Sampling where
  "sample_ready = Sampling_zero\<lparr>perfInfo := (perfInfo Sampling_zero)\<lparr>data_buf_copy := replicate DATA_MAPSIZE 0,
    perf_fd := 3, perf_fd2 := 4\<rparr>, isSamplingInit := True, ring_buf := sr_mmap sample_setup\<rparr>"

lemma sample_pmu_works:
  "initPMU2 sample_pmu Sampling_zero = Inr sample_ready" "initPMU sample_pmu Sampling_zero = Inr sample_ready"
proof -
  have fds: "sr_open sample_setup (pe_load 10000) = 3" "sr_open sample_setup (pe_store 10000) = 4"
    by (simp_all add: sample_setup_def pe_load_def pe_store_def LOAD_LATENCY_def STORE_ACCESS_def)
  have answers: "sr_mmap sample_setup \<noteq> None" "sr_async sample_setup" "sr_set_output sample_setup"
    "sr_set_owner sample_setup" "sr_set_owner2 sample_setup" "sr_set_signal sample_setup" "sr_set_signal2 sample_setup"
    "sr_refresh sample_setup" "sr_refresh2 sample_setup" "sr_enable sample_setup" "sr_enable2 sample_setup"
    by (simp_all add: sample_setup_def)
  have zero: "\<not> isSamplingInit Sampling_zero" by (simp add: Sampling_zero_def)
  show "initPMU2 sample_pmu Sampling_zero = Inr sample_ready" "initPMU sample_pmu Sampling_zero = Inr sample_ready"
    using zero by (simp_all add: sample_ready_def sample_pmu_def initPMU_def initPMU2_def setupSampling_def require_def Let_def fds answers)
qed

lemma sample_ready_stop: "\<exists>s. stopSampling junk tid sample_ready acc = Some (Inr (s, acc))"
  by (simp add: sample_ready_def sample_setup_def Sampling_zero_def stopSampling_def perf_mmap_read_def
      pending_data_def read_loop.simps)



end
