(* ===== verification/LibMallocProf_Correct.thy ===== *)
theory LibMallocProf_Correct
  imports LibMallocProf ShadowMemory_Correct MemSample_Correct
begin

text \<open>
  The interposed functions put together with the tables they keep: what a tracked \<open>malloc\<close> and \<open>free\<close> do
  to the profiler's state (\<open>heap_ok\<close>), the accounting of every run of a thread as a step relation over
  the calls of the program (\<open>heap_step\<close>), and what the calls made inside an allocation leave behind.
\<close>

section \<open>The calls inside an allocation\<close>

text \<open>
  The calls that record a system call or nothing: they write the thread's counters of the running call
  only, and neither its type nor the profiler.
\<close>

fun quiet :: "inner_event \<Rightarrow> bool" where
  "quiet (InnerMadvise addr len advice a b) \<longleftrightarrow> advice \<noteq> MADV_DONTNEED"
| "quiet (InnerMunmap addr len a b) \<longleftrightarrow> False"
| "quiet (InnerMutexLock l w a b) \<longleftrightarrow> False"
| "quiet (InnerSpinLock l w a b) \<longleftrightarrow> False"
| "quiet (InnerSpinTrylock l w a b) \<longleftrightarrow> False"
| "quiet (InnerMutexTrylock l w a b) \<longleftrightarrow> False"
| "quiet _ \<longleftrightarrow> True"

definition only_counts :: "state \<Rightarrow> state \<Rightarrow> bool" where
  "only_counts s s' \<longleftrightarrow> snd s' = snd s
    \<and> (\<exists>a. fst s' = (fst s)\<lparr>th_alloc := a\<rparr> \<and> allocatingType a = allocatingType (th_alloc (fst s)))"

lemma only_counts_refl [simp]: "only_counts s s"
  by (auto simp: only_counts_def intro!: exI [of _ "th_alloc (fst s)"])

lemma only_counts_trans: "only_counts s s1 \<Longrightarrow> only_counts s1 s2 \<Longrightarrow> only_counts s s2"
  by (auto simp: only_counts_def)

lemma only_counts_syscall [simp]: "only_counts (t, p) (record_syscall sc a b t, p)"
  by (auto simp: only_counts_def record_syscall_def addOneSyscallToSyscallData_def)

lemmas wrapper_defs = yymmap_def madvise_def sbrk_def mprotect_def mremap_def
  pthread_mutex_unlock_def pthread_spin_unlock_def

lemma quiet_step: "quiet e \<Longrightarrow> \<exists>s'. inner_step junk e s = Inr s' \<and> only_counts s s'"
  by (cases s; cases e) (auto simp: wrapper_defs)

lemma quiet_steps: "list_all quiet es \<Longrightarrow> \<exists>s'. inner_steps junk es s = Inr s' \<and> only_counts s s'"
proof (induction es arbitrary: s)
  case (Cons e es)
  then obtain s1 where "inner_step junk e s = Inr s1" "only_counts s s1" using quiet_step by fastforce
  with Cons show ?case by (fastforce intro: only_counts_trans)
qed simp

section \<open>The bookkeeping after the real call\<close>

text \<open>Classifying the call and adding it up changes neither the thread's identity nor its flags.\<close>

definition same_thread :: "Thread \<Rightarrow> Thread \<Rightarrow> bool" where
  "same_thread t t' \<longleftrightarrow> th_flags t' = th_flags t
    \<and> runningThreadIndex (th_local t') = runningThreadIndex (th_local t)
    \<and> stackBottom (th_local t') = stackBottom (th_local t)"

lemma same_thread_refl [simp]: "same_thread t t"
  by (simp add: same_thread_def)

lemma same_thread_trans: "same_thread t t1 \<Longrightarrow> same_thread t1 t2 \<Longrightarrow> same_thread t t2"
  by (simp add: same_thread_def)

lemma same_thread_alloc [simp]: "same_thread t (t\<lparr>th_alloc := a\<rparr>)"
  by (simp add: same_thread_def)

lemma env_of_same: "same_thread t t' \<Longrightarrow> env_of m t' = env_of m t"
  by (simp add: same_thread_def env_of_def)

lemma setAllocationType_tracking [simp]:
  "allocatingType (setAllocationTypeForPrediction a) = allocatingType a"
  "allocatingType (setAllocationTypeForPredictionRaw g a) = allocatingType a"
  "allocatingType (setAllocationTypeForOutputData g a) = allocatingType a"
  by (simp_all add: setAllocationTypeForPrediction_def setAllocationTypeForPredictionRaw_def
      setAllocationTypeForOutputData_def Let_def)

lemma update_infos_spec:
  "\<exists>t'. update_infos (t, p) = (t', p) \<and> same_thread t t'
    \<and> outsideTrackedAllocation (th_alloc t') = outsideTrackedAllocation (th_alloc t)"
  by (auto simp: update_infos_def updateAllocatingInfoToThreadLocalData_def updateAllocatingInfoToPredictor_def Let_def
      same_thread_def outsideTrackedAllocation_def cleanLockFunctionsInfoInAllocatingStatus_def
      addUpOverviewLockDataToThreadLocalData_def addUpSyscallsInfoToThreadLocalData_def
      addUpCountingEventsToThreadLocalData_def)

lemma update_infos_eq:
  obtains t' where "update_infos (t, p) = (t', p)" "same_thread t t'"
    "outsideTrackedAllocation (th_alloc t') = outsideTrackedAllocation (th_alloc t)"
  using update_infos_spec by blast

section \<open>The heap the profiler believes in\<close>

text \<open>
  The live objects of the program are a list of addresses and sizes. \<open>block_of\<close> is an object as the
  shadow memory has it: address range, offset in the range and length.
\<close>

type_synonym heap = "(u64 \<times> u32) list"

definition block_of :: "u64 \<times> u32 \<Rightarrow> nat \<times> nat \<times> nat" where
  "block_of x = (let r = fst (getPageIndex 0 (fst x)) in (r, unat (fst x) - range_base r, unat (snd x)))"

definition in_profiler :: "Profiler \<Rightarrow> u64 \<Rightarrow> bool" where
  "in_profiler p a = fst (MyMalloc_ifInProfilerMemoryThenFree (pf_memory p) a)"

definition recorded_object :: "Profiler \<Rightarrow> u64 \<times> u32 \<Rightarrow> bool" where
  "recorded_object p x \<longleftrightarrow> fst (getPageIndex 0 (fst x)) < 8 \<and> snd x \<noteq> 0 \<and> \<not> in_profiler p (fst x)
    \<and> map_option os_size (table_lookup (ot_state (pf_objTable p)) (fst x)) = Some (snd x)"

definition tables_ok :: "Thread \<Rightarrow> Profiler \<Rightarrow> bool" where
  "tables_ok t p \<longleftrightarrow> (\<forall>m. ObjTable_ok (env_of m t) (pf_objTable p))"

definition heap_ok :: "heap \<Rightarrow> state \<Rightarrow> bool" where
  "heap_ok objs s \<longleftrightarrow> \<not> profilerNotInitialized (th_flags (fst s)) \<and> \<not> not_tracking s
    \<and> tables_ok (fst s) (snd s) \<and> accounted (map block_of objs) (pf_shadow (snd s))
    \<and> list_all (recorded_object (snd s)) objs"

text \<open>
  What an allocation has to satisfy to be tracked: the allocator gives a block inside one address
  range that overlaps no live object and is not the profiler's, and the tables have room for it.
\<close>

definition allocator_gives :: "heap \<Rightarrow> Profiler \<Rightarrow> u64 \<times> u32 \<Rightarrow> bool" where
  "allocator_gives objs p x \<longleftrightarrow> snd x \<noteq> 0 \<and> \<not> in_profiler p (fst x)
    \<and> (case block_of x of (r, off, n) \<Rightarrow> r < 8 \<and> off + n \<le> MAX_PAGE_MAP_ENTRIES * 4096
        \<and> disjoint_ranges ((off, n) # of_range r (map block_of objs)))"

definition room_for :: "Machine \<Rightarrow> state \<Rightarrow> u64 \<times> u32 \<Rightarrow> bool" where
  "room_for m s x \<longleftrightarrow> ObjTable_room (env_of m (fst s)) (pf_objTable (snd s))
    \<and> (case block_of x of (r, off, n) \<Rightarrow> sm_cache_map_bump_ptr (pf_shadow (snd s))
        + 64 * card {i \<in> object_pages off n. line_ptr (pf_shadow (snd s)) r i = None} < MAX_CACHE_MAP_ENTRIES)"

lemma getPageIndex_junk:
  assumes "fst (getPageIndex 0 a) < 8"
  shows "getPageIndex junk a = (fst (getPageIndex 0 a), snd (getPageIndex 0 a))"
  using same_page_loop [of a a addressRanges 0 0 junk] assms
  by (simp add: getPageIndex_def) (simp add: addressRanges_def)

lemma tables_ok_same: "same_thread t t' \<Longrightarrow> tables_ok t' p = tables_ok t p"
  by (simp add: tables_ok_def env_of_same)

lemma range_not_null: "fst (getPageIndex 0 a) < 8 \<Longrightarrow> a \<noteq> 0"
  by (rule notI) (simp add: getPageIndex_def addressRanges_def)

text \<open>Looking whether an address is the profiler's own may initialise \<open>profilerMemory\<close>, which no table uses.\<close>

lemma table_lookup_memory: "table_lookup (hm, mm) = table_lookup (hm, mm')"
  by (rule ext) (simp add: table_lookup_def split: sum.splits option.splits)

lemma in_profiler_memory_spec:
  assumes "in_profiler_memory a s = (b, s')"
  shows "b = in_profiler (snd s) a" "fst s' = fst s" "pf_shadow (snd s') = pf_shadow (snd s)"
    "pf_status (snd s') = pf_status (snd s)" "tables_ok t (snd s') = tables_ok t (snd s)"
    "in_profiler (snd s') = in_profiler (snd s)"
    "table_lookup (ot_state (pf_objTable (snd s'))) = table_lookup (ot_state (pf_objTable (snd s)))"
proof -
  obtain th p where s: "s = (th, p)" by (cases s)
  let ?mm = "(pf_memory p)\<lparr>profilerMemory := ProfilerMemory_checkAndInitialize (profilerMemory (pf_memory p))\<rparr>"
  have s': "s' = (th, set_memory ?mm p)" "b = in_profiler p a"
    using assms by (auto simp: s in_profiler_memory_def in_profiler_def MyMalloc_ifInProfilerMemoryThenFree_def
        ProfilerMemory_ifInProfilerMemoryThenFree_def Let_def split: prod.splits)
  show "b = in_profiler (snd s) a" "fst s' = fst s" "pf_shadow (snd s') = pf_shadow (snd s)"
    "pf_status (snd s') = pf_status (snd s)"
    by (simp_all add: s s' set_memory_def)
  have region: "region_ok ?mm hm B = region_ok (pf_memory p) hm B" for hm :: "('k, 'v) HashMap" and B
    by (simp add: region_ok_def)
  show "tables_ok t (snd s') = tables_ok t (snd s)"
    by (simp add: s s' set_memory_def tables_ok_def ObjTable_ok_def table_invar_def region)
  show "in_profiler (snd s') = in_profiler (snd s)"
    by (auto simp: fun_eq_iff s s' set_memory_def in_profiler_def MyMalloc_ifInProfilerMemoryThenFree_def
        ProfilerMemory_ifInProfilerMemoryThenFree_def Let_def ProfilerMemory_checkAndInitialize_def
        ProfilerMemory_initialize_def split: prod.splits)
  show "table_lookup (ot_state (pf_objTable (snd s'))) = table_lookup (ot_state (pf_objTable (snd s)))"
    by (simp add: s s' set_memory_def) (rule table_lookup_memory)
qed

text \<open>Recording an object leaves \<open>profilerMemory\<close> alone.\<close>

lemma hashMalloc_keeps: "MyMalloc_hashMalloc mm tid sz = Inr (a, mm') \<Longrightarrow> profilerMemory mm' = profilerMemory mm"
  by (auto simp: MyMalloc_hashMalloc_def split: if_splits prod.splits)

lemma insertEntry_keeps: "insertEntry hm mm tid b k v = Inr (e, hm', mm') \<Longrightarrow> profilerMemory mm' = profilerMemory mm"
  by (auto simp: insertEntry_def createNewEntry_def bindR_Inr_iff dest: hashMalloc_keeps)

lemma insertIfAbsent_keeps:
  "HashMap_insertIfAbsent hm mm tid k v = Inr (b, hm', mm') \<Longrightarrow> profilerMemory mm' = profilerMemory mm"
  by (auto simp: HashMap_insertIfAbsent_def with_bucket_def bindR_Inr_iff dest: insertEntry_keeps split: option.splits)

lemma HashMap_insert_keeps:
  "HashMap_insert hm mm tid k v = Inr (e, hm', mm') \<Longrightarrow> profilerMemory mm' = profilerMemory mm"
  by (auto simp: HashMap_insert_def with_bucket_def dest: insertEntry_keeps split: option.splits)

lemma getCallKey_keeps: "getCallKey env old cs mm = Inr (k, cs', mm') \<Longrightarrow> profilerMemory mm' = profilerMemory mm"
  by (auto simp: getCallKey_def Let_def bindR_Inr_iff dest: insertIfAbsent_keeps split: if_splits)

lemma allocUpdate_keeps:
  "ObjTable_allocUpdate env sz a t = Inr (r, t') \<Longrightarrow> profilerMemory (ot_memory t') = profilerMemory (ot_memory t)"
  by (auto simp: ObjTable_allocUpdate_def bindR_Inr_iff dest!: getCallKey_keeps HashMap_insert_keeps split: option.splits)

lemma in_profiler_cong:
  "profilerMemory (pf_memory p') = profilerMemory (pf_memory p) \<Longrightarrow> in_profiler p' a = in_profiler p a"
  by (simp add: in_profiler_def MyMalloc_ifInProfilerMemoryThenFree_def split: prod.splits)

section \<open>One allocation and one free\<close>

text \<open>
  The object just allocated is recorded and every other one still is: an object with the address of the
  new one would overlap it.
\<close>

lemma new_address:
  assumes "allocator_gives objs p x" and "list_all (recorded_object p) objs" and "y \<in> set objs"
  shows "fst y \<noteq> fst x"
proof
  assume e: "fst y = fst x"
  obtain r off n where b: "block_of x = (r, off, n)" by (cases "block_of x") auto
  have y: "block_of y = (r, off, unat (snd y))" "0 < unat (snd y)"
    using b e assms(2,3) by (auto simp: block_of_def Let_def list_all_iff recorded_object_def unat_gt_0)
  then have "(off, unat (snd y)) \<in> set (of_range r (map block_of objs))"
    using assms(3) by (intro of_range_mem) force
  moreover have "\<forall>z \<in> set (of_range r (map block_of objs)). {off..<off + n} \<inter> {fst z..<fst z + snd z} = {}"
    using assms(1) unfolding allocator_gives_def b prod.case disjoint_ranges_def sorted_wrt.simps fst_conv snd_conv
    by blast
  ultimately have d: "{off..<off + n} \<inter> {off..<off + unat (snd y)} = {}" by force
  have n: "0 < n" using assms(1) b by (auto simp: allocator_gives_def block_of_def Let_def unat_gt_0)
  with y(2) have "off \<in> {off..<off + n} \<inter> {off..<off + unat (snd y)}" by simp
  with d show False by blast
qed

lemma note_cycles_type [simp]: "allocatingType (note_cycles now a) = allocatingType a"
  by (simp add: note_cycles_def Let_def)

lemma after_allocation_run:
  assumes "allocatingFunction (allocatingType (th_alloc t)) \<in> {MALLOC, REALLOC}"
    and "at_objectSize (allocatingType (th_alloc t)) = n"
    and "ObjTable_allocUpdate (env_of m t) n a (pf_objTable p) = Inr (reuse, ot)"
    and "mallocUpdateObject (m_junk m) a n (pf_shadow p) = Inr sm"
  shows "\<exists>t'. after_allocation m a (t, p) = Inr (t', p\<lparr>pf_objTable := ot, pf_shadow := sm\<rparr>)
    \<and> same_thread t t' \<and> outsideTrackedAllocation (th_alloc t')"
proof -
  have f: "allocatingFunction (allocatingType (th_alloc t)) = MALLOC
      \<or> allocatingFunction (allocatingType (th_alloc t)) = REALLOC"
    using assms(1) by simp
  show ?thesis
    using assms(2-4)
    by (simp add: f after_allocation_def updateAllocatingStatusAfterRealFunction_def
        updateMemoryStatusAfterAllocation_def outsideTrackedAllocation_def Let_def)
qed

lemma after_allocation_spec:
  assumes tab: "tables_ok t p" and acc: "accounted (map block_of objs) (pf_shadow p)"
    and rec: "list_all (recorded_object p) objs" and give: "allocator_gives objs p (a, n)"
    and room: "room_for m (t, p) (a, n)"
    and run: "allocatingFunction (allocatingType (th_alloc t)) \<in> {MALLOC, REALLOC}"
      "at_objectSize (allocatingType (th_alloc t)) = n"
  shows "\<exists>t' p'. after_allocation m a (t, p) = Inr (t', p') \<and> same_thread t t'
    \<and> outsideTrackedAllocation (th_alloc t') \<and> pf_status p' = pf_status p
    \<and> tables_ok t' p' \<and> accounted (map block_of ((a, n) # objs)) (pf_shadow p')
    \<and> list_all (recorded_object p') ((a, n) # objs)"
proof -
  let ?env = "env_of m t" and ?ot = "pf_objTable p"
  obtain reuse ot where alloc: "ObjTable_allocUpdate ?env n a ?ot = Inr (reuse, ot)"
    and look: "table_lookup (ot_state ot) = (table_lookup (ot_state ?ot))(a \<mapsto> newObj (callKey_of ?env) (ce_tid ?env) n)"
    and ok: "ObjTable_ok ?env ot"
    using allocUpdate_spec [of ?env ?ot n a] tab room by (auto simp: tables_ok_def room_for_def)
  obtain r off k where b: "block_of (a, n) = (r, off, k)" by (cases "block_of (a, n)") auto
  have g: "getPageIndex (m_junk m) a = (r, snd (getPageIndex 0 a))" "r < 8" "n \<noteq> 0"
    and e: "off = unat a - range_base r" "k = unat n"
    using give b getPageIndex_junk [of a "m_junk m"] by (auto simp: allocator_gives_def block_of_def Let_def)
  obtain sm where sm: "mallocUpdateObject (m_junk m) a n (pf_shadow p) = Inr sm"
    "accounted ((r, off, k) # map block_of objs) sm"
    using mallocUpdateObject_accounted [OF acc g] give room b
    by (auto simp: allocator_gives_def room_for_def e)
  let ?p = "p\<lparr>pf_objTable := ot, pf_shadow := sm\<rparr>"
  have out: "in_profiler ?p y = in_profiler p y" for y
    by (rule in_profiler_cong) (use allocUpdate_keeps [OF alloc] in simp)
  have "list_all (recorded_object ?p) ((a, n) # objs)"
    using rec new_address [OF give rec] give b
    by (auto simp: list_all_iff recorded_object_def out look newObj_def allocator_gives_def block_of_def Let_def)
  moreover have "tables_ok t ?p" using ok by (simp add: tables_ok_def ObjTable_ok_def env_of_def)
  moreover obtain t' where t': "after_allocation m a (t, p) = Inr (t', ?p)" "same_thread t t'"
    "outsideTrackedAllocation (th_alloc t')"
    using after_allocation_run [OF run alloc sm(1)] by blast
  ultimately show ?thesis
    using sm(2) tables_ok_same [OF t'(2), of ?p] by (intro exI [of _ t'] exI [of _ ?p]) (simp add: t' b)
qed

text \<open>
  A tracked allocation. Everything before the bookkeeping changes only the record of the running call.
\<close>

lemma heap_okD:
  assumes "heap_ok objs (t, p)"
  shows "\<not> profilerNotInitialized (th_flags t)" "\<not> not_tracking (t, p)" "tables_ok t p"
    "accounted (map block_of objs) (pf_shadow p)" "list_all (recorded_object p) objs"
  using assms by (simp_all add: heap_ok_def)

lemma tracked_allocation_spec:
  assumes ok: "\<not> profilerNotInitialized (th_flags t)" "\<not> conclusionHasStarted (pf_status p)"
    and tab: "tables_ok t p" and acc: "accounted (map block_of objs) (pf_shadow p)"
    and rec: "list_all (recorded_object p) objs"
    and give: "allocator_gives objs p (rx_object rx, ucast sz)"
    and room: "room_for m (t, p) (rx_object rx, ucast sz)"
    and f: "f \<in> {MALLOC, REALLOC}" and quiet: "list_all quiet (rx_inner rx)"
  shows "\<exists>s'. tracked_allocation f sz m rx (t, p) = Inr s' \<and> heap_ok ((rx_object rx, ucast sz) # objs) s'"
proof -
  let ?t = "t\<lparr>th_alloc := updateAllocatingStatusBeforeRealFunction f (ucast sz) (m_drawn m) (m_before m) (th_alloc t)\<rparr>"
  obtain a where inner: "inner_steps (m_junk m) (rx_inner rx) (?t, p) = Inr (?t\<lparr>th_alloc := a\<rparr>, p)"
    and ty: "allocatingType a = allocatingType (th_alloc ?t)"
    using quiet_steps [OF quiet, of "m_junk m" "(?t, p)"] by (auto simp: only_counts_def)
  let ?t1 = "?t\<lparr>th_alloc := a\<rparr>"
  have st: "same_thread t ?t1" by (simp add: same_thread_def)
  have "tables_ok ?t1 p" using tab tables_ok_same [OF st] by simp
  moreover have "room_for m (?t1, p) (rx_object rx, ucast sz)"
    using room unfolding room_for_def fst_conv snd_conv env_of_same [OF st] .
  moreover have "allocatingFunction (allocatingType (th_alloc ?t1)) \<in> {MALLOC, REALLOC}"
    "at_objectSize (allocatingType (th_alloc ?t1)) = ucast sz"
    using f ty by (simp_all add: updateAllocatingStatusBeforeRealFunction_def updateAllocatingTypeBeforeRealFunction_def)
  ultimately obtain t2 p2 where after: "after_allocation m (rx_object rx) (?t1, p) = Inr (t2, p2)"
    and t2: "same_thread ?t1 t2" "outsideTrackedAllocation (th_alloc t2)" "pf_status p2 = pf_status p"
      "tables_ok t2 p2" "accounted (map block_of ((rx_object rx, ucast sz) # objs)) (pf_shadow p2)"
      "list_all (recorded_object p2) ((rx_object rx, ucast sz) # objs)"
    using after_allocation_spec [OF _ acc rec give] by blast
  obtain t3 where t3: "update_infos (t2, p2) = (t3, p2)" "same_thread t2 t3"
    "outsideTrackedAllocation (th_alloc t3) = outsideTrackedAllocation (th_alloc t2)"
    by (rule update_infos_eq)
  have "same_thread t t3" using st t2(1) t3(2) by (blast intro: same_thread_trans)
  with t2 t3 ok have "heap_ok ((rx_object rx, ucast sz) # objs) (t3, p2)"
    by (simp add: heap_ok_def not_tracking_def tables_ok_same [OF t3(2)] same_thread_def)
  moreover have "tracked_allocation f sz m rx (t, p) = Inr (t3, p2)"
    using inner after t3(1) by (simp add: tracked_allocation_def)
  ultimately show ?thesis by blast
qed

text \<open>Setting up the sampling and handling a signal write the thread's sampling state, its counters and the shadow memory's statistics.\<close>

lemma same_thread_samples [simp]:
  "same_thread t (t\<lparr>th_sampling := sp\<rparr>)"
  "same_thread t (t\<lparr>th_sampling := sp, th_local := (th_local t)\<lparr>tl_friendlinessStatus := fs\<rparr>\<rparr>)"
  "same_thread t (t\<lparr>th_predict := pt, th_sampling := sp, th_local := (th_local t)\<lparr>tl_friendlinessStatus := fs\<rparr>\<rparr>)"
  by (simp_all add: same_thread_def)

lemma heap_ok_other_thread_data:
  assumes ok: "heap_ok objs (t, p)" and same: "same_thread t t'" and al: "th_alloc t' = th_alloc t"
    and acc: "\<And>L. accounted L (pf_shadow p) \<Longrightarrow> accounted L sm"
  shows "heap_ok objs (t', p\<lparr>pf_shadow := sm\<rparr>)"
proof -
  have rec: "recorded_object (p\<lparr>pf_shadow := sm\<rparr>) x = recorded_object p x" for x
    by (simp add: recorded_object_def in_profiler_def)
  have "list_all (recorded_object (p\<lparr>pf_shadow := sm\<rparr>)) objs"
    using heap_okD(5) [OF ok] by (simp add: rec list_all_iff)
  moreover have "tables_ok t' (p\<lparr>pf_shadow := sm\<rparr>)"
    using heap_okD(3) [OF ok] tables_ok_same [OF same] by (simp add: tables_ok_def)
  ultimately show ?thesis
    using heap_okD(1,2,4) [OF ok] acc same
    by (simp add: heap_ok_def not_tracking_def same_thread_def al)
qed

lemma init_sampling_ok:
  assumes "init_sampling m s = Inr s'" and "heap_ok objs s"
  shows "heap_ok objs s'"
proof -
  obtain t p where s: "s = (t, p)" by (cases s)
  obtain sp where "s' = (t\<lparr>th_sampling := sp\<rparr>, p)"
    using assms(1) by (auto simp: init_sampling_def bindR_Inr_iff s)
  with heap_ok_other_thread_data [OF assms(2) [unfolded s], of "t\<lparr>th_sampling := sp\<rparr>" "pf_shadow p"]
  show ?thesis by simp
qed

lemma sample_signal_ok:
  assumes "sample_signal hup stop start junk s = Some (Inr s')" and ok: "heap_ok objs s"
  shows "heap_ok objs s'"
proof -
  obtain t p where s: "s = (t, p)" by (cases s)
  obtain sp pt fs sm where h: "sampleHandler hup stop start junk (runningThreadIndex (th_local t))
        (th_sampling t, th_predict t, samples_of s) = Some (Inr (sp, pt, (fs, sm)))"
    and s': "s' = set_samples sp (fs, sm) (t\<lparr>th_predict := pt\<rparr>, p)"
    using assms(1) by (auto simp: sample_signal_def bindR_Inr_iff s)
  have "accounted L (pf_shadow p) \<Longrightarrow> accounted L sm" for L
    using sampleHandler_accounted [OF h, of L] by (simp add: samples_of_def s)
  from heap_ok_other_thread_data [OF ok [unfolded s] _ _ this,
      of "t\<lparr>th_predict := pt, th_sampling := sp, th_local := (th_local t)\<lparr>tl_friendlinessStatus := fs\<rparr>\<rparr>"]
  show ?thesis by (simp add: s' set_samples_def)
qed

text \<open>
  What no allocation touches: the thread counts, the shared predictor, the thread's index, its time measurement
  and its sampling.
\<close>

definition keeps_measurement :: "state \<Rightarrow> state \<Rightarrow> bool" where
  "keeps_measurement s s' \<longleftrightarrow> pf_counts (snd s') = pf_counts (snd s) \<and> pf_predictor (snd s') = pf_predictor (snd s)
    \<and> runningThreadIndex (th_local (fst s')) = runningThreadIndex (th_local (fst s))
    \<and> outsideStartCycle (th_predict (fst s')) = outsideStartCycle (th_predict (fst s))
    \<and> outsideCycle (th_predict (fst s')) = outsideCycle (th_predict (fst s))
    \<and> th_sampling (fst s') = th_sampling (fst s)"

lemma keeps_refl [simp]: "keeps_measurement s s"
  by (simp add: keeps_measurement_def)

lemma keeps_trans: "keeps_measurement s s1 \<Longrightarrow> keeps_measurement s1 s2 \<Longrightarrow> keeps_measurement s s2"
  by (simp add: keeps_measurement_def)

lemma keeps_on_alloc: "on_alloc f s = Inr s' \<Longrightarrow> keeps_measurement s s'"
  by (auto simp: on_alloc_def bindR_Inr_iff keeps_measurement_def)

lemma keeps_find_or_insert: "find_or_insert_lock ty l s = Inr (e, s') \<Longrightarrow> keeps_measurement s s'"
proof (cases s)
  case (Pair t p)
  assume "find_or_insert_lock ty l s = Inr (e, s')"
  then have "s' = s \<or> (\<exists>locks mm. s' = (t\<lparr>th_locks := locks, th_alloc := recordANewLock ty (th_alloc t)\<rparr>, set_memory mm p))"
    unfolding find_or_insert_lock_def Pair prod.case bindR_Inr_iff by (auto split: option.splits simp: bindR_Inr_iff)
  then show ?thesis by (auto simp: Pair keeps_measurement_def set_memory_def)
qed

lemma keeps_start_lock: "start_lock ty l s = Inr s' \<Longrightarrow> keeps_measurement s s'"
  unfolding start_lock_def bindR_Inr_iff by (auto dest!: keeps_find_or_insert keeps_on_alloc intro: keeps_trans)

lemma keeps_clean: "clean_pages junk addr len s = Inr s' \<Longrightarrow> keeps_measurement s s'"
  by (auto simp: clean_pages_def bindR_Inr_iff keeps_measurement_def)

lemma keeps_syscall [simp]: "keeps_measurement (t, p) (record_syscall sc a b t, p)"
  by (simp add: keeps_measurement_def record_syscall_def)

lemma keeps_lock_call:
  assumes "bindR (start_lock ty l s) (\<lambda>s. bindR (if cont then on_alloc f s else Inr s) (on_alloc g)) = Inr s'"
  shows "keeps_measurement s s'"
proof -
  obtain s1 s2 where "start_lock ty l s = Inr s1" "s1 = s2 \<or> on_alloc f s1 = Inr s2" "on_alloc g s2 = Inr s'"
    using assms by (auto simp: bindR_Inr_iff split: if_splits)
  then show ?thesis by (auto dest!: keeps_start_lock keeps_on_alloc intro: keeps_trans)
qed

lemmas lock_function_defs = pthread_mutex_lock_def pthread_spin_lock_def pthread_spin_trylock_def
  pthread_mutex_trylock_def

lemma keeps_cleaned:
  assumes "bindR (if c then clean_pages junk addr len s else Inr s)
    (\<lambda>(t, p). if \<not> q (th_alloc t) then Inr (t, p) else Inr (record_syscall sc a b t, p)) = Inr s'"
  shows "keeps_measurement s s'"
proof -
  obtain t p where "(if c then clean_pages junk addr len s else Inr s) = Inr (t, p)"
    and "s' = (t, p) \<or> s' = (record_syscall sc a b t, p)"
    using assms unfolding bindR_Inr_iff by (auto split: if_splits)
  moreover from this(1) have "keeps_measurement s (t, p)" by (cases c) (auto dest: keeps_clean)
  ultimately show ?thesis using keeps_trans keeps_syscall by blast
qed

lemma keeps_inner_step: "inner_step junk e s = Inr s' \<Longrightarrow> keeps_measurement s s'"
proof (cases e)
  case (InnerMadvise addr len advice a b)
  assume "inner_step junk e s = Inr s'"
  then show ?thesis
    using keeps_cleaned [of "advice = MADV_DONTNEED" junk addr len s sampledForCountingEvent MADVISE a b s']
    by (auto simp: InnerMadvise madvise_def split: if_splits)
next
  case (InnerMunmap addr len a b)
  assume "inner_step junk e s = Inr s'"
  then show ?thesis
    using keeps_cleaned [of True junk addr len s sampledForCountingEvent MUNMAP a b s']
    by (auto simp: InnerMunmap munmap_def split: if_splits)
qed (auto simp: wrapper_defs lock_function_defs keeps_lock_call split: if_splits prod.splits)

lemma keeps_inner_steps: "inner_steps junk es s = Inr s' \<Longrightarrow> keeps_measurement s s'"
  by (induction es arbitrary: s) (auto simp: bindR_Inr_iff dest: keeps_inner_step intro: keeps_trans)

lemma keeps_after_allocation: "after_allocation m a s = Inr s' \<Longrightarrow> keeps_measurement s s'"
  by (cases s) (auto simp: after_allocation_def bindR_Inr_iff keeps_measurement_def)

lemma keeps_free_before: "free_before f a m s = Inr s' \<Longrightarrow> keeps_measurement s s'"
  by (cases s) (auto simp: free_before_def bindR_Inr_iff keeps_measurement_def)

lemma keeps_update_infos: "keeps_measurement s (update_infos s)"
  by (cases s) (auto simp: update_infos_def updateAllocatingInfoToThreadLocalData_def updateAllocatingInfoToPredictor_def
      Let_def keeps_measurement_def addUpOverviewLockDataToThreadLocalData_def addUpSyscallsInfoToThreadLocalData_def
      addUpCountingEventsToThreadLocalData_def)

lemma keeps_th_alloc [simp]: "keeps_measurement (t\<lparr>th_alloc := a\<rparr>, p) s = keeps_measurement (t, p) s"
  by (simp add: keeps_measurement_def)

lemma keeps_tracked: "tracked_allocation f sz m rx s = Inr s' \<Longrightarrow> keeps_measurement s s'"
proof (cases s)
  case (Pair t p)
  assume run: "tracked_allocation f sz m rx s = Inr s'"
  let ?t = "t\<lparr>th_alloc := updateAllocatingStatusBeforeRealFunction f (ucast sz) (m_drawn m) (m_before m) (th_alloc t)\<rparr>"
  obtain s1 s2 where r: "inner_steps (m_junk m) (rx_inner rx) (?t, p) = Inr s1"
      "after_allocation m (rx_object rx) s1 = Inr s2" "update_infos s2 = s'"
    using run unfolding tracked_allocation_def Pair fst_conv snd_conv Let_def bindR_Inr_iff by blast
  have "keeps_measurement (?t, p) s'"
    using keeps_trans [OF keeps_inner_steps [OF r(1)] keeps_trans [OF keeps_after_allocation [OF r(2)] keeps_update_infos]]
    by (simp only: r(3))
  then show ?thesis by (simp add: Pair)
qed

text \<open>The first tracked \<open>malloc\<close> of the first thread goes on to set up its sampling.\<close>

lemma yymalloc_eq:
  assumes ok: "heap_ok objs (t, p)" and sz: "sz \<noteq> 0"
    and give: "allocator_gives objs p (rx_object rx, ucast sz)"
    and room: "room_for m (t, p) (rx_object rx, ucast sz)" and quiet: "list_all quiet (rx_inner rx)"
  shows "\<exists>s'. heap_ok ((rx_object rx, ucast sz) # objs) s' \<and> th_sampling (fst s') = th_sampling t
    \<and> yymalloc sz m rx (t, p) = bindR (if fst (isFirstFunction (th_alloc t)) \<and> runningThreadIndex (th_local (fst s')) = 0
        then init_sampling m s' else Inr s') (\<lambda>s. Inr (rx_object rx, RealMalloc sz, s))"
proof -
  note H = heap_okD [OF ok]
  obtain a where a: "snd (isFirstFunction (th_alloc t)) = a" by simp
  let ?t = "t\<lparr>th_alloc := a\<rparr>"
  have st: "same_thread t ?t" by simp
  have "room_for m (?t, p) (rx_object rx, ucast sz)" using room by (simp add: room_for_def env_of_same [OF st])
  from tracked_allocation_spec [OF _ _ _ H(4,5) give this _ quiet, of MALLOC] H(1-3) tables_ok_same [OF st, of p]
  obtain s' where tr: "tracked_allocation MALLOC sz m rx (?t, p) = Inr s'"
    and ok': "heap_ok ((rx_object rx, ucast sz) # objs) s'"
    by (auto simp: not_tracking_def)
  from keeps_tracked [OF tr] have sp: "th_sampling (fst s') = th_sampling t"
    by (simp add: keeps_measurement_def)
  have "yymalloc sz m rx (t, p) = bindR (if fst (isFirstFunction (th_alloc t)) \<and> runningThreadIndex (th_local (fst s')) = 0
      then init_sampling m s' else Inr s') (\<lambda>s. Inr (rx_object rx, RealMalloc sz, s))"
    using H(1,2) sz a tr
    by (cases "isFirstFunction (th_alloc t)") (simp add: yymalloc_def main_not_initialized_def)
  with ok' sp show ?thesis by blast
qed

lemma yymalloc_spec:
  assumes "heap_ok objs (t, p)" and "sz \<noteq> 0" and "allocator_gives objs p (rx_object rx, ucast sz)"
    and "room_for m (t, p) (rx_object rx, ucast sz)" and "list_all quiet (rx_inner rx)"
    and run: "yymalloc sz m rx (t, p) = Inr (b, call, s')"
  shows "b = rx_object rx" "heap_ok ((rx_object rx, ucast sz) # objs) s'"
proof -
  obtain s1 where ok: "heap_ok ((rx_object rx, ucast sz) # objs) s1"
    and eq: "yymalloc sz m rx (t, p) = bindR (if fst (isFirstFunction (th_alloc t)) \<and> runningThreadIndex (th_local (fst s1)) = 0
        then init_sampling m s1 else Inr s1) (\<lambda>s. Inr (rx_object rx, RealMalloc sz, s))"
    using yymalloc_eq [OF assms(1-5)] by blast
  from run eq have "s' = s1 \<or> init_sampling m s1 = Inr s'" and "b = rx_object rx"
    by (auto simp: bindR_Inr_iff simp del: split_paired_Ex split: if_splits)
  then show "b = rx_object rx" "heap_ok ((rx_object rx, ucast sz) # objs) s'"
    using ok init_sampling_ok by blast+
qed

text \<open>A tracked free of a live object.\<close>

lemma free_before_spec:
  assumes tab: "tables_ok t p" and acc: "accounted (map block_of objs) (pf_shadow p)"
    and rec: "recorded_object p (a, n)" and mem: "(a, n) \<in> set objs"
  shows "\<exists>t' sm. free_before f a m (t, p) = Inr (t', p\<lparr>pf_shadow := sm\<rparr>) \<and> same_thread t t'
    \<and> accounted (remove1 (block_of (a, n)) (map block_of objs)) sm"
proof -
  obtain obj where obj: "table_lookup (ot_state (pf_objTable p)) a = Some obj" "os_size obj = n"
    using rec by (auto simp: recorded_object_def)
  have free: "ObjTable_freeUpdate a (pf_objTable p) = Inr (Some obj)"
    using freeUpdate_spec [of "env_of m t" "pf_objTable p" a] tab obj(1) by (simp add: tables_ok_def)
  obtain r off k where b: "block_of (a, n) = (r, off, k)" by (cases "block_of (a, n)") auto
  have g: "getPageIndex (m_junk m) a = (r, snd (getPageIndex 0 a))" "r < 8" "os_size obj \<noteq> 0"
    and e: "off = unat a - range_base r" "k = unat (os_size obj)"
    using rec b getPageIndex_junk [of a "m_junk m"] by (auto simp: recorded_object_def block_of_def Let_def obj(2))
  have "(r, off, k) \<in> set (map block_of objs)" using mem b by force
  from freeUpdateObject_accounted [OF acc g(1,2) this [unfolded e] g(3)]
  obtain sm where sm: "freeUpdateObject (m_junk m) a obj (pf_shadow p) = Inr sm"
    "accounted (remove1 (block_of (a, n)) (map block_of objs)) sm"
    by (auto simp: b e)
  have "p\<lparr>pf_objTable := pf_objTable p, pf_shadow := sm\<rparr> = p\<lparr>pf_shadow := sm\<rparr>" by simp
  with free sm g(3) show ?thesis
    by (auto simp: free_before_def updateFreeingStatusBeforeRealFunction_def updateMemoryStatusBeforeFree_def
        updateFreeingTypeBeforeRealFunction_def Let_def)
qed

text \<open>Two live objects at one address would overlap, so the block stands for the object.\<close>

lemma block_of_live:
  assumes rec: "list_all (recorded_object p) objs" and "x \<in> set objs" and "y \<in> set objs"
    and b: "block_of x = block_of y"
  shows "x = y"
proof -
  have d: "fst (getPageIndex 0 (fst x)) < 8" "fst (getPageIndex 0 (fst y)) < 8"
    using assms by (auto simp: list_all_iff recorded_object_def)
  have "range_base (fst (getPageIndex 0 (fst z))) \<le> unat (fst z)" if "fst (getPageIndex 0 (fst z)) < 8" for z :: "u64 \<times> u32"
    using getPageIndex_offset(1) [of 0 "fst z"] that by (metis prod.collapse)
  from this [OF d(1)] this [OF d(2)] b have "unat (fst x) = unat (fst y)" "unat (snd x) = unat (snd y)"
    by (auto simp: block_of_def Let_def)
  then show ?thesis by (simp add: prod_eq_iff word_unat_eq_iff)
qed

lemma remove1_block_of:
  assumes "list_all (recorded_object p) objs" and "x \<in> set objs"
  shows "remove1 (block_of x) (map block_of objs) = map block_of (remove1 x objs)"
  using assms
proof (induction objs)
  case (Cons y ys)
  show ?case
  proof (cases "y = x")
    case False
    then have "block_of y \<noteq> block_of x" using block_of_live [OF Cons.prems(1), of y x] Cons.prems(2) by auto
    with False Cons show ?thesis by simp
  qed simp
qed simp

text \<open>What \<open>free\<close> and \<open>realloc\<close> of a live object do before the real call.\<close>

lemma live_object_before:
  assumes ok: "heap_ok objs (t, p)" and mem: "(a, n) \<in> set objs"
  obtains p0 t1 p1 where "a \<noteq> 0" "in_profiler_memory a (t, p) = (False, (t, p0))" "pf_status p0 = pf_status p"
    "free_before f a m (t, p0) = Inr (t1, p1)" "same_thread t t1" "pf_status p1 = pf_status p"
    "tables_ok t1 p1" "accounted (map block_of (remove1 (a, n) objs)) (pf_shadow p1)"
    "list_all (recorded_object p1) (remove1 (a, n) objs)"
proof -
  note H = heap_okD [OF ok]
  have rec: "recorded_object p (a, n)" using H(5) mem by (auto simp: list_all_iff)
  then have out: "\<not> in_profiler p a" "a \<noteq> 0" using range_not_null [of a] by (auto simp: recorded_object_def)
  obtain b0 t0 p0 where look: "in_profiler_memory a (t, p) = (b0, (t0, p0))" by (metis prod.collapse)
  note M = in_profiler_memory_spec [OF look, simplified]
  have rec': "recorded_object p0 = recorded_object p" by (simp add: fun_eq_iff recorded_object_def M)
  have "tables_ok t p0" "accounted (map block_of objs) (pf_shadow p0)" "recorded_object p0 (a, n)"
    using H(3,4) rec by (simp_all add: M(3,5) rec')
  from free_before_spec [OF this mem, of f m]
  obtain t1 sm where before: "free_before f a m (t, p0) = Inr (t1, p0\<lparr>pf_shadow := sm\<rparr>)" "same_thread t t1"
    and acc: "accounted (map block_of (remove1 (a, n) objs)) sm"
    unfolding remove1_block_of [OF H(5) mem] by blast
  have rec1: "recorded_object (p0\<lparr>pf_shadow := sm\<rparr>) = recorded_object p"
    unfolding rec' [symmetric] by (simp add: fun_eq_iff recorded_object_def in_profiler_def)
  have "tables_ok t1 (p0\<lparr>pf_shadow := sm\<rparr>)"
    using H(3) M(5) tables_ok_same [OF before(2)] by (simp add: tables_ok_def)
  moreover have "list_all (recorded_object (p0\<lparr>pf_shadow := sm\<rparr>)) (remove1 (a, n) objs)"
    using H(5) by (auto simp: rec1 list_all_iff dest: set_remove1_subset [THEN subsetD])
  ultimately show ?thesis
    using that [OF out(2) _ _ before] out(1) look M(1,2,4) acc by simp
qed

lemma yyfree_spec:
  assumes ok: "heap_ok objs (t, p)" and mem: "(a, n) \<in> set objs" and quiet: "list_all quiet (rx_inner rx)"
  shows "\<exists>s'. yyfree a m rx (t, p) = Inr (RealFree a, s') \<and> heap_ok (remove1 (a, n) objs) s'"
proof -
  note H = heap_okD [OF ok]
  obtain p0 t1 p1 where b: "a \<noteq> 0" "in_profiler_memory a (t, p) = (False, (t, p0))" "pf_status p0 = pf_status p"
    "free_before FREE a m (t, p0) = Inr (t1, p1)" "same_thread t t1" "pf_status p1 = pf_status p"
    and P1: "tables_ok t1 p1" "accounted (map block_of (remove1 (a, n) objs)) (pf_shadow p1)"
      "list_all (recorded_object p1) (remove1 (a, n) objs)"
    by (rule live_object_before [OF ok mem, of FREE m])
  obtain al where inner: "inner_steps (m_junk m) (rx_inner rx) (t1, p1) = Inr (t1\<lparr>th_alloc := al\<rparr>, p1)"
    using quiet_steps [OF quiet, of "m_junk m" "(t1, p1)"] by (auto simp: only_counts_def)
  let ?t2 = "t1\<lparr>th_alloc := updateFreeingStatusAfterRealFunction (m_after m) al\<rparr>"
  obtain t3 where t3: "update_infos (?t2, p1) = (t3, p1)" "same_thread ?t2 t3"
    "outsideTrackedAllocation (th_alloc t3) = outsideTrackedAllocation (th_alloc ?t2)"
    by (rule update_infos_eq)
  have "same_thread t1 ?t2" by (simp add: same_thread_def)
  then have st: "same_thread t1 t3" using t3(2) by (rule same_thread_trans)
  have flags: "th_flags t3 = th_flags t" using st b(5) by (simp add: same_thread_def)
  have "heap_ok (remove1 (a, n) objs) (t3, p1)"
    using H(1,2) P1 tables_ok_same [OF st, of p1]
    by (simp add: heap_ok_def not_tracking_def flags t3(3) b(6))
      (simp add: outsideTrackedAllocation_def updateFreeingStatusAfterRealFunction_def)
  moreover have "yyfree a m rx (t, p) = Inr (RealFree a, (t3, p1))"
    using H(1,2) b inner t3(1) by (simp add: yyfree_def not_tracking_def)
  ultimately show ?thesis by blast
qed

text \<open>The free of any address with a record, live or not, ends as \<open>freeUpdateObject\<close> of that record does.\<close>

lemma free_of_recorded:
  assumes track: "\<not> profilerNotInitialized (th_flags t)" "\<not> not_tracking (t, p)" and tab: "tables_ok t p"
    and old: "ObjTable_freeUpdate a (pf_objTable p) = Inr (Some old)" "os_size old \<noteq> 0"
    and out: "\<not> in_profiler p a" "a \<noteq> 0" and quiet: "list_all quiet (rx_inner rx)"
  shows "map_sum id (\<lambda>(call, s'). pf_shadow (snd s')) (yyfree a m rx (t, p))
    = freeUpdateObject (m_junk m) a old (pf_shadow p)"
proof -
  obtain b0 t0 p0 where look: "in_profiler_memory a (t, p) = (b0, (t0, p0))" by (metis prod.collapse)
  note M = in_profiler_memory_spec [OF look, simplified]
  have look_p0: "table_lookup (ot_state (pf_objTable p0)) a = Some old"
    using tab old(1) freeUpdate_spec [of "env_of m t" "pf_objTable p" a] by (simp add: tables_ok_def M(7))
  have "tables_ok t p0" using tab M(5) by simp
  then have "ObjTable_freeUpdate a (pf_objTable p0) = Inr (Some old)"
    using freeUpdate_spec [of "env_of m t" "pf_objTable p0" a] look_p0 by (simp add: tables_ok_def)
  then have before: "map_sum id (\<lambda>s'. pf_shadow (snd s')) (free_before FREE a m (t, p0))
      = freeUpdateObject (m_junk m) a old (pf_shadow p)"
    using old(2) M(3)
    by (cases "freeUpdateObject (m_junk m) a old (pf_shadow p)")
      (simp_all add: free_before_def updateFreeingStatusBeforeRealFunction_def updateMemoryStatusBeforeFree_def
        updateFreeingTypeBeforeRealFunction_def Let_def)
  show ?thesis
  proof (cases "free_before FREE a m (t, p0)")
    case (Inl e)
    with before track out look M(1,2,4) show ?thesis by (simp add: yyfree_def not_tracking_def)
  next
    case (Inr s1)
    obtain t1 p1 where s1: "s1 = (t1, p1)" by (cases s1)
    obtain al where inner: "inner_steps (m_junk m) (rx_inner rx) (t1, p1) = Inr (t1\<lparr>th_alloc := al\<rparr>, p1)"
      using quiet_steps [OF quiet, of "m_junk m" "(t1, p1)"] by (auto simp: only_counts_def)
    obtain t3 where "update_infos (t1\<lparr>th_alloc := updateFreeingStatusAfterRealFunction (m_after m) al\<rparr>, p1) = (t3, p1)"
      by (rule update_infos_eq)
    with Inr s1 inner before track out look M(1,2,4) show ?thesis by (simp add: yyfree_def not_tracking_def)
  qed
qed

text \<open>
  A tracked \<open>realloc\<close> is a free and an allocation: the new block may overlap the old one, and there has
  to be room for it once the old one is taken out.
\<close>

definition realloc_room :: "heap \<Rightarrow> Machine \<Rightarrow> u64 \<Rightarrow> u64 \<times> u32 \<Rightarrow> state \<Rightarrow> bool" where
  "realloc_room objs m ptr x s \<longleftrightarrow>
    (\<forall>s1. free_before REALLOC ptr m (snd (in_profiler_memory ptr s)) = Inr s1 \<longrightarrow>
      allocator_gives objs (snd s1) x \<and> room_for m s1 x)"

lemma yyrealloc_spec:
  assumes ok: "heap_ok objs (t, p)" and mem: "(a, n) \<in> set objs" and quiet: "list_all quiet (rx_inner rx)"
    and room: "realloc_room (remove1 (a, n) objs) m a (rx_object rx, ucast sz) (t, p)"
  shows "\<exists>s'. yyrealloc a sz m rx (t, p) = Inr (rx_object rx, RealRealloc a sz, s')
    \<and> heap_ok ((rx_object rx, ucast sz) # remove1 (a, n) objs) s'"
proof -
  note H = heap_okD [OF ok]
  obtain p0 t1 p1 where b: "a \<noteq> 0" "in_profiler_memory a (t, p) = (False, (t, p0))" "pf_status p0 = pf_status p"
    "free_before REALLOC a m (t, p0) = Inr (t1, p1)" "same_thread t t1" "pf_status p1 = pf_status p"
    and P1: "tables_ok t1 p1" "accounted (map block_of (remove1 (a, n) objs)) (pf_shadow p1)"
      "list_all (recorded_object p1) (remove1 (a, n) objs)"
    by (rule live_object_before [OF ok mem, of REALLOC m])
  have "\<not> profilerNotInitialized (th_flags t1)" "\<not> conclusionHasStarted (pf_status p1)"
    using H(1,2) b(5,6) by (simp_all add: same_thread_def not_tracking_def)
  moreover have "allocator_gives (remove1 (a, n) objs) p1 (rx_object rx, ucast sz)"
    "room_for m (t1, p1) (rx_object rx, ucast sz)"
    using room b(2,4) by (auto simp: realloc_room_def)
  ultimately obtain s' where "tracked_allocation REALLOC sz m rx (t1, p1) = Inr s'"
    "heap_ok ((rx_object rx, ucast sz) # remove1 (a, n) objs) s'"
    using tracked_allocation_spec [OF _ _ P1, of rx sz m REALLOC] quiet by blast
  with H(1,2) b show ?thesis
    by (simp add: yyrealloc_def main_not_initialized_def not_tracking_def)
qed

section \<open>Every run of a thread\<close>

text \<open>
  The calls of a program that allocates, frees and reallocates, as long as the allocator keeps its promise and the
  profiler's tables have room, and the signals of the performance counters between them. An object is freed at most
  once, since it leaves the list.
\<close>

inductive heap_step :: "heap \<times> state \<Rightarrow> heap \<times> state \<Rightarrow> bool" where
  heap_malloc: "\<lbrakk>sz \<noteq> 0; list_all quiet (rx_inner rx);
      allocator_gives objs (snd s) (rx_object rx, ucast sz); room_for m s (rx_object rx, ucast sz);
      yymalloc sz m rx s = Inr (a, call, s')\<rbrakk>
    \<Longrightarrow> heap_step (objs, s) ((a, ucast sz) # objs, s')"
| heap_signal: "sample_signal hup stop start junk s = Some (Inr s') \<Longrightarrow> heap_step (objs, s) (objs, s')"
| heap_free: "\<lbrakk>(a, n) \<in> set objs; list_all quiet (rx_inner rx); yyfree a m rx s = Inr (call, s')\<rbrakk>
    \<Longrightarrow> heap_step (objs, s) (remove1 (a, n) objs, s')"
| heap_realloc: "\<lbrakk>(a, n) \<in> set objs; list_all quiet (rx_inner rx);
      realloc_room (remove1 (a, n) objs) m a (rx_object rx, ucast sz) s;
      yyrealloc a sz m rx s = Inr (b, call, s')\<rbrakk>
    \<Longrightarrow> heap_step (objs, s) ((b, ucast sz) # remove1 (a, n) objs, s')"

inductive_cases heap_stepE: "heap_step (objs, s) (objs', s')"

lemma heap_step_ok:
  assumes step: "heap_step (objs, s) (objs', s')" and ok: "heap_ok objs s"
  shows "heap_ok objs' s'"
proof -
  obtain t p where s: "s = (t, p)" by (cases s)
  show ?thesis
  proof (rule heap_stepE [OF step])
    fix sz rx m a call
    assume "objs' = (a, ucast sz) # objs" and "yymalloc sz m rx s = Inr (a, call, s')"
      and "sz \<noteq> 0" "allocator_gives objs (snd s) (rx_object rx, ucast sz)"
        "room_for m s (rx_object rx, ucast sz)" "list_all quiet (rx_inner rx)"
    then show ?thesis using yymalloc_spec [OF ok [unfolded s], of sz rx m] by (auto simp: s)
  next
    fix hup stop start junk
    assume "objs' = objs" and "sample_signal hup stop start junk s = Some (Inr s')"
    then show ?thesis using sample_signal_ok ok by blast
  next
    fix a n rx m call
    assume "objs' = remove1 (a, n) objs" and "yyfree a m rx s = Inr (call, s')"
      and "(a, n) \<in> set objs" "list_all quiet (rx_inner rx)"
    then show ?thesis using yyfree_spec [OF ok [unfolded s], of a n rx m] by (auto simp: s)
  next
    fix a n rx m sz b call
    assume "objs' = (b, ucast sz) # remove1 (a, n) objs" and "yyrealloc a sz m rx s = Inr (b, call, s')"
      and "(a, n) \<in> set objs" "list_all quiet (rx_inner rx)"
        "realloc_room (remove1 (a, n) objs) m a (rx_object rx, ucast sz) s"
    then show ?thesis using yyrealloc_spec [OF ok [unfolded s], of a n rx m sz] by (auto simp: s)
  qed
qed

lemma heap_steps_ok: "heap_step\<^sup>*\<^sup>* (objs, s) (objs', s') \<Longrightarrow> heap_ok objs s \<Longrightarrow> heap_ok objs' s'"
  by (induction rule: rtranclp_induct2) (auto dest: heap_step_ok)

section \<open>Properties\<close>


text \<open>A program's first thread, after the profiler has been set up.\<close>

definition sample_thread :: Thread where
  "sample_thread = \<lparr>th_flags = \<lparr>profilerInitialized = True\<rparr>,
    th_local = ThreadLocalStatus_zero\<lparr>stackBottom := 0x7ffd00002000\<rparr>, th_alloc = AllocatingStatus_zero,
    th_predict = PredictorThread_zero, th_locks = one_entry (DetailLockData_newDetailLockData MUTEX),
    th_sampling = Sampling_zero\<rparr>"

definition sample_profiler :: Profiler where
  "sample_profiler = \<lparr>pf_counts = \<lparr>totalNumOfThread = 1, totalNumOfRunningThread = 1\<rparr>,
    pf_status = ProgramStatus_zero\<lparr>largeObjectThreshold := 132880\<rparr>, pf_predictor = Predictor_zero,
    pf_objTable = sample_objtable, pf_shadow = fresh_shadow, pf_global = GlobalStatus_zero,
    pf_globalLocks = one_entry (DetailLockData_newDetailLockData MUTEX)\<rparr>"

definition sample_machine :: Machine where
  "sample_machine = \<lparr>m_before = 100, m_after = 160, m_drawn = 3, m_junk = 0,
    m_stackTop = 0x7ffd00001000, m_returnAddr = 0x401230, m_pmu = sample_pmu\<rparr>"

lemma sample_heap_ok: "heap_ok [] (sample_thread, sample_profiler)"
  using sample_objtable_ok(1) fresh_shadow_accounted
  by (simp add: heap_ok_def tables_ok_def ObjTable_ok_def env_of_def sample_env_def sample_thread_def
      sample_profiler_def not_tracking_def outsideTrackedAllocation_def AllocatingStatus_zero_def
      AllocatingType_zero_def profilerNotInitialized_def conclusionHasStarted_def ProgramStatus_zero_def
      ThreadLocalStatus_zero_def)

lemma sample_env_of: "env_of sample_machine sample_thread = sample_env"
  by (simp add: env_of_def sample_machine_def sample_thread_def sample_env_def ThreadLocalStatus_zero_def)

lemma sample_block: "block_of (0x5560000010a0, 100) = (7, 0x60000010a0, 100)"
  using sample_address by (simp add: block_of_def)

lemma sample_malloc:
  "allocator_gives [] sample_profiler (0x5560000010a0, 100)"
  "room_for sample_machine (sample_thread, sample_profiler) (0x5560000010a0, 100)"
proof -
  have mem: "ot_memory sample_objtable = sample_memory"
    by (simp add: sample_objtable_def ObjTable_initialize_def)
  show "allocator_gives [] sample_profiler (0x5560000010a0, 100)"
    by (simp add: allocator_gives_def sample_block of_range_def disjoint_ranges_def MAX_PAGE_MAP_ENTRIES_def
        in_profiler_def sample_profiler_def mem sample_memory_def MyMalloc_ifInProfilerMemoryThenFree_def
        ProfilerMemory_ifInProfilerMemoryThenFree_def ProfilerMemory_checkAndInitialize_def
        ProfilerMemory_initialize_def ProfilerMemory_inMemory_def config)
  have "object_pages 0x60000010a0 100 = {100663297}" by (auto simp: object_pages_def)
  then have "card {p \<in> object_pages 0x60000010a0 100. line_ptr fresh_shadow 7 p = None} \<le> 1"
    by (auto intro: order_trans [OF card_mono [of "{100663297}"]])
  then show "room_for sample_machine (sample_thread, sample_profiler) (0x5560000010a0, 100)"
    using sample_objtable_ok(2)
    by (simp add: room_for_def sample_block sample_env_of)
      (simp add: sample_profiler_def MAX_CACHE_MAP_ENTRIES_def fresh_shadow_def)
qed

lemma sample_malloc_runs:
  "\<exists>s. yymalloc 100 sample_machine \<lparr>rx_object = 0x5560000010a0, rx_inner = [InnerSbrk 110 130]\<rparr>
      (sample_thread, sample_profiler) = Inr (0x5560000010a0, RealMalloc 100, s)"
proof -
  let ?rx = "\<lparr>rx_object = 0x5560000010a0, rx_inner = [InnerSbrk 110 130]\<rparr>"
  obtain s1 c where sp: "th_sampling (fst s1) = th_sampling sample_thread"
    and eq: "yymalloc 100 sample_machine ?rx (sample_thread, sample_profiler)
      = bindR (if c then init_sampling sample_machine s1 else Inr s1) (\<lambda>s. Inr (0x5560000010a0, RealMalloc 100, s))"
    using yymalloc_eq [OF sample_heap_ok, of 100 ?rx sample_machine] sample_malloc
    by (simp del: split_paired_Ex) blast
  obtain sp where "initPMU sample_pmu Sampling_zero = Inr sp"
    using sample_pmu_works(2) by blast
  then have "init_sampling sample_machine s1 = Inr ((fst s1)\<lparr>th_sampling := sp\<rparr>, snd s1)"
    using sp by (simp add: init_sampling_def sample_thread_def sample_machine_def)
  with eq show ?thesis by (cases c) auto
qed


text \<open>
  an object of \<open>calloc\<close> is not recorded, yet freeing it takes out the object that was last allocated
  at its address. The \<open>calloc\<close> changes nothing in the profiler's tables, and the \<open>free\<close> that follows runs
  \<open>freeUpdateObject\<close> with the old record and ends exactly as that does.
\<close>

theorem calloc_is_freed_as_an_earlier_object:
  assumes "heap_ok objs (t, p)" and "ObjTable_freeUpdate a (pf_objTable p) = Inr (Some old)" and "os_size old \<noteq> 0"
    and "\<not> in_profiler p a" and "a \<noteq> 0" and "nelem * elsize \<noteq> 0"
    and "list_all quiet (rx_inner rx)" and "rx_object rx = a" and "list_all quiet (rx_inner rx')"
  shows "\<exists>t'. yycalloc nelem elsize m rx (t, p) = Inr (a, RealCalloc nelem elsize, (t', p))
    \<and> map_sum id (\<lambda>(call, s'). pf_shadow (snd s')) (yyfree a m' rx' (t', p))
      = freeUpdateObject (m_junk m') a old (pf_shadow p)"
proof -
  note H = heap_okD [OF assms(1)]
  let ?t = "t\<lparr>th_alloc := updateAllocatingStatusBeforeRealFunction CALLOC (ucast (nelem * elsize)) (m_drawn m)
    (m_before m) (th_alloc t)\<rparr>"
  obtain al where inner: "inner_steps (m_junk m) (rx_inner rx) (?t, p) = Inr (?t\<lparr>th_alloc := al\<rparr>, p)"
    and ty: "allocatingType al = allocatingType (th_alloc ?t)"
    using quiet_steps [OF assms(7), of "m_junk m" "(?t, p)"] by (auto simp: only_counts_def)
  have f: "allocatingFunction (allocatingType al) = CALLOC"
    by (simp add: ty updateAllocatingStatusBeforeRealFunction_def updateAllocatingTypeBeforeRealFunction_def)
  define t1 where "t1 = ?t\<lparr>th_alloc := (note_cycles (m_after m) al)
    \<lparr>allocatingType := (allocatingType al)\<lparr>doingAllocation := False\<rparr>\<rparr>\<rparr>"
  have after: "after_allocation m a (?t\<lparr>th_alloc := al\<rparr>, p) = Inr (t1, p)"
    by (simp add: after_allocation_def updateAllocatingStatusAfterRealFunction_def f t1_def Let_def)
  obtain t2 where t2: "update_infos (t1, p) = (t2, p)" "same_thread t1 t2"
    "outsideTrackedAllocation (th_alloc t2) = outsideTrackedAllocation (th_alloc t1)"
    by (rule update_infos_eq)
  have run: "yycalloc nelem elsize m rx (t, p) = Inr (a, RealCalloc nelem elsize, (t2, p))"
    using H(1,2) assms(6,8) inner after t2(1)
    by (simp add: yycalloc_def main_not_initialized_def tracked_allocation_def)
  have st: "same_thread t t2" using t2(2) by (simp add: same_thread_def t1_def)
  have track: "\<not> profilerNotInitialized (th_flags t2)" "\<not> not_tracking (t2, p)"
    using H(1,2) st t2(3) by (simp_all add: same_thread_def not_tracking_def t1_def outsideTrackedAllocation_def)
  show ?thesis
    using run free_of_recorded [OF track _ assms(2-5,9)] H(3) tables_ok_same [OF st] by blast
qed

theorem calloc_is_freed_as_an_earlier_object_witness:
  "\<exists>p t' key. yycalloc 4 25 sample_machine \<lparr>rx_object = 0x5560000010a0, rx_inner = []\<rparr> (sample_thread, p)
      = Inr (0x5560000010a0, RealCalloc 4 25, (t', p)) \<and> accounted [] (pf_shadow p)
    \<and> map_sum id (\<lambda>(call, s'). pf_shadow (snd s'))
        (yyfree 0x5560000010a0 sample_machine \<lparr>rx_object = 0, rx_inner = []\<rparr> (t', p))
      = freeUpdateObject 0 0x5560000010a0 (newObj key 0 64) (pf_shadow p)"
proof -
  obtain reuse ot where ot: "ObjTable_allocUpdate sample_env 64 0x5560000010a0 sample_objtable = Inr (reuse, ot)"
    "table_lookup (ot_state ot) = (table_lookup (ot_state sample_objtable))
      (0x5560000010a0 \<mapsto> newObj (callKey_of sample_env) (ce_tid sample_env) 64)" "ObjTable_ok sample_env ot"
    using allocUpdate_spec [OF sample_objtable_ok, of 64 "0x5560000010a0"] by blast
  let ?p = "sample_profiler\<lparr>pf_objTable := ot\<rparr>" and ?old = "newObj (callKey_of sample_env) (ce_tid sample_env) 64"
  have "heap_ok [] (sample_thread, ?p)"
    using sample_heap_ok ot(3)
    by (simp add: heap_ok_def tables_ok_def ObjTable_ok_def env_of_def sample_env_def sample_thread_def
        ThreadLocalStatus_zero_def not_tracking_def)
  moreover have "ObjTable_freeUpdate 0x5560000010a0 (pf_objTable ?p) = Inr (Some ?old)"
    using freeUpdate_spec [OF ot(3), of "0x5560000010a0"] ot(2) by simp
  moreover have "\<not> in_profiler ?p 0x5560000010a0"
    using sample_malloc(1) allocUpdate_keeps [OF ot(1)] in_profiler_cong [of ?p sample_profiler]
    by (simp add: allocator_gives_def sample_profiler_def)
  ultimately show ?thesis
    using calloc_is_freed_as_an_earlier_object [of "[]" sample_thread ?p "0x5560000010a0" ?old 4 25
        "\<lparr>rx_object = 0x5560000010a0, rx_inner = []\<rparr>" "\<lparr>rx_object = 0, rx_inner = []\<rparr>" sample_machine sample_machine]
      fresh_shadow_accounted
    by (intro exI [of _ ?p]) (auto simp: newObj_def sample_env_def sample_machine_def sample_profiler_def)
qed

end
