(* ===== verification/LibMallocProf_Locks.thy ===== *)
theory LibMallocProf_Locks
  imports LibMallocProf_Correct AllocatingStatus_Correct
begin

text \<open>
  The interposed lock functions inside a sampled allocation: each of them finds or inserts the lock in
  the thread's table and appends one record of the call, so that any sequence of lock operations leaves
  the list of its calls behind, which the accounting of the allocating status is about.
\<close>

abbreviation lock_state :: "state \<Rightarrow> (u64, DetailLockData) table_state" where
  "lock_state s \<equiv> (th_locks (fst s), pf_memory (snd s))"

abbreviation thread_index :: "state \<Rightarrow> nat" where
  "thread_index s \<equiv> unat (runningThreadIndex (th_local (fst s)))"

text \<open>The thread's table is well formed and has room for \<open>n\<close> more locks.\<close>

definition locks_ok :: "nat \<Rightarrow> state \<Rightarrow> bool" where
  "locks_ok n s \<longleftrightarrow> thread_index s < MAX_THREAD_NUMBER
    \<and> table_invar (thread_index s) (lock_state s) \<and> table_room (thread_index s) (lock_state s) n"

definition tracked_and_sampled :: "state \<Rightarrow> bool" where
  "tracked_and_sampled s \<longleftrightarrow> \<not> not_recorded (fst s)"

lemma find_or_insert_spec:
  assumes ok: "locks_ok (Suc n) (t, p)"
  shows "\<exists>e t' p'. find_or_insert_lock ty l (t, p) = Inr (e, (t', p')) \<and> locks_ok n (t', p')
    \<and> th_alloc t' = (if table_lookup (lock_state (t, p)) l = None then recordANewLock ty (th_alloc t) else th_alloc t)
    \<and> dom (table_lookup (lock_state (t', p'))) = insert l (dom (table_lookup (lock_state (t, p))))"
proof -
  let ?tid = "thread_index (t, p)" and ?ls = "lock_state (t, p)"
  have inv: "table_invar ?tid ?ls" and tid: "?tid < MAX_THREAD_NUMBER" and room: "table_room ?tid ?ls (Suc n)"
    using ok by (auto simp: locks_ok_def)
  from table_find_Inr [OF inv] obtain r where r: "HashMap_find (th_locks t) l = Inr r"
    "table_lookup ?ls l = map_option (hm_value (th_locks t)) r" by auto
  show ?thesis
  proof (cases r)
    case (Some e)
    with r ok room show ?thesis
      by (auto simp: find_or_insert_lock_def locks_ok_def insert_absorb domIff table_room_less)
  next
    case None
    have slot: "thread_slot MAX_THREAD_NUMBER (th_local t) = Inr ?tid"
      using thread_slot_small [of "th_local t" MAX_THREAD_NUMBER] tid by (simp add: config)
    from hash_table.insert_new [OF inv _ room, of l "DetailLockData_newDetailLockData ty"] None r(2)
    obtain e hm mm where i: "HashMap_insert (th_locks t) (pf_memory p) ?tid l (DetailLockData_newDetailLockData ty)
        = Inr (e, hm, mm)" "table_invar ?tid (hm, mm)" "table_room ?tid (hm, mm) n"
      "table_lookup (hm, mm) = (table_lookup ?ls)(l \<mapsto> DetailLockData_newDetailLockData ty)"
      by (auto simp: table_insert_def bindR_Inr_iff)
    let ?t = "t\<lparr>th_locks := hm, th_alloc := recordANewLock ty (th_alloc t)\<rparr>"
    have "find_or_insert_lock ty l (t, p) = Inr (e, (?t, set_memory mm p))"
      using r(1) None slot i(1) by (simp add: find_or_insert_lock_def)
    moreover have "locks_ok n (?t, set_memory mm p)" using i tid by (simp add: locks_ok_def set_memory_def)
    ultimately show ?thesis using r(2) None i(4)
      by (intro exI [of _ e] exI [of _ ?t] exI [of _ "set_memory mm p"]) (simp add: set_memory_def)
  qed
qed

text \<open>One lock operation as the wrapper sees it.\<close>

fun lock_operation :: "inner_event \<Rightarrow> (LockTypes \<times> u64 \<times> bool \<times> u64) option" where
  "lock_operation (InnerMutexLock l w a b) = Some (MUTEX, l, w \<noteq> 0, b - a)"
| "lock_operation (InnerSpinLock l w a b) = Some (SPIN, l, w \<noteq> 1, b - a)"
| "lock_operation (InnerSpinTrylock l w a b) = Some (SPINTRY, l, w \<noteq> 0, b - a)"
| "lock_operation (InnerMutexTrylock l w a b) = Some (MUTEXTRY, l, w \<noteq> 0, b - a)"
| "lock_operation _ = None"

text \<open>All four wrappers are one function of the operation.\<close>

definition lock_wrapper :: "LockTypes \<times> u64 \<times> bool \<times> u64 \<Rightarrow> state \<Rightarrow> crash + state" where
  "lock_wrapper op s =
    (case op of (ty, l, cont, cycles) \<Rightarrow>
      bindR (start_lock ty l s) (\<lambda>s.
      bindR (if cont then on_alloc recordALockContention s else Inr s) (\<lambda>s.
      on_alloc (recordLockCallAndCycles 1 cycles) s)))"

lemma inner_step_lock:
  "lock_operation ev = Some op \<Longrightarrow> tracked_and_sampled s \<Longrightarrow> inner_step junk ev s = lock_wrapper op s"
  by (cases ev) (auto simp: tracked_and_sampled_def lock_wrapper_def pthread_mutex_lock_def pthread_spin_lock_def
      pthread_spin_trylock_def pthread_mutex_trylock_def)

lemma lock_wrapper_eq:
  assumes "find_or_insert_lock ty l (t, p) = Inr (e, (t', p'))"
    and "th_alloc t' = (if new then recordANewLock ty (th_alloc t) else th_alloc t)"
    and "record_lock_call \<lparr>lc_type = ty, lc_new = new, lc_entry = e, lc_contended = cont, lc_cycles = cycles\<rparr>
      (th_alloc t) = Inr a"
  shows "lock_wrapper (ty, l, cont, cycles) (t, p) = Inr (t'\<lparr>th_alloc := a\<rparr>, p')"
  using assms
  by (cases cont) (auto simp: lock_wrapper_def start_lock_def on_alloc_def record_lock_call_def Let_def bindR_Inr_iff)

section \<open>Sequences of lock operations\<close>

lemma lock_step:
  assumes ev: "lock_operation ev = Some (ty, l, cont, cycles)" and s: "tracked_and_sampled s" "locks_ok (Suc n) s"
    and rec: "recorded cs (th_alloc (fst s))" "length cs < LENGTH_OF_QUEUE"
  shows "\<exists>s' c. inner_step junk ev s = Inr s' \<and> tracked_and_sampled s' \<and> locks_ok n s'
    \<and> recorded (cs @ [c]) (th_alloc (fst s')) \<and> lc_type c = ty \<and> lc_contended c = cont \<and> lc_cycles c = cycles
    \<and> (lc_new c \<longleftrightarrow> l \<notin> dom (table_lookup (lock_state s)))
    \<and> dom (table_lookup (lock_state s')) = insert l (dom (table_lookup (lock_state s)))"
proof -
  obtain t p where tp: "s = (t, p)" by (cases s)
  let ?new = "table_lookup (lock_state (t, p)) l = None"
  obtain e t' p' where f: "find_or_insert_lock ty l (t, p) = Inr (e, (t', p'))" "locks_ok n (t', p')"
      "th_alloc t' = (if ?new then recordANewLock ty (th_alloc t) else th_alloc t)"
      "dom (table_lookup (lock_state (t', p'))) = insert l (dom (table_lookup (lock_state (t, p))))"
    using find_or_insert_spec s(2) unfolding tp by blast
  let ?c = "\<lparr>lc_type = ty, lc_new = ?new, lc_entry = e, lc_contended = cont, lc_cycles = cycles\<rparr>"
  obtain a where a: "record_lock_call ?c (th_alloc t) = Inr a" "recorded (cs @ [?c]) a"
      "allocatingType a = allocatingType (th_alloc t)" "sampledForCountingEvent a = sampledForCountingEvent (th_alloc t)"
    using record_lock_call_recorded [of cs "th_alloc t" ?c] rec by (auto simp: tp)
  have "inner_step junk ev s = Inr (t'\<lparr>th_alloc := a\<rparr>, p')"
    using inner_step_lock [OF ev s(1)] lock_wrapper_eq [OF f(1,3) a(1)] by (simp add: tp)
  moreover have "tracked_and_sampled (t'\<lparr>th_alloc := a\<rparr>, p')"
    using s(1) a(3,4) by (simp add: tp tracked_and_sampled_def not_recorded_def outsideTrackedAllocation_def)
  moreover have "locks_ok n (t'\<lparr>th_alloc := a\<rparr>, p')" using f(2) by (simp add: locks_ok_def)
  ultimately show ?thesis using a(2) f(4) by (intro exI [of _ "(t'\<lparr>th_alloc := a\<rparr>, p')"] exI [of _ ?c]) (auto simp: tp)
qed

text \<open>The operations of a sequence, without and with their locks.\<close>

definition lock_data :: "inner_event list \<Rightarrow> (LockTypes \<times> bool \<times> u64) list" where
  "lock_data es = map (\<lambda>e. case the (lock_operation e) of (ty, _, cont, cycles) \<Rightarrow> (ty, cont, cycles)) es"

definition locks_of :: "inner_event list \<Rightarrow> u64 set" where
  "locks_of es = (\<lambda>e. fst (snd (the (lock_operation e)))) ` set es"

definition call_data :: "lock_call list \<Rightarrow> (LockTypes \<times> bool \<times> u64) list" where
  "call_data cs = map (\<lambda>c. (lc_type c, lc_contended c, lc_cycles c)) cs"

lemma lock_trace:
  assumes "\<forall>e \<in> set es. lock_operation e \<noteq> None" and "tracked_and_sampled s" and "locks_ok (length es) s"
    and "recorded cs (th_alloc (fst s))" and "length cs + length es \<le> LENGTH_OF_QUEUE"
  shows "\<exists>s' cs'. inner_steps junk es s = Inr s' \<and> recorded (cs @ cs') (th_alloc (fst s'))
    \<and> call_data cs' = lock_data es
    \<and> length (filter lc_new cs') = card (locks_of es - dom (table_lookup (lock_state s)))
    \<and> dom (table_lookup (lock_state s')) = dom (table_lookup (lock_state s)) \<union> locks_of es"
  using assms
proof (induction es arbitrary: s cs)
  case Nil
  then show ?case by (auto simp: call_data_def lock_data_def locks_of_def)
next
  case (Cons e es)
  let ?D = "dom (table_lookup (lock_state s))"
  obtain ty l cont cycles where e: "lock_operation e = Some (ty, l, cont, cycles)" using Cons.prems(1) by auto
  have room: "locks_ok (Suc (length es)) s" and less: "length cs < LENGTH_OF_QUEUE" using Cons.prems(3,5) by auto
  obtain s1 c where s1: "inner_step junk e s = Inr s1" "tracked_and_sampled s1" "locks_ok (length es) s1"
      "recorded (cs @ [c]) (th_alloc (fst s1))" and c: "lc_type c = ty" "lc_contended c = cont" "lc_cycles c = cycles"
      "lc_new c \<longleftrightarrow> l \<notin> ?D" and d: "dom (table_lookup (lock_state s1)) = insert l ?D"
    using lock_step [OF e Cons.prems(2) room Cons.prems(4) less, of junk] by blast
  obtain s2 cs2 where s2: "inner_steps junk es s1 = Inr s2" "recorded ((cs @ [c]) @ cs2) (th_alloc (fst s2))"
      "call_data cs2 = lock_data es" "length (filter lc_new cs2) = card (locks_of es - insert l ?D)"
      "dom (table_lookup (lock_state s2)) = insert l ?D \<union> locks_of es"
    using Cons.IH [OF _ s1(2-4)] Cons.prems(1,5) unfolding d by auto
  have locks: "locks_of (e # es) = insert l (locks_of es)" by (simp add: locks_of_def e)
  have "length (filter lc_new (c # cs2)) = card (locks_of (e # es) - ?D)"
  proof (cases "l \<in> ?D")
    case False
    then have "locks_of (e # es) - ?D = insert l (locks_of es - insert l ?D)" by (auto simp: locks)
    with False s2(4) c(4) show ?thesis by (simp add: locks_of_def)
  qed (use s2(4) c(4) in \<open>auto simp: locks insert_absorb\<close>)
  with s1(1) s2(1,2,3,5) show ?case
    by (intro exI [of _ s2] exI [of _ "c # cs2"]) (auto simp: call_data_def lock_data_def e c locks)
qed

section \<open>Properties\<close>


text \<open>A thread inside a sampled allocation, with one lock in its table and room for more.\<close>

definition sample_locking :: state where
  "sample_locking =
    (sample_thread\<lparr>th_alloc := AllocatingStatus_zero\<lparr>allocatingType := AllocatingType_zero\<lparr>doingAllocation := True\<rparr>,
        sampledForCountingEvent := True\<rparr>\<rparr>,
     sample_profiler\<lparr>pf_objTable := sample_objtable\<lparr>ot_memory := small_memory\<rparr>\<rparr>)"

lemma sample_locking_ok:
  "tracked_and_sampled sample_locking" "locks_ok 3 sample_locking"
  "recorded [] (th_alloc (fst sample_locking))" "7 \<in> dom (table_lookup (lock_state sample_locking))"
  "8 \<notin> dom (table_lookup (lock_state sample_locking))"
proof -
  have r: "table_room 0 (one_entry v, small_memory) 3" for v :: DetailLockData
    by (simp add: table_room_def one_entry_def nbuckets_def small_memory_def)
  show "tracked_and_sampled sample_locking"
    by (simp add: tracked_and_sampled_def not_recorded_def outsideTrackedAllocation_def sample_locking_def)
  show "locks_ok 3 sample_locking"
    using one_entry_table [of "DetailLockData_newDetailLockData MUTEX"] r
    by (simp add: locks_ok_def sample_locking_def sample_thread_def ThreadLocalStatus_zero_def config)
  show "recorded [] (th_alloc (fst sample_locking))"
    using unused_zero by (simp add: sample_locking_def unused_def recorded_def)
  show "7 \<in> dom (table_lookup (lock_state sample_locking))" "8 \<notin> dom (table_lookup (lock_state sample_locking))"
    using HashMap_find_rep [OF one_entry_rep [of "DetailLockData_newDetailLockData MUTEX"]]
    by (simp_all add: sample_locking_def sample_thread_def table_lookup_def domIff one_entry_def)
qed


end
