(* ===== verification/XThread.thy ===== *)
theory XThread
  imports LibMallocProf
begin

text \<open>
  Threads and the life of the process (\<^verbatim>\<open>src_light/xthreadx.cpp\<close> and the set-up and exit functions of
  \<^verbatim>\<open>src_light/libmallocprof.cpp\<close>): creating, starting, ending and joining a thread, each with what it does
  to the running counts, the predictor's stages and the profiler's memory.

  A process is the shared state and the array of thread handles; the calling thread's own state is
  passed along. The real \<open>pthread_create\<close> and \<open>pthread_join\<close>, thread attributes and what the system answers
  to the set-up of the sampling are arguments, as are time stamps and the addresses \<open>mmap\<close> returns.
\<close>

text \<open>\<open>thread_t\<close>: what a new thread is handed. A routine is known by its address.\<close>

record thread_t =
  child_thread :: u64
  child_startRoutine :: u64
  child_startArg :: u64

record Process =
  pr_shared :: Profiler
  pr_threads :: "u64 list"

text \<open>The predictor's calls of a thread, on the shared predictor and the thread's own part.\<close>

definition predictor_step ::
  "(ThreadCounts \<Rightarrow> Predictor \<times> PredictorThread \<Rightarrow> crash + (Predictor \<times> PredictorThread))
    \<Rightarrow> Thread \<times> Process \<Rightarrow> crash + (Thread \<times> Process)" where
  "predictor_step f s =
    (case s of (t, pr) \<Rightarrow>
      bindR (f (pf_counts (pr_shared pr)) (pf_predictor (pr_shared pr), th_predict t)) (\<lambda>(p, pt).
        Inr (t\<lparr>th_predict := pt\<rparr>, pr\<lparr>pr_shared := (pr_shared pr)\<lparr>pf_predictor := p\<rparr>\<rparr>)))"

definition set_counts :: "(ThreadCounts \<Rightarrow> ThreadCounts) \<Rightarrow> Process \<Rightarrow> Process" where
  "set_counts f pr = pr\<lparr>pr_shared := (pr_shared pr)\<lparr>pf_counts := f (pf_counts (pr_shared pr))\<rparr>\<rparr>"

section \<open>Creating a thread\<close>

definition serial_stage_ends :: "u64 \<Rightarrow> u64 \<Rightarrow> Thread \<times> Process \<Rightarrow> crash + (Thread \<times> Process)" where
  "serial_stage_ends stop start s =
    predictor_step (\<lambda>g (p, pt).
      bindR (stopSerial g (p, outsideCyclesStop stop pt)) (\<lambda>(p, pt). Inr (p, outsideCycleStart start pt))) s"

text \<open>Returns the child's record, which goes to \<open>startThread\<close>; the result of the real call is passed on unread.\<close>

definition thread_create ::
  "u64 \<Rightarrow> u64 \<Rightarrow> u64 \<Rightarrow> u64 \<Rightarrow> u64 \<Rightarrow> int \<Rightarrow> Thread \<times> Process \<Rightarrow> crash + (int \<times> thread_t \<times> Thread \<times> Process)" where
  "thread_create tid fn arg stop start result s =
    (case s of (t, pr) \<Rightarrow>
      let pr = set_counts addARunningThread pr in
      bindR (if fromSerialToParallel (pf_counts (pr_shared pr)) then serial_stage_ends stop start (t, pr)
             else Inr (t, pr)) (\<lambda>(t, pr).
      bindR (MyMalloc_xthreadMalloc (pf_memory (pr_shared pr))) (\<lambda>(i, mm).
        Inr (result, \<lparr>child_thread = tid, child_startRoutine = fn, child_startArg = arg\<rparr>,
             t, pr\<lparr>pr_shared := set_memory mm (pr_shared pr)\<rparr>))))"

section \<open>A thread's life\<close>

text \<open>The thread-local state a new thread has: everything zero, the lock table not initialised.\<close>

definition Thread_zero :: "lock_table \<Rightarrow> Thread" where
  "Thread_zero locks = \<lparr>th_flags = \<lparr>profilerInitialized = False\<rparr>, th_local = ThreadLocalStatus_zero,
    th_alloc = AllocatingStatus_zero, th_predict = PredictorThread_zero, th_locks = locks,
    th_sampling = Sampling_zero\<rparr>"

definition set_handle :: "ThreadLocalStatus \<Rightarrow> u64 \<Rightarrow> Process \<Rightarrow> crash + Process" where
  "set_handle ts h pr =
    bindR (thread_slot (length (pr_threads pr)) ts) (\<lambda>i. Inr (pr\<lparr>pr_threads := (pr_threads pr)[i := h]\<rparr>))"

text \<open>\<open>startThread\<close> up to the call of the start routine.\<close>

definition startThread ::
  "bool \<Rightarrow> u64 \<Rightarrow> u64 \<Rightarrow> u64 \<Rightarrow> PMU \<Rightarrow> u64 \<Rightarrow> thread_t \<Rightarrow> lock_table \<Rightarrow> Process \<Rightarrow> crash + (Thread \<times> Process)" where
  "startThread attributes_ok stack region buckets pmu now current locks pr =
    (let t = Thread_zero locks in
     if \<not> attributes_ok then Inl (Aborted ''unable to get thread attributes'')
     else (let (g, ts) = getARunningThreadIndex (pf_counts (pr_shared pr)) (setStackBottom stack (th_local t));
               t = t\<lparr>th_local := ts\<rparr>;
               pr = set_counts (\<lambda>_. g) pr
       in bindR (set_handle ts (child_thread current) pr) (\<lambda>pr.
          bindR (thread_slot MAX_THREAD_NUMBER ts) (\<lambda>i.
          bindR (MyMalloc_initializeForThreadLocalHashMemory region (pf_memory (pr_shared pr)) i) (\<lambda>mm.
          bindR (initPMU2 pmu (th_sampling t)) (\<lambda>sp.
            Inr (t\<lparr>th_locks := HashMap_initialize buckets hashAddr compareAddr (of_nat MAX_LOCK_NUM) (th_locks t),
                   th_predict := outsideCycleStart now (threadInit (th_predict t)),
                   th_flags := setProfilerInitializedTrue (th_flags t), th_sampling := sp\<rparr>,
                 pr\<lparr>pr_shared := set_memory mm (pr_shared pr)\<rparr>)))))))"

text \<open>
  \<open>threadExit\<close>, the clean-up handler that also runs when the routine returns. \<open>fuel\<close> bounds the walk
  over the lock table in \<open>globalize\<close>; \<open>None\<close> says it was not enough.
\<close>

definition globalize_thread :: "nat \<Rightarrow> Thread \<Rightarrow> Process \<Rightarrow> (crash + Process) option" where
  "globalize_thread fuel t pr =
    (let p = pr_shared pr in
     case thread_slot MAX_THREAD_NUMBER (th_local t) of
       Inl e \<Rightarrow> Some (Inl e)
     | Inr i \<Rightarrow>
         map_option (\<lambda>r. bindR r (\<lambda>(g, locks, mm).
             Inr (pr\<lparr>pr_shared := (set_memory mm p)\<lparr>pf_global := g, pf_globalLocks := locks\<rparr>\<rparr>)))
           (globalize fuel i (th_local t) (th_locks t) (pf_global p) (pf_globalLocks p, pf_memory p)))"

definition predict_thread_end :: "u64 \<Rightarrow> Thread \<times> Process \<Rightarrow> crash + (Thread \<times> Process)" where
  "predict_thread_end now s =
    predictor_step (\<lambda>g (p, pt).
      let pt = outsideCyclesStop now pt in bindR (threadEnd (th_local (fst s)) pt p) (\<lambda>p. Inr (p, pt))) s"

definition finalize_memory :: "Thread \<Rightarrow> Process \<Rightarrow> crash + Process" where
  "finalize_memory t pr =
    bindR (thread_slot MAX_THREAD_NUMBER (th_local t)) (\<lambda>i.
    bindR (MyMalloc_finalizeForThreadLocalHashMemory (pf_memory (pr_shared pr)) i) (\<lambda>mm.
      Inr (pr\<lparr>pr_shared := set_memory mm (pr_shared pr)\<rparr>)))"

definition stop_samples :: "u64 \<Rightarrow> Thread \<times> Process \<Rightarrow> (crash + (Thread \<times> Process)) option" where
  "stop_samples junk s =
    (case s of (t, pr) \<Rightarrow>
      map_option (\<lambda>r. bindR r (\<lambda>(t, p). Inr (t, pr\<lparr>pr_shared := p\<rparr>))) (stop_sampling junk (t, pr_shared pr)))"

definition threadExit :: "nat \<Rightarrow> u64 \<Rightarrow> u64 \<Rightarrow> Thread \<times> Process \<Rightarrow> (crash + (Thread \<times> Process)) option" where
  "threadExit fuel junk now s =
    (case s of (t, pr) \<Rightarrow>
      bindO (Some (bindR (set_handle (th_local t) 0 pr) (\<lambda>pr. predict_thread_end now (t, pr)))) (\<lambda>s.
      bindO (stop_samples junk s) (\<lambda>(t, pr).
      bindO (globalize_thread fuel t pr) (\<lambda>pr. Some (bindR (finalize_memory t pr) (\<lambda>pr. Inr (t, pr)))))))"

definition parallel_stage_ends :: "u64 \<Rightarrow> u64 \<Rightarrow> Thread \<times> Process \<Rightarrow> crash + (Thread \<times> Process)" where
  "parallel_stage_ends stop start s =
    bindR (predict_thread_end stop s) (\<lambda>s.
      predictor_step (\<lambda>g (p, pt).
        bindR (stopParallel g (p, pt)) (\<lambda>(p, pt). Inr (p, outsideCycleStart start pt))) s)"

text \<open>The count goes down whatever the real call returned.\<close>

definition thread_join :: "u64 \<Rightarrow> u64 \<Rightarrow> int \<Rightarrow> Thread \<times> Process \<Rightarrow> crash + (int \<times> Thread \<times> Process)" where
  "thread_join stop start result s =
    (case s of (t, pr) \<Rightarrow>
      let pr = set_counts subARunningThread pr in
      bindR (if fromParallelToSerial (pf_counts (pr_shared pr)) then parallel_stage_ends stop start (t, pr)
             else Inr (t, pr)) (\<lambda>s. Inr (result, s)))"

section \<open>The process\<close>

text \<open>
  \<open>libmallocprof_main\<close> before it calls the program's \<open>main\<close>. \<open>files\<close> is the file system, by name, and the
  addresses are those of the stack, of the three bucket arrays and of the thread's region.
\<close>

record Startup =
  su_stack :: u64
  su_page_mmap_ok :: "nat \<Rightarrow> bool"
  su_cache_mmap_ok :: bool
  su_ALLOCATOR :: "string option"
  su_files :: "string \<Rightarrow> string list option"
  su_predictorFile :: "string list option"
  su_lockBuckets :: u64
  su_globalLockBuckets :: u64
  su_callBuckets :: u64
  su_objBuckets :: u64
  su_region :: u64
  su_now :: u64

definition libmallocprof_main :: "Startup \<Rightarrow> Thread \<times> Process \<Rightarrow> crash + (Thread \<times> Process)" where
  "libmallocprof_main su s =
    (case s of (t, pr) \<Rightarrow>
      let t = t\<lparr>th_local := setStackBottom (su_stack su) (th_local t)\<rparr>; p = pr_shared pr in
      bindR (ShadowMemory_initialize (su_page_mmap_ok su) (su_cache_mmap_ok su) (pf_shadow p)) (\<lambda>(_, sm).
      let (g, ts) = getARunningThreadIndex (addARunningThread (pf_counts p)) (th_local t) in
      bindR (openInputInfoFile (su_files su) (su_ALLOCATOR su) (pf_status p)) (\<lambda>ps.
      let ot = pf_objTable p;
          cs = (ot_callsite ot)\<lparr>callTable := HashMap_initialize (su_callBuckets su) hash_uint8_t compare_uint8_t
                 (of_nat NUM_CALLKEY) (callTable (ot_callsite ot))\<rparr>;
          ot = ObjTable_initialize (su_objBuckets su) (ot\<lparr>ot_callsite := cs\<rparr>);
          locks = HashMap_initialize (su_lockBuckets su) hashAddr compareAddr (of_nat MAX_LOCK_NUM) (th_locks t);
          glocks = HashMap_initialize (su_globalLockBuckets su) hashAddr compareAddr (of_nat MAX_LOCK_NUM)
                     (pf_globalLocks p)
      in bindR (thread_slot MAX_THREAD_NUMBER ts) (\<lambda>i.
      bindR (MyMalloc_initializeForThreadLocalHashMemory (su_region su) (ot_memory ot) i) (\<lambda>mm.
      bindR (globalInit (su_predictorFile su) (pf_predictor p) (th_predict t)) (\<lambda>(pd, pt).
        Inr (t\<lparr>th_local := ts, th_locks := locks, th_predict := outsideCycleStart (su_now su) pt,
               th_flags := setProfilerInitializedTrue (th_flags t)\<rparr>,
             pr\<lparr>pr_shared := p\<lparr>pf_counts := g, pf_status := ps, pf_predictor := pd,
                   pf_objTable := ot\<lparr>ot_memory := mm\<rparr>, pf_shadow := sm, pf_globalLocks := glocks\<rparr>\<rparr>)))))))"

text \<open>\<open>exitHandler\<close>: the last serial stage ends, the thread's counters are added up and the report is printed.\<close>

definition exitHandler ::
  "nat \<Rightarrow> u64 \<Rightarrow> u64 \<Rightarrow> Thread \<times> Process \<Rightarrow> (crash + (Report \<times> Thread \<times> Process)) option" where
  "exitHandler fuel junk stop s =
    (case s of (t, pr) \<Rightarrow>
      let pr = pr\<lparr>pr_shared := (pr_shared pr)\<lparr>pf_status := setBeginConclusionTrue (pf_status (pr_shared pr))\<rparr>\<rparr> in
      bindO (Some (predictor_step (\<lambda>g (p, pt). stopSerial g (p, outsideCyclesStop stop pt)) (t, pr))) (\<lambda>s.
      bindO (stop_samples junk s) (\<lambda>(t, pr).
      bindO (globalize_thread fuel t pr) (\<lambda>pr.
        let p = pr_shared pr in
        bindO (GlobalStatus_printOutput fuel (pf_status p) (pf_predictor p) (pf_globalLocks p) (pf_global p) (pf_shadow p))
          (\<lambda>(report, g, sm).
            Some (Inr (report, t, pr\<lparr>pr_shared := p\<lparr>pf_global := g, pf_shadow := sm\<rparr>\<rparr>)))))))"

text \<open>
  \<open>mainStop\<close>, the handler of \<open>SIGUSR2\<close>: the main thread signals the others, any other thread ends itself.
\<close>

datatype StopAction = Kill "u64 list" | ExitThread

definition mainStop :: "Thread \<times> Process \<Rightarrow> crash + StopAction" where
  "mainStop s =
    (case s of (t, pr) \<Rightarrow>
      if runningThreadIndex (th_local t) = 0
      then (let n = unat (totalNumOfRunningThread (pf_counts (pr_shared pr))) in
            if n \<le> max 1 (length (pr_threads pr))
            then Inr (Kill (filter (\<lambda>h. h \<noteq> 0) (map ((!) (pr_threads pr)) [1..<n])))
            else Inl OutOfBounds)
      else Inr ExitThread)"

end
