(* ===== verification/XThread_Correct.thy ===== *)
theory XThread_Correct
  imports XThread LibMallocProf_Correct
begin

text \<open>
  The life of a process with any number of threads, as a step relation over creating, starting, ending
  and joining threads in any order (\<open>world_step\<close>), its invariant, and what it gives: the running count is
  the number of threads not joined, and the critical path the predictor measures is the serial time plus
  the longest thread of every parallel stage.
\<close>

section \<open>What the operations do to the predictor\<close>

lemma stopSerial_Inr:
  assumes "stopSerial g (p, t) = Inr (p', t')"
  shows "criticalCycle p' = criticalCycle p + outsideCycle t" "t' = clear_counters t"
    "threadCycle p' = zero_prefix (unat (totalNumOfThread g)) (threadCycle p)"
    "threadReplacedCycle p' = zero_prefix (unat (totalNumOfThread g)) (threadReplacedCycle p)"
  using assms by (auto simp: stopSerial_def cleanStageData_def Let_def split: if_splits)

lemma stopParallel_Inr:
  assumes "stopParallel g (p, t) = Inr (p', t')" and "1 \<le> unat (totalNumOfThread g)"
  shows "criticalCycle p' = criticalCycle p + longest (threadCycle p) (counted_threads p (unat (totalNumOfThread g)))"
    "t' = clear_counters t"
    "threadCycle p' = zero_prefix (unat (totalNumOfThread g)) (threadCycle p)"
    "threadReplacedCycle p' = zero_prefix (unat (totalNumOfThread g)) (threadReplacedCycle p)"
  using assms stage_max_fold [OF assms(2), of p]
  by (auto simp: stopParallel_def cleanStageData_def Let_def split: if_splits)

lemma threadEnd_Inr:
  assumes "threadEnd ts t p = Inr p'" and "unat (runningThreadIndex ts) = i"
  shows "criticalCycle p' = criticalCycle p" "i < MAX_THREAD_NUMBER"
    "threadCycle p' = (threadCycle p)[i := threadCycle p ! i + outsideCycle t]"
    "\<forall>j. j \<noteq> i \<longrightarrow> threadReplacedCycle p' ! j = threadReplacedCycle p ! j"
    "length (threadReplacedCycle p') = length (threadReplacedCycle p)"
proof -
  obtain k where k: "thread_slot MAX_THREAD_NUMBER ts = Inr k" using assms(1) by (auto simp: threadEnd_def bindR_Inr_iff)
  have i: "k = i" using thread_slot_Inr(2) [OF _ k] assms(2) by (simp add: config)
  show "i < MAX_THREAD_NUMBER" using thread_slot_Inr(1) [OF k] i by simp
  show "criticalCycle p' = criticalCycle p"
    "threadCycle p' = (threadCycle p)[i := threadCycle p ! i + outsideCycle t]"
    "\<forall>j. j \<noteq> i \<longrightarrow> threadReplacedCycle p' ! j = threadReplacedCycle p ! j"
    "length (threadReplacedCycle p') = length (threadReplacedCycle p)"
    using assms(1) k i by (auto simp: threadEnd_def Let_def split: if_splits)
qed

text \<open>The measured time since the thread was last started, when time has passed.\<close>

lemma outsideCyclesStop_running:
  assumes "outsideStartCycle t < now" and "outsideStartCycle t \<noteq> 0"
  shows "outsideCycle (outsideCyclesStop now t) = outsideCycle t + (now - outsideStartCycle t)"
  using assms by (simp add: outsideCyclesStop_def Let_def)

abbreviation pr_counts :: "Process \<Rightarrow> ThreadCounts" where
  "pr_counts pr \<equiv> pf_counts (pr_shared pr)"

abbreviation pr_predictor :: "Process \<Rightarrow> Predictor" where
  "pr_predictor pr \<equiv> pf_predictor (pr_shared pr)"

lemma predictor_step_Inr:
  assumes "predictor_step f (t, pr) = Inr (t', pr')"
  shows "f (pr_counts pr) (pr_predictor pr, th_predict t) = Inr (pr_predictor pr', th_predict t')"
    "pr_counts pr' = pr_counts pr" "th_local t' = th_local t"
  using assms by (auto simp: predictor_step_def bindR_Inr_iff)

text \<open>Creating: the count, and the end of the serial stage at the first thread.\<close>

lemma thread_create_Inr:
  assumes "thread_create tid fn arg stop start r (t, pr) = Inr (r', ch, t', pr')"
  shows "pr_counts pr' = addARunningThread (pr_counts pr)" "th_local t' = th_local t"
    and "\<not> fromSerialToParallel (addARunningThread (pr_counts pr)) \<Longrightarrow>
      t' = t \<and> pr_predictor pr' = pr_predictor pr"
    and "fromSerialToParallel (addARunningThread (pr_counts pr)) \<Longrightarrow>
      \<exists>pt. stopSerial (addARunningThread (pr_counts pr)) (pr_predictor pr, outsideCyclesStop stop (th_predict t))
          = Inr (pr_predictor pr', pt) \<and> th_predict t' = outsideCycleStart start pt"
proof -
  let ?pr = "set_counts addARunningThread pr"
  have c: "pr_counts ?pr = addARunningThread (pr_counts pr)" "pr_predictor ?pr = pr_predictor pr"
    by (simp_all add: set_counts_def)
  obtain t1 pr1 mm where s1: "(if fromSerialToParallel (pr_counts ?pr) then serial_stage_ends stop start (t, ?pr)
        else Inr (t, ?pr)) = Inr (t1, pr1)"
    and e: "t' = t1" "pr' = pr1\<lparr>pr_shared := set_memory mm (pr_shared pr1)\<rparr>"
    using assms by (auto simp: thread_create_def Let_def bindR_Inr_iff)
  have e': "pr_counts pr' = pr_counts pr1" "pr_predictor pr' = pr_predictor pr1"
    by (simp_all add: e set_memory_def)
  have main: "pr_counts pr1 = pr_counts ?pr \<and> th_local t1 = th_local t"
  proof (cases "fromSerialToParallel (pr_counts ?pr)")
    case True
    with s1 predictor_step_Inr(2,3) show ?thesis by (simp add: serial_stage_ends_def)
  qed (use s1 in simp)
  show "pr_counts pr' = addARunningThread (pr_counts pr)" "th_local t' = th_local t"
    using main c e e' by simp_all
  show "t' = t \<and> pr_predictor pr' = pr_predictor pr" if "\<not> fromSerialToParallel (addARunningThread (pr_counts pr))"
    using s1 that c e e' by simp
  show "\<exists>pt. stopSerial (addARunningThread (pr_counts pr)) (pr_predictor pr, outsideCyclesStop stop (th_predict t))
          = Inr (pr_predictor pr', pt) \<and> th_predict t' = outsideCycleStart start pt"
    if "fromSerialToParallel (addARunningThread (pr_counts pr))"
    using s1 that c e e' by (auto simp: serial_stage_ends_def bindR_Inr_iff dest!: predictor_step_Inr(1))
qed

text \<open>Starting: a fresh index and a fresh measurement.\<close>

lemma startThread_Inr:
  assumes "startThread ok stack region buckets pmu now current locks pr = Inr (t', pr')"
  shows "pr_predictor pr' = pr_predictor pr"
    "pr_counts pr' = (pr_counts pr)\<lparr>totalNumOfThread := totalNumOfThread (pr_counts pr) + 1\<rparr>"
    "runningThreadIndex (th_local t') = totalNumOfThread (pr_counts pr)"
    "unat (totalNumOfThread (pr_counts pr)) < MAX_THREAD_NUMBER"
    "outsideCycle (th_predict t') = 0" "outsideStartCycle (th_predict t') = now"
proof -
  obtain i where i: "thread_slot MAX_THREAD_NUMBER (th_local t') = Inr i"
    and r: "pr_predictor pr' = pr_predictor pr"
    "pr_counts pr' = (pr_counts pr)\<lparr>totalNumOfThread := totalNumOfThread (pr_counts pr) + 1\<rparr>"
    "runningThreadIndex (th_local t') = totalNumOfThread (pr_counts pr)"
    "outsideCycle (th_predict t') = 0" "outsideStartCycle (th_predict t') = now"
    using assms
    by (auto simp: startThread_def getARunningThreadIndex_def setStackBottom_def set_handle_def set_counts_def
        set_memory_def threadInit_def clear_counters_def outsideCycleStart_def Let_def bindR_Inr_iff split: if_splits)
  show "unat (totalNumOfThread (pr_counts pr)) < MAX_THREAD_NUMBER"
    using thread_slot_Inr(1) [OF i] thread_slot_Inr(2) [OF _ i] r(3) by (simp add: config)
  show "pr_predictor pr' = pr_predictor pr"
    "pr_counts pr' = (pr_counts pr)\<lparr>totalNumOfThread := totalNumOfThread (pr_counts pr) + 1\<rparr>"
    "runningThreadIndex (th_local t') = totalNumOfThread (pr_counts pr)"
    "outsideCycle (th_predict t') = 0" "outsideStartCycle (th_predict t') = now"
    by (fact r)+
qed

text \<open>Ending: the thread's own cells, and nothing else of the counts and the critical path.\<close>

lemma predict_thread_end_Inr:
  assumes "predict_thread_end now (t, pr) = Inr (t', pr')" and "unat (runningThreadIndex (th_local t)) = i"
  shows "pr_counts pr' = pr_counts pr" "th_local t' = th_local t"
    "criticalCycle (pr_predictor pr') = criticalCycle (pr_predictor pr)" "i < MAX_THREAD_NUMBER"
    "threadCycle (pr_predictor pr') = (threadCycle (pr_predictor pr))
      [i := threadCycle (pr_predictor pr) ! i + outsideCycle (outsideCyclesStop now (th_predict t))]"
    "\<forall>j. j \<noteq> i \<longrightarrow> threadReplacedCycle (pr_predictor pr') ! j = threadReplacedCycle (pr_predictor pr) ! j"
    "length (threadReplacedCycle (pr_predictor pr')) = length (threadReplacedCycle (pr_predictor pr))"
proof -
  from predictor_step_Inr [OF assms(1) [unfolded predict_thread_end_def]]
  show "pr_counts pr' = pr_counts pr" "th_local t' = th_local t" by simp_all
  from predictor_step_Inr(1) [OF assms(1) [unfolded predict_thread_end_def]]
  have "threadEnd (th_local t) (outsideCyclesStop now (th_predict t)) (pr_predictor pr) = Inr (pr_predictor pr')"
    by (auto simp: Let_def bindR_Inr_iff)
  note E = threadEnd_Inr [OF this assms(2)]
  show "criticalCycle (pr_predictor pr') = criticalCycle (pr_predictor pr)" "i < MAX_THREAD_NUMBER"
    "threadCycle (pr_predictor pr') = (threadCycle (pr_predictor pr))
      [i := threadCycle (pr_predictor pr) ! i + outsideCycle (outsideCyclesStop now (th_predict t))]"
    "\<forall>j. j \<noteq> i \<longrightarrow> threadReplacedCycle (pr_predictor pr') ! j = threadReplacedCycle (pr_predictor pr) ! j"
    "length (threadReplacedCycle (pr_predictor pr')) = length (threadReplacedCycle (pr_predictor pr))"
    by (fact E)+
qed

lemma stop_samples_Inr:
  assumes "stop_samples junk (t, pr) = Some (Inr (t', pr'))"
  shows "pr_counts pr' = pr_counts pr" "pr_predictor pr' = pr_predictor pr"
  using assms by (auto simp: stop_samples_def stop_sampling_def set_samples_def bindR_Inr_iff)

lemma threadExit_Inr:
  assumes "threadExit fuel junk now (t, pr) = Some (Inr (t', pr'))"
  shows "\<exists>pr0 t1 pr1. predict_thread_end now (t, pr0) = Inr (t1, pr1)
    \<and> pr_counts pr0 = pr_counts pr \<and> pr_predictor pr0 = pr_predictor pr
    \<and> pr_counts pr' = pr_counts pr1 \<and> pr_predictor pr' = pr_predictor pr1"
proof -
  obtain pr0 t1 pr1 pr2 pr3 where h: "set_handle (th_local t) 0 pr = Inr pr0" "predict_thread_end now (t, pr0) = Inr (t1, pr1)"
    and st: "stop_samples junk (t1, pr1) = Some (Inr (t', pr2))"
    and g: "globalize_thread fuel t' pr2 = Some (Inr pr3)" and f: "finalize_memory t' pr3 = Inr pr'"
    using assms by (auto simp: threadExit_def bindR_Inr_iff bindO_Inr_iff)
  have "pr_counts pr' = pr_counts pr2 \<and> pr_predictor pr' = pr_predictor pr2"
    using g f by (auto simp: globalize_thread_def finalize_memory_def set_memory_def Let_def bindR_Inr_iff split: sum.splits)
  moreover have "pr_counts pr0 = pr_counts pr \<and> pr_predictor pr0 = pr_predictor pr"
    using h(1) by (auto simp: set_handle_def bindR_Inr_iff)
  ultimately show ?thesis using h(2) stop_samples_Inr [OF st] by auto
qed

text \<open>Joining: the count, and the end of the parallel stage at the last thread.\<close>

lemma thread_join_Inr:
  assumes "thread_join stop start r (t, pr) = Inr (r', t', pr')"
  shows "pr_counts pr' = subARunningThread (pr_counts pr)" "th_local t' = th_local t"
    and "\<not> fromParallelToSerial (subARunningThread (pr_counts pr)) \<Longrightarrow>
      t' = t \<and> pr_predictor pr' = pr_predictor pr"
    and "fromParallelToSerial (subARunningThread (pr_counts pr)) \<Longrightarrow>
      \<exists>t1 pr1 pt. predict_thread_end stop (t, set_counts subARunningThread pr) = Inr (t1, pr1)
        \<and> stopParallel (subARunningThread (pr_counts pr)) (pr_predictor pr1, th_predict t1)
          = Inr (pr_predictor pr', pt) \<and> th_predict t' = outsideCycleStart start pt"
proof -
  let ?pr = "set_counts subARunningThread pr"
  have c: "pr_counts ?pr = subARunningThread (pr_counts pr)" "pr_predictor ?pr = pr_predictor pr"
    by (simp_all add: set_counts_def)
  have s1: "(if fromParallelToSerial (pr_counts ?pr) then parallel_stage_ends stop start (t, ?pr)
        else Inr (t, ?pr)) = Inr (t', pr')"
    using assms by (auto simp: thread_join_def Let_def bindR_Inr_iff)
  have ends: "\<exists>t1 pr1 pt. predict_thread_end stop (t, ?pr) = Inr (t1, pr1)
        \<and> stopParallel (pr_counts ?pr) (pr_predictor pr1, th_predict t1)
          = Inr (pr_predictor pr', pt) \<and> th_predict t' = outsideCycleStart start pt
        \<and> pr_counts pr' = pr_counts ?pr \<and> th_local t' = th_local t"
    if "fromParallelToSerial (pr_counts ?pr)"
  proof -
    from s1 that obtain t1 pr1 where e: "predict_thread_end stop (t, ?pr) = Inr (t1, pr1)"
      and q: "predictor_step (\<lambda>g (p, pt). bindR (stopParallel g (p, pt)) (\<lambda>(p, pt). Inr (p, outsideCycleStart start pt)))
        (t1, pr1) = Inr (t', pr')"
      by (auto simp: parallel_stage_ends_def bindR_Inr_iff)
    note Q = predictor_step_Inr [OF q]
    note E = predict_thread_end_Inr(1,2) [OF e refl]
    from Q(1) show ?thesis using e E Q(2,3) by (auto simp: bindR_Inr_iff)
  qed
  show "pr_counts pr' = subARunningThread (pr_counts pr)" "th_local t' = th_local t"
    using ends s1 c by (cases "fromParallelToSerial (pr_counts ?pr)"; auto)+
  show "t' = t \<and> pr_predictor pr' = pr_predictor pr" if "\<not> fromParallelToSerial (subARunningThread (pr_counts pr))"
    using s1 that c by simp
  show "\<exists>t1 pr1 pt. predict_thread_end stop (t, ?pr) = Inr (t1, pr1)
        \<and> stopParallel (subARunningThread (pr_counts pr)) (pr_predictor pr1, th_predict t1)
          = Inr (pr_predictor pr', pt) \<and> th_predict t' = outsideCycleStart start pt"
    if "fromParallelToSerial (subARunningThread (pr_counts pr))"
    using ends that unfolding c(1) by blast
qed

section \<open>The process as a step relation\<close>

text \<open>
  The threads that run, by index; how many were created and have not started, and ended and were not
  joined. The last three fields are not in the program: the time of the serial stages, the lengths of
  the threads that ended in the current parallel stage, and the sum of the longest ones.
\<close>

record World =
  w_process :: Process
  w_running :: "nat \<Rightarrow> Thread option"
  w_created :: nat
  w_ended :: nat
  w_serial :: u64
  w_lengths :: "nat \<Rightarrow> u64 option"
  w_parallel :: u64

definition unjoined_threads :: "World \<Rightarrow> nat" where
  "unjoined_threads w = w_created w + w_ended w + card (dom (w_running w) - {0})"

definition stage_length :: "(nat \<Rightarrow> u64 option) \<Rightarrow> u64" where
  "stage_length ls = Max (insert 0 (ran ls))"

text \<open>
  What a thread does between those calls, its allocations included, does not touch the counts, the
  predictor's shared part, its index and its time measurement.
\<close>

definition own_work :: "Thread \<times> Process \<Rightarrow> Thread \<times> Process \<Rightarrow> bool" where
  "own_work s s' \<longleftrightarrow> pr_counts (snd s') = pr_counts (snd s) \<and> pr_predictor (snd s') = pr_predictor (snd s)
    \<and> runningThreadIndex (th_local (fst s')) = runningThreadIndex (th_local (fst s))
    \<and> outsideStartCycle (th_predict (fst s')) = outsideStartCycle (th_predict (fst s))
    \<and> outsideCycle (th_predict (fst s')) = outsideCycle (th_predict (fst s))"

text \<open>
  Time stamps are not 0 and grow, \<open>pthread_create\<close> succeeds, \<open>pthread_join\<close> returns for a thread that
  has ended, and neither the measured nor the predicted cycles of a thread that ends happen to be 0.
\<close>

text \<open>The time a thread has been measured, without the handler of the samples.\<close>

definition measured :: "u64 \<Rightarrow> Thread \<Rightarrow> u64" where
  "measured now t = outsideCycle (th_predict t) + (now - outsideStartCycle (th_predict t))"

inductive world_step :: "World \<Rightarrow> World \<Rightarrow> bool" where
  step_create: "\<lbrakk>w_running w i = Some t; unjoined_threads w + 2 < 65536;
      outsideStartCycle (th_predict t) < stop; start \<noteq> 0;
      thread_create tid fn arg stop start 0 (t, w_process w) = Inr (r, child, t', pr)\<rbrakk>
    \<Longrightarrow> world_step w (w\<lparr>w_process := pr, w_running := (w_running w)(i \<mapsto> t'), w_created := w_created w + 1,
        w_serial := (if unjoined_threads w = 0 then w_serial w + measured stop t else w_serial w)\<rparr>)"
| step_start: "\<lbrakk>0 < w_created w; now \<noteq> 0;
      startThread True stack region buckets pmu now child locks (w_process w) = Inr (t, pr)\<rbrakk>
    \<Longrightarrow> world_step w (w\<lparr>w_process := pr, w_created := w_created w - 1,
        w_running := (w_running w)(unat (runningThreadIndex (th_local t)) \<mapsto> t)\<rparr>)"
| step_exit: "\<lbrakk>w_running w i = Some t; i \<noteq> 0; outsideStartCycle (th_predict t) < now; measured now t \<noteq> 0;
      threadExit fuel junk now (t, w_process w) = Some (Inr (t', pr)); threadReplacedCycle (pr_predictor pr) ! i \<noteq> 0\<rbrakk>
    \<Longrightarrow> world_step w (w\<lparr>w_process := pr, w_running := (w_running w)(i := None), w_ended := w_ended w + 1,
        w_lengths := (w_lengths w)(i \<mapsto> measured now t)\<rparr>)"
| step_join: "\<lbrakk>w_running w i = Some t; 0 < w_ended w; outsideStartCycle (th_predict t) < stop; start \<noteq> 0;
      thread_join stop start 0 (t, w_process w) = Inr (r, t', pr)\<rbrakk>
    \<Longrightarrow> world_step w (if unjoined_threads w = 1
        then w\<lparr>w_process := pr, w_running := (w_running w)(i \<mapsto> t'), w_ended := w_ended w - 1,
               w_lengths := Map.empty, w_parallel := w_parallel w + stage_length (w_lengths w)\<rparr>
        else w\<lparr>w_process := pr, w_running := (w_running w)(i \<mapsto> t'), w_ended := w_ended w - 1\<rparr>)"
| step_work: "\<lbrakk>w_running w i = Some t; own_work (t, w_process w) (t', pr)\<rbrakk>
    \<Longrightarrow> world_step w (w\<lparr>w_process := pr, w_running := (w_running w)(i \<mapsto> t')\<rparr>)"
| step_signal: "\<lbrakk>w_running w i = Some t; outsideStartCycle (th_predict t) < stop; start \<noteq> 0;
      sample_signal hup stop start junk (t, pr_shared (w_process w)) = Some (Inr (t', p))\<rbrakk>
    \<Longrightarrow> world_step w (w\<lparr>w_process := (w_process w)\<lparr>pr_shared := p\<rparr>, w_running := (w_running w)(i \<mapsto> t')\<rparr>)"

text \<open>
  The invariant: the count is that of the threads not joined, every running thread is measuring, and the
  cells of the current stage hold the lengths of the threads that ended in it.
\<close>

definition cells_hold :: "nat \<Rightarrow> (nat \<Rightarrow> u64 option) \<Rightarrow> Predictor \<Rightarrow> bool" where
  "cells_hold n ls p \<longleftrightarrow> length (threadCycle p) = MAX_THREAD_NUMBER
    \<and> length (threadReplacedCycle p) = MAX_THREAD_NUMBER \<and> dom ls \<subseteq> {1..<n}
    \<and> (\<forall>i \<in> {1..<MAX_THREAD_NUMBER}. threadCycle p ! i = (case ls i of None \<Rightarrow> 0 | Some c \<Rightarrow> c))
    \<and> (\<forall>i c. ls i = Some c \<longrightarrow> c \<noteq> 0 \<and> threadReplacedCycle p ! i \<noteq> 0)"

definition threads_ok :: "nat \<Rightarrow> (nat \<Rightarrow> Thread option) \<Rightarrow> bool" where
  "threads_ok n R \<longleftrightarrow> 0 \<in> dom R \<and> dom R \<subseteq> {..<n}
    \<and> (\<forall>i t. R i = Some t \<longrightarrow> unat (runningThreadIndex (th_local t)) = i \<and> outsideStartCycle (th_predict t) \<noteq> 0)"

definition world_ok :: "World \<Rightarrow> bool" where
  "world_ok w \<longleftrightarrow>
    (let pr = w_process w; n = unat (totalNumOfThread (pr_counts pr)) in
     unat (totalNumOfRunningThread (pr_counts pr)) = unjoined_threads w + 1 \<and> unjoined_threads w + 1 < 65536
     \<and> n \<le> MAX_THREAD_NUMBER \<and> threads_ok n (w_running w) \<and> cells_hold n (w_lengths w) (pr_predictor pr)
     \<and> dom (w_lengths w) \<inter> dom (w_running w) = {} \<and> (unjoined_threads w = 0 \<longrightarrow> w_lengths w = Map.empty)
     \<and> criticalCycle (pr_predictor pr) = w_serial w + w_parallel w)"

section \<open>Every step keeps the invariant\<close>

lemma count_after_create:
  assumes "unat (totalNumOfRunningThread g) = u + 1" and "u + 2 < 65536"
  shows "unat (totalNumOfRunningThread (addARunningThread g)) = u + 2"
    "fromSerialToParallel (addARunningThread g) \<longleftrightarrow> u = 0"
proof -
  show e: "unat (totalNumOfRunningThread (addARunningThread g)) = u + 2"
    using assms by (simp add: addARunningThread_def unat_add_bound)
  have "x = 2 \<longleftrightarrow> unat x = 2" for x :: u16 by (simp add: word_unat_eq_iff)
  with e show "fromSerialToParallel (addARunningThread g) \<longleftrightarrow> u = 0" by (simp add: fromSerialToParallel_def)
qed

lemma count_after_join:
  assumes "unat (totalNumOfRunningThread g) = u + 1" and "0 < u"
  shows "unat (totalNumOfRunningThread (subARunningThread g)) = u"
    "fromParallelToSerial (subARunningThread g) \<longleftrightarrow> u = 1"
proof -
  have "1 \<le> totalNumOfRunningThread g" using assms by (simp add: word_le_nat_alt)
  then show e: "unat (totalNumOfRunningThread (subARunningThread g)) = u"
    using assms by (simp add: subARunningThread_def unat_sub_le)
  have "x = 1 \<longleftrightarrow> unat x = 1" for x :: u16 by (simp add: word_unat_eq_iff)
  with e show "fromParallelToSerial (subARunningThread g) \<longleftrightarrow> u = 1" by (simp add: fromParallelToSerial_def)
qed

lemma threads_ok_finite: "threads_ok n R \<Longrightarrow> finite (dom R)"
  by (auto simp: threads_ok_def intro: finite_subset)

lemma threads_ok_update:
  assumes "threads_ok n R" and "R i = Some t"
    and "unat (runningThreadIndex (th_local t')) = i" "outsideStartCycle (th_predict t') \<noteq> 0"
  shows "threads_ok n (R(i \<mapsto> t'))"
  using assms by (auto simp: threads_ok_def split: if_splits)

lemma only_main:
  assumes "threads_ok n R" and "card (dom R - {0}) = 0" and "R i = Some t"
  shows "i = 0"
  using assms threads_ok_finite [OF assms(1)] by auto

lemma zero_prefix_length [simp]: "n \<le> length xs \<Longrightarrow> length (zero_prefix n xs) = length xs"
  by (simp add: zero_prefix_def)

lemma cells_hold_clean:
  assumes "cells_hold n ls p" and "n \<le> MAX_THREAD_NUMBER"
    and "threadCycle p' = zero_prefix n (threadCycle p)"
    and "length (threadReplacedCycle p') = MAX_THREAD_NUMBER"
  shows "cells_hold n Map.empty p'"
proof -
  have "zero_prefix n (threadCycle p) ! i = 0" if "i \<in> {1..<MAX_THREAD_NUMBER}" for i
  proof (cases "i < n")
    case False
    then have "ls i = None" using assms(1) by (auto simp: cells_hold_def)
    with False assms(1,2) that show ?thesis by (simp add: cells_hold_def zero_prefix_def nth_append)
  qed (simp add: zero_prefix_def nth_append)
  with assms show ?thesis by (simp add: cells_hold_def)
qed

lemma stage_length_longest:
  assumes "cells_hold n ls p" and "n \<le> MAX_THREAD_NUMBER"
  shows "longest (threadCycle p) (counted_threads p n) = stage_length ls"
proof -
  have c: "threadCycle p ! i = (case ls i of None \<Rightarrow> 0 | Some c \<Rightarrow> c)" if "i \<in> {1..<n}" for i
    using assms that by (simp add: cells_hold_def)
  have "counted_threads p n = dom ls"
  proof (intro set_eqI iffI)
    fix i assume "i \<in> counted_threads p n"
    then show "i \<in> dom ls" using c [of i] by (auto simp: counted_threads_def split: option.splits)
  next
    fix i assume "i \<in> dom ls"
    then show "i \<in> counted_threads p n"
      using c [of i] assms(1) by (auto simp: counted_threads_def cells_hold_def)
  qed
  moreover have "(!) (threadCycle p) ` dom ls = ran ls"
  proof -
    have "threadCycle p ! i = the (ls i)" if "i \<in> dom ls" for i
      using c [of i] assms(1) that by (auto simp: cells_hold_def)
    then have "(!) (threadCycle p) ` dom ls = (\<lambda>i. the (ls i)) ` dom ls" by (rule image_cong [OF refl])
    also have "... = ran ls" by (force simp: ran_def image_iff)
    finally show ?thesis .
  qed
  ultimately show ?thesis by (simp add: longest_def stage_length_def)
qed

lemma world_okD:
  assumes "world_ok w"
  defines "pr \<equiv> w_process w" and "n \<equiv> unat (totalNumOfThread (pr_counts (w_process w)))"
  shows "unat (totalNumOfRunningThread (pr_counts pr)) = unjoined_threads w + 1" "unjoined_threads w + 1 < 65536"
    "n \<le> MAX_THREAD_NUMBER" "threads_ok n (w_running w)" "cells_hold n (w_lengths w) (pr_predictor pr)"
    "dom (w_lengths w) \<inter> dom (w_running w) = {}" "unjoined_threads w = 0 \<Longrightarrow> w_lengths w = Map.empty"
    "criticalCycle (pr_predictor pr) = w_serial w + w_parallel w"
  using assms(1) by (simp_all add: world_ok_def Let_def pr_def n_def)

lemma world_okI:
  assumes "w_created w + w_ended w + card (dom (w_running w) - {0}) = u" and "u + 1 < 65536"
    and "unat (totalNumOfRunningThread (pr_counts (w_process w))) = u + 1"
    and "unat (totalNumOfThread (pr_counts (w_process w))) = n" and "n \<le> MAX_THREAD_NUMBER"
    and "threads_ok n (w_running w)" and "cells_hold n (w_lengths w) (pr_predictor (w_process w))"
    and "dom (w_lengths w) \<inter> dom (w_running w) = {}" and "u = 0 \<Longrightarrow> w_lengths w = Map.empty"
    and "criticalCycle (pr_predictor (w_process w)) = w_serial w + w_parallel w"
  shows "world_ok w"
  using assms by (auto simp: world_ok_def unjoined_threads_def Let_def)

lemma thread_facts:
  assumes "threads_ok n R" and "R i = Some t"
  shows "unat (runningThreadIndex (th_local t)) = i" "outsideStartCycle (th_predict t) \<noteq> 0" "insert i (dom R) = dom R" "i < n"
  using assms by (auto simp: threads_ok_def)

lemma started [simp]:
  "outsideStartCycle (outsideCycleStart now t) = now" "outsideCycle (outsideCycleStart now t) = outsideCycle t"
  "outsideCycle (clear_counters t) = 0"
  by (simp_all add: outsideCycleStart_def clear_counters_def)

lemma create_ok:
  assumes ok: "world_ok w" and run: "w_running w i = Some t" "unjoined_threads w + 2 < 65536"
      "outsideStartCycle (th_predict t) < stop" "start \<noteq> 0"
    and create: "thread_create tid fn arg stop start 0 (t, w_process w) = Inr (r, child, t', pr)"
  shows "world_ok (w\<lparr>w_process := pr, w_running := (w_running w)(i \<mapsto> t'), w_created := w_created w + 1,
        w_serial := (if unjoined_threads w = 0 then w_serial w + measured stop t else w_serial w)\<rparr>)" (is "world_ok ?w")
proof -
  note W = world_okD [OF ok] and T = thread_facts [OF world_okD(4) [OF ok] run(1)] and C = thread_create_Inr [OF create]
  note N = count_after_create [OF W(1) run(2)]
  let ?n = "unat (totalNumOfThread (pr_counts (w_process w)))"
  have n: "totalNumOfThread (addARunningThread g) = totalNumOfThread g" for g
    by (simp add: addARunningThread_def)
  have u: "w_created ?w + w_ended ?w + card (dom (w_running ?w) - {0}) = unjoined_threads w + 1"
    by (simp add: unjoined_threads_def T(3))
  have apart: "dom (w_lengths w) \<inter> insert i (dom (w_running w)) = {}" using W(6) by (simp add: T(3))
  show ?thesis
  proof (cases "unjoined_threads w = 0")
    case False
    with C(3) N(2) have e: "t' = t" "pr_predictor pr = pr_predictor (w_process w)" by auto
    have "threads_ok ?n ((w_running w)(i \<mapsto> t))" using threads_ok_update [OF W(4) run(1) T(1,2)] .
    with W N(1) False apart run(2) show ?thesis
      by (intro world_okI [OF u, of ?n]) (simp_all add: e C(1) n)
  next
    case True
    with C(4) N(2) obtain pt where s: "stopSerial (addARunningThread (pr_counts (w_process w)))
        (pr_predictor (w_process w), outsideCyclesStop stop (th_predict t)) = Inr (pr_predictor pr, pt)"
      and t': "th_predict t' = outsideCycleStart start pt" by auto
    note S = stopSerial_Inr [OF s, unfolded n]
    have "threads_ok ?n ((w_running w)(i \<mapsto> t'))"
      using threads_ok_update [OF W(4) run(1)] T(1) C(2) t' S(2) run(4) by simp
    moreover have "cells_hold ?n Map.empty (pr_predictor pr)"
      using W(3,5) by (intro cells_hold_clean [OF W(5,3) S(3)]) (simp add: S(4) cells_hold_def)
    moreover have "criticalCycle (pr_predictor pr) = w_serial w + measured stop t + w_parallel w"
      using S(1) outsideCyclesStop_running [OF run(3) T(2)] W(8) by (simp add: measured_def)
    ultimately show ?thesis using W(3,7) N(1) True run(2)
      by (intro world_okI [OF u, of ?n]) (simp_all add: C(1) n)
  qed
qed

lemma threads_ok_mono: "threads_ok n R \<Longrightarrow> n \<le> m \<Longrightarrow> threads_ok m R"
  by (auto simp: threads_ok_def)

lemma cells_hold_mono: "cells_hold n ls p \<Longrightarrow> n \<le> m \<Longrightarrow> cells_hold m ls p"
  by (fastforce simp: cells_hold_def)

lemma start_ok:
  assumes ok: "world_ok w" and run: "0 < w_created w" "now \<noteq> 0"
    and start: "startThread True stack region buckets pmu now child locks (w_process w) = Inr (t, pr)"
  shows "world_ok (w\<lparr>w_process := pr, w_created := w_created w - 1,
        w_running := (w_running w)(unat (runningThreadIndex (th_local t)) \<mapsto> t)\<rparr>)" (is "world_ok ?w")
proof -
  note W = world_okD [OF ok] and C = startThread_Inr [OF start]
  let ?n = "unat (totalNumOfThread (pr_counts (w_process w)))"
  have new: "?n \<notin> dom (w_running w)" "?n \<noteq> 0" using W(4) by (auto simp: threads_ok_def)
  have idx: "unat (runningThreadIndex (th_local t)) = ?n" by (simp add: C(3))
  have "card (insert ?n (dom (w_running w)) - {0}) = card (dom (w_running w) - {0}) + 1"
    using new threads_ok_finite [OF W(4)] by (simp add: insert_Diff_if)
  with run(1) have u: "w_created ?w + w_ended ?w + card (dom (w_running ?w) - {0}) = unjoined_threads w"
    by (simp add: idx unjoined_threads_def)
  have n: "unat (totalNumOfThread (pr_counts pr)) = ?n + 1"
    using C(4) by (simp add: C(2) unat_add_bound config)
  have t: "threads_ok (?n + 1) ((w_running w)(?n \<mapsto> t))"
    using threads_ok_mono [OF W(4), of "?n + 1"] C(5,6) run(2) idx by (auto simp: threads_ok_def)
  have apart: "dom (w_lengths w) \<inter> insert ?n (dom (w_running w)) = {}"
    using W(5,6) by (auto simp: cells_hold_def)
  show ?thesis
    using W C(1,4) t cells_hold_mono [OF W(5), of "?n + 1"] apart
    by (intro world_okI [OF u, of "?n + 1"]) (simp_all add: n idx, simp_all add: C(2))
qed

lemma exit_ok:
  assumes ok: "world_ok w" and run: "w_running w i = Some t" "i \<noteq> 0" "outsideStartCycle (th_predict t) < now"
      "measured now t \<noteq> 0"
    and exit: "threadExit fuel junk now (t, w_process w) = Some (Inr (t', pr))"
    and repl: "threadReplacedCycle (pr_predictor pr) ! i \<noteq> 0"
  shows "world_ok (w\<lparr>w_process := pr, w_running := (w_running w)(i := None), w_ended := w_ended w + 1,
        w_lengths := (w_lengths w)(i \<mapsto> measured now t)\<rparr>)" (is "world_ok ?w")
proof -
  note W = world_okD [OF ok] and T = thread_facts [OF world_okD(4) [OF ok] run(1)]
  let ?n = "unat (totalNumOfThread (pr_counts (w_process w)))" and ?len = "measured now t"
  obtain pr0 t1 pr1 where e: "predict_thread_end now (t, pr0) = Inr (t1, pr1)"
    and s: "pr_counts pr0 = pr_counts (w_process w)" "pr_predictor pr0 = pr_predictor (w_process w)"
      "pr_counts pr = pr_counts pr1" "pr_predictor pr = pr_predictor pr1"
    using threadExit_Inr [OF exit] by blast
  note E = predict_thread_end_Inr [OF e T(1), unfolded s(1,2), folded s(3,4)]
  have i: "1 \<le> i" "i < ?n" "i \<in> dom (w_running w)" using run(1,2) T(4) by auto
  have "card (dom (w_running w) - {0}) = card (dom (w_running w) - {i} - {0}) + 1"
  proof -
    have "dom (w_running w) - {0} = insert i (dom (w_running w) - {i} - {0})" using i(3) run(2) by auto
    moreover have "finite (dom (w_running w) - {i} - {0})" using threads_ok_finite [OF W(4)] by simp
    ultimately show ?thesis by (metis Suc_eq_plus1 card_insert_disjoint Diff_iff insertI1)
  qed
  then have u: "w_created ?w + w_ended ?w + card (dom (w_running ?w) - {0}) = unjoined_threads w"
    by (simp add: unjoined_threads_def)
  have none: "w_lengths w i = None" using W(6) i(3) by auto
  have len: "outsideCycle (outsideCyclesStop now (th_predict t)) = ?len" "?len \<noteq> 0"
    using outsideCyclesStop_running [OF run(3) T(2)] run(4) by (simp_all add: measured_def)
  have old: "threadCycle (pr_predictor (w_process w)) ! i = 0"
    using W(3,5) i none by (auto simp: cells_hold_def)
  have "cells_hold ?n ((w_lengths w)(i \<mapsto> ?len)) (pr_predictor pr)"
    using W(5) i(1,2) E(5-7) repl len old
    by (auto simp: cells_hold_def nth_list_update split: if_splits)
  moreover have "threads_ok ?n ((w_running w)(i := None))" using W(4) run(2) by (auto simp: threads_ok_def)
  moreover have "unjoined_threads w \<noteq> 0"
    using only_main [OF W(4) _ run(1)] run(2) by (auto simp: unjoined_threads_def)
  moreover have "dom ((w_lengths w)(i \<mapsto> ?len)) \<inter> dom ((w_running w)(i := None)) = {}" using W(6) by auto
  ultimately show ?thesis
    using W E(1,3) by (intro world_okI [OF u, of ?n]) simp_all
qed

lemma join_ok:
  assumes ok: "world_ok w" and run: "w_running w i = Some t" "0 < w_ended w"
      "outsideStartCycle (th_predict t) < stop" "start \<noteq> 0"
    and join: "thread_join stop start 0 (t, w_process w) = Inr (r, t', pr)"
  defines "w' \<equiv> w\<lparr>w_process := pr, w_running := (w_running w)(i \<mapsto> t'), w_ended := w_ended w - 1\<rparr>"
  shows "unjoined_threads w \<noteq> 1 \<Longrightarrow> world_ok w'"
    and "unjoined_threads w = 1 \<Longrightarrow>
      world_ok (w'\<lparr>w_lengths := Map.empty, w_parallel := w_parallel w + stage_length (w_lengths w)\<rparr>)"
proof -
  note W = world_okD [OF ok] and T = thread_facts [OF world_okD(4) [OF ok] run(1)] and C = thread_join_Inr [OF join]
  let ?n = "unat (totalNumOfThread (pr_counts (w_process w)))"
  have pos: "0 < unjoined_threads w" using run(2) by (simp add: unjoined_threads_def)
  note N = count_after_join [OF W(1) pos]
  have n: "totalNumOfThread (subARunningThread g) = totalNumOfThread g" for g
    by (simp add: subARunningThread_def)
  have u: "w_created w' + w_ended w' + card (dom (w_running w') - {0}) = unjoined_threads w - 1"
    using run(2) by (simp add: w'_def unjoined_threads_def T(3))
  have apart: "dom (w_lengths w) \<inter> insert i (dom (w_running w)) = {}" using W(6) by (simp add: T(3))
  show "world_ok w'" if "unjoined_threads w \<noteq> 1"
  proof -
    have e: "t' = t" "pr_predictor pr = pr_predictor (w_process w)" using C(3) N(2) that by auto
    have "threads_ok ?n ((w_running w)(i \<mapsto> t))" using threads_ok_update [OF W(4) run(1) T(1,2)] .
    with W N(1) that pos apart show ?thesis
      by (intro world_okI [OF u, of ?n]) (simp_all add: w'_def e C(1) n)
  qed
  show "world_ok (w'\<lparr>w_lengths := Map.empty, w_parallel := w_parallel w + stage_length (w_lengths w)\<rparr>)"
    (is "world_ok ?w") if one: "unjoined_threads w = 1"
  proof -
    have i: "i = 0" using only_main [OF W(4) _ run(1)] one run(2) by (auto simp: unjoined_threads_def)
    obtain t1 pr1 pt where e: "predict_thread_end stop (t, set_counts subARunningThread (w_process w)) = Inr (t1, pr1)"
      and s: "stopParallel (subARunningThread (pr_counts (w_process w))) (pr_predictor pr1, th_predict t1)
          = Inr (pr_predictor pr, pt)" and t': "th_predict t' = outsideCycleStart start pt"
      using C(4) N(2) one by auto
    have c: "pr_predictor (set_counts f q) = pr_predictor q" for f q by (simp add: set_counts_def)
    note E = predict_thread_end_Inr [OF e T(1), unfolded c i]
    have n1: "1 \<le> ?n" using W(4) by (auto simp: threads_ok_def)
    note S = stopParallel_Inr [OF s, unfolded n, OF n1]
    have hold: "cells_hold ?n (w_lengths w) (pr_predictor pr1)"
      using W(5) E(5-7) by (auto simp: cells_hold_def nth_list_update)
    have "cells_hold ?n Map.empty (pr_predictor pr)"
      using W(3) hold by (intro cells_hold_clean [OF hold W(3) S(3)]) (simp add: S(4) cells_hold_def)
    moreover have "threads_ok ?n ((w_running w)(i \<mapsto> t'))"
      using threads_ok_update [OF W(4) run(1)] T(1) C(2) t' S(2) run(4) by simp
    moreover have "criticalCycle (pr_predictor pr) = w_serial w + (w_parallel w + stage_length (w_lengths w))"
      using S(1) E(3) W(8) stage_length_longest [OF hold W(3)] by simp
    ultimately show ?thesis using W N(1) one
      by (intro world_okI [of ?w "unjoined_threads w - 1" ?n]) (use u in \<open>simp_all add: w'_def C(1) n\<close>)
  qed
qed

lemma work_ok:
  assumes ok: "world_ok w" and run: "w_running w i = Some t" and work: "own_work (t, w_process w) (t', pr)"
  shows "world_ok (w\<lparr>w_process := pr, w_running := (w_running w)(i \<mapsto> t')\<rparr>)" (is "world_ok ?w")
proof -
  note W = world_okD [OF ok] and T = thread_facts [OF world_okD(4) [OF ok] run]
  have u: "w_created ?w + w_ended ?w + card (dom (w_running ?w) - {0}) = unjoined_threads w"
    by (simp add: unjoined_threads_def T(3))
  have t: "threads_ok (unat (totalNumOfThread (pr_counts (w_process w)))) ((w_running w)(i \<mapsto> t'))"
    using threads_ok_update [OF W(4) run] T(1,2) work by (simp add: own_work_def)
  have apart: "dom (w_lengths w) \<inter> insert i (dom (w_running w)) = {}" using W(6) by (simp add: T(3))
  show ?thesis using W work t apart
    by (intro world_okI [OF u, of "unat (totalNumOfThread (pr_counts (w_process w)))"]) (simp_all add: own_work_def)
qed

lemma sample_signal_Inr:
  assumes "sample_signal hup stop start junk (t, p) = Some (Inr (t', p'))"
  shows "pf_counts p' = pf_counts p" "pf_predictor p' = pf_predictor p"
    "runningThreadIndex (th_local t') = runningThreadIndex (th_local t)"
    "th_predict t' = th_predict t \<or> th_predict t' = outsideCycleStart start (outsideCyclesStop stop (th_predict t))"
proof -
  obtain sp pt fs sm where h: "sampleHandler hup stop start junk (runningThreadIndex (th_local t))
        (th_sampling t, th_predict t, samples_of (t, p)) = Some (Inr (sp, pt, (fs, sm)))"
    and s': "(t', p') = set_samples sp (fs, sm) (t\<lparr>th_predict := pt\<rparr>, p)"
    using assms by (auto simp: sample_signal_def bindR_Inr_iff)
  from s' show "pf_counts p' = pf_counts p" "pf_predictor p' = pf_predictor p"
    "runningThreadIndex (th_local t') = runningThreadIndex (th_local t)"
    by (simp_all add: set_samples_def)
  from s' sampleHandler_predictor [OF h]
  show "th_predict t' = th_predict t \<or> th_predict t' = outsideCycleStart start (outsideCyclesStop stop (th_predict t))"
    by (simp add: set_samples_def)
qed

lemma signal_ok:
  assumes ok: "world_ok w" and run: "w_running w i = Some t" and start: "start \<noteq> 0"
    and sig: "sample_signal hup stop start junk (t, pr_shared (w_process w)) = Some (Inr (t', p))"
  shows "world_ok (w\<lparr>w_process := (w_process w)\<lparr>pr_shared := p\<rparr>, w_running := (w_running w)(i \<mapsto> t')\<rparr>)" (is "world_ok ?w")
proof -
  note W = world_okD [OF ok] and T = thread_facts [OF world_okD(4) [OF ok] run] and S = sample_signal_Inr [OF sig]
  have u: "w_created ?w + w_ended ?w + card (dom (w_running ?w) - {0}) = unjoined_threads w"
    by (simp add: unjoined_threads_def T(3))
  have "outsideStartCycle (th_predict t') \<noteq> 0" using S(4) T(2) start by auto
  then have t: "threads_ok (unat (totalNumOfThread (pr_counts (w_process w)))) ((w_running w)(i \<mapsto> t'))"
    using threads_ok_update [OF W(4) run] T(1) S(3) by simp
  have apart: "dom (w_lengths w) \<inter> insert i (dom (w_running w)) = {}" using W(6) by (simp add: T(3))
  show ?thesis using W t apart S(1,2)
    by (intro world_okI [OF u, of "unat (totalNumOfThread (pr_counts (w_process w)))"]) simp_all
qed

lemma world_step_ok: "world_step w w' \<Longrightarrow> world_ok w \<Longrightarrow> world_ok w'"
proof (induction rule: world_step.induct)
  case (step_join w i t stop start r t' pr)
  from join_ok [OF step_join(6,1-5)] show ?case by simp
qed (blast intro: create_ok start_ok exit_ok work_ok signal_ok)+

lemma world_steps_ok: "world_step\<^sup>*\<^sup>* w w' \<Longrightarrow> world_ok w \<Longrightarrow> world_ok w'"
  by (induction rule: rtranclp_induct) (auto dest: world_step_ok)

section \<open>Allocating is a thread's own work\<close>

lemma keeps_yymalloc:
  assumes "yymalloc sz m rx s = Inr (a, call, s')"
  shows "\<exists>sp. keeps_measurement s ((fst s')\<lparr>th_sampling := sp\<rparr>, snd s')"
proof -
  obtain t p where s: "s = (t, p)" by (cases s)
  have same: "\<exists>sp. keeps_measurement s ((fst s1)\<lparr>th_sampling := sp\<rparr>, snd s1)" if "keeps_measurement s s1" for s1
    using that by (intro exI [of _ "th_sampling (fst s)"]) (simp add: keeps_measurement_def)
  consider "s' = s" | "s' = snd (profiler_malloc sz s)"
    | call where "pass_through m rx s (RealMalloc sz) = Inr (a, call, s')"
    | al s1 where "tracked_allocation MALLOC sz m rx (t\<lparr>th_alloc := al\<rparr>, p) = Inr s1"
      "s' = s1 \<or> init_sampling m s1 = Inr s'"
    using assms by (auto simp: yymalloc_def s bindR_Inr_iff Let_def simp del: split_paired_Ex split: if_splits prod.splits)
  then show ?thesis
  proof cases
    case 3
    then show ?thesis by (intro same) (auto simp: pass_through_def bindR_Inr_iff dest: keeps_inner_steps)
  next
    case (4 al s1)
    from keeps_tracked [OF this(1)] have "keeps_measurement s s1" by (simp add: s)
    moreover have "(fst s')\<lparr>th_sampling := sp\<rparr> = (fst s1)\<lparr>th_sampling := sp\<rparr> \<and> snd s' = snd s1" for sp
      using 4(2) by (auto simp: init_sampling_def bindR_Inr_iff)
    ultimately show ?thesis using same by metis
  qed (auto intro!: same simp: profiler_malloc_def keeps_measurement_def set_memory_def split: prod.splits)
qed

text \<open>So a \<open>malloc\<close> of a running thread is one of the steps.\<close>

lemma malloc_step:
  assumes "w_running w i = Some t" and "yymalloc sz m rx (t, pr_shared (w_process w)) = Inr (a, call, (t', p))"
  shows "world_step w (w\<lparr>w_process := (w_process w)\<lparr>pr_shared := p\<rparr>, w_running := (w_running w)(i \<mapsto> t')\<rparr>)"
  using keeps_yymalloc [OF assms(2)]
  by (intro step_work [OF assms(1)]) (auto simp: own_work_def keeps_measurement_def)

section \<open>Properties\<close>

text \<open>
  C2: the critical path. In every state a process can reach by creating, starting, ending and joining
  threads in any order, with any allocations and samples in between, the running count is one more than the threads
  not joined, the program counts as parallel exactly while there are some, and the critical path is the
  measured time of the serial stages plus, for each parallel stage that is over, the longest thread of it.
\<close>

theorem critical_path_is_serial_plus_longest:
  assumes "world_ok w0" and "world_step\<^sup>*\<^sup>* w0 w"
  shows "criticalCycle (pr_predictor (w_process w)) = w_serial w + w_parallel w
    \<and> unat (totalNumOfRunningThread (pr_counts (w_process w))) = unjoined_threads w + 1
    \<and> (isCurrentlyParallelThread (pr_counts (w_process w)) \<longleftrightarrow> 0 < unjoined_threads w)"
proof -
  note W = world_okD [OF world_steps_ok [OF assms(2,1)]]
  from W(1) have "isCurrentlyParallelThread (pr_counts (w_process w)) \<longleftrightarrow> 0 < unjoined_threads w"
    by (simp add: isCurrentlyParallelThread_def word_less_nat_alt)
  with W(1,8) show ?thesis by blast
qed

text \<open>One thread, which has started its measurement at 1000, and room for a second one.\<close>

definition sample_world :: World where
  "sample_world = \<lparr>
    w_process = \<lparr>pr_shared = sample_profiler\<lparr>pf_objTable := sample_objtable\<lparr>ot_memory := sample_memory
        \<lparr>threadLocalProfilerHashMemory := replicate 2 (hd (threadLocalProfilerHashMemory sample_memory))\<rparr>\<rparr>\<rparr>,
      pr_threads = replicate 1024 0\<rparr>,
    w_running = [0 \<mapsto> sample_thread\<lparr>th_predict := PredictorThread_zero\<lparr>outsideStartCycle := 1000\<rparr>\<rparr>],
    w_created = 0, w_ended = 0, w_serial = 0, w_lengths = Map.empty, w_parallel = 0\<rparr>"

lemma sample_world_ok: "world_ok sample_world"
  by (intro world_okI [of _ 0 1])
    (simp_all add: sample_world_def sample_profiler_def threads_ok_def sample_thread_def ThreadLocalStatus_zero_def
      PredictorThread_zero_def cells_hold_def Predictor_zero_def config)

text \<open>Its run: it creates a thread at 1500, which works from 2000 to 2600 and is joined.\<close>

lemma no_replacement: "add_replaced_cost (replicate 24 0) num acc = acc"
proof -
  have "n \<le> 24 \<Longrightarrow> for_loop n (\<lambda>i acc. if replicate 24 (0 :: u64) ! i \<noteq> 0
      then acc + ucast (num ! i) * replicate 24 0 ! i else acc) acc = acc" for n
    by (induction n) (simp_all add: for_loop_Suc)
  from this [of 24] show ?thesis by (simp add: add_replaced_cost_def config)
qed

lemma sample_create:
  "\<exists>t pr. thread_create 77 88 99 1500 1510 0 (the (w_running sample_world 0), w_process sample_world)
      = Inr (0, \<lparr>child_thread = 77, child_startRoutine = 88, child_startArg = 99\<rparr>, t, pr)
    \<and> outsideStartCycle (th_predict t) = 1510 \<and> th_local t = th_local sample_thread
    \<and> pf_counts (pr_shared pr) = \<lparr>totalNumOfThread = 1, totalNumOfRunningThread = 2\<rparr>
    \<and> pr_threads pr = replicate 1024 0
    \<and> length (threadLocalProfilerHashMemory (pf_memory (pr_shared pr))) = 2
    \<and> replacedFunctionCycles (pf_predictor (pr_shared pr)) = replicate 24 0
    \<and> pf_globalLocks (pr_shared pr) = one_entry (DetailLockData_newDetailLockData MUTEX)
    \<and> length (threadReplacedCycle (pf_predictor (pr_shared pr))) = 1024
    \<and> length (threadCycle (pf_predictor (pr_shared pr))) = 1024
    \<and> threadReplacedCycle (pf_predictor (pr_shared pr)) ! 1 = 0
    \<and> threadCycle (pf_predictor (pr_shared pr)) ! 1 = 0"
  by (simp add: sample_world_def sample_profiler_def sample_thread_def thread_create_def set_counts_def addARunningThread_def
      fromSerialToParallel_def serial_stage_ends_def predictor_step_def outsideCyclesStop_def PredictorThread_zero_def
      stopSerial_def cleanStageData_def Predictor_zero_def config no_replacement MyMalloc_xthreadMalloc_def
      XThreadMemory_malloc_def sample_memory_def set_memory_def outsideCycleStart_def clear_counters_def Let_def zero_prefix_def nth_append)


abbreviation sample_locks :: lock_table where
  "sample_locks \<equiv> one_entry (DetailLockData_newDetailLockData MUTEX)"

lemma sample_start:
  assumes "pf_counts (pr_shared pr) = \<lparr>totalNumOfThread = 1, totalNumOfRunningThread = 2\<rparr>"
    and "length (pr_threads pr) = 1024" and "length (threadLocalProfilerHashMemory (pf_memory (pr_shared pr))) = 2"
  shows "\<exists>t pr'. startThread True 0x7ffc00000000 0x7e0000000000 0 sample_pmu 2000 child sample_locks pr = Inr (t, pr')
    \<and> runningThreadIndex (th_local t) = 1 \<and> th_locks t = sample_locks \<and> th_sampling t = sample_ready
    \<and> outsideStartCycle (th_predict t) = 2000 \<and> outsideCycle (th_predict t) = 0 \<and> totalFunctionCycles (th_predict t) = 0
    \<and> pf_counts (pr_shared pr') = \<lparr>totalNumOfThread = 2, totalNumOfRunningThread = 2\<rparr>
    \<and> pf_predictor (pr_shared pr') = pf_predictor (pr_shared pr)
    \<and> pf_globalLocks (pr_shared pr') = pf_globalLocks (pr_shared pr)
    \<and> length (pr_threads pr') = 1024 \<and> length (threadLocalProfilerHashMemory (pf_memory (pr_shared pr'))) = 2"
proof -
  have "HashMap_initialize 0 hashAddr compareAddr 512 sample_locks = sample_locks"
    by (simp add: HashMap_initialize_def one_entry_def)
  then show ?thesis using assms
    by (simp add: startThread_def Thread_zero_def getARunningThreadIndex_def setStackBottom_def set_handle_def
        set_counts_def thread_slot_def ThreadLocalStatus_zero_def config MyMalloc_initializeForThreadLocalHashMemory_def
        threadInit_def clear_counters_def outsideCycleStart_def set_memory_def Let_def sample_pmu_works)
qed

lemma sample_globalize: "\<exists>gm. globalize 1 tid ts sample_locks g (sample_locks, mm) = Some (Inr (globalize_counters ts g, gm, mm))"
proof -
  have "iterate sample_locks 1 (HashMap_begin sample_locks) = Some [0x2000]"
    using iterate_begin [OF one_entry_rep, of "DetailLockData_newDetailLockData MUTEX" 1] by (simp add: one_entry_def nbuckets_def)
  moreover have "HashMap_find sample_locks 7 = Inr (Some 0x2000)" "hm_key sample_locks 0x2000 = 7"
    using HashMap_find_rep [OF one_entry_rep, of "DetailLockData_newDetailLockData MUTEX" 7] by (simp_all add: one_entry_def)
  ultimately show ?thesis by (simp add: globalize_def globalize_lock_def)
qed

lemma sample_exit:
  assumes "runningThreadIndex (th_local t) = 1" "th_locks t = sample_locks" "th_sampling t = sample_ready"
    "outsideStartCycle (th_predict t) = 2000" "outsideCycle (th_predict t) = 0" "totalFunctionCycles (th_predict t) = 0"
    "length (pr_threads pr) = 1024" "length (threadLocalProfilerHashMemory (pf_memory (pr_shared pr))) = 2"
    "replacedFunctionCycles (pf_predictor (pr_shared pr)) = replicate 24 0"
    "pf_globalLocks (pr_shared pr) = sample_locks" "threadReplacedCycle (pf_predictor (pr_shared pr)) ! 1 = 0"
    "threadCycle (pf_predictor (pr_shared pr)) ! 1 = 0" "length (threadReplacedCycle (pf_predictor (pr_shared pr))) = 1024"
    "length (threadCycle (pf_predictor (pr_shared pr))) = 1024"
  shows "\<exists>t' pr'. threadExit 1 0 2600 (t, pr) = Some (Inr (t', pr'))
    \<and> threadReplacedCycle (pf_predictor (pr_shared pr')) ! 1 = 600 \<and> pr_counts pr' = pr_counts pr"
proof -
  obtain t1 pr1 where e: "bindR (set_handle (th_local t) 0 pr) (\<lambda>pr. predict_thread_end 2600 (t, pr)) = Inr (t1, pr1)"
    and E: "runningThreadIndex (th_local t1) = 1" "th_locks t1 = sample_locks" "th_sampling t1 = sample_ready"
      "length (threadLocalProfilerHashMemory (pf_memory (pr_shared pr1))) = 2" "pf_globalLocks (pr_shared pr1) = sample_locks"
      "threadReplacedCycle (pr_predictor pr1) ! 1 = 600" "pr_counts pr1 = pr_counts pr"
    using assms
    by (simp add: set_handle_def thread_slot_def predict_thread_end_def predictor_step_def outsideCyclesStop_def
        threadEnd_def config no_replacement Let_def)
  obtain sp where "stopSampling 0 1 sample_ready (samples_of (t1, pr_shared pr1)) = Some (Inr (sp, samples_of (t1, pr_shared pr1)))"
    using sample_ready_stop by blast
  then have st: "stop_samples 0 (t1, pr1) = Some (Inr (t1\<lparr>th_sampling := sp\<rparr>, pr1))"
    using E(1,3) by (simp add: stop_samples_def stop_sampling_def set_samples_def samples_of_def)
  let ?p = "pr_shared pr1"
  obtain gm where "globalize 1 1 (th_local t1) sample_locks (pf_global ?p) (sample_locks, pf_memory ?p)
      = Some (Inr (globalize_counters (th_local t1) (pf_global ?p), gm, pf_memory ?p))"
    using sample_globalize by blast
  then have "globalize_thread 1 (t1\<lparr>th_sampling := sp\<rparr>) pr1 = Some (Inr (pr1\<lparr>pr_shared := (set_memory (pf_memory ?p) ?p)
      \<lparr>pf_global := globalize_counters (th_local t1) (pf_global ?p), pf_globalLocks := gm\<rparr>\<rparr>))"
    using E(1,2,5) by (simp add: globalize_thread_def thread_slot_def config Let_def)
  then show ?thesis using E st
    unfolding threadExit_def prod.case e bindO_simps
    by (simp add: finalize_memory_def thread_slot_def config MyMalloc_finalizeForThreadLocalHashMemory_def
        set_memory_def Let_def)
qed

lemma sample_join:
  assumes "runningThreadIndex (th_local t) = 0"
    and "pf_counts (pr_shared pr) = \<lparr>totalNumOfThread = 2, totalNumOfRunningThread = 2\<rparr>"
  shows "\<exists>t' pr'. thread_join 3000 3010 0 (t, pr) = Inr (0, t', pr')"
  using assms
  by (auto simp: thread_join_def set_counts_def subARunningThread_def fromParallelToSerial_def parallel_stage_ends_def
      predict_thread_end_def predictor_step_def threadEnd_def thread_slot_def config stopParallel_def cleanStageData_def
      Let_def split: prod.splits)

theorem critical_path_is_serial_plus_longest_witness:
  "\<exists>w. world_step\<^sup>*\<^sup>* sample_world w \<and> criticalCycle (pr_predictor (w_process w)) = 1100
    \<and> totalNumOfThread (pr_counts (w_process w)) = 2 \<and> \<not> isCurrentlyParallelThread (pr_counts (w_process w))"
proof -
  let ?w0 = sample_world
  have t0: "w_running ?w0 0 = Some (the (w_running ?w0 0))" "unjoined_threads ?w0 = 0"
      "outsideStartCycle (th_predict (the (w_running ?w0 0))) = 1000" "w_created ?w0 = 0" "w_ended ?w0 = 0"
      "w_serial ?w0 = 0" "w_parallel ?w0 = 0" "w_lengths ?w0 = Map.empty" "dom (w_running ?w0) = {0}"
    by (simp_all add: sample_world_def unjoined_threads_def)
  have m0: "measured 1500 (the (w_running ?w0 0)) = 500"
    by (simp add: sample_world_def measured_def PredictorThread_zero_def)
  obtain t1 p1 where c: "thread_create 77 88 99 1500 1510 0 (the (w_running ?w0 0), w_process ?w0)
      = Inr (0, \<lparr>child_thread = 77, child_startRoutine = 88, child_startArg = 99\<rparr>, t1, p1)"
    and c1: "outsideStartCycle (th_predict t1) = 1510" "th_local t1 = th_local sample_thread"
      "pf_counts (pr_shared p1) = \<lparr>totalNumOfThread = 1, totalNumOfRunningThread = 2\<rparr>" "pr_threads p1 = replicate 1024 0"
      "length (threadLocalProfilerHashMemory (pf_memory (pr_shared p1))) = 2"
      "replacedFunctionCycles (pf_predictor (pr_shared p1)) = replicate 24 0"
      "pf_globalLocks (pr_shared p1) = sample_locks"
      "length (threadReplacedCycle (pf_predictor (pr_shared p1))) = 1024"
      "length (threadCycle (pf_predictor (pr_shared p1))) = 1024"
      "threadReplacedCycle (pf_predictor (pr_shared p1)) ! 1 = 0" "threadCycle (pf_predictor (pr_shared p1)) ! 1 = 0"
    using sample_create by blast
  define w1 where "w1 = ?w0\<lparr>w_process := p1, w_running := (w_running ?w0)(0 \<mapsto> t1), w_created := 1, w_serial := 500\<rparr>"
  have s1: "world_step ?w0 w1"
    using step_create [OF t0(1) _ _ _ c] t0 m0 by (simp add: w1_def)
  obtain t2 p2 where d: "startThread True 0x7ffc00000000 0x7e0000000000 0 sample_pmu 2000
      \<lparr>child_thread = 77, child_startRoutine = 88, child_startArg = 99\<rparr> sample_locks p1 = Inr (t2, p2)"
    and d1: "runningThreadIndex (th_local t2) = 1" "th_locks t2 = sample_locks" "th_sampling t2 = sample_ready"
      "outsideStartCycle (th_predict t2) = 2000" "outsideCycle (th_predict t2) = 0" "totalFunctionCycles (th_predict t2) = 0"
      "pf_counts (pr_shared p2) = \<lparr>totalNumOfThread = 2, totalNumOfRunningThread = 2\<rparr>"
      "pf_predictor (pr_shared p2) = pf_predictor (pr_shared p1)" "pf_globalLocks (pr_shared p2) = pf_globalLocks (pr_shared p1)"
      "length (pr_threads p2) = 1024" "length (threadLocalProfilerHashMemory (pf_memory (pr_shared p2))) = 2"
    using sample_start [OF c1(3) _ c1(5)] c1(4) by fastforce
  define w2 where "w2 = w1\<lparr>w_process := p2, w_created := 0, w_running := (w_running w1)(1 \<mapsto> t2)\<rparr>"
  have w1: "w_process w1 = p1" by (simp add: w1_def)
  have s2: "world_step w1 w2"
    using step_start [of w1, OF _ _ d [folded w1]] d1(1) by (simp add: w1_def w2_def)
  obtain t3 p3 where e: "threadExit 1 0 2600 (t2, p2) = Some (Inr (t3, p3))" "threadReplacedCycle (pr_predictor p3) ! 1 = 600"
      "pr_counts p3 = pr_counts p2"
    using sample_exit [OF d1(1-6) d1(10,11)] c1(6-11) d1(8,9) by auto
  define w3 where "w3 = w2\<lparr>w_process := p3, w_running := (w_running w2)(1 := None), w_ended := 1, w_lengths := [1 \<mapsto> 600]\<rparr>"
  have s3: "world_step w2 w3"
    using step_exit [of w2 1 t2 2600 1 0 t3 p3] e d1(4,5) t0 by (simp add: w3_def w2_def w1_def measured_def)
  have t3: "w_running w3 0 = Some t1" "w_process w3 = p3" by (simp_all add: w3_def w2_def w1_def)
  have u3: "unjoined_threads w3 = 1" "w_ended w3 = 1" "w_serial w3 = 500" "w_parallel w3 = 0" "w_lengths w3 = [1 \<mapsto> 600]"
    using t0 by (simp_all add: unjoined_threads_def w3_def w2_def w1_def insert_Diff_if)
  obtain t4 p4 where f: "thread_join 3000 3010 0 (t1, p3) = Inr (0, t4, p4)"
    using sample_join [of t1 p3] c1(2) e(3) d1(7) by (auto simp: sample_thread_def ThreadLocalStatus_zero_def)
  define w4 where "w4 = w3\<lparr>w_process := p4, w_running := (w_running w3)(0 \<mapsto> t4), w_ended := 0,
    w_lengths := Map.empty, w_parallel := 600\<rparr>"
  have "stage_length [1 \<mapsto> 600] = 600" by (simp add: stage_length_def)
  with step_join [OF t3(1) _ _ _ f [folded t3(2)]] u3 c1(1) have s4: "world_step w3 w4" by (simp add: w4_def t3(2))
  have run: "world_step\<^sup>*\<^sup>* ?w0 w4"
    using s1 s2 s3 s4 by (meson converse_rtranclp_into_rtranclp rtranclp.rtrancl_refl)
  have "unjoined_threads w4 = 0" using u3(1,2) t3(1) by (simp add: unjoined_threads_def w4_def insert_absorb domI)
  moreover have "totalNumOfThread (pr_counts p4) = 2"
    using thread_join_Inr(1) [OF f] e(3) d1(7) by (simp add: subARunningThread_def)
  moreover have "w_serial w4 + w_parallel w4 = 1100" using u3(3) by (simp add: w4_def)
  ultimately show ?thesis
    using critical_path_is_serial_plus_longest [OF sample_world_ok run] run by (intro exI [of _ w4]) (simp add: w4_def)
qed

lemma never_negative_shift:
  "never_negative n cs \<Longrightarrow> n + 2 + length cs < 65535 \<Longrightarrow>
    never_negative (n + 1) cs \<and> unjoined (n + 1) cs = unjoined n cs + 1"
proof (induction n cs rule: never_negative.induct)
  case (2 n c cs)
  then show ?case by (cases c; cases n) auto
qed simp

text \<open>
  a failed \<open>pthread_create\<close> is never taken back. Whatever the real call returned, \<open>thread_create\<close> has
  counted the thread; from a serial program on, through any later creations and joins of at most that
  many threads, the program counts as parallel for good, so no stage ends any more.
\<close>

theorem failed_create_is_never_taken_back:
  assumes "thread_create tid fn arg stop start result (t, pr) = Inr (result, child, t', pr')"
    and "totalNumOfRunningThread (pr_counts pr) = 1" and "never_negative 0 cs" and "length cs < 65000"
  shows "isCurrentlyParallelThread (create_join cs (pr_counts pr'))
    \<and> \<not> fromParallelToSerial (create_join cs (pr_counts pr'))"
proof -
  have shift: "never_negative 1 cs" "unjoined 1 cs = unjoined 0 cs + 1"
    using never_negative_shift [OF assms(3)] assms(4) by simp_all
  have "unat (totalNumOfRunningThread (pr_counts pr')) = 1 + 1"
    by (simp add: thread_create_Inr(1) [OF assms(1)] addARunningThread_def assms(2))
  from create_join_count [OF shift(1) _ this] shift(2)
  have n: "2 \<le> unat (totalNumOfRunningThread (create_join cs (pr_counts pr')))" by simp
  then show ?thesis
    by (auto simp: isCurrentlyParallelThread_def fromParallelToSerial_def word_less_nat_alt)
qed

theorem failed_create_is_never_taken_back_witness:
  "\<exists>t pr. thread_create 77 88 99 1500 1510 11 (the (w_running sample_world 0), w_process sample_world)
      = Inr (11, \<lparr>child_thread = 77, child_startRoutine = 88, child_startArg = 99\<rparr>, t, pr)
    \<and> isCurrentlyParallelThread (create_join [True, False] (pr_counts pr))"
proof -
  obtain t pr where r: "thread_create 77 88 99 1500 1510 11 (the (w_running sample_world 0), w_process sample_world)
      = Inr (11, \<lparr>child_thread = 77, child_startRoutine = 88, child_startArg = 99\<rparr>, t, pr)"
    using sample_create by (auto simp: thread_create_def Let_def bindR_Inr_iff split: prod.splits)
  from failed_create_is_never_taken_back [OF r, of "[True, False]"] r show ?thesis
    by (auto simp: sample_world_def sample_profiler_def)
qed

lemma initPMU2_in_bounds: "initPMU2 u s \<noteq> Inl OutOfBounds"
  by (simp add: initPMU2_def setupSampling_def require_def Let_def bindR_Inl_iff)

text \<open>
  the arrays have 1024 cells, one of them for the first thread, and nothing tests the index: starting
  a thread writes out of bounds exactly when 1024 threads have had an index before it.
\<close>

theorem start_out_of_bounds_iff:
  assumes "length (pr_threads pr) = MAX_THREAD_NUMBER"
    and "length (threadLocalProfilerHashMemory (pf_memory (pr_shared pr))) = MAX_THREAD_NUMBER"
  shows "startThread True stack region buckets pmu now child locks pr = Inl OutOfBounds
    \<longleftrightarrow> MAX_THREAD_NUMBER \<le> unat (totalNumOfThread (pr_counts pr))"
proof -
  let ?ts = "(setStackBottom stack (th_local (Thread_zero locks)))\<lparr>runningThreadIndex := totalNumOfThread (pr_counts pr)\<rparr>"
  have slot: "thread_slot MAX_THREAD_NUMBER ?ts =
    (if unat (totalNumOfThread (pr_counts pr)) < MAX_THREAD_NUMBER
     then Inr (unat (totalNumOfThread (pr_counts pr))) else Inl OutOfBounds)"
  proof (cases "unat (totalNumOfThread (pr_counts pr)) < MAX_THREAD_NUMBER")
    case False
    have "thread_slot MAX_THREAD_NUMBER ?ts \<noteq> Inr i" for i
      using thread_slot_Inr [of MAX_THREAD_NUMBER ?ts i] False by (auto simp: config)
    moreover have "thread_slot n u = Inl OutOfBounds \<or> (\<exists>i. thread_slot n u = Inr i)" for n u
      by (simp add: thread_slot_def Let_def)
    ultimately show ?thesis using False by auto
  qed (use thread_slot_small [of ?ts MAX_THREAD_NUMBER] in \<open>simp add: config\<close>)
  show ?thesis
    using assms slot initPMU2_in_bounds [of pmu "th_sampling (Thread_zero locks)"]
    by (cases "initPMU2 pmu (th_sampling (Thread_zero locks))")
      (auto simp: startThread_def getARunningThreadIndex_def set_handle_def set_counts_def Let_def
        MyMalloc_initializeForThreadLocalHashMemory_def)
qed

theorem start_out_of_bounds_iff_witness:
  "\<forall>child locks. startThread True 0 0 0 sample_pmu 1 child locks
    \<lparr>pr_shared = sample_profiler\<lparr>pf_counts := \<lparr>totalNumOfThread = 1024, totalNumOfRunningThread = 3\<rparr>,
       pf_objTable := sample_objtable\<lparr>ot_memory := sample_memory
         \<lparr>threadLocalProfilerHashMemory := replicate 1024 (hd (threadLocalProfilerHashMemory sample_memory))\<rparr>\<rparr>\<rparr>,
     pr_threads = replicate 1024 0\<rparr> = Inl OutOfBounds"
  by (intro allI, subst start_out_of_bounds_iff) (simp_all add: config)

end
