(* ===== verification/SizeClasses.thy ===== *)
theory SizeClasses
  imports ProgramStatus
begin

text \<open>
  The allocator's size classes, in the version of the profiler that measures memory
  (\<^verbatim>\<open>src_temp/programstatus.cpp\<close> with \<^verbatim>\<open>MEMORY\<close> defined): the readers of the info file that tell the classes,
  and the class of a size.
\<close>

record SizeClassSizeAndIndex =
  classSizeIndex :: u16
  sc_size :: u32
  sc_classSize :: u32

text \<open>\<open>classSizes\<close> has 8270 cells.\<close>

record SizeClasses =
  sc_status :: ProgramStatus
  largeObjectAlignment :: u16
  allocatorStyleIsBibop :: bool
  numberOfClassSizes :: u16
  classSizes :: "u32 list"

definition updateValues :: "u32 \<Rightarrow> u32 \<Rightarrow> u16 \<Rightarrow> SizeClassSizeAndIndex \<Rightarrow> SizeClassSizeAndIndex" where
  "updateValues sz classSize index c = c\<lparr>sc_size := sz, sc_classSize := classSize, classSizeIndex := index\<rparr>"

section \<open>Reading the info file\<close>

definition readAllocatorStyleFromInfo :: "string \<Rightarrow> string \<Rightarrow> SizeClasses \<Rightarrow> crash + (string \<times> SizeClasses)" where
  "readAllocatorStyleFromInfo token rest p =
    (if token = ''style''
     then (case strtok (CHR '' '') rest of
             None \<Rightarrow> Inl NullPointer
           | Some (t, rest) \<Rightarrow> Inr (rest, p\<lparr>allocatorStyleIsBibop := (t = ''bibop'' @ [CHR 0x0A])\<rparr>))
     else Inr (rest, p))"

definition set_class_size :: "nat \<Rightarrow> u32 \<Rightarrow> SizeClasses \<Rightarrow> crash + SizeClasses" where
  "set_class_size i v p =
    (if i < length (classSizes p) then Inr (p\<lparr>classSizes := (classSizes p)[i := v]\<rparr>) else Inl OutOfBounds)"

fun read_class_sizes :: "nat \<Rightarrow> nat \<Rightarrow> string \<Rightarrow> SizeClasses \<Rightarrow> crash + (string \<times> SizeClasses)" where
  "read_class_sizes 0 i rest p = Inr (rest, p)"
| "read_class_sizes (Suc n) i rest p =
    bindR (read_atoi rest) (\<lambda>(v, rest). bindR (set_class_size i v p) (read_class_sizes n (Suc i) rest))"

fun fill_class_sizes :: "nat \<Rightarrow> nat \<Rightarrow> SizeClasses \<Rightarrow> crash + SizeClasses" where
  "fill_class_sizes 0 i p = Inr p"
| "fill_class_sizes (Suc n) i p =
    bindR (set_class_size i (classSizes p ! (i - 1) + 16) p) (fill_class_sizes n (Suc i))"

text \<open>The increment stands outside the test, so every line of the file adds one.\<close>

definition readAllocatorClassSizesFromInfo :: "string \<Rightarrow> string \<Rightarrow> SizeClasses \<Rightarrow> crash + (string \<times> SizeClasses)" where
  "readAllocatorClassSizesFromInfo token rest p =
    bindR
      (if token = ''class_sizes''
       then bindR (read_atoi rest) (\<lambda>(v, rest).
         let p = p\<lparr>numberOfClassSizes := ucast v\<rparr> in
         if allocatorStyleIsBibop p then read_class_sizes (unat (numberOfClassSizes p)) 0 rest p
         else bindR (set_class_size 0 24 p) (\<lambda>p.
              bindR (fill_class_sizes (unat (numberOfClassSizes p) - 1) 1 p) (\<lambda>p. Inr (rest, p))))
       else Inr (rest, p))
      (\<lambda>(rest, p). Inr (rest, p\<lparr>numberOfClassSizes := numberOfClassSizes p + 1\<rparr>))"

definition readLargeObjectAlignmentFromInfo :: "string \<Rightarrow> string \<Rightarrow> SizeClasses \<Rightarrow> crash + (string \<times> SizeClasses)" where
  "readLargeObjectAlignmentFromInfo token rest p =
    (if token = ''large_object_alignment''
     then bindR (read_atoi rest) (\<lambda>(v, rest). Inr (rest, p\<lparr>largeObjectAlignment := ucast v\<rparr>))
     else Inr (rest, p))"

definition on_status ::
  "(ProgramStatus \<Rightarrow> crash + (string \<times> ProgramStatus)) \<Rightarrow> SizeClasses \<Rightarrow> crash + (string \<times> SizeClasses)" where
  "on_status f p = bindR (f (sc_status p)) (\<lambda>(rest, s). Inr (rest, p\<lparr>sc_status := s\<rparr>))"

fun readMemoryInfoFile :: "string list \<Rightarrow> SizeClasses \<Rightarrow> crash + SizeClasses" where
  "readMemoryInfoFile [] p = Inr p"
| "readMemoryInfoFile (line # ls) p =
    (if line = [] then Inr p else
     bindR
       (case strtok (CHR '' '') line of
          None \<Rightarrow> Inr p
        | Some (token, rest) \<Rightarrow>
            bindR (readAllocatorStyleFromInfo token rest p) (\<lambda>(rest, p).
            bindR (on_status (readMiddleObjectThresholdFromInfo token rest) p) (\<lambda>(rest, p).
            bindR (readAllocatorClassSizesFromInfo token rest p) (\<lambda>(rest, p).
            bindR (on_status (readLargeObjectThresholdFromInfo token rest) p) (\<lambda>(rest, p).
            bindR (readLargeObjectAlignmentFromInfo token rest p) (\<lambda>(rest, p). Inr p))))))
       (readMemoryInfoFile ls))"

section \<open>The class of a size\<close>

text \<open>
  The cast in \<^verbatim>\<open>(bool)size%largeObjectAlignment\<close> binds before the remainder: what is tested is whether 1
  is a multiple of the alignment.
\<close>

definition large_class_size :: "u32 \<Rightarrow> u16 \<Rightarrow> crash + u32" where
  "large_class_size sz alignment =
    (let a = ucast alignment in
     if a = 0 then Inl DivisionByZero
     else Inr ((sz div a) * a + (of_bool (sz \<noteq> 0) mod a) * a))"

fun find_class :: "u32 \<Rightarrow> u32 list \<Rightarrow> nat \<Rightarrow> nat \<Rightarrow> crash + nat option" where
  "find_class sz cs i 0 = Inr None"
| "find_class sz cs i (Suc n) =
    (if i < length cs then if sz \<le> cs ! i then Inr (Some i) else find_class sz cs (Suc i) n else Inl OutOfBounds)"

text \<open>Returns the class and the thread's cache of the last answer.\<close>

definition getClassSizeAndIndex ::
  "SizeClasses \<Rightarrow> u32 \<Rightarrow> SizeClassSizeAndIndex \<Rightarrow> crash + (SizeClassSizeAndIndex \<times> SizeClassSizeAndIndex)" where
  "getClassSizeAndIndex p sz cache =
    (if sz = sc_size cache then Inr (cache, cache)
     else if sz > largeObjectThreshold (sc_status p)
     then bindR (large_class_size sz (largeObjectAlignment p)) (\<lambda>c.
            Inr (\<lparr>classSizeIndex = numberOfClassSizes p - 1, sc_size = sz, sc_classSize = c\<rparr>, cache))
     else bindR
       (if allocatorStyleIsBibop p
        then bindR (find_class sz (classSizes p) 0 (unat (numberOfClassSizes p) - 1)) (\<lambda>r.
               Inr (case r of None \<Rightarrow> (0, 0) | Some i \<Rightarrow> (of_nat i, classSizes p ! i)))
        else if sz \<le> 24 then Inr (0, 24)
        else (let i = ucast ((sz - 24) div 16 + 1) :: u16 in
              if unat i < length (classSizes p) then Inr (i, classSizes p ! unat i) else Inl OutOfBounds))
       (\<lambda>(i, c). let cache = updateValues sz c i cache in Inr (cache, cache)))"

end
