(* ===== verification/SizeClasses_Correct.thy ===== *)
theory SizeClasses_Correct
  imports SizeClasses
begin

text \<open>
  The class of a size: it always exists, with bibop it is the smallest that fits, and without it sizes
  that are classes themselves get the next one.
\<close>

section \<open>Every size has a class\<close>

text \<open>
  The info file was consistent: there is a class for large objects and room for all classes, and in
  the style without bibop the threshold stays within the classes. The class of the cached size is one
  of them.
\<close>

definition classes_ok :: "SizeClasses \<Rightarrow> bool" where
  "classes_ok p \<longleftrightarrow> 0 < numberOfClassSizes p \<and> unat (numberOfClassSizes p) \<le> length (classSizes p)
    \<and> largeObjectAlignment p \<noteq> 0
    \<and> (\<not> allocatorStyleIsBibop p \<longrightarrow>
        (unat (largeObjectThreshold (sc_status p)) - 24) div 16 + 1 < unat (numberOfClassSizes p))"

definition class_in :: "SizeClasses \<Rightarrow> SizeClassSizeAndIndex \<Rightarrow> bool" where
  "class_in p c \<longleftrightarrow> classSizeIndex c < numberOfClassSizes p"

lemma find_class_spec:
  assumes "i + n \<le> length cs"
  obtains "find_class sz cs i n = Inr None" and "\<forall>j \<in> {i..<i + n}. cs ! j < sz"
  | j where "find_class sz cs i n = Inr (Some j)" and "j \<in> {i..<i + n}" and "sz \<le> cs ! j"
    and "\<forall>l \<in> {i..<j}. cs ! l < sz"
proof -
  have "find_class sz cs i n = Inr None \<and> (\<forall>j \<in> {i..<i + n}. cs ! j < sz)
    \<or> (\<exists>j. find_class sz cs i n = Inr (Some j) \<and> j \<in> {i..<i + n} \<and> sz \<le> cs ! j \<and> (\<forall>l \<in> {i..<j}. cs ! l < sz))"
    using assms
  proof (induction n arbitrary: i)
    case (Suc n)
    show ?case
    proof (cases "sz \<le> cs ! i")
      case True
      with Suc.prems show ?thesis by (intro disjI2 exI [of _ i]) auto
    next
      case False
      have "{i..<i + Suc n} = insert i {Suc i..<Suc i + n}" by auto
      moreover have "{i..<j} = insert i {Suc i..<j}" if "Suc i \<le> j" for j using that by auto
      ultimately show ?thesis using Suc.IH [of "Suc i"] Suc.prems False by fastforce
    qed
  qed simp
  with that show thesis by blast
qed

lemma unat_ucast_32 [simp]: "unat (ucast (x :: u16) :: u32) = unat x"
  using unsigned_less [of x, where 'a = nat] by (simp add: unsigned_ucast_eq take_bit_nat_eq_self)

lemma libc_index:
  assumes "\<not> sz \<le> 24" and "sz \<le> t" and "(unat t - 24) div 16 + 1 < m" and "m < 65536"
  shows "unat (ucast ((sz - 24) div 16 + 1 :: u32) :: u16) = (unat sz - 24) div 16 + 1"
    and "(unat sz - 24) div 16 + 1 < m"
proof -
  have s: "unat (sz - 24) = unat sz - 24" using assms(1) by (subst unat_sub) auto
  have le: "(unat sz - 24) div 16 \<le> (unat t - 24) div 16"
    using assms(2) by (intro div_le_mono) (simp add: word_le_nat_alt)
  then show "(unat sz - 24) div 16 + 1 < m" using assms(3) by simp
  then have lt: "(unat sz - 24) div 16 + 1 < 65536" using assms(4) by simp
  have "unat ((sz - 24) div 16 + 1 :: u32) = (unat sz - 24) div 16 + 1"
    using lt s by (subst unat_add_bound) (simp_all add: unat_div)
  then show "unat (ucast ((sz - 24) div 16 + 1 :: u32) :: u16) = (unat sz - 24) div 16 + 1"
    using lt by (simp add: unsigned_ucast_eq take_bit_nat_eq_self)
qed

lemma getClassSizeAndIndex_ok:
  assumes ok: "classes_ok p" and cache: "class_in p cache"
  obtains c cache' where "getClassSizeAndIndex p sz cache = Inr (c, cache')" and "sc_size c = sz"
    and "class_in p c" and "class_in p cache'"
proof -
  let ?n = "numberOfClassSizes p"
  have pos: "0 < unat ?n" using ok by (simp add: classes_ok_def word_less_nat_alt)
  have n: "unat (?n - 1) = unat ?n - 1" using pos by (subst unat_sub) (simp_all add: word_le_nat_alt)
  then have less: "?n - 1 < ?n" using pos by (simp add: word_less_nat_alt)
  show thesis
  proof (cases "sz = sc_size cache")
    case True
    with cache that show thesis by (simp add: getClassSizeAndIndex_def)
  next
    case new: False
    show thesis
    proof (cases "sz > largeObjectThreshold (sc_status p)")
      case True
      have "(ucast (largeObjectAlignment p) :: u32) \<noteq> 0"
        using ok by (simp add: classes_ok_def word_unat_eq_iff)
      then obtain d where "large_class_size sz (largeObjectAlignment p) = Inr d"
        by (simp add: large_class_size_def Let_def)
      with True new less cache that [of "\<lparr>classSizeIndex = ?n - 1, sc_size = sz, sc_classSize = d\<rparr>" cache]
      show thesis by (simp add: getClassSizeAndIndex_def class_in_def)
    next
      case small: False
      show thesis
      proof (cases "allocatorStyleIsBibop p")
        case True
        have len: "0 + (unat ?n - 1) \<le> length (classSizes p)" using ok by (auto simp: classes_ok_def)
        show thesis
        proof (rule find_class_spec [OF len, of sz])
          assume "find_class sz (classSizes p) 0 (unat ?n - 1) = Inr None"
          with True new small ok show thesis
            by (intro that) (auto simp: getClassSizeAndIndex_def updateValues_def class_in_def classes_ok_def Let_def)
        next
          fix j assume j: "find_class sz (classSizes p) 0 (unat ?n - 1) = Inr (Some j)" "j \<in> {0..<0 + (unat ?n - 1)}"
          then have "unat (of_nat j :: u16) = j" using unsigned_less [of ?n, where 'a = nat] by (intro unat_of_nat_small) auto
          then have "(of_nat j :: u16) < ?n" using j(2) by (simp add: word_less_nat_alt)
          with True new small j(1) show thesis
            by (intro that) (auto simp: getClassSizeAndIndex_def updateValues_def class_in_def Let_def)
        qed
      next
        case False
        have t: "(unat (largeObjectThreshold (sc_status p)) - 24) div 16 + 1 < unat ?n" "unat ?n < 65536"
          and len: "unat ?n \<le> length (classSizes p)"
          using ok False unsigned_less [of ?n, where 'a = nat] by (auto simp: classes_ok_def)
        show thesis
        proof (cases "sz \<le> 24")
          case True
          with False new small ok show thesis
            by (intro that) (auto simp: getClassSizeAndIndex_def updateValues_def class_in_def classes_ok_def Let_def)
        next
          case large: False
          note i = libc_index [OF large _ t, OF leI [OF small]]
          then have "(ucast ((sz - 24) div 16 + 1) :: u16) < ?n" by (simp add: word_less_nat_alt)
          with False new small large i len show thesis
            by (intro that) (auto simp: getClassSizeAndIndex_def updateValues_def class_in_def Let_def)
        qed
      qed
    qed
  qed
qed

text \<open>With bibop the class found is the first whose size is large enough.\<close>

lemma bibop_class_is_smallest:
  assumes ok: "classes_ok p" and "allocatorStyleIsBibop p" and "sz \<le> largeObjectThreshold (sc_status p)"
    and "sc_size cache \<noteq> sz" and fits: "\<exists>i < unat (numberOfClassSizes p) - 1. sz \<le> classSizes p ! i"
  obtains c where "getClassSizeAndIndex p sz cache = Inr (c, c)" and "sc_size c = sz"
    and "sc_classSize c = classSizes p ! unat (classSizeIndex c)" and "sz \<le> sc_classSize c"
    and "\<forall>j < unat (classSizeIndex c). classSizes p ! j < sz"
proof -
  let ?n = "numberOfClassSizes p"
  have pos: "0 < unat ?n" using ok by (simp add: classes_ok_def word_less_nat_alt)
  have n: "unat (?n - 1) = unat ?n - 1" using pos by (subst unat_sub) (simp_all add: word_le_nat_alt)
  have len: "0 + (unat ?n - 1) \<le> length (classSizes p)" using ok by (auto simp: classes_ok_def)
  show thesis
  proof (rule find_class_spec [OF len, of sz])
    assume "\<forall>j \<in> {0..<0 + (unat ?n - 1)}. classSizes p ! j < sz"
    moreover obtain i where "i < unat ?n - 1" "sz \<le> classSizes p ! i" using fits by blast
    ultimately have False by (auto dest!: bspec [of _ _ i])
    then show thesis ..
  next
    fix j
    assume j: "find_class sz (classSizes p) 0 (unat ?n - 1) = Inr (Some j)" "j \<in> {0..<0 + (unat ?n - 1)}"
      "sz \<le> classSizes p ! j" "\<forall>l \<in> {0..<j}. classSizes p ! l < sz"
    then have "unat (of_nat j :: u16) = j" using unsigned_less [of ?n, where 'a = nat] by (intro unat_of_nat_small) auto
    let ?c = "updateValues sz (classSizes p ! j) (of_nat j) cache"
    have "\<not> sz > largeObjectThreshold (sc_status p)" "sz \<noteq> sc_size cache" using assms(3,4) by auto
    then have "getClassSizeAndIndex p sz cache = Inr (?c, ?c)"
      using assms(2) j(1) by (simp add: getClassSizeAndIndex_def Let_def n)
    then show thesis using j(3,4) \<open>unat (of_nat j :: u16) = j\<close> by (intro that [of ?c]) (simp_all add: updateValues_def)
  qed
qed

section \<open>The classes without bibop\<close>

lemma fill_class_sizes_spec:
  assumes "i + n \<le> length (classSizes p)" and "0 < i" and "\<forall>j < i. classSizes p ! j = 24 + 16 * of_nat j"
  shows "\<exists>p'. fill_class_sizes n i p = Inr p' \<and> (\<forall>j < i + n. classSizes p' ! j = 24 + 16 * of_nat j)
    \<and> p' = p\<lparr>classSizes := classSizes p'\<rparr> \<and> length (classSizes p') = length (classSizes p)"
  using assms
proof (induction n arbitrary: i p)
  case (Suc n)
  let ?p = "p\<lparr>classSizes := (classSizes p)[i := classSizes p ! (i - 1) + 16]\<rparr>"
  have "classSizes p ! (i - 1) + 16 = 24 + 16 * of_nat i"
    using Suc.prems(2,3) by (cases i) (auto simp: algebra_simps)
  then have "\<forall>j < Suc i. classSizes ?p ! j = 24 + 16 * of_nat j"
    using Suc.prems by (auto simp: less_Suc_eq nth_list_update)
  from Suc.IH [OF _ _ this] Suc.prems show ?case by (auto simp: set_class_size_def)
qed (auto intro: exI [of _ p])

lemma read_libc_classes:
  assumes "\<not> allocatorStyleIsBibop p" and "read_atoi rest = Inr (v, rest')"
    and n: "0 < unat (ucast v :: u16)" "unat (ucast v :: u16) \<le> length (classSizes p)"
  obtains p' where "readAllocatorClassSizesFromInfo ''class_sizes'' rest p = Inr (rest', p')"
    and "numberOfClassSizes p' = ucast v + 1" and "\<not> allocatorStyleIsBibop p'" and "sc_status p' = sc_status p"
    and "\<forall>i < unat (ucast v :: u16). classSizes p' ! i = 24 + 16 * of_nat i" and "length (classSizes p') = length (classSizes p)"
proof -
  let ?n = "unat (ucast v :: u16)"
  let ?p = "p\<lparr>numberOfClassSizes := ucast v, classSizes := (classSizes p)[0 := 24]\<rparr>"
  obtain q where q: "fill_class_sizes (?n - 1) 1 ?p = Inr q" "\<forall>j < ?n. classSizes q ! j = 24 + 16 * of_nat j"
    "q = ?p\<lparr>classSizes := classSizes q\<rparr>" "length (classSizes q) = length (classSizes p)"
  proof -
    have "?n = 1 + (?n - 1)" using n(1) by simp
    moreover have "\<forall>j < 1. classSizes ?p ! j = 24 + 16 * of_nat j"
      using order.strict_trans2 [OF n] by simp
    ultimately have "\<exists>q. fill_class_sizes (?n - 1) 1 ?p = Inr q \<and> (\<forall>j < ?n. classSizes q ! j = 24 + 16 * of_nat j)
        \<and> q = ?p\<lparr>classSizes := classSizes q\<rparr> \<and> length (classSizes q) = length (classSizes ?p)"
      using fill_class_sizes_spec [of 1 "?n - 1" ?p] n by simp
    then show thesis using that by (elim exE conjE) simp
  qed
  have f: "numberOfClassSizes q = ucast v" "allocatorStyleIsBibop q = allocatorStyleIsBibop p" "sc_status q = sc_status p"
    by (subst q(3), simp)+
  show thesis
    using assms(1,2) order.strict_trans2 [OF n] q f
    by (intro that [of "q\<lparr>numberOfClassSizes := numberOfClassSizes q + 1\<rparr>"])
      (simp_all add: readAllocatorClassSizesFromInfo_def Let_def set_class_size_def)
qed

section \<open>Properties\<close>

text \<open>
  without bibop the info file gives the number of classes, and they are 24, 40, 56 and so on. A size
  that is a class, other than the first, is nevertheless put into the next one, whose size is 16 more: all
  of its 16 bytes are then counted as internal fragmentation.
\<close>

theorem exact_size_gets_the_next_class:
  assumes "\<not> allocatorStyleIsBibop p" and "read_atoi rest = Inr (v, rest')"
    and "unat (ucast v :: u16) \<le> length (classSizes p)" and k: "0 < k" "k + 1 < unat (ucast v :: u16)"
    and sz: "sz = 24 + 16 * of_nat k" and "sz \<le> largeObjectThreshold (sc_status p)" and "sc_size cache \<noteq> sz"
  shows "\<exists>p'. readAllocatorClassSizesFromInfo ''class_sizes'' rest p = Inr (rest', p')
    \<and> classSizes p' ! k = sz
    \<and> (\<exists>c. getClassSizeAndIndex p' sz cache = Inr (c, c) \<and> unat (classSizeIndex c) = k + 1 \<and> sc_classSize c = sz + 16)"
proof -
  obtain p' where p': "readAllocatorClassSizesFromInfo ''class_sizes'' rest p = Inr (rest', p')"
    "\<not> allocatorStyleIsBibop p'" "sc_status p' = sc_status p"
    "\<forall>i < unat (ucast v :: u16). classSizes p' ! i = 24 + 16 * of_nat i" "length (classSizes p') = length (classSizes p)"
    using read_libc_classes [OF assms(1,2) _ assms(3)] k by auto
  have v: "unat (ucast v :: u16) < 65536" using unsigned_less [of "ucast v :: u16", where 'a = nat] by simp
  have d: "(sz - 24) div 16 = of_nat k"
  proof -
    have "unat (16 * of_nat k :: u32) = 16 * k"
      using k v by (simp add: unat_word_ariths unat_of_nat take_bit_nat_eq_self)
    then have "unat ((16 * of_nat k :: u32) div 16) = k" by (simp add: unat_div)
    then show ?thesis using k v by (simp add: sz word_unat_eq_iff unat_of_nat_small)
  qed
  have big: "\<not> sz \<le> 24"
  proof -
    have "unat sz = 24 + 16 * k" using k v by (simp add: sz unat_word_ariths unat_of_nat take_bit_nat_eq_self)
    then show ?thesis using k by (simp add: word_le_nat_alt)
  qed
  have i: "unat (ucast (of_nat k + 1 :: u32) :: u16) = k + 1"
  proof -
    have "unat (of_nat k + 1 :: u32) = k + 1" using k v by (subst unat_add_bound) (simp_all add: unat_of_nat_small)
    then show ?thesis using k v by (simp add: unsigned_ucast_eq take_bit_nat_eq_self)
  qed
  let ?c = "updateValues sz (classSizes p' ! (k + 1)) (ucast (of_nat k + 1 :: u32)) cache"
  have "getClassSizeAndIndex p' sz cache = Inr (?c, ?c)"
    using assms(7,8) k p' big i assms(3) by (auto simp: getClassSizeAndIndex_def d Let_def)
  moreover have "classSizes p' ! (k + 1) = sz + 16" using p'(4) k by (simp add: sz algebra_simps)
  moreover have "classSizes p' ! k = sz" using p'(4) k by (simp add: sz)
  ultimately show ?thesis using p'(1) i by (intro exI [of _ p']) (simp add: updateValues_def)
qed

definition sample_libc :: SizeClasses where
  "sample_libc = \<lparr>sc_status = ProgramStatus_zero\<lparr>largeObjectThreshold := 512\<rparr>, largeObjectAlignment = 4096,
    allocatorStyleIsBibop = False, numberOfClassSizes = 0, classSizes = replicate 8270 0\<rparr>"

theorem exact_size_gets_the_next_class_witness:
  "\<exists>p' c. readAllocatorClassSizesFromInfo ''class_sizes'' ''32'' sample_libc = Inr ([], p') \<and> classSizes p' ! 1 = 40
    \<and> getClassSizeAndIndex p' 40 \<lparr>classSizeIndex = 0, sc_size = 0, sc_classSize = 0\<rparr> = Inr (c, c) \<and> sc_classSize c = 56"
proof -
  have "read_atoi ''32'' = Inr (32, [])" by code_simp
  from exact_size_gets_the_next_class [of sample_libc "''32''" 32 "[]" 1 40 "\<lparr>classSizeIndex = 0, sc_size = 0, sc_classSize = 0\<rparr>", OF _ this]
  show ?thesis by (simp add: sample_libc_def ProgramStatus_zero_def) blast
qed

end
