(* ===== verification/MemoryWaste.thy ===== *)
theory MemoryWaste
  imports SizeClasses Table
begin

text \<open>
  What the allocator wastes (\<^verbatim>\<open>src_temp/memwaste.h\<close>, \<^verbatim>\<open>memwaste.cpp\<close>) and how much memory the program
  uses (\<^verbatim>\<open>memoryusage.h\<close>, \<^verbatim>\<open>memoryusage.cpp\<close>), with the memory per call site of \<^verbatim>\<open>backtrace.cpp\<close>.

  The counters are arrays with one cell per thread and size class, thread by thread; \<open>int\<close> and
  \<open>int64_t\<close> cells are words read with their sign. What a thread keeps for itself (the class of its current
  object, its cache of the last class, its memory usage) is a function of the thread's index. The call key
  is an argument: \<^verbatim>\<open>doABackTrace\<close>, which makes it, names a variable that does not exist.
\<close>

section \<open>Objects\<close>

record ObjectStatus =
  ob_allocated :: bool
  ob_mark :: bool
  ob_callKey :: u8
  ob_tid :: u16
  ob_class :: SizeClassSizeAndIndex
  ob_maxTouchedBytes :: u32

definition internalFragment :: "ObjectStatus \<Rightarrow> u64" where
  "internalFragment ob =
    (let unusedPageSize = ucast ((sc_classSize (ob_class ob) - ob_maxTouchedBytes ob) div 4096 * 4096) :: u64
     in ucast (sc_classSize (ob_class ob)) - unusedPageSize - ucast (sc_size (ob_class ob)))"

text \<open>The thread index of a new status is not initialised; every caller sets it before it is read.\<close>

definition newObjectStatus :: "SizeClassSizeAndIndex \<Rightarrow> u32 \<Rightarrow> ObjectStatus" where
  "newObjectStatus c maxTouchBytes =
    \<lparr>ob_allocated = False, ob_mark = False, ob_callKey = 0, ob_tid = 0, ob_class = c,
     ob_maxTouchedBytes = maxTouchBytes\<rparr>"

section \<open>Counters per thread and class\<close>

record MemoryWasteStatus =
  ms_internalFragment :: "u64 list"
  ms_numOfAllocatedObjects :: "u32 list"
  ms_numOfFreelistObjects :: "u32 list"
  ms_numOfNewAllocations :: "u32 list"
  ms_numOfReusedAllocations :: "u32 list"
  ms_numOfFree :: "u32 list"
  ms_blowupFlag :: "u64 list"

definition arrayIndex :: "u16 \<Rightarrow> u16 \<Rightarrow> u16 \<Rightarrow> u32" where
  "arrayIndex numberOfClasses threadIndex classIndex =
    ucast threadIndex * ucast numberOfClasses + ucast classIndex"

definition MemoryWasteStatus_initialize :: "u16 \<Rightarrow> MemoryWasteStatus" where
  "MemoryWasteStatus_initialize numberOfClasses =
    (let n = MAX_THREAD_NUMBER * unat numberOfClasses in
     \<lparr>ms_internalFragment = replicate n 0, ms_numOfAllocatedObjects = replicate n 0,
      ms_numOfFreelistObjects = replicate n 0, ms_numOfNewAllocations = replicate n 0,
      ms_numOfReusedAllocations = replicate n 0, ms_numOfFree = replicate n 0,
      ms_blowupFlag = replicate (unat numberOfClasses) 0\<rparr>)"

text \<open>A cell of an array is read and written; past the array is \<open>OutOfBounds\<close>.\<close>

definition upd_cell :: "nat \<Rightarrow> ('a \<Rightarrow> 'a) \<Rightarrow> 'a list \<Rightarrow> crash + 'a list" where
  "upd_cell i f xs = (if i < length xs then Inr (xs[i := f (xs ! i)]) else Inl OutOfBounds)"

definition add_internalFragment :: "nat \<Rightarrow> u64 \<Rightarrow> MemoryWasteStatus \<Rightarrow> crash + MemoryWasteStatus" where
  "add_internalFragment i v s =
    bindR (upd_cell i (\<lambda>x. x + v) (ms_internalFragment s)) (\<lambda>a. Inr (s\<lparr>ms_internalFragment := a\<rparr>))"

definition add_allocated :: "nat \<Rightarrow> u32 \<Rightarrow> MemoryWasteStatus \<Rightarrow> crash + MemoryWasteStatus" where
  "add_allocated i v s =
    bindR (upd_cell i (\<lambda>x. x + v) (ms_numOfAllocatedObjects s)) (\<lambda>a. Inr (s\<lparr>ms_numOfAllocatedObjects := a\<rparr>))"

definition add_freelist :: "nat \<Rightarrow> u32 \<Rightarrow> MemoryWasteStatus \<Rightarrow> crash + MemoryWasteStatus" where
  "add_freelist i v s =
    bindR (upd_cell i (\<lambda>x. x + v) (ms_numOfFreelistObjects s)) (\<lambda>a. Inr (s\<lparr>ms_numOfFreelistObjects := a\<rparr>))"

definition add_new :: "nat \<Rightarrow> MemoryWasteStatus \<Rightarrow> crash + MemoryWasteStatus" where
  "add_new i s =
    bindR (upd_cell i (\<lambda>x. x + 1) (ms_numOfNewAllocations s)) (\<lambda>a. Inr (s\<lparr>ms_numOfNewAllocations := a\<rparr>))"

definition add_reused :: "nat \<Rightarrow> MemoryWasteStatus \<Rightarrow> crash + MemoryWasteStatus" where
  "add_reused i s =
    bindR (upd_cell i (\<lambda>x. x + 1) (ms_numOfReusedAllocations s)) (\<lambda>a. Inr (s\<lparr>ms_numOfReusedAllocations := a\<rparr>))"

definition add_free :: "nat \<Rightarrow> MemoryWasteStatus \<Rightarrow> crash + MemoryWasteStatus" where
  "add_free i s =
    bindR (upd_cell i (\<lambda>x. x + 1) (ms_numOfFree s)) (\<lambda>a. Inr (s\<lparr>ms_numOfFree := a\<rparr>))"

definition upd_blowup :: "nat \<Rightarrow> (u64 \<Rightarrow> u64) \<Rightarrow> MemoryWasteStatus \<Rightarrow> crash + MemoryWasteStatus" where
  "upd_blowup i f s =
    bindR (upd_cell i f (ms_blowupFlag s)) (\<lambda>a. Inr (s\<lparr>ms_blowupFlag := a\<rparr>))"

definition cleanAbnormalValues :: "nat \<Rightarrow> u16 \<Rightarrow> MemoryWasteStatus \<Rightarrow> MemoryWasteStatus" where
  "cleanAbnormalValues totalNumOfThread numberOfClasses s =
    s\<lparr>ms_internalFragment :=
      for_loop totalNumOfThread (\<lambda>t. for_loop (unat numberOfClasses) (\<lambda>c a.
        let i = unat (arrayIndex numberOfClasses (of_nat t) (of_nat c)) in
        if 0x1000000000 <s a ! i then a[i := 0] else a)) (ms_internalFragment s)\<rparr>"

text \<open>\<open>memcpy\<close> of the first \<open>n\<close> cells.\<close>

definition copy_cells :: "nat \<Rightarrow> 'a list \<Rightarrow> 'a list \<Rightarrow> 'a list" where
  "copy_cells n new old = take n new @ drop n old"

text \<open>
  The new status is passed by value, but its arrays are shared with the caller: the cleaning changes the
  caller's arrays as well. Returns both.
\<close>

definition updateStatus ::
  "nat \<Rightarrow> u16 \<Rightarrow> MemoryWasteStatus \<Rightarrow> MemoryWasteStatus \<Rightarrow> MemoryWasteStatus \<times> MemoryWasteStatus" where
  "updateStatus totalNumOfThread numberOfClasses this newStatus =
    (let newStatus = cleanAbnormalValues totalNumOfThread numberOfClasses newStatus;
         n = totalNumOfThread * unat numberOfClasses
     in (\<lparr>ms_internalFragment = copy_cells n (ms_internalFragment newStatus) (ms_internalFragment this),
          ms_numOfAllocatedObjects = copy_cells n (ms_numOfAllocatedObjects newStatus) (ms_numOfAllocatedObjects this),
          ms_numOfFreelistObjects = copy_cells n (ms_numOfFreelistObjects newStatus) (ms_numOfFreelistObjects this),
          ms_numOfNewAllocations = copy_cells n (ms_numOfNewAllocations newStatus) (ms_numOfNewAllocations this),
          ms_numOfReusedAllocations = copy_cells n (ms_numOfReusedAllocations newStatus) (ms_numOfReusedAllocations this),
          ms_numOfFree = copy_cells n (ms_numOfFree newStatus) (ms_numOfFree this),
          ms_blowupFlag = copy_cells (unat numberOfClasses) (ms_blowupFlag newStatus) (ms_blowupFlag this)\<rparr>,
         newStatus))"

section \<open>Counters per class and totals\<close>

record MemoryWasteGlobalStatus =
  mg_internalFragment :: "u64 list"
  mg_numOfAllocatedObjects :: "u32 list"
  mg_numOfFreelistObjects :: "u32 list"
  mg_numOfNewAllocations :: "u32 list"
  mg_numOfReusedAllocations :: "u32 list"
  mg_numOfFree :: "u32 list"
  mg_memoryBlowup :: "u64 list"

definition MemoryWasteGlobalStatus_initialize :: "u16 \<Rightarrow> MemoryWasteGlobalStatus" where
  "MemoryWasteGlobalStatus_initialize numberOfClasses =
    (let n = unat numberOfClasses in
     \<lparr>mg_internalFragment = replicate n 0, mg_numOfAllocatedObjects = replicate n 0,
      mg_numOfFreelistObjects = replicate n 0, mg_numOfNewAllocations = replicate n 0,
      mg_numOfReusedAllocations = replicate n 0, mg_numOfFree = replicate n 0,
      mg_memoryBlowup = replicate n 0\<rparr>)"

definition globalize_class ::
  "u16 \<Rightarrow> MemoryWasteStatus \<Rightarrow> nat \<Rightarrow> nat \<Rightarrow> MemoryWasteGlobalStatus \<Rightarrow> MemoryWasteGlobalStatus" where
  "globalize_class numberOfClasses rs t c g =
    (let i = unat (arrayIndex numberOfClasses (of_nat t) (of_nat c)) in
     g\<lparr>mg_internalFragment := (mg_internalFragment g)[c := mg_internalFragment g ! c + ms_internalFragment rs ! i],
       mg_numOfAllocatedObjects := (mg_numOfAllocatedObjects g)[c := mg_numOfAllocatedObjects g ! c + ms_numOfAllocatedObjects rs ! i],
       mg_numOfFreelistObjects := (mg_numOfFreelistObjects g)[c := mg_numOfFreelistObjects g ! c + ms_numOfFreelistObjects rs ! i],
       mg_numOfNewAllocations := (mg_numOfNewAllocations g)[c := mg_numOfNewAllocations g ! c + ms_numOfNewAllocations rs ! i],
       mg_numOfReusedAllocations := (mg_numOfReusedAllocations g)[c := mg_numOfReusedAllocations g ! c + ms_numOfReusedAllocations rs ! i],
       mg_numOfFree := (mg_numOfFree g)[c := mg_numOfFree g ! c + ms_numOfFree rs ! i]\<rparr>)"

definition globalize_waste ::
  "nat \<Rightarrow> u16 \<Rightarrow> MemoryWasteStatus \<Rightarrow> MemoryWasteGlobalStatus \<Rightarrow> MemoryWasteGlobalStatus" where
  "globalize_waste totalNumOfThread numberOfClasses rs =
    for_loop totalNumOfThread (\<lambda>t. for_loop (unat numberOfClasses) (globalize_class numberOfClasses rs t))"

definition calculateBlowup ::
  "SizeClasses \<Rightarrow> MemoryWasteStatus \<Rightarrow> MemoryWasteGlobalStatus \<Rightarrow> MemoryWasteGlobalStatus" where
  "calculateBlowup p rs g =
    g\<lparr>mg_memoryBlowup := for_loop (unat (numberOfClassSizes p)) (\<lambda>c a.
      a[c := ucast (classSizes p ! c) * (scast (mg_numOfFreelistObjects g ! c) - ms_blowupFlag rs ! c)])
      (mg_memoryBlowup g)\<rparr>"

definition MAXs :: "'a::len word \<Rightarrow> 'a word \<Rightarrow> 'a word" where
  "MAXs a b = (if b <s a then a else b)"

definition MINs :: "'a::len word \<Rightarrow> 'a word \<Rightarrow> 'a word" where
  "MINs a b = (if a <s b then a else b)"

definition MemoryWasteGlobalStatus_cleanAbnormalValues ::
  "u16 \<Rightarrow> MemoryWasteGlobalStatus \<Rightarrow> MemoryWasteGlobalStatus" where
  "MemoryWasteGlobalStatus_cleanAbnormalValues numberOfClasses g =
    (let n = unat numberOfClasses in
     g\<lparr>mg_internalFragment := for_loop n (\<lambda>c a. a[c := MAXs (a ! c) 0]) (mg_internalFragment g),
       mg_numOfAllocatedObjects := for_loop n (\<lambda>c a. a[c := MAXs (a ! c) 0]) (mg_numOfAllocatedObjects g),
       mg_numOfFreelistObjects := for_loop n (\<lambda>c a. a[c := MAXs (a ! c) 0]) (mg_numOfFreelistObjects g),
       mg_memoryBlowup := for_loop n (\<lambda>c a. a[c := MAXs (a ! c) 0]) (mg_memoryBlowup g)\<rparr>)"

record TotalMemoryUsage =
  realMemoryUsage :: u64
  totalMemoryUsage :: u64

record MemoryWasteTotalValue =
  mt_internalFragment :: u64
  mt_numOfAllocatedObjects :: u32
  mt_numOfFreelistObjects :: u32
  mt_numOfNewAllocations :: u32
  mt_numOfReusedAllocations :: u32
  mt_numOfFree :: u32
  mt_externalFragment :: u64
  mt_memoryBlowup :: u64

definition getTotalValues :: "u16 \<Rightarrow> MemoryWasteGlobalStatus \<Rightarrow> MemoryWasteTotalValue \<Rightarrow> MemoryWasteTotalValue" where
  "getTotalValues numberOfClasses g =
    for_loop (unat numberOfClasses) (\<lambda>c v.
      v\<lparr>mt_internalFragment := mt_internalFragment v + mg_internalFragment g ! c,
        mt_numOfAllocatedObjects := mt_numOfAllocatedObjects v + mg_numOfAllocatedObjects g ! c,
        mt_numOfFreelistObjects := mt_numOfFreelistObjects v + mg_numOfFreelistObjects g ! c,
        mt_numOfNewAllocations := mt_numOfNewAllocations v + mg_numOfNewAllocations g ! c,
        mt_numOfReusedAllocations := mt_numOfReusedAllocations v + mg_numOfReusedAllocations g ! c,
        mt_numOfFree := mt_numOfFree v + mg_numOfFree g ! c,
        mt_memoryBlowup := mt_memoryBlowup v + mg_memoryBlowup g ! c\<rparr>)"

definition clearAbnormalValues :: "TotalMemoryUsage \<Rightarrow> MemoryWasteTotalValue \<Rightarrow> MemoryWasteTotalValue" where
  "clearAbnormalValues mx v =
    (let v = v\<lparr>mt_internalFragment := MINs (totalMemoryUsage mx - realMemoryUsage mx) (mt_internalFragment v)\<rparr>
     in v\<lparr>mt_memoryBlowup := MINs (totalMemoryUsage mx - realMemoryUsage mx - mt_internalFragment v) (mt_memoryBlowup v)\<rparr>)"

definition getExternalFragment :: "TotalMemoryUsage \<Rightarrow> MemoryWasteTotalValue \<Rightarrow> MemoryWasteTotalValue" where
  "getExternalFragment mx v =
    v\<lparr>mt_externalFragment :=
      MAXs (totalMemoryUsage mx - realMemoryUsage mx - mt_internalFragment v - mt_memoryBlowup v) 0\<rparr>"


section \<open>Memory per call site\<close>

record BackTraceMemory =
  numberOfFrame :: u8
  memAllocated :: u64
  memLeaked :: u64
  bt_frames :: "u64 list"

definition newBackTraceMemory :: BackTraceMemory where
  "newBackTraceMemory = \<lparr>numberOfFrame = 0, memAllocated = 0, memLeaked = 0, bt_frames = replicate 7 0\<rparr>"

text \<open>
  The map, and the map recorded at the peak. \<open>recordMem\<close> copies the map's own fields with \<open>memcpy\<close>; the
  buckets and entries they point to stay shared. So until it is recorded the record is its own empty
  table, afterwards it is the first map with the number of entries it had then.
\<close>

record Backtrace =
  BTMemMap :: "(u8, BackTraceMemory) HashMap"
  BTMemMapRecord :: "(u8, BackTraceMemory) HashMap"
  bt_recordedEntries :: "u64 option"

definition Backtrace_init :: "u64 \<Rightarrow> u64 \<Rightarrow> Backtrace \<Rightarrow> Backtrace" where
  "Backtrace_init mmap1 mmap2 bt =
    bt\<lparr>BTMemMap := HashMap_initialize mmap1 hash_uint8_t compare_uint8_t 256 (BTMemMap bt),
       BTMemMapRecord := HashMap_initialize mmap2 hash_uint8_t compare_uint8_t 256 (BTMemMapRecord bt)\<rparr>"

definition recordMem :: "Backtrace \<Rightarrow> Backtrace" where
  "recordMem bt = bt\<lparr>bt_recordedEntries := Some (hm_totalEntry (BTMemMap bt))\<rparr>"

text \<open>What a reader of \<open>BTMemMapRecord\<close> sees.\<close>

definition recorded_map :: "Backtrace \<Rightarrow> (u8, BackTraceMemory) HashMap" where
  "recorded_map bt =
    (case bt_recordedEntries bt of
       None \<Rightarrow> BTMemMapRecord bt
     | Some n \<Rightarrow> (BTMemMap bt)\<lparr>hm_totalEntry := n\<rparr>)"

definition upd_backtrace ::
  "u8 \<Rightarrow> (BackTraceMemory \<Rightarrow> BackTraceMemory) \<Rightarrow> Backtrace \<Rightarrow> crash + Backtrace" where
  "upd_backtrace key f bt =
    bindR (HashMap_find (BTMemMap bt) key) (\<lambda>status.
      case status of
        None \<Rightarrow> Inr bt
      | Some e \<Rightarrow> Inr (bt\<lparr>BTMemMap := HashMap_assign (BTMemMap bt) e (f (hm_value (BTMemMap bt) e))\<rparr>))"

definition addLeak :: "u8 \<Rightarrow> u32 \<Rightarrow> Backtrace \<Rightarrow> crash + Backtrace" where
  "addLeak key sz = upd_backtrace key (\<lambda>m. m\<lparr>memLeaked := memLeaked m + ucast sz\<rparr>)"

definition subMem :: "u8 \<Rightarrow> u32 \<Rightarrow> Backtrace \<Rightarrow> crash + Backtrace" where
  "subMem key sz = upd_backtrace key (\<lambda>m. m\<lparr>memAllocated := memAllocated m - ucast sz\<rparr>)"

section \<open>Allocations and frees\<close>

record MemoryWaste =
  mw_objects :: "(u64, ObjectStatus) HashMap"
  mw_memory :: MyMalloc
  mw_classes :: SizeClasses
  mw_cache :: "u16 \<Rightarrow> SizeClassSizeAndIndex"
  mw_current :: "u16 \<Rightarrow> SizeClassSizeAndIndex"
  mw_status :: MemoryWasteStatus
  mw_record :: MemoryWasteStatus
  mw_global :: MemoryWasteGlobalStatus
  mw_total :: MemoryWasteTotalValue
  mw_minAddr :: u64
  mw_maxAddr :: u64
  mw_backtrace :: Backtrace

definition MemoryWaste_initialize :: "u64 \<Rightarrow> MemoryWaste \<Rightarrow> MemoryWaste" where
  "MemoryWaste_initialize mmap_result s =
    (let n = numberOfClassSizes (mw_classes s) in
     s\<lparr>mw_objects := HashMap_initialize mmap_result hashAddr compareAddr (of_nat MAX_OBJ_NUM) (mw_objects s),
       mw_status := MemoryWasteStatus_initialize n, mw_record := MemoryWasteStatus_initialize n,
       mw_global := MemoryWasteGlobalStatus_initialize n\<rparr>)"

text \<open>\<open>arrayIndex()\<close>: the cell of the running thread and its current class.\<close>

definition current_cell :: "u16 \<Rightarrow> MemoryWaste \<Rightarrow> nat" where
  "current_cell tid s =
    unat (arrayIndex (numberOfClassSizes (mw_classes s)) tid (classSizeIndex (mw_current s tid)))"

definition set_current :: "u16 \<Rightarrow> SizeClassSizeAndIndex \<Rightarrow> MemoryWaste \<Rightarrow> MemoryWaste" where
  "set_current tid c s = s\<lparr>mw_current := (mw_current s)(tid := c)\<rparr>"

definition classify :: "u16 \<Rightarrow> u32 \<Rightarrow> MemoryWaste \<Rightarrow> crash + MemoryWaste" where
  "classify tid sz s =
    bindR (getClassSizeAndIndex (mw_classes s) sz (mw_cache s tid)) (\<lambda>(c, cache).
      Inr (set_current tid c (s\<lparr>mw_cache := (mw_cache s)(tid := cache)\<rparr>)))"

definition on_counters ::
  "(MemoryWasteStatus \<Rightarrow> crash + MemoryWasteStatus) \<Rightarrow> MemoryWaste \<Rightarrow> crash + MemoryWaste" where
  "on_counters f s = bindR (f (mw_status s)) (\<lambda>c. Inr (s\<lparr>mw_status := c\<rparr>))"

definition write_object :: "u64 \<Rightarrow> (ObjectStatus \<Rightarrow> ObjectStatus) \<Rightarrow> MemoryWaste \<Rightarrow> MemoryWaste" where
  "write_object e f s =
    s\<lparr>mw_objects := HashMap_assign (mw_objects s) e (f (hm_value (mw_objects s) e))\<rparr>"

definition alloc_new :: "u16 \<Rightarrow> u32 \<Rightarrow> u64 \<Rightarrow> MemoryWaste \<Rightarrow> crash + (u64 \<times> MemoryWaste)" where
  "alloc_new tid sz address s =
    bindR (classify tid sz s) (\<lambda>s.
    bindR (HashMap_insert (mw_objects s) (mw_memory s) (unat tid) address (newObjectStatus (mw_current s tid) sz))
      (\<lambda>(e, m, mm).
    let s = write_object e (\<lambda>ob. ob\<lparr>ob_class := mw_current s tid, ob_maxTouchedBytes := sz\<rparr>)
              (s\<lparr>mw_objects := m, mw_memory := mm\<rparr>) in
    bindR (on_counters (add_new (current_cell tid s)) s) (\<lambda>s.
    Inr (e, s\<lparr>mw_minAddr := min (mw_minAddr s) address, mw_maxAddr := max (mw_maxAddr s) address\<rparr>))))"

definition change_class :: "SizeClassSizeAndIndex \<Rightarrow> u32 \<Rightarrow> ObjectStatus \<Rightarrow> ObjectStatus" where
  "change_class c sz ob =
    (let ob = ob\<lparr>ob_class := c\<rparr>;
         ob = (if sc_classSize c < ob_maxTouchedBytes ob then ob\<lparr>ob_maxTouchedBytes := sc_classSize c\<rparr> else ob)
     in if sz > ob_maxTouchedBytes ob then ob\<lparr>ob_maxTouchedBytes := sz\<rparr> else ob)"

definition alloc_reused :: "u16 \<Rightarrow> u32 \<Rightarrow> u64 \<Rightarrow> MemoryWaste \<Rightarrow> crash + MemoryWaste" where
  "alloc_reused tid sz e s =
    (let ob = hm_value (mw_objects s) e in
     bindR (if sc_size (ob_class ob) = sz then Inr (set_current tid (ob_class ob) s)
            else bindR (classify tid sz s) (\<lambda>s. Inr (write_object e (change_class (mw_current s tid) sz) s)))
       (\<lambda>s. bindR (on_counters (add_freelist (current_cell tid s) (- 1)) s)
              (\<lambda>s. on_counters (add_reused (current_cell tid s)) s)))"

definition dec_blowup :: "u64 \<Rightarrow> u64" where
  "dec_blowup x = (if 0 <s x then x - 1 else x)"

definition allocUpdate :: "u16 \<Rightarrow> u32 \<Rightarrow> u64 \<Rightarrow> u8 \<Rightarrow> MemoryWaste \<Rightarrow> crash + (bool \<times> MemoryWaste)" where
  "allocUpdate tid sz address callsiteKey s =
    bindR (HashMap_find (mw_objects s) address) (\<lambda>status.
    bindR (case status of
             None \<Rightarrow> bindR (alloc_new tid sz address s) (\<lambda>(e, s). Inr (False, e, s))
           | Some e \<Rightarrow> bindR (alloc_reused tid sz e s) (\<lambda>s. Inr (True, e, s))) (\<lambda>(reused, e, s).
    bindR (on_counters (add_internalFragment (current_cell tid s) (internalFragment (hm_value (mw_objects s) e))) s) (\<lambda>s.
    let s = write_object e (\<lambda>ob. ob\<lparr>ob_callKey := callsiteKey, ob_allocated := True, ob_tid := tid\<rparr>) s in
    bindR (on_counters (add_allocated (current_cell tid s) 1) s) (\<lambda>s.
    bindR (on_counters (upd_blowup (unat (classSizeIndex (mw_current s tid))) dec_blowup) s) (\<lambda>s.
    Inr (reused, s))))))"

text \<open>Returns the status of the object, as its caller finds it behind the pointer.\<close>

definition freeUpdate :: "u16 \<Rightarrow> u64 \<Rightarrow> MemoryWaste \<Rightarrow> crash + (ObjectStatus option \<times> MemoryWaste)" where
  "freeUpdate tid address s =
    bindR (HashMap_find (mw_objects s) address) (\<lambda>status.
    case status of
      None \<Rightarrow> Inr (None, s)
    | Some e \<Rightarrow>
        (let ob = hm_value (mw_objects s) e in
         if \<not> ob_allocated ob then Inr (None, s) else
         let s = set_current tid (ob_class ob) s in
         bindR (on_counters (add_internalFragment (current_cell tid s) (- internalFragment ob)) s) (\<lambda>s.
         bindR (subMem (ob_callKey ob) (sc_size (ob_class ob)) (mw_backtrace s)) (\<lambda>bt.
         let s = write_object e (\<lambda>ob. ob\<lparr>ob_allocated := False\<rparr>) (s\<lparr>mw_backtrace := bt\<rparr>) in
         bindR (on_counters (add_free (current_cell tid s)) s) (\<lambda>s.
         bindR (on_counters (add_allocated (current_cell tid s) (- 1)) s) (\<lambda>s.
         bindR (on_counters (add_freelist (current_cell tid s) 1) s) (\<lambda>s.
         bindR (on_counters (upd_blowup (unat (classSizeIndex (mw_current s tid))) (\<lambda>x. x + 1)) s) (\<lambda>s.
         Inr (Some (hm_value (mw_objects s) e), s)))))))))"

section \<open>Memory usage\<close>

record MemoryUsage =
  threadLocalMemoryUsage :: "u16 \<Rightarrow> TotalMemoryUsage"
  maxThreadLocalMemoryUsage :: "u16 \<Rightarrow> TotalMemoryUsage"
  globalThreadLocalMemoryUsage :: TotalMemoryUsage
  globalMemoryUsage :: TotalMemoryUsage
  maxGlobalMemoryUsage :: TotalMemoryUsage
  maxRealMemoryUsage :: u64

definition isLowerThan_interval :: "TotalMemoryUsage \<Rightarrow> TotalMemoryUsage \<Rightarrow> u32 \<Rightarrow> bool" where
  "isLowerThan_interval this new interval \<longleftrightarrow> totalMemoryUsage this + ucast interval <s totalMemoryUsage new"

definition isLowerThan :: "TotalMemoryUsage \<Rightarrow> TotalMemoryUsage \<Rightarrow> bool" where
  "isLowerThan this new \<longleftrightarrow> totalMemoryUsage this <s totalMemoryUsage new
    \<or> totalMemoryUsage this = totalMemoryUsage new \<and> realMemoryUsage this <s realMemoryUsage new"

definition ifLowerThanReplace :: "TotalMemoryUsage \<Rightarrow> TotalMemoryUsage \<Rightarrow> TotalMemoryUsage" where
  "ifLowerThanReplace this new =
    \<lparr>realMemoryUsage = MAXs (realMemoryUsage this) (realMemoryUsage new),
     totalMemoryUsage = MAXs (totalMemoryUsage this) (totalMemoryUsage new)\<rparr>"

definition add_usage :: "u64 \<Rightarrow> u64 \<Rightarrow> TotalMemoryUsage \<Rightarrow> TotalMemoryUsage" where
  "add_usage r t u =
    u\<lparr>realMemoryUsage := realMemoryUsage u + r, totalMemoryUsage := totalMemoryUsage u + t\<rparr>"

text \<open>A new peak is recorded from 10 MB on, if it is 200 MB or a factor of two above the last one.\<close>

definition new_peak :: "TotalMemoryUsage \<Rightarrow> TotalMemoryUsage \<Rightarrow> bool" where
  "new_peak now peak \<longleftrightarrow> 10 * 1048576 \<le>s totalMemoryUsage now
    \<and> (totalMemoryUsage peak + 200 * 1048576 <s totalMemoryUsage now
       \<or> totalMemoryUsage peak * 2 <s totalMemoryUsage now)"

definition compareMemoryUsageAndRecordStatus :: "nat \<Rightarrow> MemoryWaste \<Rightarrow> MemoryWaste" where
  "compareMemoryUsageAndRecordStatus totalNumOfThread s =
    (let (r, c) = updateStatus totalNumOfThread (numberOfClassSizes (mw_classes s)) (mw_record s) (mw_status s)
     in s\<lparr>mw_record := r, mw_status := c\<rparr>)"

text \<open>\<open>try_lock_succeeds\<close> is the answer of \<open>mtx.try_lock()\<close>.\<close>

definition addToMemoryUsage ::
  "bool \<Rightarrow> nat \<Rightarrow> u16 \<Rightarrow> u32 \<Rightarrow> u32 \<Rightarrow> MemoryUsage \<Rightarrow> MemoryWaste \<Rightarrow> MemoryUsage \<times> MemoryWaste" where
  "addToMemoryUsage try_lock_succeeds totalNumOfThread tid sz newTouchedPageBytes u s =
    (let mine = add_usage (ucast sz) (ucast newTouchedPageBytes) (threadLocalMemoryUsage u tid);
         u = u\<lparr>threadLocalMemoryUsage := (threadLocalMemoryUsage u)(tid := mine)\<rparr>;
         u = (if isLowerThan (maxThreadLocalMemoryUsage u tid) mine
              then u\<lparr>maxThreadLocalMemoryUsage := (maxThreadLocalMemoryUsage u)(tid := mine)\<rparr> else u);
         u = u\<lparr>globalMemoryUsage := add_usage (ucast sz) (ucast newTouchedPageBytes) (globalMemoryUsage u)\<rparr>;
         u = u\<lparr>maxRealMemoryUsage := MAXs (maxRealMemoryUsage u) (realMemoryUsage (globalMemoryUsage u))\<rparr>
     in if new_peak (globalMemoryUsage u) (maxGlobalMemoryUsage u) \<and> try_lock_succeeds
        then (u\<lparr>maxGlobalMemoryUsage := globalMemoryUsage u\<rparr>,
              compareMemoryUsageAndRecordStatus totalNumOfThread (s\<lparr>mw_backtrace := recordMem (mw_backtrace s)\<rparr>))
        else (u, s))"

definition subRealSizeFromMemoryUsage :: "u16 \<Rightarrow> u32 \<Rightarrow> MemoryUsage \<Rightarrow> MemoryUsage" where
  "subRealSizeFromMemoryUsage tid sz u =
    u\<lparr>threadLocalMemoryUsage := (threadLocalMemoryUsage u)(tid := add_usage (- ucast sz) 0 (threadLocalMemoryUsage u tid)),
      globalMemoryUsage := add_usage (- ucast sz) 0 (globalMemoryUsage u)\<rparr>"

definition subTotalSizeFromMemoryUsage :: "u16 \<Rightarrow> u32 \<Rightarrow> MemoryUsage \<Rightarrow> MemoryUsage" where
  "subTotalSizeFromMemoryUsage tid sz u =
    u\<lparr>threadLocalMemoryUsage := (threadLocalMemoryUsage u)(tid := add_usage 0 (- ucast sz) (threadLocalMemoryUsage u tid)),
      globalMemoryUsage := add_usage 0 (- ucast sz) (globalMemoryUsage u)\<rparr>"

definition MemoryUsage_globalize :: "u16 \<Rightarrow> MemoryUsage \<Rightarrow> MemoryUsage" where
  "MemoryUsage_globalize tid u =
    u\<lparr>globalThreadLocalMemoryUsage :=
       ifLowerThanReplace (globalThreadLocalMemoryUsage u) (maxThreadLocalMemoryUsage u tid)\<rparr>"

section \<open>The values of the report\<close>

definition globalizeRecordAndGetTotalValues :: "nat \<Rightarrow> MemoryUsage \<Rightarrow> MemoryWaste \<Rightarrow> MemoryWaste" where
  "globalizeRecordAndGetTotalValues totalNumOfThread u s =
    (let n = numberOfClassSizes (mw_classes s);
         g = globalize_waste totalNumOfThread n (mw_record s) (mw_global s);
         g = calculateBlowup (mw_classes s) (mw_record s) g;
         g = MemoryWasteGlobalStatus_cleanAbnormalValues n g;
         v = getTotalValues n g (mw_total s);
         v = clearAbnormalValues (maxGlobalMemoryUsage u) v;
         v = getExternalFragment (maxGlobalMemoryUsage u) v
     in s\<lparr>mw_global := g, mw_total := v\<rparr>)"

text \<open>
  The size of all objects still allocated, unless less than 100 MB are in use; with fuel for the walk
  over the table.
\<close>

definition detectMemoryLeak :: "nat \<Rightarrow> MemoryUsage \<Rightarrow> MemoryWaste \<Rightarrow> u64 option option" where
  "detectMemoryLeak fuel u s =
    (if totalMemoryUsage (globalMemoryUsage u) \<le>s 100 * 1048576 then Some None
     else map_option (\<lambda>es. Some (fold (\<lambda>e leaksize.
            let ob = hm_value (mw_objects s) e in
            if ob_allocated ob then leaksize + ucast (sc_size (ob_class ob)) else leaksize) es 0))
       (iterate (mw_objects s) fuel (HashMap_begin (mw_objects s))))"

end
