(* ===== verification/MemoryWaste_Correct.thy ===== *)
theory MemoryWaste_Correct
  imports MemoryWaste SizeClasses_Correct ObjTable
begin

text \<open>
  The counters of the memory waste component against the objects they count.
\<close>

section \<open>Finding and writing entries\<close>

lemma table_find:
  assumes "table_invar tid (hm, mm)"
  shows "\<exists>r. HashMap_find hm k = Inr r \<and> table_lookup (hm, mm) k = map_option (hm_value hm) r"
  using assms by (rule table_find_Inr) blast

lemma table_write:
  assumes "table_invar tid (hm, mm)" and "HashMap_find hm k = Inr (Some e)"
  shows "table_invar tid (HashMap_assign hm e v, mm)"
    and "table_lookup (HashMap_assign hm e v, mm) = (table_lookup (hm, mm))(k \<mapsto> v)"
    and "table_room tid (HashMap_assign hm e v, mm) = table_room tid (hm, mm)"
proof -
  have l: "table_lookup (hm, mm) k = Some (hm_value hm e)" by (simp add: table_lookup_def assms(2))
  have "table_assign (hm, mm) k v = (HashMap_assign hm e v, mm)" by (simp add: table_assign_def assms(2))
  with hash_table.assign_old [OF assms(1) l, of v]
  show "table_invar tid (HashMap_assign hm e v, mm)"
    and "table_lookup (HashMap_assign hm e v, mm) = (table_lookup (hm, mm))(k \<mapsto> v)"
    and "table_room tid (HashMap_assign hm e v, mm) = table_room tid (hm, mm)" by simp_all
qed

lemma table_lookup_Some:
  "table_lookup (hm, mm) k = Some v \<longleftrightarrow> (\<exists>e. HashMap_find hm k = Inr (Some e) \<and> hm_value hm e = v)"
  by (auto simp: table_lookup_def split: sum.splits option.splits)

lemma finite_table:
  assumes "table_invar tid s" shows "finite (dom (table_lookup s))"
proof -
  obtain hm mm B where s: "s = (hm, mm)" and rep: "hm_rep hm B"
    using assms by (cases s) (auto simp: table_invar_def)
  have "dom (table_lookup s) \<subseteq> hm_key hm ` set (concat (map B [0..<nbuckets hm]))"
    using entries_of_rep(2) [OF rep]
    by (force simp: s table_lookup_def image_iff split: sum.splits option.splits)
  then show ?thesis by (rule finite_subset) (intro finite_imageI finite_set)
qed

text \<open>Writing a value does not change where keys are found.\<close>

lemma HashMap_find_assign [simp]: "HashMap_find (HashMap_assign hm e v) = HashMap_find hm"
proof
  have ne: "nextEntry (HashMap_assign hm e v) = nextEntry hm" by (auto simp: nextEntry_def HashMap_assign_def)
  have "getEntry_loop (HashMap_assign hm e v) a p n = getEntry_loop hm a p n" for a p n
    by (induction n arbitrary: p) (simp_all add: ne, simp_all add: HashMap_assign_def)
  then show "HashMap_find (HashMap_assign hm e v) a = HashMap_find hm a" for a
    by (simp add: HashMap_find_def with_bucket_def getEntry_def getHashBucket_def hashIndex_def getFirstEntry_def
        bucket_addr_def, simp add: HashMap_assign_def)
qed

lemma HashMap_assign_fields [simp]:
  "hm_key (HashMap_assign hm e v) = hm_key hm" "hm_value (HashMap_assign hm e v) = (hm_value hm)(e := v)"
  by (simp_all add: HashMap_assign_def)

text \<open>The memory of one call site is updated, if the call site is known.\<close>

definition upd_at :: "'k \<Rightarrow> ('v \<Rightarrow> 'v) \<Rightarrow> ('k \<Rightarrow> 'v option) \<Rightarrow> 'k \<Rightarrow> 'v option" where
  "upd_at k f m = m(k := map_option f (m k))"

lemma upd_backtrace_spec:
  assumes "table_invar tid (BTMemMap bt, mm)"
  obtains hm where "upd_backtrace key f bt = Inr (bt\<lparr>BTMemMap := hm\<rparr>)"
    and "table_invar tid (hm, mm)" and "table_lookup (hm, mm) = upd_at key f (table_lookup (BTMemMap bt, mm))"
proof -
  obtain r where r: "HashMap_find (BTMemMap bt) key = Inr r"
      "table_lookup (BTMemMap bt, mm) key = map_option (hm_value (BTMemMap bt)) r"
    using table_find [OF assms] by blast
  show thesis
  proof (cases r)
    case None
    with r that [of "BTMemMap bt"] assms show thesis by (auto simp: upd_backtrace_def upd_at_def fun_eq_iff)
  next
    case (Some e)
    with r that table_write [OF assms r(1) [unfolded Some]] show thesis
      by (auto simp: upd_backtrace_def upd_at_def fun_eq_iff)
  qed
qed

section \<open>Counting one event\<close>

lemma unat_arrayIndex: "unat (arrayIndex n t c) = unat t * unat n + unat c"
proof -
  have b: "unat x \<le> 65535" for x :: u16 using unsigned_less [of x, where 'a = nat] by simp
  then have "unat t * unat n \<le> 65535 * 65535" by (intro mult_le_mono)
  with b [of c] show ?thesis
    unfolding arrayIndex_def by (simp add: unat_word_ariths)
qed

text \<open>What one event adds to the cell of its thread and class, and does to the blowup flag of the class.\<close>

definition counted ::
  "nat \<Rightarrow> nat \<Rightarrow> u64 \<Rightarrow> u32 \<Rightarrow> u32 \<Rightarrow> u32 \<Rightarrow> u32 \<Rightarrow> u32 \<Rightarrow> (u64 \<Rightarrow> u64) \<Rightarrow> MemoryWasteStatus \<Rightarrow> MemoryWasteStatus" where
  "counted i c frag al fl nw re fr b st =
    \<lparr>ms_internalFragment = (ms_internalFragment st)[i := ms_internalFragment st ! i + frag],
     ms_numOfAllocatedObjects = (ms_numOfAllocatedObjects st)[i := ms_numOfAllocatedObjects st ! i + al],
     ms_numOfFreelistObjects = (ms_numOfFreelistObjects st)[i := ms_numOfFreelistObjects st ! i + fl],
     ms_numOfNewAllocations = (ms_numOfNewAllocations st)[i := ms_numOfNewAllocations st ! i + nw],
     ms_numOfReusedAllocations = (ms_numOfReusedAllocations st)[i := ms_numOfReusedAllocations st ! i + re],
     ms_numOfFree = (ms_numOfFree st)[i := ms_numOfFree st ! i + fr],
     ms_blowupFlag = (ms_blowupFlag st)[c := b (ms_blowupFlag st ! c)]\<rparr>"

definition status_ok :: "nat \<Rightarrow> MemoryWasteStatus \<Rightarrow> bool" where
  "status_ok n st \<longleftrightarrow> length (ms_internalFragment st) = MAX_THREAD_NUMBER * n
    \<and> length (ms_numOfAllocatedObjects st) = MAX_THREAD_NUMBER * n
    \<and> length (ms_numOfFreelistObjects st) = MAX_THREAD_NUMBER * n
    \<and> length (ms_numOfNewAllocations st) = MAX_THREAD_NUMBER * n
    \<and> length (ms_numOfReusedAllocations st) = MAX_THREAD_NUMBER * n
    \<and> length (ms_numOfFree st) = MAX_THREAD_NUMBER * n \<and> length (ms_blowupFlag st) = n"

lemma status_ok_counted [simp]: "status_ok n (counted i c frag al fl nw re fr b st) = status_ok n st"
  by (simp add: status_ok_def counted_def)

lemma counted_counted:
  assumes "status_ok n st" and "i < MAX_THREAD_NUMBER * n" and "c < n"
  shows "counted i c f a l w r x b (counted i c f' a' l' w' r' x' b' st)
    = counted i c (f' + f) (a' + a) (l' + l) (w' + w) (r' + r) (x' + x) (b \<circ> b') st"
  using assms by (simp add: counted_def status_ok_def add.assoc)

lemma counter_steps:
  assumes "status_ok n (mw_status s)" and "i < MAX_THREAD_NUMBER * n" and "c < n"
  shows "on_counters (add_internalFragment i f) s = Inr (s\<lparr>mw_status := counted i c f 0 0 0 0 0 id (mw_status s)\<rparr>)"
    and "on_counters (add_allocated i a) s = Inr (s\<lparr>mw_status := counted i c 0 a 0 0 0 0 id (mw_status s)\<rparr>)"
    and "on_counters (add_freelist i l) s = Inr (s\<lparr>mw_status := counted i c 0 0 l 0 0 0 id (mw_status s)\<rparr>)"
    and "on_counters (add_new i) s = Inr (s\<lparr>mw_status := counted i c 0 0 0 1 0 0 id (mw_status s)\<rparr>)"
    and "on_counters (add_reused i) s = Inr (s\<lparr>mw_status := counted i c 0 0 0 0 1 0 id (mw_status s)\<rparr>)"
    and "on_counters (add_free i) s = Inr (s\<lparr>mw_status := counted i c 0 0 0 0 0 1 id (mw_status s)\<rparr>)"
    and "on_counters (upd_blowup c b) s = Inr (s\<lparr>mw_status := counted i c 0 0 0 0 0 0 b (mw_status s)\<rparr>)"
  using assms
  by (simp_all add: on_counters_def add_internalFragment_def add_allocated_def add_freelist_def add_new_def
      add_reused_def add_free_def upd_blowup_def upd_cell_def status_ok_def counted_def)

section \<open>Objects and their state\<close>

abbreviation mw_look :: "MemoryWaste \<Rightarrow> u64 \<Rightarrow> ObjectStatus option" where
  "mw_look s \<equiv> table_lookup (mw_objects s, mw_memory s)"

abbreviation mw_classnum :: "MemoryWaste \<Rightarrow> nat" where
  "mw_classnum s \<equiv> unat (numberOfClassSizes (mw_classes s))"

abbreviation class_num :: "ObjectStatus \<Rightarrow> nat" where
  "class_num ob \<equiv> unat (classSizeIndex (ob_class ob))"

text \<open>Everything an operation of thread \<open>tid\<close> relies on.\<close>

definition waste_ok :: "u16 \<Rightarrow> MemoryWaste \<Rightarrow> bool" where
  "waste_ok tid s \<longleftrightarrow> unat tid < MAX_THREAD_NUMBER \<and> table_invar (unat tid) (mw_objects s, mw_memory s)
    \<and> table_invar (unat tid) (BTMemMap (mw_backtrace s), mw_memory s)
    \<and> classes_ok (mw_classes s) \<and> (\<forall>u. class_in (mw_classes s) (mw_cache s u))
    \<and> (\<forall>a ob. mw_look s a = Some ob \<longrightarrow> class_in (mw_classes s) (ob_class ob))
    \<and> status_ok (mw_classnum s) (mw_status s)"

definition cell :: "u16 \<Rightarrow> MemoryWaste \<Rightarrow> ObjectStatus \<Rightarrow> nat" where
  "cell tid s ob = unat tid * mw_classnum s + class_num ob"

lemma cell_less:
  fixes t c n m :: nat
  assumes "t < m" and "c < n"
  shows "t * n + c < m * n"
proof -
  have "t * n + c < Suc t * n" using assms(2) by simp
  also have "\<dots> \<le> m * n" using assms(1) by (intro mult_le_mono1) simp
  finally show ?thesis .
qed

lemma current_cell_eq: "mw_current s tid = ob_class ob \<Longrightarrow> current_cell tid s = cell tid s ob"
  by (simp add: current_cell_def cell_def unat_arrayIndex)

lemma classify_ok:
  assumes "waste_ok tid s"
  obtains c cache where "classify tid sz s = Inr (set_current tid c (s\<lparr>mw_cache := (mw_cache s)(tid := cache)\<rparr>))"
    and "getClassSizeAndIndex (mw_classes s) sz (mw_cache s tid) = Inr (c, cache)" and "sc_size c = sz" and "class_in (mw_classes s) c" and "class_in (mw_classes s) cache"
proof -
  have "classes_ok (mw_classes s)" "class_in (mw_classes s) (mw_cache s tid)"
    using assms by (auto simp: waste_ok_def)
  then obtain c cache where "getClassSizeAndIndex (mw_classes s) sz (mw_cache s tid) = Inr (c, cache)"
    "sc_size c = sz" "class_in (mw_classes s) c" "class_in (mw_classes s) cache"
    by (rule getClassSizeAndIndex_ok)
  then show thesis by (intro that [of c cache]) (simp_all add: classify_def)
qed

text \<open>An address used before for the same size keeps its class, otherwise the class is that of the size.\<close>

definition class_given :: "u16 \<Rightarrow> u32 \<Rightarrow> u64 \<Rightarrow> MemoryWaste \<Rightarrow> SizeClassSizeAndIndex \<Rightarrow> bool" where
  "class_given tid sz a s c \<longleftrightarrow>
    (if \<exists>ob. mw_look s a = Some ob \<and> sc_size (ob_class ob) = sz then c = ob_class (the (mw_look s a))
     else \<exists>cache. getClassSizeAndIndex (mw_classes s) sz (mw_cache s tid) = Inr (c, cache))"

text \<open>
  The first half of an allocation, for a new or a reused address: the status at the address is of the
  size asked for, and is counted as new or as reused.
\<close>

definition half_allocated ::
  "u16 \<Rightarrow> u32 \<Rightarrow> u64 \<Rightarrow> bool \<Rightarrow> MemoryWaste \<Rightarrow> u64 \<Rightarrow> ObjectStatus \<Rightarrow> MemoryWaste \<Rightarrow> bool" where
  "half_allocated tid sz a reused s e ob s' \<longleftrightarrow> waste_ok tid s' \<and> HashMap_find (mw_objects s') a = Inr (Some e)
    \<and> mw_look s' = (mw_look s)(a \<mapsto> ob) \<and> sc_size (ob_class ob) = sz \<and> class_given tid sz a s (ob_class ob)
    \<and> mw_current s' tid = ob_class ob
    \<and> mw_classes s' = mw_classes s \<and> mw_backtrace s' = mw_backtrace s
    \<and> ob_mark ob = (case mw_look s a of None \<Rightarrow> False | Some ob' \<Rightarrow> ob_mark ob')
    \<and> length (threadLocalProfilerHashMemory (mw_memory s')) = length (threadLocalProfilerHashMemory (mw_memory s))
    \<and> mw_minAddr s' = (if reused then mw_minAddr s else min (mw_minAddr s) a)
    \<and> mw_maxAddr s' = (if reused then mw_maxAddr s else max (mw_maxAddr s) a)
    \<and> mw_status s' = counted (cell tid s ob) (class_num ob) 0 0 (if reused then - 1 else 0)
         (if reused then 0 else 1) (if reused then 1 else 0) 0 id (mw_status s)"

lemma alloc_new_spec:
  assumes ok: "waste_ok tid s" and absent: "mw_look s a = None"
    and room: "table_room (unat tid) (mw_objects s, mw_memory s) 1"
  obtains e ob s' where "alloc_new tid sz a s = Inr (e, s')" and "half_allocated tid sz a False s e ob s'"
    and "ob_maxTouchedBytes ob = sz"
proof -
  obtain c cache where cl: "classify tid sz s = Inr (set_current tid c (s\<lparr>mw_cache := (mw_cache s)(tid := cache)\<rparr>))"
    and g: "getClassSizeAndIndex (mw_classes s) sz (mw_cache s tid) = Inr (c, cache)"
    and c: "sc_size c = sz" "class_in (mw_classes s) c" "class_in (mw_classes s) cache"
    using classify_ok [OF ok] by blast
  let ?s1 = "set_current tid c (s\<lparr>mw_cache := (mw_cache s)(tid := cache)\<rparr>)" and ?tid = "unat tid"
  define e where "e = next_block (mw_memory s) ?tid"
  define ob where "ob = newObjectStatus c sz"
  define mm where "mm = (mw_memory s)\<lparr>threadLocalProfilerHashMemory := bump (mw_memory s) ?tid (hm_sizeof_entry (mw_objects s))\<rparr>"
  define hm where "hm = linked_entry (mw_objects s) e (bucket_at (mw_objects s) (bucket_of (mw_objects s) a)) a ob"
  have inv: "table_invar ?tid (mw_objects s, mw_memory s)" and sites: "table_invar ?tid (BTMemMap (mw_backtrace s), mw_memory s)"
    and st: "status_ok (mw_classnum s) (mw_status s)" and t: "unat tid < MAX_THREAD_NUMBER"
    using ok by (auto simp: waste_ok_def)
  have bm: "bump_ok (mw_memory s) ?tid (hm_sizeof_entry (mw_objects s))"
    and ins: "HashMap_insert (mw_objects s) (mw_memory s) ?tid a ob = Inr (e, hm, mm)"
    and fnd: "HashMap_find hm a = Inr (Some e)"
    using insert_linked [OF inv absent, of 0 ob] room unfolding e_def hm_def mm_def by auto
  obtain s'' where "table_insert ?tid (mw_objects s, mw_memory s) a ob = Inr s''" "table_invar ?tid s''"
    "table_lookup s'' = (mw_look s)(a \<mapsto> ob)"
    using hash_table.insert_new [OF inv absent, of 0 ob] room by auto
  then have inv': "table_invar ?tid (hm, mm)" and look: "table_lookup (hm, mm) = (mw_look s)(a \<mapsto> ob)"
    using ins by (auto simp: table_insert_def)
  have same: "HashMap_assign hm e ob = hm"
    by (simp add: HashMap_assign_def hm_def linked_entry_def fun_upd_idem)
  let ?i = "current_cell tid ?s1"
  have i: "?i = cell tid s ob" using current_cell_eq [of ?s1 tid ob]
    by (simp add: set_current_def ob_def newObjectStatus_def cell_def)
  have less: "class_num ob < mw_classnum s" using c(2) by (simp add: ob_def newObjectStatus_def class_in_def word_less_nat_alt)
  then have il: "cell tid s ob < MAX_THREAD_NUMBER * mw_classnum s" using t by (simp add: cell_def cell_less)
  have val: "hm_value hm e = ob" by (simp add: hm_def)
  have cur: "current_cell tid (?s1\<lparr>mw_objects := m, mw_memory := mm\<rparr>) = cell tid s ob" for m
    using i by (simp add: current_cell_def)
  let ?s2 = "?s1\<lparr>mw_objects := hm, mw_memory := mm\<rparr>"
  let ?s' = "?s2\<lparr>mw_status := counted (cell tid s ob) (class_num ob) 0 0 0 1 0 0 id (mw_status s),
    mw_minAddr := min (mw_minAddr s) a, mw_maxAddr := max (mw_maxAddr s) a\<rparr>"
  have w: "write_object e (\<lambda>ob. ob\<lparr>ob_class := c, ob_maxTouchedBytes := sz\<rparr>) ?s2 = ?s2"
    using same by (simp add: write_object_def val ob_def newObjectStatus_def)
  have st2: "status_ok (mw_classnum s) (mw_status ?s2)" using st by (simp add: set_current_def)
  have "alloc_new tid sz a s = Inr (e, ?s')"
    using ins w counter_steps(4) [OF st2 il less]
    by (simp add: alloc_new_def cl ob_def Let_def)
      (simp add: set_current_def cur [unfolded set_current_def ob_def, simplified])
  moreover have "half_allocated tid sz a False s e ob ?s'"
    using ok inv' look fnd sites table_invar_bump [OF sites bm] c absent g
    by (auto simp: half_allocated_def class_given_def waste_ok_def set_current_def ob_def newObjectStatus_def mm_def)
  ultimately show thesis using that by (simp add: ob_def newObjectStatus_def)
qed

lemma change_class_fields [simp]:
  "ob_class (change_class c sz ob) = c" "ob_mark (change_class c sz ob) = ob_mark ob"
  "ob_allocated (change_class c sz ob) = ob_allocated ob"
  by (simp_all add: change_class_def Let_def)

lemma write_object_fields [simp]:
  "mw_status (write_object e f s) = mw_status s" "mw_classes (write_object e f s) = mw_classes s"
  "mw_memory (write_object e f s) = mw_memory s" "mw_current (write_object e f s) = mw_current s"
  "mw_cache (write_object e f s) = mw_cache s" "mw_backtrace (write_object e f s) = mw_backtrace s"
  "mw_minAddr (write_object e f s) = mw_minAddr s" "mw_maxAddr (write_object e f s) = mw_maxAddr s"
  "HashMap_find (mw_objects (write_object e f s)) = HashMap_find (mw_objects s)"
  by (simp_all add: write_object_def)

lemma write_object_ok:
  assumes ok: "waste_ok tid s" and fnd: "HashMap_find (mw_objects s) a = Inr (Some e)"
    and cls: "class_in (mw_classes s) (ob_class (f (hm_value (mw_objects s) e)))"
  shows "waste_ok tid (write_object e f s)"
    and "mw_look (write_object e f s) = (mw_look s)(a \<mapsto> f (hm_value (mw_objects s) e))"
proof -
  note w = table_write [OF _ fnd, of "unat tid" "mw_memory s" "f (hm_value (mw_objects s) e)"]
  show look: "mw_look (write_object e f s) = (mw_look s)(a \<mapsto> f (hm_value (mw_objects s) e))"
    using w(2) ok by (simp add: waste_ok_def write_object_def)
  show "waste_ok tid (write_object e f s)"
    using ok cls w(1) look unfolding waste_ok_def by (auto simp: write_object_def)
qed

lemma set_current_ok:
  assumes "waste_ok tid s" and "class_in (mw_classes s) cache"
  shows "waste_ok tid (set_current tid c (s\<lparr>mw_cache := (mw_cache s)(tid := cache)\<rparr>))" and "waste_ok tid (set_current tid c s)"
  using assms by (auto simp: waste_ok_def set_current_def)

lemma status_ok_step: "waste_ok tid s \<Longrightarrow> status_ok (mw_classnum s) st \<Longrightarrow> waste_ok tid (s\<lparr>mw_status := st\<rparr>)"
  by (simp add: waste_ok_def)

lemma alloc_reused_spec:
  assumes ok: "waste_ok tid s" and fnd: "HashMap_find (mw_objects s) a = Inr (Some e)"
  obtains ob s' where "alloc_reused tid sz e s = Inr s'" and "half_allocated tid sz a True s e ob s'"
    and "ob = hm_value (mw_objects s) e \<or> ob = change_class (ob_class ob) sz (hm_value (mw_objects s) e)"
proof -
  let ?ob = "hm_value (mw_objects s) e"
  have l: "mw_look s a = Some ?ob" by (simp add: table_lookup_def fnd)
  have t: "unat tid < MAX_THREAD_NUMBER" and cls: "class_in (mw_classes s) (ob_class ?ob)"
    and st: "status_ok (mw_classnum s) (mw_status s)"
    using ok l by (auto simp: waste_ok_def)
  define prep where "prep = (if sc_size (ob_class ?ob) = sz then Inr (set_current tid (ob_class ?ob) s)
    else bindR (classify tid sz s) (\<lambda>s. Inr (write_object e (change_class (mw_current s tid) sz) s)))"
  obtain ob s1 where s1: "prep = Inr s1" "waste_ok tid s1" "mw_look s1 = (mw_look s)(a \<mapsto> ob)"
      "sc_size (ob_class ob) = sz" "mw_current s1 tid = ob_class ob" "HashMap_find (mw_objects s1) a = Inr (Some e)"
      "mw_classes s1 = mw_classes s" "mw_backtrace s1 = mw_backtrace s" "ob_mark ob = ob_mark ?ob"
      "mw_minAddr s1 = mw_minAddr s" "mw_maxAddr s1 = mw_maxAddr s" "mw_status s1 = mw_status s"
      "class_in (mw_classes s) (ob_class ob)" "ob = ?ob \<or> ob = change_class (ob_class ob) sz ?ob"
      "mw_memory s1 = mw_memory s" "class_given tid sz a s (ob_class ob)"
  proof (cases "sc_size (ob_class ?ob) = sz")
    case True
    with cls l fnd set_current_ok(2) [OF ok cls] show thesis
      by (intro that [of "set_current tid (ob_class ?ob) s" ?ob]) (auto simp: prep_def set_current_def class_given_def)
  next
    case False
    obtain c cache where cl: "classify tid sz s = Inr (set_current tid c (s\<lparr>mw_cache := (mw_cache s)(tid := cache)\<rparr>))"
      and g: "getClassSizeAndIndex (mw_classes s) sz (mw_cache s tid) = Inr (c, cache)"
      and c: "sc_size c = sz" "class_in (mw_classes s) c" "class_in (mw_classes s) cache"
      using classify_ok [OF ok] by blast
    let ?u = "set_current tid c (s\<lparr>mw_cache := (mw_cache s)(tid := cache)\<rparr>)"
    have u: "mw_objects ?u = mw_objects s" "mw_classes ?u = mw_classes s" "mw_memory ?u = mw_memory s" "mw_current ?u tid = c"
      "mw_status ?u = mw_status s" "mw_backtrace ?u = mw_backtrace s" "mw_minAddr ?u = mw_minAddr s" "mw_maxAddr ?u = mw_maxAddr s"
      by (simp_all add: set_current_def)
    have "HashMap_find (mw_objects ?u) a = Inr (Some e)" using fnd u by simp
    note w = write_object_ok [OF set_current_ok(1) [OF ok c(3)] this, of "change_class c sz"]
    show thesis
      using False cl c w fnd l g by (intro that [of "write_object e (change_class c sz) ?u" "change_class c sz ?ob"])
        (simp_all add: prep_def u class_given_def)
  qed
  have i: "current_cell tid s1 = cell tid s ob" using current_cell_eq [OF s1(5)] by (simp add: cell_def s1(7))
  have less: "class_num ob < mw_classnum s" using s1(13) by (simp add: class_in_def word_less_nat_alt)
  then have il: "cell tid s ob < MAX_THREAD_NUMBER * mw_classnum s" using t by (simp add: cell_def cell_less)
  let ?s2 = "s1\<lparr>mw_status := counted (cell tid s ob) (class_num ob) 0 0 (- 1) 0 0 0 id (mw_status s1)\<rparr>"
  let ?s3 = "?s2\<lparr>mw_status := counted (cell tid s ob) (class_num ob) 0 0 0 0 1 0 id (mw_status ?s2)\<rparr>"
  have st1: "status_ok (mw_classnum s) (mw_status s1)" and st2: "status_ok (mw_classnum s) (mw_status ?s2)"
    using st by (simp_all add: s1(12))
  have i2: "current_cell tid ?s2 = cell tid s ob" using i by (simp add: current_cell_def)
  have "alloc_reused tid sz e s = bindR prep
       (\<lambda>s. bindR (on_counters (add_freelist (current_cell tid s) (- 1)) s)
              (\<lambda>s. on_counters (add_reused (current_cell tid s)) s))"
    by (simp add: alloc_reused_def prep_def Let_def)
  also have "\<dots> = Inr ?s3"
    using counter_steps(3) [OF st1 il less] counter_steps(5) [OF st2 il less] by (simp add: s1(1) i i2)
  finally have "alloc_reused tid sz e s = Inr ?s3" .
  moreover have "half_allocated tid sz a True s e ob ?s3"
    using status_ok_step [OF s1(2)] st1 l s1 counted_counted [OF st il less]
    by (simp add: half_allocated_def)
  ultimately show thesis using that s1(14) by blast
qed

text \<open>An allocation by thread \<open>tid\<close> of an object \<open>ob\<close> at \<open>a\<close>, seen from outside.\<close>

definition allocated_at :: "u16 \<Rightarrow> u32 \<Rightarrow> u64 \<Rightarrow> u8 \<Rightarrow> MemoryWaste \<Rightarrow> ObjectStatus \<Rightarrow> MemoryWaste \<Rightarrow> bool" where
  "allocated_at tid sz a key s ob s' \<longleftrightarrow> waste_ok tid s' \<and> mw_look s' = (mw_look s)(a \<mapsto> ob)
    \<and> ob_allocated ob \<and> ob_callKey ob = key \<and> ob_tid ob = tid \<and> sc_size (ob_class ob) = sz
    \<and> class_given tid sz a s (ob_class ob)
    \<and> mw_classes s' = mw_classes s \<and> mw_backtrace s' = mw_backtrace s
    \<and> length (threadLocalProfilerHashMemory (mw_memory s')) = length (threadLocalProfilerHashMemory (mw_memory s))
    \<and> (let reused = mw_look s a \<noteq> None in
       mw_minAddr s' = (if reused then mw_minAddr s else min (mw_minAddr s) a)
       \<and> mw_maxAddr s' = (if reused then mw_maxAddr s else max (mw_maxAddr s) a)
       \<and> mw_status s' = counted (cell tid s ob) (class_num ob) (internalFragment ob) 1 (if reused then - 1 else 0)
            (if reused then 0 else 1) (if reused then 1 else 0) 0 dec_blowup (mw_status s))"

lemma allocUpdate_eq:
  assumes ok: "waste_ok tid s" and room: "mw_look s a = None \<Longrightarrow> table_room (unat tid) (mw_objects s, mw_memory s) 1"
  obtains ob s' where "allocUpdate tid sz a key s = Inr (mw_look s a \<noteq> None, s')" and "allocated_at tid sz a key s ob s'"
    and "ob_mark ob = (case mw_look s a of None \<Rightarrow> False | Some ob' \<Rightarrow> ob_mark ob')"
proof -
  define reused where "reused = (mw_look s a \<noteq> None)"
  obtain r where r: "HashMap_find (mw_objects s) a = Inr r" "mw_look s a = map_option (hm_value (mw_objects s)) r"
    using ok table_find [of "unat tid" "mw_objects s" "mw_memory s" a] by (auto simp: waste_ok_def)
  define first where "first = (case r of
      None \<Rightarrow> bindR (alloc_new tid sz a s) (\<lambda>(e, s). Inr (False, e, s))
    | Some e \<Rightarrow> bindR (alloc_reused tid sz e s) (\<lambda>s. Inr (True, e, s)))"
  obtain e ob s1 where f: "first = Inr (reused, e, s1)" and h: "half_allocated tid sz a reused s e ob s1"
  proof (cases r)
    case None
    with r have n: "mw_look s a = None" by simp
    obtain e ob s1 where "alloc_new tid sz a s = Inr (e, s1)" "half_allocated tid sz a False s e ob s1"
      using alloc_new_spec [OF ok n room [OF n]] by blast
    with None n show thesis by (intro that [of e s1 ob]) (simp_all add: first_def reused_def)
  next
    case (Some e)
    with r have n: "HashMap_find (mw_objects s) a = Inr (Some e)" by simp
    obtain ob s1 where "alloc_reused tid sz e s = Inr s1" "half_allocated tid sz a True s e ob s1"
      using alloc_reused_spec [OF ok n] by blast
    with Some r show thesis by (intro that [of e s1 ob]) (simp_all add: first_def reused_def)
  qed
  have s1: "waste_ok tid s1" "HashMap_find (mw_objects s1) a = Inr (Some e)" "mw_look s1 = (mw_look s)(a \<mapsto> ob)"
    "sc_size (ob_class ob) = sz" "mw_current s1 tid = ob_class ob" "mw_classes s1 = mw_classes s"
    using h by (auto simp: half_allocated_def)
  have val: "hm_value (mw_objects s1) e = ob"
    using arg_cong [OF s1(3), of "\<lambda>m. m a"] s1(2) by (simp add: table_lookup_def)
  have cls: "class_in (mw_classes s1) (ob_class ob)" using s1(1) fun_cong [OF s1(3), of a] by (auto simp: waste_ok_def)
  have st: "status_ok (mw_classnum s) (mw_status s1)" and t: "unat tid < MAX_THREAD_NUMBER"
    using s1(1,6) by (auto simp: waste_ok_def)
  have less: "class_num ob < mw_classnum s" using cls by (simp add: class_in_def word_less_nat_alt s1(6))
  then have il: "cell tid s ob < MAX_THREAD_NUMBER * mw_classnum s" using t by (simp add: cell_def cell_less)
  have i: "current_cell tid s1 = cell tid s ob" using current_cell_eq [OF s1(5)] by (simp add: cell_def s1(6))
  let ?f = "\<lambda>ob. ob\<lparr>ob_callKey := key, ob_allocated := True, ob_tid := tid\<rparr>"
  let ?c = "counted (cell tid s ob) (class_num ob)"
  let ?s2 = "s1\<lparr>mw_status := ?c (internalFragment ob) 0 0 0 0 0 id (mw_status s1)\<rparr>"
  let ?s3 = "write_object e ?f ?s2"
  let ?s4 = "?s3\<lparr>mw_status := ?c 0 1 0 0 0 0 id (mw_status ?s3)\<rparr>"
  let ?s5 = "?s4\<lparr>mw_status := ?c 0 0 0 0 0 0 dec_blowup (mw_status ?s4)\<rparr>"
  have st3: "status_ok (mw_classnum s) (mw_status ?s3)" and st4: "status_ok (mw_classnum s) (mw_status ?s4)"
    using st by simp_all
  have c3: "current_cell tid ?s3 = cell tid s ob" and c4: "mw_current ?s4 tid = ob_class ob"
    using i s1(5) by (simp_all add: current_cell_def)
  have "allocUpdate tid sz a key s = bindR first (\<lambda>(reused, e, s).
    bindR (on_counters (add_internalFragment (current_cell tid s) (internalFragment (hm_value (mw_objects s) e))) s) (\<lambda>s.
    let s = write_object e ?f s in
    bindR (on_counters (add_allocated (current_cell tid s) 1) s) (\<lambda>s.
    bindR (on_counters (upd_blowup (unat (classSizeIndex (mw_current s tid))) dec_blowup) s) (\<lambda>s.
    Inr (reused, s)))))"
    by (simp add: allocUpdate_def r(1) first_def)
  also have "\<dots> = Inr (reused, ?s5)"
    unfolding f bindR.simps prod.case i val counter_steps(1) [OF st il less] Let_def c3
      counter_steps(2) [OF st3 il less] c4 counter_steps(7) [OF st4 il less] ..
  finally have eq: "allocUpdate tid sz a key s = Inr (reused, ?s5)" .
  have ok2: "waste_ok tid ?s2" using status_ok_step [OF s1(1)] st by (simp add: s1(6))
  have fnd2: "HashMap_find (mw_objects ?s2) a = Inr (Some e)" using s1(2) by simp
  have "class_in (mw_classes ?s2) (ob_class (?f (hm_value (mw_objects ?s2) e)))" using cls val by simp
  note w = write_object_ok [where f = ?f, OF ok2 fnd2 this]
  have ok5: "waste_ok tid ?s5" using status_ok_step [OF status_ok_step [OF w(1)]] st by (simp add: s1(6))
  have fr: "internalFragment (?f ob) = internalFragment ob" by (simp add: internalFragment_def)
  have "mw_status ?s5 = ?c (internalFragment ob) 1 0 0 0 0 dec_blowup (mw_status s1)"
    using st il less by (simp add: counted_counted [of "mw_classnum s"])
  also have "\<dots> = ?c (internalFragment ob) 1 (if reused then - 1 else 0)
            (if reused then 0 else 1) (if reused then 1 else 0) 0 dec_blowup (mw_status s)"
    using h il less ok counted_counted [of "mw_classnum s" "mw_status s"] by (simp add: half_allocated_def waste_ok_def)
  finally have st5: "mw_status ?s5 = \<dots>" .
  have "mw_look ?s5 = (mw_look s)(a \<mapsto> ?f ob)" using w(2) s1(3) val by simp
  then have "allocated_at tid sz a key s (?f ob) ?s5"
    using h ok5 st5 fr unfolding allocated_at_def half_allocated_def by (simp add: reused_def cell_def)
  then show thesis
    using that [of ?s5 "?f ob"] eq h by (simp add: reused_def half_allocated_def)
qed

text \<open>Freeing \<open>ob\<close> at \<open>a\<close>, seen from outside.\<close>

definition freed_at :: "u16 \<Rightarrow> u64 \<Rightarrow> MemoryWaste \<Rightarrow> ObjectStatus \<Rightarrow> MemoryWaste \<Rightarrow> bool" where
  "freed_at tid a s ob s' \<longleftrightarrow> waste_ok tid s' \<and> mw_look s' = (mw_look s)(a \<mapsto> ob\<lparr>ob_allocated := False\<rparr>)
    \<and> mw_classes s' = mw_classes s \<and> mw_minAddr s' = mw_minAddr s \<and> mw_maxAddr s' = mw_maxAddr s
    \<and> length (threadLocalProfilerHashMemory (mw_memory s')) = length (threadLocalProfilerHashMemory (mw_memory s))
    \<and> table_lookup (BTMemMap (mw_backtrace s'), mw_memory s') =
        upd_at (ob_callKey ob) (\<lambda>m. m\<lparr>memAllocated := memAllocated m - ucast (sc_size (ob_class ob))\<rparr>)
          (table_lookup (BTMemMap (mw_backtrace s), mw_memory s))
    \<and> mw_current s' tid = ob_class ob
    \<and> mw_status s' = counted (cell tid s ob) (class_num ob) (- internalFragment ob) (- 1) 1 0 0 1 (\<lambda>x. x + 1) (mw_status s)"

lemma freeUpdate_none:
  assumes ok: "waste_ok tid s" and "\<And>ob. mw_look s a = Some ob \<Longrightarrow> \<not> ob_allocated ob"
  shows "freeUpdate tid a s = Inr (None, s)"
proof -
  obtain r where r: "HashMap_find (mw_objects s) a = Inr r" "mw_look s a = map_option (hm_value (mw_objects s)) r"
    using ok table_find [of "unat tid" "mw_objects s" "mw_memory s" a] by (auto simp: waste_ok_def)
  show ?thesis
  proof (cases r)
    case None
    then show ?thesis by (simp add: freeUpdate_def r(1))
  next
    case (Some e)
    then have "\<not> ob_allocated (hm_value (mw_objects s) e)" using assms(2) r(2) by simp
    then show ?thesis by (simp add: freeUpdate_def r(1) Some)
  qed
qed

lemma freeUpdate_eq:
  assumes ok: "waste_ok tid s" and l: "mw_look s a = Some ob" and live: "ob_allocated ob"
  obtains s' where "freeUpdate tid a s = Inr (Some (ob\<lparr>ob_allocated := False\<rparr>), s')" and "freed_at tid a s ob s'"
proof -
  obtain e where e: "HashMap_find (mw_objects s) a = Inr (Some e)" and val: "hm_value (mw_objects s) e = ob"
    using l unfolding table_lookup_Some by blast
  have cls: "class_in (mw_classes s) (ob_class ob)" and st: "status_ok (mw_classnum s) (mw_status s)"
    and t: "unat tid < MAX_THREAD_NUMBER" and sites: "table_invar (unat tid) (BTMemMap (mw_backtrace s), mw_memory s)"
    using ok l by (auto simp: waste_ok_def)
  have less: "class_num ob < mw_classnum s" using cls by (simp add: class_in_def word_less_nat_alt)
  then have il: "cell tid s ob < MAX_THREAD_NUMBER * mw_classnum s" using t by (simp add: cell_def cell_less)
  obtain bt where bt: "subMem (ob_callKey ob) (sc_size (ob_class ob)) (mw_backtrace s) = Inr (mw_backtrace s\<lparr>BTMemMap := bt\<rparr>)"
      "table_invar (unat tid) (bt, mw_memory s)"
      "table_lookup (bt, mw_memory s) = upd_at (ob_callKey ob) (\<lambda>m. m\<lparr>memAllocated := memAllocated m - ucast (sc_size (ob_class ob))\<rparr>)
          (table_lookup (BTMemMap (mw_backtrace s), mw_memory s))"
    using upd_backtrace_spec [OF sites] unfolding subMem_def by blast
  let ?c = "counted (cell tid s ob) (class_num ob)" and ?f = "\<lambda>ob. ob\<lparr>ob_allocated := False\<rparr>"
  let ?s1 = "set_current tid (ob_class ob) s"
  let ?s2 = "?s1\<lparr>mw_status := ?c (- internalFragment ob) 0 0 0 0 0 id (mw_status ?s1)\<rparr>"
  let ?s2' = "?s2\<lparr>mw_backtrace := mw_backtrace s\<lparr>BTMemMap := bt\<rparr>\<rparr>"
  let ?s3 = "write_object e ?f ?s2'"
  let ?s4 = "?s3\<lparr>mw_status := ?c 0 0 0 0 0 1 id (mw_status ?s3)\<rparr>"
  let ?s5 = "?s4\<lparr>mw_status := ?c 0 (- 1) 0 0 0 0 id (mw_status ?s4)\<rparr>"
  let ?s6 = "?s5\<lparr>mw_status := ?c 0 0 1 0 0 0 id (mw_status ?s5)\<rparr>"
  let ?s7 = "?s6\<lparr>mw_status := ?c 0 0 0 0 0 0 (\<lambda>x. x + 1) (mw_status ?s6)\<rparr>"
  have cur: "mw_current ?s1 tid = ob_class ob" "mw_current ?s6 tid = ob_class ob" by (simp_all add: set_current_def)
  have cell: "current_cell tid ?s1 = cell tid s ob" "current_cell tid ?s3 = cell tid s ob"
      "current_cell tid ?s4 = cell tid s ob" "current_cell tid ?s5 = cell tid s ob"
    using current_cell_eq [OF cur(1)] by (simp_all add: current_cell_def set_current_def cell_def)
  have same: "mw_status ?s1 = mw_status s" "mw_backtrace ?s2 = mw_backtrace s" "mw_classes ?s1 = mw_classes s"
    "mw_memory ?s1 = mw_memory s" "mw_objects ?s1 = mw_objects s" "mw_minAddr ?s1 = mw_minAddr s" "mw_maxAddr ?s1 = mw_maxAddr s"
    by (simp_all add: set_current_def)
  have sts: "status_ok (mw_classnum s) (mw_status ?s1)" "status_ok (mw_classnum s) (mw_status ?s3)"
      "status_ok (mw_classnum s) (mw_status ?s4)" "status_ok (mw_classnum s) (mw_status ?s5)"
      "status_ok (mw_classnum s) (mw_status ?s6)"
    using st by (simp_all add: same)
  have v7: "hm_value (mw_objects ?s7) e = ?f ob" using val by (simp add: write_object_def same)
  have "freeUpdate tid a s = bindR (on_counters (add_internalFragment (current_cell tid ?s1) (- internalFragment ob)) ?s1) (\<lambda>s.
         bindR (subMem (ob_callKey ob) (sc_size (ob_class ob)) (mw_backtrace s)) (\<lambda>bt.
         let s = write_object e (\<lambda>ob. ob\<lparr>ob_allocated := False\<rparr>) (s\<lparr>mw_backtrace := bt\<rparr>) in
         bindR (on_counters (add_free (current_cell tid s)) s) (\<lambda>s.
         bindR (on_counters (add_allocated (current_cell tid s) (- 1)) s) (\<lambda>s.
         bindR (on_counters (add_freelist (current_cell tid s) 1) s) (\<lambda>s.
         bindR (on_counters (upd_blowup (unat (classSizeIndex (mw_current s tid))) (\<lambda>x. x + 1)) s) (\<lambda>s.
         Inr (Some (hm_value (mw_objects s) e), s)))))))"
    using live by (simp add: freeUpdate_def e val Let_def)
  also have "\<dots> = Inr (Some (?f ob), ?s7)"
    unfolding cell(1) counter_steps(1) [OF sts(1) il less] bindR.simps same(2) bt(1) Let_def cell(2)
      counter_steps(6) [OF sts(2) il less] cell(3) counter_steps(2) [OF sts(3) il less] cell(4)
      counter_steps(3) [OF sts(4) il less] cur(2) counter_steps(7) [OF sts(5) il less] v7 ..
  finally have eq: "freeUpdate tid a s = Inr (Some (?f ob), ?s7)" .
  have ok2: "waste_ok tid ?s2'"
    using set_current_ok(2) [OF ok cls, of "ob_class ob"] st bt(2) by (simp add: waste_ok_def same)
  have fnd2: "HashMap_find (mw_objects ?s2') a = Inr (Some e)" using e by (simp add: same)
  have "class_in (mw_classes ?s2') (ob_class (?f (hm_value (mw_objects ?s2') e)))" using cls val by (simp add: same)
  note w = write_object_ok [where f = ?f, OF ok2 fnd2 this]
  have "waste_ok tid ?s7"
    using status_ok_step [OF status_ok_step [OF status_ok_step [OF status_ok_step [OF w(1)]]]] st by (simp add: same)
  moreover have "mw_look ?s7 = (mw_look s)(a \<mapsto> ?f ob)" using w(2) val by (simp add: same)
  moreover have "mw_status ?s7 = ?c (- internalFragment ob) (- 1) 1 0 0 1 (\<lambda>x. x + 1) (mw_status s)"
    using st il less by (simp add: same counted_counted [of "mw_classnum s"] comp_def)
  moreover have "mw_current ?s7 tid = ob_class ob" using cur(2) by simp
  ultimately have "freed_at tid a s ob ?s7" using bt(3) by (simp add: freed_at_def same)
  with eq that show thesis by blast
qed

section \<open>A sample\<close>

text \<open>Four classes and one for large objects, sized 16, 32, 64 and 128.\<close>

definition sample_classes :: SizeClasses where
  "sample_classes = \<lparr>sc_status = ProgramStatus_zero\<lparr>largeObjectThreshold := 128\<rparr>, largeObjectAlignment = 4096,
    allocatorStyleIsBibop = True, numberOfClassSizes = 5, classSizes = [16, 32, 64, 128] @ replicate 8266 0\<rparr>"

definition no_class :: SizeClassSizeAndIndex where
  "no_class = \<lparr>classSizeIndex = 0, sc_size = 0, sc_classSize = 0\<rparr>"

definition sample_sites :: "(u8, BackTraceMemory) HashMap" where
  "sample_sites = HashMap_initialize 0x200000000000 hash_uint8_t compare_uint8_t 256
    (empty_map hash_uint8_t compare_uint8_t 96 newBackTraceMemory 0)"

definition sample_waste :: "(u64, ObjectStatus) HashMap \<Rightarrow> MyMalloc \<Rightarrow> u64 \<Rightarrow> u64 \<Rightarrow> MemoryWaste" where
  "sample_waste objects memory lo hi =
    \<lparr>mw_objects = objects, mw_memory = memory, mw_classes = sample_classes,
     mw_cache = \<lambda>_. no_class, mw_current = \<lambda>_. no_class,
     mw_status = MemoryWasteStatus_initialize 5, mw_record = MemoryWasteStatus_initialize 5,
     mw_global = MemoryWasteGlobalStatus_initialize 5,
     mw_total = \<lparr>mt_internalFragment = 0, mt_numOfAllocatedObjects = 0, mt_numOfFreelistObjects = 0,
       mt_numOfNewAllocations = 0, mt_numOfReusedAllocations = 0, mt_numOfFree = 0, mt_externalFragment = 0,
       mt_memoryBlowup = 0\<rparr>,
     mw_minAddr = lo, mw_maxAddr = hi,
     mw_backtrace = \<lparr>BTMemMap = sample_sites, BTMemMapRecord = sample_sites, bt_recordedEntries = None\<rparr>\<rparr>"

lemma sample_sites_ok:
  assumes "mm \<in> {small_memory, sample_memory}"
  shows "table_invar 0 (sample_sites, mm)" and "table_lookup (sample_sites, mm) = Map.empty"
proof -
  have "\<forall>i < 256. (0x200000000000 :: u64) + of_nat i * 24 \<notin> owned (threadLocalProfilerHashMemory mm)"
  proof (intro allI impI)
    fix i :: nat assume "i < 256"
    then have "unat ((0x200000000000 :: u64) + of_nat i * 24) = 0x200000000000 + 24 * i"
      using unat_bucket_addr [of "0x200000000000" 256 i] by simp
    moreover have "unat x < 0x4000 \<or> 0x7f0000000000 \<le> unat x"
      if "x \<in> owned (threadLocalProfilerHashMemory mm)" for x
      using that assms by (auto simp: owned_def region_span_def small_memory_def sample_region word_le_nat_alt word_less_nat_alt)
    ultimately show "(0x200000000000 :: u64) + of_nat i * 24 \<notin> owned (threadLocalProfilerHashMemory mm)"
      using \<open>i < 256\<close> by fastforce
  qed
  moreover have "regions_ok (threadLocalProfilerHashMemory mm)" "0 < length (threadLocalProfilerHashMemory mm)"
    using assms by (auto simp: regions_ok_def small_memory_def sample_region)
  ultimately show "table_invar 0 (sample_sites, mm)" and "table_lookup (sample_sites, mm) = Map.empty"
    using table_invar_initialize [of "empty_map hash_uint8_t compare_uint8_t 96 newBackTraceMemory 0" 256 "0x200000000000"
        compare_uint8_t 0 mm hash_uint8_t]
    by (simp_all add: sample_sites_def empty_map_def compare_uint8_t_def)
qed

end
