(* ===== verification/MemoryWaste_Counts.thy ===== *)
theory MemoryWaste_Counts
  imports MemoryWaste_Correct
begin

text \<open>
  The counters of the memory waste component are exact: through any allocations and frees of any threads
  they are the numbers and sizes of the objects in the table. The report sums them over the threads.
\<close>

section \<open>Sums over the cells\<close>

text \<open>The cells of one class, over all threads.\<close>

definition column :: "nat \<Rightarrow> 'a :: ab_group_add list \<Rightarrow> nat \<Rightarrow> 'a" where
  "column n xs c = (\<Sum>t<MAX_THREAD_NUMBER. xs ! (t * n + c))"

lemma cell_eq_iff:
  fixes t t' c c' n :: nat
  assumes "c < n" and "c' < n"
  shows "t * n + c = t' * n + c' \<longleftrightarrow> t = t' \<and> c = c'"
proof
  assume eq: "t * n + c = t' * n + c'"
  have "(t * n + c) div n = t" "(t' * n + c') div n = t'" using assms by simp_all
  with eq show "t = t' \<and> c = c'" by simp
qed simp

lemma nth_update: "j < length xs \<Longrightarrow> xs[i := v] ! j = (if i = j then v else xs ! j)"
  by (cases "i = j") auto

lemma column_update:
  assumes "length xs = MAX_THREAD_NUMBER * n" and "t < MAX_THREAD_NUMBER" and "c < n" and "c' < n"
  shows "column n (xs[t * n + c := xs ! (t * n + c) + d]) c' = column n xs c' + (if c' = c then d else 0)"
proof -
  have "xs[t * n + c := xs ! (t * n + c) + d] ! (t' * n + c')
      = xs ! (t' * n + c') + (if t' = t then if c' = c then d else 0 else 0)" if "t' < MAX_THREAD_NUMBER" for t'
    using cell_less [OF that assms(4)] assms(1) cell_eq_iff [OF assms(3,4), of t t'] by (auto simp: nth_update)
  then show ?thesis using assms(2) by (simp add: column_def sum.distrib)
qed

lemma sum_list_add_at:
  "i < length xs \<Longrightarrow> sum_list (xs[i := xs ! i + d]) = sum_list xs + d" for xs :: "'a :: ab_group_add list"
proof (induction xs arbitrary: i)
  case (Cons x xs)
  then show ?case by (cases i) (simp_all add: ac_simps)
qed simp

section \<open>Counters and objects\<close>

definition live_in :: "(u64 \<Rightarrow> ObjectStatus option) \<Rightarrow> nat \<Rightarrow> u64 set" where
  "live_in obj c = {a. \<exists>ob. obj a = Some ob \<and> ob_allocated ob \<and> class_num ob = c}"

definition dead :: "(u64 \<Rightarrow> ObjectStatus option) \<Rightarrow> u64 set" where
  "dead obj = {a. \<exists>ob. obj a = Some ob \<and> \<not> ob_allocated ob}"

definition class_exact :: "(u64 \<Rightarrow> ObjectStatus option) \<Rightarrow> nat \<Rightarrow> MemoryWasteStatus \<Rightarrow> nat \<Rightarrow> bool" where
  "class_exact obj n st c \<longleftrightarrow> column n (ms_numOfAllocatedObjects st) c = of_nat (card (live_in obj c))
    \<and> column n (ms_internalFragment st) c = (\<Sum>a\<in>live_in obj c. internalFragment (the (obj a)))"

definition totals_exact :: "(u64 \<Rightarrow> ObjectStatus option) \<Rightarrow> MemoryWasteStatus \<Rightarrow> bool" where
  "totals_exact obj st \<longleftrightarrow> sum_list (ms_numOfFreelistObjects st) = of_nat (card (dead obj))
    \<and> sum_list (ms_numOfNewAllocations st) = of_nat (card (dom obj))"

definition cells_consistent :: "MemoryWasteStatus \<Rightarrow> bool" where
  "cells_consistent st \<longleftrightarrow> (\<forall>i < length (ms_numOfAllocatedObjects st).
    ms_numOfAllocatedObjects st ! i = ms_numOfNewAllocations st ! i + ms_numOfReusedAllocations st ! i - ms_numOfFree st ! i)"

definition counts_exact :: "MemoryWaste \<Rightarrow> bool" where
  "counts_exact s \<longleftrightarrow> (\<forall>c < mw_classnum s. class_exact (mw_look s) (mw_classnum s) (mw_status s) c)
    \<and> totals_exact (mw_look s) (mw_status s) \<and> cells_consistent (mw_status s)
    \<and> (\<forall>a \<in> dom (mw_look s). mw_minAddr s \<le> a \<and> a \<le> mw_maxAddr s)"

lemma finite_live_dead:
  assumes "finite (dom obj)" shows "finite (live_in obj c)" and "finite (dead obj)"
  using assms by (auto intro!: finite_subset [OF _ assms] simp: live_in_def dead_def)

lemma cells_consistent_counted:
  assumes "cells_consistent st" and "status_ok n st" and "al = nw + re - fr"
  shows "cells_consistent (counted i c frag al fl nw re fr b st)"
  using assms by (auto simp: cells_consistent_def counted_def status_ok_def nth_update algebra_simps)

lemma class_exact_counted:
  assumes ex: "class_exact obj n st c'" and st: "status_ok n st" and t: "t < MAX_THREAD_NUMBER" and c: "c < n" "c' < n"
    and al: "c' = c \<Longrightarrow> of_nat (card (live_in obj' c)) = of_nat (card (live_in obj c)) + al"
    and fr: "c' = c \<Longrightarrow> (\<Sum>a\<in>live_in obj' c. internalFragment (the (obj' a))) = (\<Sum>a\<in>live_in obj c. internalFragment (the (obj a))) + frag"
    and other: "c' \<noteq> c \<Longrightarrow> live_in obj' c' = live_in obj c' \<and> (\<forall>a \<in> live_in obj c'. obj' a = obj a)"
  shows "class_exact obj' n (counted (t * n + c) k frag al fl nw re x b st) c'"
proof -
  note col = column_update [OF _ t c]
  have "length (ms_numOfAllocatedObjects st) = MAX_THREAD_NUMBER * n" "length (ms_internalFragment st) = MAX_THREAD_NUMBER * n"
    using st by (auto simp: status_ok_def)
  note cols = col [OF this(1), of al] col [OF this(2), of frag]
  show ?thesis
  proof (cases "c' = c")
    case True
    with ex al fr cols show ?thesis by (simp add: class_exact_def counted_def)
  next
    case False
    then have "(\<Sum>a\<in>live_in obj' c'. internalFragment (the (obj' a))) = (\<Sum>a\<in>live_in obj c'. internalFragment (the (obj a)))"
      using other by (intro sum.cong) auto
    with False ex other cols show ?thesis by (simp add: class_exact_def counted_def)
  qed
qed

lemma totals_exact_counted:
  assumes "totals_exact obj st" and "status_ok n st" and "i < MAX_THREAD_NUMBER * n"
    and "of_nat (card (dead obj')) = of_nat (card (dead obj)) + fl" and "of_nat (card (dom obj')) = of_nat (card (dom obj)) + nw"
  shows "totals_exact obj' (counted i c frag al fl nw re fr b st)"
  using assms by (simp add: totals_exact_def counted_def status_ok_def sum_list_add_at)

section \<open>Operations keep the counters exact\<close>

lemma allocation_counted:
  assumes ok: "waste_ok tid s" and ex: "counts_exact s" and at: "allocated_at tid sz a key s ob s'"
    and free: "\<And>ob. mw_look s a = Some ob \<Longrightarrow> \<not> ob_allocated ob"
  shows "counts_exact s'"
proof -
  let ?n = "mw_classnum s" and ?obj = "mw_look s" and ?c = "class_num ob"
  have t: "unat tid < MAX_THREAD_NUMBER" and st: "status_ok ?n (mw_status s)" and fin: "finite (dom ?obj)"
    using ok finite_table [of "unat tid" "(mw_objects s, mw_memory s)"] by (auto simp: waste_ok_def)
  have look: "mw_look s' = ?obj(a \<mapsto> ob)" and ob: "ob_allocated ob" and cls: "mw_classes s' = mw_classes s" and ok': "waste_ok tid s'"
    using at by (auto simp: allocated_at_def)
  have c: "?c < ?n"
    using ok' fun_cong [OF look, of a] cls by (auto simp: waste_ok_def class_in_def word_less_nat_alt)
  have new: "a \<notin> live_in ?obj d" for d using free by (auto simp: live_in_def)
  have live: "live_in (mw_look s') d = (if d = ?c then insert a (live_in ?obj d) else live_in ?obj d)" for d
    unfolding look using ob free by (auto simp: live_in_def)
  have f: "finite (live_in ?obj ?c)" "finite (dead ?obj)" using fin by (rule finite_live_dead)+
  have sums: "(\<Sum>b\<in>live_in ?obj ?c. internalFragment (the (mw_look s' b))) = (\<Sum>b\<in>live_in ?obj ?c. internalFragment (the (?obj b)))"
    using new unfolding look by (intro sum.cong) auto
  have dd: "dead (mw_look s') = dead ?obj - {a}" and dm: "dom (mw_look s') = insert a (dom ?obj)"
    unfolding look using ob by (auto simp: dead_def)
  have da: "a \<in> dead ?obj \<longleftrightarrow> ?obj a \<noteq> None" using free by (auto simp: dead_def)
  have "of_nat (card (dead (mw_look s'))) = of_nat (card (dead ?obj)) + (if ?obj a \<noteq> None then - 1 else 0 :: u32)"
  proof (cases "?obj a = None")
    case False
    then have "a \<in> dead ?obj" using da by simp
    from card_Suc_Diff1 [OF f(2) this] have "card (dead ?obj) = Suc (card (dead ?obj - {a}))" by (rule sym)
    with False show ?thesis by (simp add: dd del: card_Diff_insert)
  qed (use da in \<open>simp add: dd\<close>)
  moreover have "of_nat (card (dom (mw_look s'))) = of_nat (card (dom ?obj)) + (if ?obj a \<noteq> None then 0 else 1 :: u32)"
    using fin by (auto simp: dm card_insert_if)
  moreover have stat: "mw_status s' = counted (cell tid s ob) ?c (internalFragment ob) 1 (if ?obj a \<noteq> None then - 1 else 0)
            (if ?obj a \<noteq> None then 0 else 1) (if ?obj a \<noteq> None then 1 else 0) 0 dec_blowup (mw_status s)"
    using at by (simp add: allocated_at_def Let_def)
  ultimately have "totals_exact (mw_look s') (mw_status s')"
    using ex t c totals_exact_counted [OF _ st, of ?obj "cell tid s ob"] by (simp add: counts_exact_def cell_def cell_less)
  moreover have "class_exact (mw_look s') ?n (mw_status s') d" if "d < ?n" for d
    unfolding stat cell_def
  proof (rule class_exact_counted [OF _ st t c that])
    show "class_exact ?obj ?n (mw_status s) d" using ex that by (simp add: counts_exact_def)
    show "of_nat (card (live_in (mw_look s') ?c)) = of_nat (card (live_in ?obj ?c)) + (1 :: u32)"
      using f(1) new by (simp add: live)
    show "(\<Sum>b\<in>live_in (mw_look s') ?c. internalFragment (the (mw_look s' b)))
        = (\<Sum>b\<in>live_in ?obj ?c. internalFragment (the (?obj b))) + internalFragment ob"
      using f(1) new fun_cong [OF look, of a] by (simp add: live sums)
    show "d \<noteq> ?c \<Longrightarrow> live_in (mw_look s') d = live_in ?obj d \<and> (\<forall>b \<in> live_in ?obj d. mw_look s' b = ?obj b)"
      using new [of d] by (auto simp: live) (auto simp: look)
  qed
  moreover have "cells_consistent (mw_status s')"
    unfolding stat using ex st by (intro cells_consistent_counted) (auto simp: counts_exact_def)
  moreover have "\<forall>b \<in> dom (mw_look s'). mw_minAddr s' \<le> b \<and> b \<le> mw_maxAddr s'"
    using at ex unfolding counts_exact_def allocated_at_def look dm
    by (auto simp: Let_def min_le_iff_disj le_max_iff_disj)
  ultimately show ?thesis using cls by (simp add: counts_exact_def)
qed

lemma free_counted:
  assumes ok: "waste_ok tid s" and ex: "counts_exact s" and l: "mw_look s a = Some ob" and live: "ob_allocated ob"
    and at: "freed_at tid a s ob s'"
  shows "counts_exact s'"
proof -
  let ?n = "mw_classnum s" and ?obj = "mw_look s" and ?c = "class_num ob"
  have t: "unat tid < MAX_THREAD_NUMBER" and st: "status_ok ?n (mw_status s)" and fin: "finite (dom ?obj)"
    and c: "?c < ?n"
    using ok finite_table [of "unat tid" "(mw_objects s, mw_memory s)"] l
    by (auto simp: waste_ok_def class_in_def word_less_nat_alt)
  have look: "mw_look s' = ?obj(a \<mapsto> ob\<lparr>ob_allocated := False\<rparr>)" and cls: "mw_classes s' = mw_classes s"
    and stat: "mw_status s' = counted (cell tid s ob) ?c (- internalFragment ob) (- 1) 1 0 0 1 (\<lambda>x. x + 1) (mw_status s)"
    using at by (auto simp: freed_at_def)
  have mem: "a \<in> live_in ?obj d \<longleftrightarrow> d = ?c" for d using l live by (auto simp: live_in_def)
  have lv: "live_in (mw_look s') d = live_in ?obj d - {a}" for d unfolding look by (auto simp: live_in_def)
  have f: "finite (live_in ?obj ?c)" "finite (dead ?obj)" using fin by (rule finite_live_dead)+
  have sums: "(\<Sum>b\<in>live_in ?obj ?c - {a}. internalFragment (the (mw_look s' b))) = (\<Sum>b\<in>live_in ?obj ?c - {a}. internalFragment (the (?obj b)))"
    unfolding look by (intro sum.cong) auto
  have "(\<Sum>b\<in>live_in ?obj ?c. internalFragment (the (?obj b))) = internalFragment ob + (\<Sum>b\<in>live_in ?obj ?c - {a}. internalFragment (the (?obj b)))"
    using f(1) mem l by (subst sum.remove [of _ a]) auto
  note frag = this
  have card: "card (live_in ?obj ?c) = Suc (card (live_in ?obj ?c - {a}))"
    using card_Suc_Diff1 [OF f(1), of a] mem by simp
  have dd: "dead (mw_look s') = insert a (dead ?obj)" and na: "a \<notin> dead ?obj" and dm: "dom (mw_look s') = dom ?obj"
    unfolding look using l live by (auto simp: dead_def)
  have "totals_exact (mw_look s') (mw_status s')"
    unfolding stat using ex t c f(2) na
    by (intro totals_exact_counted [OF _ st]) (simp_all add: counts_exact_def cell_def cell_less dd dm)
  moreover have "class_exact (mw_look s') ?n (mw_status s') d" if "d < ?n" for d
    unfolding stat cell_def
  proof (rule class_exact_counted [OF _ st t c that])
    show "class_exact ?obj ?n (mw_status s) d" using ex that by (simp add: counts_exact_def)
    show "of_nat (card (live_in (mw_look s') ?c)) = of_nat (card (live_in ?obj ?c)) + (- 1 :: u32)"
      by (simp add: card lv)
    show "(\<Sum>b\<in>live_in (mw_look s') ?c. internalFragment (the (mw_look s' b)))
        = (\<Sum>b\<in>live_in ?obj ?c. internalFragment (the (?obj b))) + - internalFragment ob"
      by (simp add: lv sums frag)
    show "d \<noteq> ?c \<Longrightarrow> live_in (mw_look s') d = live_in ?obj d \<and> (\<forall>b \<in> live_in ?obj d. mw_look s' b = ?obj b)"
      using mem [of d] by (auto simp: lv) (auto simp: look)
  qed
  moreover have "cells_consistent (mw_status s')"
    unfolding stat using ex st by (intro cells_consistent_counted) (auto simp: counts_exact_def)
  moreover have "\<forall>b \<in> dom (mw_look s'). mw_minAddr s' \<le> b \<and> b \<le> mw_maxAddr s'"
    using at ex unfolding counts_exact_def freed_at_def dm by auto
  ultimately show ?thesis using cls by (simp add: counts_exact_def)
qed

section \<open>Runs\<close>

text \<open>
  Any threads with a region of their own allocate and free in any order. The profiler sees every free, so
  an address that is allocated is not in use.
\<close>

definition thread_ok :: "u16 \<Rightarrow> MemoryWaste \<Rightarrow> bool" where
  "thread_ok tid s \<longleftrightarrow> unat tid < MAX_THREAD_NUMBER \<and> unat tid < length (threadLocalProfilerHashMemory (mw_memory s))"

inductive waste_run :: "MemoryWaste \<Rightarrow> MemoryWaste \<Rightarrow> bool" for s0 where
  start: "waste_run s0 s0"
| alloc: "waste_run s0 s \<Longrightarrow> thread_ok tid s \<Longrightarrow> (\<And>ob. mw_look s a = Some ob \<Longrightarrow> \<not> ob_allocated ob)
    \<Longrightarrow> (mw_look s a = None \<Longrightarrow> table_room (unat tid) (mw_objects s, mw_memory s) 1)
    \<Longrightarrow> allocUpdate tid sz a key s = Inr (reused, s') \<Longrightarrow> waste_run s0 s'"
| free: "waste_run s0 s \<Longrightarrow> thread_ok tid s \<Longrightarrow> freeUpdate tid a s = Inr (r, s') \<Longrightarrow> waste_run s0 s'"

lemma table_invar_thread:
  "table_invar t (hm, mm) \<Longrightarrow> u < length (threadLocalProfilerHashMemory mm) \<Longrightarrow> table_invar u (hm, mm)"
  by (auto simp: table_invar_def)

lemma waste_ok_thread: "waste_ok t s \<Longrightarrow> thread_ok u s \<Longrightarrow> waste_ok u s"
  by (auto simp: waste_ok_def thread_ok_def intro: table_invar_thread)

lemma thread_ok_same:
  "length (threadLocalProfilerHashMemory (mw_memory s')) = length (threadLocalProfilerHashMemory (mw_memory s))
    \<Longrightarrow> thread_ok t s' = thread_ok t s"
  by (simp add: thread_ok_def)

lemma waste_ok_has_thread: "waste_ok t s \<Longrightarrow> thread_ok t s"
  by (auto simp: waste_ok_def thread_ok_def table_invar_def)

lemma run_invariant:
  assumes "waste_run s0 s" and "waste_ok t s0" and "counts_exact s0"
  shows "waste_ok t s \<and> counts_exact s"
  using assms(1)
proof induction
  case start
  with assms show ?case by simp
next
  case (alloc s tid a sz key reused s')
  have ok: "waste_ok tid s" using alloc waste_ok_thread by blast
  obtain ob where at: "allocated_at tid sz a key s ob s'"
    using allocUpdate_eq [OF ok alloc(4)] alloc(5) by (metis Inr_inject Pair_inject)
  have th: "thread_ok u s' = thread_ok u s" for u
    using at by (intro thread_ok_same) (simp add: allocated_at_def)
  have "counts_exact s'" using allocation_counted [OF ok _ at alloc(3)] alloc.IH by simp
  moreover have "waste_ok tid s'" using at by (simp add: allocated_at_def)
  ultimately show ?case using waste_ok_thread waste_ok_has_thread alloc.IH th by blast
next
  case (free s tid a r s')
  have ok: "waste_ok tid s" using free waste_ok_thread by blast
  show ?case
  proof (cases "\<exists>ob. mw_look s a = Some ob \<and> ob_allocated ob")
    case False
    then have "s' = s" using freeUpdate_none [OF ok, of a] free(3) by auto
    with free.IH show ?thesis by simp
  next
    case True
    then obtain ob where ob: "mw_look s a = Some ob" "ob_allocated ob" by blast
    have at: "freed_at tid a s ob s'" using freeUpdate_eq [OF ok ob] free(3) by (metis Inr_inject Pair_inject)
    have th: "thread_ok u s' = thread_ok u s" for u using at by (intro thread_ok_same) (simp add: freed_at_def)
    have "counts_exact s'" using free_counted [OF ok _ ob at] free.IH by simp
    moreover have "waste_ok tid s'" using at by (simp add: freed_at_def)
    ultimately show ?thesis using waste_ok_thread waste_ok_has_thread free.IH th by blast
  qed
qed

text \<open>A fresh component counts exactly.\<close>

lemma column_replicate [simp]: "c < n \<Longrightarrow> column n (replicate (MAX_THREAD_NUMBER * n) 0) c = 0"
  by (simp add: column_def cell_less)

lemma fresh_counts:
  assumes "mw_look s = Map.empty" and "mw_status s = MemoryWasteStatus_initialize (numberOfClassSizes (mw_classes s))"
  shows "counts_exact s" and "status_ok (mw_classnum s) (mw_status s)"
  using assms
  by (auto simp: counts_exact_def class_exact_def totals_exact_def cells_consistent_def live_in_def dead_def
      MemoryWasteStatus_initialize_def Let_def status_ok_def sum_list_replicate)

section \<open>The report\<close>

text \<open>\<open>globalize\<close> adds to every class the cells of the class of all threads.\<close>

definition column_to :: "nat \<Rightarrow> nat \<Rightarrow> 'a :: ab_group_add list \<Rightarrow> nat \<Rightarrow> 'a" where
  "column_to m n xs c = (\<Sum>t<m. xs ! (t * n + c))"

definition global_ok :: "nat \<Rightarrow> MemoryWasteGlobalStatus \<Rightarrow> bool" where
  "global_ok n g \<longleftrightarrow> length (mg_internalFragment g) = n \<and> length (mg_numOfAllocatedObjects g) = n
    \<and> length (mg_numOfFreelistObjects g) = n \<and> length (mg_numOfNewAllocations g) = n
    \<and> length (mg_numOfReusedAllocations g) = n \<and> length (mg_numOfFree g) = n \<and> length (mg_memoryBlowup g) = n"

definition global_class :: "MemoryWasteGlobalStatus \<Rightarrow> nat \<Rightarrow> u64 \<times> u32 \<times> u32 \<times> u32 \<times> u32 \<times> u32" where
  "global_class g c = (mg_internalFragment g ! c, mg_numOfAllocatedObjects g ! c, mg_numOfFreelistObjects g ! c,
    mg_numOfNewAllocations g ! c, mg_numOfReusedAllocations g ! c, mg_numOfFree g ! c)"

definition status_cell :: "MemoryWasteStatus \<Rightarrow> nat \<Rightarrow> u64 \<times> u32 \<times> u32 \<times> u32 \<times> u32 \<times> u32" where
  "status_cell rs i = (ms_internalFragment rs ! i, ms_numOfAllocatedObjects rs ! i, ms_numOfFreelistObjects rs ! i,
    ms_numOfNewAllocations rs ! i, ms_numOfReusedAllocations rs ! i, ms_numOfFree rs ! i)"

fun add6 :: "u64 \<times> u32 \<times> u32 \<times> u32 \<times> u32 \<times> u32 \<Rightarrow> u64 \<times> u32 \<times> u32 \<times> u32 \<times> u32 \<times> u32
    \<Rightarrow> u64 \<times> u32 \<times> u32 \<times> u32 \<times> u32 \<times> u32" where
  "add6 (a, b, c, d, e, f) (a', b', c', d', e', f') = (a + a', b + b', c + c', d + d', e + e', f + f')"

lemma globalize_class_spec:
  assumes "global_ok (unat n) g" and "c < unat n" and "t < 65536"
  shows "global_ok (unat n) (globalize_class n rs t c g)"
    and "global_class (globalize_class n rs t c g) d
      = (if d = c then add6 (global_class g c) (status_cell rs (t * unat n + c)) else global_class g d)"
proof -
  have "unat (of_nat t :: u16) = t" using assms(3) by (intro unat_of_nat_small) simp
  moreover have "unat (of_nat c :: u16) = c"
    using assms(2) unsigned_less [of n, where 'a = nat] by (intro unat_of_nat_small) simp
  ultimately have i: "unat (arrayIndex n (of_nat t) (of_nat c)) = t * unat n + c" by (simp add: unat_arrayIndex)
  show "global_ok (unat n) (globalize_class n rs t c g)"
    using assms by (simp add: globalize_class_def global_ok_def Let_def)
  show "global_class (globalize_class n rs t c g) d
      = (if d = c then add6 (global_class g c) (status_cell rs (t * unat n + c)) else global_class g d)"
    using assms by (auto simp: globalize_class_def global_ok_def global_class_def status_cell_def i Let_def)
qed

lemma globalize_thread_spec:
  assumes "global_ok (unat n) g" and "t < 65536" and "m \<le> unat n"
  shows "global_ok (unat n) (for_loop m (globalize_class n rs t) g)
    \<and> (\<forall>c. global_class (for_loop m (globalize_class n rs t) g) c
      = (if c < m then add6 (global_class g c) (status_cell rs (t * unat n + c)) else global_class g c))"
  using assms
proof (induction m)
  case (Suc m)
  then show ?case
    using globalize_class_spec [of n "for_loop m (globalize_class n rs t) g" m t rs]
    by (auto simp: for_loop_Suc less_Suc_eq)
qed simp

fun cells_upto :: "MemoryWasteStatus \<Rightarrow> nat \<Rightarrow> nat \<Rightarrow> nat \<Rightarrow> u64 \<times> u32 \<times> u32 \<times> u32 \<times> u32 \<times> u32" where
  "cells_upto rs n c m = (column_to m n (ms_internalFragment rs) c, column_to m n (ms_numOfAllocatedObjects rs) c,
    column_to m n (ms_numOfFreelistObjects rs) c, column_to m n (ms_numOfNewAllocations rs) c,
    column_to m n (ms_numOfReusedAllocations rs) c, column_to m n (ms_numOfFree rs) c)"

lemma globalize_waste_spec:
  assumes "global_ok (unat n) g" and "m \<le> MAX_THREAD_NUMBER"
  shows "global_ok (unat n) (globalize_waste m n rs g)
    \<and> (\<forall>c < unat n. global_class (globalize_waste m n rs g) c = add6 (global_class g c) (cells_upto rs (unat n) c m))"
  using assms(2)
proof (induction m)
  case 0
  then show ?case using assms(1) by (auto simp: globalize_waste_def column_to_def global_class_def)
next
  case (Suc m)
  then have IH: "global_ok (unat n) (globalize_waste m n rs g)"
    "\<And>c. c < unat n \<Longrightarrow> global_class (globalize_waste m n rs g) c = add6 (global_class g c) (cells_upto rs (unat n) c m)"
    by auto
  have "m < 65536" using Suc.prems by (simp add: config)
  note nxt = globalize_thread_spec [OF IH(1) this order.refl, of rs]
  have step: "globalize_waste (Suc m) n rs g = for_loop (unat n) (globalize_class n rs m) (globalize_waste m n rs g)"
    by (simp add: globalize_waste_def for_loop_Suc)
  have add: "add6 (add6 x (cells_upto rs k c m)) (status_cell rs (m * k + c)) = add6 x (cells_upto rs k c (Suc m))" for x k c
    by (cases x) (simp add: column_to_def status_cell_def add.assoc)
  show ?case unfolding step using nxt by (simp add: IH(2) add del: cells_upto.simps)
qed

definition empty_waste :: MemoryWaste where
  "empty_waste = sample_waste (HashMap_initialize 0x100000000000 hashAddr compareAddr 256
     (empty_map hashAddr compareAddr 64 (newObjectStatus no_class 0) 0)) sample_memory (- 1) 0"

lemma empty_waste_ok: "waste_ok 0 empty_waste" "counts_exact empty_waste" "mw_look empty_waste = Map.empty"
    "table_room 0 (mw_objects empty_waste, mw_memory empty_waste) 1"
proof -
  let ?em = "empty_map hashAddr compareAddr 64 (newObjectStatus no_class 0) 0"
  let ?hm = "HashMap_initialize 0x100000000000 hashAddr compareAddr 256 ?em"
  have owned: "\<forall>i < 256. (0x100000000000 :: u64) + of_nat i * 24 \<notin> owned (threadLocalProfilerHashMemory sample_memory)"
  proof (intro allI impI)
    fix i :: nat assume i: "i < 256"
    have "unat ((0x100000000000 :: u64) + of_nat i * 24) = 0x100000000000 + 24 * i"
      using unat_bucket_addr [of "0x100000000000" 256 i] i by simp
    with i show "(0x100000000000 :: u64) + of_nat i * 24 \<notin> owned (threadLocalProfilerHashMemory sample_memory)"
      by (simp add: owned_def region_span_def sample_region word_le_nat_alt)
  qed
  have reg: "regions_ok (threadLocalProfilerHashMemory sample_memory)" "0 < length (threadLocalProfilerHashMemory sample_memory)"
    by (simp_all add: regions_ok_def sample_region)
  have fresh: "\<not> hm_initialized ?em" by (simp add: empty_map_def)
  have cmp: "compareAddr a b \<longleftrightarrow> a = b" for a b by (simp add: compareAddr_def)
  have sz: "hm_sizeof_entry ?em = 64" by (simp add: empty_map_def)
  note init = table_invar_initialize [of ?em 256 "0x100000000000" compareAddr 0 sample_memory hashAddr, OF fresh _ _ cmp _ reg(2,1)]
  have inv: "table_invar 0 (?hm, sample_memory)" and look: "table_lookup (?hm, sample_memory) = Map.empty"
    using init sz owned by simp_all
  have e: "mw_objects empty_waste = ?hm" "mw_memory empty_waste = sample_memory" "mw_classes empty_waste = sample_classes"
    "mw_backtrace empty_waste = \<lparr>BTMemMap = sample_sites, BTMemMapRecord = sample_sites, bt_recordedEntries = None\<rparr>"
    "mw_status empty_waste = MemoryWasteStatus_initialize 5" "mw_cache empty_waste = (\<lambda>_. no_class)"
    by (simp_all add: empty_waste_def sample_waste_def)
  have n: "numberOfClassSizes sample_classes = 5" by (simp add: sample_classes_def)
  show l: "mw_look empty_waste = Map.empty" by (simp add: e look)
  show "counts_exact empty_waste" by (rule fresh_counts(1) [OF l]) (simp add: e n)
  have "status_ok (mw_classnum empty_waste) (mw_status empty_waste)"
    by (rule fresh_counts(2) [OF l]) (simp add: e n)
  then show "waste_ok 0 empty_waste"
    using inv look sample_sites_ok(1) [of sample_memory]
    by (simp add: waste_ok_def e) (simp add: classes_ok_def sample_classes_def class_in_def no_class_def config)
  show "table_room 0 (mw_objects empty_waste, mw_memory empty_waste) 1"
    using initialized_counts [OF fresh, of 256 "0x100000000000" compareAddr _ hashAddr] cmp
      HashMap_initialize_rep(5) [OF fresh, of 256 "0x100000000000" compareAddr hashAddr] sz
    by (simp add: e table_room_def sample_region)
qed

lemma sample_class_100: "getClassSizeAndIndex sample_classes 100 no_class
    = Inr (\<lparr>classSizeIndex = 3, sc_size = 100, sc_classSize = 128\<rparr>, \<lparr>classSizeIndex = 3, sc_size = 100, sc_classSize = 128\<rparr>)"
proof -
  have four: "4 = Suc (Suc (Suc (Suc 0)))" by simp
  have "find_class 100 (classSizes sample_classes) 0 4 = Inr (Some 3)" unfolding four by (simp add: sample_classes_def)
  then show ?thesis
    by (simp add: getClassSizeAndIndex_def no_class_def updateValues_def Let_def) (simp add: sample_classes_def ProgramStatus_zero_def)
qed

lemma sample_given:
  assumes "class_given 0 100 a s c" and "mw_classes s = sample_classes" and "mw_cache s 0 = no_class"
    and "\<And>ob. mw_look s a = Some ob \<Longrightarrow> sc_size (ob_class ob) \<noteq> 100"
  shows "unat (classSizeIndex c) = 3"
proof -
  have "\<exists>cache. getClassSizeAndIndex sample_classes 100 no_class = Inr (c, cache)"
    using assms by (auto simp: class_given_def split: if_splits)
  then have "c = \<lparr>classSizeIndex = 3, sc_size = 100, sc_classSize = 128\<rparr>" unfolding sample_class_100 by blast
  then show ?thesis by simp
qed

text \<open>A table of one object of 16 bytes that was freed.\<close>

definition freed_object :: ObjectStatus where
  "freed_object = \<lparr>ob_allocated = False, ob_mark = False, ob_callKey = 3, ob_tid = 0,
    ob_class = \<lparr>classSizeIndex = 0, sc_size = 16, sc_classSize = 16\<rparr>, ob_maxTouchedBytes = 16\<rparr>"

abbreviation freed_waste :: MemoryWaste where
  "freed_waste \<equiv> sample_waste (one_entry freed_object) small_memory 7 7"

lemma freed_waste_ok: "waste_ok 0 freed_waste" "mw_look freed_waste = [7 \<mapsto> freed_object]"
proof -
  have "HashMap_find (one_entry freed_object) k = Inr (if k = 7 then Some 0x2000 else None)" for k
    using HashMap_find_rep [OF one_entry_rep, of freed_object k] by (simp add: one_entry_def)
  then show look: "mw_look freed_waste = [7 \<mapsto> freed_object]"
    by (auto simp: sample_waste_def table_lookup_def fun_eq_iff) (simp add: one_entry_def)
  have "status_ok 5 (MemoryWasteStatus_initialize 5)"
    by (simp add: status_ok_def MemoryWasteStatus_initialize_def Let_def)
  then show "waste_ok 0 freed_waste"
    using one_entry_table [of freed_object] sample_sites_ok(1) [of small_memory] look
    by (simp add: waste_ok_def) (simp add: sample_waste_def classes_ok_def sample_classes_def class_in_def no_class_def
        freed_object_def config)
qed

section \<open>Properties\<close>

text \<open>
  C6: the counters of the memory waste component are exact. Whatever threads allocate and free, in any
  order, the number of allocated objects and the internal fragmentation of a class, summed over the
  threads, are those of the objects in the table that are allocated; the objects on the free list are
  those in the table that are not; every cell has as many objects as were allocated new or reused and
  not freed; and all objects lie between the two addresses the leak check uses.
\<close>

theorem waste_counters_exact:
  assumes "waste_run s0 s" and "waste_ok t s0" and "counts_exact s0"
  shows "counts_exact s"
  using run_invariant [OF assms] ..

theorem waste_counters_exact_witness:
  "\<exists>s. mw_look s 0x5000 \<noteq> None \<and> counts_exact s \<and> column 5 (ms_numOfAllocatedObjects (mw_status s)) 3 = 1"
proof -
  have none: "mw_look empty_waste 0x5000 = None" by (simp add: empty_waste_ok(3))
  obtain ob s where "allocUpdate 0 100 0x5000 9 empty_waste = Inr (mw_look empty_waste 0x5000 \<noteq> None, s)"
    and at: "allocated_at 0 100 0x5000 9 empty_waste ob s"
    by (rule allocUpdate_eq [OF empty_waste_ok(1), of "0x5000" 100 9]) (use empty_waste_ok(4) in simp_all)
  with none have s: "allocUpdate 0 100 0x5000 9 empty_waste = Inr (False, s)" by simp
  have look: "mw_look s = [0x5000 \<mapsto> ob]" and ob: "ob_allocated ob" and cls: "mw_classes s = sample_classes"
    and given: "class_given 0 100 0x5000 empty_waste (ob_class ob)"
    using at empty_waste_ok(3) by (auto simp: allocated_at_def) (simp add: empty_waste_def sample_waste_def)
  have c: "class_num ob = 3"
    by (rule sample_given [OF given]) (simp_all add: none, simp_all add: empty_waste_def sample_waste_def)
  have "thread_ok 0 empty_waste"
    by (simp add: thread_ok_def config empty_waste_def sample_waste_def sample_memory_def)
  then have "waste_run empty_waste s"
    using s none empty_waste_ok(4) by (intro waste_run.alloc [OF waste_run.start]) auto
  from waste_counters_exact [OF this empty_waste_ok(1,2)] have ex: "counts_exact s" .
  have "live_in (mw_look s) 3 = {0x5000}" using ob c by (auto simp: live_in_def look)
  with ex show ?thesis
    using look by (intro exI [of _ s]) (simp add: counts_exact_def class_exact_def cls sample_classes_def)
qed

text \<open>
  an address that is used again for an object of another class is taken off the free list of the new
  class, not off that of its old one: the free list of the old class then counts an object that is not
  free, and that of the new class counts one too few, possibly below zero.
\<close>

definition dead_in :: "(u64 \<Rightarrow> ObjectStatus option) \<Rightarrow> nat \<Rightarrow> u64 set" where
  "dead_in obj c = {a. \<exists>ob. obj a = Some ob \<and> \<not> ob_allocated ob \<and> class_num ob = c}"

theorem reuse_in_another_class_blames_its_freelist:
  assumes ok: "waste_ok tid s" and l: "mw_look s a = Some old" and free: "\<not> ob_allocated old"
    and alloc: "allocUpdate tid sz a key s = Inr (reused, s')" and new: "mw_look s' a = Some ob"
    and other: "class_num ob \<noteq> class_num old"
  shows "card (dead_in (mw_look s) (class_num old)) = card (dead_in (mw_look s') (class_num old)) + 1
    \<and> column (mw_classnum s) (ms_numOfFreelistObjects (mw_status s')) (class_num old)
      = column (mw_classnum s) (ms_numOfFreelistObjects (mw_status s)) (class_num old)
    \<and> dead_in (mw_look s') (class_num ob) = dead_in (mw_look s) (class_num ob)
    \<and> column (mw_classnum s) (ms_numOfFreelistObjects (mw_status s')) (class_num ob)
      = column (mw_classnum s) (ms_numOfFreelistObjects (mw_status s)) (class_num ob) - 1"
proof -
  obtain ob' where at: "allocated_at tid sz a key s ob' s'"
    using allocUpdate_eq [OF ok, of a sz key] alloc l by (metis Inr_inject Pair_inject option.distinct(1))
  have look: "mw_look s' = (mw_look s)(a \<mapsto> ob)" and live: "ob_allocated ob" and cls: "mw_classes s' = mw_classes s"
    and ok': "waste_ok tid s'" and ob': "ob' = ob"
    using at new by (auto simp: allocated_at_def)
  have stat: "ms_numOfFreelistObjects (mw_status s') = (ms_numOfFreelistObjects (mw_status s))
      [cell tid s ob := ms_numOfFreelistObjects (mw_status s) ! cell tid s ob + (- 1)]"
    using at l by (simp add: allocated_at_def counted_def ob')
  have t: "unat tid < MAX_THREAD_NUMBER" and len: "length (ms_numOfFreelistObjects (mw_status s)) = MAX_THREAD_NUMBER * mw_classnum s"
    and c: "class_num ob < mw_classnum s" "class_num old < mw_classnum s"
    using ok ok' l new cls by (auto simp: waste_ok_def status_ok_def class_in_def word_less_nat_alt)
  note col = column_update [OF len t c(1), of _ "- 1", folded cell_def, folded stat]
  have 2: "column (mw_classnum s) (ms_numOfFreelistObjects (mw_status s')) (class_num old)
      = column (mw_classnum s) (ms_numOfFreelistObjects (mw_status s)) (class_num old)"
    using col [OF c(2)] other by simp
  have 4: "column (mw_classnum s) (ms_numOfFreelistObjects (mw_status s')) (class_num ob)
      = column (mw_classnum s) (ms_numOfFreelistObjects (mw_status s)) (class_num ob) - 1"
    using col [OF c(1)] by simp
  have 3: "dead_in (mw_look s') (class_num ob) = dead_in (mw_look s) (class_num ob)"
    unfolding look using l live other by (auto simp: dead_in_def)
  have "finite (dom (mw_look s))" using ok finite_table by (auto simp: waste_ok_def)
  then have fin: "finite (dead_in (mw_look s) (class_num old))"
    by (rule finite_subset [rotated]) (auto simp: dead_in_def)
  have "a \<in> dead_in (mw_look s) (class_num old)" using l free by (simp add: dead_in_def)
  from card_Suc_Diff1 [OF fin this]
  have "card (dead_in (mw_look s) (class_num old)) = Suc (card (dead_in (mw_look s) (class_num old) - {a}))" ..
  moreover have "dead_in (mw_look s') (class_num old) = dead_in (mw_look s) (class_num old) - {a}"
    unfolding look using live other by (auto simp: dead_in_def)
  ultimately show ?thesis using 2 3 4 by simp
qed

theorem reuse_in_another_class_blames_its_freelist_witness:
  "\<exists>s'. allocUpdate 0 100 7 9 freed_waste = Inr (True, s')
    \<and> column 5 (ms_numOfFreelistObjects (mw_status s')) 3 = - 1 \<and> dead_in (mw_look s') 3 = {}"
proof -
  obtain ob s where al: "allocUpdate 0 100 7 9 freed_waste = Inr (mw_look freed_waste 7 \<noteq> None, s)"
    and at: "allocated_at 0 100 7 9 freed_waste ob s"
    by (rule allocUpdate_eq [OF freed_waste_ok(1), of 7 100 9]) (simp_all add: freed_waste_ok(2))
  have given: "class_given 0 100 7 freed_waste (ob_class ob)" and look: "mw_look s 7 = Some ob"
    using at by (auto simp: allocated_at_def)
  have c: "class_num ob = 3"
  proof (rule sample_given [OF given])
    show "sc_size (ob_class b) \<noteq> 100" if "mw_look freed_waste 7 = Some b" for b
      using that freed_waste_ok(2) by (auto simp: freed_object_def)
  qed (simp_all add: sample_waste_def)
  have old: "mw_look freed_waste 7 = Some freed_object" "\<not> ob_allocated freed_object" "class_num freed_object = 0"
    by (simp_all add: freed_waste_ok(2)) (simp_all add: freed_object_def)
  have "class_num ob \<noteq> class_num freed_object" using c old(3) by simp
  note blamed = reuse_in_another_class_blames_its_freelist [OF freed_waste_ok(1) old(1,2) al look this]
  have n: "mw_classnum freed_waste = 5" and st: "mw_status freed_waste = MemoryWasteStatus_initialize 5"
    by (simp_all add: sample_waste_def sample_classes_def)
  have "column 5 (ms_numOfFreelistObjects (MemoryWasteStatus_initialize 5)) 3 = 0"
    by (simp add: MemoryWasteStatus_initialize_def Let_def)
  then have "column 5 (ms_numOfFreelistObjects (mw_status s)) 3 = - 1" using blamed [THEN conjunct2, THEN conjunct2, THEN conjunct2] by (simp add: c n st)
  moreover have "dead_in (mw_look s) 3 = {}"
    unfolding blamed [THEN conjunct2, THEN conjunct2, THEN conjunct1, unfolded c freed_waste_ok(2)] by (auto simp: dead_in_def freed_object_def split: if_splits)
  ultimately show ?thesis using al old(1) by (intro exI [of _ s]) simp
qed

end
