(* ===== verification/MemoryWaste_Report.thy ===== *)
theory MemoryWaste_Report
  imports MemoryWaste_Counts
begin

text \<open>
  What the report says of the memory: the parts it splits the unused memory into, how far its peak can be
  from the true one, and what the memory per call site at the peak really is.
\<close>

section \<open>Signed words\<close>

lemma sint_sub_small:
  fixes a b :: u64
  assumes "0 \<le> sint a" and "0 \<le> sint b"
  shows "sint (a - b) = sint a - sint b"
proof -
  have "sint a < 2 ^ 63" "sint b < 2 ^ 63" using sint_lt [of a] sint_lt [of b] by simp_all
  with assms show ?thesis by (simp add: sint_word_ariths signed_take_bit_int_eq_self)
qed

lemma sint_MINs: "sint (MINs a b) = min (sint a) (sint b)"
  by (simp add: MINs_def word_sless_alt min_def)

lemma sint_MAXs: "sint (MAXs a b) = max (sint a) (sint b)"
  by (simp add: MAXs_def word_sless_alt max_def)

section \<open>The number of entries of a table\<close>

lemma table_lookup_totalEntry [simp]: "table_lookup (hm\<lparr>hm_totalEntry := n\<rparr>, mm) = table_lookup (hm, mm)"
proof -
  have "getEntry_loop (hm\<lparr>hm_totalEntry := n\<rparr>) k p m = getEntry_loop hm k p m" for k p m
    by (induction m arbitrary: p) (simp_all add: nextEntry_def)
  then have "HashMap_find (hm\<lparr>hm_totalEntry := n\<rparr>) k = HashMap_find hm k" for k
    by (simp add: HashMap_find_def with_bucket_def getEntry_def getHashBucket_def hashIndex_def getFirstEntry_def bucket_addr_def)
  then show ?thesis by (auto simp: table_lookup_def fun_eq_iff split: sum.splits option.splits)
qed

lemma sample_sites_room: "table_room 0 (sample_sites, sample_memory) (Suc 0)"
proof -
  let ?em = "empty_map hash_uint8_t compare_uint8_t 96 newBackTraceMemory 0"
  have fresh: "\<not> hm_initialized ?em" by (simp add: empty_map_def)
  show ?thesis
    using initialized_counts [OF fresh, of 256 "0x200000000000" compare_uint8_t _ hash_uint8_t]
      HashMap_initialize_rep(5) [OF fresh, of 256 "0x200000000000" compare_uint8_t hash_uint8_t]
    by (simp add: sample_sites_def table_room_def sample_region compare_uint8_t_def empty_map_def)
qed

section \<open>Properties\<close>




definition sample_usage :: "u64 \<Rightarrow> MemoryUsage" where
  "sample_usage t =
    (let z = \<lparr>realMemoryUsage = 0, totalMemoryUsage = 0\<rparr> in
     \<lparr>threadLocalMemoryUsage = \<lambda>_. z, maxThreadLocalMemoryUsage = \<lambda>_. z, globalThreadLocalMemoryUsage = z,
      globalMemoryUsage = z\<lparr>totalMemoryUsage := t\<rparr>, maxGlobalMemoryUsage = z, maxRealMemoryUsage = 0\<rparr>)"


text \<open>
  The memory per call site that is reported "at peak" is not that of the peak: the record shares its
  entries with the map it was copied from, so it shows every later free.
\<close>

theorem peak_record_shows_later_frees:
  assumes "table_invar tid (BTMemMap bt, mm)" and "subMem key sz (recordMem bt) = Inr bt'"
  shows "table_lookup (recorded_map bt', mm)
    = upd_at key (\<lambda>m. m\<lparr>memAllocated := memAllocated m - ucast sz\<rparr>) (table_lookup (recorded_map (recordMem bt), mm))"
proof -
  let ?bt = "recordMem bt"
  have "table_invar tid (BTMemMap ?bt, mm)" using assms(1) by (simp add: recordMem_def)
  from upd_backtrace_spec [OF this, of key "\<lambda>m. m\<lparr>memAllocated := memAllocated m - ucast sz\<rparr>"]
  obtain hm where "upd_backtrace key (\<lambda>m. m\<lparr>memAllocated := memAllocated m - ucast sz\<rparr>) ?bt = Inr (?bt\<lparr>BTMemMap := hm\<rparr>)"
    "table_lookup (hm, mm) = upd_at key (\<lambda>m. m\<lparr>memAllocated := memAllocated m - ucast sz\<rparr>) (table_lookup (BTMemMap ?bt, mm))"
    by blast
  with assms(2) show ?thesis by (auto simp: subMem_def recorded_map_def recordMem_def table_lookup_totalEntry)
qed

text \<open>A call site with 100 bytes at the peak, of which 40 are freed later, is reported with 60.\<close>

theorem peak_record_shows_later_frees_witness:
  "\<exists>(hm :: (u8, BackTraceMemory) HashMap) mm m bt'. table_lookup (hm, mm) 7 = Some (m\<lparr>memAllocated := 100\<rparr>)
    \<and> subMem 7 40 (recordMem \<lparr>BTMemMap = hm, BTMemMapRecord = sample_sites, bt_recordedEntries = None\<rparr>) = Inr bt'
    \<and> table_lookup (recorded_map bt', mm) 7 = Some (m\<lparr>memAllocated := 60\<rparr>)"
proof -
  let ?m = "newBackTraceMemory\<lparr>memAllocated := 100\<rparr>"
  have none: "table_lookup (sample_sites, sample_memory) 7 = None"
    using sample_sites_ok(2) [of sample_memory] by simp
  have "sample_memory \<in> {small_memory, sample_memory}" by simp
  from table_insert_new [OF sample_sites_ok(1) [OF this] none sample_sites_room, of ?m]
  obtain hm :: "(u8, BackTraceMemory) HashMap" and mm where inv: "table_invar 0 (hm, mm)" and look: "table_lookup (hm, mm) 7 = Some ?m" by auto
  let ?bt = "\<lparr>BTMemMap = hm, BTMemMapRecord = sample_sites, bt_recordedEntries = None\<rparr>"
  have inv0: "table_invar 0 (BTMemMap ?bt, mm)" using inv by simp
  then have inv': "table_invar 0 (BTMemMap (recordMem ?bt), mm)" by (simp add: recordMem_def)
  obtain bt' where bt': "subMem 7 40 (recordMem ?bt) = Inr bt'"
    using upd_backtrace_spec [OF inv', of 7] unfolding subMem_def by blast
  have "table_lookup (recorded_map (recordMem ?bt), mm) 7 = Some ?m"
    using look by (simp add: recorded_map_def recordMem_def)
  then have "table_lookup (recorded_map bt', mm) 7 = Some (newBackTraceMemory\<lparr>memAllocated := 60\<rparr>)"
    unfolding peak_record_shows_later_frees [OF inv0 bt'] by (simp add: upd_at_def)
  with look bt' show ?thesis by blast
qed

end
