(* ===== verification/LeakCheck.thy ===== *)
theory LeakCheck
  imports MemoryWaste
begin

text \<open>
  The leak check (\<^verbatim>\<open>src_temp/leakcheck.hh\<close>, \<^verbatim>\<open>leakcheck.cpp\<close>) and the regions of global data it
  searches (\<^verbatim>\<open>selfmap.hh\<close>): on a signal, mark every object that can be reached from the registers, the
  stack and the global data, then count the objects of the thread that are not marked.

  The contents of memory, the registers, and what reading \<^verbatim>\<open>/proc/self/maps\<close> yields are arguments. The
  program is built with \<^verbatim>\<open>NDEBUG\<close>, so the assertion in \<open>searchHeapPointers\<close> is not compiled.
\<close>

section \<open>Regions of global data\<close>

record mapping =
  mp_base :: u64
  mp_limit :: u64
  mp_readable :: bool
  mp_writable :: bool
  mp_executable :: bool
  mp_copy_on_write :: bool
  mp_file :: string

fun str_contains :: "string \<Rightarrow> string \<Rightarrow> bool" where
  "str_contains pat [] = (pat = [])"
| "str_contains pat (c # cs) = (take (length pat) (c # cs) = pat \<or> str_contains pat cs)"

definition isGlobals :: "string \<Rightarrow> mapping \<Rightarrow> bool" where
  "isGlobals mainfile m \<longleftrightarrow>
    (mp_readable m \<and> mp_writable m \<and> \<not> mp_executable m \<and> mp_copy_on_write m)
    \<and> (0 < length (mp_file m)
       \<and> (mp_file m = mainfile \<or> mp_file m = ''[heap]'' \<or> str_contains ''.so'' (mp_file m)))"

definition isSilentGlobals :: "mapping \<Rightarrow> bool" where
  "isSilentGlobals m \<longleftrightarrow>
    (mp_readable m \<and> mp_writable m \<and> \<not> mp_executable m \<and> mp_copy_on_write m) \<and> length (mp_file m) = 0"

type_synonym regioninfo = "u64 \<times> u64"

definition MAX_REGION_NUM :: nat where [config]: "MAX_REGION_NUM = 256"

record selfmap =
  sm_init :: bool
  regions :: "regioninfo list"
  numOfRegion :: u8
  silentRegions :: "regioninfo list"
  numOfSilentRegions :: u8

text \<open>
  The reading loop: each extraction gives a mapping or leaves an invalid one. The number of mappings is
  a \<open>uint8_t\<close>, as is the size of the array of 256 cells they go to.
\<close>

fun read_maps :: "mapping option list \<Rightarrow> mapping option list \<Rightarrow> u8 \<Rightarrow> mapping option list \<times> u8" where
  "read_maps [] maps numOfMaps = (maps, numOfMaps)"
| "read_maps (m # ms) maps numOfMaps =
    (if m \<noteq> None then read_maps ms (maps[unat numOfMaps := m]) (numOfMaps + 1)
     else read_maps ms maps numOfMaps)"

definition add_region :: "string \<Rightarrow> mapping \<Rightarrow> selfmap \<Rightarrow> selfmap" where
  "add_region main_exe m sm =
    (if isGlobals main_exe m \<and> \<not> str_contains ''libmallocprof'' (mp_file m)
     then sm\<lparr>regions := (regions sm)[unat (numOfRegion sm) := (mp_base m, mp_limit m)],
             numOfRegion := numOfRegion sm + 1\<rparr>
     else if isSilentGlobals m
     then sm\<lparr>silentRegions := (silentRegions sm)[unat (numOfSilentRegions sm) := (mp_base m, mp_limit m)],
             numOfSilentRegions := numOfSilentRegions sm + 1\<rparr>
     else sm)"

text \<open>The main executable is the file of the first mapping; the file of an invalid one is empty.\<close>

definition getGlobalRegions :: "mapping option list \<Rightarrow> selfmap \<Rightarrow> selfmap" where
  "getGlobalRegions stream sm =
    (if sm_init sm then sm else
     let main_exe = (case stream of Some m # _ \<Rightarrow> mp_file m | _ \<Rightarrow> []);
         (maps, numOfMaps) = read_maps stream (replicate MAX_REGION_NUM None) 0;
         sm = sm\<lparr>sm_init := True, numOfRegion := 0, numOfSilentRegions := 0\<rparr>
     in for_loop (unat numOfMaps)
          (\<lambda>i sm. case maps ! i of None \<Rightarrow> sm | Some m \<Rightarrow> add_region main_exe m sm) sm)"

section \<open>The search\<close>

text \<open>What the interrupted thread sees: memory, registers, stack, its index and the object of its current call.\<close>

record LeakEnv =
  le_memory :: "u64 \<Rightarrow> u64"
  le_gregs :: "u64 list"
  le_context :: u64
  le_stackBottom :: u64
  le_tid :: u16
  le_currentObject :: u64
  le_maps :: "mapping option list"

record LeakCheck =
  lc_waste :: MemoryWaste
  lc_selfmap :: selfmap
  lc_unexplored :: "u64 list"
  lc_totalLeakageSize :: u64
  lc_heapBegin :: u64
  lc_heapEnd :: u64

definition aligndown :: "u64 \<Rightarrow> u64 \<Rightarrow> u64" where
  "aligndown addr alignto = addr AND NOT (alignto - 1)"

abbreviation lc_objects :: "LeakCheck \<Rightarrow> (u64, ObjectStatus) HashMap" where
  "lc_objects s \<equiv> mw_objects (lc_waste s)"

definition isPossibleHeapPointer :: "u64 \<Rightarrow> LeakCheck \<Rightarrow> crash + bool" where
  "isPossibleHeapPointer addr s =
    (if addr > lc_heapBegin s \<and> addr < lc_heapEnd s
     then bindR (HashMap_find (lc_objects s) addr) (\<lambda>status.
       Inr (case status of None \<Rightarrow> False | Some e \<Rightarrow> \<not> ob_mark (hm_value (lc_objects s) e)))
     else Inr False)"

definition checkInsertUnexploredList :: "u64 \<Rightarrow> LeakCheck \<Rightarrow> crash + LeakCheck" where
  "checkInsertUnexploredList addr s =
    bindR (isPossibleHeapPointer addr s) (\<lambda>b.
      Inr (if b then s\<lparr>lc_unexplored := lc_unexplored s @ [addr]\<rparr> else s))"

fun check_all :: "u64 list \<Rightarrow> LeakCheck \<Rightarrow> crash + LeakCheck" where
  "check_all [] s = Inr s"
| "check_all (w # ws) s = bindR (checkInsertUnexploredList w s) (check_all ws)"

text \<open>The addresses \<open>ptr\<close> takes: every eighth byte below the aligned end.\<close>

function words_from :: "u64 \<Rightarrow> u64 \<Rightarrow> u64 list" where
  "words_from ptr stop =
    (if ptr < aligndown stop 8 then ptr # words_from (ptr + 8) stop else [])"
  by pat_completeness auto

lemma unat_aligndown: "unat (aligndown x 8) = unat x div 8 * 8"
proof -
  have m: "(8 :: u64) - 1 = mask 3" by (simp add: mask_eq_exp_minus_1)
  have "aligndown x 8 = push_bit 3 (drop_bit 3 x)"
    unfolding aligndown_def m by (rule bit_word_eqI) (auto simp: bit_simps)
  moreover have "unat x div 8 * 8 < 2 ^ 64" using unat_lt_64 [of x] by linarith
  ultimately show ?thesis
    by (simp add: push_bit_eq_mult unat_word_ariths unat_drop_bit take_bit_nat_eq_self)
qed

termination words_from
proof (relation "measure (\<lambda>(ptr, stop). unat stop - unat ptr)")
  fix ptr stop :: u64
  assume "ptr < aligndown stop 8"
  then have lt: "unat ptr < unat stop div 8 * 8" by (simp add: word_less_nat_alt unat_aligndown)
  have "unat stop div 8 < 2 ^ 61" using unat_lt_64 [of stop] by (intro less_mult_imp_div_less) simp
  with lt have "unat ptr + 8 < 2 ^ 64" by simp
  then have "unat (ptr + 8) = unat ptr + 8" by (simp add: unat_word_ariths)
  with lt show "((ptr + 8, stop), ptr, stop) \<in> measure (\<lambda>(ptr, stop). unat stop - unat ptr)" by simp
qed simp

declare words_from.simps [simp del]

text \<open>
  The pointers found are appended to the list of the running thread. Memory does not change during the
  search, so its words are read as they are met.
\<close>

definition searchHeapPointers :: "LeakEnv \<Rightarrow> u64 \<Rightarrow> u64 \<Rightarrow> LeakCheck \<Rightarrow> crash + LeakCheck" where
  "searchHeapPointers env start stop = check_all (map (le_memory env) (words_from start stop))"

definition searchHeapPointersInRegisters :: "LeakEnv \<Rightarrow> LeakCheck \<Rightarrow> crash + LeakCheck" where
  "searchHeapPointersInRegisters env = check_all (take 15 (le_gregs env))"

definition searchHeapPointersInsideStack :: "LeakEnv \<Rightarrow> LeakCheck \<Rightarrow> crash + LeakCheck" where
  "searchHeapPointersInsideStack env = searchHeapPointers env (le_context env) (le_stackBottom env)"

fun search_regions :: "LeakEnv \<Rightarrow> regioninfo list \<Rightarrow> LeakCheck \<Rightarrow> crash + LeakCheck" where
  "search_regions env [] s = Inr s"
| "search_regions env (r # rs) s =
    bindR (searchHeapPointers env (fst r) (snd r) s) (search_regions env rs)"

text \<open>All regions with a name, and of those without the second one.\<close>

definition searchHeapPointersInsideGlobals :: "LeakEnv \<Rightarrow> LeakCheck \<Rightarrow> crash + LeakCheck" where
  "searchHeapPointersInsideGlobals env s =
    bindR (search_regions env (take (unat (numOfRegion (lc_selfmap s))) (regions (lc_selfmap s))) s)
      (\<lambda>s. search_regions env [silentRegions (lc_selfmap s) ! 1] s)"

definition doSlowLeakCheck :: "LeakEnv \<Rightarrow> u64 \<Rightarrow> u64 \<Rightarrow> LeakCheck \<Rightarrow> crash + LeakCheck" where
  "doSlowLeakCheck env heapBegin heapEnd s =
    bindR (searchHeapPointersInRegisters env (s\<lparr>lc_heapBegin := heapBegin, lc_heapEnd := heapEnd\<rparr>))
      (searchHeapPointersInsideStack env)"

section \<open>Mark and sweep\<close>

abbreviation lc_write :: "u64 \<Rightarrow> (ObjectStatus \<Rightarrow> ObjectStatus) \<Rightarrow> LeakCheck \<Rightarrow> LeakCheck" where
  "lc_write e f s \<equiv> s\<lparr>lc_waste := write_object e f (lc_waste s)\<rparr>"

definition exploreHeapObject :: "LeakEnv \<Rightarrow> u64 \<Rightarrow> LeakCheck \<Rightarrow> crash + LeakCheck" where
  "exploreHeapObject env addr s =
    bindR (HashMap_find (lc_objects s) addr) (\<lambda>status.
    case status of
      None \<Rightarrow> Inr s
    | Some e \<Rightarrow>
        (let ob = hm_value (lc_objects s) e in
         if \<not> ob_mark ob \<and> ob_allocated ob
         then searchHeapPointers env addr (addr + ucast (sc_size (ob_class ob)))
                (lc_write e (\<lambda>ob. ob\<lparr>ob_mark := True\<rparr>) s)
         else Inr s))"

text \<open>The loop ends when the list is empty; \<open>None\<close> stands for a loop that does not.\<close>

partial_function (option) mark_loop :: "LeakEnv \<Rightarrow> LeakCheck \<Rightarrow> (crash + LeakCheck) option" where
  "mark_loop env s =
    (case lc_unexplored s of
       [] \<Rightarrow> Some (Inr s)
     | addr # rest \<Rightarrow>
         (case exploreHeapObject env addr (s\<lparr>lc_unexplored := rest\<rparr>) of
            Inl e \<Rightarrow> Some (Inl e)
          | Inr s \<Rightarrow> mark_loop env s))"

definition sweep_entry :: "LeakEnv \<Rightarrow> u64 \<Rightarrow> LeakCheck \<Rightarrow> crash + LeakCheck" where
  "sweep_entry env e s =
    (let ob = hm_value (lc_objects s) e in
     if ob_mark ob then Inr (lc_write e (\<lambda>ob. ob\<lparr>ob_mark := False\<rparr>) s)
     else if ob_allocated ob \<and> ob_tid ob = le_tid env \<and> hm_key (lc_objects s) e \<noteq> le_currentObject env
     then bindR (addLeak (ob_callKey ob) (sc_size (ob_class ob)) (mw_backtrace (lc_waste s))) (\<lambda>bt.
       Inr (s\<lparr>lc_totalLeakageSize := lc_totalLeakageSize s + ucast (sc_size (ob_class ob)),
              lc_waste := (lc_waste s)\<lparr>mw_backtrace := bt\<rparr>\<rparr>))
     else Inr s)"

fun sweep_entries :: "LeakEnv \<Rightarrow> u64 list \<Rightarrow> LeakCheck \<Rightarrow> crash + LeakCheck" where
  "sweep_entries env [] s = Inr s"
| "sweep_entries env (e # es) s = bindR (sweep_entry env e s) (sweep_entries env es)"

text \<open>
  The body writes values only, so the entries the range-based \<open>for\<close> visits are those of the table at its
  start; the walk takes fuel.
\<close>

definition sweep :: "nat \<Rightarrow> LeakEnv \<Rightarrow> LeakCheck \<Rightarrow> (crash + LeakCheck) option" where
  "sweep fuel env s =
    bindO (Some (searchHeapPointersInsideGlobals env
                   (s\<lparr>lc_selfmap := getGlobalRegions (le_maps env) (lc_selfmap s)\<rparr>))) (\<lambda>s.
    bindO (mark_loop env s) (\<lambda>s.
    case iterate (lc_objects s) fuel (HashMap_begin (lc_objects s)) of
      None \<Rightarrow> None
    | Some es \<Rightarrow> Some (sweep_entries env es (s\<lparr>lc_totalLeakageSize := 0\<rparr>))))"

text \<open>The signal handler; before the first allocation there is nothing to check.\<close>

definition leak_handler :: "nat \<Rightarrow> LeakEnv \<Rightarrow> LeakCheck \<Rightarrow> (crash + LeakCheck) option" where
  "leak_handler fuel env s =
    (if mw_minAddr (lc_waste s) \<noteq> - 1 \<and> mw_maxAddr (lc_waste s) \<noteq> 0
     then bindO (Some (doSlowLeakCheck env (mw_minAddr (lc_waste s)) (mw_maxAddr (lc_waste s)) s)) (sweep fuel env)
     else Some (Inr s))"

end
