(* ===== verification/LeakCheck_Correct.thy ===== *)
theory LeakCheck_Correct
  imports LeakCheck MemoryWaste_Correct
begin

text \<open>
  The leak check counts exactly the objects of the thread that cannot be reached: the marking loop ends
  and marks what is reachable, the sweep counts the rest and clears the marks.
\<close>

section \<open>Reachable objects\<close>

abbreviation lc_table :: "LeakCheck \<Rightarrow> (u64, ObjectStatus) table_state" where
  "lc_table s \<equiv> (lc_objects s, mw_memory (lc_waste s))"

abbreviation lc_look :: "LeakCheck \<Rightarrow> u64 \<Rightarrow> ObjectStatus option" where
  "lc_look s \<equiv> table_lookup (lc_table s)"

definition heap_pointer :: "u64 \<Rightarrow> u64 \<Rightarrow> (u64 \<Rightarrow> ObjectStatus option) \<Rightarrow> u64 \<Rightarrow> bool" where
  "heap_pointer lo hi obj a \<longleftrightarrow> lo < a \<and> a < hi \<and> obj a \<noteq> None"

definition object_words :: "LeakEnv \<Rightarrow> u64 \<Rightarrow> ObjectStatus \<Rightarrow> u64 list" where
  "object_words env a ob = map (le_memory env) (words_from a (a + ucast (sc_size (ob_class ob))))"

definition live :: "(u64 \<Rightarrow> ObjectStatus option) \<Rightarrow> u64 set" where
  "live obj = {a. \<exists>ob. obj a = Some ob \<and> ob_allocated ob}"

text \<open>
  A pointer strictly between the bounds that is the start of an object is found in the roots or in a live
  object that was found.
\<close>

inductive reachable :: "LeakEnv \<Rightarrow> u64 set \<Rightarrow> u64 \<Rightarrow> u64 \<Rightarrow> (u64 \<Rightarrow> ObjectStatus option) \<Rightarrow> u64 \<Rightarrow> bool"
  for env roots lo hi obj where
  root: "a \<in> roots \<Longrightarrow> heap_pointer lo hi obj a \<Longrightarrow> reachable env roots lo hi obj a"
| step: "reachable env roots lo hi obj a \<Longrightarrow> obj a = Some ob \<Longrightarrow> ob_allocated ob
    \<Longrightarrow> b \<in> set (object_words env a ob) \<Longrightarrow> heap_pointer lo hi obj b \<Longrightarrow> reachable env roots lo hi obj b"

definition erase :: "(u64 \<Rightarrow> ObjectStatus option) \<Rightarrow> u64 \<Rightarrow> ObjectStatus option" where
  "erase obj a = map_option (\<lambda>ob. ob\<lparr>ob_mark := False\<rparr>) (obj a)"

definition marked :: "(u64 \<Rightarrow> ObjectStatus option) \<Rightarrow> u64 set" where
  "marked obj = {a. \<exists>ob. obj a = Some ob \<and> ob_mark ob}"

lemma erase_facts:
  "live (erase obj) = live obj" "heap_pointer lo hi (erase obj) = heap_pointer lo hi obj"
  "object_words env a (ob\<lparr>ob_mark := b\<rparr>) = object_words env a ob"
  by (auto simp: live_def erase_def heap_pointer_def object_words_def fun_eq_iff)

lemma erase_unmarked: "marked obj = {} \<Longrightarrow> erase obj = obj"
  by (auto simp: marked_def erase_def fun_eq_iff option.map_ident_strong split: option.splits intro!: option.map_ident_strong)

lemma write_object_table:
  assumes "table_invar tid (lc_table s)" and "HashMap_find (lc_objects s) k = Inr (Some e)"
  shows "table_invar tid (lc_table (lc_write e f s))"
    and "lc_look (lc_write e f s) = (lc_look s)(k \<mapsto> f (hm_value (lc_objects s) e))"
  using table_write [OF assms] by (simp_all add: write_object_def)

section \<open>Searching\<close>

definition unmarked_pointer :: "LeakCheck \<Rightarrow> u64 \<Rightarrow> bool" where
  "unmarked_pointer s a \<longleftrightarrow> heap_pointer (lc_heapBegin s) (lc_heapEnd s) (lc_look s) a \<and> a \<notin> marked (lc_look s)"

lemma isPossibleHeapPointer_eq:
  assumes "table_invar tid (lc_table s)"
  shows "isPossibleHeapPointer a s = Inr (unmarked_pointer s a)"
  using table_find [OF assms, of a]
  by (auto simp: isPossibleHeapPointer_def unmarked_pointer_def heap_pointer_def marked_def split: option.splits)

lemma unmarked_pointer_list [simp]: "unmarked_pointer (s\<lparr>lc_unexplored := l\<rparr>) = unmarked_pointer s"
  by (auto simp: unmarked_pointer_def fun_eq_iff)

lemma check_all_eq:
  assumes "table_invar tid (lc_table s)"
  shows "check_all ws s = Inr (s\<lparr>lc_unexplored := lc_unexplored s @ filter (unmarked_pointer s) ws\<rparr>)"
  using assms
proof (induction ws arbitrary: s)
  case (Cons w ws)
  let ?s = "if unmarked_pointer s w then s\<lparr>lc_unexplored := lc_unexplored s @ [w]\<rparr> else s"
  have "table_invar tid (lc_table ?s)" using Cons.prems by simp
  from Cons.IH [OF this] show ?case
    by (simp add: checkInsertUnexploredList_def isPossibleHeapPointer_eq [OF Cons.prems])
qed simp

lemma search_regions_eq:
  assumes "table_invar tid (lc_table s)"
  shows "search_regions env rs s = Inr (s\<lparr>lc_unexplored := lc_unexplored s
    @ filter (unmarked_pointer s) (concat (map (\<lambda>r. map (le_memory env) (words_from (fst r) (snd r))) rs))\<rparr>)"
  using assms
proof (induction rs arbitrary: s)
  case (Cons r rs)
  have "table_invar tid (lc_table (s\<lparr>lc_unexplored := l\<rparr>))" for l using Cons.prems by simp
  from Cons.IH [OF this] show ?case by (simp add: searchHeapPointers_def check_all_eq [OF Cons.prems])
qed simp

section \<open>Marking\<close>

text \<open>A found pointer is marked, still to be explored, or not to a live object.\<close>

definition pending :: "LeakCheck \<Rightarrow> u64 \<Rightarrow> bool" where
  "pending s a \<longleftrightarrow> a \<in> marked (lc_look s) \<or> a \<in> set (lc_unexplored s) \<or> a \<notin> live (lc_look s)"

text \<open>What stays as it was while objects are marked.\<close>

definition same_check :: "LeakCheck \<Rightarrow> LeakCheck \<Rightarrow> bool" where
  "same_check s t \<longleftrightarrow> lc_heapBegin t = lc_heapBegin s \<and> lc_heapEnd t = lc_heapEnd s
    \<and> lc_selfmap t = lc_selfmap s \<and> lc_totalLeakageSize t = lc_totalLeakageSize s
    \<and> erase (lc_look t) = erase (lc_look s) \<and> mw_memory (lc_waste t) = mw_memory (lc_waste s)
    \<and> mw_backtrace (lc_waste t) = mw_backtrace (lc_waste s)
    \<and> mw_minAddr (lc_waste t) = mw_minAddr (lc_waste s) \<and> mw_maxAddr (lc_waste t) = mw_maxAddr (lc_waste s)"

lemma same_checkD:
  assumes "same_check s t"
  shows "erase (lc_look t) = erase (lc_look s)" "lc_heapBegin t = lc_heapBegin s" "lc_heapEnd t = lc_heapEnd s"
    "lc_selfmap t = lc_selfmap s" "mw_memory (lc_waste t) = mw_memory (lc_waste s)"
    "mw_backtrace (lc_waste t) = mw_backtrace (lc_waste s)" "live (lc_look t) = live (lc_look s)"
proof -
  show e: "erase (lc_look t) = erase (lc_look s)" using assms unfolding same_check_def by (elim conjE)
  show "live (lc_look t) = live (lc_look s)" using arg_cong [OF e, of live] by (simp only: erase_facts)
qed (use assms in \<open>auto simp: same_check_def\<close>)

lemma same_check_refl [simp]: "same_check s s"
  by (simp add: same_check_def)

lemma same_check_trans: "same_check s t \<Longrightarrow> same_check t u \<Longrightarrow> same_check s u"
  unfolding same_check_def by metis

lemma same_check_list [simp]: "same_check (s\<lparr>lc_unexplored := l\<rparr>) = same_check s"
  by (simp add: same_check_def fun_eq_iff)

text \<open>\<open>obj\<close> are the objects without their marks.\<close>

definition mark_inv :: "nat \<Rightarrow> LeakEnv \<Rightarrow> u64 set \<Rightarrow> u64 \<Rightarrow> u64 \<Rightarrow> (u64 \<Rightarrow> ObjectStatus option) \<Rightarrow> LeakCheck \<Rightarrow> bool" where
  "mark_inv tid env roots lo hi obj s \<longleftrightarrow>
    table_invar tid (lc_table s) \<and> lc_heapBegin s = lo \<and> lc_heapEnd s = hi \<and> erase (lc_look s) = obj
    \<and> marked (lc_look s) \<subseteq> live obj \<and> (\<forall>a \<in> marked (lc_look s) \<union> set (lc_unexplored s). reachable env roots lo hi obj a)
    \<and> (\<forall>a \<in> roots. heap_pointer lo hi obj a \<longrightarrow> pending s a)
    \<and> (\<forall>a \<in> marked (lc_look s). \<forall>ob. obj a = Some ob \<longrightarrow>
         (\<forall>b \<in> set (object_words env a ob). heap_pointer lo hi obj b \<longrightarrow> pending s b))"

lemma exploreHeapObject_cases:
  assumes inv: "table_invar tid (lc_table s)"
  shows "(\<forall>ob. lc_look s a = Some ob \<longrightarrow> ob_mark ob \<or> \<not> ob_allocated ob) \<and> exploreHeapObject env a s = Inr s
    \<or> (\<exists>ob t. lc_look s a = Some ob \<and> \<not> ob_mark ob \<and> ob_allocated ob
        \<and> table_invar tid (lc_table t) \<and> lc_look t = (lc_look s)(a \<mapsto> ob\<lparr>ob_mark := True\<rparr>)
        \<and> lc_unexplored t = lc_unexplored s @ filter (unmarked_pointer t) (object_words env a ob)
        \<and> same_check s t \<and> exploreHeapObject env a s = Inr t)"
proof -
  obtain r where f: "HashMap_find (lc_objects s) a = Inr r" and l: "lc_look s a = map_option (hm_value (lc_objects s)) r"
    using table_find [OF inv] by blast
  show ?thesis
  proof (cases "\<exists>e. r = Some e \<and> \<not> ob_mark (hm_value (lc_objects s) e) \<and> ob_allocated (hm_value (lc_objects s) e)")
    case False
    with f l show ?thesis by (auto simp: exploreHeapObject_def Let_def split: option.splits)
  next
    case True
    then obtain e where e: "r = Some e" "\<not> ob_mark (hm_value (lc_objects s) e)" "ob_allocated (hm_value (lc_objects s) e)"
      by blast
    let ?ob = "hm_value (lc_objects s) e" and ?u = "lc_write e (\<lambda>ob. ob\<lparr>ob_mark := True\<rparr>) s"
    let ?t = "?u\<lparr>lc_unexplored := lc_unexplored ?u @ filter (unmarked_pointer ?u) (object_words env a ?ob)\<rparr>"
    note w = write_object_table [OF inv f [unfolded e(1)], of "\<lambda>ob. ob\<lparr>ob_mark := True\<rparr>"]
    have "exploreHeapObject env a s = Inr ?t"
      by (simp add: exploreHeapObject_def f e Let_def searchHeapPointers_def check_all_eq [OF w(1)] object_words_def)
    moreover have "erase (lc_look ?u) = erase (lc_look s)"
      unfolding w(2) using l e(1) by (auto simp: erase_def fun_eq_iff)
    then have "same_check s ?t" by (simp add: same_check_def write_object_def)
    moreover have "table_invar tid (lc_table ?t)" "lc_look ?t = (lc_look s)(a \<mapsto> ?ob\<lparr>ob_mark := True\<rparr>)"
      using w by simp_all
    moreover have "unmarked_pointer ?t = unmarked_pointer ?u" by simp
    ultimately show ?thesis using l e by (intro disjI2 exI [of _ ?ob] exI [of _ ?t]) simp
  qed
qed

lemma explore_keeps_inv:
  assumes inv: "mark_inv tid env roots lo hi obj s" and l: "lc_unexplored s = a # rest"
  obtains t where "exploreHeapObject env a (s\<lparr>lc_unexplored := rest\<rparr>) = Inr t"
    and "mark_inv tid env roots lo hi obj t" and "same_check s t"
    and "marked (lc_look t) = marked (lc_look s) \<and> lc_unexplored t = rest
      \<or> a \<in> live obj - marked (lc_look s) \<and> marked (lc_look t) = insert a (marked (lc_look s))"
proof -
  let ?s = "s\<lparr>lc_unexplored := rest\<rparr>"
  have tab: "table_invar tid (lc_table ?s)" and obj: "erase (lc_look s) = obj"
    and lo: "lc_heapBegin s = lo" "lc_heapEnd s = hi"
    and sub: "marked (lc_look s) \<subseteq> live obj"
    and re: "\<And>a. a \<in> marked (lc_look s) \<Longrightarrow> reachable env roots lo hi obj a"
      "\<And>a. a \<in> set (lc_unexplored s) \<Longrightarrow> reachable env roots lo hi obj a"
    and ro: "\<And>a. a \<in> roots \<Longrightarrow> heap_pointer lo hi obj a \<Longrightarrow> pending s a"
    and wo: "\<And>a b ob. a \<in> marked (lc_look s) \<Longrightarrow> obj a = Some ob \<Longrightarrow> b \<in> set (object_words env a ob)
      \<Longrightarrow> heap_pointer lo hi obj b \<Longrightarrow> pending s b"
    using inv by (auto simp: mark_inv_def)
  from exploreHeapObject_cases [OF tab, of a env] show thesis
  proof (elim disjE conjE exE)
    assume none: "\<forall>ob. lc_look ?s a = Some ob \<longrightarrow> ob_mark ob \<or> \<not> ob_allocated ob" and e: "exploreHeapObject env a ?s = Inr ?s"
    have p: "pending ?s b" if "pending s b" for b
      using that none l by (auto simp: pending_def marked_def live_def)
    have "mark_inv tid env roots lo hi obj ?s"
      unfolding mark_inv_def using tab obj lo sub re l p [OF ro] p [OF wo] by auto
    then show thesis using that [OF e] by (simp add: same_check_def)
  next
    fix ob t
    assume a: "lc_look ?s a = Some ob" "\<not> ob_mark ob" "ob_allocated ob" and tt: "table_invar tid (lc_table t)"
      and look: "lc_look t = (lc_look ?s)(a \<mapsto> ob\<lparr>ob_mark := True\<rparr>)"
      and lst: "lc_unexplored t = lc_unexplored ?s @ filter (unmarked_pointer t) (object_words env a ob)"
      and same: "same_check ?s t" and e: "exploreHeapObject env a ?s = Inr t"
    have m: "marked (lc_look t) = insert a (marked (lc_look s))" unfolding look by (auto simp: marked_def)
    have same': "same_check s t" using same by simp
    have oa: "obj a = Some (ob\<lparr>ob_mark := False\<rparr>)" using obj a by (auto simp: erase_def)
    have al: "a \<in> live obj - marked (lc_look s)" using oa a by (auto simp: live_def marked_def)
    have t: "erase (lc_look t) = obj" "lc_heapBegin t = lo" "lc_heapEnd t = hi"
      using same_checkD(1-3) [OF same'] obj lo by (auto elim: trans)
    have lv: "live (lc_look t) = live (lc_look s)" by (rule same_checkD [OF same'])
    have hp: "heap_pointer lo hi (lc_look t) = heap_pointer lo hi obj"
      using arg_cong [OF t(1), of "heap_pointer lo hi"] by (simp only: erase_facts)
    have p: "pending t b" if "pending s b" for b
      using that l m lst lv by (auto simp: pending_def)
    have new: "pending t b" if "b \<in> set (object_words env a ob)" "heap_pointer lo hi obj b" for b
      using that lst hp t by (auto simp: pending_def unmarked_pointer_def)
    have ra: "reachable env roots lo hi obj a" using re l by simp
    have rn: "reachable env roots lo hi obj b" if "b \<in> set (object_words env a ob)" "unmarked_pointer t b" for b
      using that hp t ra oa a by (intro reachable.step [OF ra oa]) (auto simp: unmarked_pointer_def erase_facts)
    have "mark_inv tid env roots lo hi obj t"
      unfolding mark_inv_def
    proof (intro conjI ballI allI impI)
      show "marked (lc_look t) \<subseteq> live obj" using m sub al by auto
      show "reachable env roots lo hi obj b" if "b \<in> marked (lc_look t) \<union> set (lc_unexplored t)" for b
        using that m lst re l ra rn by auto
      show "pending t b" if "b \<in> roots" "heap_pointer lo hi obj b" for b using p [OF ro [OF that]] .
      show "pending t c" if "b \<in> marked (lc_look t)" "obj b = Some ob'" "c \<in> set (object_words env b ob')"
        "heap_pointer lo hi obj c" for b ob' c
        using that m oa new [of c] p [OF wo [of b ob' c]] by (cases "b = a") (auto simp: erase_facts)
    qed (use tt t in auto)
    then show thesis using that [OF e _ same'] m al by blast
  qed
qed

lemma mark_loop_terminates:
  assumes "mark_inv tid env roots lo hi obj s"
  shows "\<exists>t. mark_loop env s = Some (Inr t) \<and> mark_inv tid env roots lo hi obj t \<and> same_check s t \<and> lc_unexplored t = []"
  using assms
proof (induction "(card (live obj - marked (lc_look s)), length (lc_unexplored s))"
    arbitrary: s rule: wf_induct_rule [OF wf_lex_prod [OF wf_less_than wf_less_than]])
  case (1 s)
  show ?case
  proof (cases "lc_unexplored s")
    case Nil
    with 1(2) show ?thesis by (auto simp: mark_loop.simps intro: exI [of _ s])
  next
    case (Cons a rest)
    obtain t where t: "exploreHeapObject env a (s\<lparr>lc_unexplored := rest\<rparr>) = Inr t"
        "mark_inv tid env roots lo hi obj t" "same_check s t"
      and dec: "marked (lc_look t) = marked (lc_look s) \<and> lc_unexplored t = rest
        \<or> a \<in> live obj - marked (lc_look s) \<and> marked (lc_look t) = insert a (marked (lc_look s))"
      using explore_keeps_inv [OF 1(2) Cons] by blast
    have "table_invar tid (lc_table s)" "erase (lc_look s) = obj" using 1(2) by (auto simp: mark_inv_def)
    then have fin: "finite (live obj)"
      using finite_table [of tid "lc_table s"]
      by (auto intro!: finite_subset [of "live obj" "dom (lc_look s)"] simp: live_def erase_def)
    have "((card (live obj - marked (lc_look t)), length (lc_unexplored t)), card (live obj - marked (lc_look s)),
        length (lc_unexplored s)) \<in> less_than <*lex*> less_than"
      using dec
    proof
      assume "a \<in> live obj - marked (lc_look s) \<and> marked (lc_look t) = insert a (marked (lc_look s))"
      then have "live obj - marked (lc_look t) \<subset> live obj - marked (lc_look s)" by blast
      then have "card (live obj - marked (lc_look t)) < card (live obj - marked (lc_look s))"
        using fin by (intro psubset_card_mono) auto
      then show ?thesis by simp
    qed (simp add: Cons)
    from 1(1) [OF this t(2)] obtain u where "mark_loop env t = Some (Inr u)" "mark_inv tid env roots lo hi obj u"
      "same_check t u" "lc_unexplored u = []" by blast
    with t(3) show ?thesis
      by (subst mark_loop.simps) (auto simp: Cons t(1) intro: same_check_trans)
  qed
qed

lemma all_marked:
  assumes inv: "mark_inv tid env roots lo hi obj s" and "lc_unexplored s = []"
  shows "marked (lc_look s) = live obj \<inter> Collect (reachable env roots lo hi obj)"
proof -
  have "erase (lc_look s) = obj" using inv by (simp only: mark_inv_def)
  from arg_cong [OF this, of live] have lv: "live (lc_look s) = live obj" by (simp only: erase_facts)
  have p: "a \<in> marked (lc_look s)" if "pending s a" "a \<in> live obj" for a
    using that assms(2) lv by (simp add: pending_def)
  have "a \<in> marked (lc_look s)" if "reachable env roots lo hi obj a" "a \<in> live obj" for a
    using that
  proof (induction)
    case (root a)
    then have "pending s a" using inv by (auto simp: mark_inv_def)
    with root show ?case by (simp add: p)
  next
    case (step a ob b)
    then have "a \<in> marked (lc_look s)" by (auto simp: live_def)
    with step inv have "pending s b" unfolding mark_inv_def by blast
    with step show ?case by (simp add: p)
  qed
  moreover have "marked (lc_look s) \<subseteq> live obj" "\<forall>a \<in> marked (lc_look s). reachable env roots lo hi obj a"
    using inv by (auto simp: mark_inv_def)
  ultimately show ?thesis by auto
qed

section \<open>Sweeping\<close>

definition leaks :: "LeakEnv \<Rightarrow> u64 \<Rightarrow> ObjectStatus \<Rightarrow> bool" where
  "leaks env a ob \<longleftrightarrow> \<not> ob_mark ob \<and> ob_allocated ob \<and> ob_tid ob = le_tid env \<and> a \<noteq> le_currentObject env"

definition leak_size :: "LeakEnv \<Rightarrow> (ObjectStatus \<Rightarrow> bool) \<Rightarrow> (u64 \<Rightarrow> ObjectStatus option) \<Rightarrow> u64 \<Rightarrow> u64" where
  "leak_size env P obj a =
    (case obj a of Some ob \<Rightarrow> if leaks env a ob \<and> P ob then ucast (sc_size (ob_class ob)) else 0 | None \<Rightarrow> 0)"

abbreviation lc_sites :: "LeakCheck \<Rightarrow> (u8, BackTraceMemory) table_state" where
  "lc_sites s \<equiv> (BTMemMap (mw_backtrace (lc_waste s)), mw_memory (lc_waste s))"

definition more_leaked :: "u64 \<Rightarrow> BackTraceMemory \<Rightarrow> BackTraceMemory" where
  "more_leaked n m = m\<lparr>memLeaked := memLeaked m + n\<rparr>"

lemma more_leaked_simps [simp]: "more_leaked 0 = id" "more_leaked a (more_leaked b m) = more_leaked (b + a) m"
  by (auto simp: more_leaked_def fun_eq_iff)

lemma sweep_entry_spec:
  assumes tab: "table_invar tid (lc_table s)" and sites: "table_invar tid (lc_sites s)"
    and e: "HashMap_find (lc_objects s) k = Inr (Some e)" and key: "hm_key (lc_objects s) e = k"
  obtains t where "sweep_entry env e s = Inr t"
    and "table_invar tid (lc_table t)" and "table_invar tid (lc_sites t)"
    and "lc_look t = (lc_look s)(k := erase (lc_look s) k)"
    and "lc_totalLeakageSize t = lc_totalLeakageSize s + leak_size env (\<lambda>_. True) (lc_look s) k"
    and "table_lookup (lc_sites t) = (\<lambda>c. map_option (more_leaked (leak_size env (\<lambda>ob. ob_callKey ob = c) (lc_look s) k))
      (table_lookup (lc_sites s) c))"
    and "lc_unexplored t = lc_unexplored s" and "hm_key (lc_objects t) = hm_key (lc_objects s)"
    and "HashMap_find (lc_objects t) = HashMap_find (lc_objects s)"
proof -
  let ?ob = "hm_value (lc_objects s) e"
  have l: "lc_look s k = Some ?ob" by (simp add: table_lookup_def e)
  consider "ob_mark ?ob" | "leaks env k ?ob" | "\<not> ob_mark ?ob" "\<not> leaks env k ?ob" by (auto simp: leaks_def)
  then show thesis
  proof cases
    case 1
    let ?t = "lc_write e (\<lambda>ob. ob\<lparr>ob_mark := False\<rparr>) s"
    have er: "erase (lc_look s) k = Some (?ob\<lparr>ob_mark := False\<rparr>)" by (simp add: erase_def l)
    have z: "leak_size env P (lc_look s) k = 0" for P using 1 by (simp add: leak_size_def l leaks_def)
    show thesis
      using 1 write_object_table [OF tab e, of "\<lambda>ob. ob\<lparr>ob_mark := False\<rparr>"] sites er z
      by (intro that [of ?t]) (simp_all add: sweep_entry_def write_object_def option.map_id)
  next
    case 2
    obtain hm where hm: "addLeak (ob_callKey ?ob) (sc_size (ob_class ?ob)) (mw_backtrace (lc_waste s))
        = Inr (mw_backtrace (lc_waste s)\<lparr>BTMemMap := hm\<rparr>)" "table_invar tid (hm, mw_memory (lc_waste s))"
      "table_lookup (hm, mw_memory (lc_waste s)) = upd_at (ob_callKey ?ob) (more_leaked (ucast (sc_size (ob_class ?ob))))
        (table_lookup (lc_sites s))"
      using upd_backtrace_spec [OF sites] unfolding addLeak_def more_leaked_def [abs_def] by blast
    let ?t = "s\<lparr>lc_totalLeakageSize := lc_totalLeakageSize s + ucast (sc_size (ob_class ?ob)),
      lc_waste := (lc_waste s)\<lparr>mw_backtrace := mw_backtrace (lc_waste s)\<lparr>BTMemMap := hm\<rparr>\<rparr>\<rparr>"
    have "sweep_entry env e s = Inr ?t"
      using 2 hm(1) by (simp add: sweep_entry_def leaks_def key Let_def)
    moreover have "(lc_look s)(k := erase (lc_look s) k) = lc_look s"
      using 2 l by (auto simp: erase_def leaks_def fun_eq_iff)
    ultimately show thesis
      using 2 hm(2,3) tab l
      by (intro that [of ?t]) (auto simp: leak_size_def upd_at_def fun_eq_iff option.map_id)
  next
    case 3
    have "(lc_look s)(k := erase (lc_look s) k) = lc_look s" using 3 l by (auto simp: erase_def fun_eq_iff)
    moreover have "leak_size env P (lc_look s) k = 0" for P using 3 by (simp add: leak_size_def l)
    moreover have "sweep_entry env e s = Inr s" using 3 by (auto simp: sweep_entry_def leaks_def key Let_def)
    ultimately show thesis using tab sites by (intro that [of s]) (simp_all add: option.map_id)
  qed
qed

lemma sweep_entries_spec:
  assumes "table_invar tid (lc_table s)" and "table_invar tid (lc_sites s)"
    and "\<forall>e \<in> set es. HashMap_find (lc_objects s) (hm_key (lc_objects s) e) = Inr (Some e)"
    and "ks = map (hm_key (lc_objects s)) es" and "distinct ks"
  shows "\<exists>t. sweep_entries env es s = Inr t
    \<and> lc_look t = (\<lambda>k. if k \<in> set ks then erase (lc_look s) k else lc_look s k)
    \<and> lc_totalLeakageSize t = lc_totalLeakageSize s + (\<Sum>k\<in>set ks. leak_size env (\<lambda>_. True) (lc_look s) k)
    \<and> table_lookup (lc_sites t) = (\<lambda>c. map_option (more_leaked (\<Sum>k\<in>set ks. leak_size env (\<lambda>ob. ob_callKey ob = c) (lc_look s) k))
        (table_lookup (lc_sites s) c))
    \<and> lc_unexplored t = lc_unexplored s \<and> table_invar tid (lc_table t) \<and> table_invar tid (lc_sites t)"
  using assms
proof (induction es arbitrary: s ks)
  case Nil
  then show ?case by (simp add: option.map_ident)
next
  case (Cons e es)
  let ?k = "hm_key (lc_objects s) e"
  obtain t where t: "sweep_entry env e s = Inr t" "table_invar tid (lc_table t)" "table_invar tid (lc_sites t)"
      "lc_unexplored t = lc_unexplored s" "hm_key (lc_objects t) = hm_key (lc_objects s)"
      "HashMap_find (lc_objects t) = HashMap_find (lc_objects s)"
    and look: "lc_look t = (lc_look s)(?k := erase (lc_look s) ?k)"
    and tot: "lc_totalLeakageSize t = lc_totalLeakageSize s + leak_size env (\<lambda>_. True) (lc_look s) ?k"
    and sit: "table_lookup (lc_sites t) = (\<lambda>c. map_option (more_leaked (leak_size env (\<lambda>ob. ob_callKey ob = c) (lc_look s) ?k))
      (table_lookup (lc_sites s) c))"
    using sweep_entry_spec [OF Cons.prems(1,2), of ?k e env] Cons.prems(3) by auto
  define ks' where "ks' = map (hm_key (lc_objects t)) es"
  have ks: "ks = ?k # ks'" "?k \<notin> set ks'" "distinct ks'" using Cons.prems(4,5) by (auto simp: ks'_def t)
  have same: "(\<Sum>k\<in>set ks'. leak_size env P (lc_look t) k) = (\<Sum>k\<in>set ks'. leak_size env P (lc_look s) k)" for P
    using ks(2) by (intro sum.cong) (auto simp: look leak_size_def)
  obtain u where u: "sweep_entries env es t = Inr u"
      "lc_look u = (\<lambda>k. if k \<in> set ks' then erase (lc_look t) k else lc_look t k)"
      "lc_totalLeakageSize u = lc_totalLeakageSize t + (\<Sum>k\<in>set ks'. leak_size env (\<lambda>_. True) (lc_look t) k)"
      "table_lookup (lc_sites u) = (\<lambda>c. map_option (more_leaked (\<Sum>k\<in>set ks'. leak_size env (\<lambda>ob. ob_callKey ob = c) (lc_look t) k))
        (table_lookup (lc_sites t) c))"
      "lc_unexplored u = lc_unexplored t" "table_invar tid (lc_table u)" "table_invar tid (lc_sites u)"
    using Cons.IH [OF t(2,3), of ks'] Cons.prems(3) ks(3) by (auto simp: t ks'_def)
  have "lc_look u = (\<lambda>k. if k \<in> set ks then erase (lc_look s) k else lc_look s k)"
    using ks(2) by (auto simp: u(2) look ks(1) fun_eq_iff erase_def)
  moreover have "lc_totalLeakageSize u = lc_totalLeakageSize s + (\<Sum>k\<in>set ks. leak_size env (\<lambda>_. True) (lc_look s) k)"
    using ks(2) by (simp add: u(3) tot same ks(1) add.assoc)
  moreover have "table_lookup (lc_sites u) = (\<lambda>c. map_option
      (more_leaked (\<Sum>k\<in>set ks. leak_size env (\<lambda>ob. ob_callKey ob = c) (lc_look s) k)) (table_lookup (lc_sites s) c))"
    using ks(2) by (simp add: u(4) sit same ks(1) option.map_comp comp_def)
  ultimately show ?case using t u by (intro exI [of _ u]) simp
qed

section \<open>The whole check\<close>

definition region_words :: "LeakEnv \<Rightarrow> regioninfo list \<Rightarrow> u64 list" where
  "region_words env rs = concat (map (\<lambda>r. map (le_memory env) (words_from (fst r) (snd r))) rs)"

text \<open>The words of the registers, the stack and the global data.\<close>

definition root_words :: "LeakEnv \<Rightarrow> LeakCheck \<Rightarrow> u64 list" where
  "root_words env s =
    (let sm = getGlobalRegions (le_maps env) (lc_selfmap s) in
     take 15 (le_gregs env) @ map (le_memory env) (words_from (le_context env) (le_stackBottom env))
     @ region_words env (take (unat (numOfRegion sm)) (regions sm)) @ region_words env [silentRegions sm ! 1])"

definition leak_ok :: "nat \<Rightarrow> LeakCheck \<Rightarrow> bool" where
  "leak_ok tid s \<longleftrightarrow> table_invar tid (lc_table s) \<and> table_invar tid (lc_sites s)
    \<and> marked (lc_look s) = {} \<and> lc_unexplored s = []"

definition leaked :: "LeakEnv \<Rightarrow> LeakCheck \<Rightarrow> u64 set" where
  "leaked env s = {a. \<exists>ob. lc_look s a = Some ob \<and> ob_allocated ob \<and> ob_tid ob = le_tid env
    \<and> a \<noteq> le_currentObject env
    \<and> \<not> reachable env (set (root_words env s)) (mw_minAddr (lc_waste s)) (mw_maxAddr (lc_waste s)) (lc_look s) a}"

text \<open>Up to the marking the check only collects pointers.\<close>

lemma collect_roots:
  assumes ok: "leak_ok tid s"
    and lo: "lo = mw_minAddr (lc_waste s)" and hi: "hi = mw_maxAddr (lc_waste s)"
  obtains t u where "doSlowLeakCheck env lo hi s = Inr t"
    and "searchHeapPointersInsideGlobals env (t\<lparr>lc_selfmap := getGlobalRegions (le_maps env) (lc_selfmap t)\<rparr>) = Inr u"
    and "lc_waste u = lc_waste s"
    and "mark_inv tid env (set (root_words env s)) lo hi (lc_look s) u"
proof -
  define up where "up = unmarked_pointer (s\<lparr>lc_heapBegin := lo, lc_heapEnd := hi\<rparr>)"
  have tab: "table_invar tid (lc_table s)" and un: "lc_unexplored s = []" and mk: "marked (lc_look s) = {}"
    using ok by (auto simp: leak_ok_def)
  have up: "unmarked_pointer v = up" if "lc_waste v = lc_waste s" "lc_heapBegin v = lo" "lc_heapEnd v = hi" for v
    using that by (auto simp: up_def unmarked_pointer_def fun_eq_iff)
  have up_eq: "up a \<longleftrightarrow> heap_pointer lo hi (lc_look s) a" for a
    using mk by (simp add: up_def unmarked_pointer_def)
  let ?sm = "getGlobalRegions (le_maps env) (lc_selfmap s)"
  let ?s0 = "s\<lparr>lc_heapBegin := lo, lc_heapEnd := hi\<rparr>"
  let ?ws = "take 15 (le_gregs env) @ map (le_memory env) (words_from (le_context env) (le_stackBottom env))"
  let ?t = "?s0\<lparr>lc_unexplored := filter up ?ws\<rparr>"
  have t: "doSlowLeakCheck env lo hi s = Inr ?t"
    using tab by (simp add: doSlowLeakCheck_def searchHeapPointersInRegisters_def searchHeapPointersInsideStack_def
        searchHeapPointers_def check_all_eq [where tid = tid] un up)
  let ?u = "?t\<lparr>lc_selfmap := ?sm, lc_unexplored := filter up (root_words env s)\<rparr>"
  have u: "searchHeapPointersInsideGlobals env (?t\<lparr>lc_selfmap := getGlobalRegions (le_maps env) (lc_selfmap ?t)\<rparr>) = Inr ?u"
    using tab by (simp add: searchHeapPointersInsideGlobals_def search_regions_eq [where tid = tid] up
        root_words_def Let_def region_words_def del: search_regions.simps)
  have "pending ?u a" if "a \<in> set (root_words env s)" "heap_pointer lo hi (lc_look s) a" for a
    using that by (simp add: pending_def up_eq)
  moreover have "reachable env (set (root_words env s)) lo hi (lc_look s) a" if "a \<in> set (lc_unexplored ?u)" for a
    using that by (auto simp: up_eq intro: reachable.root)
  ultimately have "mark_inv tid env (set (root_words env s)) lo hi (lc_look s) ?u"
    using tab mk erase_unmarked [OF mk] by (simp add: mark_inv_def)
  with t u show thesis using that [of ?t ?u] by simp
qed

lemma iterate_table:
  assumes "table_invar tid (hm, mm)"
  obtains es where "\<And>fuel. length es \<le> fuel \<Longrightarrow> iterate hm fuel (HashMap_begin hm) = Some es"
    and "distinct (map (hm_key hm) es)" and "\<forall>e \<in> set es. HashMap_find hm (hm_key hm e) = Inr (Some e)"
    and "hm_key hm ` set es = dom (table_lookup (hm, mm))"
proof -
  obtain B where "hm_rep hm B" using assms by (auto simp: table_invar_def)
  from iterate_begin [OF this] entries_of_rep [OF this] obtain es where
    es: "\<And>fuel. length es \<le> fuel \<Longrightarrow> iterate hm fuel (HashMap_begin hm) = Some es" "distinct (map (hm_key hm) es)"
      "\<And>k e. HashMap_find hm k = Inr (Some e) \<longleftrightarrow> e \<in> set es \<and> hm_key hm e = k" by blast
  have "k \<in> dom (table_lookup (hm, mm)) \<longleftrightarrow> (\<exists>e. HashMap_find hm k = Inr (Some e))" for k
    using table_find [OF assms, of k] by (auto simp: table_lookup_def split: sum.splits option.splits)
  then have "hm_key hm ` set es = dom (table_lookup (hm, mm))" using es(3) unfolding set_eq_iff image_iff by metis
  with es show thesis by (intro that [of es]) auto
qed

lemma leak_sum:
  assumes fin: "finite (dom obj)" and L: "\<And>a ob. obj a = Some ob \<Longrightarrow> leaks env a ob \<longleftrightarrow> a \<in> L" and "L \<subseteq> dom obj"
    and P: "\<And>ob. P (ob\<lparr>ob_mark := False\<rparr>) = P ob"
  shows "(\<Sum>a\<in>dom obj. leak_size env P obj a)
    = (\<Sum>a\<in>{a \<in> L. P (the (erase obj a))}. ucast (sc_size (ob_class (the (erase obj a)))))"
proof -
  have "{a \<in> L. P (the (erase obj a))} = {a \<in> dom obj. a \<in> L \<and> P (the (erase obj a))}" using assms(3) by auto
  moreover have "leak_size env P obj a = (if a \<in> L \<and> P (the (erase obj a))
      then ucast (sc_size (ob_class (the (erase obj a)))) else 0)" if "a \<in> dom obj" for a
    using that L P by (auto simp: leak_size_def erase_def)
  ultimately show ?thesis by (simp add: sum.inter_filter [OF fin])
qed

lemma handler_spec:
  assumes ok: "leak_ok tid s" and heap: "mw_minAddr (lc_waste s) \<noteq> - 1" "mw_maxAddr (lc_waste s) \<noteq> 0"
  shows "\<exists>n. \<forall>fuel \<ge> n. \<exists>t. leak_handler fuel env s = Some (Inr t)
    \<and> lc_totalLeakageSize t = (\<Sum>a\<in>leaked env s. ucast (sc_size (ob_class (the (lc_look s a)))))
    \<and> (\<forall>c. table_lookup (lc_sites t) c = map_option (more_leaked
         (\<Sum>a\<in>{a \<in> leaked env s. ob_callKey (the (lc_look s a)) = c}. ucast (sc_size (ob_class (the (lc_look s a))))))
         (table_lookup (lc_sites s) c))
    \<and> lc_look t = lc_look s \<and> leak_ok tid t"
proof -
  define lo hi where lh: "lo = mw_minAddr (lc_waste s)" "hi = mw_maxAddr (lc_waste s)"
  let ?R = "reachable env (set (root_words env s)) lo hi (lc_look s)"
  obtain t u where t: "doSlowLeakCheck env lo hi s = Inr t"
    and u: "searchHeapPointersInsideGlobals env (t\<lparr>lc_selfmap := getGlobalRegions (le_maps env) (lc_selfmap t)\<rparr>) = Inr u"
    and w: "lc_waste u = lc_waste s" and inv: "mark_inv tid env (set (root_words env s)) lo hi (lc_look s) u"
    using collect_roots [OF ok lh] by blast
  obtain v where v: "mark_loop env u = Some (Inr v)" "same_check u v" "lc_unexplored v = []"
    and vinv: "mark_inv tid env (set (root_words env s)) lo hi (lc_look s) v"
    using mark_loop_terminates [OF inv] by blast
  have vt: "table_invar tid (lc_table v)" and er: "erase (lc_look v) = lc_look s"
    using vinv by (auto simp: mark_inv_def)
  have mk: "marked (lc_look v) = live (lc_look s) \<inter> Collect ?R" by (rule all_marked [OF vinv v(3)])
  have sites: "lc_sites v = lc_sites s" using same_checkD(5,6) [OF v(2)] w by simp
  have vs: "table_invar tid (lc_sites v)" using ok unfolding sites by (simp add: leak_ok_def)
  have dom: "dom (lc_look v) = dom (lc_look s)" unfolding er [symmetric] by (auto simp: erase_def)
  obtain es where es: "\<And>fuel. length es \<le> fuel \<Longrightarrow> iterate (lc_objects v) fuel (HashMap_begin (lc_objects v)) = Some es"
      "distinct (map (hm_key (lc_objects v)) es)" "\<forall>e \<in> set es. HashMap_find (lc_objects v) (hm_key (lc_objects v) e) = Inr (Some e)"
      "hm_key (lc_objects v) ` set es = dom (lc_look v)"
    using iterate_table [OF vt] by blast
  let ?v = "v\<lparr>lc_totalLeakageSize := 0\<rparr>"
  obtain r where r: "sweep_entries env es ?v = Inr r" "lc_unexplored r = []"
      "lc_look r = (\<lambda>k. if k \<in> dom (lc_look v) then erase (lc_look v) k else lc_look v k)"
      "lc_totalLeakageSize r = (\<Sum>k\<in>dom (lc_look v). leak_size env (\<lambda>_. True) (lc_look v) k)"
      "table_lookup (lc_sites r) = (\<lambda>c. map_option (more_leaked
         (\<Sum>k\<in>dom (lc_look v). leak_size env (\<lambda>ob. ob_callKey ob = c) (lc_look v) k)) (table_lookup (lc_sites v) c))"
      "table_invar tid (lc_table r)" "table_invar tid (lc_sites r)"
    using sweep_entries_spec [of tid ?v es _ env] vt vs es(2-4) v(3) by (auto cong: if_cong)
  have L: "leaks env a ob \<longleftrightarrow> a \<in> leaked env s" if "lc_look v a = Some ob" for a ob
  proof -
    have o: "lc_look s a = Some (ob\<lparr>ob_mark := False\<rparr>)" using that by (simp add: er [symmetric] erase_def)
    have "ob_mark ob \<longleftrightarrow> ob_allocated ob \<and> ?R a"
      using that o arg_cong [OF mk, of "\<lambda>M. a \<in> M"] by (simp add: marked_def live_def)
    with o show ?thesis by (auto simp: leaks_def leaked_def lh)
  qed
  have sub: "leaked env s \<subseteq> dom (lc_look v)" unfolding dom by (auto simp: leaked_def)
  note sums = leak_sum [OF finite_table [OF vt] L sub, unfolded er]
  have look: "lc_look r = lc_look s"
    unfolding r(3) er [symmetric] by (rule ext) (simp add: erase_def domIff)
  have "leak_handler fuel env s = Some (Inr r)" if "length es \<le> fuel" for fuel
    using heap t u v(1) es(1) [OF that] r(1) by (simp add: leak_handler_def lh sweep_def)
  moreover have "leak_ok tid r" using r(2,6,7) ok look by (simp add: leak_ok_def)
  ultimately show ?thesis
    using look r(4,5) sums [of "\<lambda>_. True"] sums [of "\<lambda>ob. ob_callKey ob = c" for c]
    by (intro exI [of _ "length es"] allI impI exI [of _ r]) (simp add: sites)
qed

section \<open>Properties\<close>


text \<open>A table of one object of 100 bytes, at address 7, and a thread whose registers are \<open>regs\<close>.\<close>

definition sample_object :: ObjectStatus where
  "sample_object = \<lparr>ob_allocated = True, ob_mark = False, ob_callKey = 3, ob_tid = 0,
    ob_class = \<lparr>classSizeIndex = 3, sc_size = 100, sc_classSize = 128\<rparr>, ob_maxTouchedBytes = 100\<rparr>"

definition sample_leak_env :: "u64 list \<Rightarrow> LeakEnv" where
  "sample_leak_env regs = \<lparr>le_memory = \<lambda>_. 0, le_gregs = regs, le_context = 0, le_stackBottom = 0,
    le_tid = 0, le_currentObject = 0, le_maps = []\<rparr>"

definition sample_check :: "u64 \<Rightarrow> u64 \<Rightarrow> LeakCheck" where
  "sample_check lo hi =
    \<lparr>lc_waste = sample_waste (one_entry sample_object) small_memory lo hi,
     lc_selfmap = \<lparr>sm_init = False, regions = replicate 256 (0, 0), numOfRegion = 0,
       silentRegions = replicate 256 (0, 0), numOfSilentRegions = 0\<rparr>,
     lc_unexplored = [], lc_totalLeakageSize = 0, lc_heapBegin = 0, lc_heapEnd = 0\<rparr>"

lemma sample_look: "lc_look (sample_check lo hi) = [7 \<mapsto> sample_object]"
proof -
  have "HashMap_find (one_entry sample_object) k = Inr (if k = 7 then Some 0x2000 else None)" for k
    using HashMap_find_rep [OF one_entry_rep, of sample_object k] by (simp add: one_entry_def)
  then show ?thesis
    by (auto simp: sample_check_def sample_waste_def table_lookup_def fun_eq_iff) (simp add: one_entry_def)
qed

lemma sample_check_ok: "leak_ok 0 (sample_check lo hi)"
  using one_entry_table [of sample_object] sample_sites_ok(1) [of small_memory] sample_look [of lo hi]
  by (simp add: leak_ok_def marked_def sample_object_def) (simp add: sample_check_def sample_waste_def sample_object_def)

lemma sample_roots: "root_words (sample_leak_env regs) (sample_check lo hi) = take 15 regs"
  by (simp add: root_words_def sample_leak_env_def sample_check_def getGlobalRegions_def region_words_def
      words_from.simps aligndown_def)


text \<open>
  the bounds of the heap are the lowest and the highest address of an object, and the check takes a
  word for a pointer only strictly between them: the only object of a program is reported as leaked
  whatever points to it.
\<close>

theorem lone_object_is_reported_leaked:
  assumes ok: "leak_ok tid s" and one: "lc_look s = [a \<mapsto> ob]" "mw_minAddr (lc_waste s) = a" "mw_maxAddr (lc_waste s) = a"
    and ob: "ob_allocated ob" "ob_tid ob = le_tid env" "a \<noteq> le_currentObject env" and a: "a \<noteq> 0" "a \<noteq> - 1"
  shows "\<exists>fuel t. leak_handler fuel env s = Some (Inr t) \<and> lc_totalLeakageSize t = ucast (sc_size (ob_class ob))"
proof -
  have "\<not> reachable env R a a obj b" for R obj b
  proof
    assume "reachable env R a a obj b" then show False by induction (auto simp: heap_pointer_def)
  qed
  then have "leaked env s = {a}" using one ob by (auto simp: leaked_def split: if_splits)
  with handler_spec [OF ok, of env] one a show ?thesis by simp blast
qed

theorem lone_object_is_reported_leaked_witness:
  "\<exists>fuel t. leak_handler fuel (sample_leak_env [7, 7, 7]) (sample_check 7 7) = Some (Inr t) \<and> lc_totalLeakageSize t = 100"
  using lone_object_is_reported_leaked [OF sample_check_ok sample_look, of 7 7 "sample_leak_env [7, 7, 7]"]
  by (simp add: sample_check_def sample_waste_def sample_object_def sample_leak_env_def)

text \<open>
  the number of mappings read from the map file is a \<open>uint8_t\<close>: with 256 of them, the check finds no
  region of global data at all.
\<close>

theorem full_map_file_finds_no_region:
  assumes "\<not> sm_init sm" and "length (filter (\<lambda>m. m \<noteq> None) stream) = 256"
  shows "numOfRegion (getGlobalRegions stream sm) = 0"
proof -
  have "snd (read_maps stream maps n) = n + of_nat (length (filter (\<lambda>m. m \<noteq> None) stream))" for maps n
    by (induction stream maps n rule: read_maps.induct) (simp_all del: not_None_eq)
  from this [of "replicate MAX_REGION_NUM None" 0]
  obtain maps where "read_maps stream (replicate MAX_REGION_NUM None) 0 = (maps, 0)"
    using assms(2) by (cases "read_maps stream (replicate MAX_REGION_NUM None) 0") simp
  then show ?thesis using assms(1) by (simp add: getGlobalRegions_def)
qed

theorem full_map_file_finds_no_region_witness:
  "numOfRegion (getGlobalRegions (replicate 256 (Some \<lparr>mp_base = 0x1000, mp_limit = 0x2000, mp_readable = True,
     mp_writable = True, mp_executable = False, mp_copy_on_write = True, mp_file = ''[heap]''\<rparr>))
     (lc_selfmap (sample_check 1 9))) = 0"
  by (rule full_map_file_finds_no_region) (simp_all add: sample_check_def)

end
