(* ===== verification/MemoryProfile.thy ===== *)
theory MemoryProfile
  imports MemoryWaste AllocatingStatus
begin

text \<open>
  How the version in \<^verbatim>\<open>src_temp\<close> measures memory: an allocation asks the shadow memory how many pages it
  touches first (\<^verbatim>\<open>shadowmemory.cpp\<close> with \<^verbatim>\<open>MEMORY\<close> defined), and the memory usage counts them; a free
  takes the object's size out, and pages given back to the system are no longer touched
  (\<^verbatim>\<open>allocatingstatus.cpp\<close>, \<^verbatim>\<open>libmallocprof.cpp\<close>).

  The page entries have one more field than in \<open>ShadowMemory\<close>, kept here as a function beside it. What
  this version does as \<^verbatim>\<open>src_light\<close> does is taken from the theories of that version.
\<close>

section \<open>Touched pages\<close>

record TouchedPages =
  tp_shadow :: ShadowMemory
  tp_touched :: "nat \<Rightarrow> nat \<Rightarrow> bool"

definition on_shadow :: "(ShadowMemory \<Rightarrow> crash + ShadowMemory) \<Rightarrow> TouchedPages \<Rightarrow> crash + TouchedPages" where
  "on_shadow f s = bindR (f (tp_shadow s)) (\<lambda>m. Inr (s\<lparr>tp_shadow := m\<rparr>))"

definition set_touched :: "nat \<Rightarrow> nat \<Rightarrow> bool \<Rightarrow> TouchedPages \<Rightarrow> TouchedPages" where
  "set_touched r i b s = s\<lparr>tp_touched := (tp_touched s)(r := (tp_touched s r)(i := b))\<rparr>"

text \<open>The counter \<open>touchedPages\<close> is carried along with the state.\<close>

fun touch :: "nat \<Rightarrow> nat \<Rightarrow> TouchedPages \<times> u32 \<Rightarrow> TouchedPages \<times> u32" where
  "touch r i (s, touchedPages) =
    (if \<not> tp_touched s r i then (set_touched r i True s, touchedPages + 1) else (s, touchedPages))"

text \<open>The first page and every full page are touched; the last one, if it is not full, is not.\<close>

definition mallocUpdatePages_touch :: "u64 \<Rightarrow> nat \<Rightarrow> nat \<Rightarrow> nat \<Rightarrow> TouchedPages \<Rightarrow> crash + (u32 \<times> TouchedPages)" where
  "mallocUpdatePages_touch uintaddr r page_index sz s =
    (let first = min (PAGESIZE - unat (uintaddr AND 0xfff)) sz in
     bindR (on_shadow (update_page r page_index (PageMapEntry_addUsedBytes first)) s) (\<lambda>s.
     bindR (full_blocks PAGESIZE
        (\<lambda>i (s, n). bindR (on_shadow (update_page r i PageMapEntry_setFull) s) (\<lambda>s. Inr (touch r i (s, n))))
        (sz - first) page_index (touch r page_index (s, 0))) (\<lambda>(rest, i, s, n).
     bindR (if rest > 0 then on_shadow (update_page r (Suc i) (PageMapEntry_addUsedBytes rest)) s else Inr s) (\<lambda>s.
     Inr (n * of_nat PAGESIZE, s)))))"

definition mallocUpdateObject_touch :: "u64 \<Rightarrow> u64 \<Rightarrow> u32 \<Rightarrow> TouchedPages \<Rightarrow> crash + (u32 \<times> TouchedPages)" where
  "mallocUpdateObject_touch junk address sz s =
    (if sz = 0 then Inr (0, s)
     else (let (r, page_index) = getPageIndex junk address in
       if r = NUM_ADDRESS_RANGE then Inr (0, s)
       else bindR (mallocUpdatePages_touch address r (unat page_index) (unat sz) s) (\<lambda>(touchedPageSize, s).
         bindR (on_shadow (mallocUpdateCacheLines r (unat page_index) (unat (drop_bit 6 (address AND 0xfff)))
            (unat (address AND 63)) (unat sz)) s) (\<lambda>s. Inr (touchedPageSize, s)))))"

text \<open>The conflict table has 32 lines in this version.\<close>

definition checkObj_32 :: "nat \<Rightarrow> u8 \<Rightarrow> ConflictData \<Rightarrow> crash + ConflictData" where
  "checkObj_32 c callKey cd =
    (if find_index (unat (cd_numOfCme cd)) (cd_cme cd) c < 32 then ConflictData_checkObj c callKey cd
     else Inl OutOfBounds)"

definition check_conflict_waste :: "ObjectStatus \<Rightarrow> nat \<Rightarrow> ShadowMemory \<Rightarrow> crash + ShadowMemory" where
  "check_conflict_waste ob c s =
    (if has_bit (cme_misses (sm_cache_map s c)) CONFLICT_BIT
     then bindR (checkObj_32 c (ob_callKey ob) (sm_conflictData s)) (\<lambda>cd. Inr (s\<lparr>sm_conflictData := cd\<rparr>))
     else Inr s)"

text \<open>The coherency entry reads the thread, the call key and no other field of the object.\<close>

definition obj_stat :: "ObjectStatus \<Rightarrow> ObjStat" where
  "obj_stat ob = \<lparr>os_callKey = ob_callKey ob, os_tid = ob_tid ob, os_size = sc_size (ob_class ob)\<rparr>"

definition free_line_part_waste :: "ObjectStatus \<Rightarrow> nat \<Rightarrow> nat \<Rightarrow> ShadowMemory \<Rightarrow> crash + ShadowMemory" where
  "free_line_part_waste ob n c s =
    bindR (update_cme c (CacheMapEntry_subUsedBytes n) s) (\<lambda>s.
    bindR (check_conflict_waste ob c s) (check_coherency (obj_stat ob) c))"

definition free_line_full_waste :: "ObjectStatus \<Rightarrow> nat \<Rightarrow> ShadowMemory \<Rightarrow> crash + ShadowMemory" where
  "free_line_full_waste ob c s =
    (if has_bit (cme_misses (sm_cache_map s c)) CONFLICT_BIT
     then bindR (check_conflict_waste ob c s) (\<lambda>s.
       bindR (update_cme c (\<lambda>e. e\<lparr>cme_misses := cme_misses e AND 0x7f\<rparr>) s) (update_cme c CacheMapEntry_setEmpty))
     else update_cme c CacheMapEntry_setEmpty s)"

definition freeUpdateCacheLines_waste ::
  "ObjectStatus \<Rightarrow> nat \<Rightarrow> nat \<Rightarrow> nat \<Rightarrow> nat \<Rightarrow> ShadowMemory \<Rightarrow> crash + ShadowMemory" where
  "freeUpdateCacheLines_waste ob r page_index cache_index firstCacheLineOffset =
    update_lines (free_line_part_waste ob) (free_line_full_waste ob) r page_index cache_index firstCacheLineOffset
      (unat (sc_size (ob_class ob)))"

definition freeUpdateObject_waste :: "u64 \<Rightarrow> u64 \<Rightarrow> ObjectStatus \<Rightarrow> TouchedPages \<Rightarrow> crash + TouchedPages" where
  "freeUpdateObject_waste junk address ob s =
    (if sc_size (ob_class ob) = 0 then Inr s
     else (let (r, page_index) = getPageIndex junk address in
       if r = NUM_ADDRESS_RANGE then Inr s
       else on_shadow (\<lambda>m.
         bindR (freeUpdatePages address r (unat page_index) (unat (sc_size (ob_class ob))) m)
           (freeUpdateCacheLines_waste ob r (unat page_index) (unat (drop_bit 6 (address AND 0xfff)))
              (unat (address AND 63)))) s))"

section \<open>Pages given back\<close>

text \<open>
  \<open>current\<close> is stepped before it is asked whether it is touched, so the page asked is the one after the page
  that was cleared. The count is an \<open>unsigned int\<close>, as is its product with the size of a page.
\<close>

fun clear_touched :: "nat \<Rightarrow> nat \<Rightarrow> nat \<Rightarrow> u32 \<Rightarrow> TouchedPages \<Rightarrow> crash + (u32 \<times> TouchedPages)" where
  "clear_touched 0 r i freedPageNum s = Inr (freedPageNum, s)"
| "clear_touched (Suc n) r i freedPageNum s =
    bindR (on_shadow (PageMapEntry_clear r i) s) (\<lambda>s.
      let s = set_touched r i False s in
      if Suc i < MAX_PAGE_MAP_ENTRIES
      then clear_touched n r (Suc i) (if tp_touched s r (Suc i) then freedPageNum + 1 else freedPageNum) s
      else Inl OutOfBounds)"

definition cleanupPages_touch :: "u64 \<Rightarrow> u64 \<Rightarrow> u64 \<Rightarrow> TouchedPages \<Rightarrow> crash + (u64 \<times> TouchedPages)" where
  "cleanupPages_touch junk uintaddr len s =
    (let (r, page_index) = getPageIndex junk uintaddr in
     bindR (clear_touched (unat (alignup len (of_nat PAGESIZE)) div PAGESIZE) r (unat page_index) 0 s)
       (\<lambda>(freedPageNum, s). Inr (ucast (freedPageNum * of_nat PAGESIZE), s)))"

section \<open>The memory status of a call\<close>

record MemoryProfile =
  mpf_pages :: TouchedPages
  mpf_waste :: MemoryWaste
  mpf_usage :: MemoryUsage

text \<open>
  \<open>callsiteKey\<close> is what \<^verbatim>\<open>doABackTrace\<close> returns; \<open>threads\<close> is \<open>totalNumOfThread\<close>, and
  \<open>try_lock_succeeds\<close> whether the peak can be recorded now.
\<close>

definition updateMemoryStatusAfterAllocation_waste ::
  "u16 \<Rightarrow> u8 \<Rightarrow> bool \<Rightarrow> nat \<Rightarrow> u64 \<Rightarrow> AllocatingStatus \<Rightarrow> MemoryProfile \<Rightarrow> crash + (AllocatingStatus \<times> MemoryProfile)" where
  "updateMemoryStatusAfterAllocation_waste tid callsiteKey try_lock_succeeds threads junk a p =
    (let sz = at_objectSize (allocatingType a); address = objectAddress (allocatingType a) in
     bindR (allocUpdate tid sz address callsiteKey (mpf_waste p)) (\<lambda>(reused, w).
     bindR (mallocUpdateObject_touch junk address sz (mpf_pages p)) (\<lambda>(touchedPageSize, pages).
     let (u, w) = addToMemoryUsage try_lock_succeeds threads tid sz touchedPageSize (mpf_usage p) w in
     Inr (a\<lparr>allocatingType := (allocatingType a)\<lparr>isReuse := reused\<rparr>\<rparr>,
          \<lparr>mpf_pages = pages, mpf_waste = w, mpf_usage = u\<rparr>))))"

definition updateMemoryStatusBeforeFree_waste ::
  "u16 \<Rightarrow> u64 \<Rightarrow> AllocatingStatus \<Rightarrow> MemoryProfile \<Rightarrow> crash + (AllocatingStatus \<times> MemoryProfile)" where
  "updateMemoryStatusBeforeFree_waste tid junk a p =
    bindR (freeUpdate tid (objectAddress (allocatingType a)) (mpf_waste p)) (\<lambda>(objStat, w).
    let p = p\<lparr>mpf_waste := w\<rparr> in
    case objStat of
      None \<Rightarrow> Inr (a, p)
    | Some ob \<Rightarrow>
        (let a = a\<lparr>allocatingType := (allocatingType a)\<lparr>at_objectSize := sc_size (ob_class ob)\<rparr>\<rparr> in
         if at_objectSize (allocatingType a) \<noteq> 0
         then bindR (freeUpdateObject_waste junk (objectAddress (allocatingType a)) ob (mpf_pages p)) (\<lambda>pages.
                Inr (a, p\<lparr>mpf_pages := pages,
                          mpf_usage := subRealSizeFromMemoryUsage tid (at_objectSize (allocatingType a)) (mpf_usage p)\<rparr>))
         else Inr (a, p)))"

definition give_back_pages :: "u16 \<Rightarrow> u64 \<Rightarrow> u64 \<Rightarrow> u64 \<Rightarrow> MemoryProfile \<Rightarrow> crash + MemoryProfile" where
  "give_back_pages tid junk addr len p =
    bindR (cleanupPages_touch junk addr len (mpf_pages p)) (\<lambda>(freedPageSize, pages).
    Inr (p\<lparr>mpf_pages := pages, mpf_usage := subTotalSizeFromMemoryUsage tid (ucast freedPageSize) (mpf_usage p)\<rparr>))"

definition madvise_waste ::
  "u16 \<Rightarrow> u64 \<Rightarrow> u64 \<Rightarrow> u64 \<Rightarrow> int \<Rightarrow> u64 \<Rightarrow> u64 \<Rightarrow> AllocatingStatus \<times> MemoryProfile
    \<Rightarrow> crash + (AllocatingStatus \<times> MemoryProfile)" where
  "madvise_waste tid junk addr len advice start stop = (\<lambda>(a, p).
    if outsideTrackedAllocation a then Inr (a, p)
    else bindR (if advice = 4 then give_back_pages tid junk addr len p else Inr p) (\<lambda>p.
      Inr (if \<not> sampledForCountingEvent a then a else addOneSyscallToSyscallData MADVISE (stop - start) a, p)))"

definition munmap_waste ::
  "u16 \<Rightarrow> u64 \<Rightarrow> u64 \<Rightarrow> u64 \<Rightarrow> u64 \<Rightarrow> u64 \<Rightarrow> AllocatingStatus \<times> MemoryProfile
    \<Rightarrow> crash + (AllocatingStatus \<times> MemoryProfile)" where
  "munmap_waste tid junk addr len start stop = (\<lambda>(a, p).
    if outsideTrackedAllocation a then Inr (a, p)
    else bindR (give_back_pages tid junk addr len p) (\<lambda>p.
      Inr (if \<not> sampledForCountingEvent a then a else addOneSyscallToSyscallData MUNMAP (stop - start) a, p)))"

end
