(* ===== verification/MemoryProfile_Correct.thy ===== *)
theory MemoryProfile_Correct
  imports MemoryProfile MemoryWaste_Report ShadowMemory_Correct
begin

text \<open>
  What the memory usage counts: the pages touched and not given back, and the bytes of the objects in use.
  Which pages count as touched, and which count as given back, is not quite what it should be.
\<close>

section \<open>Touching pages\<close>

definition touched_pages :: "TouchedPages \<Rightarrow> (nat \<times> nat) set" where
  "touched_pages s = {(r, i). tp_touched s r i}"

lemma on_shadow_touched: "on_shadow f s = Inr s' \<Longrightarrow> tp_touched s' = tp_touched s"
  by (auto simp: on_shadow_def bindR_Inr_iff)

lemma on_shadow_touched_pages: "on_shadow f s = Inr s' \<Longrightarrow> touched_pages s' = touched_pages s"
  by (simp add: touched_pages_def on_shadow_touched)

text \<open>From one state to the next all pages of \<open>P\<close> are touched, and those that were not are counted.\<close>

definition touches :: "nat \<Rightarrow> nat set \<Rightarrow> TouchedPages \<times> u32 \<Rightarrow> TouchedPages \<times> u32 \<Rightarrow> bool" where
  "touches r P x y \<longleftrightarrow> touched_pages (fst y) = touched_pages (fst x) \<union> {r} \<times> P
    \<and> snd y = snd x + of_nat (card ({r} \<times> P - touched_pages (fst x)))"

lemma touches_none: "touched_pages s' = touched_pages s \<Longrightarrow> touches r {} (s, n) (s', n)"
  by (simp add: touches_def)

lemma touched_pages_set: "touched_pages (set_touched r i b s) = (if b then insert (r, i) else (\<lambda>T. T - {(r, i)})) (touched_pages s)"
  by (auto simp: touched_pages_def set_touched_def split: if_splits)

lemma touches_one: "touches r {i} x (touch r i x)"
  by (cases x) (auto simp: touches_def touched_pages_set insert_Diff_if, auto simp: touched_pages_def)

declare touch.simps [simp del]

lemma touches_trans:
  assumes "touches r P x y" and "touches r Q y z" and "finite P" and "finite Q"
  shows "touches r (P \<union> Q) x z"
proof -
  let ?T = "touched_pages (fst x)"
  have "{r} \<times> (P \<union> Q) - ?T = ({r} \<times> P - ?T) \<union> ({r} \<times> Q - (?T \<union> {r} \<times> P))" by auto
  moreover have "card (({r} \<times> P - ?T) \<union> ({r} \<times> Q - (?T \<union> {r} \<times> P)))
      = card ({r} \<times> P - ?T) + card ({r} \<times> Q - (?T \<union> {r} \<times> P))"
    using assms(3,4) by (intro card_Un_disjoint) auto
  ultimately show ?thesis using assms(1,2) by (auto simp: touches_def algebra_simps)
qed

lemma touches_same: "touches r P x (s, n) \<Longrightarrow> touched_pages s' = touched_pages s \<Longrightarrow> touches r P x (s', n)"
  by (simp add: touches_def)

text \<open>The loop over the full pages.\<close>

abbreviation touch_full :: "nat \<Rightarrow> nat \<Rightarrow> TouchedPages \<times> u32 \<Rightarrow> crash + (TouchedPages \<times> u32)" where
  "touch_full r \<equiv> \<lambda>i (s, n). bindR (on_shadow (update_page r i PageMapEntry_setFull) s) (\<lambda>s. Inr (touch r i (s, n)))"

lemma full_pages_touched:
  "full_blocks PAGESIZE (touch_full r) n i x = Inr (rest, j, y) \<Longrightarrow>
    rest = n mod PAGESIZE \<and> j = i + n div PAGESIZE \<and> touches r {i<..j} x y"
proof (induction n arbitrary: i x rule: less_induct)
  case (less n)
  have pos: "0 < PAGESIZE" by (simp add: PAGESIZE_def)
  show ?case
  proof (cases "PAGESIZE \<le> n")
    case True
    obtain s c where x: "x = (s, c)" by (cases x)
    from less.prems True pos obtain s1 where s1: "on_shadow (update_page r (Suc i) PageMapEntry_setFull) s = Inr s1"
      and rest: "full_blocks PAGESIZE (touch_full r) (n - PAGESIZE) (Suc i) (touch r (Suc i) (s1, c)) = Inr (rest, j, y)"
      by (subst (asm) full_blocks.simps) (auto simp: x bindR_Inr_iff)
    have "n - PAGESIZE < n" using True pos by simp
    note ih = less.IH [OF this rest]
    then have ih: "rest = (n - PAGESIZE) mod PAGESIZE" "j = Suc i + (n - PAGESIZE) div PAGESIZE"
        "touches r {Suc i<..j} (touch r (Suc i) (s1, c)) y"
      by blast+
    have "touches r {Suc i} x (touch r (Suc i) (s1, c))"
      using touches_one [of r "Suc i" "(s1, c)"] on_shadow_touched_pages [OF s1] by (simp add: touches_def x)
    from touches_trans [OF this ih(3)] have "touches r ({Suc i} \<union> {Suc i<..j}) x y" by simp
    moreover have "{Suc i} \<union> {Suc i<..j} = {i<..j}" using ih(2) by auto
    moreover have "n div PAGESIZE = Suc ((n - PAGESIZE) div PAGESIZE)" "n mod PAGESIZE = (n - PAGESIZE) mod PAGESIZE"
      using True pos by (simp_all add: le_div_geq le_mod_geq)
    ultimately show ?thesis using ih(1,2) by simp
  next
    case False
    then have "Inr (n, i, x) = (Inr (rest, j, y) :: crash + _)"
      using less.prems by (subst (asm) full_blocks.simps) simp
    with False show ?thesis by (cases x) (auto intro: touches_none)
  qed
qed

text \<open>The pages an object counts as touching: its first one and those it fills.\<close>

definition counted_pages :: "nat \<Rightarrow> nat \<Rightarrow> nat \<Rightarrow> nat set" where
  "counted_pages idx off n = {i. i = idx \<or> idx < i \<and> overlap PAGESIZE (idx * PAGESIZE + off) n i = PAGESIZE}"

lemma counted_pages_interval:
  assumes "off < PAGESIZE"
  shows "counted_pages idx off n = {idx..idx + (n - min (PAGESIZE - off) n) div PAGESIZE}"
proof -
  let ?m = "n - min (PAGESIZE - off) n"
  have pos: "0 < PAGESIZE" by (simp add: PAGESIZE_def)
  have "overlap PAGESIZE (idx * PAGESIZE + off) n i = PAGESIZE \<longleftrightarrow> i - idx \<le> ?m div PAGESIZE" if i: "idx < i" for i
  proof -
    have "overlap PAGESIZE (idx * PAGESIZE + off) n i = overlap PAGESIZE (Suc idx * PAGESIZE) ?m i"
      using overlap_first [OF assms, of idx n i] i by simp
    moreover have "Suc idx * PAGESIZE \<le> i * PAGESIZE" using i by (intro mult_le_mono1) simp
    then have "overlap PAGESIZE (Suc idx * PAGESIZE) ?m i = PAGESIZE \<longleftrightarrow> i * PAGESIZE + PAGESIZE \<le> Suc idx * PAGESIZE + ?m"
      using pos by (auto simp: overlap_def)
    moreover have "i * PAGESIZE + PAGESIZE \<le> Suc idx * PAGESIZE + ?m \<longleftrightarrow> (i - idx) * PAGESIZE \<le> ?m"
      using i by (auto simp: diff_mult_distrib algebra_simps)
    moreover have "(i - idx) * PAGESIZE \<le> ?m \<longleftrightarrow> i - idx \<le> ?m div PAGESIZE"
      using pos by (simp add: less_eq_div_iff_mult_less_eq)
    ultimately show ?thesis by simp
  qed
  then show ?thesis by (auto simp: counted_pages_def)
qed

lemma page_offset: "unat (a AND 0xfff :: u64) < PAGESIZE"
proof -
  have "(0xfff :: u64) = mask 12" by (simp add: mask_eq_exp_minus_1)
  then have "unat (a AND 0xfff) = unat a mod 2 ^ 12" by (metis unat_and_mask)
  then show ?thesis by (simp add: PAGESIZE_def)
qed

lemma mallocUpdatePages_touched:
  assumes run: "mallocUpdatePages_touch a r idx sz s = Inr (t, s')"
  defines "P \<equiv> counted_pages idx (unat (a AND 0xfff)) sz"
  shows "touched_pages s' = touched_pages s \<union> {r} \<times> P"
    and "t = of_nat (card ({r} \<times> P - touched_pages s)) * of_nat PAGESIZE"
proof -
  let ?f = "min (PAGESIZE - unat (a AND 0xfff)) sz"
  obtain s1 rest j s2 n where s1: "on_shadow (update_page r idx (PageMapEntry_addUsedBytes ?f)) s = Inr s1"
    and full: "full_blocks PAGESIZE (touch_full r) (sz - ?f) idx (touch r idx (s1, 0)) = Inr (rest, j, (s2, n))"
    and last: "(if rest > 0 then on_shadow (update_page r (Suc j) (PageMapEntry_addUsedBytes rest)) s2 else Inr s2) = Inr s'"
    and t: "t = n * of_nat PAGESIZE"
    using run by (auto simp: mallocUpdatePages_touch_def Let_def bindR_Inr_iff)
  have f: "j = idx + (sz - ?f) div PAGESIZE" "touches r {idx<..j} (touch r idx (s1, 0)) (s2, n)"
    using full_pages_touched [OF full] by auto
  have "touched_pages s' = touched_pages s2" using last on_shadow_touched_pages by (auto split: if_splits)
  moreover have P: "{idx} \<union> {idx<..j} = P"
    unfolding P_def counted_pages_interval [OF page_offset] f(1) by auto
  have "touches r {idx} (s, 0) (touch r idx (s1, 0))"
    using touches_one [of r idx "(s1, 0)"] on_shadow_touched_pages [OF s1] by (simp add: touches_def)
  from touches_trans [OF this f(2)] have "touches r P (s, 0) (s2, n)" unfolding P by simp
  ultimately show "touched_pages s' = touched_pages s \<union> {r} \<times> P"
    and "t = of_nat (card ({r} \<times> P - touched_pages s)) * of_nat PAGESIZE"
    by (simp_all add: touches_def t)
qed
section \<open>Giving pages back\<close>

lemma pages_cleared:
  "clear_touched n r i c s = Inr (c', s') \<Longrightarrow>
    touched_pages s' = touched_pages s - {r} \<times> {i..<i + n}
    \<and> c' = c + of_nat (card ({r} \<times> {i<..i + n} \<inter> touched_pages s))"
proof (induction n arbitrary: i c s)
  case (Suc n)
  let ?q = "(r, Suc i)"
  obtain s1 where s1: "on_shadow (PageMapEntry_clear r i) s = Inr s1"
    and rest: "clear_touched n r (Suc i) (if tp_touched (set_touched r i False s1) r (Suc i) then c + 1 else c)
      (set_touched r i False s1) = Inr (c', s')"
    using Suc.prems by (auto simp: bindR_Inr_iff Let_def split: if_splits)
  have T1: "touched_pages (set_touched r i False s1) = touched_pages s - {(r, i)}"
    using on_shadow_touched_pages [OF s1] by (simp add: touched_pages_set)
  have q: "tp_touched (set_touched r i False s1) r (Suc i) \<longleftrightarrow> ?q \<in> touched_pages s"
    using T1 by (auto simp: touched_pages_def)
  note ih = Suc.IH [OF rest, unfolded T1 q]
  have "{r} \<times> {i..<i + Suc n} = insert (r, i) ({r} \<times> {Suc i..<Suc i + n})" by auto
  then have "touched_pages s' = touched_pages s - {r} \<times> {i..<i + Suc n}" using ih by auto
  moreover have "{r} \<times> {i<..i + Suc n} \<inter> touched_pages s
      = ({?q} \<inter> touched_pages s) \<union> ({r} \<times> {Suc i<..Suc i + n} \<inter> (touched_pages s - {(r, i)}))" by auto
  moreover have "card (({?q} \<inter> touched_pages s) \<union> ({r} \<times> {Suc i<..Suc i + n} \<inter> (touched_pages s - {(r, i)})))
      = card ({?q} \<inter> touched_pages s) + card ({r} \<times> {Suc i<..Suc i + n} \<inter> (touched_pages s - {(r, i)}))"
    by (intro card_Un_disjoint) auto
  moreover have "card ({?q} \<inter> touched_pages s) = (if ?q \<in> touched_pages s then 1 else 0)" by simp
  ultimately show ?case using ih by (auto simp: algebra_simps)
qed (simp add: touched_pages_def)

text \<open>The pages from \<open>i\<close> on, and those one further.\<close>

lemma card_shifted:
  fixes i n :: nat
  assumes "0 < n"
  shows "card ({r} \<times> {i<..i + n} \<inter> T) + (if (r, i) \<in> T then 1 else 0)
    = card ({r} \<times> {i..<i + n} \<inter> T) + (if (r, i + n) \<in> T then 1 else 0)"
proof -
  have add: "card (insert p A \<inter> T) = card (A \<inter> T) + (if p \<in> T then 1 else 0)" if "finite A" "p \<notin> A" for p A
    using that by auto
  have "insert (r, i) ({r} \<times> {i<..i + n}) = insert (r, i + n) ({r} \<times> {i..<i + n})" by auto
  moreover have "finite ({r} \<times> {i<..i + n})" "(r, i) \<notin> {r} \<times> {i<..i + n}"
    "finite ({r} \<times> {i..<i + n})" "(r, i + n) \<notin> {r} \<times> {i..<i + n}" by auto
  ultimately show ?thesis using add by metis
qed

definition pages_of :: "u64 \<Rightarrow> nat" where
  "pages_of len = unat (alignup len (of_nat PAGESIZE)) div PAGESIZE"

lemma cleanup_pages:
  assumes "cleanupPages_touch junk a len s = Inr (freed, s')" and "getPageIndex junk a = (r, idx)"
  shows "touched_pages s' = touched_pages s - {r} \<times> {unat idx..<unat idx + pages_of len}"
    and "freed = ucast (of_nat (card ({r} \<times> {unat idx<..unat idx + pages_of len} \<inter> touched_pages s)) * 4096 :: u32)"
proof -
  obtain c where c: "clear_touched (pages_of len) r (unat idx) 0 s = Inr (c, s')"
    and f: "freed = ucast (c * of_nat PAGESIZE)"
    using assms by (auto simp: cleanupPages_touch_def bindR_Inr_iff pages_of_def)
  from pages_cleared [OF c] show "touched_pages s' = touched_pages s - {r} \<times> {unat idx..<unat idx + pages_of len}"
    and "freed = ucast (of_nat (card ({r} \<times> {unat idx<..unat idx + pages_of len} \<inter> touched_pages s)) * 4096 :: u32)"
    by (simp_all add: f PAGESIZE_def)
qed

lemma page_bytes: "k < 2 ^ 20 \<Longrightarrow> ucast (of_nat k * 4096 :: u32) = (of_nat (k * 4096) :: u64)"
  by (simp add: word_unat_eq_iff unat_word_ariths unsigned_ucast_eq unat_of_nat take_bit_nat_eq_self)

lemma page_bytes_eq_iff:
  assumes "k < 2 ^ 20" and "l < 2 ^ 20"
  shows "(of_nat (k * 4096) :: u64) = of_nat (l * 4096) \<longleftrightarrow> k = l"
proof
  assume eq: "(of_nat (k * 4096) :: u64) = of_nat (l * 4096)"
  have "unat (of_nat (m * 4096) :: u64) = m * 4096" if "m < 2 ^ 20" for m
    using that by (intro unat_of_nat_small) simp
  with assms eq have "k * 4096 = l * 4096" by metis
  then show "k = l" by simp
qed simp

lemma ucast_back: "ucast (ucast (x :: u32) :: u64) = x"
  by (rule bit_word_eqI) (auto simp: bit_simps)

section \<open>Objects in use\<close>

definition in_use :: "MemoryWaste \<Rightarrow> u64 set" where
  "in_use w = {a. \<exists>ob. mw_look w a = Some ob \<and> ob_allocated ob}"

definition used_bytes :: "MemoryWaste \<Rightarrow> u64" where
  "used_bytes w = (\<Sum>a\<in>in_use w. ucast (sc_size (ob_class (the (mw_look w a)))))"

lemma finite_in_use: "waste_ok tid w \<Longrightarrow> finite (in_use w)"
  using finite_table [of "unat tid" "(mw_objects w, mw_memory w)"]
  by (rule finite_subset [rotated]) (auto simp: in_use_def waste_ok_def)

lemma used_bytes_alloc:
  assumes "finite (in_use w)" and "a \<notin> in_use w" and "mw_look w' = (mw_look w)(a \<mapsto> ob)" and "ob_allocated ob"
  shows "used_bytes w' = used_bytes w + ucast (sc_size (ob_class ob))"
proof -
  have "in_use w' = insert a (in_use w)" using assms(3,4) by (auto simp: in_use_def)
  then have "used_bytes w' = ucast (sc_size (ob_class ob)) + (\<Sum>x\<in>in_use w. ucast (sc_size (ob_class (the (mw_look w' x)))))"
    using assms by (simp add: used_bytes_def)
  moreover have "(\<Sum>x\<in>in_use w. ucast (sc_size (ob_class (the (mw_look w' x)))) :: u64) = used_bytes w"
    unfolding used_bytes_def by (rule sum.cong) (use assms(2,3) in auto)
  ultimately show ?thesis by simp
qed

lemma used_bytes_free:
  assumes "finite (in_use w)" and "mw_look w a = Some ob" and "ob_allocated ob"
    and "mw_look w' = (mw_look w)(a \<mapsto> ob\<lparr>ob_allocated := False\<rparr>)"
  shows "used_bytes w' = used_bytes w - ucast (sc_size (ob_class ob))"
proof -
  have u: "in_use w' = in_use w - {a}" and a: "a \<in> in_use w" using assms(2-4) by (auto simp: in_use_def)
  have "used_bytes w = ucast (sc_size (ob_class ob)) + (\<Sum>x\<in>in_use w - {a}. ucast (sc_size (ob_class (the (mw_look w x)))))"
    using assms(1,2) a by (simp add: used_bytes_def sum.remove)
  moreover have "(\<Sum>x\<in>in_use w - {a}. ucast (sc_size (ob_class (the (mw_look w x)))) :: u64) = used_bytes w'"
    unfolding used_bytes_def u by (rule sum.cong) (use assms(4) in auto)
  ultimately show ?thesis by simp
qed

text \<open>Recording a peak leaves the objects alone.\<close>

lemma cleanAbnormalValues_ok [simp]: "status_ok n (cleanAbnormalValues t c st) = status_ok n st"
proof -
  have "length (for_loop t (\<lambda>t. for_loop (unat c) (\<lambda>k a.
      let i = unat (arrayIndex c (of_nat t) (of_nat k)) in if 0x1000000000 <s a ! i then a[i := 0] else a)) xs)
      = length xs" for xs :: "u64 list"
    by (intro for_loop_length) (simp add: Let_def)
  then show ?thesis by (simp add: status_ok_def cleanAbnormalValues_def)
qed

lemma addToMemoryUsage_frame:
  assumes "addToMemoryUsage b n tid sz touched u w = (u', w')"
  shows "mw_look w' = mw_look w" and "waste_ok t w' = waste_ok t w" and "thread_ok t w' = thread_ok t w"
    and "totalMemoryUsage (globalMemoryUsage u') = totalMemoryUsage (globalMemoryUsage u) + ucast touched"
    and "realMemoryUsage (globalMemoryUsage u') = realMemoryUsage (globalMemoryUsage u) + ucast sz"
  using assms by (auto simp: addToMemoryUsage_def Let_def add_usage_def compareMemoryUsageAndRecordStatus_def updateStatus_def
      recordMem_def waste_ok_def thread_ok_def split: if_splits)

section \<open>The measure is what it counts\<close>

definition usage_exact :: "MemoryProfile \<Rightarrow> bool" where
  "usage_exact p \<longleftrightarrow> finite (touched_pages (mpf_pages p))
    \<and> totalMemoryUsage (globalMemoryUsage (mpf_usage p)) = of_nat (card (touched_pages (mpf_pages p)) * 4096)
    \<and> realMemoryUsage (globalMemoryUsage (mpf_usage p)) = used_bytes (mpf_waste p)"

lemma malloc_touched:
  assumes "mallocUpdateObject_touch junk a sz s = Inr (t, s')" and "unat sz \<le> 2 ^ 32 - 4096"
    and "finite (touched_pages s)"
  shows "finite (touched_pages s') \<and> touched_pages s \<subseteq> touched_pages s'
    \<and> (ucast t :: u64) = of_nat (card (touched_pages s' - touched_pages s) * 4096)"
proof (cases "sz = 0 \<or> fst (getPageIndex junk a) = 8")
  case True
  with assms show ?thesis
    by (auto simp: mallocUpdateObject_touch_def NUM_ADDRESS_RANGE_def split: prod.splits if_splits)
next
  case False
  obtain r idx where g: "getPageIndex junk a = (r, idx)" by (cases "getPageIndex junk a")
  obtain s1 where s1: "mallocUpdatePages_touch a r (unat idx) (unat sz) s = Inr (t, s1)" and eq: "touched_pages s' = touched_pages s1"
    using assms(1) False by (auto simp: mallocUpdateObject_touch_def g NUM_ADDRESS_RANGE_def bindR_Inr_iff dest: on_shadow_touched_pages)
  let ?P = "counted_pages (unat idx) (unat (a AND 0xfff)) (unat sz)"
  let ?T = "touched_pages s" and ?k = "(unat sz - min (PAGESIZE - unat (a AND 0xfff)) (unat sz)) div PAGESIZE"
  note t = mallocUpdatePages_touched [OF s1, folded eq]
  have P: "?P = {unat idx..unat idx + ?k}" by (rule counted_pages_interval [OF page_offset])
  have "card ({r} \<times> ?P - ?T) \<le> card ({r} \<times> ?P)" by (rule card_mono) (auto simp: P)
  also have "\<dots> = Suc ?k" by (simp add: P card_cartesian_product)
  also have "unat sz \<noteq> 0" using False by (simp add: unat_eq_zero)
  then have "unat sz - min (PAGESIZE - unat (a AND 0xfff)) (unat sz) < 2 ^ 32 - 4096"
    using assms(2) page_offset [of a] by linarith
  then have "?k < 2 ^ 20 - 1" by (simp add: PAGESIZE_def div_less_iff_less_mult)
  finally have "card ({r} \<times> ?P - ?T) < 2 ^ 20" by simp
  moreover have "touched_pages s' - ?T = {r} \<times> ?P - ?T" unfolding t(1) by auto
  ultimately show ?thesis using t(1) assms(3) page_bytes unfolding t(2) by (simp add: P PAGESIZE_def)
qed

section \<open>The same counters as without touching\<close>

fun forget_touched :: "crash + (u32 \<times> TouchedPages) \<Rightarrow> crash + ShadowMemory" where
  "forget_touched (Inl e) = Inl e"
| "forget_touched (Inr (t, s)) = Inr (tp_shadow s)"

lemma bindR_on_shadow: "bindR (on_shadow f s) g = bindR (f (tp_shadow s)) (\<lambda>m. g (s\<lparr>tp_shadow := m\<rparr>))"
  by (cases "f (tp_shadow s)") (simp_all add: on_shadow_def)

lemma touch_shadow [simp]: "tp_shadow (fst (touch r i x)) = tp_shadow (fst x)"
  by (cases x) (simp add: touch.simps set_touched_def)

lemma full_blocks_end: "\<not> (0 < B \<and> B \<le> n) \<Longrightarrow> full_blocks B f n i y = Inr (n, i, y)"
  by (subst full_blocks.simps) auto

lemma full_blocks_forget:
  assumes k: "\<And>rest j y. forget_touched (k (rest, j, y)) = k' (rest, j, tp_shadow (fst y))"
  shows "forget_touched (bindR (full_blocks B (touch_full r) n i x) k)
    = bindR (full_blocks B (\<lambda>i. update_page r i PageMapEntry_setFull) n i (tp_shadow (fst x))) k'"
proof (induction n arbitrary: i x rule: less_induct)
  case (less n)
  obtain s c where x: "x = (s, c)" by (cases x)
  show ?case
  proof (cases "0 < B \<and> B \<le> n")
    case True
    then have "n - B < n" by simp
    note ih = less.IH [OF this]
    from True show ?thesis
      by (subst full_blocks.simps, subst full_blocks.simps)
        (cases "update_page r (Suc i) PageMapEntry_setFull (tp_shadow s)", simp_all add: x bindR_on_shadow [of "update_page r (Suc i) PageMapEntry_setFull" s] ih)
  next
    case False
    then show ?thesis by (simp add: full_blocks_end k)
  qed
qed

lemma mallocUpdatePages_forget:
  assumes "\<And>t s. forget_touched (g (t, s)) = g' (tp_shadow s)"
  shows "forget_touched (bindR (mallocUpdatePages_touch a r idx sz s) g)
    = bindR (mallocUpdatePages a r idx sz (tp_shadow s)) g'"
proof -
  let ?f = "min (PAGESIZE - unat (a AND 0xfff)) sz"
  show ?thesis
  proof (cases "update_page r idx (PageMapEntry_addUsedBytes ?f) (tp_shadow s)")
    case (Inl e)
    then show ?thesis by (simp add: mallocUpdatePages_touch_def mallocUpdatePages_def update_blocks_def on_shadow_def Let_def)
  next
    case (Inr m)
    let ?k = "\<lambda>(rest, i, s, n). bindR (bindR (if rest > 0 then on_shadow (update_page r (Suc i) (PageMapEntry_addUsedBytes rest)) s
        else Inr s) (\<lambda>s. Inr (n * of_nat PAGESIZE, s))) g"
    let ?k' = "\<lambda>(rest, i, m). bindR (if rest > 0 then update_page r (Suc i) (PageMapEntry_addUsedBytes rest) m else Inr m) g'"
    have "forget_touched (?k (rest, j, y)) = ?k' (rest, j, tp_shadow (fst y))" for rest j y
    proof (cases y)
      case (Pair s' n)
      then show ?thesis
        by (cases "update_page r (Suc j) (PageMapEntry_addUsedBytes rest) (tp_shadow s')")
          (simp_all add: on_shadow_def assms)
    qed
    from full_blocks_forget [of ?k ?k', OF this, of PAGESIZE r "sz - ?f" idx "touch r idx (s\<lparr>tp_shadow := m\<rparr>, 0)"] Inr
    show ?thesis
      by (simp add: mallocUpdatePages_touch_def mallocUpdatePages_def update_blocks_def on_shadow_def Let_def bindR_assoc
          case_prod_unfold)
  qed
qed

lemma mallocUpdateObject_forget:
  "forget_touched (mallocUpdateObject_touch junk a sz s) = mallocUpdateObject junk a sz (tp_shadow s)"
proof (cases "sz = 0")
  case False
  obtain r idx where g: "getPageIndex junk a = (r, idx)" by (cases "getPageIndex junk a")
  let ?l = "mallocUpdateCacheLines r (unat idx) (unat (drop_bit 6 (a AND 0xfff))) (unat (a AND 63)) (unat sz)"
  have "forget_touched ((\<lambda>(t, s). bindR (on_shadow ?l s) (\<lambda>s. Inr (t, s))) (t, s)) = ?l (tp_shadow s)" for t s
    by (cases "?l (tp_shadow s)") (simp_all add: on_shadow_def)
  from mallocUpdatePages_forget [of "\<lambda>(t, s). bindR (on_shadow ?l s) (\<lambda>s. Inr (t, s))" ?l, OF this] False
  show ?thesis by (simp add: mallocUpdateObject_touch_def mallocUpdateObject_def g)
qed (simp add: mallocUpdateObject_touch_def mallocUpdateObject_def)

section \<open>Runs\<close>

text \<open>
  Threads allocate at addresses that are not in use, free, and give pages back. The exception: the page behind
  the range given back is touched if and only if its first page is.
\<close>

definition ends_alike :: "u64 \<Rightarrow> u64 \<Rightarrow> u64 \<Rightarrow> TouchedPages \<Rightarrow> bool" where
  "ends_alike junk addr len s =
    (let (r, idx) = getPageIndex junk addr in
     tp_touched s r (unat idx) = tp_touched s r (unat idx + pages_of len))"

inductive profile_run :: "MemoryProfile \<Rightarrow> MemoryProfile \<Rightarrow> bool" for p0 where
  start: "profile_run p0 p0"
| alloc: "profile_run p0 p \<Longrightarrow> thread_ok tid (mpf_waste p) \<Longrightarrow> objectAddress (allocatingType a) \<notin> in_use (mpf_waste p)
    \<Longrightarrow> (mw_look (mpf_waste p) (objectAddress (allocatingType a)) = None
          \<Longrightarrow> table_room (unat tid) (mw_objects (mpf_waste p), mw_memory (mpf_waste p)) 1)
    \<Longrightarrow> unat (at_objectSize (allocatingType a)) \<le> 2 ^ 32 - 4096
    \<Longrightarrow> updateMemoryStatusAfterAllocation_waste tid key lock threads junk a p = Inr (a', p') \<Longrightarrow> profile_run p0 p'"
| free: "profile_run p0 p \<Longrightarrow> thread_ok tid (mpf_waste p)
    \<Longrightarrow> updateMemoryStatusBeforeFree_waste tid junk a p = Inr (a', p') \<Longrightarrow> profile_run p0 p'"
| give_back: "profile_run p0 p \<Longrightarrow> ends_alike junk addr len (mpf_pages p) \<Longrightarrow> pages_of len < 2 ^ 20
    \<Longrightarrow> give_back_pages tid junk addr len p = Inr p' \<Longrightarrow> profile_run p0 p'"

inductive_cases profile_runE: "profile_run p0 p"

lemma alloc_exact:
  assumes ok: "waste_ok tid (mpf_waste p)" and ex: "usage_exact p"
    and new: "objectAddress (allocatingType a) \<notin> in_use (mpf_waste p)"
    and room: "mw_look (mpf_waste p) (objectAddress (allocatingType a)) = None
      \<Longrightarrow> table_room (unat tid) (mw_objects (mpf_waste p), mw_memory (mpf_waste p)) 1"
    and sz: "unat (at_objectSize (allocatingType a)) \<le> 2 ^ 32 - 4096"
    and run: "updateMemoryStatusAfterAllocation_waste tid key lock threads junk a p = Inr (a', p')"
  shows "usage_exact p' \<and> waste_ok tid (mpf_waste p') \<and> thread_ok v (mpf_waste p') = thread_ok v (mpf_waste p)"
proof -
  let ?sz = "at_objectSize (allocatingType a)" and ?a = "objectAddress (allocatingType a)"
  obtain ob w where w: "allocUpdate tid ?sz ?a key (mpf_waste p) = Inr (mw_look (mpf_waste p) ?a \<noteq> None, w)"
    and at: "allocated_at tid ?sz ?a key (mpf_waste p) ob w"
    using allocUpdate_eq [OF ok room] by metis
  obtain t pages where m: "mallocUpdateObject_touch junk ?a ?sz (mpf_pages p) = Inr (t, pages)"
    and eq: "p' = (let (u, w) = addToMemoryUsage lock threads tid ?sz t (mpf_usage p) w in
      \<lparr>mpf_pages = pages, mpf_waste = w, mpf_usage = u\<rparr>)"
    using run w by (auto simp: updateMemoryStatusAfterAllocation_waste_def Let_def bindR_Inr_iff case_prod_unfold)
  obtain u w' where add: "addToMemoryUsage lock threads tid ?sz t (mpf_usage p) w = (u, w')" by fastforce
  with eq have p': "p' = \<lparr>mpf_pages = pages, mpf_waste = w', mpf_usage = u\<rparr>" by simp
  note fr = addToMemoryUsage_frame [OF add]
  have look: "mw_look w' = (mw_look (mpf_waste p))(?a \<mapsto> ob)" and ob: "ob_allocated ob" "sc_size (ob_class ob) = ?sz"
    and wok: "waste_ok tid w" using at unfolding fr(1) by (auto simp: allocated_at_def)
  have len: "length (threadLocalProfilerHashMemory (mw_memory w)) = length (threadLocalProfilerHashMemory (mw_memory (mpf_waste p)))"
    using at by (simp add: allocated_at_def)
  have fin: "finite (touched_pages (mpf_pages p))" using ex by (simp add: usage_exact_def)
  note t = malloc_touched [OF m sz fin]
  have "card (touched_pages pages) = card (touched_pages (mpf_pages p)) + card (touched_pages pages - touched_pages (mpf_pages p))"
    using t fin by (metis card_Diff_subset card_mono le_add_diff_inverse)
  then have "usage_exact p'"
    using ex t fr(4,5) used_bytes_alloc [OF finite_in_use [OF ok] new look ob(1)] ob(2)
    by (simp add: usage_exact_def p' algebra_simps)
  moreover have "thread_ok v (mpf_waste p') = thread_ok v (mpf_waste p)"
    using fr(3) len by (simp add: p' thread_ok_def)
  ultimately show ?thesis using fr(2) wok by (simp add: p')
qed

lemma free_exact:
  assumes ok: "waste_ok tid (mpf_waste p)" and ex: "usage_exact p"
    and run: "updateMemoryStatusBeforeFree_waste tid junk a p = Inr (a', p')"
  shows "usage_exact p' \<and> waste_ok tid (mpf_waste p') \<and> thread_ok v (mpf_waste p') = thread_ok v (mpf_waste p)"
proof (cases "objectAddress (allocatingType a) \<in> in_use (mpf_waste p)")
  case False
  then have "freeUpdate tid (objectAddress (allocatingType a)) (mpf_waste p) = Inr (None, mpf_waste p)"
    by (intro freeUpdate_none [OF ok]) (auto simp: in_use_def)
  then have "p' = p" using run by (simp add: updateMemoryStatusBeforeFree_waste_def)
  with ok ex show ?thesis by simp
next
  case True
  let ?a = "objectAddress (allocatingType a)"
  obtain ob where l: "mw_look (mpf_waste p) ?a = Some ob" and live: "ob_allocated ob" using True by (auto simp: in_use_def)
  obtain w where w: "freeUpdate tid ?a (mpf_waste p) = Inr (Some (ob\<lparr>ob_allocated := False\<rparr>), w)"
    and at: "freed_at tid ?a (mpf_waste p) ob w"
    using freeUpdate_eq [OF ok l live] by metis
  have wok: "waste_ok tid w" and look: "mw_look w = (mw_look (mpf_waste p))(?a \<mapsto> ob\<lparr>ob_allocated := False\<rparr>)"
    and len: "length (threadLocalProfilerHashMemory (mw_memory w)) = length (threadLocalProfilerHashMemory (mw_memory (mpf_waste p)))"
    using at by (auto simp: freed_at_def)
  note used = used_bytes_free [OF finite_in_use [OF ok] l live look]
  have w': "mpf_waste p' = w" and "touched_pages (mpf_pages p') = touched_pages (mpf_pages p)"
    and "globalMemoryUsage (mpf_usage p') = add_usage (- ucast (sc_size (ob_class ob))) 0 (globalMemoryUsage (mpf_usage p))"
    using run w by (auto simp: updateMemoryStatusBeforeFree_waste_def Let_def bindR_Inr_iff freeUpdateObject_waste_def
      subRealSizeFromMemoryUsage_def add_usage_def dest: on_shadow_touched_pages split: if_splits prod.splits)
  then have "usage_exact p'" using ex used by (simp add: usage_exact_def add_usage_def)
  moreover have "thread_ok v (mpf_waste p') = thread_ok v (mpf_waste p)" using len by (simp add: w' thread_ok_def)
  ultimately show ?thesis using wok w' by simp
qed

lemma give_back_exact:
  assumes ex: "usage_exact p" and ends: "ends_alike junk addr len (mpf_pages p)" and few: "pages_of len < 2 ^ 20"
    and run: "give_back_pages tid junk addr len p = Inr p'"
  shows "usage_exact p' \<and> mpf_waste p' = mpf_waste p"
proof -
  obtain r idx where g: "getPageIndex junk addr = (r, idx)" by (cases "getPageIndex junk addr")
  let ?n = "pages_of len" and ?i = "unat idx" and ?T = "touched_pages (mpf_pages p)"
  obtain freed pages where c: "cleanupPages_touch junk addr len (mpf_pages p) = Inr (freed, pages)"
    and p': "p' = p\<lparr>mpf_pages := pages, mpf_usage := subTotalSizeFromMemoryUsage tid (ucast freed) (mpf_usage p)\<rparr>"
    using run by (auto simp: give_back_pages_def bindR_Inr_iff)
  note c' = cleanup_pages [OF c g]
  have fin: "finite ?T" using ex by (simp add: usage_exact_def)
  have "(r, ?i) \<in> ?T \<longleftrightarrow> (r, ?i + ?n) \<in> ?T" using ends by (simp add: ends_alike_def g touched_pages_def)
  then have k: "card ({r} \<times> {?i<..?i + ?n} \<inter> ?T) = card ({r} \<times> {?i..<?i + ?n} \<inter> ?T)"
    using card_shifted [of ?n r ?i ?T] by (cases "?n = 0") auto
  have "card ({r} \<times> {?i..<?i + ?n} \<inter> ?T) \<le> card ({r} \<times> {?i..<?i + ?n})" by (intro card_mono) auto
  then have small: "card ({r} \<times> {?i..<?i + ?n} \<inter> ?T) < 2 ^ 20" using few by (simp add: card_cartesian_product)
  have "card ?T = card (touched_pages pages) + card ({r} \<times> {?i..<?i + ?n} \<inter> ?T)"
    using fin unfolding c'(1) by (subst card_Un_disjoint [symmetric]) (auto intro: arg_cong [where f = card])
  moreover have "(ucast (ucast freed :: u32) :: u64) = of_nat (card ({r} \<times> {?i..<?i + ?n} \<inter> ?T) * 4096)"
    unfolding c'(2) k ucast_back by (rule page_bytes [OF small])
  ultimately show ?thesis
    using ex fin c'(1) by (simp add: usage_exact_def p' subTotalSizeFromMemoryUsage_def add_usage_def algebra_simps)
qed

lemma profile_run_exact:
  assumes "profile_run p0 p" and "waste_ok t (mpf_waste p0)" and "usage_exact p0"
  shows "usage_exact p \<and> waste_ok t (mpf_waste p)"
  using assms(1)
proof induction
  case (alloc p tid a key lock threads junk a' p')
  have ok: "waste_ok tid (mpf_waste p)" using alloc waste_ok_thread by blast
  from alloc_exact [OF ok _ alloc(3-6)] alloc.IH show ?case using waste_ok_thread waste_ok_has_thread by blast
next
  case (free p tid junk a a' p')
  have ok: "waste_ok tid (mpf_waste p)" using free waste_ok_thread by blast
  from free_exact [OF ok _ free(3)] free.IH show ?case using waste_ok_thread waste_ok_has_thread by blast
next
  case (give_back p junk addr len tid p')
  with give_back_exact show ?case by metis
qed (use assms in simp)

section \<open>A sample\<close>

definition fresh_pages :: TouchedPages where
  "fresh_pages = \<lparr>tp_shadow = fresh_shadow, tp_touched = \<lambda>_ _. False\<rparr>"

definition fresh_profile :: MemoryProfile where
  "fresh_profile = \<lparr>mpf_pages = fresh_pages, mpf_waste = empty_waste, mpf_usage = sample_usage 0\<rparr>"

lemma fresh_profile_exact: "usage_exact fresh_profile" "waste_ok 0 (mpf_waste fresh_profile)"
  using empty_waste_ok
  by (simp_all add: fresh_profile_def usage_exact_def fresh_pages_def touched_pages_def sample_usage_def Let_def used_bytes_def in_use_def)

text \<open>An object of 100 bytes inside a page, and one that ends in the next page.\<close>

lemma fresh_malloc:
  assumes "a \<in> {0x5560000010a0, 0x556000001fa0}"
  shows "getPageIndex 0 a = (7, 100663297)" and "\<exists>t s'. mallocUpdateObject_touch 0 a 100 fresh_pages = Inr (t, s')"
proof -
  show g: "getPageIndex 0 a = (7, 100663297)"
    using assms by (elim insertE emptyE) (simp_all add: getPageIndex_def addressRanges_def Let_def MAX_PAGE_MAP_ENTRIES_def)
  let ?o = "unat a - range_base 7"
  have o: "?o \<in> {0x60000010a0, 0x6000001fa0}"
    using assms by (elim insertE emptyE) (simp_all add: range_base_def addressRanges_def)
  have "object_pages ?o 100 \<subseteq> {100663297, 100663298}" using o by (auto simp: object_pages_def)
  then have "card {p \<in> object_pages ?o 100. line_ptr fresh_shadow 7 p = None} \<le> card {100663297, 100663298 :: nat}"
    by (intro card_mono) auto
  then have "\<exists>m. mallocUpdateObject 0 a 100 fresh_shadow = Inr m"
    using mallocUpdateObject_accounted [OF fresh_shadow_accounted g, of 100] o
    by (auto simp: of_range_def disjoint_ranges_def MAX_PAGE_MAP_ENTRIES_def MAX_CACHE_MAP_ENTRIES_def fresh_shadow_def)
  then have "\<exists>m. forget_touched (mallocUpdateObject_touch 0 a 100 fresh_pages) = Inr m"
    by (simp add: mallocUpdateObject_forget fresh_pages_def)
  then show "\<exists>t s'. mallocUpdateObject_touch 0 a 100 fresh_pages = Inr (t, s')"
    by (cases "mallocUpdateObject_touch 0 a 100 fresh_pages") auto
qed

section \<open>Properties\<close>

text \<open>
  C7: the memory usage is exact in what it counts. Through any allocations, frees and pages given back, by any
  threads, the total memory usage is 4096 bytes for every page that is touched, and the real memory usage
  is the sum of the sizes of the objects in use, provided that no range of pages is given back whose first
  page and the page behind it differ in being touched.
\<close>

theorem memory_usage_exact:
  assumes "profile_run p0 p" and "waste_ok t (mpf_waste p0)" and "usage_exact p0"
  shows "totalMemoryUsage (globalMemoryUsage (mpf_usage p)) = of_nat (card (touched_pages (mpf_pages p)) * 4096)
    \<and> realMemoryUsage (globalMemoryUsage (mpf_usage p))
      = (\<Sum>a\<in>in_use (mpf_waste p). ucast (sc_size (ob_class (the (mw_look (mpf_waste p) a)))))"
  using profile_run_exact [OF assms] by (simp add: usage_exact_def used_bytes_def)

theorem memory_usage_exact_witness:
  "\<exists>p. profile_run fresh_profile p \<and> in_use (mpf_waste p) = {0x5560000010a0}
    \<and> realMemoryUsage (globalMemoryUsage (mpf_usage p)) = 100"
proof -
  let ?a = "AllocatingStatus_zero\<lparr>allocatingType := AllocatingType_zero\<lparr>at_objectSize := 100, objectAddress := 0x5560000010a0\<rparr>\<rparr>"
  have f: "mpf_waste fresh_profile = empty_waste" "mpf_pages fresh_profile = fresh_pages" by (simp_all add: fresh_profile_def)
  note none = empty_waste_ok(3)
  obtain ob w where w: "allocUpdate 0 100 0x5560000010a0 9 empty_waste = Inr (mw_look empty_waste 0x5560000010a0 \<noteq> None, w)"
    and at: "allocated_at 0 100 0x5560000010a0 9 empty_waste ob w"
    by (rule allocUpdate_eq [OF empty_waste_ok(1), of "0x5560000010a0" 100 9]) (use empty_waste_ok(4) in simp_all)
  obtain t pages where m: "mallocUpdateObject_touch 0 0x5560000010a0 100 fresh_pages = Inr (t, pages)"
    using fresh_malloc(2) [of "0x5560000010a0"] by auto
  obtain u w' where add: "addToMemoryUsage True 1 0 100 t (sample_usage 0) w = (u, w')" by fastforce
  define p where "p = \<lparr>mpf_pages = pages, mpf_waste = w', mpf_usage = u\<rparr>"
  have "updateMemoryStatusAfterAllocation_waste 0 9 True 1 0 ?a fresh_profile = Inr (?a, p)"
    using w m add none by (simp add: updateMemoryStatusAfterAllocation_waste_def Let_def fresh_profile_def p_def AllocatingType_zero_def)
  moreover have "thread_ok 0 empty_waste" using empty_waste_ok(1) waste_ok_has_thread by blast
  moreover have "in_use empty_waste = {}" by (simp add: in_use_def none)
  ultimately have run: "profile_run fresh_profile p"
    using empty_waste_ok(4) by (intro profile_run.alloc [OF profile_run.start, where a = ?a]) (simp_all add: f)
  have look: "mw_look w' = [0x5560000010a0 \<mapsto> ob]" and ob: "ob_allocated ob" "sc_size (ob_class ob) = 100"
    using at none addToMemoryUsage_frame(1) [OF add] by (auto simp: allocated_at_def)
  then have "in_use (mpf_waste p) = {0x5560000010a0}" by (auto simp: in_use_def p_def split: if_splits)
  with memory_usage_exact [OF run fresh_profile_exact(2,1)] run look ob show ?thesis
    by (intro exI [of _ p]) (simp add: p_def)
qed

text \<open>
  C33: what giving pages back really subtracts. The pages of the range are no longer touched, but the pages counted
  are those from the second page of the range to the one behind it: the result is right if and only if the
  first page and the one behind the range are both touched or both not.
\<close>

theorem give_back_counts_the_next_pages:
  assumes "cleanupPages_touch junk a len s = Inr (freed, s')" and "getPageIndex junk a = (r, idx)"
    and n: "0 < pages_of len" "pages_of len < 2 ^ 20" and fin: "finite (touched_pages s)"
  shows "touched_pages s' = touched_pages s - {r} \<times> {unat idx..<unat idx + pages_of len}
    \<and> freed = of_nat (card ({r} \<times> {unat idx<..unat idx + pages_of len} \<inter> touched_pages s) * 4096)
    \<and> (freed = of_nat (card (touched_pages s - touched_pages s') * 4096) \<longleftrightarrow> ends_alike junk a len s)"
proof -
  let ?i = "unat idx" and ?n = "pages_of len" and ?T = "touched_pages s"
  let ?A = "{r} \<times> {?i<..?i + ?n} \<inter> ?T" and ?B = "{r} \<times> {?i..<?i + ?n} \<inter> ?T"
  note c = cleanup_pages [OF assms(1,2)]
  have "card ?A \<le> card ({r} \<times> {?i<..?i + ?n})" "card ?B \<le> card ({r} \<times> {?i..<?i + ?n})"
    by (intro card_mono; auto)+
  then have small: "card ?A < 2 ^ 20" "card ?B < 2 ^ 20" using n by (simp_all add: card_cartesian_product)
  have f: "freed = of_nat (card ?A * 4096)" unfolding c(2) by (rule page_bytes [OF small(1)])
  have "?T - touched_pages s' = ?B" unfolding c(1) by auto
  moreover have "(of_nat (card ?A * 4096) :: u64) = of_nat (card ?B * 4096) \<longleftrightarrow> card ?A = card ?B"
    by (rule page_bytes_eq_iff [OF small])
  moreover have "card ?A = card ?B \<longleftrightarrow> ((r, ?i) \<in> ?T \<longleftrightarrow> (r, ?i + ?n) \<in> ?T)"
    using card_shifted [OF n(1), of r ?i ?T] by (auto split: if_splits)
  ultimately show ?thesis using c(1) f by (simp add: ends_alike_def assms(2) touched_pages_def)
qed

text \<open>A page is given back that is the only one touched: nothing is subtracted.\<close>

theorem give_back_counts_the_next_pages_witness:
  "\<exists>s'. cleanupPages_touch 0 0x556000001000 4096 (set_touched 7 100663297 True fresh_pages) = Inr (0, s')
    \<and> touched_pages s' = {} \<and> \<not> ends_alike 0 0x556000001000 4096 (set_touched 7 100663297 True fresh_pages)"
proof -
  let ?s = "set_touched 7 100663297 True fresh_pages"
  have g: "getPageIndex 0 0x556000001000 = (7, 100663297)"
    by (simp add: getPageIndex_def addressRanges_def Let_def MAX_PAGE_MAP_ENTRIES_def)
  have n: "pages_of 4096 = 1" by (simp add: pages_of_def alignup_def PAGESIZE_def)
  have T: "touched_pages ?s = {(7, 100663297)}" by (simp add: touched_pages_set) (simp add: fresh_pages_def touched_pages_def)
  obtain freed s' where c: "cleanupPages_touch 0 0x556000001000 4096 ?s = Inr (freed, s')"
    using n by (auto simp: cleanupPages_touch_def g pages_of_def on_shadow_def PageMapEntry_clear_def update_page_def
        set_touched_def fresh_pages_def fresh_shadow_def NUM_ADDRESS_RANGE_def MAX_PAGE_MAP_ENTRIES_def Let_def)
  have e: "(0 :: nat) < 1" "(1 :: nat) < 2 ^ 20" "finite {(7 :: nat, 100663297 :: nat)}" by simp_all
  note p = give_back_counts_the_next_pages [OF c g, unfolded T n, OF e]
  have T': "touched_pages s' = {}" and f: "freed = 0" using p by simp_all
  have "freed = of_nat (card ({(7, 100663297)} - touched_pages s') * 4096)
      \<longleftrightarrow> ends_alike 0 0x556000001000 4096 ?s" using p by blast
  then have "\<not> ends_alike 0 0x556000001000 4096 ?s" unfolding T' f by simp
  with c T' f show ?thesis by blast
qed

text \<open>
  C35: an object is counted exactly as without touching pages, and of its pages the first one and those it
  fills become touched; if it ends inside another page, that page holds its bytes and is not touched.
\<close>

theorem last_page_is_not_touched:
  assumes "mallocUpdateObject_touch junk a sz s = Inr (t, s')" and "getPageIndex junk a = (r, idx)" and "r < 8" and "sz \<noteq> 0"
  defines "P \<equiv> counted_pages (unat idx) (unat a mod 4096) (unat sz)"
  shows "mallocUpdateObject junk a sz (tp_shadow s) = Inr (tp_shadow s')
    \<and> touched_pages s' = touched_pages s \<union> {r} \<times> P
    \<and> (\<forall>i. unat idx < i \<and> 0 < overlap 4096 (unat idx * 4096 + unat a mod 4096) (unat sz) i
          \<and> overlap 4096 (unat idx * 4096 + unat a mod 4096) (unat sz) i < 4096 \<longrightarrow> i \<notin> P)"
proof -
  have off: "unat (a AND 0xfff) = unat a mod 4096"
  proof -
    have "(0xfff :: u64) = mask 12" by (simp add: mask_eq_exp_minus_1)
    then have "unat (a AND 0xfff) = unat a mod 2 ^ 12" by (metis unat_and_mask)
    then show ?thesis by simp
  qed
  obtain s1 where s1: "mallocUpdatePages_touch a r (unat idx) (unat sz) s = Inr (t, s1)" and eq: "touched_pages s' = touched_pages s1"
    using assms(1-4) by (auto simp: mallocUpdateObject_touch_def NUM_ADDRESS_RANGE_def bindR_Inr_iff dest: on_shadow_touched_pages)
  have "touched_pages s' = touched_pages s \<union> {r} \<times> P"
    using mallocUpdatePages_touched(1) [OF s1] by (simp add: eq P_def off)
  moreover have "mallocUpdateObject junk a sz (tp_shadow s) = Inr (tp_shadow s')"
    using mallocUpdateObject_forget [of junk a sz s] assms(1) by simp
  ultimately show ?thesis by (auto simp: P_def counted_pages_def PAGESIZE_def)
qed

theorem last_page_is_not_touched_witness:
  "\<exists>t s'. mallocUpdateObject_touch 0 0x556000001fa0 100 fresh_pages = Inr (t, s')
    \<and> tp_touched s' 7 100663297 \<and> \<not> tp_touched s' 7 100663298"
proof -
  obtain t s' where m: "mallocUpdateObject_touch 0 0x556000001fa0 100 fresh_pages = Inr (t, s')"
    using fresh_malloc(2) [of "0x556000001fa0"] by auto
  have g: "getPageIndex 0 0x556000001fa0 = (7, 100663297)" by (rule fresh_malloc(1)) simp
  let ?P = "counted_pages 100663297 4000 100"
  have "touched_pages s' = {7} \<times> ?P \<and> 100663298 \<notin> ?P"
    using last_page_is_not_touched [OF m g] by (simp add: overlap_def fresh_pages_def touched_pages_def)
  moreover have "100663297 \<in> ?P" by (simp add: counted_pages_def)
  ultimately have "(7, 100663297) \<in> touched_pages s'" "(7, 100663298) \<notin> touched_pages s'" by auto
  with m show ?thesis by (auto simp: touched_pages_def)
qed

end
