(* ===== verification/PreRun.thy ===== *)
theory PreRun
  imports SizeClasses
begin

text \<open>
  The tool that measures an allocator before the profiler runs on it (\<^verbatim>\<open>prerun/libmallochelp.cpp\<close>): it
  allocates and reallocates objects, watches where they go and which system calls are made, and writes the
  info file that \<open>ProgramStatus\<close> and \<open>SizeClasses\<close> read.

  The allocator is an argument: what its functions return, which of the interposed system calls they make
  inside, and how its heap changes. So are \<^verbatim>\<open>TEMP_MEM_SIZE\<close> and \<^verbatim>\<open>MAX_CLASS_SIZE\<close>, which no file
  defines, and the allocator's path, which the missing \<^verbatim>\<open>getTextRegions\<close> finds. Flags that nothing reads are
  left out, as are the messages.
\<close>

datatype inner_call = MmapCall | SbrkCall

record 'h Allocator =
  al_malloc :: "u64 \<Rightarrow> 'h \<Rightarrow> u64 \<times> inner_call list \<times> 'h"
  al_free :: "u64 \<Rightarrow> 'h \<Rightarrow> inner_call list \<times> 'h"
  al_calloc :: "u64 \<Rightarrow> u64 \<Rightarrow> 'h \<Rightarrow> u64 \<times> inner_call list \<times> 'h"
  al_realloc :: "u64 \<Rightarrow> u64 \<Rightarrow> 'h \<Rightarrow> u64 \<times> inner_call list \<times> 'h"

text \<open>
  \<open>nextFreeClassIndex\<close> counts the cells of \<open>class_sizes\<close> in use, of which there are 200. \<open>pr_myBuffer\<close> is the
  address of the buffer for the time before the initialisation.
\<close>

record PreRun =
  inMalloc :: bool
  inMmap :: bool
  inThread :: bool
  mmap_called :: bool
  sbrk_called :: bool
  pr_bibop :: bool
  bump_point :: bool
  libInitialized :: bool
  nextFreeClassIndex :: nat
  class_sizes :: "u64 list"
  large_object_threshold :: u64
  metadata_object :: u64
  total_mmaps :: u32
  pr_myBuffer :: u64
  temp_position :: u64
  temp_allocations :: u64
  allocator_name :: u64

definition BUFFER_SIZE :: u64 where [config]: "BUFFER_SIZE = 4096000 * 4"

section \<open>The temporary allocator\<close>

definition myMalloc :: "u64 \<Rightarrow> u64 \<Rightarrow> PreRun \<Rightarrow> crash + (u64 \<times> PreRun)" where
  "myMalloc temp_mem_size sz s =
    (if temp_position s + sz < temp_mem_size
     then Inr (pr_myBuffer s + temp_position s,
               s\<lparr>temp_position := temp_position s + sz, temp_allocations := temp_allocations s + 1\<rparr>)
     else Inl (Aborted ''global allocator out of memory''))"

definition myFree :: "u64 \<Rightarrow> u64 \<Rightarrow> PreRun \<Rightarrow> PreRun" where
  "myFree temp_mem_size ptr s =
    (if ptr = 0 then s
     else if ptr \<ge> pr_myBuffer s \<and> ptr \<le> pr_myBuffer s + temp_mem_size
     then (let s = s\<lparr>temp_allocations := temp_allocations s - 1\<rparr> in
           if temp_allocations s = 0 then s\<lparr>temp_position := 0\<rparr> else s)
     else s)"

definition libmallochelp_initializer :: "u64 \<Rightarrow> PreRun \<Rightarrow> crash + PreRun" where
  "libmallochelp_initializer temp_mem_size s =
    (if libInitialized s then Inr s
     else bindR (myMalloc temp_mem_size 128 s) (\<lambda>(p, s). Inr (s\<lparr>allocator_name := p, libInitialized := True\<rparr>)))"

section \<open>Interposed functions\<close>

text \<open>\<open>inMmap\<close> is set around the real \<open>mmap\<close>, which calls nothing back.\<close>

definition pre_mmap :: "u64 \<Rightarrow> PreRun \<Rightarrow> crash + PreRun" where
  "pre_mmap temp_mem_size s =
    (if inMmap s then Inr s
     else bindR (libmallochelp_initializer temp_mem_size s) (\<lambda>s.
       let s = (if inThread s then s\<lparr>mmap_called := True\<rparr> else s)
       in Inr (s\<lparr>total_mmaps := total_mmaps s + 1\<rparr>)))"

definition pre_sbrk :: "u64 \<Rightarrow> PreRun \<Rightarrow> crash + PreRun" where
  "pre_sbrk temp_mem_size s =
    bindR (libmallochelp_initializer temp_mem_size s) (\<lambda>s.
    Inr (if inThread s then s\<lparr>sbrk_called := True\<rparr> else s))"

fun inner_calls :: "u64 \<Rightarrow> inner_call list \<Rightarrow> PreRun \<Rightarrow> crash + PreRun" where
  "inner_calls temp_mem_size [] s = Inr s"
| "inner_calls temp_mem_size (MmapCall # cs) s = bindR (pre_mmap temp_mem_size s) (inner_calls temp_mem_size cs)"
| "inner_calls temp_mem_size (SbrkCall # cs) s = bindR (pre_sbrk temp_mem_size s) (inner_calls temp_mem_size cs)"

text \<open>The real functions, with what they call inside.\<close>

definition real_malloc :: "u64 \<Rightarrow> 'h Allocator \<Rightarrow> u64 \<Rightarrow> 'h \<times> PreRun \<Rightarrow> crash + (u64 \<times> 'h \<times> PreRun)" where
  "real_malloc temp_mem_size A sz = (\<lambda>(h, s).
    let (p, cs, h) = al_malloc A sz h in bindR (inner_calls temp_mem_size cs s) (\<lambda>s. Inr (p, h, s)))"

definition real_calloc :: "u64 \<Rightarrow> 'h Allocator \<Rightarrow> u64 \<Rightarrow> u64 \<Rightarrow> 'h \<times> PreRun \<Rightarrow> crash + (u64 \<times> 'h \<times> PreRun)" where
  "real_calloc temp_mem_size A nelem elsize = (\<lambda>(h, s).
    let (p, cs, h) = al_calloc A nelem elsize h in bindR (inner_calls temp_mem_size cs s) (\<lambda>s. Inr (p, h, s)))"

definition real_realloc :: "u64 \<Rightarrow> 'h Allocator \<Rightarrow> u64 \<Rightarrow> u64 \<Rightarrow> 'h \<times> PreRun \<Rightarrow> crash + (u64 \<times> 'h \<times> PreRun)" where
  "real_realloc temp_mem_size A ptr sz = (\<lambda>(h, s).
    let (p, cs, h) = al_realloc A ptr sz h in bindR (inner_calls temp_mem_size cs s) (\<lambda>s. Inr (p, h, s)))"

definition real_free :: "u64 \<Rightarrow> 'h Allocator \<Rightarrow> u64 \<Rightarrow> 'h \<times> PreRun \<Rightarrow> crash + ('h \<times> PreRun)" where
  "real_free temp_mem_size A ptr = (\<lambda>(h, s).
    let (cs, h) = al_free A ptr h in bindR (inner_calls temp_mem_size cs s) (\<lambda>s. Inr (h, s)))"

definition pre_malloc :: "u64 \<Rightarrow> 'h Allocator \<Rightarrow> u64 \<Rightarrow> 'h \<times> PreRun \<Rightarrow> crash + (u64 \<times> 'h \<times> PreRun)" where
  "pre_malloc temp_mem_size A sz = (\<lambda>(h, s).
    if \<not> libInitialized s
    then (if temp_position s + sz < BUFFER_SIZE
          then bindR (myMalloc temp_mem_size sz s) (\<lambda>(p, s). Inr (p, h, s))
          else Inl (Aborted ''temp allocator out of memory''))
    else if inMalloc s then real_malloc temp_mem_size A sz (h, s)
    else bindR (real_malloc temp_mem_size A sz (h, s\<lparr>inMalloc := True\<rparr>)) (\<lambda>(p, h, s).
      Inr (p, h, s\<lparr>inMalloc := False\<rparr>)))"

text \<open>Before the initialisation the product of \<open>calloc\<close> is computed in \<open>size_t\<close>; the \<open>memset\<close> is not modelled.\<close>

definition pre_calloc :: "u64 \<Rightarrow> 'h Allocator \<Rightarrow> u64 \<Rightarrow> u64 \<Rightarrow> 'h \<times> PreRun \<Rightarrow> crash + (u64 \<times> 'h \<times> PreRun)" where
  "pre_calloc temp_mem_size A nelem elsize = (\<lambda>(h, s).
    if \<not> libInitialized s then pre_malloc temp_mem_size A (nelem * elsize) (h, s)
    else real_calloc temp_mem_size A nelem elsize (h, s))"

definition pre_free :: "u64 \<Rightarrow> 'h Allocator \<Rightarrow> u64 \<Rightarrow> 'h \<times> PreRun \<Rightarrow> crash + ('h \<times> PreRun)" where
  "pre_free temp_mem_size A ptr = (\<lambda>(h, s).
    if ptr = 0 then Inr (h, s)
    else if ptr \<ge> pr_myBuffer s \<and> ptr \<le> pr_myBuffer s + BUFFER_SIZE then Inr (h, myFree temp_mem_size ptr s)
    else real_free temp_mem_size A ptr (h, s))"

definition pre_realloc :: "u64 \<Rightarrow> 'h Allocator \<Rightarrow> u64 \<Rightarrow> u64 \<Rightarrow> 'h \<times> PreRun \<Rightarrow> crash + (u64 \<times> 'h \<times> PreRun)" where
  "pre_realloc temp_mem_size A ptr sz = (\<lambda>(h, s).
    if \<not> libInitialized s
    then (if ptr = 0 then pre_malloc temp_mem_size A sz (h, s)
          else bindR (pre_free temp_mem_size A ptr (h, s)) (pre_malloc temp_mem_size A sz))
    else real_realloc temp_mem_size A ptr sz (h, s))"

section \<open>The style of the allocator\<close>

text \<open>A small and a larger object on different pages are taken for bibop.\<close>

definition getAllocStyle :: "u64 \<Rightarrow> 'h Allocator \<Rightarrow> 'h \<times> PreRun \<Rightarrow> crash + ('h \<times> PreRun)" where
  "getAllocStyle temp_mem_size A st =
    bindR (real_malloc temp_mem_size A 64 st) (\<lambda>(p1, st).
    bindR (real_malloc temp_mem_size A 256 st) (\<lambda>(p2, st).
    bindR (real_free temp_mem_size A p1 st) (\<lambda>st.
    bindR (real_free temp_mem_size A p2 st) (\<lambda>(h, s).
    Inr (h, if p1 div 4096 - p2 div 4096 \<noteq> 0 then s\<lparr>pr_bibop := True\<rparr> else s\<lparr>bump_point := True\<rparr>)))))"
section \<open>The metadata of a bump-pointer allocator\<close>

text \<open>The loop goes on for as long as \<open>realloc\<close> does not move the object; \<open>None\<close> stands for never.\<close>

partial_function (option) metadata_loop ::
  "u64 \<Rightarrow> 'h Allocator \<Rightarrow> u64 \<Rightarrow> u64 \<Rightarrow> u64 \<Rightarrow> 'h \<times> PreRun \<Rightarrow> (crash + (u64 \<times> u64 \<times> 'h \<times> PreRun)) option" where
  "metadata_loop temp_mem_size A ptr1 sz metadata st =
    (case real_realloc temp_mem_size A ptr1 (sz + 1) st of
       Inl e \<Rightarrow> Some (Inl e)
     | Inr (realloc_addr, st) \<Rightarrow>
         if realloc_addr \<noteq> ptr1 then Some (Inr (realloc_addr, metadata, st))
         else metadata_loop temp_mem_size A ptr1 (sz + 1) (metadata - 1) st)"

definition get_bp_metadata :: "u64 \<Rightarrow> 'h Allocator \<Rightarrow> 'h \<times> PreRun \<Rightarrow> (crash + ('h \<times> PreRun)) option" where
  "get_bp_metadata temp_mem_size A st =
    bindO (Some (real_malloc temp_mem_size A 16 st)) (\<lambda>(ptr1, st).
    bindO (Some (real_malloc temp_mem_size A 16 st)) (\<lambda>(ptr2, st).
    bindO (metadata_loop temp_mem_size A ptr1 16 ((ptr2 - ptr1) - 16) st) (\<lambda>(realloc_addr, metadata, st).
    bindO (Some (real_free temp_mem_size A ptr2 st)) (\<lambda>st.
    bindO (Some (real_free temp_mem_size A realloc_addr st)) (\<lambda>(h, s).
    Some (Inr (h, s\<lparr>metadata_object := metadata\<rparr>)))))))"

section \<open>Pages in use\<close>

definition search_vpage :: "(u64 \<Rightarrow> u64) \<Rightarrow> u64 \<Rightarrow> u32" where
  "search_vpage memory vpage =
    for_loop 512 (\<lambda>i bytes. if memory (vpage + of_nat (8 * i)) > 0 then bytes + 8 else bytes) 0"

text \<open>
  \<^verbatim>\<open>/proc/pid/pagemap\<close> has one word per page. \<open>opened\<close> and \<open>sought\<close> tell whether \<open>open\<close> and \<open>lseek\<close>
  succeed; \<open>pagemap\<close> is what \<open>read\<close> returns for a page, if it returns a whole word. A result of -1 is \<open>None\<close>.
\<close>

fun count_used :: "(u64 \<Rightarrow> u64 option) \<Rightarrow> u64 \<Rightarrow> nat \<Rightarrow> u32 \<Rightarrow> u32 option" where
  "count_used pagemap page 0 n = Some n"
| "count_used pagemap page (Suc k) n =
    (case pagemap page of
       None \<Rightarrow> None
     | Some bitmap \<Rightarrow> count_used pagemap (page + 1) k (if drop_bit 63 bitmap = 1 then n + 1 else n))"

definition num_used_pages :: "bool \<Rightarrow> bool \<Rightarrow> (u64 \<Rightarrow> u64 option) \<Rightarrow> u64 \<Rightarrow> u64 \<Rightarrow> u32 option" where
  "num_used_pages opened sought pagemap vstart vend =
    (let pagenum_start = drop_bit 12 vstart; pagenum_end = drop_bit 12 vend;
         num_pages_to_read = (ucast (pagenum_end - pagenum_start + 1) :: u32)
     in if \<not> opened \<or> num_pages_to_read = 0 \<or> \<not> sought then None
        else count_used pagemap pagenum_start (unat num_pages_to_read) 0)"

text \<open>The number of pages found and the array they are written to.\<close>

fun note_pages ::
  "(u64 \<Rightarrow> u64 option) \<Rightarrow> u64 \<Rightarrow> nat \<Rightarrow> u32 \<Rightarrow> nat \<Rightarrow> u64 list \<Rightarrow> crash + ((nat \<times> u64 list) option)" where
  "note_pages pagemap page 0 current_page entries pagesFound = Inr (Some (entries, pagesFound))"
| "note_pages pagemap page (Suc k) current_page entries pagesFound =
    (case pagemap page of
       None \<Rightarrow> Inr None
     | Some bitmap \<Rightarrow>
         if drop_bit 63 bitmap = 1
         then if entries < length pagesFound
              then note_pages pagemap (page + 1) k (current_page + 1) (Suc entries)
                     (pagesFound[entries := ucast current_page])
              else Inl OutOfBounds
         else note_pages pagemap (page + 1) k (current_page + 1) entries pagesFound)"

definition find_pages ::
  "bool \<Rightarrow> bool \<Rightarrow> (u64 \<Rightarrow> u64 option) \<Rightarrow> u64 \<Rightarrow> u64 \<Rightarrow> u64 list \<Rightarrow> crash + ((nat \<times> u64 list) option)" where
  "find_pages opened sought pagemap vstart vend pagesFound =
    (let pagenum_start = drop_bit 12 vstart; pagenum_end = drop_bit 12 vend;
         num_pages_to_read = pagenum_end - pagenum_start + 1
     in if \<not> opened \<or> num_pages_to_read = 0 \<or> \<not> sought then Inr None
        else note_pages pagemap pagenum_start (unat num_pages_to_read) 0 0 pagesFound)"

section \<open>The large object threshold\<close>

definition malloc_and_free :: "u64 \<Rightarrow> 'h Allocator \<Rightarrow> u64 \<Rightarrow> 'h \<times> PreRun \<Rightarrow> crash + ('h \<times> PreRun)" where
  "malloc_and_free temp_mem_size A sz st =
    bindR (real_malloc temp_mem_size A sz st) (\<lambda>(mallocPtr, st). real_free temp_mem_size A mallocPtr st)"

partial_function (option) threshold_loop ::
  "u64 \<Rightarrow> u64 \<Rightarrow> 'h Allocator \<Rightarrow> u64 \<Rightarrow> 'h \<times> PreRun \<Rightarrow> (crash + (u64 \<times> 'h \<times> PreRun)) option" where
  "threshold_loop temp_mem_size max_class_size A sz st =
    (if \<not> mmap_called (snd st) \<and> \<not> sbrk_called (snd st) \<and> sz < max_class_size
     then (case malloc_and_free temp_mem_size A (sz + 8) st of
             Inl e \<Rightarrow> Some (Inl e)
           | Inr st \<Rightarrow> threshold_loop temp_mem_size max_class_size A (sz + 8) st)
     else Some (Inr (sz, st)))"

definition find_large_object ::
  "u64 \<Rightarrow> u64 \<Rightarrow> 'h Allocator \<Rightarrow> 'h \<times> PreRun \<Rightarrow> (crash + ('h \<times> PreRun)) option" where
  "find_large_object temp_mem_size max_class_size A st =
    bindO (Some (malloc_and_free temp_mem_size A 0 st)) (\<lambda>(h, s).
    bindO (threshold_loop temp_mem_size max_class_size A 4088
             (h, s\<lparr>inThread := True, mmap_called := False, sbrk_called := False\<rparr>)) (\<lambda>(sz, h, s).
    let s = (if mmap_called s then s\<lparr>large_object_threshold := sz\<rparr>
             else if sbrk_called s then s\<lparr>large_object_threshold := sz\<rparr> else s)
    in Some (Inr (h, s\<lparr>inThread := False\<rparr>))))"

section \<open>The class sizes\<close>

definition save_class_size :: "u64 \<Rightarrow> PreRun \<Rightarrow> crash + PreRun" where
  "save_class_size sz s =
    (if nextFreeClassIndex s < length (class_sizes s)
     then Inr (s\<lparr>class_sizes := (class_sizes s)[nextFreeClassIndex s := sz],
                 nextFreeClassIndex := nextFreeClassIndex s + 1\<rparr>)
     else Inl OutOfBounds)"

definition class_step ::
  "u64 \<Rightarrow> 'h Allocator \<Rightarrow> u64 \<Rightarrow> u64 \<Rightarrow> u64 \<Rightarrow> 'h \<times> PreRun \<Rightarrow> crash + (u64 \<times> 'h \<times> PreRun)" where
  "class_step temp_mem_size A oldPointer oldSize newSize st =
    bindR (real_realloc temp_mem_size A oldPointer newSize st) (\<lambda>(newPointer, h, s).
    bindR (if newPointer \<noteq> oldPointer then save_class_size oldSize s else Inr s) (\<lambda>s.
    Inr (newPointer, h, s)))"

partial_function (option) class_loop ::
  "u64 \<Rightarrow> 'h Allocator \<Rightarrow> u64 \<Rightarrow> u64 \<Rightarrow> 'h \<times> PreRun \<Rightarrow> (crash + (u64 \<times> 'h \<times> PreRun)) option" where
  "class_loop temp_mem_size A oldPointer oldSize st =
    (if oldSize \<le> large_object_threshold (snd st)
     then (case class_step temp_mem_size A oldPointer oldSize (oldSize + 8) st of
             Inl e \<Rightarrow> Some (Inl e)
           | Inr (newPointer, st) \<Rightarrow> class_loop temp_mem_size A newPointer (oldSize + 8) st)
     else Some (Inr (oldPointer, st)))"

text \<open>With no class found the last one is read before the array.\<close>

definition add_threshold :: "PreRun \<Rightarrow> crash + PreRun" where
  "add_threshold s =
    (if nextFreeClassIndex s = 0 \<or> nextFreeClassIndex s > length (class_sizes s) then Inl OutOfBounds
     else if class_sizes s ! (nextFreeClassIndex s - 1) \<noteq> large_object_threshold s
     then save_class_size (large_object_threshold s) s
     else Inr s)"

text \<open>The pointer freed in the end is the last one \<open>realloc\<close> returned.\<close>

definition find_class_sizes :: "u64 \<Rightarrow> 'h Allocator \<Rightarrow> 'h \<times> PreRun \<Rightarrow> (crash + ('h \<times> PreRun)) option" where
  "find_class_sizes temp_mem_size A st =
    bindO (Some (malloc_and_free temp_mem_size A 0 st)) (\<lambda>st.
    bindO (Some (real_malloc temp_mem_size A 8 st)) (\<lambda>(oldPointer, st).
    bindO (class_loop temp_mem_size A oldPointer 8 st) (\<lambda>(newPointer, h, s).
    bindO (Some (add_threshold s)) (\<lambda>s.
    Some (real_free temp_mem_size A newPointer (h, s))))))"

section \<open>The info file\<close>

definition writeClassSizes :: "PreRun \<Rightarrow> string" where
  "writeClassSizes s = ''class_sizes '' @ decimal (nextFreeClassIndex s) @ '' ''
    @ concat (map (\<lambda>c. decimal (unat c) @ '' '') (take (nextFreeClassIndex s) (class_sizes s))) @ [CHR 0x0A]"

text \<open>The lines of the file.\<close>

definition pre_exitHandler :: "PreRun \<Rightarrow> string list" where
  "pre_exitHandler s =
    [''style '' @ (if pr_bibop s then ''bibop'' else ''bump_pointer'') @ [CHR 0x0A]]
    @ (if pr_bibop s then [writeClassSizes s] else [])
    @ [''large_object_threshold '' @ decimal (unat (large_object_threshold s)) @ [CHR 0x0A]]"

text \<open>
  The name of the file: the allocator's path up to the first dot of its last part. Without a slash \<open>strchr\<close> reads
  through a null pointer; without a dot the length is computed from one; the name has 128 characters.
\<close>

definition info_file_name :: "string \<Rightarrow> crash + string" where
  "info_file_name name =
    (if CHR ''/'' \<notin> set name then Inl NullPointer
     else (let base = rev (takeWhile (\<lambda>c. c \<noteq> CHR ''/'') (rev name));
               path = take (length name - length base) name;
               stem = takeWhile (\<lambda>c. c \<noteq> CHR ''.'') base
           in if CHR ''.'' \<notin> set base \<or> length path + length stem + 6 > 128 then Inl OutOfBounds
              else Inr (path @ stem @ ''.info'')))"

text \<open>Until the real \<open>main\<close> is called; each thread is joined before the next step.\<close>

definition helper_main ::
  "u64 \<Rightarrow> u64 \<Rightarrow> 'h Allocator \<Rightarrow> string \<Rightarrow> 'h \<times> PreRun \<Rightarrow> (crash + (string \<times> 'h \<times> PreRun)) option" where
  "helper_main temp_mem_size max_class_size A name st =
    bindO (Some (getAllocStyle temp_mem_size A st)) (\<lambda>st.
    bindO (find_large_object temp_mem_size max_class_size A st) (\<lambda>st.
    if large_object_threshold (snd st) = 0 then Some (Inl (Aborted ''no large_object_threshold''))
    else bindO (if pr_bibop (snd st) then find_class_sizes temp_mem_size A st
                else get_bp_metadata temp_mem_size A st) (\<lambda>st.
      bindO (Some (info_file_name name)) (\<lambda>filename. Some (Inr (filename, st))))))"

end
