(* ===== verification/PreRun_Correct.thy ===== *)
theory PreRun_Correct
  imports PreRun SizeClasses_Correct
begin

text \<open>
  What the pre-run tool finds out: with an allocator that behaves as the tool expects, the threshold and the class
  sizes are the allocator's, the loops that look for them end, and the profiler reads from the info file
  what was found, up to the number of classes.
\<close>

section \<open>Calls made inside the allocator\<close>

definition ready :: "PreRun \<Rightarrow> bool" where
  "ready s \<longleftrightarrow> libInitialized s \<and> \<not> inMmap s"

definition after_calls :: "inner_call list \<Rightarrow> PreRun \<Rightarrow> PreRun" where
  "after_calls cs s = s\<lparr>mmap_called := mmap_called s \<or> inThread s \<and> MmapCall \<in> set cs,
    sbrk_called := sbrk_called s \<or> inThread s \<and> SbrkCall \<in> set cs,
    total_mmaps := total_mmaps s + of_nat (count_list cs MmapCall)\<rparr>"

lemma inner_calls_ready: "ready s \<Longrightarrow> inner_calls t cs s = Inr (after_calls cs s)"
proof (induction t cs s rule: inner_calls.induct)
  case (2 t cs s)
  then have "pre_mmap t s = Inr (after_calls [MmapCall] s)"
    by (simp add: ready_def pre_mmap_def libmallochelp_initializer_def after_calls_def)
  with 2 show ?case by (cases "inThread s") (simp_all add: ready_def, simp_all add: after_calls_def algebra_simps)
next
  case (3 t cs s)
  then have "pre_sbrk t s = Inr (after_calls [SbrkCall] s)"
    by (simp add: ready_def pre_sbrk_def libmallochelp_initializer_def after_calls_def)
  with 3 show ?case by (cases "inThread s") (simp_all add: ready_def, simp_all add: after_calls_def)
qed (simp add: after_calls_def)

lemma ready_after [simp]: "ready (after_calls cs s) = ready s"
  by (simp add: ready_def after_calls_def)

lemma after_calls_fields [simp]:
  "class_sizes (after_calls cs s) = class_sizes s" "nextFreeClassIndex (after_calls cs s) = nextFreeClassIndex s"
  "large_object_threshold (after_calls cs s) = large_object_threshold s" "pr_bibop (after_calls cs s) = pr_bibop s" "inThread (after_calls cs s) = inThread s"
  by (simp_all add: after_calls_def)

lemma real_malloc_ready:
  "ready s \<Longrightarrow> al_malloc A sz h = (p, cs, h') \<Longrightarrow> real_malloc t A sz (h, s) = Inr (p, h', after_calls cs s)"
  by (simp add: real_malloc_def inner_calls_ready)

lemma real_realloc_ready:
  "ready s \<Longrightarrow> al_realloc A p sz h = (q, cs, h') \<Longrightarrow> real_realloc t A p sz (h, s) = Inr (q, h', after_calls cs s)"
  by (simp add: real_realloc_def inner_calls_ready)

lemma real_free_ready:
  "ready s \<Longrightarrow> al_free A p h = (cs, h') \<Longrightarrow> real_free t A p (h, s) = Inr (h', after_calls cs s)"
  by (simp add: real_free_def inner_calls_ready)

section \<open>The class sizes of a bibop allocator\<close>

text \<open>
  What the tool relies on: an object gets the smallest class that holds its size, \<open>realloc\<close> moves an object if
  and only if it outgrows its class, and classes are multiples of eight. \<open>cap\<close> is the class of an object in a heap.
\<close>

definition bibop_allocator :: "'h Allocator \<Rightarrow> ('h \<Rightarrow> u64 \<Rightarrow> u64) \<Rightarrow> (u64 \<Rightarrow> u64) \<Rightarrow> bool" where
  "bibop_allocator A cap cls \<longleftrightarrow>
    (\<forall>h sz p cs h'. al_malloc A sz h = (p, cs, h') \<longrightarrow> cap h' p = cls sz)
    \<and> (\<forall>h p sz q cs h'. al_realloc A p sz h = (q, cs, h') \<and> sz \<le> - 8 \<longrightarrow>
        (q = p \<longleftrightarrow> sz \<le> cap h p) \<and> cap h' q = (if sz \<le> cap h p then cap h p else cls sz))
    \<and> (\<forall>sz \<le> - 8. sz \<le> cls sz \<and> 8 dvd unat (cls sz)
        \<and> (\<forall>sz'. sz \<le> sz' \<and> sz' \<le> cls sz \<longrightarrow> cls sz' = cls sz))"

text \<open>The classes are the sizes that are their own class.\<close>

definition classes_from :: "(u64 \<Rightarrow> u64) \<Rightarrow> u64 \<Rightarrow> u64 \<Rightarrow> u64 set" where
  "classes_from cls T x = {c. x \<le> c \<and> c \<le> T \<and> cls c = c}"

lemma finite_classes [simp]: "finite (classes_from cls T x)"
  by (rule finite_subset [OF subset_UNIV]) simp

lemma classes_done: "T < x \<Longrightarrow> classes_from cls T x = {}"
  unfolding classes_from_def by (auto dest: le_less_trans order_trans)

lemma next_multiple:
  fixes x y :: u64
  assumes "8 dvd unat x" and "8 dvd unat y" and "x < y" and "unat x + 8 < 2 ^ 64"
  shows "x + 8 \<le> y"
proof -
  obtain k l where "unat x = 8 * k" "unat y = 8 * l" using assms(1,2) by (auto simp: dvd_def)
  moreover have "unat (x + 8) = unat x + 8" using assms(4) by (subst unat_add_bound) simp_all
  ultimately show ?thesis using assms(3) by (simp add: word_less_nat_alt word_le_nat_alt)
qed

lemma classes_step:
  assumes ok: "bibop_allocator A cap cls" and x: "8 dvd unat x" "unat x + 8 < 2 ^ 64" and T: "x \<le> T" "unat T + 16 \<le> 2 ^ 64"
  shows "classes_from cls T x = (if x + 8 \<le> cls x then classes_from cls T (x + 8) else insert x (classes_from cls T (x + 8)))"
    and "\<forall>c \<in> classes_from cls T (x + 8). x < c"
proof -
  have small: "c \<le> - 8" if "c \<le> T" for c using that T(2) by (simp add: word_le_nat_alt)
  have x8: "x < x + 8" using x(2) by (simp add: word_less_nat_alt unat_add_bound)
  have above: "x + 8 \<le> c" if "x < c" "c \<le> T" "cls c = c" for c
  proof (rule next_multiple [OF x(1) _ that(1) x(2)])
    have "8 dvd unat (cls c)" using ok small [OF that(2)] unfolding bibop_allocator_def by blast
    with that(3) show "8 dvd unat c" by simp
  qed
  have step: "classes_from cls T x = (if cls x = x then {x} else {}) \<union> classes_from cls T (x + 8)"
  proof (rule set_eqI)
    fix c
    have "x \<le> c \<and> c \<le> T \<and> cls c = c \<longleftrightarrow> c = x \<and> cls x = x \<or> x + 8 \<le> c \<and> c \<le> T \<and> cls c = c"
      using above [of c] x8 T(1) by (cases "c = x") auto
    then show "c \<in> classes_from cls T x \<longleftrightarrow> c \<in> (if cls x = x then {x} else {}) \<union> classes_from cls T (x + 8)"
      by (auto simp: classes_from_def)
  qed
  have "cls x = x" if "\<not> x + 8 \<le> cls x"
  proof (rule ccontr)
    assume "cls x \<noteq> x"
    moreover have "x \<le> cls x" "8 dvd unat (cls x)" using ok small [OF T(1)] unfolding bibop_allocator_def by blast+
    ultimately have "8 dvd unat (cls x)" "x < cls x" by simp_all
    from next_multiple [OF x(1) this x(2)] that show False by simp
  qed
  with step x8 show "classes_from cls T x
      = (if x + 8 \<le> cls x then classes_from cls T (x + 8) else insert x (classes_from cls T (x + 8)))"
    by auto
  show "\<forall>c \<in> classes_from cls T (x + 8). x < c" using x8 by (auto simp: classes_from_def)
qed

lemma sorted_list_insert_min:
  assumes "finite (X :: u64 set)" and "\<forall>c \<in> X. x < c"
  shows "sorted_list_of_set (insert x X) = x # sorted_list_of_set X"
proof -
  have "Min (insert x X) = x" using assms by (intro Min_eqI) (auto simp: order_less_imp_le)
  moreover have "x \<notin> X" using assms(2) by auto
  ultimately show ?thesis using sorted_list_of_set_nonempty [of "insert x X"] assms(1) by simp
qed

section \<open>The class sizes that are found\<close>

lemma class_loop_finds:
  assumes "bibop_allocator A cap cls" and "ready s" and "cap h p = cls x"
    and "8 dvd unat x" and "unat (large_object_threshold s) + 16 \<le> 2 ^ 64" and "unat x \<le> unat (large_object_threshold s) + 8"
    and "nextFreeClassIndex s + card (classes_from cls (large_object_threshold s) x) \<le> length (class_sizes s)"
  shows "\<exists>q h' s'. class_loop t A p x (h, s) = Some (Inr (q, h', s')) \<and> ready s'
    \<and> pr_bibop s' = pr_bibop s
    \<and> large_object_threshold s' = large_object_threshold s \<and> length (class_sizes s') = length (class_sizes s)
    \<and> nextFreeClassIndex s' = nextFreeClassIndex s + card (classes_from cls (large_object_threshold s) x)
    \<and> take (nextFreeClassIndex s') (class_sizes s')
        = take (nextFreeClassIndex s) (class_sizes s) @ sorted_list_of_set (classes_from cls (large_object_threshold s) x)"
  using assms
proof (induction "unat (large_object_threshold s) + 8 - unat x" arbitrary: s h p x rule: less_induct)
  case (less s x h p)
  let ?T = "large_object_threshold s"
  show ?case
  proof (cases "x \<le> ?T")
    case False
    with less.prems(1) classes_done [of ?T x] show ?thesis
      by (subst class_loop.simps) (simp add: less.prems)
  next
    case True
    then have x8: "unat (x + 8) = unat x + 8" "unat x + 8 < 2 ^ 64"
      using less.prems(5) by (auto simp: word_le_nat_alt unat_add_bound)
    obtain q cs h1 where R: "al_realloc A p (x + 8) h = (q, cs, h1)" by (metis prod_cases3)
    moreover have "x + 8 \<le> - 8" using x8 True less.prems(5) by (simp add: word_le_nat_alt)
    ultimately have q: "q = p \<longleftrightarrow> x + 8 \<le> cls x"
      and cap: "cap h1 q = (if x + 8 \<le> cls x then cls x else cls (x + 8))"
      using less.prems(1,3) unfolding bibop_allocator_def by metis+
    have same: "cls (x + 8) = cls x" if "x + 8 \<le> cls x"
    proof -
      have "x \<le> - 8" "x \<le> x + 8" using x8 True less.prems(5) by (auto simp: word_le_nat_alt)
      with less.prems(1) that show ?thesis unfolding bibop_allocator_def by blast
    qed
    let ?s = "after_calls cs s"
    have step: "class_step t A p x (x + 8) (h, s) = bindR (if q \<noteq> p then save_class_size x ?s else Inr ?s) (\<lambda>s. Inr (q, h1, s))"
      using R less.prems(2) by (simp add: class_step_def real_realloc_ready)
    note split = classes_step [OF less.prems(1,4) x8(2) True less.prems(5)]
    have bounds: "8 dvd unat (x + 8)" "unat (x + 8) \<le> unat ?T + 8" "unat ?T + 8 - unat (x + 8) < unat ?T + 8 - unat x"
      using less.prems(4) x8 True by (auto simp: word_le_nat_alt)
    show ?thesis
    proof (cases "x + 8 \<le> cls x")
      case True
      with less.hyps [of ?s "x + 8" h1 q] less.prems bounds cap same split(1) step q \<open>x \<le> ?T\<close>
      show ?thesis by (subst class_loop.simps) simp
    next
      case False
      let ?C = "classes_from cls ?T (x + 8)"
      from split False have C: "classes_from cls ?T x = insert x ?C" "\<forall>c \<in> ?C. x < c" by simp_all
      from C(2) have "x \<notin> ?C" by auto
      with C have card: "card (classes_from cls ?T x) = Suc (card ?C)"
        by simp
      have list: "sorted_list_of_set (classes_from cls ?T x) = x # sorted_list_of_set ?C"
        using sorted_list_insert_min [OF finite_classes C(2)] C(1) by simp
      let ?s2 = "?s\<lparr>class_sizes := (class_sizes s)[nextFreeClassIndex s := x], nextFreeClassIndex := nextFreeClassIndex s + 1\<rparr>"
      have "save_class_size x ?s = Inr ?s2" using less.prems(7) card by (simp add: save_class_size_def)
      moreover have "ready ?s2" using less.prems(2) by (simp add: ready_def after_calls_def)
      moreover have "take (Suc (nextFreeClassIndex s)) ((class_sizes s)[nextFreeClassIndex s := x]) = take (nextFreeClassIndex s) (class_sizes s) @ [x]"
        using less.prems(7) card by (simp add: take_Suc_conv_app_nth)
      ultimately show ?thesis
        using less.hyps [of ?s2 "x + 8" h1 q] less.prems bounds cap False step q card list \<open>x \<le> ?T\<close>
        by (subst class_loop.simps) simp
    qed
  qed
qed

lemma malloc_and_free_ready:
  assumes "ready s"
  shows "\<exists>h' cs. malloc_and_free t A sz (h, s) = Inr (h', after_calls cs s)"
proof -
  obtain p cs h1 where "al_malloc A sz h = (p, cs, h1)" by (metis prod_cases3)
  moreover obtain cs2 h2 where "al_free A p h1 = (cs2, h2)" by fastforce
  moreover have "after_calls cs2 (after_calls cs s) = after_calls (cs @ cs2) s" by (simp add: after_calls_def algebra_simps conj_disj_distribL disj_assoc)
  ultimately show ?thesis using assms
    by (simp add: malloc_and_free_def real_malloc_ready real_free_ready split_def) blast
qed

lemma sorted_list_insert_max:
  assumes "finite (X :: u64 set)" and "\<forall>c \<in> X. c \<le> T"
  shows "sorted_list_of_set (insert T X) = (if T \<in> X then sorted_list_of_set X else sorted_list_of_set X @ [T])"
proof (cases "T \<in> X")
  case False
  then have "sorted_wrt (<) (sorted_list_of_set X @ [T])" "set (sorted_list_of_set X @ [T]) = insert T X"
    using assms by (auto simp: sorted_wrt_append order_less_le)
  then show ?thesis using False assms(1)
    by (metis sorted_list_of_set.idem_if_sorted_distinct strict_sorted_iff)
qed (simp add: insert_absorb)

lemma last_class:
  assumes "finite (X :: u64 set)" and "\<forall>c \<in> X. c \<le> T" and "X \<noteq> {}"
  shows "last (sorted_list_of_set X) = T \<longleftrightarrow> T \<in> X"
proof
  assume "T \<in> X"
  then have X: "insert T (X - {T}) = X" by (simp add: insert_absorb)
  have "sorted_list_of_set (insert T (X - {T})) = sorted_list_of_set (X - {T}) @ [T]"
    using sorted_list_insert_max [of "X - {T}" T] assms by simp
  then show "last (sorted_list_of_set X) = T" by (simp only: X last_snoc)
next
  have "last (sorted_list_of_set X) \<in> set (sorted_list_of_set X)"
    using assms by (intro last_in_set) (simp add: sorted_list_of_set.sorted_key_list_of_set_eq_Nil_iff)
  then show "last (sorted_list_of_set X) = T \<Longrightarrow> T \<in> X" using assms(1) by simp
qed

lemma find_class_sizes_finds:
  assumes A: "bibop_allocator A cap cls" and s: "ready s" "nextFreeClassIndex s = 0"
    and T: "unat (large_object_threshold s) + 16 \<le> 2 ^ 64"
    and C: "C = classes_from cls (large_object_threshold s) 8" "C \<noteq> {}" "card C < length (class_sizes s)"
  shows "\<exists>h' s'. find_class_sizes t A (h, s) = Some (Inr (h', s'))
    \<and> take (nextFreeClassIndex s') (class_sizes s') = sorted_list_of_set (insert (large_object_threshold s) C)
    \<and> nextFreeClassIndex s' \<le> length (class_sizes s') \<and> large_object_threshold s' = large_object_threshold s
    \<and> ready s' \<and> pr_bibop s' = pr_bibop s"
proof -
  let ?T = "large_object_threshold s" and ?L = "sorted_list_of_set C"
  obtain h1 cs1 where 1: "malloc_and_free t A 0 (h, s) = Inr (h1, after_calls cs1 s)"
    using malloc_and_free_ready [OF s(1), of t A 0 h] by blast
  obtain p cs2 h2 where M: "al_malloc A 8 h1 = (p, cs2, h2)" by (metis prod_cases3)
  let ?s = "after_calls cs2 (after_calls cs1 s)"
  have 2: "real_malloc t A 8 (h1, after_calls cs1 s) = Inr (p, h2, ?s)" using M s(1) by (simp add: real_malloc_ready)
  have cap: "cap h2 p = cls 8" using A M unfolding bibop_allocator_def by blast
  obtain q h3 s3 where loop: "class_loop t A p 8 (h2, ?s) = Some (Inr (q, h3, s3))" "ready s3" "pr_bibop s3 = pr_bibop s"
      "large_object_threshold s3 = ?T" "length (class_sizes s3) = length (class_sizes s)"
      "nextFreeClassIndex s3 = card C" "take (card C) (class_sizes s3) = ?L"
    using class_loop_finds [OF A _ cap, of ?s t] s T C by auto
  have pos: "card C > 0" "length ?L = card C" using C(1,2) by (simp_all add: card_gt_0_iff)
  have le: "\<forall>c \<in> C. c \<le> ?T" using C(1) by (simp add: classes_from_def)
  have fin: "finite C" using C(1) by simp
  have last: "class_sizes s3 ! (card C - 1) = ?T \<longleftrightarrow> ?T \<in> C"
  proof -
    have "class_sizes s3 ! (card C - 1) = ?L ! (card C - 1)" using loop(7) pos(1) by (metis diff_less nth_take zero_less_one)
    also have "\<dots> = last ?L" using pos by (subst last_conv_nth) auto
    finally show ?thesis using last_class [OF fin le C(2)] by simp
  qed
  have "\<exists>s4. add_threshold s3 = Inr s4 \<and> ready s4 \<and> pr_bibop s4 = pr_bibop s \<and> large_object_threshold s4 = ?T
    \<and> nextFreeClassIndex s4 \<le> length (class_sizes s4)
    \<and> take (nextFreeClassIndex s4) (class_sizes s4) = sorted_list_of_set (insert ?T C)"
    using loop(2-) pos last C(2,3) sorted_list_insert_max [OF fin le]
    by (cases "?T \<in> C") (simp_all add: add_threshold_def save_class_size_def ready_def take_Suc_conv_app_nth
        del: sorted_list_of_set.sorted_key_list_of_set_insert_remove)
  then obtain s4 where 4: "add_threshold s3 = Inr s4" "ready s4" "pr_bibop s4 = pr_bibop s" "large_object_threshold s4 = ?T"
      "nextFreeClassIndex s4 \<le> length (class_sizes s4)"
      "take (nextFreeClassIndex s4) (class_sizes s4) = sorted_list_of_set (insert ?T C)" by blast
  obtain cs5 h5 where "al_free A q h3 = (cs5, h5)" by fastforce
  then have "real_free t A q (h3, s4) = Inr (h5, after_calls cs5 s4)" using 4(2) by (simp add: real_free_ready)
  with 1 2 loop(1) 4 show ?thesis by (simp add: find_class_sizes_def)
qed

section \<open>The threshold that is found\<close>

text \<open>An allocator asks the system for memory when and only when an object is big.\<close>

definition asks_for_big :: "'h Allocator \<Rightarrow> (u64 \<Rightarrow> bool) \<Rightarrow> bool" where
  "asks_for_big A big \<longleftrightarrow>
    (\<forall>h sz p cs h'. al_malloc A sz h = (p, cs, h') \<longrightarrow> (cs \<noteq> [] \<longleftrightarrow> big sz))
    \<and> (\<forall>h p cs h'. al_free A p h = (cs, h') \<longrightarrow> cs = [])"

lemma malloc_and_free_asks:
  assumes "asks_for_big A big" and "ready s"
  shows "\<exists>h' cs. malloc_and_free t A sz (h, s) = Inr (h', after_calls cs s) \<and> (cs \<noteq> [] \<longleftrightarrow> big sz)"
proof -
  obtain p cs h1 where 1: "al_malloc A sz h = (p, cs, h1)" by (metis prod_cases3)
  obtain cs2 h2 where 2: "al_free A p h1 = (cs2, h2)" by fastforce
  have "cs2 = []" "cs \<noteq> [] \<longleftrightarrow> big sz" using assms(1) 1 2 unfolding asks_for_big_def by blast+
  moreover have "after_calls [] r = r" for r by (simp add: after_calls_def)
  ultimately show ?thesis using assms(2) 1 2
    by (auto simp: malloc_and_free_def real_malloc_ready real_free_ready)
qed

lemma called_after:
  "inThread s \<Longrightarrow> mmap_called (after_calls cs s) \<or> sbrk_called (after_calls cs s)
    \<longleftrightarrow> mmap_called s \<or> sbrk_called s \<or> cs \<noteq> []"
proof -
  have "cs \<noteq> [] \<longleftrightarrow> MmapCall \<in> set cs \<or> SbrkCall \<in> set cs" by (cases cs; cases "hd cs") auto
  then show "inThread s \<Longrightarrow> ?thesis" by (auto simp: after_calls_def)
qed

text \<open>The sizes tried: from 4096 in steps of eight, until one is not below the largest class size.\<close>

definition sizes_tried :: "u64 \<Rightarrow> nat \<Rightarrow> u64 list" where
  "sizes_tried max_class_size k
    = map (\<lambda>i. 4096 + 8 * of_nat i) [k..<(unat max_class_size - 4088 + 7) div 8]"

lemma sizes_tried_unfold:
  assumes "sz = 4088 + 8 * of_nat k" and "unat sz = 4088 + 8 * k"
  shows "sizes_tried max_class_size k
    = (if sz < max_class_size then (sz + 8) # sizes_tried max_class_size (Suc k) else [])"
proof -
  have "k < (M - 4088 + 7) div 8 \<longleftrightarrow> 4088 + 8 * k < M" for M :: nat
    using less_eq_div_iff_mult_less_eq [of 8 "Suc k" "M - 4088 + 7"] by auto
  then have "k < (unat max_class_size - 4088 + 7) div 8 \<longleftrightarrow> sz < max_class_size"
    by (simp only: word_less_nat_alt assms(2))
  then show ?thesis using assms(1)
    by (cases "sz < max_class_size") (simp_all add: sizes_tried_def upt_conv_Cons algebra_simps)
qed

lemma threshold_loop_finds:
  assumes "asks_for_big A big" and "ready s" and "inThread s" and "\<not> mmap_called s \<and> \<not> sbrk_called s"
    and "unat max_class_size + 8 \<le> 2 ^ 64" and "sz = 4088 + 8 * of_nat k" and "unat sz = 4088 + 8 * k"
  shows "\<exists>sz' h' s'. threshold_loop t max_class_size A sz (h, s) = Some (Inr (sz', h', s'))
    \<and> ready s' \<and> pr_bibop s' = pr_bibop s
    \<and> large_object_threshold s' = large_object_threshold s \<and> class_sizes s' = class_sizes s
    \<and> nextFreeClassIndex s' = nextFreeClassIndex s
    \<and> find big (sizes_tried max_class_size k) = (if mmap_called s' \<or> sbrk_called s' then Some sz' else None)"
  using assms
proof (induction "unat max_class_size - unat sz" arbitrary: sz k h s rule: less_induct)
  case (less sz k h s)
  show ?case
  proof (cases "sz < max_class_size")
    case False
    with less.prems(2-4) sizes_tried_unfold [OF less.prems(6,7)] show ?thesis by (subst threshold_loop.simps) simp
  next
    case True
    obtain h1 cs where M: "malloc_and_free t A (sz + 8) (h, s) = Inr (h1, after_calls cs s)" "cs \<noteq> [] \<longleftrightarrow> big (sz + 8)"
      using malloc_and_free_asks [OF less.prems(1,2)] by blast
    let ?s = "after_calls cs s"
    have step: "threshold_loop t max_class_size A sz (h, s) = threshold_loop t max_class_size A (sz + 8) (h1, ?s)"
      using True less.prems(4) M(1) by (subst threshold_loop.simps) simp
    note tried = sizes_tried_unfold [OF less.prems(6,7), of max_class_size]
    have called: "mmap_called ?s \<or> sbrk_called ?s \<longleftrightarrow> big (sz + 8)"
      using called_after [OF less.prems(3)] less.prems(4) M(2) by simp
    show ?thesis
    proof (cases "big (sz + 8)")
      case True
      with called have "threshold_loop t max_class_size A (sz + 8) (h1, ?s) = Some (Inr (sz + 8, h1, ?s))"
        by (subst threshold_loop.simps) auto
      with True called step tried \<open>sz < max_class_size\<close> less.prems(2) show ?thesis by simp
    next
      case False
      have "unat (sz + 8) = unat sz + 8" using \<open>sz < max_class_size\<close> less.prems(5) by (simp add: word_less_nat_alt unat_add_bound)
      with less.hyps [of "sz + 8" ?s "Suc k" h1] less.prems False called step tried \<open>sz < max_class_size\<close>
      show ?thesis by (simp add: word_less_nat_alt)
    qed
  qed
qed

lemma find_large_object_finds:
  assumes "asks_for_big A big" and "ready s" and "unat max_class_size + 8 \<le> 2 ^ 64"
  shows "\<exists>h' s'. find_large_object t max_class_size A (h, s) = Some (Inr (h', s'))
    \<and> ready s' \<and> pr_bibop s' = pr_bibop s \<and> class_sizes s' = class_sizes s \<and> nextFreeClassIndex s' = nextFreeClassIndex s
    \<and> large_object_threshold s' = (case find big (sizes_tried max_class_size 0) of
        Some sz \<Rightarrow> sz | None \<Rightarrow> large_object_threshold s)"
proof -
  obtain h1 cs where 1: "malloc_and_free t A 0 (h, s) = Inr (h1, after_calls cs s)"
    using malloc_and_free_ready [OF assms(2), of t A 0 h] by blast
  let ?s = "after_calls cs s\<lparr>inThread := True, mmap_called := False, sbrk_called := False\<rparr>"
  have "ready ?s" using assms(2) by (simp add: ready_def after_calls_def)
  from threshold_loop_finds [OF assms(1) this _ _ assms(3), of 4088 0 t h1]
  obtain sz h2 s2 where 2: "threshold_loop t max_class_size A 4088 (h1, ?s) = Some (Inr (sz, h2, s2))" "ready s2"
      "pr_bibop s2 = pr_bibop s" "large_object_threshold s2 = large_object_threshold s"
      "class_sizes s2 = class_sizes s" "nextFreeClassIndex s2 = nextFreeClassIndex s"
      "find big (sizes_tried max_class_size 0) = (if mmap_called s2 \<or> sbrk_called s2 then Some sz else None)"
    by auto
  with 1 show ?thesis
    by (cases "mmap_called s2"; cases "sbrk_called s2") (simp_all add: find_large_object_def ready_def)
qed

lemma getAllocStyle_bibop:
  assumes "ready s" and "al_malloc A 64 h = (p1, cs1, h1)" and "al_malloc A 256 h1 = (p2, cs2, h2)"
    and "p1 div 4096 \<noteq> p2 div 4096"
  shows "\<exists>h' s'. getAllocStyle t A (h, s) = Inr (h', s') \<and> ready s' \<and> pr_bibop s'
    \<and> class_sizes s' = class_sizes s \<and> nextFreeClassIndex s' = nextFreeClassIndex s"
proof -
  obtain cs3 h3 where 3: "al_free A p1 h2 = (cs3, h3)" by fastforce
  obtain cs4 h4 where 4: "al_free A p2 h3 = (cs4, h4)" by fastforce
  show ?thesis using assms 3 4
    by (simp add: getAllocStyle_def real_malloc_ready real_free_ready) (simp add: ready_def after_calls_def)
qed

text \<open>
  C12: the pre-run tool measures a bibop allocator. If a small and a larger object lie on different pages, each
  object gets the smallest class that holds it, \<open>realloc\<close> moves an object exactly when it outgrows its class, and
  memory is asked for exactly when an object is big, then \<open>helper_main\<close> returns; the threshold is the first big
  size above 4088 in steps of eight; and the class sizes are the allocator's classes up to the threshold,
  in order, with the threshold at the end, provided there are fewer than 200.
\<close>

theorem pre_run_measures_bibop:
  assumes A: "bibop_allocator A cap cls" "asks_for_big A big"
    and s: "ready s" "nextFreeClassIndex s = 0" "length (class_sizes s) = 200"
    and pages: "al_malloc A 64 h = (p1, cs1, h1)" "al_malloc A 256 h1 = (p2, cs2, h2)" "p1 div 4096 \<noteq> p2 div 4096"
    and T: "unat max_class_size + 24 \<le> 2 ^ 64" "find big (sizes_tried max_class_size 0) = Some T"
    and C: "C = classes_from cls T 8" "C \<noteq> {}" "card C < 200"
    and name: "info_file_name name = Inr filename"
  shows "\<exists>h' s'. helper_main t max_class_size A name (h, s) = Some (Inr (filename, h', s'))
    \<and> pr_bibop s' \<and> large_object_threshold s' = T
    \<and> take (nextFreeClassIndex s') (class_sizes s') = sorted_list_of_set (insert T C)"
proof -
  obtain h1 s1 where 1: "getAllocStyle t A (h, s) = Inr (h1, s1)" "ready s1" "pr_bibop s1"
      "class_sizes s1 = class_sizes s" "nextFreeClassIndex s1 = 0"
    using getAllocStyle_bibop [OF s(1) pages, of t] s(2) by auto
  obtain h2 s2 where 2: "find_large_object t max_class_size A (h1, s1) = Some (Inr (h2, s2))" "ready s2" "pr_bibop s2"
      "class_sizes s2 = class_sizes s" "nextFreeClassIndex s2 = 0" "large_object_threshold s2 = T"
    using find_large_object_finds [OF A(2) 1(2), of max_class_size t h1] T 1 by auto
  have "T \<in> set (sizes_tried max_class_size 0)" using T(2) by (auto simp: find_Some_iff)
  then obtain i where i: "i < (unat max_class_size - 4088 + 7) div 8" "T = 4096 + 8 * of_nat i"
    by (auto simp only: sizes_tried_def set_map set_upt image_iff atLeastLessThan_iff)
  then have "4096 + 8 * i < 2 ^ 64 - 16" using T(1) by auto
  moreover have "T = of_nat (4096 + 8 * i)" using i(2) by simp
  ultimately have unat: "unat T = 4096 + 8 * i" by (simp add: unat_of_nat take_bit_nat_eq_self del: of_nat_add of_nat_mult)
  have bound: "unat T + 16 \<le> 2 ^ 64" "T \<noteq> 0" using unat \<open>4096 + 8 * i < 2 ^ 64 - 16\<close> by auto
  from find_class_sizes_finds [OF A(1) 2(2,5), of C t h2] C bound(1) 2 s(3)
  obtain h3 s3 where "find_class_sizes t A (h2, s2) = Some (Inr (h3, s3))" "pr_bibop s3" "large_object_threshold s3 = T"
      "take (nextFreeClassIndex s3) (class_sizes s3) = sorted_list_of_set (insert T C)"
    by auto
  with 1 2 bound(2) name show ?thesis by (simp add: helper_main_def)
qed

text \<open>An allocator with the classes 64 and 4096, whose objects lie at the address of their class.\<close>

definition sample_cls :: "u64 \<Rightarrow> u64" where
  "sample_cls sz = (if sz \<le> 64 then 64 else if sz \<le> 4096 then 4096 else if sz \<le> 8192 then 8192
    else if sz \<le> - 8 then - 8 else 0)"

definition sample_bibop :: "unit Allocator" where
  "sample_bibop = \<lparr>al_malloc = \<lambda>sz h. (sample_cls sz, if sz > 4096 then [MmapCall] else [], h),
    al_free = \<lambda>p h. ([], h),
    al_calloc = \<lambda>n sz h. (sample_cls (n * sz), if n * sz > 4096 then [MmapCall] else [], h),
    al_realloc = \<lambda>p sz h. (if sz \<le> p then p else sample_cls sz, if sz \<le> p \<or> sz \<le> 4096 then [] else [MmapCall], h)\<rparr>"

definition sample_pre_run :: PreRun where
  "sample_pre_run = \<lparr>inMalloc = False, inMmap = False, inThread = False, mmap_called = False, sbrk_called = False,
    pr_bibop = False, bump_point = False, libInitialized = True, nextFreeClassIndex = 0, class_sizes = replicate 200 0,
    large_object_threshold = 0, metadata_object = 0, total_mmaps = 0, pr_myBuffer = 4096, temp_position = 128,
    temp_allocations = 1, allocator_name = 4096\<rparr>"

lemma sample_cls_cases:
  "sz \<le> 64 \<Longrightarrow> sample_cls sz = 64" "64 < sz \<Longrightarrow> sz \<le> 4096 \<Longrightarrow> sample_cls sz = 4096"
  "4096 < sz \<Longrightarrow> sz \<le> 8192 \<Longrightarrow> sample_cls sz = 8192" "8192 < sz \<Longrightarrow> sz \<le> - 8 \<Longrightarrow> sample_cls sz = - 8"
  by (simp_all add: sample_cls_def word_le_nat_alt word_less_nat_alt)

lemma sample_cls_ok:
  assumes "sz \<le> - 8"
  shows "sz \<le> sample_cls sz \<and> 8 dvd unat (sample_cls sz) \<and>
    (\<forall>sz'. sz \<le> sz' \<and> sz' \<le> sample_cls sz \<longrightarrow> sample_cls sz' = sample_cls sz)"
proof -
  consider "sz \<le> 64" | "64 < sz" "sz \<le> 4096" | "4096 < sz" "sz \<le> 8192" | "8192 < sz" by fastforce
  then show ?thesis
  proof cases
    case 1 then show ?thesis by (simp add: sample_cls_cases)
  next
    case 2 then show ?thesis using sample_cls_cases(2) less_le_trans [of 64 sz] by simp
  next
    case 3 then show ?thesis using sample_cls_cases(3) less_le_trans [of 4096 sz] by simp
  next
    case 4 then show ?thesis using assms sample_cls_cases(4) less_le_trans [of 8192 sz] by simp
  qed
qed

lemma sample_bibop_ok: "bibop_allocator sample_bibop (\<lambda>h p. p) sample_cls" "asks_for_big sample_bibop (\<lambda>sz. sz > 4096)"
proof -
  have moves: "sample_cls sz \<noteq> p" if "sz \<le> - 8" "\<not> sz \<le> p" for sz p
    using sample_cls_ok [OF that(1)] that(2) by metis
  show "bibop_allocator sample_bibop (\<lambda>h p. p) sample_cls"
    unfolding bibop_allocator_def
  proof (intro conjI)
    show "\<forall>h p sz q cs h'. al_realloc sample_bibop p sz h = (q, cs, h') \<and> sz \<le> - 8 \<longrightarrow>
        (q = p \<longleftrightarrow> sz \<le> p) \<and> q = (if sz \<le> p then p else sample_cls sz)"
      using moves by (simp add: sample_bibop_def)
  qed (simp_all add: sample_bibop_def, intro allI impI, rule sample_cls_ok)
  show "asks_for_big sample_bibop (\<lambda>sz. sz > 4096)" by (auto simp: asks_for_big_def sample_bibop_def)
qed

lemma sample_classes: "classes_from sample_cls 4104 8 = {64, 4096}"
proof -
  have "8 \<le> c \<and> c \<le> 4104 \<and> sample_cls c = c \<longleftrightarrow> c = 64 \<or> c = 4096" for c
    by (cases "c = 64"; cases "c = 4096") (auto simp: sample_cls_def)
  then show ?thesis by (auto simp: classes_from_def)
qed

lemma sample_threshold: "find (\<lambda>sz. sz > 4096) (sizes_tried 8192 0) = Some 4104"
  using sizes_tried_unfold [of 4088 0 8192] sizes_tried_unfold [of 4096 1 8192] by simp

lemma pre_run_measures_bibop_witness:
  "\<exists>s'. helper_main 4096000 8192 sample_bibop ''/usr/lib/libhoard.so'' ((), sample_pre_run)
      = Some (Inr (''/usr/lib/libhoard.info'', (), s'))
    \<and> pr_bibop s' \<and> large_object_threshold s' = 4104 \<and> take (nextFreeClassIndex s') (class_sizes s') = [64, 4096, 4104]"
proof -
  have fname: "info_file_name ''/usr/lib/libhoard.so'' = Inr ''/usr/lib/libhoard.info''"
    by (simp add: info_file_name_def)
  have sorted: "sorted_list_of_set (insert 4104 {64, 4096 :: u64}) = [64, 4096, 4104]" by simp
  have malloc: "al_malloc sample_bibop 64 () = (64, [], ())" "al_malloc sample_bibop 256 () = (4096, [], ())"
    by (simp_all add: sample_bibop_def sample_cls_def)
  have "ready sample_pre_run" "nextFreeClassIndex sample_pre_run = 0" "length (class_sizes sample_pre_run) = 200"
    by (simp_all add: ready_def sample_pre_run_def)
  from pre_run_measures_bibop [OF sample_bibop_ok this malloc, of 8192 4104 "{64, 4096}" _ _ 4096000] fname sorted
  show ?thesis by (simp add: sample_classes sample_threshold)
qed

section \<open>The info file is read back\<close>

lemma read_atoi_word:
  assumes "unat (c :: u64) < 2 ^ 63"
  shows "read_atoi (decimal (unat c) @ CHR '' '' # rest) = Inr (ucast c, rest)"
    "read_atoi (decimal (unat c) @ [CHR 0x0A]) = Inr (ucast c, [])"
proof -
  have c: "(of_nat (unat c) :: u32) = ucast c" by (simp add: word_unat_eq_iff unat_of_nat unsigned_ucast_eq)
  have "int (unat c) < 2 ^ 63" using assms by (metis of_nat_less_iff of_nat_numeral of_nat_power)
  then have "atoi (decimal (unat c)) = ucast c" "read_atoi (decimal (unat c) @ [CHR 0x0A]) = Inr (ucast c, [])"
    using strtol10_decimal [of "unat c" "[]"] read_atoi_decimal [of "unat c"] c by (simp_all add: atoi_def)
  moreover have "strtok (CHR '' '') (decimal (unat c) @ CHR '' '' # rest) = Some (decimal (unat c), rest)"
    using decimal_digits digit_not_special(4) by (intro strtok_word(1) decimal_not_Nil) auto
  ultimately show "read_atoi (decimal (unat c) @ CHR '' '' # rest) = Inr (ucast c, rest)"
    "read_atoi (decimal (unat c) @ [CHR 0x0A]) = Inr (ucast c, [])"
    by (simp_all add: read_atoi_def)
qed

lemma read_class_sizes_written:
  assumes "\<forall>c \<in> set (cs :: u64 list). unat c < 2 ^ 63" and "i + length cs \<le> length (classSizes p)"
  shows "read_class_sizes (length cs) i (concat (map (\<lambda>c. decimal (unat c) @ '' '') cs) @ rest) p
    = Inr (rest, p\<lparr>classSizes := take i (classSizes p) @ map ucast cs @ drop (i + length cs) (classSizes p)\<rparr>)"
  using assms
proof (induction cs arbitrary: i p)
  case (Cons c cs)
  let ?p = "p\<lparr>classSizes := (classSizes p)[i := ucast c]\<rparr>"
  have "take (Suc i) (classSizes ?p) = take i (classSizes p) @ [ucast c]"
    using Cons.prems(2) by (simp add: take_Suc_conv_app_nth)
  moreover have "unat c < 2 ^ 63" using Cons.prems(1) by simp
  ultimately show ?case using Cons.IH [of "Suc i" ?p] Cons.prems(2) Cons.prems(1)
      read_atoi_word(1) [of c "concat (map (\<lambda>c. decimal (unat c) @ '' '') cs) @ rest"]
    by (simp add: set_class_size_def)
qed simp

lemma strtok_space: "strtok (CHR '' '') (CHR '' '' # r) = strtok (CHR '' '') r"
  by (simp add: strtok_def)

lemma written_lines:
  "strtok (CHR '' '') (''style bibop'' @ [CHR 0x0A]) = Some (''style'', ''bibop'' @ [CHR 0x0A])"
  "strtok (CHR '' '') (''bibop'' @ [CHR 0x0A]) = Some (''bibop'' @ [CHR 0x0A], [])"
  "strtok (CHR '' '') (''class_sizes '' @ r) = Some (''class_sizes'', r)"
  "strtok (CHR '' '') (''large_object_threshold '' @ r) = Some (''large_object_threshold'', r)"
  by (simp_all add: strtok_def)

lemma read_written:
  assumes s: "pr_bibop s" "cs = take (nextFreeClassIndex s) (class_sizes s)" "nextFreeClassIndex s \<le> length (class_sizes s)"
    and fits: "nextFreeClassIndex s \<le> length (classSizes p)" "nextFreeClassIndex s < 2 ^ 16"
    and small: "\<forall>c \<in> set cs. unat c < 2 ^ 63" "unat (large_object_threshold s) < 2 ^ 63"
  shows "readMemoryInfoFile (pre_exitHandler s) p = Inr (p\<lparr>
    sc_status := (sc_status p)\<lparr>largeObjectThreshold := ucast (large_object_threshold s)\<rparr>,
    allocatorStyleIsBibop := True, numberOfClassSizes := of_nat (nextFreeClassIndex s) + 2,
    classSizes := map ucast cs @ drop (nextFreeClassIndex s) (classSizes p)\<rparr>)"
proof -
  let ?n = "nextFreeClassIndex s"
  have len: "length cs = ?n" using s(2,3) by simp
  have n: "unat (of_nat ?n :: u64) = ?n" "unat (ucast (ucast (of_nat ?n :: u64) :: u32) :: u16) = ?n"
      "ucast (ucast (of_nat ?n :: u64) :: u32) = (of_nat ?n :: u16)"
  proof -
    show 1: "unat (of_nat ?n :: u64) = ?n" using fits(2) by (simp add: unat_of_nat_small)
    have u16: "unat (ucast x :: u16) = take_bit 16 (unat x)" for x :: u32 by (simp add: unsigned_ucast_eq)
    have 2: "unat (ucast (of_nat ?n :: u64) :: u32) = ?n"
      using fits(2) 1 by (simp only: unsigned_ucast_eq) (simp add: take_bit_nat_eq_self)
    show 3: "unat (ucast (ucast (of_nat ?n :: u64) :: u32) :: u16) = ?n"
      using fits(2) 2 u16 [of "ucast (of_nat ?n :: u64)"] by (simp add: take_bit_nat_eq_self)
    show "ucast (ucast (of_nat ?n :: u64) :: u32) = (of_nat ?n :: u16)"
      using 3 fits(2) by (simp only: word_unat_eq_iff) (simp add: unat_of_nat_small)
  qed
  have count: "read_atoi (decimal ?n @ CHR '' '' # r) = Inr (ucast (of_nat ?n :: u64), r)" for r
    using read_atoi_word(1) [of "of_nat ?n" r] n(1) fits(2) by simp
  note classes = read_class_sizes_written [OF small(1), of 0, unfolded len]
  have "writeClassSizes s = ''class_sizes '' @ (decimal ?n @ CHR '' '' # concat (map (\<lambda>c. decimal (unat c) @ '' '') cs) @ [CHR 0x0A])"
    by (simp add: writeClassSizes_def s(2))
  then show ?thesis using s(1) fits(1) count n classes read_atoi_word(2) [OF small(2)] written_lines
    by (simp add: pre_exitHandler_def readAllocatorStyleFromInfo_def readMiddleObjectThresholdFromInfo_def on_status_def
        readAllocatorClassSizesFromInfo_def readLargeObjectThresholdFromInfo_def readLargeObjectAlignmentFromInfo_def)
qed

lemma find_class_first:
  assumes "\<forall>l \<in> {i..<j}. cs ! l < sz" and "sz \<le> cs ! j" and "i \<le> j" and "j < i + n" and "j < length cs"
  shows "find_class sz cs i n = Inr (Some j)"
  using assms
proof (induction n arbitrary: i)
  case (Suc n)
  then have "i < length cs" by simp
  show ?case
  proof (cases "i = j")
    case False
    with Suc.prems have "\<not> sz \<le> cs ! i" "find_class sz cs (Suc i) n = Inr (Some j)" by (auto intro!: Suc.IH simp: not_le)
    then show ?thesis using \<open>i < length cs\<close> by simp
  qed (use Suc.prems \<open>i < length cs\<close> in simp)
qed simp

text \<open>
  C13: the profiler gets the classes that the tool measured. After reading the file that the exit handler
  writes, the class of a size up to the threshold is the first measured class that holds it. But the file has no
  line for the alignment of large objects: if it was zero, as a fresh profiler's is, then asking for
  the class of any size above the threshold divides by zero.
\<close>

theorem measured_classes_are_used:
  assumes s: "pr_bibop s" "cs = take (nextFreeClassIndex s) (class_sizes s)" "nextFreeClassIndex s \<le> length (class_sizes s)"
    and fits: "nextFreeClassIndex s \<le> length (classSizes p)" "nextFreeClassIndex s < 2 ^ 16 - 2"
    and small: "\<forall>c \<in> set cs. unat c < 2 ^ 32" "unat (large_object_threshold s) < 2 ^ 32"
  shows "\<exists>p'. readMemoryInfoFile (pre_exitHandler s) p = Inr p' \<and> (\<forall>sz cache. sc_size cache \<noteq> sz \<longrightarrow>
    (if unat sz \<le> unat (large_object_threshold s)
     then \<forall>k. find (\<lambda>c. unat sz \<le> unat c) cs = Some k \<longrightarrow>
       (\<exists>c. getClassSizeAndIndex p' sz cache = Inr (c, c) \<and> sc_classSize c = ucast k)
     else largeObjectAlignment p = 0 \<longrightarrow> getClassSizeAndIndex p' sz cache = Inl DivisionByZero))"
proof -
  let ?n = "nextFreeClassIndex s" and ?T = "large_object_threshold s"
  let ?p = "p\<lparr>sc_status := (sc_status p)\<lparr>largeObjectThreshold := ucast ?T\<rparr>, allocatorStyleIsBibop := True,
    numberOfClassSizes := of_nat ?n + 2, classSizes := map ucast cs @ drop ?n (classSizes p)\<rparr>"
  have len: "length cs = ?n" using s(2,3) by simp
  have u32: "unat (ucast c :: u32) = unat (c :: u64)" if "unat c < 2 ^ 32" for c
    using that by (simp add: unsigned_ucast_eq take_bit_nat_eq_self)
  have cells: "classSizes ?p ! j = ucast (cs ! j)" "unat (classSizes ?p ! j) = unat (cs ! j)" if "j < ?n" for j
    using that len small(1) by (simp_all add: nth_append u32)
  have count: "unat (numberOfClassSizes ?p) = ?n + 2"
  proof -
    have "numberOfClassSizes ?p = of_nat (?n + 2)" by simp
    then show ?thesis using fits(2) by (simp only:) (subst unat_of_nat_small, simp_all)
  qed
  have "getClassSizeAndIndex ?p sz cache = Inl DivisionByZero"
    if "sc_size cache \<noteq> sz" "unat ?T < unat sz" "largeObjectAlignment p = 0" for sz cache
    using that u32 [OF small(2)] by (simp add: getClassSizeAndIndex_def large_class_size_def word_less_nat_alt)
  moreover have "\<exists>c. getClassSizeAndIndex ?p sz cache = Inr (c, c) \<and> sc_classSize c = ucast k"
    if sz: "sc_size cache \<noteq> sz" "unat sz \<le> unat ?T" and k: "find (\<lambda>c. unat sz \<le> unat c) cs = Some k" for sz cache k
  proof -
    obtain j where "j < ?n \<and> unat sz \<le> unat (cs ! j) \<and> k = cs ! j \<and> (\<forall>l < j. \<not> unat sz \<le> unat (cs ! l))"
      using k len unfolding find_Some_iff by metis
    then have j: "j < ?n" "unat sz \<le> unat (cs ! j)" "k = cs ! j" "\<forall>l < j. unat (cs ! l) < unat sz"
      by (simp_all add: not_le)
    have "find_class sz (classSizes ?p) 0 (unat (numberOfClassSizes ?p) - 1) = Inr (Some j)"
    proof (rule find_class_first)
      show "\<forall>l \<in> {0..<j}. classSizes ?p ! l < sz" "sz \<le> classSizes ?p ! j" "j < length (classSizes ?p)"
        using j len cells by (auto simp: word_le_nat_alt word_less_nat_alt)
      show "j < 0 + (unat (numberOfClassSizes ?p) - 1)" using j(1) by (simp only: count)
    qed simp
    then show ?thesis using sz u32 [OF small(2)] cells(1) [OF j(1)] j(3) count
      by (simp add: getClassSizeAndIndex_def word_less_nat_alt Let_def updateValues_def)
  qed
  moreover have "readMemoryInfoFile (pre_exitHandler s) p = Inr ?p" using s fits small by (intro read_written) auto
  ultimately show ?thesis by (intro exI [of _ ?p]) (auto simp: not_le)
qed

lemma measured_classes_are_used_witness:
  "\<exists>p'. readMemoryInfoFile
      (pre_exitHandler (sample_pre_run\<lparr>pr_bibop := True, nextFreeClassIndex := 3,
        class_sizes := [64, 4096, 4104], large_object_threshold := 4104\<rparr>))
      \<lparr>sc_status = ProgramStatus_zero, largeObjectAlignment = 0, allocatorStyleIsBibop = False,
        numberOfClassSizes = 0, classSizes = replicate 8270 0\<rparr> = Inr p'
    \<and> (\<exists>c. getClassSizeAndIndex p' 100 \<lparr>classSizeIndex = 0, sc_size = 0, sc_classSize = 0\<rparr> = Inr (c, c) \<and> sc_classSize c = 4096)
    \<and> getClassSizeAndIndex p' 5000 \<lparr>classSizeIndex = 0, sc_size = 0, sc_classSize = 0\<rparr> = Inl DivisionByZero"
proof -
  let ?s = "sample_pre_run\<lparr>pr_bibop := True, nextFreeClassIndex := 3, class_sizes := [64, 4096, 4104],
    large_object_threshold := 4104\<rparr>"
  let ?p = "\<lparr>sc_status = ProgramStatus_zero, largeObjectAlignment = 0, allocatorStyleIsBibop = False,
    numberOfClassSizes = 0, classSizes = replicate 8270 (0 :: u32)\<rparr>"
  let ?cache = "\<lparr>classSizeIndex = 0, sc_size = 0, sc_classSize = 0\<rparr>"
  obtain p' where "readMemoryInfoFile (pre_exitHandler ?s) ?p = Inr p'" and p': "\<forall>sz cache. sc_size cache \<noteq> sz \<longrightarrow>
    (if unat sz \<le> unat (large_object_threshold ?s)
     then \<forall>k. find (\<lambda>c. unat sz \<le> unat c) [64, 4096, 4104 :: u64] = Some k \<longrightarrow>
       (\<exists>c. getClassSizeAndIndex p' sz cache = Inr (c, c) \<and> sc_classSize c = ucast k)
     else largeObjectAlignment ?p = 0 \<longrightarrow> getClassSizeAndIndex p' sz cache = Inl DivisionByZero)"
    using measured_classes_are_used [of ?s "[64, 4096, 4104]" ?p] by auto
  moreover have "\<exists>c. getClassSizeAndIndex p' 100 ?cache = Inr (c, c) \<and> sc_classSize c = 4096"
    using p' [rule_format, of ?cache 100] by simp
  moreover have "getClassSizeAndIndex p' 5000 ?cache = Inl DivisionByZero"
    using p' [rule_format, of ?cache 5000] by simp
  ultimately show ?thesis by blast
qed

end
