(* ===== verification/FalseSharing.thy ===== *)
theory FalseSharing
  imports DefineValues
begin

text \<open>
  What the earlier version of the profiler (\<^verbatim>\<open>src/\<close>) keeps per cache line and per set of the cache: the kind of
  false sharing of a line (\<^verbatim>\<open>CacheMapEntry\<close> of \<^verbatim>\<open>shadowmemory.hh\<close>), the conflict detector and the
  friendliness counters of a thread (\<^verbatim>\<open>structs.h\<close>, \<^verbatim>\<open>structs.cpp\<close>), and what they mean for the history of a line
  and of the samples.
\<close>

section \<open>The kind of false sharing of a line\<close>

datatype FalseSharingType = OBJECT | ACTIVE | PASSIVE

fun FalseSharingType_index :: "FalseSharingType \<Rightarrow> nat" where
  "FalseSharingType_index OBJECT = 0"
| "FalseSharingType_index ACTIVE = 1"
| "FalseSharingType_index PASSIVE = 2"

text \<open>\<open>fsl_used\<close> is an \<open>int8_t\<close>, read with \<open>sint\<close>. A thread index of zero stands for no thread yet.\<close>

record FSLine =
  fsl_status :: "bool \<times> bool"
  fsl_recorded :: "bool list"
  fsl_used :: u8
  fsl_lastWriter :: u8
  fsl_lastAF :: u8

definition FSLine_zero :: FSLine where
  "FSLine_zero = \<lparr>fsl_status = (False, False), fsl_recorded = [False, False, False], fsl_used = 0,
    fsl_lastWriter = 0, fsl_lastAF = 0\<rparr>"

text \<open>Four bits of the thread's index, marked with bit 4.\<close>

definition getThreadIndex :: "u16 \<Rightarrow> u8" where
  "getThreadIndex tid = ucast ((tid AND 15) OR 16)"

definition getFS :: "FSLine \<Rightarrow> FalseSharingType" where
  "getFS e = (if fsl_status e = (False, False) then OBJECT
    else if fsl_status e = (True, False) then ACTIVE else PASSIVE)"

definition setFS :: "FalseSharingType \<Rightarrow> FSLine \<Rightarrow> FSLine" where
  "setFS k e = e\<lparr>fsl_status := (case k of OBJECT \<Rightarrow> (False, False) | ACTIVE \<Rightarrow> (True, False) | PASSIVE \<Rightarrow> (False, True))\<rparr>"

definition FSLine_getUsedBytes :: "FSLine \<Rightarrow> u8" where
  "FSLine_getUsedBytes e =
    (if sint (fsl_used e) > int CACHELINE_SIZE then of_nat CACHELINE_SIZE
     else if sint (fsl_used e) < 0 then 0 else fsl_used e)"

definition FSLine_addUsedBytes :: "nat \<Rightarrow> FSLine \<Rightarrow> FSLine" where
  "FSLine_addUsedBytes num_bytes e = e\<lparr>fsl_used := fsl_used e + of_nat num_bytes\<rparr>"

definition FSLine_subUsedBytes :: "nat \<Rightarrow> FSLine \<Rightarrow> FSLine" where
  "FSLine_subUsedBytes num_bytes e = e\<lparr>fsl_used := fsl_used e - of_nat num_bytes\<rparr>"

definition FSLine_setFull :: "FSLine \<Rightarrow> FSLine" where
  "FSLine_setFull e = e\<lparr>fsl_used := of_nat CACHELINE_SIZE\<rparr>"

definition FSLine_setEmpty :: "FSLine \<Rightarrow> FSLine" where
  "FSLine_setEmpty e = e\<lparr>fsl_used := 0\<rparr>"

definition other_thread :: "u16 \<Rightarrow> FSLine \<Rightarrow> bool" where
  "other_thread tid e \<longleftrightarrow> fsl_lastAF e \<noteq> getThreadIndex tid \<and> fsl_lastAF e \<ge> 16"

definition updateCache :: "u16 \<Rightarrow> bool \<Rightarrow> nat \<Rightarrow> FSLine \<Rightarrow> FSLine" where
  "updateCache tid isFree num_bytes e =
    (if isFree
     then (let e = FSLine_subUsedBytes num_bytes e in
       if getFS e = ACTIVE \<or> getFS e = OBJECT
       then (let e = (if other_thread tid e then setFS PASSIVE e else e) in e\<lparr>fsl_lastAF := getThreadIndex tid\<rparr>)
       else e)
     else (let e = FSLine_addUsedBytes num_bytes e in
       if getFS e = OBJECT
       then (let e = (if other_thread tid e then setFS ACTIVE e else e) in e\<lparr>fsl_lastAF := getThreadIndex tid\<rparr>)
       else e))"

section \<open>Conflicts in a set of the cache\<close>

record CacheConflictDetector =
  numOfHitForCaches :: "u32 list"
  numOfDifferentHitForCaches :: "u32 list"
  totalHitIntervalForCaches :: "u32 list"
  lastHitTimeForCaches :: "u32 list"
  lastHitMegaIndex :: "u64 list"
  lastHitPageIndex :: "u8 list"

definition CacheConflictDetector_zero :: CacheConflictDetector where
  "CacheConflictDetector_zero = \<lparr>numOfHitForCaches = replicate 64 0, numOfDifferentHitForCaches = replicate 64 0,
    totalHitIntervalForCaches = replicate 64 0, lastHitTimeForCaches = replicate 64 0,
    lastHitMegaIndex = replicate 64 0, lastHitPageIndex = replicate 64 0\<rparr>"

definition CacheConflictDetector_add :: "CacheConflictDetector \<Rightarrow> CacheConflictDetector \<Rightarrow> CacheConflictDetector" where
  "CacheConflictDetector_add d n =
    d\<lparr>numOfHitForCaches := for_loop 64 (\<lambda>i ys. ys[i := ys ! i + numOfHitForCaches n ! i]) (numOfHitForCaches d),
      numOfDifferentHitForCaches :=
        for_loop 64 (\<lambda>i ys. ys[i := ys ! i + numOfDifferentHitForCaches n ! i]) (numOfDifferentHitForCaches d),
      totalHitIntervalForCaches :=
        for_loop 64 (\<lambda>i ys. ys[i := ys ! i + totalHitIntervalForCaches n ! i]) (totalHitIntervalForCaches d)\<rparr>"

text \<open>A mega index and page index of zero stand for no hit yet.\<close>

definition CacheConflictDetector_hit :: "u64 \<Rightarrow> u8 \<Rightarrow> nat \<Rightarrow> u32 \<Rightarrow> CacheConflictDetector \<Rightarrow> CacheConflictDetector" where
  "CacheConflictDetector_hit mega_index page_index c time d =
    (let d = d\<lparr>numOfHitForCaches := (numOfHitForCaches d)[c := numOfHitForCaches d ! c + 1]\<rparr>;
         d = (if lastHitMegaIndex d ! c \<noteq> mega_index \<or> lastHitPageIndex d ! c \<noteq> page_index
              then (let d = (if lastHitMegaIndex d ! c \<noteq> 0 \<or> lastHitPageIndex d ! c \<noteq> 0
                        then d\<lparr>numOfDifferentHitForCaches :=
                                 (numOfDifferentHitForCaches d)[c := numOfDifferentHitForCaches d ! c + 1],
                               totalHitIntervalForCaches := (totalHitIntervalForCaches d)[c :=
                                 totalHitIntervalForCaches d ! c + (time - lastHitTimeForCaches d ! c)]\<rparr>
                        else d)
                    in d\<lparr>lastHitMegaIndex := (lastHitMegaIndex d)[c := mega_index],
                         lastHitPageIndex := (lastHitPageIndex d)[c := page_index]\<rparr>)
              else d)
     in d\<lparr>lastHitTimeForCaches := (lastHitTimeForCaches d)[c := time]\<rparr>)"

section \<open>Friendliness\<close>

record SampleStatus =
  ss_numOfSampling :: u32
  ss_numOfSampledStoringInstructions :: u32
  ss_numOfSampledCacheLines :: u32
  ss_numOfSampledFalseSharingInstructions :: "u32 list"
  ss_numOfSampledFalseSharingCacheLines :: "u32 list"
  ss_totalMemoryUsageOfSampledPages :: u64
  ss_totalMemoryUsageOfSampledCacheLines :: u64
  ss_cacheConflictDetector :: CacheConflictDetector

definition SampleStatus_zero :: SampleStatus where
  "SampleStatus_zero = \<lparr>ss_numOfSampling = 0, ss_numOfSampledStoringInstructions = 0, ss_numOfSampledCacheLines = 0,
    ss_numOfSampledFalseSharingInstructions = [0, 0, 0], ss_numOfSampledFalseSharingCacheLines = [0, 0, 0],
    ss_totalMemoryUsageOfSampledPages = 0, ss_totalMemoryUsageOfSampledCacheLines = 0,
    ss_cacheConflictDetector = CacheConflictDetector_zero\<rparr>"

definition SampleStatus_recordANewSampling :: "u64 \<Rightarrow> u64 \<Rightarrow> SampleStatus \<Rightarrow> SampleStatus" where
  "SampleStatus_recordANewSampling memoryUsageOfCacheLine memoryUsageOfPage f =
    f\<lparr>ss_numOfSampling := ss_numOfSampling f + 1,
      ss_totalMemoryUsageOfSampledCacheLines := ss_totalMemoryUsageOfSampledCacheLines f + memoryUsageOfCacheLine,
      ss_totalMemoryUsageOfSampledPages := ss_totalMemoryUsageOfSampledPages f + memoryUsageOfPage\<rparr>"

definition SampleStatus_add :: "SampleStatus \<Rightarrow> SampleStatus \<Rightarrow> SampleStatus" where
  "SampleStatus_add f n =
    f\<lparr>ss_numOfSampling := ss_numOfSampling f + ss_numOfSampling n,
      ss_totalMemoryUsageOfSampledPages := ss_totalMemoryUsageOfSampledPages f + ss_totalMemoryUsageOfSampledPages n,
      ss_totalMemoryUsageOfSampledCacheLines :=
        ss_totalMemoryUsageOfSampledCacheLines f + ss_totalMemoryUsageOfSampledCacheLines n,
      ss_numOfSampledStoringInstructions := ss_numOfSampledStoringInstructions f + ss_numOfSampledStoringInstructions n,
      ss_numOfSampledCacheLines := ss_numOfSampledCacheLines f + ss_numOfSampledCacheLines n,
      ss_numOfSampledFalseSharingInstructions := for_loop 3
        (\<lambda>i ys. ys[i := ys ! i + ss_numOfSampledFalseSharingInstructions n ! i]) (ss_numOfSampledFalseSharingInstructions f),
      ss_numOfSampledFalseSharingCacheLines := for_loop 3
        (\<lambda>i ys. ys[i := ys ! i + ss_numOfSampledFalseSharingCacheLines n ! i]) (ss_numOfSampledFalseSharingCacheLines f),
      ss_cacheConflictDetector := CacheConflictDetector_add (ss_cacheConflictDetector f) (ss_cacheConflictDetector n)\<rparr>"

text \<open>A sample of a line in use: what \<open>doMemoryAccess\<close> does once it has found the line and the page's used bytes.\<close>

definition count_store :: "u16 \<Rightarrow> SampleStatus \<times> FSLine \<Rightarrow> SampleStatus \<times> FSLine" where
  "count_store tid = (\<lambda>(f, e).
    (let f = f\<lparr>ss_numOfSampledStoringInstructions := ss_numOfSampledStoringInstructions f + 1\<rparr>;
         k = FalseSharingType_index (getFS e);
         (f, e) =
          (if fsl_lastWriter e \<noteq> getThreadIndex tid \<and> fsl_lastWriter e \<ge> 16
           then (let f = f\<lparr>ss_numOfSampledFalseSharingInstructions := (ss_numOfSampledFalseSharingInstructions f)
                           [k := ss_numOfSampledFalseSharingInstructions f ! k + 1]\<rparr>
                 in if \<not> fsl_recorded e ! k
                    then (f\<lparr>ss_numOfSampledFalseSharingCacheLines := (ss_numOfSampledFalseSharingCacheLines f)
                              [k := ss_numOfSampledFalseSharingCacheLines f ! k + 1]\<rparr>,
                          e\<lparr>fsl_recorded := (fsl_recorded e)[k := True]\<rparr>)
                    else (f, e))
           else (f, e))
     in (f, e\<lparr>fsl_lastWriter := getThreadIndex tid\<rparr>)))"

definition sample_line ::
  "u16 \<Rightarrow> eMemAccessType \<Rightarrow> u64 \<Rightarrow> u8 \<Rightarrow> nat \<Rightarrow> u16 \<Rightarrow> SampleStatus \<times> FSLine \<Rightarrow> SampleStatus \<times> FSLine" where
  "sample_line tid accessType mega_index page_index c page_used = (\<lambda>(f, e).
    (let f = f\<lparr>ss_cacheConflictDetector := CacheConflictDetector_hit mega_index page_index c (ss_numOfSampling f)
               (ss_cacheConflictDetector f)\<rparr>;
         (f, e) = (if fsl_lastWriter e = 0
           then (f\<lparr>ss_numOfSampledCacheLines := ss_numOfSampledCacheLines f + 1\<rparr>, e\<lparr>fsl_lastWriter := 1\<rparr>) else (f, e));
         f = SampleStatus_recordANewSampling (ucast (FSLine_getUsedBytes e)) (ucast page_used) f
     in if accessType = E_MEM_STORE then count_store tid (f, e) else (f, e)))"

section \<open>Properties\<close>

text \<open>The partial updates of a line, in order: which thread, whether it frees, how many bytes.\<close>

definition line_history :: "(u16 \<times> bool \<times> nat) list \<Rightarrow> FSLine \<Rightarrow> FSLine" where
  "line_history es e = fold (\<lambda>(tid, isFree, n). updateCache tid isFree n) es e"

lemma line_history_simps [simp]:
  "line_history [] e = e"
  "line_history ((tid, isFree, n) # es) e = line_history es (updateCache tid isFree n e)"
  by (simp_all add: line_history_def)

lemma thread_index_marked: "16 \<le> getThreadIndex tid"
proof -
  have "getThreadIndex tid AND 2 ^ 4 = 2 ^ 4"
    unfolding getThreadIndex_def by (rule bit_word_eqI) (auto simp: bit_simps numeral_eq_Suc)
  then show ?thesis using word_and_le2 [of "getThreadIndex tid" "2 ^ 4"] by simp
qed

text \<open>Once a thread has used the line, an update only asks whether its index is the remembered one.\<close>

lemma getFS_fields [simp]:
  "getFS (FSLine_addUsedBytes n e) = getFS e" "getFS (FSLine_subUsedBytes n e) = getFS e"
  "getFS (e\<lparr>fsl_lastAF := t\<rparr>) = getFS e" "getFS (setFS k e) = k"
  "fsl_lastAF (FSLine_addUsedBytes n e) = fsl_lastAF e" "fsl_lastAF (FSLine_subUsedBytes n e) = fsl_lastAF e"
  "fsl_lastAF (setFS k e) = fsl_lastAF e"
  by (simp_all add: getFS_def setFS_def FSLine_addUsedBytes_def FSLine_subUsedBytes_def split: FalseSharingType.splits)

lemma updateCache_kind:
  assumes "16 \<le> fsl_lastAF e"
  shows "getFS (updateCache tid isFree n e) =
      (if getFS e = PASSIVE \<or> getThreadIndex tid = fsl_lastAF e then getFS e
       else if isFree then PASSIVE else ACTIVE)"
    and "fsl_lastAF (updateCache tid isFree n e) =
      (if getFS e = OBJECT \<or> getFS e = ACTIVE \<and> isFree then getThreadIndex tid else fsl_lastAF e)"
  using assms by (cases "getFS e"; auto simp: updateCache_def other_thread_def Let_def)+

lemma passive_stays:
  "16 \<le> fsl_lastAF e \<Longrightarrow> getFS e = PASSIVE \<Longrightarrow> getFS (line_history es e) = PASSIVE"
proof (induction es arbitrary: e)
  case (Cons ev es)
  obtain tid isFree n where ev: "ev = (tid, isFree, n)" by (cases ev) auto
  show ?case
    using Cons.IH [of "updateCache tid isFree n e"] Cons.prems
    by (simp add: ev updateCache_kind)
qed simp

lemma active_history:
  "16 \<le> fsl_lastAF e \<Longrightarrow> getFS e = ACTIVE \<Longrightarrow>
    getFS (line_history es e)
      = (if \<exists>(tid, isFree, n) \<in> set es. isFree \<and> getThreadIndex tid \<noteq> fsl_lastAF e then PASSIVE else ACTIVE)"
proof (induction es arbitrary: e)
  case (Cons ev es)
  obtain tid isFree n where ev: "ev = (tid, isFree, n)" by (cases ev) auto
  let ?e = "updateCache tid isFree n e"
  note k = updateCache_kind [OF Cons.prems(1), of tid isFree n]
  have marked: "16 \<le> fsl_lastAF ?e" using k(2) thread_index_marked Cons.prems(1) by simp
  show ?case
  proof (cases "isFree \<and> getThreadIndex tid \<noteq> fsl_lastAF e")
    case True
    then have "getFS ?e = PASSIVE" using k(1) Cons.prems(2) by simp
    with passive_stays [OF marked] True show ?thesis by (auto simp: ev)
  next
    case False
    then have "getFS ?e = ACTIVE" "fsl_lastAF ?e = fsl_lastAF e" using k Cons.prems(2) by auto
    with Cons.IH [OF marked] False show ?thesis by (auto simp: ev)
  qed
qed simp


text \<open>The hits in one set, with the line and the time of each, and the pairs of successive ones in different lines.\<close>

definition hits_in :: "nat \<Rightarrow> (u64 \<times> u8 \<times> nat \<times> u32) list \<Rightarrow> ((u64 \<times> u8) \<times> u32) list" where
  "hits_in c hits = [((m, p), t). (m, p, c', t) \<leftarrow> hits, c' = c]"

definition line_changes :: "('l \<times> u32) list \<Rightarrow> (('l \<times> u32) \<times> ('l \<times> u32)) list" where
  "line_changes hs = filter (\<lambda>(h, h'). fst h \<noteq> fst h') (zip hs (tl hs))"

lemma line_changes_snoc:
  "line_changes (hs @ [h]) = line_changes hs @ (if hs \<noteq> [] \<and> fst (last hs) \<noteq> fst h then [(last hs, h)] else [])"
proof (cases hs rule: rev_cases)
  case (snoc xs x)
  have "zip (xs @ [x, h]) (tl (xs @ [x, h])) = zip (xs @ [x]) (tl (xs @ [x])) @ [(x, h)]"
    by (induction xs rule: induct_list012) simp_all
  then show ?thesis by (simp add: line_changes_def snoc)
qed (simp add: line_changes_def)

definition detect :: "(u64 \<times> u8 \<times> nat \<times> u32) list \<Rightarrow> CacheConflictDetector" where
  "detect hits = fold (\<lambda>(m, p, c, t). CacheConflictDetector_hit m p c t) hits CacheConflictDetector_zero"

text \<open>What the detector knows of one set after these hits in it.\<close>

definition detected :: "((u64 \<times> u8) \<times> u32) list \<Rightarrow> CacheConflictDetector \<Rightarrow> nat \<Rightarrow> bool" where
  "detected hs d c \<longleftrightarrow> numOfHitForCaches d ! c = of_nat (length hs)
    \<and> numOfDifferentHitForCaches d ! c = of_nat (length (line_changes hs))
    \<and> totalHitIntervalForCaches d ! c = (\<Sum>(h, h') \<leftarrow> line_changes hs. snd h' - snd h)
    \<and> (lastHitMegaIndex d ! c, lastHitPageIndex d ! c) = (if hs = [] then (0, 0) else fst (last hs))
    \<and> (hs \<noteq> [] \<longrightarrow> lastHitTimeForCaches d ! c = snd (last hs))"

definition detector_shape :: "CacheConflictDetector \<Rightarrow> bool" where
  "detector_shape d \<longleftrightarrow> length (numOfHitForCaches d) = 64 \<and> length (numOfDifferentHitForCaches d) = 64
    \<and> length (totalHitIntervalForCaches d) = 64 \<and> length (lastHitTimeForCaches d) = 64
    \<and> length (lastHitMegaIndex d) = 64 \<and> length (lastHitPageIndex d) = 64"

lemma hit_shape: "detector_shape d \<Longrightarrow> detector_shape (CacheConflictDetector_hit m p c t d)"
  by (auto simp: detector_shape_def CacheConflictDetector_hit_def Let_def)

lemma hit_other:
  "c' \<noteq> c \<Longrightarrow> detected hs d c' \<Longrightarrow> detected hs (CacheConflictDetector_hit m p c t d) c'"
  by (auto simp: detected_def CacheConflictDetector_hit_def Let_def)

lemma hit_same:
  assumes "detector_shape d" and "c < 64" and "detected hs d c" and "(m, p) \<noteq> (0, 0)" and "\<forall>h \<in> set hs. fst h \<noteq> (0, 0)"
  shows "detected (hs @ [((m, p), t)]) (CacheConflictDetector_hit m p c t d) c"
proof (cases hs rule: rev_cases)
  case Nil
  with assms show ?thesis
    by (auto simp: detected_def detector_shape_def CacheConflictDetector_hit_def Let_def line_changes_def)
next
  case (snoc xs x)
  obtain m' p' t' where x: "x = ((m', p'), t')" by (cases x) auto
  from snoc have last: "last hs = x" "hs \<noteq> []" "fst x \<noteq> (0, 0)" using assms(5) by auto
  with assms(1-4) x show ?thesis
    by (auto simp: detected_def detector_shape_def CacheConflictDetector_hit_def Let_def line_changes_snoc)
qed

text \<open>
  C24: the conflict detector of a thread. After any hits, none of them in the first page of the address space, each
  set of the cache has its number of hits, the number of times the next hit in the set was in another page, and the
  sum of the times from the last hit in one page to the next hit in another.
\<close>

theorem conflicts_are_line_changes:
  assumes "\<forall>(m, p, c, t) \<in> set hits. c < 64 \<and> (m, p) \<noteq> (0, 0)" and "c < 64"
  shows "numOfHitForCaches (detect hits) ! c = of_nat (length (hits_in c hits))
    \<and> numOfDifferentHitForCaches (detect hits) ! c = of_nat (length (line_changes (hits_in c hits)))
    \<and> totalHitIntervalForCaches (detect hits) ! c = (\<Sum>(h, h') \<leftarrow> line_changes (hits_in c hits). snd h' - snd h)"
proof -
  have "detector_shape (detect hits) \<and> detected (hits_in c hits) (detect hits) c \<and> (\<forall>h \<in> set (hits_in c hits). fst h \<noteq> (0, 0))"
    using assms
  proof (induction hits rule: rev_induct)
    case Nil
    then show ?case
      by (simp add: detect_def detected_def detector_shape_def hits_in_def line_changes_def CacheConflictDetector_zero_def)
  next
    case (snoc h hits)
    obtain m p c' t where h: "h = (m, p, c', t)" by (cases h) auto
    have d: "detect (hits @ [h]) = CacheConflictDetector_hit m p c' t (detect hits)" by (simp add: detect_def h)
    have i: "hits_in c (hits @ [h]) = hits_in c hits @ (if c' = c then [((m, p), t)] else [])"
      by (simp add: hits_in_def h)
    from snoc have IH: "detector_shape (detect hits)" "detected (hits_in c hits) (detect hits) c"
        "\<forall>h \<in> set (hits_in c hits). fst h \<noteq> (0, 0)" by auto
    have "(m, p) \<noteq> (0, 0)" using snoc.prems by (simp add: h)
    then show ?case using IH hit_shape hit_other hit_same snoc.prems(2) unfolding d i by (cases "c' = c") auto
  qed
  then show ?thesis by (simp add: detected_def)
qed

lemma conflicts_are_line_changes_witness:
  "numOfDifferentHitForCaches (detect [(1, 2, 5, 10), (1, 2, 5, 13), (4, 0, 5, 20), (4, 0, 6, 21), (1, 2, 5, 30)]) ! 5 = 2
    \<and> totalHitIntervalForCaches (detect [(1, 2, 5, 10), (1, 2, 5, 13), (4, 0, 5, 20), (4, 0, 6, 21), (1, 2, 5, 30)]) ! 5 = 17"
  using conflicts_are_line_changes [of "[(1, 2, 5, 10), (1, 2, 5, 13), (4, 0, 5, 20), (4, 0, 6, 21), (1, 2, 5, 30)]" 5]
  by (simp add: hits_in_def line_changes_def)

end
