(* ===== verification/MegaMap.thy ===== *)
theory MegaMap
  imports FalseSharing Blocks
begin

text \<open>
  The shadow memory of the earlier version (\<^verbatim>\<open>src/shadowmemory.hh\<close>, \<^verbatim>\<open>src/shadowmemory.cpp\<close>): a map of the whole
  address space by megabytes. An entry of the megabyte map points to a block of 256 page entries, which are handed out
  one block after the other when a megabyte is first touched; a page entry points to a block of 64 cache line
  entries, handed out alike. Pointers are indexes into the page map and the cache map. The huge pages and the precise
  blowup (\<^verbatim>\<open>ENABLE_HP\<close>, \<^verbatim>\<open>ENABLE_THP\<close>, \<^verbatim>\<open>ENABLE_PRECISE_BLOWUP\<close>) are switched off and left out.
\<close>

section \<open>State\<close>

text \<open>\<open>mp_used\<close> is a \<open>short\<close>, read with \<open>sint\<close>.\<close>

record MegaPage =
  mp_touched :: bool
  mp_used :: u16
  mp_lines :: "nat option"

record MegaMap =
  mg_isInitialized :: bool
  mg_mega_mapped :: bool
  mg_mega_map :: "nat \<Rightarrow> nat option"
  mg_page_map :: "nat \<Rightarrow> MegaPage"
  mg_page_bump :: nat
  mg_cache_mapped :: bool
  mg_cache_map :: "nat \<Rightarrow> FSLine"
  mg_cache_bump :: nat

definition NUM_MEGABYTE_MAP_ENTRIES :: nat where [config]: "NUM_MEGABYTE_MAP_ENTRIES = 134217728"
definition NUM_PAGES_PER_MEGABYTE :: nat where [config]: "NUM_PAGES_PER_MEGABYTE = 256"

text \<open>64 GB of entries of 16 and of 8 bytes.\<close>

definition MEGA_PAGE_ENTRIES :: nat where [config]: "MEGA_PAGE_ENTRIES = 4294967296"
definition MEGA_CACHE_ENTRIES :: nat where [config]: "MEGA_CACHE_ENTRIES = 8589934592"

definition MegaPage_zero :: MegaPage where
  "MegaPage_zero = \<lparr>mp_touched = False, mp_used = 0, mp_lines = None\<rparr>"

text \<open>The answers of the three \<open>mmap\<close> calls are arguments; only a missing page map aborts.\<close>

definition MegaMap_initialize :: "bool \<Rightarrow> bool \<Rightarrow> bool \<Rightarrow> MegaMap \<Rightarrow> crash + (bool \<times> MegaMap)" where
  "MegaMap_initialize mega_ok page_ok cache_ok s =
    (if mg_isInitialized s then Inr (False, s)
     else if \<not> page_ok then Inl (Aborted ''mmap of global page map failed'')
     else Inr (True, s\<lparr>mg_mega_mapped := mega_ok, mg_mega_map := \<lambda>_. None, mg_page_map := \<lambda>_. MegaPage_zero,
       mg_page_bump := 0, mg_cache_mapped := cache_ok, mg_cache_map := \<lambda>_. FSLine_zero, mg_cache_bump := 0,
       mg_isInitialized := True\<rparr>))"

section \<open>Page entries\<close>

definition update_mega_page :: "nat \<Rightarrow> (MegaPage \<Rightarrow> MegaPage) \<Rightarrow> MegaMap \<Rightarrow> crash + MegaMap" where
  "update_mega_page i f s =
    (if mg_isInitialized s \<and> i < MEGA_PAGE_ENTRIES
     then Inr (s\<lparr>mg_page_map := (mg_page_map s)(i := f (mg_page_map s i))\<rparr>) else Inl OutOfBounds)"

definition update_mega_line :: "nat \<Rightarrow> (FSLine \<Rightarrow> FSLine) \<Rightarrow> MegaMap \<Rightarrow> crash + MegaMap" where
  "update_mega_line c f s =
    (if mg_cache_mapped s \<and> c < MEGA_CACHE_ENTRIES
     then Inr (s\<lparr>mg_cache_map := (mg_cache_map s)(c := f (mg_cache_map s c))\<rparr>) else Inl OutOfBounds)"

definition MegaPage_addUsedBytes :: "nat \<Rightarrow> MegaPage \<Rightarrow> MegaPage" where
  "MegaPage_addUsedBytes num_bytes e = e\<lparr>mp_used := mp_used e + of_nat num_bytes\<rparr>"

definition MegaPage_subUsedBytes :: "nat \<Rightarrow> MegaPage \<Rightarrow> MegaPage" where
  "MegaPage_subUsedBytes num_bytes e = e\<lparr>mp_used := mp_used e - of_nat num_bytes\<rparr>"

definition MegaPage_setEmpty :: "MegaPage \<Rightarrow> MegaPage" where
  "MegaPage_setEmpty e = e\<lparr>mp_used := 0\<rparr>"

definition MegaPage_setFull :: "MegaPage \<Rightarrow> MegaPage" where
  "MegaPage_setFull e = e\<lparr>mp_used := of_nat PAGESIZE\<rparr>"

definition MegaPage_setTouched :: "MegaPage \<Rightarrow> MegaPage" where
  "MegaPage_setTouched e = e\<lparr>mp_touched := True\<rparr>"

definition MegaPage_getUsedBytes :: "MegaPage \<Rightarrow> u16" where
  "MegaPage_getUsedBytes e =
    (if sint (mp_used e) > int PAGESIZE then of_nat PAGESIZE
     else if sint (mp_used e) < 0 then 0 else mp_used e)"

section \<open>The blocks\<close>

definition doPageMapBumpPointer :: "MegaMap \<Rightarrow> crash + (nat \<times> MegaMap)" where
  "doPageMapBumpPointer s =
    (let cur = mg_page_bump s; new = cur + NUM_PAGES_PER_MEGABYTE in
     if new \<ge> MEGA_PAGE_ENTRIES then Inl (Aborted ''page map out of memory'') else Inr (cur, s\<lparr>mg_page_bump := new\<rparr>))"

definition doMegaCacheBumpPointer :: "MegaMap \<Rightarrow> crash + (nat \<times> MegaMap)" where
  "doMegaCacheBumpPointer s =
    (let cur = mg_cache_bump s; new = cur + NUM_CACHELINES_PER_PAGE in
     if new \<ge> MEGA_CACHE_ENTRIES then Inl (Aborted ''cache map out of memory'') else Inr (cur, s\<lparr>mg_cache_bump := new\<rparr>))"

text \<open>The double checks under the locks have one outcome without other threads.\<close>

definition getMegaMapEntry :: "nat \<Rightarrow> MegaMap \<Rightarrow> crash + (nat \<times> MegaMap)" where
  "getMegaMapEntry m s =
    (if mg_mega_mapped s \<and> m < NUM_MEGABYTE_MAP_ENTRIES
     then (case mg_mega_map s m of
             Some b \<Rightarrow> Inr (b, s)
           | None \<Rightarrow> bindR (doPageMapBumpPointer s) (\<lambda>(b, s). Inr (b, s\<lparr>mg_mega_map := (mg_mega_map s)(m \<mapsto> b)\<rparr>)))
     else Inl OutOfBounds)"

definition getMegaCacheEntry :: "nat \<Rightarrow> MegaMap \<Rightarrow> crash + (nat \<times> MegaMap)" where
  "getMegaCacheEntry i s =
    (if mg_isInitialized s \<and> i < MEGA_PAGE_ENTRIES
     then (case mp_lines (mg_page_map s i) of
             Some c \<Rightarrow> Inr (c, s)
           | None \<Rightarrow> bindR (doMegaCacheBumpPointer s) (\<lambda>(c, s).
               bindR (update_mega_page i (\<lambda>e. e\<lparr>mp_lines := Some c\<rparr>) s) (\<lambda>s. Inr (c, s))))
     else Inl OutOfBounds)"

text \<open>The address of a page's entry; the test of the mega index allows one past the last entry.\<close>

definition mega_index_of :: "u64 \<Rightarrow> nat" where
  "mega_index_of addr = unat (drop_bit 20 addr)"

definition page_index_of :: "u64 \<Rightarrow> nat" where
  "page_index_of addr = unat (drop_bit 12 (addr AND 0xfffff))"

definition check_mega_index :: "u64 \<Rightarrow> crash + nat" where
  "check_mega_index addr =
    (if mega_index_of addr > NUM_MEGABYTE_MAP_ENTRIES then Inl (Aborted ''mega index too large'')
     else Inr (mega_index_of addr))"

definition getPageMapEntry :: "u64 \<Rightarrow> MegaMap \<Rightarrow> crash + (nat \<times> MegaMap)" where
  "getPageMapEntry addr s =
    bindR (check_mega_index addr) (\<lambda>m.
    bindR (getMegaMapEntry m s) (\<lambda>(b, s). Inr (b + page_index_of addr, s)))"

definition getPageMapEntry_index :: "nat \<Rightarrow> u32 \<Rightarrow> MegaMap \<Rightarrow> crash + (nat \<times> MegaMap)" where
  "getPageMapEntry_index mega_idx page_idx s =
    (let (m, p) = (if unat page_idx \<ge> NUM_PAGES_PER_MEGABYTE
                   then (mega_idx + unat (drop_bit 8 page_idx), page_idx AND 0xff) else (mega_idx, page_idx))
     in bindR (getMegaMapEntry m s) (\<lambda>(b, s). Inr (b + unat p, s)))"

section \<open>Pages of an object\<close>

text \<open>The state with the number of pages touched for the first time.\<close>

definition note_page :: "bool \<Rightarrow> (MegaPage \<Rightarrow> MegaPage) \<Rightarrow> nat \<Rightarrow> u32 \<times> MegaMap \<Rightarrow> crash + (u32 \<times> MegaMap)" where
  "note_page isFree f current = (\<lambda>(k, s).
    bindR (update_mega_page current f s) (\<lambda>s.
    if isFree then Inr (k, s)
    else if \<not> mp_touched (mg_page_map s current)
    then bindR (update_mega_page current MegaPage_setTouched s) (\<lambda>s. Inr (k + 1, s))
    else Inr (k, s)))"

definition mega_page_part :: "bool \<Rightarrow> nat \<Rightarrow> nat \<Rightarrow> u32 \<times> MegaMap \<Rightarrow> crash + (u32 \<times> MegaMap)" where
  "mega_page_part isFree n = note_page isFree (if isFree then MegaPage_subUsedBytes n else MegaPage_addUsedBytes n)"

definition mega_page_full :: "bool \<Rightarrow> nat \<Rightarrow> u32 \<times> MegaMap \<Rightarrow> crash + (u32 \<times> MegaMap)" where
  "mega_page_full isFree = note_page isFree (if isFree then MegaPage_setEmpty else MegaPage_setFull)"

text \<open>
  The position of the walk over the pages: mega index, page index and current entry. The page index is a \<open>uint8_t\<close>;
  when it wraps, the walk goes to the next megabyte.
\<close>

type_synonym page_pos = "nat \<times> u8 \<times> nat"

definition next_page :: "page_pos \<Rightarrow> u32 \<times> MegaMap \<Rightarrow> crash + (page_pos \<times> u32 \<times> MegaMap)" where
  "next_page = (\<lambda>(mega_index, page_index, current) (k, s).
    if page_index = 0
    then bindR (getMegaMapEntry (Suc mega_index) s) (\<lambda>(b, s). Inr ((Suc mega_index, page_index, b), (k, s)))
    else Inr ((mega_index, page_index, Suc current), (k, s)))"

function page_loop :: "bool \<Rightarrow> nat \<Rightarrow> page_pos \<Rightarrow> u32 \<times> MegaMap \<Rightarrow> crash + (nat \<times> page_pos \<times> u32 \<times> MegaMap)" where
  "page_loop isFree sz pos s =
    (if sz \<ge> PAGESIZE
     then bindR (next_page pos s) (\<lambda>((mega_index, page_index, current), s).
       bindR (mega_page_full isFree current s)
         (page_loop isFree (sz - PAGESIZE) (mega_index, page_index + 1, current)))
     else Inr (sz, pos, s))"
  by pat_completeness auto
termination by (relation "measure (\<lambda>(_, n, _, _). n)") (auto simp: PAGESIZE_def)

declare page_loop.simps [simp del]

definition updatePages :: "u64 \<Rightarrow> nat \<Rightarrow> u8 \<Rightarrow> nat \<Rightarrow> bool \<Rightarrow> MegaMap \<Rightarrow> crash + (u32 \<times> MegaMap)" where
  "updatePages uintaddr mega_index page_index sz isFree s =
    (let curPageBytes = min (PAGESIZE - unat (uintaddr AND 0xfff)) sz in
     bindR (getMegaMapEntry mega_index s) (\<lambda>(b, s).
     (let current = b + unat page_index in
      bindR (mega_page_part isFree curPageBytes current (0, s)) (\<lambda>s.
      bindR (page_loop isFree (sz - curPageBytes) (mega_index, page_index + 1, current) s) (\<lambda>(sz, pos, s).
      if sz > 0 then bindR (next_page pos s) (\<lambda>((_, _, current), s). mega_page_part isFree sz current s)
      else Inr s)))))"

section \<open>Cache lines of an object\<close>

definition mega_line_full :: "bool \<Rightarrow> FSLine \<Rightarrow> FSLine" where
  "mega_line_full isFree = (if isFree then FSLine_setEmpty else FSLine_setFull)"

text \<open>The position: mega index, page index, cache index, the page's entry and the line's.\<close>

type_synonym mega_line_pos = "nat \<times> u8 \<times> nat \<times> nat \<times> nat"

definition next_mega_line :: "mega_line_pos \<Rightarrow> MegaMap \<Rightarrow> crash + (mega_line_pos \<times> MegaMap)" where
  "next_mega_line = (\<lambda>(mega_index, page_index, cache_index, targetPage, current) s.
    if cache_index = NUM_CACHELINES_PER_PAGE
    then (let page_index = page_index + 1 in
      bindR (if page_index = 0
             then bindR (getMegaMapEntry (Suc mega_index) s) (\<lambda>(b, s). Inr (Suc mega_index, b, s))
             else Inr (mega_index, Suc targetPage, s)) (\<lambda>(mega_index, targetPage, s).
      bindR (getMegaCacheEntry targetPage s) (\<lambda>(c, s). Inr ((mega_index, page_index, 0, targetPage, c), s))))
    else Inr ((mega_index, page_index, cache_index, targetPage, Suc current), s))"

function mega_line_loop :: "bool \<Rightarrow> nat \<Rightarrow> mega_line_pos \<Rightarrow> MegaMap \<Rightarrow> crash + (nat \<times> mega_line_pos \<times> MegaMap)" where
  "mega_line_loop isFree size_remain pos s =
    (if size_remain \<ge> CACHELINE_SIZE
     then bindR (next_mega_line pos s) (\<lambda>((mega_index, page_index, cache_index, targetPage, current), s).
       bindR (update_mega_line current (mega_line_full isFree) s)
         (mega_line_loop isFree (size_remain - CACHELINE_SIZE)
           (mega_index, page_index, Suc cache_index, targetPage, current)))
     else Inr (size_remain, pos, s))"
  by pat_completeness auto
termination by (relation "measure (\<lambda>(_, n, _, _). n)") (auto simp: CACHELINE_SIZE_def)

declare mega_line_loop.simps [simp del]

definition updateCacheLines :: "u16 \<Rightarrow> nat \<Rightarrow> u8 \<Rightarrow> nat \<Rightarrow> nat \<Rightarrow> nat \<Rightarrow> bool \<Rightarrow> MegaMap \<Rightarrow> crash + MegaMap" where
  "updateCacheLines tid mega_index page_index cache_index firstCacheLineOffset sz isFree s =
    bindR (getMegaMapEntry mega_index s) (\<lambda>(b, s).
    (let targetPage = b + unat page_index in
     bindR (getMegaCacheEntry targetPage s) (\<lambda>(c, s).
     (let current = c + cache_index; first = min (CACHELINE_SIZE - firstCacheLineOffset) sz in
      bindR (update_mega_line current (updateCache tid isFree first) s) (\<lambda>s.
      bindR (mega_line_loop isFree (sz - first) (mega_index, page_index, Suc cache_index, targetPage, current) s)
        (\<lambda>(size_remain, pos, s).
      if size_remain > 0
      then bindR (next_mega_line pos s) (\<lambda>((_, _, _, _, current), s).
             update_mega_line current (updateCache tid isFree size_remain) s)
      else Inr s))))))"

text \<open>Returns the bytes of the pages touched for the first time.\<close>

definition updateObject :: "u16 \<Rightarrow> u64 \<Rightarrow> u32 \<Rightarrow> bool \<Rightarrow> MegaMap \<Rightarrow> crash + (u32 \<times> MegaMap)" where
  "updateObject tid address sz isFree s =
    (if address = 0 \<or> sz = 0 then Inr (0, s)
     else bindR (check_mega_index address) (\<lambda>mega_index.
       (let firstPageIdx = of_nat (page_index_of address) in
        bindR (updatePages address mega_index firstPageIdx (unat sz) isFree s) (\<lambda>(numNewPagesTouched, s).
        bindR (updateCacheLines tid mega_index firstPageIdx (unat (drop_bit 6 (address AND 0xfff)))
                 (unat (address AND 63)) (unat sz) isFree s) (\<lambda>s.
        Inr (numNewPagesTouched * of_nat PAGESIZE, s))))))"

section \<open>Pages given back\<close>

definition MegaPage_clear :: "nat \<Rightarrow> MegaMap \<Rightarrow> crash + MegaMap" where
  "MegaPage_clear i s =
    (if mg_isInitialized s \<and> i < MEGA_PAGE_ENTRIES
     then bindR (case mp_lines (mg_page_map s i) of
             None \<Rightarrow> Inr s
           | Some c \<Rightarrow>
               if mg_cache_mapped s \<and> c + NUM_CACHELINES_PER_PAGE \<le> MEGA_CACHE_ENTRIES
               then Inr (s\<lparr>mg_cache_map := \<lambda>d. if c \<le> d \<and> d < c + NUM_CACHELINES_PER_PAGE
                      then FSLine_zero else mg_cache_map s d\<rparr>)
               else Inl OutOfBounds)
          (update_mega_page i (\<lambda>e. e\<lparr>mp_touched := False, mp_used := 0\<rparr>))
     else Inl OutOfBounds)"

text \<open>
  Here the page index is an \<open>unsigned\<close>, which starts below 256: it is not zero again for as long as a
  megabyte has pages, so \<open>current\<close> is stepped past the block.
\<close>

fun cleanup_loop :: "nat \<Rightarrow> nat \<Rightarrow> u32 \<Rightarrow> nat \<Rightarrow> u32 \<Rightarrow> MegaMap \<Rightarrow> crash + (u32 \<times> MegaMap)" where
  "cleanup_loop 0 mega_index pageIdx current numTouchedPages s = Inr (numTouchedPages, s)"
| "cleanup_loop (Suc n) mega_index pageIdx current numTouchedPages s =
    (if mg_isInitialized s \<and> current < MEGA_PAGE_ENTRIES
     then bindR (if mp_touched (mg_page_map s current)
                 then bindR (MegaPage_clear current s) (\<lambda>s. Inr (numTouchedPages + 1, s))
                 else Inr (numTouchedPages, s)) (\<lambda>(numTouchedPages, s).
       (let pageIdx = pageIdx + 1 in
        if pageIdx = 0
        then bindR (getMegaMapEntry (Suc mega_index) s) (\<lambda>(b, s).
               cleanup_loop n (Suc mega_index) pageIdx b numTouchedPages s)
        else cleanup_loop n mega_index pageIdx (Suc current) numTouchedPages s))
     else Inl OutOfBounds)"

text \<open>The mega index is not tested; the sum is an \<open>unsigned\<close> times an \<open>int\<close>.\<close>

definition mega_cleanupPages :: "u64 \<Rightarrow> u64 \<Rightarrow> MegaMap \<Rightarrow> crash + (u64 \<times> MegaMap)" where
  "mega_cleanupPages uintaddr len s =
    bindR (getMegaMapEntry (mega_index_of uintaddr) s) (\<lambda>(b, s).
    bindR (cleanup_loop (unat (alignup len (of_nat PAGESIZE)) div PAGESIZE) (mega_index_of uintaddr)
             (of_nat (page_index_of uintaddr)) (b + page_index_of uintaddr) 0 s) (\<lambda>(numTouchedPages, s).
    Inr (ucast (numTouchedPages * of_nat PAGESIZE :: u32), s)))"

section \<open>Samples\<close>

definition getMapTupleByAddress :: "u64 \<Rightarrow> crash + (nat \<times> nat \<times> nat)" where
  "getMapTupleByAddress uintaddr =
    (if uintaddr = 0 then Inl (Aborted ''null pointer'')
     else bindR (check_mega_index uintaddr) (\<lambda>m.
       Inr (page_index_of uintaddr, unat (drop_bit 6 (uintaddr AND 0xfff)), m)))"

definition mega_doMemoryAccess ::
  "u16 \<Rightarrow> u64 \<Rightarrow> eMemAccessType \<Rightarrow> SampleStatus \<times> MegaMap \<Rightarrow> crash + (SampleStatus \<times> MegaMap)" where
  "mega_doMemoryAccess tid uintaddr accessType = (\<lambda>(f, s).
    bindR (getMapTupleByAddress uintaddr) (\<lambda>(page_index, cache_index, mega_index).
    if \<not> (mg_mega_mapped s \<and> mega_index < NUM_MEGABYTE_MAP_ENTRIES) then Inl OutOfBounds
    else (case mg_mega_map s mega_index of
        None \<Rightarrow> Inr (f, s)
      | Some b \<Rightarrow>
          if \<not> (mg_isInitialized s \<and> b + page_index < MEGA_PAGE_ENTRIES) then Inl OutOfBounds
          else (let pme = mg_page_map s (b + page_index) in
            if \<not> mp_touched pme then Inr (f, s)
            else (case mp_lines pme of
                None \<Rightarrow> Inr (f, s)
              | Some base \<Rightarrow>
                  if MegaPage_getUsedBytes pme = 0 then Inr (f, s)
                  else (let c = base + cache_index in
                    if \<not> (mg_cache_mapped s \<and> c < MEGA_CACHE_ENTRIES) then Inl OutOfBounds
                    else if FSLine_getUsedBytes (mg_cache_map s c) = 0 then Inr (f, s)
                    else (let (f, e) = sample_line tid accessType (of_nat mega_index) (of_nat page_index) cache_index
                              (MegaPage_getUsedBytes pme) (f, mg_cache_map s c)
                      in bindR (update_mega_line c (\<lambda>_. e) s) (\<lambda>s. Inr (f, s)))))))))"

end
