(* ===== verification/MegaMap_Correct.thy ===== *)
theory MegaMap_Correct
  imports MegaMap
begin

text \<open>
  The map by megabytes behaves as a map of pages and lines: while the objects alive are disjoint, the counters of a
  page and of a line are the bytes the objects have in it, and the pages touched are counted once. The walk along the
  blocks is shown equal to one that looks up every page, and the pages and the lines are further
  interpretations of the block counting interface.
\<close>

section \<open>Well-formed maps\<close>

definition page_entry :: "MegaMap \<Rightarrow> nat \<Rightarrow> nat option" where
  "page_entry s q = map_option (\<lambda>b. b + q mod 256) (mg_mega_map s (q div 256))"

text \<open>The abstract map: the entries of page \<open>q\<close> and of line \<open>l\<close> of the address space.\<close>

definition page_at :: "MegaMap \<Rightarrow> nat \<Rightarrow> MegaPage" where
  "page_at s q = (case page_entry s q of None \<Rightarrow> MegaPage_zero | Some i \<Rightarrow> mg_page_map s i)"

definition line_at :: "MegaMap \<Rightarrow> nat \<Rightarrow> FSLine" where
  "line_at s l = (case mp_lines (page_at s (l div 64)) of None \<Rightarrow> FSLine_zero | Some c \<Rightarrow> mg_cache_map s (c + l mod 64))"

abbreviation mega_used :: "MegaMap \<Rightarrow> nat \<Rightarrow> int" where
  "mega_used s q \<equiv> sint (mp_used (page_at s q))"

abbreviation mega_touched :: "MegaMap \<Rightarrow> nat \<Rightarrow> bool" where
  "mega_touched s q \<equiv> mp_touched (page_at s q)"

abbreviation mega_line_used :: "MegaMap \<Rightarrow> nat \<Rightarrow> int" where
  "mega_line_used s l \<equiv> sint (fsl_used (line_at s l))"

text \<open>Blocks of pages are handed out once, and entries not handed out are zero; likewise for the lines.\<close>

definition pages_wf :: "MegaMap \<Rightarrow> bool" where
  "pages_wf s \<longleftrightarrow> mg_isInitialized s \<and> mg_mega_mapped s
    \<and> (\<forall>m b. mg_mega_map s m = Some b \<longrightarrow> 256 dvd b \<and> b < mg_page_bump s)
    \<and> (\<forall>m m' b. mg_mega_map s m = Some b \<and> mg_mega_map s m' = Some b \<longrightarrow> m = m')
    \<and> 256 dvd mg_page_bump s \<and> mg_page_bump s < MEGA_PAGE_ENTRIES
    \<and> (\<forall>i \<ge> mg_page_bump s. mg_page_map s i = MegaPage_zero)"

definition mega_lines_wf :: "MegaMap \<Rightarrow> bool" where
  "mega_lines_wf s \<longleftrightarrow> mg_cache_mapped s
    \<and> (\<forall>i c. mp_lines (mg_page_map s i) = Some c \<longrightarrow> 64 dvd c \<and> c < mg_cache_bump s)
    \<and> (\<forall>i i' c. mp_lines (mg_page_map s i) = Some c \<and> mp_lines (mg_page_map s i') = Some c \<longrightarrow> i = i')
    \<and> 64 dvd mg_cache_bump s \<and> mg_cache_bump s < MEGA_CACHE_ENTRIES
    \<and> (\<forall>c \<ge> mg_cache_bump s. mg_cache_map s c = FSLine_zero)"

lemma block_entry:
  assumes "(B :: nat) dvd b" "B dvd b'" "b < b'" "j < B"
  shows "b + j < b'"
proof -
  obtain k l where "b = B * k" "b' = B * l" using assms(1,2) by (auto simp: dvd_def)
  then have "B * Suc k \<le> B * l" using assms(3,4) by (intro mult_le_mono2) (cases "k < l"; auto)
  with \<open>b = B * k\<close> \<open>b' = B * l\<close> assms(4) show ?thesis by simp
qed

lemma block_unique:
  assumes "(B :: nat) dvd b" "B dvd b'" "j < B" "j' < B" "b + j = b' + j'"
  shows "b = b'" "j = j'"
proof -
  have "(b + j) mod B = j" "(b' + j') mod B = j'" using assms(1-4) by (auto simp: dvd_def)
  with assms(5) show "j = j'" by simp
  with assms(5) show "b = b'" by simp
qed

text \<open>The entry of a page lies within the page map and belongs to this page only.\<close>

lemma page_entry_bound:
  assumes "pages_wf s" and "page_entry s q = Some i"
  shows "i < mg_page_bump s" "i < MEGA_PAGE_ENTRIES"
proof -
  obtain b where b: "mg_mega_map s (q div 256) = Some b" "i = b + q mod 256"
    using assms(2) by (auto simp: page_entry_def)
  show "i < mg_page_bump s"
    unfolding b(2) using assms(1) b(1) by (intro block_entry [of 256]) (auto simp: pages_wf_def)
  with assms(1) show "i < MEGA_PAGE_ENTRIES" by (simp add: pages_wf_def)
qed

lemma page_entry_inj:
  assumes "pages_wf s" and "page_entry s q = Some i" and "page_entry s q' = Some i"
  shows "q = q'"
proof -
  obtain b b' where b: "mg_mega_map s (q div 256) = Some b" "i = b + q mod 256"
      "mg_mega_map s (q' div 256) = Some b'" "i = b' + q' mod 256"
    using assms(2,3) by (auto simp: page_entry_def)
  have "256 dvd b" "256 dvd b'" using assms(1) b unfolding pages_wf_def by blast+
  with block_unique [of 256 b b' "q mod 256" "q' mod 256"] b have "b = b'" "q mod 256 = q' mod 256" by auto
  moreover have "q div 256 = q' div 256" using assms(1) b(1,3) \<open>b = b'\<close> unfolding pages_wf_def by blast
  ultimately show ?thesis by (metis div_mult_mod_eq)
qed

section \<open>Looking up a megabyte\<close>

text \<open>Looking up a megabyte changes at most whether it has a block; what the pages hold stays the same.\<close>

lemma getMegaMapEntry_spec:
  assumes wf: "pages_wf s" and m: "m < NUM_MEGABYTE_MAP_ENTRIES"
    and room: "mg_mega_map s m = None \<Longrightarrow> mg_page_bump s + 256 < MEGA_PAGE_ENTRIES"
  shows "\<exists>b s'. getMegaMapEntry m s = Inr (b, s') \<and> mg_mega_map s' m = Some b \<and> pages_wf s'
    \<and> page_at s' = page_at s \<and> line_at s' = line_at s
    \<and> (s' = s \<or> s' = s\<lparr>mg_page_bump := mg_page_bump s + 256, mg_mega_map := (mg_mega_map s)(m \<mapsto> b)\<rparr>)
    \<and> (s' = s \<longleftrightarrow> mg_mega_map s m \<noteq> None)"
proof (cases "mg_mega_map s m")
  case (Some b)
  with wf m show ?thesis by (auto simp: getMegaMapEntry_def pages_wf_def)
next
  case None
  let ?b = "mg_page_bump s"
  let ?s = "s\<lparr>mg_page_bump := ?b + 256, mg_mega_map := (mg_mega_map s)(m \<mapsto> ?b)\<rparr>"
  have "getMegaMapEntry m s = Inr (?b, ?s)"
    using None wf m room by (simp add: getMegaMapEntry_def pages_wf_def doPageMapBumpPointer_def Let_def config)
  moreover have "pages_wf ?s"
  proof -
    have "256 dvd b' \<and> b' < ?b + 256" "b' \<noteq> ?b" if "mg_mega_map s m' = Some b'" for m' b'
      using wf that unfolding pages_wf_def by fastforce+
    then show ?thesis using wf room [OF None] unfolding pages_wf_def by (auto split: if_splits)
  qed
  moreover have zero: "mg_page_map s (?b + j) = MegaPage_zero" for j using wf by (simp add: pages_wf_def)
  have pages: "page_at ?s = page_at s"
  proof (rule ext)
    fix q show "page_at ?s q = page_at s q"
      using zero None by (cases "q div 256 = m") (auto simp: page_at_def page_entry_def split: option.splits)
  qed
  moreover have "line_at ?s = line_at s" by (rule ext) (simp add: line_at_def pages split: option.split)
  moreover have "mg_page_bump ?s \<noteq> mg_page_bump s" by simp
  then have "?s \<noteq> s" by metis
  ultimately show ?thesis using None by auto
qed

section \<open>The walk over the pages\<close>

text \<open>
  \<open>page_op f q\<close> is \<open>f\<close> on the entry of page \<open>q\<close>, looked up from the megabyte map. The walk, which steps a pointer
  within a block and looks up a megabyte when the page index wraps, does the same.
\<close>

definition page_op ::
  "(nat \<Rightarrow> u32 \<times> MegaMap \<Rightarrow> crash + (u32 \<times> MegaMap)) \<Rightarrow> nat \<Rightarrow> u32 \<times> MegaMap \<Rightarrow> crash + (u32 \<times> MegaMap)" where
  "page_op f q = (\<lambda>(k, s). bindR (getMegaMapEntry (q div 256) s) (\<lambda>(b, s). f (b + q mod 256) (k, s)))"

definition mapped_mega :: "nat \<Rightarrow> nat \<Rightarrow> MegaMap \<Rightarrow> bool" where
  "mapped_mega m b s \<longleftrightarrow> mg_mega_mapped s \<and> m < NUM_MEGABYTE_MAP_ENTRIES \<and> mg_mega_map s m = Some b"

text \<open>The position before page \<open>q\<close>.\<close>

definition before_page :: "page_pos \<Rightarrow> nat \<Rightarrow> MegaMap \<Rightarrow> bool" where
  "before_page pos q s \<longleftrightarrow> (case pos of (m, p, cur) \<Rightarrow> 0 < q \<and> p = of_nat q \<and> m = (q - 1) div 256
    \<and> (\<exists>b. mapped_mega m b s \<and> cur = b + (q - 1) mod 256))"

definition keeps_megas :: "(nat \<Rightarrow> u32 \<times> MegaMap \<Rightarrow> crash + (u32 \<times> MegaMap)) \<Rightarrow> bool" where
  "keeps_megas f \<longleftrightarrow> (\<forall>i k s k' s'. f i (k, s) = Inr (k', s') \<longrightarrow>
    mg_mega_mapped s' = mg_mega_mapped s \<and> mg_mega_map s' = mg_mega_map s)"

lemma keeps_page_ops [simp]: "keeps_megas (mega_page_part isFree n)" "keeps_megas (mega_page_full isFree)"
  by (auto simp: keeps_megas_def mega_page_part_def mega_page_full_def note_page_def update_mega_page_def bindR_Inr_iff split: if_splits)

lemma getMegaMapEntry_mapped: "mapped_mega m b s \<Longrightarrow> getMegaMapEntry m s = Inr (b, s)"
  by (simp add: mapped_mega_def getMegaMapEntry_def)

lemma getMegaMapEntry_mapped_after: "getMegaMapEntry m s = Inr (b, s') \<Longrightarrow> mapped_mega m b s'"
  by (auto simp: getMegaMapEntry_def mapped_mega_def doPageMapBumpPointer_def bindR_Inr_iff Let_def
      split: if_splits option.splits)

lemma page_index_wraps: "(of_nat q :: u8) = 0 \<longleftrightarrow> q mod 256 = 0"
  by (simp add: word_of_nat_eq_0_iff dvd_eq_mod_eq_0)

lemma next_page_eq:
  assumes "before_page pos q s"
  shows "next_page pos (k, s) = bindR (getMegaMapEntry (q div 256) s)
    (\<lambda>(b, s). Inr ((q div 256, of_nat q, b + q mod 256), (k, s)))"
proof -
  obtain m p cur where pos: "pos = (m, p, cur)" by (cases pos) auto
  from assms obtain b where b: "0 < q" "p = of_nat q" "m = (q - 1) div 256" "mapped_mega m b s" "cur = b + (q - 1) mod 256"
    by (auto simp: before_page_def pos)
  obtain r where q: "q = Suc r" using b(1) by (cases q) auto
  show ?thesis
  proof (cases "q mod 256 = 0")
    case True
    then have "Suc m = q div 256" using b(3) by (simp add: q mod_Suc div_Suc split: if_splits)
    with True b show ?thesis by (simp add: next_page_def pos page_index_wraps)
  next
    case False
    then have "m = q div 256" "Suc cur = b + q mod 256" using b(3,5) by (simp_all add: q mod_Suc div_Suc split: if_splits)
    with False b(2) getMegaMapEntry_mapped [OF b(4)] show ?thesis
      by (simp add: next_page_def pos page_index_wraps)
  qed
qed

lemma before_page_next:
  assumes "getMegaMapEntry (q div 256) s = Inr (b, s')" and "keeps_megas f" and "f i (k, s') = Inr (k'', s'')"
  shows "before_page (q div 256, of_nat q + 1, b + q mod 256) (Suc q) s''"
proof -
  have "mapped_mega (q div 256) b s''"
    using getMegaMapEntry_mapped_after [OF assms(1)] assms(2,3) by (auto simp: mapped_mega_def keeps_megas_def)
  then show ?thesis by (simp add: before_page_def)
qed

lemma page_loop_eq:
  "before_page pos (Suc i) s \<Longrightarrow>
    bindR (page_loop isFree n pos (k, s)) (\<lambda>(rest, pos, s).
      if rest > 0 then bindR (next_page pos s) (\<lambda>((_, _, cur), s). mega_page_part isFree rest cur s) else Inr s)
    = bindR (full_blocks 4096 (page_op (mega_page_full isFree)) n i (k, s)) (\<lambda>(rest, i, s).
      if rest > 0 then page_op (mega_page_part isFree rest) (Suc i) s else Inr s)"
proof (induction n arbitrary: pos i k s rule: less_induct)
  case (less n)
  note eq = next_page_eq [OF less.prems, of k]
  show ?case
  proof (cases "4096 \<le> n")
    case True
    show ?thesis
    proof (cases "page_op (mega_page_full isFree) (Suc i) (k, s)")
      case (Inl e)
      with True eq show ?thesis
        by (subst page_loop.simps, subst full_blocks.simps)
           (auto simp: page_op_def PAGESIZE_def bindR_Inl_iff split: sum.splits prod.splits)
    next
      case (Inr ks)
      then obtain b s1 k2 s2 where g: "getMegaMapEntry (Suc i div 256) s = Inr (b, s1)"
          "mega_page_full isFree (b + Suc i mod 256) (k, s1) = Inr (k2, s2)" "ks = (k2, s2)"
        by (cases ks) (auto simp: page_op_def bindR_Inr_iff)
      have "before_page (Suc i div 256, of_nat (Suc i) + 1, b + Suc i mod 256) (Suc (Suc i)) s2"
        using before_page_next [of "Suc i" s b s1 "mega_page_full isFree" "b + Suc i mod 256" k k2 s2] g(1,2)
          keeps_page_ops(2) by blast
      from less.IH [OF _ this, of "n - 4096" k2] True eq g Inr show ?thesis
        by (subst page_loop.simps, subst full_blocks.simps) (simp add: PAGESIZE_def)
    qed
  next
    case False
    with eq show ?thesis
      by (subst page_loop.simps, subst full_blocks.simps)
         (cases "getMegaMapEntry (Suc i div 256) s", auto simp: page_op_def PAGESIZE_def)
  qed
qed

lemma updatePages_eq:
  assumes "p < 256"
  shows "updatePages addr m (of_nat p) n isFree s
    = update_blocks 4096 (\<lambda>q n. page_op (mega_page_part isFree n) q) (page_op (mega_page_full isFree))
        (256 * m + p) (unat (addr AND 0xfff)) n (0, s)"
proof -
  have q: "(256 * m + p) div 256 = m" "(256 * m + p) mod 256 = p" "unat (of_nat p :: u8) = p"
    using assms by (auto simp: unat_of_nat_small)
  let ?f = "min (4096 - unat (addr AND 0xfff)) n"
  show ?thesis
  proof (cases "page_op (mega_page_part isFree ?f) (256 * m + p) (0, s)")
    case (Inl e)
    then show ?thesis
      by (auto simp: updatePages_def update_blocks_def page_op_def q assms PAGESIZE_def Let_def bindR_Inl_iff
          split: sum.splits prod.splits)
  next
    case (Inr ks)
    then obtain b s1 k2 s2 where g: "getMegaMapEntry m s = Inr (b, s1)"
        "mega_page_part isFree ?f (b + p) (0, s1) = Inr (k2, s2)" "ks = (k2, s2)"
      by (cases ks) (auto simp: page_op_def q assms bindR_Inr_iff)
    have "(of_nat (256 * m + p) :: u8) = of_nat p"
      by (simp only: word_of_nat_eq_iff take_bit_eq_mod) simp
    then have "before_page (m, of_nat p + 1, b + p) (Suc (256 * m + p)) s2"
      using before_page_next [of "256 * m + p" s b s1 "mega_page_part isFree ?f" "b + p" 0 k2 s2] g by (simp add: q assms)
    from page_loop_eq [OF this, of isFree "n - ?f" k2] g Inr q show ?thesis
      by (simp add: updatePages_def update_blocks_def PAGESIZE_def)
  qed
qed

section \<open>Pages\<close>

lemma page_at_mapped: "mapped_mega (q div 256) b s \<Longrightarrow> page_at s q = mg_page_map s (b + q mod 256)"
  by (simp add: page_at_def page_entry_def mapped_mega_def)

lemma page_entry_mapped: "mapped_mega (q div 256) b s \<Longrightarrow> page_entry s q = Some (b + q mod 256)"
  by (simp add: page_entry_def mapped_mega_def)

text \<open>Updating the entry of a page, with all else as before.\<close>

lemma update_mega_page_spec:
  assumes wf: "pages_wf s" and m: "mapped_mega (q div 256) b s" and l: "mp_lines (f (page_at s q)) = mp_lines (page_at s q)"
  shows "\<exists>s'. update_mega_page (b + q mod 256) f s = Inr s' \<and> pages_wf s' \<and> mg_mega_map s' = mg_mega_map s
    \<and> mg_mega_mapped s' = mg_mega_mapped s \<and> mg_page_bump s' = mg_page_bump s \<and> page_at s' = (page_at s)(q := f (page_at s q))
    \<and> line_at s' = line_at s \<and> (mega_lines_wf s \<longrightarrow> mega_lines_wf s') \<and> mg_cache_bump s' = mg_cache_bump s"
proof -
  let ?i = "b + q mod 256"
  note e = page_entry_mapped [OF m] page_at_mapped [OF m]
  note i = page_entry_bound [OF wf e(1)]
  let ?s = "s\<lparr>mg_page_map := (mg_page_map s)(?i := f (mg_page_map s ?i))\<rparr>"
  have "update_mega_page ?i f s = Inr ?s" using wf i by (simp add: update_mega_page_def pages_wf_def)
  moreover have "pages_wf ?s" using wf i by (auto simp: pages_wf_def)
  moreover have entry: "page_entry ?s = page_entry s" by (simp add: page_entry_def fun_eq_iff)
  have pages: "page_at ?s = (page_at s)(q := f (page_at s q))"
  proof (rule ext)
    fix q' show "page_at ?s q' = ((page_at s)(q := f (page_at s q))) q'"
      using e page_entry_inj [OF wf e(1), of q'] by (auto simp: page_at_def entry split: option.splits)
  qed
  moreover have "line_at ?s = line_at s" by (rule ext) (simp add: line_at_def pages l split: option.split)
  moreover have "mp_lines (mg_page_map ?s j) = mp_lines (mg_page_map s j)" for j using l e(2) by simp
  then have "mega_lines_wf s \<longrightarrow> mega_lines_wf ?s" unfolding mega_lines_wf_def by simp
  ultimately show ?thesis by simp
qed

text \<open>
  What an update of the pages \<open>Q\<close> keeps, besides their counters: the lines stay, pages are only touched, by
  allocations, and counted when they are, and there is room for the megabytes of \<open>Q\<close> that have no block yet.
\<close>

definition new_pages :: "MegaMap \<Rightarrow> MegaMap \<Rightarrow> nat set" where
  "new_pages s0 s = {q. mega_touched s q \<and> \<not> mega_touched s0 q}"

definition blockless :: "nat set \<Rightarrow> MegaMap \<Rightarrow> nat set" where
  "blockless Q s = {m \<in> (\<lambda>q. q div 256) ` Q. mg_mega_map s m = None}"

definition used_touched :: "MegaMap \<Rightarrow> bool" where
  "used_touched s \<longleftrightarrow> (\<forall>q. 0 < mega_used s q \<longrightarrow> mega_touched s q)"

definition mega_frame :: "bool \<Rightarrow> nat set \<Rightarrow> MegaMap \<Rightarrow> u32 \<times> MegaMap \<Rightarrow> bool" where
  "mega_frame isFree Q s0 = (\<lambda>(k, s). pages_wf s \<and> used_touched s
    \<and> (mega_lines_wf s0 \<longrightarrow> mega_lines_wf s) \<and> line_at s = line_at s0 \<and> mg_cache_bump s = mg_cache_bump s0
    \<and> (\<forall>q. mp_lines (page_at s q) = mp_lines (page_at s0 q))
    \<and> (\<forall>q. mega_touched s0 q \<longrightarrow> mega_touched s q) \<and> new_pages s0 s \<subseteq> (if isFree then {} else Q)
    \<and> k = of_nat (card (new_pages s0 s))
    \<and> mg_page_bump s + 256 * card (blockless Q s) < MEGA_PAGE_ENTRIES)"

lemma mega_block:
  assumes fr: "mega_frame isFree Q s0 (k, s)" and q: "q \<in> Q" "finite Q" "q div 256 < NUM_MEGABYTE_MAP_ENTRIES"
  shows "\<exists>b s'. getMegaMapEntry (q div 256) s = Inr (b, s') \<and> mapped_mega (q div 256) b s'
    \<and> mega_frame isFree Q s0 (k, s') \<and> page_at s' = page_at s"
proof -
  have wf: "pages_wf s" using fr by (simp add: mega_frame_def)
  have fin: "finite (blockless Q s)" using q(2) by (simp add: blockless_def)
  have in_b: "q div 256 \<in> blockless Q s" if "mg_mega_map s (q div 256) = None" using that q(1) by (simp add: blockless_def)
  have pos: "0 < card (blockless Q s)" if "mg_mega_map s (q div 256) = None"
    using in_b [OF that] fin by (auto simp: card_gt_0_iff)
  have room: "mg_page_bump s + 256 < MEGA_PAGE_ENTRIES" if "mg_mega_map s (q div 256) = None"
    using pos [OF that] fr by (simp add: mega_frame_def)
  obtain b s' where g: "getMegaMapEntry (q div 256) s = Inr (b, s')" "mg_mega_map s' (q div 256) = Some b" "pages_wf s'"
      "page_at s' = page_at s" "line_at s' = line_at s"
      "s' = s \<or> s' = s\<lparr>mg_page_bump := mg_page_bump s + 256, mg_mega_map := (mg_mega_map s)(q div 256 \<mapsto> b)\<rparr>"
      "s' = s \<longleftrightarrow> mg_mega_map s (q div 256) \<noteq> None"
    using getMegaMapEntry_spec [OF wf q(3) room] by blast
  have "mega_frame isFree Q s0 (k, s')"
  proof (cases "s' = s")
    case False
    then have s': "s' = s\<lparr>mg_page_bump := mg_page_bump s + 256, mg_mega_map := (mg_mega_map s)(q div 256 \<mapsto> b)\<rparr>"
      using g(6) by blast
    have none: "mg_mega_map s (q div 256) = None" using False g(7) by simp
    have "blockless Q s' = blockless Q s - {q div 256}" by (auto simp: blockless_def s')
    then have "card (blockless Q s') = card (blockless Q s) - 1" using in_b [OF none] fin by simp
    then have "mg_page_bump s' + 256 * card (blockless Q s') < MEGA_PAGE_ENTRIES"
      using fr pos [OF none] by (cases "card (blockless Q s)") (auto simp: mega_frame_def s')
    moreover have "mega_lines_wf s \<longrightarrow> mega_lines_wf s'" by (simp add: mega_lines_wf_def s')
    moreover have "mg_cache_bump s' = mg_cache_bump s" by (simp add: s')
    ultimately show ?thesis using fr g(3-5) by (auto simp: mega_frame_def used_touched_def new_pages_def)
  qed (use fr in simp)
  with g q(3) show ?thesis by (auto simp: mapped_mega_def pages_wf_def)
qed

lemma note_page_ok:
  assumes fr: "mega_frame isFree Q s0 (k, s)" and q: "q \<in> Q" "finite Q" "q div 256 < NUM_MEGABYTE_MAP_ENTRIES"
    and f: "mp_lines (f (page_at s q)) = mp_lines (page_at s q)" "mp_touched (f (page_at s q)) = mp_touched (page_at s q)"
    and free: "isFree \<Longrightarrow> 0 < sint (mp_used (f (page_at s q))) \<Longrightarrow> 0 < mega_used s q"
  shows "\<exists>s'. page_op (note_page isFree f) q (k, s) = Inr s' \<and> mega_frame isFree Q s0 s'
    \<and> mega_used (snd s') = (mega_used s)(q := sint (mp_used (f (page_at s q))))"
proof -
  obtain b s1 where 1: "getMegaMapEntry (q div 256) s = Inr (b, s1)" "mapped_mega (q div 256) b s1"
      "mega_frame isFree Q s0 (k, s1)" "page_at s1 = page_at s"
    using mega_block [OF fr q] by blast
  have wf1: "pages_wf s1" using 1(3) by (simp add: mega_frame_def)
  obtain s2 where 2: "update_mega_page (b + q mod 256) f s1 = Inr s2" "pages_wf s2" "mg_mega_map s2 = mg_mega_map s1"
      "mg_mega_mapped s2 = mg_mega_mapped s1" "mg_page_bump s2 = mg_page_bump s1"
      "page_at s2 = (page_at s1)(q := f (page_at s1 q))" "line_at s2 = line_at s1"
      "mega_lines_wf s1 \<longrightarrow> mega_lines_wf s2" "mg_cache_bump s2 = mg_cache_bump s1"
    using update_mega_page_spec [OF wf1 1(2), of f] f 1(4) by auto
  have m2: "mapped_mega (q div 256) b s2" using 1(2) 2(3,4) by (simp add: mapped_mega_def)
  have at2: "mg_page_map s2 (b + q mod 256) = f (page_at s q)"
    using page_at_mapped [OF m2] by (simp add: 2(6) 1(4))
  have same: "new_pages s0 s2 = new_pages s0 s1" "blockless Q s2 = blockless Q s1"
    using f(2) by (auto simp: new_pages_def blockless_def 2(3,6) 1(4))
  have old: "0 < mega_used s q' \<Longrightarrow> mega_touched s q'" "mega_touched s0 q' \<Longrightarrow> mega_touched s q'" for q'
    using fr by (simp_all add: mega_frame_def used_touched_def)
  show ?thesis
  proof (cases "isFree \<or> mega_touched s q")
    case True
    then have "used_touched s2" using old(1) free f(2) by (auto simp: used_touched_def 2(6) 1(4))
    then have "mega_frame isFree Q s0 (k, s2)"
      using 1(3) 2 same f by (auto simp: mega_frame_def 1(4))
    moreover have "page_op (note_page isFree f) q (k, s) = Inr (k, s2)"
      using True 1(1) 2(1) at2 f(2) by (auto simp: page_op_def note_page_def)
    ultimately show ?thesis by (auto simp: 2(6) 1(4))
  next
    case False
    obtain s3 where 3: "update_mega_page (b + q mod 256) MegaPage_setTouched s2 = Inr s3" "pages_wf s3"
        "mg_mega_map s3 = mg_mega_map s2" "mg_mega_mapped s3 = mg_mega_mapped s2" "mg_page_bump s3 = mg_page_bump s2"
        "page_at s3 = (page_at s2)(q := MegaPage_setTouched (page_at s2 q))" "line_at s3 = line_at s2"
        "mega_lines_wf s2 \<longrightarrow> mega_lines_wf s3" "mg_cache_bump s3 = mg_cache_bump s2"
      using update_mega_page_spec [OF 2(2) m2, of MegaPage_setTouched] by (auto simp: MegaPage_setTouched_def)
    have at3: "page_at s3 = (page_at s)(q := MegaPage_setTouched (f (page_at s q)))" by (simp add: 3(6) 2(6) 1(4))
    have new: "new_pages s0 s3 = insert q (new_pages s0 s1)" "q \<notin> new_pages s0 s1"
      using False old(2) [of q] f(2) by (auto simp: new_pages_def at3 1(4) MegaPage_setTouched_def)
    have "new_pages s0 s1 \<subseteq> Q" using 1(3) False by (simp add: mega_frame_def)
    then have "finite (new_pages s0 s1)" using q(2) by (rule finite_subset)
    then have card: "card (new_pages s0 s3) = Suc (card (new_pages s0 s1))" using new by simp
    have "used_touched s3" using old(1) by (auto simp: used_touched_def at3 MegaPage_setTouched_def)
    moreover have "new_pages s0 s3 \<subseteq> Q" using \<open>new_pages s0 s1 \<subseteq> Q\<close> q(1) new(1) by simp
    moreover have "blockless Q s3 = blockless Q s1" by (simp add: blockless_def 3(3) 2(3))
    moreover have "mega_touched s0 q' \<Longrightarrow> mega_touched s3 q'" for q'
      using old(2) by (auto simp: at3 MegaPage_setTouched_def)
    moreover have "mp_lines (page_at s3 q') = mp_lines (page_at s q')" for q'
      using f(1) by (simp add: at3 MegaPage_setTouched_def)
    ultimately have "mega_frame isFree Q s0 (k + 1, s3)"
      using 1(3) 2 3 False card by (auto simp: mega_frame_def 1(4))
    moreover have "page_op (note_page isFree f) q (k, s) = Inr (k + 1, s3)"
      using False 1(1) 2(1) 3(1) at2 f(2) by (auto simp: page_op_def note_page_def)
    ultimately show ?thesis by (auto simp: at3 MegaPage_setTouched_def)
  qed
qed

definition updatable :: "nat set \<Rightarrow> nat \<Rightarrow> bool" where
  "updatable Q q \<longleftrightarrow> finite Q \<and> q \<in> Q \<and> q div 256 < NUM_MEGABYTE_MAP_ENTRIES"

lemma mega_page_counts:
  "block_counts 4096 (if isFree then -1 else 1) (\<lambda>s. mega_used (snd s))
    (\<lambda>q n. page_op (mega_page_part isFree n) q) (page_op (mega_page_full isFree))
    (updatable Q) (mega_frame isFree Q s0)"
proof
  let ?sg = "if isFree then -1 else 1 :: int"
  show "(0 :: nat) < 4096" "?sg = 1 \<or> ?sg = -1" by simp_all
  fix ks q b
  assume fr: "mega_frame isFree Q s0 ks" and q: "updatable Q q"
  obtain k s where ks: "ks = (k, s)" by (cases ks) auto
  note ok = note_page_ok [OF fr [unfolded ks], of q]
  let ?e = "if isFree then MegaPage_setEmpty else MegaPage_setFull"
  have "sint (mp_used (?e (page_at s q))) = (if ?sg = 1 then int 4096 else 0)"
    "mp_lines (?e (page_at s q)) = mp_lines (page_at s q)" "mp_touched (?e (page_at s q)) = mp_touched (page_at s q)"
    by (simp_all add: MegaPage_setEmpty_def MegaPage_setFull_def PAGESIZE_def)
  with ok [of ?e] q show "\<exists>s'. page_op (mega_page_full isFree) q ks = Inr s' \<and> mega_frame isFree Q s0 s'
      \<and> mega_used (snd s') = (mega_used (snd ks))(q := if ?sg = 1 then int 4096 else 0)"
    by (cases isFree) (simp_all add: mega_page_full_def ks updatable_def)
  assume b: "b \<le> 4096" "0 \<le> mega_used (snd ks) q" "mega_used (snd ks) q \<le> int 4096"
    "0 \<le> mega_used (snd ks) q + ?sg * int b" "mega_used (snd ks) q + ?sg * int b \<le> int 4096"
  let ?f = "if isFree then MegaPage_subUsedBytes b else MegaPage_addUsedBytes b"
  have "sint (mp_used (?f (page_at s q))) = mega_used s q + ?sg * int b"
    using sint_add_small [of "mp_used (page_at s q)" ?sg b] b
    by (auto simp: ks MegaPage_subUsedBytes_def MegaPage_addUsedBytes_def)
  moreover have "mp_lines (?f (page_at s q)) = mp_lines (page_at s q)" "mp_touched (?f (page_at s q)) = mp_touched (page_at s q)"
    by (simp_all add: MegaPage_subUsedBytes_def MegaPage_addUsedBytes_def)
  ultimately show "\<exists>s'. page_op (mega_page_part isFree b) q ks = Inr s' \<and> mega_frame isFree Q s0 s'
      \<and> mega_used (snd s') = (mega_used (snd ks))(q := mega_used (snd ks) q + ?sg * int b)"
    using ok [of ?f] q b by (cases isFree) (simp_all add: mega_page_part_def ks updatable_def)
qed

interpretation mega_page_malloc: block_counts 4096 1 "\<lambda>s. mega_used (snd s)"
  "\<lambda>q n. page_op (mega_page_part False n) q" "page_op (mega_page_full False)" "updatable Q" "mega_frame False Q s0"
  for Q s0
  using mega_page_counts [of False Q s0] by simp

interpretation mega_page_free: block_counts 4096 "-1" "\<lambda>s. mega_used (snd s)"
  "\<lambda>q n. page_op (mega_page_part True n) q" "page_op (mega_page_full True)" "updatable Q" "mega_frame True Q s0"
  for Q s0
  using mega_page_counts [of True Q s0] by simp

lemma address_parts:
  "unat (addr :: u64) = (256 * mega_index_of addr + page_index_of addr) * 4096 + unat (addr AND 0xfff)"
  "page_index_of addr < 256" "unat (addr AND 0xfff) < 4096"
proof -
  have masks: "(0xfff :: u64) = mask 12" "(0xfffff :: u64) = mask 20" by (simp_all add: mask_eq_exp_minus_1)
  have m: "mega_index_of addr = unat addr div 2 ^ 20" by (simp add: mega_index_of_def unat_drop_bit)
  have p: "page_index_of addr = unat addr mod 2 ^ 20 div 2 ^ 12"
    by (simp only: page_index_of_def unat_drop_bit masks unat_and_mask)
  have o: "unat (addr AND 0xfff) = unat addr mod 2 ^ 12" by (simp only: masks unat_and_mask)
  show "page_index_of addr < 256" "unat (addr AND 0xfff) < 4096" unfolding p o by (simp_all add: div_less_iff_less_mult)
  show "unat addr = (256 * mega_index_of addr + page_index_of addr) * 4096 + unat (addr AND 0xfff)"
  proof -
    let ?x = "unat addr"
    have "?x mod (4096 * 256) = 4096 * (?x div 4096 mod 256) + ?x mod 4096" by (rule mod_mult2_eq)
    then have "?x mod 1048576 div 4096 = ?x div 4096 mod 256" by simp
    moreover have "?x div (4096 * 256) = ?x div 4096 div 256" by (rule div_mult2_eq)
    ultimately have "256 * (?x div 1048576) + ?x mod 1048576 div 4096 = ?x div 4096" by simp
    then show ?thesis unfolding m p o by simp
  qed
qed

lemma updatePages_exact:
  fixes addr :: u64 and n :: nat
  defines "a \<equiv> unat addr"
  defines "Q \<equiv> object_pages a n"
  assumes s: "pages_wf s" "used_touched s" and n: "0 < n"
    and Q: "\<forall>q \<in> Q. q div 256 < NUM_MEGABYTE_MAP_ENTRIES"
      "mg_page_bump s + 256 * card (blockless Q s) < MEGA_PAGE_ENTRIES"
    and fits: "\<forall>q. 0 \<le> mega_used s q \<and> mega_used s q \<le> 4096
      \<and> 0 \<le> mega_used s q + (if isFree then -1 else 1) * int (overlap 4096 a n q)
      \<and> mega_used s q + (if isFree then -1 else 1) * int (overlap 4096 a n q) \<le> 4096"
  shows "\<exists>k s'. updatePages addr (mega_index_of addr) (of_nat (page_index_of addr)) n isFree s = Inr (k, s')
    \<and> mega_frame isFree Q s (k, s')
    \<and> mega_used s' = (\<lambda>q. mega_used s q + (if isFree then -1 else 1) * int (overlap 4096 a n q))"
proof -
  let ?off = "unat (addr AND 0xfff)" and ?q = "256 * mega_index_of addr + page_index_of addr"
  note parts = address_parts [of addr]
  have fr: "mega_frame isFree Q s (0, s)"
    using s Q(2) by (simp add: mega_frame_def new_pages_def)
  have upd: "0 < overlap 4096 a n q \<Longrightarrow> updatable Q q" for q
    using Q(1) by (simp add: updatable_def Q_def overlap_in_page)
  have a: "?q * 4096 + ?off = a" using parts(1) by (simp add: a_def)
  show ?thesis
  proof (cases isFree)
    case False
    with mega_page_malloc.update_blocks_exact [of Q s "(0, s)" ?off n ?q] fr parts(3) n fits upd
    show ?thesis unfolding updatePages_eq [OF parts(2)] a by simp
  next
    case True
    with mega_page_free.update_blocks_exact [of Q s "(0, s)" ?off n ?q] fr parts(3) n fits upd
    show ?thesis unfolding updatePages_eq [OF parts(2)] a by simp
  qed
qed

end
