(* ===== verification/MegaMap_Lines.thy ===== *)
theory MegaMap_Lines
  imports MegaMap_Correct
begin

text \<open>
  The cache lines in the map by megabytes: the walk that follows pointers within a page, within a block of pages and
  across megabytes is equal to one that looks every line up, and keeps exact counts; then the whole of
  \<open>updateObject\<close>.
\<close>

section \<open>The walk over the cache lines\<close>

definition find_line :: "nat \<Rightarrow> MegaMap \<Rightarrow> crash + (nat \<times> nat \<times> MegaMap)" where
  "find_line q s = bindR (getMegaMapEntry (q div 256) s) (\<lambda>(b, s).
    bindR (getMegaCacheEntry (b + q mod 256) s) (\<lambda>(c, s). Inr (b, c, s)))"

definition mega_line_op :: "(FSLine \<Rightarrow> FSLine) \<Rightarrow> nat \<Rightarrow> MegaMap \<Rightarrow> crash + MegaMap" where
  "mega_line_op f l s = bindR (find_line (l div 64) s) (\<lambda>(b, c, s). update_mega_line (c + l mod 64) f s)"

definition mapped_lines :: "nat \<Rightarrow> nat \<Rightarrow> nat \<Rightarrow> MegaMap \<Rightarrow> bool" where
  "mapped_lines q b c s \<longleftrightarrow> mapped_mega (q div 256) b s \<and> mg_isInitialized s \<and> b + q mod 256 < MEGA_PAGE_ENTRIES
    \<and> mp_lines (mg_page_map s (b + q mod 256)) = Some c"

text \<open>The position before line \<open>l\<close>.\<close>

definition before_mega_line :: "mega_line_pos \<Rightarrow> nat \<Rightarrow> MegaMap \<Rightarrow> bool" where
  "before_mega_line pos l s \<longleftrightarrow> (case pos of (m, p, ci, tp, cur) \<Rightarrow> (\<exists>q b c. 1 \<le> ci \<and> ci \<le> 64 \<and> l = 64 * q + ci
    \<and> mapped_lines q b c s \<and> m = q div 256 \<and> p = of_nat q \<and> tp = b + q mod 256 \<and> Suc cur = c + ci))"

lemma find_line_mapped: "mapped_lines q b c s \<Longrightarrow> find_line q s = Inr (b, c, s)"
  using getMegaMapEntry_mapped by (auto simp: mapped_lines_def find_line_def getMegaCacheEntry_def)

lemma find_line_mapped_after: "find_line q s = Inr (b, c, s') \<Longrightarrow> mapped_lines q b c s'"
  by (auto simp: find_line_def mapped_lines_def bindR_Inr_iff getMegaCacheEntry_def doMegaCacheBumpPointer_def
      update_mega_page_def mapped_mega_def Let_def dest!: getMegaMapEntry_mapped_after split: if_splits option.splits)

lemma mapped_lines_update:
  "mapped_lines q b c s \<Longrightarrow> update_mega_line d f s = Inr s' \<Longrightarrow> mapped_lines q b c s'"
  by (auto simp: mapped_lines_def mapped_mega_def update_mega_line_def split: if_splits)

lemma bindR_found: "bindR (bindR m (\<lambda>(c, s). Inr (f c s))) g = bindR m (\<lambda>(c, s). g (f c s))"
  by (cases m) auto

lemma next_mega_line_eq:
  assumes "before_mega_line pos l s"
  shows "next_mega_line pos s = bindR (find_line (l div 64) s)
    (\<lambda>(b, c, s). Inr ((l div 64 div 256, of_nat (l div 64), l mod 64, b + l div 64 mod 256, c + l mod 64), s))"
proof -
  obtain m p ci tp cur where pos: "pos = (m, p, ci, tp, cur)" by (cases pos) auto
  from assms obtain q b c where l: "1 \<le> ci" "ci \<le> 64" "l = 64 * q + ci" and map: "mapped_lines q b c s"
    and at: "m = q div 256" "p = of_nat q" "tp = b + q mod 256" "Suc cur = c + ci"
    by (auto simp: before_mega_line_def pos)
  show ?thesis
  proof (cases "ci = 64")
    case False
    with l have "l div 64 = q" "l mod 64 = ci" by auto
    with l at False find_line_mapped [OF map] show ?thesis
      by (simp add: next_mega_line_def pos NUM_CACHELINES_PER_PAGE_def)
  next
    case True
    with l have q: "l div 64 = Suc q" "l mod 64 = 0" by auto
    have p: "p + 1 = of_nat (Suc q)" using at(2) by simp
    show ?thesis
    proof (cases "Suc q mod 256 = 0")
      case True
      then have "Suc q div 256 = Suc m" "p + 1 = 0" using at(1) p page_index_wraps [of "Suc q"]
        by (simp_all add: mod_Suc div_Suc add.commute split: if_splits)
      with True \<open>ci = 64\<close> q p show ?thesis
        by (cases "getMegaMapEntry (Suc m) s")
           (auto simp: next_mega_line_def pos NUM_CACHELINES_PER_PAGE_def find_line_def Let_def bindR_found)
    next
      case False
      then have wrap: "p + 1 \<noteq> 0" unfolding p page_index_wraps .
      have m: "Suc q div 256 = m" "Suc tp = b + Suc q mod 256" using False at by (simp_all add: mod_Suc div_Suc split: if_splits)
      have "getMegaMapEntry m s = Inr (b, s)"
        using map at(1) by (simp add: mapped_lines_def getMegaMapEntry_mapped)
      with m wrap \<open>ci = 64\<close> q at(2) show ?thesis
        by (cases "getMegaCacheEntry (b + Suc q mod 256) s")
           (auto simp: add.commute next_mega_line_def pos NUM_CACHELINES_PER_PAGE_def find_line_def Let_def)
    qed
  qed
qed

lemma before_mega_line_next:
  assumes "find_line (l div 64) s = Inr (b, c, s')" and "update_mega_line d f s' = Inr s''"
  shows "before_mega_line (l div 64 div 256, of_nat (l div 64), Suc (l mod 64), b + l div 64 mod 256, c + l mod 64) (Suc l) s''"
proof -
  have "mapped_lines (l div 64) b c s''" by (rule mapped_lines_update [OF find_line_mapped_after [OF assms(1)] assms(2)])
  then show ?thesis unfolding before_mega_line_def
    by (simp only: prod.case, intro exI [of _ "l div 64"] exI [of _ b] exI [of _ c]) simp
qed

lemma mega_line_loop_eq:
  "before_mega_line pos (Suc i) s \<Longrightarrow>
    bindR (mega_line_loop isFree n pos s) (\<lambda>(rest, pos, s).
      if rest > 0 then bindR (next_mega_line pos s) (\<lambda>((_, _, _, _, cur), s). update_mega_line cur (part rest) s) else Inr s)
    = bindR (full_blocks 64 (mega_line_op (mega_line_full isFree)) n i s) (\<lambda>(rest, i, s).
      if rest > 0 then mega_line_op (part rest) (Suc i) s else Inr s)"
proof (induction n arbitrary: pos i s rule: less_induct)
  case (less n)
  note eq = next_mega_line_eq [OF less.prems]
  show ?case
  proof (cases "64 \<le> n")
    case True
    show ?thesis
    proof (cases "mega_line_op (mega_line_full isFree) (Suc i) s")
      case (Inl e)
      with True eq show ?thesis
        by (subst mega_line_loop.simps, subst full_blocks.simps)
           (auto simp: mega_line_op_def CACHELINE_SIZE_def bindR_Inl_iff split: sum.splits prod.splits)
    next
      case (Inr s2)
      then obtain b c s1 where g: "find_line (Suc i div 64) s = Inr (b, c, s1)"
          "update_mega_line (c + Suc i mod 64) (mega_line_full isFree) s1 = Inr s2"
        by (auto simp: mega_line_op_def bindR_Inr_iff)
      note following = before_mega_line_next [OF g]
      from less.IH [OF _ following, of "n - 64"] True eq g Inr show ?thesis
        by (subst mega_line_loop.simps, subst full_blocks.simps) (simp add: CACHELINE_SIZE_def)
    qed
  next
    case False
    with eq show ?thesis
      by (subst mega_line_loop.simps, subst full_blocks.simps)
         (cases "find_line (Suc i div 64) s", auto simp: mega_line_op_def CACHELINE_SIZE_def)
  qed
qed

lemma updateCacheLines_eq:
  assumes "p < 256" and "ci < 64" and l: "l = 64 * (256 * m + p) + ci"
  shows "updateCacheLines tid m (of_nat p) ci off n isFree
    = update_blocks 64 (\<lambda>l n. mega_line_op (updateCache tid isFree n) l) (mega_line_op (mega_line_full isFree))
        l off n"
proof (rule ext)
  fix s
  let ?f = "min (64 - off) n"
  have "l = ci + 64 * (256 * m + p)" using l by simp
  then have q: "l div 64 = 256 * m + p" "l mod 64 = ci"
    using assms(2) by (simp_all only: div_mult_self2 mod_mult_self2) simp_all
  have p: "(256 * m + p) div 256 = m" "(256 * m + p) mod 256 = p"
      "unat (of_nat p :: u8) = p"
    using assms by (simp_all add: unat_of_nat_small)
  show "updateCacheLines tid m (of_nat p) ci off n isFree s
      = update_blocks 64 (\<lambda>l n. mega_line_op (updateCache tid isFree n) l) (mega_line_op (mega_line_full isFree)) l off n s"
  proof (cases "mega_line_op (updateCache tid isFree ?f) l s")
    case (Inl e)
    then show ?thesis
      by (auto simp: updateCacheLines_def update_blocks_def mega_line_op_def find_line_def q p assms(1) CACHELINE_SIZE_def Let_def
          bindR_Inl_iff bindR_Inr_iff bindR_assoc split: sum.splits prod.splits)
  next
    case (Inr s2)
    then obtain b c s1 where g: "find_line (256 * m + p) s = Inr (b, c, s1)"
        "update_mega_line (c + ci) (updateCache tid isFree ?f) s1 = Inr s2"
      by (auto simp: mega_line_op_def q p assms(1) bindR_Inr_iff)
    then obtain s0 where g0: "getMegaMapEntry m s = Inr (b, s0)" "getMegaCacheEntry (b + p) s0 = Inr (c, s1)"
      by (auto simp: find_line_def q p assms(1) bindR_Inr_iff)
    have "(of_nat (256 * m + p) :: u8) = of_nat p"
      by (simp only: word_of_nat_eq_iff take_bit_eq_mod) simp
    then have "before_mega_line (m, of_nat p, Suc ci, b + p, c + ci) (Suc l) s2"
      using before_mega_line_next [of l s b c s1 "c + ci" "updateCache tid isFree ?f" s2] g by (simp add: q p assms(1))
    from mega_line_loop_eq [OF this, of isFree "n - ?f" "updateCache tid isFree"] g0 g(2) Inr show ?thesis
      by (simp add: updateCacheLines_def update_blocks_def CACHELINE_SIZE_def q p assms(1))
  qed
qed

end
