(* ===== verification/MegaMap_Objects.thy ===== *)
theory MegaMap_Objects
  imports MegaMap_Lines
begin

text \<open>
  Objects in the map by megabytes: the walk over the lines keeps exact counts, as the one over the pages does, so the
  whole of \<open>updateObject\<close> keeps every counter equal to the bytes of the objects alive.
\<close>

section \<open>Lines\<close>

definition lineless :: "nat set \<Rightarrow> MegaMap \<Rightarrow> nat set" where
  "lineless Q s = {q \<in> Q. mp_lines (page_at s q) = None}"

text \<open>What an update of the lines of the pages \<open>Q\<close> keeps: the pages' counters, and room for the blocks still missing.\<close>

definition mega_line_frame :: "nat set \<Rightarrow> MegaMap \<Rightarrow> MegaMap \<Rightarrow> bool" where
  "mega_line_frame Q s0 s \<longleftrightarrow> pages_wf s \<and> mega_lines_wf s \<and> used_touched s
    \<and> (\<forall>q. mp_used (page_at s q) = mp_used (page_at s0 q)) \<and> (\<forall>q. mega_touched s q = mega_touched s0 q)
    \<and> mg_page_bump s + 256 * card (blockless Q s) < MEGA_PAGE_ENTRIES
    \<and> mg_cache_bump s + 64 * card (lineless Q s) < MEGA_CACHE_ENTRIES"

lemma mega_line_block:
  assumes fr: "mega_line_frame Q s0 s" and q: "updatable Q q"
  shows "\<exists>b s'. getMegaMapEntry (q div 256) s = Inr (b, s') \<and> mapped_mega (q div 256) b s'
    \<and> mega_line_frame Q s0 s' \<and> line_at s' = line_at s"
proof -
  have "mega_frame True Q s (0, s)" using fr by (simp add: mega_line_frame_def mega_frame_def new_pages_def)
  then obtain b s' where b: "getMegaMapEntry (q div 256) s = Inr (b, s')" "mapped_mega (q div 256) b s'"
      "mega_frame True Q s (0, s')" "page_at s' = page_at s"
    using mega_block [of True Q s 0 s q] q by (auto simp: updatable_def)
  from b(3) have "pages_wf s'" "used_touched s'" "mega_lines_wf s \<longrightarrow> mega_lines_wf s'" "line_at s' = line_at s"
      "mg_cache_bump s' = mg_cache_bump s" "mg_page_bump s' + 256 * card (blockless Q s') < MEGA_PAGE_ENTRIES"
    by (simp_all add: mega_frame_def)
  with fr b show ?thesis by (auto simp: mega_line_frame_def lineless_def)
qed

lemma mapped_linesD:
  "mapped_lines q b c s \<Longrightarrow> mp_lines (page_at s q) = Some c"
  using page_at_mapped by (auto simp: mapped_lines_def)

lemma new_mega_lines:
  assumes fr: "mega_line_frame Q s0 s" and q: "updatable Q q" and m: "mapped_mega (q div 256) b s"
  shows "\<exists>c s'. getMegaCacheEntry (b + q mod 256) s = Inr (c, s') \<and> mega_line_frame Q s0 s' \<and> mapped_lines q b c s'
    \<and> line_at s' = line_at s"
proof -
  let ?i = "b + q mod 256" and ?c = "mg_cache_bump s"
  have wf: "pages_wf s" "mega_lines_wf s" using fr by (simp_all add: mega_line_frame_def)
  note i = page_entry_bound [OF wf(1) page_entry_mapped [OF m]]
  note at = page_at_mapped [OF m]
  show ?thesis
  proof (cases "mp_lines (mg_page_map s ?i)")
    case (Some c)
    with fr wf i m show ?thesis by (auto simp: getMegaCacheEntry_def mapped_lines_def pages_wf_def)
  next
    case None
    let ?s = "s\<lparr>mg_cache_bump := ?c + 64, mg_page_map := (mg_page_map s)(?i := (mg_page_map s ?i)\<lparr>mp_lines := Some ?c\<rparr>)\<rparr>"
    have fin: "finite (lineless Q s)" and q_in: "q \<in> lineless Q s" using q None at by (auto simp: lineless_def updatable_def)
    then have pos: "0 < card (lineless Q s)" by (auto simp: card_gt_0_iff)
    have room: "?c + 64 < MEGA_CACHE_ENTRIES" using pos fr by (simp add: mega_line_frame_def)
    have get: "getMegaCacheEntry ?i s = Inr (?c, ?s)"
      using None wf i room by (simp add: getMegaCacheEntry_def doMegaCacheBumpPointer_def update_mega_page_def
          Let_def pages_wf_def config)
    have entry: "page_entry ?s = page_entry s" by (simp add: page_entry_def fun_eq_iff)
    have pages: "page_at ?s = (page_at s)(q := (page_at s q)\<lparr>mp_lines := Some ?c\<rparr>)"
    proof (rule ext)
      fix q' show "page_at ?s q' = ((page_at s)(q := (page_at s q)\<lparr>mp_lines := Some ?c\<rparr>)) q'"
        using at page_entry_mapped [OF m] page_entry_inj [OF wf(1) page_entry_mapped [OF m], of q']
        by (auto simp: page_at_def entry split: option.splits)
    qed
    have zero: "mg_cache_map s (?c + j) = FSLine_zero" for j using wf(2) by (simp add: mega_lines_wf_def)
    have lines: "line_at ?s = line_at s"
    proof (rule ext)
      fix l show "line_at ?s l = line_at s l"
        using None at zero by (cases "l div 64 = q") (auto simp: line_at_def pages split: option.splits)
    qed
    have "mega_lines_wf ?s"
    proof -
      have "64 dvd c' \<and> c' < ?c + 64" "c' \<noteq> ?c" if "mp_lines (mg_page_map s j) = Some c'" for j c'
        using wf(2) that unfolding mega_lines_wf_def by fastforce+
      then show ?thesis using wf(2) room unfolding mega_lines_wf_def by (auto split: if_splits)
    qed
    moreover have "pages_wf ?s" using wf(1) i by (auto simp: pages_wf_def)
    moreover have "lineless Q ?s = lineless Q s - {q}" by (auto simp: lineless_def pages)
    then have "card (lineless Q ?s) = card (lineless Q s) - 1" using q_in fin by simp
    then have "mg_cache_bump ?s + 64 * card (lineless Q ?s) < MEGA_CACHE_ENTRIES"
      using fr pos by (cases "card (lineless Q s)") (auto simp: mega_line_frame_def)
    moreover have "blockless Q ?s = blockless Q s" by (simp add: blockless_def)
    ultimately have "mega_line_frame Q s0 ?s"
      using fr by (auto simp: mega_line_frame_def used_touched_def pages)
    moreover have "mapped_lines q b ?c ?s" using m i wf(1) by (simp add: mapped_lines_def mapped_mega_def pages_wf_def)
    ultimately show ?thesis using get lines by blast
  qed
qed

lemma update_mega_line_ok:
  assumes fr: "mega_line_frame Q s0 s" and m: "mapped_lines (l div 64) b c s"
  shows "\<exists>s'. update_mega_line (c + l mod 64) f s = Inr s' \<and> mega_line_frame Q s0 s'
    \<and> line_at s' = (line_at s)(l := f (line_at s l))"
proof -
  let ?d = "c + l mod 64" and ?q = "l div 64"
  have wf: "pages_wf s" "mega_lines_wf s" using fr by (simp_all add: mega_line_frame_def)
  note c = mapped_linesD [OF m]
  have own: "mp_lines (mg_page_map s (b + ?q mod 256)) = Some c" using m by (simp add: mapped_lines_def)
  then have "64 dvd c" "c < mg_cache_bump s" using wf(2) unfolding mega_lines_wf_def by blast+
  moreover have "64 dvd mg_cache_bump s" "mg_cache_bump s < MEGA_CACHE_ENTRIES" using wf(2) by (simp_all add: mega_lines_wf_def)
  ultimately have d: "?d < mg_cache_bump s" "?d < MEGA_CACHE_ENTRIES" using block_entry [of 64 c "mg_cache_bump s" "l mod 64"] by auto
  let ?s = "s\<lparr>mg_cache_map := (mg_cache_map s)(?d := f (mg_cache_map s ?d))\<rparr>"
  have upd: "update_mega_line ?d f s = Inr ?s" using d wf(2) by (simp add: update_mega_line_def mega_lines_wf_def)
  have entry: "page_entry ?s = page_entry s" by (simp add: page_entry_def fun_eq_iff)
  have pages: "page_at ?s = page_at s" by (rule ext) (simp add: page_at_def entry split: option.split)
  have "line_at ?s = (line_at s)(l := f (line_at s l))"
  proof (rule ext)
    fix l' show "line_at ?s l' = ((line_at s)(l := f (line_at s l))) l'"
    proof (cases "mp_lines (page_at s (l' div 64))")
      case None
      with c show ?thesis by (auto simp: line_at_def pages)
    next
      case (Some c')
      show ?thesis
      proof (cases "c' + l' mod 64 = ?d")
        case True
        obtain i' where i': "page_entry s (l' div 64) = Some i'" "mp_lines (mg_page_map s i') = Some c'"
          using Some by (auto simp: page_at_def MegaPage_zero_def split: option.splits)
        then have "64 dvd c'" using wf(2) unfolding mega_lines_wf_def by blast
        with block_unique [of 64 c' c "l' mod 64" "l mod 64"] \<open>64 dvd c\<close> True have eq: "c' = c" "l' mod 64 = l mod 64" by auto
        then have "i' = b + ?q mod 256" using i'(2) own wf(2) unfolding mega_lines_wf_def by blast
        moreover have "page_entry s ?q = Some (b + ?q mod 256)"
          using m by (simp add: mapped_lines_def page_entry_mapped)
        ultimately have "l' div 64 = ?q" using page_entry_inj [OF wf(1)] i'(1) by blast
        with eq have "l' = l" by (metis div_mult_mod_eq)
        then show ?thesis using c by (simp add: line_at_def pages)
      next
        case False
        with Some c have "l' \<noteq> l" by auto
        with Some False show ?thesis by (simp add: line_at_def pages)
      qed
    qed
  qed
  moreover have "pages_wf ?s" using wf(1) by (simp add: pages_wf_def)
  moreover have "mega_lines_wf ?s" using wf(2) d by (auto simp: mega_lines_wf_def)
  ultimately show ?thesis
    using fr upd by (auto simp: mega_line_frame_def used_touched_def blockless_def lineless_def pages)
qed

lemma mega_line_op_ok:
  assumes "mega_line_frame Q s0 s" and "updatable Q (l div 64)"
  shows "\<exists>s'. mega_line_op f l s = Inr s' \<and> mega_line_frame Q s0 s'
    \<and> mega_line_used s' = (mega_line_used s)(l := sint (fsl_used (f (line_at s l))))"
proof -
  obtain b s1 where 1: "getMegaMapEntry (l div 64 div 256) s = Inr (b, s1)" "mapped_mega (l div 64 div 256) b s1"
      "mega_line_frame Q s0 s1" "line_at s1 = line_at s"
    using mega_line_block [OF assms] by blast
  obtain c s2 where 2: "getMegaCacheEntry (b + l div 64 mod 256) s1 = Inr (c, s2)" "mega_line_frame Q s0 s2"
      "mapped_lines (l div 64) b c s2" "line_at s2 = line_at s1"
    using new_mega_lines [OF 1(3) assms(2) 1(2)] by blast
  obtain s3 where 3: "update_mega_line (c + l mod 64) f s2 = Inr s3" "mega_line_frame Q s0 s3"
      "line_at s3 = (line_at s2)(l := f (line_at s2 l))"
    using update_mega_line_ok [OF 2(2,3)] by blast
  with 1(1) 2(1) show ?thesis by (auto simp: mega_line_op_def find_line_def 1(4) 2(4))
qed

lemma updateCache_used: "fsl_used (updateCache tid isFree n e) =
    (if isFree then fsl_used e - of_nat n else fsl_used e + of_nat n)"
  by (simp add: updateCache_def Let_def FSLine_addUsedBytes_def FSLine_subUsedBytes_def setFS_def)

lemma mega_line_counts:
  "block_counts 64 (if isFree then -1 else 1) mega_line_used
    (\<lambda>l n. mega_line_op (updateCache tid isFree n) l) (mega_line_op (mega_line_full isFree))
    (\<lambda>l. updatable Q (l div 64)) (mega_line_frame Q s0)"
proof
  let ?sg = "if isFree then -1 else 1 :: int"
  show "(0 :: nat) < 64" "?sg = 1 \<or> ?sg = -1" by simp_all
  fix s l b
  assume s: "mega_line_frame Q s0 s" "updatable Q (l div 64)"
  note ok = mega_line_op_ok [OF s]
  show "\<exists>s'. mega_line_op (mega_line_full isFree) l s = Inr s' \<and> mega_line_frame Q s0 s'
      \<and> mega_line_used s' = (mega_line_used s)(l := if ?sg = 1 then int 64 else 0)"
    using ok [of "mega_line_full isFree"]
    by (cases isFree) (simp_all add: mega_line_full_def FSLine_setEmpty_def FSLine_setFull_def CACHELINE_SIZE_def)
  assume "b \<le> 64" "0 \<le> mega_line_used s l" "mega_line_used s l \<le> int 64"
    "0 \<le> mega_line_used s l + ?sg * int b" "mega_line_used s l + ?sg * int b \<le> int 64"
  then have "sint (fsl_used (updateCache tid isFree b (line_at s l))) = mega_line_used s l + ?sg * int b"
    using sint_add_small [of "fsl_used (line_at s l)" ?sg b] by (auto simp: updateCache_used)
  with ok [of "updateCache tid isFree b"]
  show "\<exists>s'. mega_line_op (updateCache tid isFree b) l s = Inr s' \<and> mega_line_frame Q s0 s'
      \<and> mega_line_used s' = (mega_line_used s)(l := mega_line_used s l + ?sg * int b)" by simp
qed

interpretation mega_line_malloc: block_counts 64 1 mega_line_used
  "\<lambda>l n. mega_line_op (updateCache tid False n) l" "mega_line_op (mega_line_full False)"
  "\<lambda>l. updatable Q (l div 64)" "mega_line_frame Q s0" for tid Q s0
  using mega_line_counts [of False tid Q s0] by simp

interpretation mega_line_free: block_counts 64 "-1" mega_line_used
  "\<lambda>l n. mega_line_op (updateCache tid True n) l" "mega_line_op (mega_line_full True)"
  "\<lambda>l. updatable Q (l div 64)" "mega_line_frame Q s0" for tid Q s0
  using mega_line_counts [of True tid Q s0] by simp

section \<open>Objects\<close>

text \<open>The map accounts for the live objects, given by address and size.\<close>

definition mega_accounted :: "(nat \<times> nat) list \<Rightarrow> MegaMap \<Rightarrow> bool" where
  "mega_accounted L s \<longleftrightarrow> pages_wf s \<and> mega_lines_wf s \<and> used_touched s \<and> disjoint_ranges L
    \<and> mega_used s = (\<lambda>q. int (bytes_in 4096 L q)) \<and> mega_line_used s = (\<lambda>l. int (bytes_in 64 L l))"

definition untouched :: "nat set \<Rightarrow> MegaMap \<Rightarrow> nat set" where
  "untouched Q s = {q \<in> Q. \<not> mega_touched s q}"

lemma line_parts:
  "(64 * (256 * mega_index_of addr + page_index_of addr) + unat (drop_bit 6 (addr AND 0xfff))) * 64 + unat (addr AND 63)
    = unat (addr :: u64)"
  "unat (drop_bit 6 (addr AND 0xfff)) < 64" "unat (addr AND 63) < 64"
proof -
  have masks: "(0xfff :: u64) = mask 12" "(63 :: u64) = mask 6" by (simp_all add: mask_eq_exp_minus_1)
  have x: "unat (addr AND 0xfff) = unat addr mod 4096" by (simp only: masks unat_and_mask) simp
  have l: "unat (drop_bit 6 (addr AND 0xfff)) = unat addr mod 4096 div 64" by (simp only: unat_drop_bit x) simp
  have o: "unat (addr AND 63) = unat addr mod 64" by (simp only: masks unat_and_mask) simp
  show "unat (drop_bit 6 (addr AND 0xfff)) < 64" "unat (addr AND 63) < 64"
    unfolding l o by (simp_all add: div_less_iff_less_mult)
  have "unat addr mod (64 * 64) = 64 * (unat addr div 64 mod 64) + unat addr mod 64" by (rule mod_mult2_eq)
  then have "unat addr mod 4096 = 64 * (unat addr mod 4096 div 64) + unat addr mod 64" by simp
  with address_parts(1) [of addr]
  show "(64 * (256 * mega_index_of addr + page_index_of addr) + unat (drop_bit 6 (addr AND 0xfff))) * 64 + unat (addr AND 63)
      = unat addr" unfolding l o x by (simp add: algebra_simps)
qed

text \<open>An object's update: \<open>L'\<close> are the objects alive afterwards.\<close>

lemma updateObject_accounted:
  fixes addr :: u64 and sz :: u32
  defines "a \<equiv> unat addr" and "n \<equiv> unat sz"
  defines "Q \<equiv> object_pages a n"
  assumes acc: "mega_accounted L s" and nz: "addr \<noteq> 0" "sz \<noteq> 0"
    and Q: "\<forall>q \<in> Q. q div 256 < NUM_MEGABYTE_MAP_ENTRIES"
      "mg_page_bump s + 256 * card (blockless Q s) < MEGA_PAGE_ENTRIES"
      "mg_cache_bump s + 64 * card (lineless Q s) < MEGA_CACHE_ENTRIES"
    and L': "disjoint_ranges L'"
      "\<And>B q. int (bytes_in B L' q) = int (bytes_in B L q) + (if isFree then -1 else 1) * int (overlap B a n q)"
  shows "\<exists>s'. updateObject tid addr sz isFree s
      = Inr (of_nat (4096 * card (if isFree then {} else untouched Q s)), s')
    \<and> mega_accounted L' s' \<and> (\<forall>q. mega_touched s' q \<longleftrightarrow> mega_touched s q \<or> \<not> isFree \<and> q \<in> Q)"
proof -
  let ?sg = "if isFree then -1 else 1 :: int"
  note A = acc [unfolded mega_accounted_def]
  have U: "mega_used s q = int (bytes_in 4096 L q)" "mega_line_used s l = int (bytes_in 64 L l)" for q l
    using A by (simp_all add: fun_eq_iff)
  have n: "0 < n" using nz(2) by (simp add: n_def unat_gt_0)
  have bound: "0 \<le> int (bytes_in B L q) \<and> int (bytes_in B L q) \<le> int B
      \<and> 0 \<le> int (bytes_in B L q) + ?sg * int (overlap B a n q) \<and> int (bytes_in B L q) + ?sg * int (overlap B a n q) \<le> int B" for B q
    unfolding L'(2) [symmetric] using bytes_in_le [of L B q] bytes_in_le [OF L'(1), of B q] A by simp
  have fits: "\<forall>q. 0 \<le> mega_used s q \<and> mega_used s q \<le> 4096 \<and> 0 \<le> mega_used s q + ?sg * int (overlap 4096 a n q)
      \<and> mega_used s q + ?sg * int (overlap 4096 a n q) \<le> 4096"
    using bound [of 4096] by (simp add: U)
  obtain k s1 where 1: "updatePages addr (mega_index_of addr) (of_nat (page_index_of addr)) n isFree s = Inr (k, s1)"
      "mega_frame isFree Q s (k, s1)" "mega_used s1 = (\<lambda>q. mega_used s q + ?sg * int (overlap 4096 a n q))"
    using updatePages_exact [of s n addr isFree, folded a_def, folded Q_def] A n Q fits by blast
  from 1(2) have fr1: "pages_wf s1" "used_touched s1" "mega_lines_wf s1" "line_at s1 = line_at s" "mg_cache_bump s1 = mg_cache_bump s"
      "\<forall>q. mp_lines (page_at s1 q) = mp_lines (page_at s q)" "\<forall>q. mega_touched s q \<longrightarrow> mega_touched s1 q"
      "new_pages s s1 \<subseteq> (if isFree then {} else Q)" "k = of_nat (card (new_pages s s1))"
      "mg_page_bump s1 + 256 * card (blockless Q s1) < MEGA_PAGE_ENTRIES"
    using A by (simp_all add: mega_frame_def)
  have used1: "mega_used s1 = (\<lambda>q. int (bytes_in 4096 L' q))" unfolding 1(3) L'(2) U ..
  have "mega_touched s1 q" if "\<not> isFree" "q \<in> Q" for q
  proof -
    have "0 < overlap 4096 a n q" using page_overlaps that(2) n by (simp add: Q_def)
    then have "0 < mega_used s1 q" using that(1) fun_cong [OF used1, of q] by (simp add: L'(2))
    with fr1(2) show ?thesis unfolding used_touched_def by blast
  qed
  then have new: "new_pages s s1 = (if isFree then {} else untouched Q s)"
    using fr1(8) by (auto simp: new_pages_def untouched_def split: if_splits)
  have touched: "mega_touched s1 q \<longleftrightarrow> mega_touched s q \<or> \<not> isFree \<and> q \<in> Q" for q
    using new fr1(7) by (auto simp: new_pages_def untouched_def split: if_splits)
  have fr: "mega_line_frame Q s1 s1"
    using fr1 Q(3) by (simp add: mega_line_frame_def lineless_def)
  have upd: "0 < overlap 64 a n l \<Longrightarrow> updatable Q (l div 64)" for l
    using overlap_line_page Q(1) by (simp add: updatable_def Q_def)
  have lfits: "\<forall>l. 0 \<le> mega_line_used s1 l \<and> mega_line_used s1 l \<le> int 64 \<and> 0 \<le> mega_line_used s1 l + ?sg * int (overlap 64 a n l)
      \<and> mega_line_used s1 l + ?sg * int (overlap 64 a n l) \<le> int 64 \<and> (0 < overlap 64 a n l \<longrightarrow> updatable Q (l div 64))"
    using bound [of 64] upd by (simp add: fr1(4) U)
  note parts = address_parts(2) [of addr] line_parts [of addr, folded a_def]
  let ?l = "64 * (256 * mega_index_of addr + page_index_of addr) + unat (drop_bit 6 (addr AND 0xfff))"
  obtain s2 where 2: "update_blocks 64 (\<lambda>l n. mega_line_op (updateCache tid isFree n) l) (mega_line_op (mega_line_full isFree))
        ?l (unat (addr AND 63)) n s1 = Inr s2"
      "mega_line_frame Q s1 s2" "mega_line_used s2 = (\<lambda>l. mega_line_used s1 l + ?sg * int (overlap 64 a n l))"
    using block_counts.update_blocks_exact [OF mega_line_counts fr parts(4) n, of isFree ?l tid] lfits unfolding parts(2)
    by blast
  from 2(2) have fr2: "pages_wf s2" "mega_lines_wf s2" "used_touched s2" "mega_used s2 = mega_used s1"
      "\<forall>q. mega_touched s2 q = mega_touched s1 q"
    by (simp_all add: mega_line_frame_def)
  have "a div 4096 \<in> Q" using n by (auto simp: Q_def object_pages_def intro: div_le_mono)
  moreover have "a div 4096 = 256 * mega_index_of addr + page_index_of addr"
    using address_parts(1,3) [of addr] by (simp add: a_def)
  then have "a div 4096 div 256 = mega_index_of addr" using parts(1) by simp
  ultimately have "mega_index_of addr < NUM_MEGABYTE_MAP_ENTRIES" using Q(1) by fastforce
  then have "check_mega_index addr = Inr (mega_index_of addr)" by (simp add: check_mega_index_def)
  then have "updateObject tid addr sz isFree s = Inr (k * of_nat PAGESIZE, s2)"
    using nz 1(1) 2(1) updateCacheLines_eq [OF parts(1,3) refl, of tid "mega_index_of addr" "unat (addr AND 63)" n isFree]
    by (simp add: updateObject_def Let_def n_def)
  moreover have "k * of_nat PAGESIZE = of_nat (4096 * card (if isFree then {} else untouched Q s))"
    unfolding fr1(9) new PAGESIZE_def by simp
  moreover have "mega_line_used s2 = (\<lambda>l. int (bytes_in 64 L' l))" unfolding 2(3) L'(2) fr1(4) U ..
  then have "mega_accounted L' s2" using fr2 L'(1) used1 by (simp add: mega_accounted_def)
  ultimately show ?thesis using touched fr2(5) by auto
qed

text \<open>Pages of addresses below \<open>2 ^ 47\<close> are within the megabyte map; the pages and lines of live objects have entries.\<close>

lemma object_megas: "a + n \<le> 2 ^ 47 \<Longrightarrow> \<forall>q \<in> object_pages a n. q div 256 < NUM_MEGABYTE_MAP_ENTRIES"
proof
  fix q assume "a + n \<le> 2 ^ 47" "q \<in> object_pages a n"
  then have "q \<le> (a + n - 1) div 4096" "a + n - 1 < 4096 * 256 * 134217728 \<or> n = 0 \<and> a = 0" by (auto simp: object_pages_def)
  then have "q < 256 * 134217728" by auto
  then show "q div 256 < NUM_MEGABYTE_MAP_ENTRIES" by (simp add: config div_less_iff_less_mult)
qed

lemma bytes_of_member: "x \<in> set L \<Longrightarrow> overlap B (fst x) (snd x) q \<le> bytes_in B L q"
  using bytes_in_remove1 [of x L B q] by linarith

lemma live_entries:
  assumes acc: "mega_accounted L s" and mem: "(a, n) \<in> set L" and n: "0 < n"
  shows "blockless (object_pages a n) s = {}" "lineless (object_pages a n) s = {}"
proof -
  have U: "mega_used s q = int (bytes_in 4096 L q)" "mega_line_used s l = int (bytes_in 64 L l)" for q l
    using acc by (simp_all add: mega_accounted_def fun_eq_iff)
  have "mg_mega_map s (q div 256) \<noteq> None \<and> mp_lines (page_at s q) \<noteq> None" if q: "q \<in> object_pages a n" for q
  proof
    have ov: "0 < overlap 4096 a n q" by (rule page_overlaps [OF q n])
    then have "0 < mega_used s q" using bytes_of_member [OF mem, of 4096 q] by (simp add: U)
    then show "mg_mega_map s (q div 256) \<noteq> None"
      by (cases "mg_mega_map s (q div 256)") (simp_all add: page_at_def page_entry_def MegaPage_zero_def)
    let ?x = "max a (q * 4096)"
    have x: "a \<le> ?x" "?x < a + n" "q * 4096 \<le> ?x" "?x < q * 4096 + 4096" using ov by (auto simp: overlap_def)
    then have "?x div (64 * 64) = q" by (intro div_nat_eqI) auto
    then have l: "?x div 64 div 64 = q" by (simp only: div_mult2_eq)
    have "0 < overlap 64 a n (?x div 64)"
    proof -
      have "?x div 64 * 64 \<le> ?x" "?x < ?x div 64 * 64 + 64" by simp_all linarith
      with x show ?thesis by (auto simp: overlap_def)
    qed
    then have "0 < mega_line_used s (?x div 64)" using bytes_of_member [OF mem, of 64 "?x div 64"] by (simp add: U)
    then show "mp_lines (page_at s q) \<noteq> None"
      by (cases "mp_lines (page_at s q)") (simp_all add: line_at_def l FSLine_zero_def)
  qed
  then show "blockless (object_pages a n) s = {}" "lineless (object_pages a n) s = {}"
    by (auto simp: blockless_def lineless_def)
qed

text \<open>
  C21: allocation of an object in the map by megabytes. While the objects alive are disjoint and the blocks last,
  \<open>updateObject\<close> adds to every page and every cache line the bytes the object has in it, whichever megabytes
  and blocks it spans, and returns 4096 for each of its pages that had not been touched before.
\<close>

theorem mega_malloc_exact:
  assumes "mega_accounted L s" and "addr \<noteq> 0" and "sz \<noteq> 0"
    and "disjoint_ranges ((unat addr, unat sz) # L)" and "unat addr + unat sz \<le> 2 ^ 47"
    and "mg_page_bump s + 256 * card (blockless (object_pages (unat addr) (unat sz)) s) < MEGA_PAGE_ENTRIES"
    and "mg_cache_bump s + 64 * card (lineless (object_pages (unat addr) (unat sz)) s) < MEGA_CACHE_ENTRIES"
  shows "\<exists>s'. updateObject tid addr sz False s
      = Inr (of_nat (4096 * card (untouched (object_pages (unat addr) (unat sz)) s)), s')
    \<and> mega_accounted ((unat addr, unat sz) # L) s'
    \<and> (\<forall>q. mega_touched s' q \<longleftrightarrow> mega_touched s q \<or> q \<in> object_pages (unat addr) (unat sz))"
proof -
  have "int (bytes_in B ((unat addr, unat sz) # L) q) = int (bytes_in B L q) + 1 * int (overlap B (unat addr) (unat sz) q)" for B q
    by (simp add: bytes_in_def)
  from updateObject_accounted [OF assms(1-3) object_megas [OF assms(5)] assms(6,7,4), of False tid] this show ?thesis by simp
qed

text \<open>The map as it is initialized.\<close>

definition fresh_mega :: MegaMap where
  "fresh_mega = \<lparr>mg_isInitialized = True, mg_mega_mapped = True, mg_mega_map = (\<lambda>_. None), mg_page_map = (\<lambda>_. MegaPage_zero),
    mg_page_bump = 0, mg_cache_mapped = True, mg_cache_map = (\<lambda>_. FSLine_zero), mg_cache_bump = 0\<rparr>"

lemma fresh_mega_initialized: "\<not> mg_isInitialized s \<Longrightarrow> MegaMap_initialize True True True s = Inr (True, fresh_mega)"
  by (simp add: MegaMap_initialize_def fresh_mega_def)

lemma fresh_mega_accounted: "mega_accounted [] fresh_mega"
proof -
  have p: "page_at fresh_mega q = MegaPage_zero" for q by (simp add: page_at_def page_entry_def fresh_mega_def)
  moreover have "line_at fresh_mega l = FSLine_zero" for l by (simp add: line_at_def p MegaPage_zero_def)
  ultimately show ?thesis
    by (simp add: mega_accounted_def pages_wf_def mega_lines_wf_def used_touched_def disjoint_ranges_def bytes_in_def
        fun_eq_iff MegaPage_zero_def FSLine_zero_def) (simp add: fresh_mega_def MegaPage_zero_def FSLine_zero_def config)
qed

lemma rooms_card: "finite Q \<Longrightarrow> card (blockless Q s) \<le> card Q" "finite Q \<Longrightarrow> card (lineless Q s) \<le> card Q"
proof -
  assume Q: "finite Q"
  have "card (blockless Q s) \<le> card ((\<lambda>q. q div 256) ` Q)" using Q by (intro card_mono) (auto simp: blockless_def)
  also have "\<dots> \<le> card Q" using Q by (rule card_image_le)
  finally show "card (blockless Q s) \<le> card Q" .
  show "card (lineless Q s) \<le> card Q" using Q by (intro card_mono) (auto simp: lineless_def)
qed

text \<open>An object across a page border.\<close>

lemma sample_pages: "object_pages 0x556000000fa0 200 = {22917677056, 22917677057}"
  by (auto simp: object_pages_def)

lemma fresh_mega_rooms:
  "card (blockless (object_pages 0x556000000fa0 200) fresh_mega) \<le> 2"
  "card (lineless (object_pages 0x556000000fa0 200) fresh_mega) \<le> 2"
  "card (untouched (object_pages 0x556000000fa0 200) fresh_mega) = 2"
proof -
  show "card (blockless (object_pages 0x556000000fa0 200) fresh_mega) \<le> 2"
    "card (lineless (object_pages 0x556000000fa0 200) fresh_mega) \<le> 2"
    using rooms_card [of "object_pages 0x556000000fa0 200" fresh_mega] by (simp_all add: sample_pages)
  have "untouched Q fresh_mega = Q" for Q
    by (simp add: untouched_def page_at_def page_entry_def fresh_mega_def MegaPage_zero_def)
  then show "card (untouched (object_pages 0x556000000fa0 200) fresh_mega) = 2" by (simp add: sample_pages)
qed

theorem mega_malloc_exact_witness:
  "\<exists>s'. updateObject 3 0x556000000fa0 200 False fresh_mega = Inr (8192, s') \<and> mega_accounted [(0x556000000fa0, 200)] s'"
  using mega_malloc_exact [OF fresh_mega_accounted, of "0x556000000fa0" 200 3] fresh_mega_rooms
  by (auto simp: disjoint_ranges_def fresh_mega_def MEGA_PAGE_ENTRIES_def MEGA_CACHE_ENTRIES_def)

lemma updateObject_freed:
  assumes "mega_accounted L s" and "addr \<noteq> 0" and "sz \<noteq> 0"
    and "(unat addr, unat sz) \<in> set L" and "unat addr + unat sz \<le> 2 ^ 47"
  shows "\<exists>s'. updateObject tid addr sz True s = Inr (0, s')
    \<and> mega_accounted (remove1 (unat addr, unat sz) L) s' \<and> (\<forall>q. mega_touched s' q = mega_touched s q)"
proof -
  have A: "disjoint_ranges L" "mg_page_bump s < MEGA_PAGE_ENTRIES" "mg_cache_bump s < MEGA_CACHE_ENTRIES"
    using assms(1) by (simp_all add: mega_accounted_def pages_wf_def mega_lines_wf_def)
  have n: "0 < unat sz" using assms(3) by (simp add: unat_gt_0)
  note none = live_entries [OF assms(1,4) n]
  have bytes: "int (bytes_in B (remove1 (unat addr, unat sz) L) q)
      = int (bytes_in B L q) + -1 * int (overlap B (unat addr) (unat sz) q)" for B q
    using bytes_in_remove1 [OF assms(4), of B q] by simp
  from updateObject_accounted [OF assms(1-3) object_megas [OF assms(5)] _ _ disjoint_ranges_remove1 [OF A(1)], of _ True tid]
    bytes A show ?thesis by (simp add: none)
qed

text \<open>
  C19: freeing an object in the map by megabytes. With the size it was allocated with, \<open>updateObject\<close> takes the
  object's bytes from every page and every line, touches no page and returns zero; it needs no new block.
\<close>

theorem mega_free_exact:
  assumes "mega_accounted L s" and "addr \<noteq> 0" and "sz \<noteq> 0"
    and "(unat addr, unat sz) \<in> set L" and "unat addr + unat sz \<le> 2 ^ 47"
  shows "\<exists>s'. updateObject tid addr sz True s = Inr (0, s')
    \<and> mega_accounted (remove1 (unat addr, unat sz) L) s' \<and> (\<forall>q. mega_touched s' q = mega_touched s q)"
  by (rule updateObject_freed [OF assms])

theorem mega_free_exact_witness:
  "\<exists>s s'. mega_accounted [(0x556000000fa0, 200)] s \<and> updateObject 5 0x556000000fa0 200 True s = Inr (0, s') \<and> mega_accounted [] s'"
proof -
  have new: "int (bytes_in B [(0x556000000fa0, 200)] q) = int (bytes_in B [] q) + 1 * int (overlap B 0x556000000fa0 200 q)" for B q
    by (simp add: bytes_in_def)
  obtain s where s: "mega_accounted [(0x556000000fa0, 200)] s"
    using updateObject_accounted [OF fresh_mega_accounted, of "0x556000000fa0" 200 "[(0x556000000fa0, 200)]" False 3]
      object_megas [of "0x556000000fa0" 200] fresh_mega_rooms new
    by (auto simp: disjoint_ranges_def fresh_mega_def MEGA_PAGE_ENTRIES_def MEGA_CACHE_ENTRIES_def)
  then show ?thesis using mega_free_exact [OF s, of "0x556000000fa0" 200 5] by auto
qed

end
