(* ===== verification/MegaMap_Cleanup.thy ===== *)
theory MegaMap_Cleanup
  imports MegaMap_Objects
begin

text \<open>
  Pages given back in the map by megabytes: \<open>cleanupPages\<close> walks the entries of the page map, not the pages of the
  address space. Within a megabyte that is the same.
\<close>

section \<open>The entries that are cleared\<close>

definition cleared_entry :: "MegaPage \<Rightarrow> MegaPage" where
  "cleared_entry e = (if mp_touched e then e\<lparr>mp_touched := False, mp_used := 0\<rparr> else e)"

text \<open>The touched entries of \<open>I\<close> are cleared, with their lines.\<close>

definition lines_of :: "nat set \<Rightarrow> MegaMap \<Rightarrow> nat set" where
  "lines_of I s = {d. \<exists>i \<in> I. mp_touched (mg_page_map s i) \<and> (\<exists>c. mp_lines (mg_page_map s i) = Some c \<and> c \<le> d \<and> d < c + 64)}"

definition clear_entries :: "nat set \<Rightarrow> MegaMap \<Rightarrow> MegaMap" where
  "clear_entries I s = s\<lparr>mg_page_map := \<lambda>i. if i \<in> I then cleared_entry (mg_page_map s i) else mg_page_map s i,
    mg_cache_map := \<lambda>d. if d \<in> lines_of I s then FSLine_zero else mg_cache_map s d\<rparr>"

lemma clear_entries_fields [simp]:
  "mg_isInitialized (clear_entries I s) = mg_isInitialized s" "mg_mega_mapped (clear_entries I s) = mg_mega_mapped s"
  "mg_mega_map (clear_entries I s) = mg_mega_map s" "mg_cache_mapped (clear_entries I s) = mg_cache_mapped s"
  "mg_page_bump (clear_entries I s) = mg_page_bump s" "mg_cache_bump (clear_entries I s) = mg_cache_bump s"
  "mp_lines (mg_page_map (clear_entries I s) i) = mp_lines (mg_page_map s i)"
  by (simp_all add: clear_entries_def cleared_entry_def)

lemma clear_entries_empty: "clear_entries {} s = s"
  by (simp add: clear_entries_def lines_of_def)

lemma clear_entries_insert:
  assumes "i \<notin> I"
  shows "clear_entries I (clear_entries {i} s) = clear_entries (insert i I) s"
proof -
  have "mg_page_map (clear_entries {i} s) j = mg_page_map s j" if "j \<in> I" for j
    using that assms by (auto simp: clear_entries_def)
  then have "lines_of I (clear_entries {i} s) = lines_of I s" by (simp add: lines_of_def)
  moreover have "lines_of (insert i I) s = lines_of {i} s \<union> lines_of I s" by (auto simp: lines_of_def)
  ultimately show ?thesis using assms by (auto simp: clear_entries_def fun_eq_iff)
qed

lemma clear_entries_wf: "mega_lines_wf s \<Longrightarrow> mega_lines_wf (clear_entries I s)"
  by (auto simp: mega_lines_wf_def) (auto simp: clear_entries_def)

lemma clear_entries_pages_wf: "pages_wf s \<Longrightarrow> pages_wf (clear_entries I s)"
  unfolding pages_wf_def by (simp add: clear_entries_def cleared_entry_def) (simp add: MegaPage_zero_def)

lemma MegaPage_clear_eq:
  assumes "mg_isInitialized s" "mega_lines_wf s" "i < MEGA_PAGE_ENTRIES" "mp_touched (mg_page_map s i)"
  shows "MegaPage_clear i s = Inr (clear_entries {i} s)"
proof (cases "mp_lines (mg_page_map s i)")
  case None
  then have "lines_of {i} s = {}" by (auto simp: lines_of_def)
  with None assms show ?thesis
    by (auto simp: MegaPage_clear_def update_mega_page_def clear_entries_def cleared_entry_def fun_eq_iff)
next
  case (Some c)
  then have "64 dvd c" "c < mg_cache_bump s" using assms(2) unfolding mega_lines_wf_def by blast+
  with block_entry [of 64 c "mg_cache_bump s" 63] assms(2) have "c + 64 \<le> MEGA_CACHE_ENTRIES" by (simp add: mega_lines_wf_def)
  moreover have "lines_of {i} s = {d. c \<le> d \<and> d < c + 64}" using Some assms(4) by (auto simp: lines_of_def)
  ultimately show ?thesis
    using Some assms by (auto simp: MegaPage_clear_def update_mega_page_def clear_entries_def cleared_entry_def
        NUM_CACHELINES_PER_PAGE_def fun_eq_iff mega_lines_wf_def)
qed

definition touched_entries :: "nat set \<Rightarrow> MegaMap \<Rightarrow> nat" where
  "touched_entries I s = card {i \<in> I. mp_touched (mg_page_map s i)}"

lemma cleanup_loop_eq:
  "mg_isInitialized s \<Longrightarrow> mega_lines_wf s \<Longrightarrow> i + n \<le> MEGA_PAGE_ENTRIES \<Longrightarrow> unat p + n < 2 ^ 32 \<Longrightarrow>
    cleanup_loop n m p i k s = Inr (k + of_nat (touched_entries {i..<i + n} s), clear_entries {i..<i + n} s)"
proof (induction n arbitrary: p i k s)
  case 0
  then show ?case by (simp add: clear_entries_empty touched_entries_def)
next
  case (Suc n)
  have "unat p + unat (1 :: u32) < 2 ^ LENGTH(32)" using Suc.prems(4) by simp
  then have p: "unat (p + 1) = Suc (unat p)" by (subst (asm) unat_add_lem) simp
  then have nz: "p + 1 \<noteq> 0" by auto
  let ?I = "{Suc i..<Suc i + n}"
  have I: "{i..<i + Suc n} = insert i ?I" by auto
  show ?case
  proof (cases "mp_touched (mg_page_map s i)")
    case True
    let ?s = "clear_entries {i} s"
    have "mg_page_map ?s j = mg_page_map s j" if "j \<in> ?I" for j using that by (simp add: clear_entries_def)
    then have "touched_entries ?I ?s = touched_entries ?I s" by (simp add: touched_entries_def cong: conj_cong)
    moreover have "{j \<in> {i..<i + Suc n}. mp_touched (mg_page_map s j)} = insert i {j \<in> ?I. mp_touched (mg_page_map s j)}"
      using True by auto
    then have "touched_entries {i..<i + Suc n} s = Suc (touched_entries ?I s)" by (simp add: touched_entries_def)
    ultimately show ?thesis
      using Suc.IH [of ?s "Suc i" "p + 1" "k + 1"] Suc.prems True nz p MegaPage_clear_eq [of s i] clear_entries_wf
        clear_entries_insert [of i ?I s] unfolding I by (simp add: Let_def)
  next
    case False
    then have "{j \<in> {i..<i + Suc n}. mp_touched (mg_page_map s j)} = {j \<in> ?I. mp_touched (mg_page_map s j)}"
      by (auto simp: le_less Suc_le_eq)
    then have "touched_entries {i..<i + Suc n} s = touched_entries ?I s" by (simp add: touched_entries_def)
    moreover have "clear_entries {i} s = s"
      using False by (auto simp: clear_entries_def cleared_entry_def lines_of_def fun_eq_iff intro: MegaMap.equality)
    ultimately show ?thesis
      using Suc.IH [of s "Suc i" "p + 1" k] Suc.prems False nz p clear_entries_insert [of i ?I s]
      unfolding I by (simp add: Let_def)
  qed
qed

lemma mega_cleanupPages_eq:
  assumes "pages_wf s" "mega_lines_wf s" and m: "mapped_mega (mega_index_of addr) b s"
    and n: "n = unat (alignup len 4096) div 4096" "b + page_index_of addr + n \<le> MEGA_PAGE_ENTRIES" "n < 2 ^ 31"
  defines "I \<equiv> {b + page_index_of addr..<b + page_index_of addr + n}"
  shows "mega_cleanupPages addr len s
    = Inr (ucast (of_nat (4096 * touched_entries I s) :: u32), clear_entries I s)"
proof -
  have "page_index_of addr < 256" by (rule address_parts(2))
  then have "unat (of_nat (page_index_of addr) :: u32) + n < 2 ^ 32" using n(3) by (simp add: unat_of_nat_small)
  with cleanup_loop_eq [of s "b + page_index_of addr" n "of_nat (page_index_of addr)" "mega_index_of addr" 0]
    assms(1,2) n getMegaMapEntry_mapped [OF m]
  show ?thesis by (simp add: mega_cleanupPages_def pages_wf_def I_def PAGESIZE_def mult.commute)
qed

section \<open>Pages of the address space\<close>

lemma page_at_cleared:
  "page_at (clear_entries I s) q = (if page_entry s q \<in> Some ` I then cleared_entry (page_at s q) else page_at s q)"
proof -
  have "page_entry (clear_entries I s) q = page_entry s q" by (simp add: page_entry_def)
  then show ?thesis by (auto simp: page_at_def clear_entries_def split: option.split)
qed

lemma line_at_cleared:
  assumes "pages_wf s" "mega_lines_wf s"
  shows "line_at (clear_entries I s) l
    = (if page_entry s (l div 64) \<in> Some ` I \<and> mega_touched s (l div 64) then FSLine_zero else line_at s l)"
proof (cases "mp_lines (page_at s (l div 64))")
  case None
  then show ?thesis by (simp add: line_at_def page_at_cleared cleared_entry_def)
next
  case (Some c)
  then obtain i where i: "page_entry s (l div 64) = Some i" "mp_lines (mg_page_map s i) = Some c" "page_at s (l div 64) = mg_page_map s i"
    by (auto simp: page_at_def MegaPage_zero_def split: option.splits)
  have "c + l mod 64 \<in> lines_of I s \<longleftrightarrow> i \<in> I \<and> mp_touched (mg_page_map s i)"
  proof
    assume "c + l mod 64 \<in> lines_of I s"
    then obtain j c' where j: "j \<in> I" "mp_touched (mg_page_map s j)" "mp_lines (mg_page_map s j) = Some c'"
        "c' \<le> c + l mod 64" "c + l mod 64 < c' + 64" by (auto simp: lines_of_def)
    have "64 dvd c" "64 dvd c'" using assms(2) i(2) j(3) unfolding mega_lines_wf_def by blast+
    then have "c = c'" using block_unique [of 64 c c' "l mod 64" "c + l mod 64 - c'"] j(4,5) by auto
    with assms(2) i(2) j(3) have "i = j" unfolding mega_lines_wf_def by blast
    with j show "i \<in> I \<and> mp_touched (mg_page_map s i)" by simp
  qed (use i in \<open>auto simp: lines_of_def\<close>)
  moreover have "mp_lines (page_at (clear_entries I s) (l div 64)) = Some c"
    using Some by (simp add: page_at_cleared cleared_entry_def)
  moreover have "mg_cache_map (clear_entries I s) d = (if d \<in> lines_of I s then FSLine_zero else mg_cache_map s d)" for d
    by (simp add: clear_entries_def)
  ultimately show ?thesis using i Some by (simp add: line_at_def image_iff)
qed

lemma address_page:
  "unat addr div 4096 div 256 = mega_index_of addr" "unat addr div 4096 mod 256 = page_index_of (addr :: u64)"
proof -
  note parts = address_parts [of addr]
  have "unat addr div 4096 = 256 * mega_index_of addr + page_index_of addr"
    unfolding parts(1) using parts(3) by simp
  with parts(2) show "unat addr div 4096 div 256 = mega_index_of addr" "unat addr div 4096 mod 256 = page_index_of addr" by simp_all
qed

text \<open>The entries of pages in a row within a megabyte are in a row.\<close>

lemma pages_in_a_row:
  assumes wf: "pages_wf s" and m: "mapped_mega (q div 256) b s" and n: "q mod 256 + n \<le> 256"
  defines "I \<equiv> {b + q mod 256..<b + q mod 256 + n}"
  shows "page_entry s q' \<in> Some ` I \<longleftrightarrow> q' \<in> {q..<q + n}"
    and "touched_entries I s = card {q' \<in> {q..<q + n}. mega_touched s q'}"
proof -
  have entry: "page_entry s (q + j) = Some (b + q mod 256 + j)" if "j < n" for j
  proof -
    have "q + j = 256 * (q div 256) + (q mod 256 + j)" by simp
    moreover have "q mod 256 + j < 256" using that n by simp
    ultimately have "(q + j) div 256 = q div 256" "(q + j) mod 256 = q mod 256 + j"
      by (metis div_mult_self4 div_less add_0_right zero_neq_numeral, metis mod_mult_self4 mod_less)
    with m show ?thesis by (simp add: page_entry_def mapped_mega_def)
  qed
  have touched: "mega_touched s (q + j) = mp_touched (mg_page_map s (b + q mod 256 + j))" if "j < n" for j
    using entry [OF that] by (simp add: page_at_def)
  show "page_entry s q' \<in> Some ` I \<longleftrightarrow> q' \<in> {q..<q + n}"
  proof
    assume "page_entry s q' \<in> Some ` I"
    then obtain i where i: "page_entry s q' = Some i" "i \<in> I" by auto
    then have "page_entry s (q + (i - (b + q mod 256))) = Some i" using entry [of "i - (b + q mod 256)"] by (auto simp: I_def)
    then have "q' = q + (i - (b + q mod 256))" using page_entry_inj [OF wf i(1)] by blast
    with i(2) show "q' \<in> {q..<q + n}" by (auto simp: I_def)
  next
    assume "q' \<in> {q..<q + n}"
    then obtain j where "q' = q + j" "j < n" using le_Suc_ex [of q q'] by auto
    with entry show "page_entry s q' \<in> Some ` I" by (simp add: I_def)
  qed
  have row: "card {x \<in> {a..<a + n}. P x} = card {j. j < n \<and> P (a + j)}" for a :: nat and P
  proof -
    have "{x \<in> {a..<a + n}. P x} = (+) a ` {j. j < n \<and> P (a + j)}"
      by (auto simp: image_iff) (metis le_add_diff_inverse nat_add_left_cancel_less)
    then show ?thesis by (simp add: card_image)
  qed
  show "touched_entries I s = card {q' \<in> {q..<q + n}. mega_touched s q'}"
    unfolding touched_entries_def I_def row using touched by (intro arg_cong [of _ _ card]) auto
qed

lemma mega_cleanup_clears:
  fixes addr len :: u64
  defines "q \<equiv> unat addr div 4096" and "n \<equiv> unat (alignup len 4096) div 4096"
  assumes wf: "pages_wf s" "mega_lines_wf s" and m: "mega_index_of addr < NUM_MEGABYTE_MAP_ENTRIES"
    and room: "mg_page_bump s + 256 < MEGA_PAGE_ENTRIES" and n: "q mod 256 + n \<le> 256"
  shows "\<exists>s'. mega_cleanupPages addr len s = Inr (of_nat (4096 * card {q' \<in> {q..<q + n}. mega_touched s q'}), s')
    \<and> pages_wf s' \<and> mega_lines_wf s'
    \<and> page_at s' = (\<lambda>q'. if q' \<in> {q..<q + n} then cleared_entry (page_at s q') else page_at s q')
    \<and> line_at s' = (\<lambda>l. if l div 64 \<in> {q..<q + n} \<and> mega_touched s (l div 64) then FSLine_zero else line_at s l)"
proof -
  obtain b s1 where s1: "getMegaMapEntry (mega_index_of addr) s = Inr (b, s1)" "pages_wf s1" "page_at s1 = page_at s"
      "line_at s1 = line_at s" "s1 = s \<or> s1 = s\<lparr>mg_page_bump := mg_page_bump s + 256, mg_mega_map := (mg_mega_map s)(mega_index_of addr \<mapsto> b)\<rparr>"
    using getMegaMapEntry_spec [OF wf(1) m room] by blast
  have wf1: "mega_lines_wf s1" using s1(5) wf(2) by (auto simp: mega_lines_wf_def)
  have map1: "mapped_mega (mega_index_of addr) b s1" by (rule getMegaMapEntry_mapped_after [OF s1(1)])
  have parts: "q div 256 = mega_index_of addr" "q mod 256 = page_index_of addr" by (simp_all add: q_def address_page)
  let ?I = "{b + page_index_of addr..<b + page_index_of addr + n}"
  note row = pages_in_a_row [OF s1(2) map1 [folded parts(1)] n, unfolded parts(2)]
  have "256 dvd b" "b < mg_page_bump s1" using s1(2) map1 unfolding pages_wf_def mapped_mega_def by blast+
  then have "b + 256 \<le> MEGA_PAGE_ENTRIES" using s1(2) block_entry [of 256 b "mg_page_bump s1" 255] by (simp add: pages_wf_def)
  then have fits: "b + page_index_of addr + n \<le> MEGA_PAGE_ENTRIES" using n parts(2) by simp
  have "mega_cleanupPages addr len s = mega_cleanupPages addr len s1"
    using s1(1) getMegaMapEntry_mapped [OF map1] by (simp add: mega_cleanupPages_def)
  also have "\<dots> = Inr (ucast (of_nat (4096 * touched_entries ?I s1) :: u32), clear_entries ?I s1)"
    using mega_cleanupPages_eq [OF s1(2) wf1 map1 _ fits] n by (simp add: n_def)
  also have "(ucast (of_nat (4096 * touched_entries ?I s1) :: u32) :: u64) = of_nat (4096 * card {q' \<in> {q..<q + n}. mega_touched s q'})"
  proof -
    have "card {q' \<in> {q..<q + n}. mega_touched s q'} \<le> card {q..<q + n}" by (intro card_mono) auto
    then have "4096 * card {q' \<in> {q..<q + n}. mega_touched s q'} < 2 ^ 32" using n by simp
    then show ?thesis unfolding row(2) s1(3) by (simp only: unsigned_of_nat) (simp add: take_bit_nat_eq_self)
  qed
  finally show ?thesis using page_at_cleared [of ?I s1] line_at_cleared [OF s1(2) wf1, of ?I] row(1) s1(3,4)
      clear_entries_wf [OF wf1, of ?I] clear_entries_pages_wf [OF s1(2), of ?I]
    by (auto simp: fun_eq_iff)
qed

text \<open>
  Pages given back within a megabyte: \<open>cleanupPages\<close> of a range of \<open>n\<close> pages that does not leave its megabyte
  clears exactly these pages and, of those that were touched, the lines, leaves every other page and line as it
  is, and returns 4096 for each of them that was touched.
\<close>

theorem mega_cleanup_within_a_megabyte:
  fixes addr len :: u64
  defines "q \<equiv> unat addr div 4096" and "n \<equiv> unat (alignup len 4096) div 4096"
  assumes wf: "pages_wf s" "mega_lines_wf s" and m: "mega_index_of addr < NUM_MEGABYTE_MAP_ENTRIES"
    and room: "mg_page_bump s + 256 < MEGA_PAGE_ENTRIES" and n: "q mod 256 + n \<le> 256"
  shows "\<exists>s'. mega_cleanupPages addr len s = Inr (of_nat (4096 * card {q' \<in> {q..<q + n}. mega_touched s q'}), s')
    \<and> pages_wf s' \<and> mega_lines_wf s'
    \<and> page_at s' = (\<lambda>q'. if q' \<in> {q..<q + n} then cleared_entry (page_at s q') else page_at s q')
    \<and> line_at s' = (\<lambda>l. if l div 64 \<in> {q..<q + n} \<and> mega_touched s (l div 64) then FSLine_zero else line_at s l)"
  unfolding q_def n_def by (rule mega_cleanup_clears [OF wf m room n [unfolded q_def n_def]])

text \<open>A map with two megabytes, the fifth and then the ninth; the first page of the ninth is in use.\<close>

definition sample_mega :: MegaMap where
  "sample_mega = fresh_mega\<lparr>mg_mega_map := [5 \<mapsto> 0, 9 \<mapsto> 256], mg_page_bump := 512,
    mg_page_map := (\<lambda>_. MegaPage_zero)(255 := \<lparr>mp_touched = True, mp_used = 4096, mp_lines = None\<rparr>,
      256 := \<lparr>mp_touched = True, mp_used = 100, mp_lines = None\<rparr>)\<rparr>"

lemma sample_mega_wf: "pages_wf sample_mega" "mega_lines_wf sample_mega"
proof -
  have "mp_lines (mg_page_map sample_mega i) = None" for i by (simp add: sample_mega_def MegaPage_zero_def)
  then show "mega_lines_wf sample_mega" by (simp add: mega_lines_wf_def) (simp add: sample_mega_def fresh_mega_def config)
  show "pages_wf sample_mega" by (auto simp: pages_wf_def sample_mega_def fresh_mega_def config split: if_splits)
qed

lemma sample_mega_pages:
  "page_at sample_mega 1535 = \<lparr>mp_touched = True, mp_used = 4096, mp_lines = None\<rparr>"
  "page_at sample_mega 2304 = \<lparr>mp_touched = True, mp_used = 100, mp_lines = None\<rparr>" "mg_page_bump sample_mega = 512"
  by (simp_all add: page_at_def page_entry_def sample_mega_def fresh_mega_def)

theorem mega_cleanup_within_a_megabyte_witness:
  "\<exists>s'. mega_cleanupPages 0x5fd000 12288 sample_mega = Inr (4096, s') \<and> \<not> mega_touched s' 1535 \<and> mega_touched s' 2304"
proof -
  have len: "unat (alignup 12288 4096) div 4096 = 3" by (simp add: alignup_def)
  have m: "mega_index_of 0x5fd000 = 5" by (simp add: mega_index_of_def)
  have "{q'. 1533 \<le> q' \<and> q' < 1536 \<and> mega_touched sample_mega q'} = {1535}"
  proof (rule set_eqI)
    fix q' :: nat
    have "1533 \<le> q' \<and> q' < 1536 \<longleftrightarrow> q' = 1533 \<or> q' = 1534 \<or> q' = 1535" by linarith
    then show "q' \<in> {q'. 1533 \<le> q' \<and> q' < 1536 \<and> mega_touched sample_mega q'} \<longleftrightarrow> q' \<in> {1535}"
      by (auto simp: page_at_def page_entry_def sample_mega_def fresh_mega_def MegaPage_zero_def)
  qed
  then show ?thesis
    using mega_cleanup_within_a_megabyte [OF sample_mega_wf, of "0x5fd000" 12288] len m sample_mega_pages
    by (auto simp: cleared_entry_def NUM_MEGABYTE_MAP_ENTRIES_def MEGA_PAGE_ENTRIES_def)
qed

text \<open>
  C22: pages given back across the end of a megabyte. The page index that should wrap at 256 is an \<open>unsigned\<close> here
  and never does: the walk goes on into the block that follows in the page map. The pages cleared for
  the rest of the range are the first ones of the megabyte \<open>m'\<close> whose block that is, the one touched next; those of the next
  megabyte, which were to be given back, stay as they are.
\<close>

theorem mega_cleanup_clears_a_foreign_megabyte:
  fixes addr len :: u64
  defines "m \<equiv> mega_index_of addr"
  assumes wf: "pages_wf s" "mega_lines_wf s"
    and blocks: "m < NUM_MEGABYTE_MAP_ENTRIES" "mg_mega_map s m = Some b" "mg_mega_map s m' = Some (b + 256)" "m' \<noteq> Suc m"
    and n: "page_index_of addr + unat (alignup len 4096) div 4096 = 256 + k" "k \<le> 256"
  shows "\<exists>r s'. mega_cleanupPages addr len s = Inr (r, s')
    \<and> (\<forall>j < 256. page_at s' (256 * m' + j) = (if j < k then cleared_entry (page_at s (256 * m' + j)) else page_at s (256 * m' + j)))
    \<and> (\<forall>j < 256. page_at s' (256 * Suc m + j) = page_at s (256 * Suc m + j))"
proof -
  let ?I = "{b + page_index_of addr..<b + 256 + k}" and ?n = "unat (alignup len 4096) div 4096"
  have map: "mapped_mega (mega_index_of addr) b s" using wf(1) blocks by (simp add: mapped_mega_def pages_wf_def m_def)
  have I: "?I = {b + page_index_of addr..<b + page_index_of addr + ?n}" using n(1) by (simp add: add.assoc)
  have dvd: "256 dvd b" "256 dvd b + 256" "b + 256 < mg_page_bump s" using wf(1) blocks unfolding pages_wf_def by blast+
  have "b + 256 + 255 < mg_page_bump s" using block_entry [of 256 "b + 256" "mg_page_bump s" 255] dvd wf(1) by (simp add: pages_wf_def)
  then have "b + page_index_of addr + ?n \<le> MEGA_PAGE_ENTRIES" using n wf(1) by (simp add: pages_wf_def)
  from mega_cleanupPages_eq [OF wf map refl this] n
  obtain r where r: "mega_cleanupPages addr len s = Inr (r, clear_entries ?I s)" unfolding I by auto
  have "page_entry s (256 * m' + j) \<in> Some ` ?I \<longleftrightarrow> j < k" if "j < 256" for j
    using that blocks address_parts(2) [of addr] by (auto simp: page_entry_def)
  moreover have "page_entry s (256 * Suc m + j) \<notin> Some ` ?I" if "j < 256" for j
  proof
    assume "page_entry s (256 * Suc m + j) \<in> Some ` ?I"
    moreover have "(256 * Suc m + j) div 256 = Suc m" "(256 * Suc m + j) mod 256 = j"
      using that by (simp_all only: div_mult_self4 mod_mult_self4) simp_all
    ultimately obtain c where c: "mg_mega_map s (Suc m) = Some c" "b + page_index_of addr \<le> c + j" "c + j < b + 256 + k"
      unfolding page_entry_def by auto
    have "256 dvd c" "c \<noteq> b" "c \<noteq> b + 256" using wf(1) blocks c(1) unfolding pages_wf_def by (blast, metis n_not_Suc_n, metis)
    with dvd c(2,3) n(2) that show False by (auto simp: dvd_def)
  qed
  ultimately show ?thesis using r page_at_cleared [of ?I s] by auto
qed

theorem mega_cleanup_clears_a_foreign_megabyte_witness:
  "\<exists>r s'. mega_touched sample_mega 2304 \<and> mega_cleanupPages 0x5ff000 8192 sample_mega = Inr (r, s') \<and> \<not> mega_touched s' 2304"
proof -
  have len: "unat (alignup 8192 4096) div 4096 = 2" by (simp add: alignup_def)
  have m: "mega_index_of 0x5ff000 = 5" "page_index_of 0x5ff000 = 255" by (simp_all add: mega_index_of_def page_index_of_def)
  obtain r s' where s': "mega_cleanupPages 0x5ff000 8192 sample_mega = Inr (r, s')"
      "\<forall>j < 256. page_at s' (256 * 9 + j) = (if j < 1 then cleared_entry (page_at sample_mega (256 * 9 + j)) else page_at sample_mega (256 * 9 + j))"
    using mega_cleanup_clears_a_foreign_megabyte [OF sample_mega_wf, of "0x5ff000" 0 9 8192 1] len m
    by (auto simp: sample_mega_def fresh_mega_def config)
  then show ?thesis using sample_mega_pages spec [OF s'(2), of 0] by (auto simp: cleared_entry_def)
qed

end
