(* ===== verification/EarlierPredictor.thy ===== *)
theory EarlierPredictor
  imports Predictor
begin

text \<open>
  The predictor of the earlier version (\<^verbatim>\<open>src/predictor.h\<close>, \<^verbatim>\<open>src/predictor.cpp\<close>). It keeps the cycles of the allocation
  functions per type of call, where \<^verbatim>\<open>src_light\<close> keeps their sum, and it adds up the counting events and the cycles of
  all threads. The members both versions have, and the readers of the info file, are those of \<open>Predictor\<close>.
\<close>

text \<open>\<open>threads\<close> is \<open>totalNumOfThread\<close>.\<close>

section \<open>Counting events\<close>

record PerfReadInfo =
  pr_faults :: u64
  pr_cache :: u64
  pr_instructions :: u64

definition PerfReadInfo_zero :: PerfReadInfo where
  "PerfReadInfo_zero = \<lparr>pr_faults = 0, pr_cache = 0, pr_instructions = 0\<rparr>"

definition PerfReadInfo_add :: "PerfReadInfo \<Rightarrow> PerfReadInfo \<Rightarrow> PerfReadInfo" where
  "PerfReadInfo_add e n = e\<lparr>pr_faults := pr_faults e + pr_faults n, pr_cache := pr_cache e + pr_cache n,
    pr_instructions := pr_instructions e + pr_instructions n\<rparr>"

section \<open>State\<close>

record EarlierPredictor =
  ep_shared :: Predictor
  ep_totalCycle :: u64
  ep_criticalCountingEvent :: PerfReadInfo
  ep_threadCountingEvents :: "PerfReadInfo list"

record EarlierPredictorThread =
  et_numOfFunctions :: "u32 list"
  et_functionCycles :: "u64 list"
  et_outsideStartCycle :: u64
  et_outsideStopCycle :: u64
  et_outsideCycle :: u64
  et_outsideCycleMinus :: u64
  et_startCountingEvent :: PerfReadInfo
  et_stopCountingEvent :: PerfReadInfo
  et_countingEvent :: PerfReadInfo

text \<open>Static and thread-local variables start zeroed.\<close>

definition EarlierPredictor_zero :: EarlierPredictor where
  "EarlierPredictor_zero = \<lparr>ep_shared = Predictor_zero, ep_totalCycle = 0, ep_criticalCountingEvent = PerfReadInfo_zero,
    ep_threadCountingEvents = replicate MAX_THREAD_NUMBER PerfReadInfo_zero\<rparr>"

definition EarlierPredictorThread_zero :: EarlierPredictorThread where
  "EarlierPredictorThread_zero = \<lparr>et_numOfFunctions = replicate NUM_OF_ALLOCATIONTYPEFOROUTPUTDATA 0,
    et_functionCycles = replicate NUM_OF_ALLOCATIONTYPEFOROUTPUTDATA 0, et_outsideStartCycle = 0, et_outsideStopCycle = 0,
    et_outsideCycle = 0, et_outsideCycleMinus = 0, et_startCountingEvent = PerfReadInfo_zero,
    et_stopCountingEvent = PerfReadInfo_zero, et_countingEvent = PerfReadInfo_zero\<rparr>"

definition earlier_clear_counters :: "EarlierPredictorThread \<Rightarrow> EarlierPredictorThread" where
  "earlier_clear_counters t = t\<lparr>et_countingEvent := PerfReadInfo_zero,
    et_numOfFunctions := replicate NUM_OF_ALLOCATIONTYPEFOROUTPUTDATA 0,
    et_functionCycles := replicate NUM_OF_ALLOCATIONTYPEFOROUTPUTDATA 0, et_outsideCycle := 0\<rparr>"

definition earlier_globalInit ::
  "string list option \<Rightarrow> EarlierPredictor \<Rightarrow> EarlierPredictorThread \<Rightarrow> crash + (EarlierPredictor \<times> EarlierPredictorThread)" where
  "earlier_globalInit file p t =
    bindR (openPredictorInfoFile file (ep_shared p)) (\<lambda>sh.
      Inr (p\<lparr>ep_shared := sh\<lparr>criticalCycle := 0, replacedCriticalCycle := 0, criticalCycleDepend := 0,
                             replacedCriticalCycleDepend := 0\<rparr>,
             ep_totalCycle := 0, ep_criticalCountingEvent := PerfReadInfo_zero\<rparr>, earlier_clear_counters t))"

definition earlier_threadInit :: "EarlierPredictorThread \<Rightarrow> EarlierPredictorThread" where
  "earlier_threadInit t = earlier_clear_counters t"

definition earlier_cleanStageData ::
  "u16 \<Rightarrow> EarlierPredictor \<times> EarlierPredictorThread \<Rightarrow> crash + (EarlierPredictor \<times> EarlierPredictorThread)" where
  "earlier_cleanStageData threads = (\<lambda>(p, t).
    let n = unat threads; sh = ep_shared p in
    if n \<le> MAX_THREAD_NUMBER
    then Inr (p\<lparr>ep_shared := sh\<lparr>threadCycle := zero_prefix n (threadCycle sh),
                                threadReplacedCycle := zero_prefix n (threadReplacedCycle sh)\<rparr>,
               ep_threadCountingEvents := replicate n PerfReadInfo_zero @ drop n (ep_threadCountingEvents p)\<rparr>,
              earlier_clear_counters t)
    else Inl OutOfBounds)"

section \<open>Outside the allocator\<close>

definition earlier_subOutsideCycle :: "u64 \<Rightarrow> EarlierPredictorThread \<Rightarrow> EarlierPredictorThread" where
  "earlier_subOutsideCycle cycles t = t\<lparr>et_outsideCycleMinus := et_outsideCycleMinus t + cycles\<rparr>"

definition earlier_outsideCycleStart :: "u64 \<Rightarrow> EarlierPredictorThread \<Rightarrow> EarlierPredictorThread" where
  "earlier_outsideCycleStart now t = t\<lparr>et_outsideStartCycle := now\<rparr>"

text \<open>The time stamp is only taken when the start is not 0.\<close>

definition earlier_outsideCyclesStop :: "u64 \<Rightarrow> EarlierPredictorThread \<Rightarrow> EarlierPredictorThread" where
  "earlier_outsideCyclesStop now t =
    (if et_outsideStartCycle t \<noteq> 0
     then (let t = t\<lparr>et_outsideStopCycle := now\<rparr> in
           if et_outsideStopCycle t > et_outsideStartCycle t
           then t\<lparr>et_outsideCycle := et_outsideCycle t + (et_outsideStopCycle t - et_outsideStartCycle t)\<rparr> else t)
     else t)"

text \<open>\<open>counts\<close> is what \<open>getPerfCounts\<close> reads from the kernel.\<close>

definition outsideCountingEventsStart :: "PerfReadInfo \<Rightarrow> EarlierPredictorThread \<Rightarrow> EarlierPredictorThread" where
  "outsideCountingEventsStart counts t = t\<lparr>et_startCountingEvent := counts\<rparr>"

definition gained :: "u64 \<Rightarrow> u64 \<Rightarrow> u64" where
  "gained start stop = (if stop > start then stop - start else 0)"

definition outsideCountingEventsStop :: "PerfReadInfo \<Rightarrow> EarlierPredictorThread \<Rightarrow> EarlierPredictorThread" where
  "outsideCountingEventsStop counts t =
    (let a = et_startCountingEvent t; e = et_countingEvent t in
     t\<lparr>et_stopCountingEvent := counts,
       et_countingEvent := e\<lparr>pr_faults := pr_faults e + gained (pr_faults a) (pr_faults counts),
         pr_cache := pr_cache e + gained (pr_cache a) (pr_cache counts),
         pr_instructions := pr_instructions e + gained (pr_instructions a) (pr_instructions counts)\<rparr>\<rparr>)"

section \<open>Stages\<close>

definition function_time :: "u64 list \<Rightarrow> u64 \<Rightarrow> u64" where
  "function_time cycles acc = for_loop NUM_OF_ALLOCATIONTYPEFOROUTPUTDATA (\<lambda>i acc. acc + cycles ! i) acc"

text \<open>A type without a cost in the info file keeps its measured cycles.\<close>

definition replaced_time :: "u64 list \<Rightarrow> u32 list \<Rightarrow> u64 list \<Rightarrow> u64 \<Rightarrow> u64" where
  "replaced_time repl num cycles acc =
    for_loop NUM_OF_ALLOCATIONTYPEFOROUTPUTDATA
      (\<lambda>i acc. if repl ! i = 0 then acc + cycles ! i else acc + ucast (num ! i) * repl ! i) acc"

definition array_slot :: "nat \<Rightarrow> 16 word \<Rightarrow> crash + nat" where
  "array_slot n i = (if 0 \<le> sint i \<and> sint i < int n then Inr (nat (sint i)) else Inl OutOfBounds)"

definition earlier_threadEnd :: "16 word \<Rightarrow> EarlierPredictorThread \<Rightarrow> EarlierPredictor \<Rightarrow> crash + EarlierPredictor" where
  "earlier_threadEnd index t p =
    bindR (array_slot MAX_THREAD_NUMBER index) (\<lambda>i.
      let sh = ep_shared p;
          tc = function_time (et_functionCycles t) (threadCycle sh ! i + et_outsideCycle t);
          rc = replaced_time (replacedFunctionCycles sh) (et_numOfFunctions t) (et_functionCycles t)
                 (threadReplacedCycle sh ! i + et_outsideCycle t);
          sh = sh\<lparr>threadCycle := (threadCycle sh)[i := tc], threadReplacedCycle := (threadReplacedCycle sh)[i := rc]\<rparr>;
          p = p\<lparr>ep_threadCountingEvents :=
                  (ep_threadCountingEvents p)[i := PerfReadInfo_add (ep_threadCountingEvents p ! i) (et_countingEvent t)]\<rparr>
      in if index \<noteq> 0
         then (if tc = 0 then Inl DivisionByZero
               else if et_outsideCycle t * 100 div tc \<ge> 98
               then Inr (p\<lparr>ep_shared := sh\<lparr>lastThreadIndex := index, lastThreadDepend := True\<rparr>\<rparr>)
               else Inr (p\<lparr>ep_shared := sh\<lparr>lastThreadDepend := False\<rparr>\<rparr>))
         else Inr (p\<lparr>ep_shared := sh\<rparr>))"

definition earlier_stopSerial ::
  "u16 \<Rightarrow> EarlierPredictor \<times> EarlierPredictorThread \<Rightarrow> crash + (EarlierPredictor \<times> EarlierPredictorThread)" where
  "earlier_stopSerial threads = (\<lambda>(p, t).
    let sh = ep_shared p;
        repl = replaced_time (replacedFunctionCycles sh) (et_numOfFunctions t) (et_functionCycles t)
    in earlier_cleanStageData threads
      (p\<lparr>ep_totalCycle := ep_totalCycle p + et_outsideCycle t,
         ep_shared := sh\<lparr>
           criticalCycle := function_time (et_functionCycles t) (criticalCycle sh + et_outsideCycle t),
           replacedCriticalCycle := repl (replacedCriticalCycle sh + et_outsideCycle t),
           criticalCycleDepend := function_time (et_functionCycles t) (criticalCycleDepend sh + et_outsideCycle t),
           replacedCriticalCycleDepend := repl (replacedCriticalCycleDepend sh + et_outsideCycle t)\<rparr>,
         ep_criticalCountingEvent := PerfReadInfo_add (ep_criticalCountingEvent p) (et_countingEvent t)\<rparr>, t))"

text \<open>One round of the second loop: the cycles and events of every thread that has any.\<close>

definition add_thread :: "nat \<Rightarrow> EarlierPredictor \<Rightarrow> EarlierPredictor" where
  "add_thread i p =
    (if threadCycle (ep_shared p) ! i \<noteq> 0 \<and> threadReplacedCycle (ep_shared p) ! i \<noteq> 0
     then p\<lparr>ep_totalCycle := ep_totalCycle p + threadCycle (ep_shared p) ! i,
            ep_criticalCountingEvent := PerfReadInfo_add (ep_criticalCountingEvent p) (ep_threadCountingEvents p ! i)\<rparr>
     else p)"

definition earlier_stopParallel ::
  "u16 \<Rightarrow> EarlierPredictor \<times> EarlierPredictorThread \<Rightarrow> crash + (EarlierPredictor \<times> EarlierPredictorThread)" where
  "earlier_stopParallel threads = (\<lambda>(p, t).
    let n = unat threads; sh = ep_shared p in
    if n \<le> MAX_THREAD_NUMBER
    then (let (c, rc, cd, rcd) = fold (stage_max sh) [1..<n] (0, 0, 0, 0);
              p = for_loop n add_thread p
          in earlier_cleanStageData threads
            (p\<lparr>ep_shared := sh\<lparr>criticalCycle := criticalCycle sh + c, replacedCriticalCycle := replacedCriticalCycle sh + rc,
                 criticalCycleDepend := criticalCycleDepend sh + cd,
                 replacedCriticalCycleDepend := replacedCriticalCycleDepend sh + rcd\<rparr>\<rparr>, t))
    else Inl OutOfBounds)"

section \<open>The report\<close>

text \<open>Beside what \<^verbatim>\<open>src_light\<close> prints: the total cycles, and the counting events with their numbers per 1000 cycles.\<close>

record EarlierPredictionReport =
  epr_prediction :: PredictionReport
  epr_totalCycle :: u64
  epr_events :: "(PerfReadInfo \<times> PerfReadInfo) option"

definition earlier_printOutput :: "EarlierPredictor \<Rightarrow> EarlierPredictionReport" where
  "earlier_printOutput p =
    (let e = ep_criticalCountingEvent p; k = ep_totalCycle p div 1000 in
     \<lparr>epr_prediction = Predictor_printOutput (ep_shared p), epr_totalCycle = ep_totalCycle p,
      epr_events = (if k \<noteq> 0
        then Some (e, \<lparr>pr_faults = pr_faults e div k, pr_cache = pr_cache e div k, pr_instructions = pr_instructions e div k\<rparr>)
        else None)\<rparr>)"

section \<open>What is added up\<close>

lemma for_loop_sum: "length xs = n \<Longrightarrow> for_loop n (\<lambda>i acc. acc + xs ! i) acc = acc + sum_list xs" for acc :: "'a :: comm_monoid_add"
proof (induction n arbitrary: xs)
  case (Suc n)
  then obtain ys y where xs: "xs = ys @ [y]" by (cases xs rule: rev_cases) auto
  have "for_loop n (\<lambda>i acc. acc + xs ! i) acc = for_loop n (\<lambda>i acc. acc + ys ! i) acc"
    unfolding for_loop_def by (rule fold_cong) (use Suc.prems xs in \<open>auto simp: nth_append\<close>)
  moreover have "length ys = n" using Suc.prems xs by simp
  ultimately show ?case using Suc.IH [of ys] xs by (simp add: for_loop_Suc nth_append add.assoc)
qed simp

lemma function_time_eq: "cells cycles \<Longrightarrow> function_time cycles acc = acc + sum_list cycles"
  by (simp add: function_time_def cells_def for_loop_sum)

lemma replaced_time_unpriced:
  assumes "\<forall>i < NUM_OF_ALLOCATIONTYPEFOROUTPUTDATA. repl ! i = 0"
  shows "replaced_time repl num cycles = function_time cycles"
proof
  fix acc show "replaced_time repl num cycles acc = function_time cycles acc"
    unfolding replaced_time_def function_time_def for_loop_def by (rule fold_cong) (use assms in auto)
qed



end
