(* ===== verification/EarlierStatus.thy ===== *)
theory EarlierStatus
  imports EarlierPredictor MegaMap MemoryWaste AllocatingStatus
begin

text \<open>
  What a thread of the earlier version records while an allocation function runs (\<^verbatim>\<open>src/allocatingstatus.h\<close>,
  \<^verbatim>\<open>src/allocatingstatus.cpp\<close>, with \<^verbatim>\<open>src/structs.h\<close>, \<^verbatim>\<open>structs.cpp\<close> and \<^verbatim>\<open>threadlocalstatus.cpp\<close>). It measures more than
  \<^verbatim>\<open>src_light\<close>: the critical sections of the allocator, counting events, and the memory the call touches. A call is
  sampled once in a hundred, and what a sampled small call recorded is added up twenty times.

  An enumerator stays an enumerator here, because this version picks it by cases; \<open>earlier_index\<close> is its number. Time
  stamps (\<open>now\<close>, \<open>start\<close>, \<open>stop\<close>), counts of the kernel (\<open>counts\<close>) and random numbers (\<open>drawn\<close>) are arguments.
\<close>

section \<open>Records\<close>

fun earlier_index :: "AllocationTypeForOutputData \<Rightarrow> nat" where
  "earlier_index SERIAL_SMALL_NEW_MALLOC = 0"
| "earlier_index SERIAL_MEDIUM_NEW_MALLOC = 1"
| "earlier_index SERIAL_SMALL_REUSED_MALLOC = 2"
| "earlier_index SERIAL_MEDIUM_REUSED_MALLOC = 3"
| "earlier_index SERIAL_LARGE_MALLOC = 4"
| "earlier_index SERIAL_SMALL_FREE = 5"
| "earlier_index SERIAL_MEDIUM_FREE = 6"
| "earlier_index SERIAL_LARGE_FREE = 7"
| "earlier_index SERIAL_NORMAL_CALLOC = 8"
| "earlier_index SERIAL_NORMAL_REALLOC = 9"
| "earlier_index SERIAL_NORMAL_POSIX_MEMALIGN = 10"
| "earlier_index SERIAL_NORMAL_MEMALIGN = 11"
| "earlier_index PARALLEL_SMALL_NEW_MALLOC = 12"
| "earlier_index PARALLEL_MEDIUM_NEW_MALLOC = 13"
| "earlier_index PARALLEL_SMALL_REUSED_MALLOC = 14"
| "earlier_index PARALLEL_MEDIUM_REUSED_MALLOC = 15"
| "earlier_index PARALLEL_LARGE_MALLOC = 16"
| "earlier_index PARALLEL_SMALL_FREE = 17"
| "earlier_index PARALLEL_MEDIUM_FREE = 18"
| "earlier_index PARALLEL_LARGE_FREE = 19"
| "earlier_index PARALLEL_NORMAL_CALLOC = 20"
| "earlier_index PARALLEL_NORMAL_REALLOC = 21"
| "earlier_index PARALLEL_NORMAL_POSIX_MEMALIGN = 22"
| "earlier_index PARALLEL_NORMAL_MEMALIGN = 23"

record EarlierType =
  ey_doingAllocation :: bool
  ey_objectSizeType :: ObjectSizeType
  ey_allocatingFunction :: AllocationFunction
  ey_objectSize :: u32
  ey_newTouchedPageSize :: u32
  ey_objectAddress :: u64
  ey_isReusedObject :: bool
  ey_classSizeIndex :: u16
  ey_classSize :: u32

record CriticalSectionStatus =
  csec_num :: u32
  csec_cycles :: u64

definition CriticalSectionStatus_add :: "CriticalSectionStatus \<Rightarrow> CriticalSectionStatus \<Rightarrow> CriticalSectionStatus" where
  "CriticalSectionStatus_add c n = c\<lparr>csec_num := csec_num c + csec_num n, csec_cycles := csec_cycles c + csec_cycles n\<rparr>"

definition SystemCallData_cleanup :: "SystemCallData \<Rightarrow> SystemCallData" where
  "SystemCallData_cleanup d = d\<lparr>sc_num := 0, sc_cycles := 0\<rparr>"

record ContendedLockData =
  cl_lock :: DetailLockData
  cl_numOfContendingThreads :: u16
  cl_maxNumOfContendingThreads :: u16

definition newContendedLockData :: "LockTypes \<Rightarrow> ContendedLockData" where
  "newContendedLockData t = \<lparr>cl_lock = DetailLockData_newDetailLockData t, cl_numOfContendingThreads = 0,
    cl_maxNumOfContendingThreads = 0\<rparr>"

definition aContentionHappening :: "ContendedLockData \<Rightarrow> bool \<times> ContendedLockData" where
  "aContentionHappening d =
    (let n = cl_numOfContendingThreads d + 1 in (n \<ge> 2, d\<lparr>cl_numOfContendingThreads := n\<rparr>))"

definition checkAndUpdateMaxNumOfContendingThreads :: "ContendedLockData \<Rightarrow> ContendedLockData" where
  "checkAndUpdateMaxNumOfContendingThreads d =
    d\<lparr>cl_maxNumOfContendingThreads := C_MAX (cl_numOfContendingThreads d) (cl_maxNumOfContendingThreads d)\<rparr>"

definition quitFromContending :: "ContendedLockData \<Rightarrow> ContendedLockData" where
  "quitFromContending d = d\<lparr>cl_numOfContendingThreads := cl_numOfContendingThreads d - 1\<rparr>"

section \<open>The thread's counters\<close>

record EarlierThread =
  eth_index :: "16 word"
  eth_numOfFunctions :: "u32 list"
  eth_numOfSampledCountingFunctions :: "u32 list"
  eth_countingEvents :: "PerfReadInfo list"
  eth_cycles :: "u64 list"
  eth_overviewLockData :: "OverviewLockData list"
  eth_criticalSectionStatus :: "CriticalSectionStatus list"
  eth_systemCallData :: "SystemCallData list list"
  eth_friendliness :: SampleStatus
  eth_randomPeriod :: u16
  eth_setSample :: bool
  eth_stackStart :: u64

definition EarlierThread_zero :: EarlierThread where
  "EarlierThread_zero = \<lparr>eth_index = 0, eth_numOfFunctions = replicate NUM_OF_ALLOCATIONTYPEFOROUTPUTDATA 0,
    eth_numOfSampledCountingFunctions = replicate NUM_OF_ALLOCATIONTYPEFOROUTPUTDATA 0,
    eth_countingEvents = replicate NUM_OF_ALLOCATIONTYPEFOROUTPUTDATA PerfReadInfo_zero,
    eth_cycles = replicate NUM_OF_ALLOCATIONTYPEFOROUTPUTDATA 0,
    eth_overviewLockData = replicate NUM_OF_LOCKTYPES OverviewLockData_zero,
    eth_criticalSectionStatus = replicate NUM_OF_ALLOCATIONTYPEFOROUTPUTDATA \<lparr>csec_num = 0, csec_cycles = 0\<rparr>,
    eth_systemCallData =
      replicate NUM_OF_SYSTEMCALLTYPES (replicate NUM_OF_ALLOCATIONTYPEFOROUTPUTDATA SystemCallData_zero),
    eth_friendliness = SampleStatus_zero, eth_randomPeriod = 0, eth_setSample = False, eth_stackStart = 0\<rparr>"

record EarlierCounts =
  ec_totalNumOfThread :: u16
  ec_maxNumOfRunningThread :: u16
  ec_totalNumOfRunningThread :: u16

text \<open>The thread index is a \<open>short\<close>, the count an \<open>unsigned short\<close>.\<close>

definition earlier_getARunningThreadIndex ::
  "EarlierCounts \<Rightarrow> EarlierThread \<Rightarrow> crash + (EarlierCounts \<times> EarlierThread)" where
  "earlier_getARunningThreadIndex g t =
    (let t = t\<lparr>eth_index := ec_totalNumOfThread g\<rparr>; g = g\<lparr>ec_totalNumOfThread := ec_totalNumOfThread g + 1\<rparr> in
     if sint (eth_index t) \<ge> int MAX_THREAD_NUMBER then Inl (Aborted ''increase MAX_THREAD_NUMBER'') else Inr (g, t))"

definition earlier_addARunningThread :: "EarlierCounts \<Rightarrow> EarlierCounts" where
  "earlier_addARunningThread g =
    (let g = g\<lparr>ec_totalNumOfRunningThread := ec_totalNumOfRunningThread g + 1\<rparr> in
     g\<lparr>ec_maxNumOfRunningThread := C_MAX (ec_maxNumOfRunningThread g) (ec_totalNumOfRunningThread g)\<rparr>)"

definition earlier_subARunningThread :: "EarlierCounts \<Rightarrow> EarlierCounts" where
  "earlier_subARunningThread g = g\<lparr>ec_totalNumOfRunningThread := ec_totalNumOfRunningThread g - 1\<rparr>"

definition earlier_isCurrentlySingleThread :: "EarlierCounts \<Rightarrow> bool" where
  "earlier_isCurrentlySingleThread g \<longleftrightarrow> ec_totalNumOfRunningThread g \<le> 1"

definition earlier_fromSerialToParallel :: "EarlierCounts \<Rightarrow> bool" where
  "earlier_fromSerialToParallel g \<longleftrightarrow> ec_totalNumOfRunningThread g = 2"

definition earlier_fromParallelToSerial :: "EarlierCounts \<Rightarrow> bool" where
  "earlier_fromParallelToSerial g \<longleftrightarrow> ec_totalNumOfRunningThread g = 1"

definition setRandomPeriodForAllocations :: "u16 \<Rightarrow> EarlierThread \<Rightarrow> EarlierThread" where
  "setRandomPeriodForAllocations period t = t\<lparr>eth_randomPeriod := period, eth_setSample := True\<rparr>"

definition randomProcess :: "u32 \<Rightarrow> u16 \<Rightarrow> crash + bool" where
  "randomProcess drawn period = (if period = 0 then Inl DivisionByZero else Inr (drawn mod ucast period = 0))"

text \<open>\<open>counting\<close> is \<open>isCountingInit\<close>.\<close>

definition earlier_randomProcessForCountingEvent :: "bool \<Rightarrow> u32 \<Rightarrow> EarlierThread \<Rightarrow> crash + bool" where
  "earlier_randomProcessForCountingEvent counting drawn t =
    (if \<not> counting then Inr False else if \<not> eth_setSample t then Inr True else randomProcess drawn (eth_randomPeriod t))"

definition randomProcessForLargeCountingEvent :: "bool \<Rightarrow> u32 \<Rightarrow> EarlierThread \<Rightarrow> crash + bool" where
  "randomProcessForLargeCountingEvent counting drawn t =
    (if \<not> counting then Inr False else Inr (\<not> eth_setSample t \<or> drawn mod 5 = 0))"

definition setStackStartAddress :: "u64 \<Rightarrow> EarlierThread \<Rightarrow> EarlierThread" where
  "setStackStartAddress addr t = t\<lparr>eth_stackStart := addr\<rparr>"

definition earlier_getStackOffset :: "u64 \<Rightarrow> EarlierThread \<Rightarrow> u64" where
  "earlier_getStackOffset addr t = eth_stackStart t - addr"

section \<open>Locks and critical sections of a call\<close>

definition EARLIER_LENGTH_OF_QUEUE :: nat where [config]: "EARLIER_LENGTH_OF_QUEUE = 500"

record LockRecord =
  lr_numOfCalls :: u32
  lr_numOfCallsWithContentions :: u32
  lr_cycles :: u64
  lr_lockTimeStamp :: u64
  lr_unlockTimeStamp :: u64
  lr_address :: u64

definition LockRecord_zero :: LockRecord where
  "LockRecord_zero = \<lparr>lr_numOfCalls = 0, lr_numOfCallsWithContentions = 0, lr_cycles = 0, lr_lockTimeStamp = 0,
    lr_unlockTimeStamp = 0, lr_address = 0\<rparr>"

type_synonym contended_locks = "(u64, ContendedLockData) HashMap"

definition add_lock_record :: "nat \<Rightarrow> LockRecord \<Rightarrow> DetailLockData \<Rightarrow> DetailLockData" where
  "add_lock_record ty d v =
    v\<lparr>dl_numOfCalls := (dl_numOfCalls v)[ty := dl_numOfCalls v ! ty + lr_numOfCalls d],
      dl_numOfCallsWithContentions :=
        (dl_numOfCallsWithContentions v)[ty := dl_numOfCallsWithContentions v ! ty + lr_numOfCallsWithContentions d],
      dl_cycles := (dl_cycles v)[ty := dl_cycles v ! ty + lr_cycles d]\<rparr>"

definition earlier_writingIntoAddress :: "nat \<Rightarrow> LockRecord \<Rightarrow> contended_locks \<Rightarrow> contended_locks" where
  "earlier_writingIntoAddress ty d hm =
    (let v = hm_value hm (lr_address d) in
     HashMap_assign hm (lr_address d) (v\<lparr>cl_lock := add_lock_record ty d (cl_lock v)\<rparr>))"

text \<open>\<open>queueTail\<close> is a \<open>short\<close> between -1 and 499.\<close>

record EarlierQueue =
  eq_tail :: int
  eq_queue :: "LockRecord list"

definition earlier_cleanUpQueue :: "EarlierQueue \<Rightarrow> EarlierQueue" where
  "earlier_cleanUpQueue q = q\<lparr>eq_tail := -1\<rparr>"

definition earlier_writingIntoHashTable :: "nat \<Rightarrow> EarlierQueue \<Rightarrow> contended_locks \<Rightarrow> contended_locks" where
  "earlier_writingIntoHashTable ty q hm = fold (earlier_writingIntoAddress ty) (take (nat (eq_tail q + 1)) (eq_queue q)) hm"

text \<open>A full queue is written into the table, under the type of call that \<open>allocationTypeForOutputData\<close> has at that moment.\<close>

definition earlier_writingNewDataInTheQueue ::
  "nat \<Rightarrow> u64 \<Rightarrow> EarlierQueue \<times> contended_locks \<Rightarrow> EarlierQueue \<times> contended_locks" where
  "earlier_writingNewDataInTheQueue ty address = (\<lambda>(q, hm).
    let (q, hm) = (if eq_tail q = int EARLIER_LENGTH_OF_QUEUE - 1
                   then (earlier_cleanUpQueue q, earlier_writingIntoHashTable ty q hm) else (q, hm));
        t = eq_tail q + 1
    in (q\<lparr>eq_tail := t, eq_queue := (eq_queue q)[nat t := LockRecord_zero\<lparr>lr_address := address\<rparr>]\<rparr>, hm))"

definition update_last_record :: "(LockRecord \<Rightarrow> LockRecord) \<Rightarrow> EarlierQueue \<Rightarrow> crash + EarlierQueue" where
  "update_last_record f q =
    (if 0 \<le> eq_tail q \<and> eq_tail q < int (length (eq_queue q))
     then Inr (q\<lparr>eq_queue := (eq_queue q)[nat (eq_tail q) := f (eq_queue q ! nat (eq_tail q))]\<rparr>)
     else Inl OutOfBounds)"

definition EarlierQueue_addAContention :: "EarlierQueue \<Rightarrow> crash + EarlierQueue" where
  "EarlierQueue_addAContention q =
    update_last_record (\<lambda>d. d\<lparr>lr_numOfCallsWithContentions := lr_numOfCallsWithContentions d + 1\<rparr>) q"

definition EarlierQueue_addCallAndCycles :: "u32 \<Rightarrow> u64 \<Rightarrow> EarlierQueue \<Rightarrow> crash + EarlierQueue" where
  "EarlierQueue_addCallAndCycles calls cycles q =
    update_last_record (\<lambda>d. d\<lparr>lr_numOfCalls := lr_numOfCalls d + calls, lr_cycles := lr_cycles d + cycles\<rparr>) q"

record CriticalSections =
  cr_numOfOwningLocks :: u32
  cr_numOfCriticalSections :: u32
  cr_cyclesBefore :: u64
  cr_cyclesAfter :: u64
  cr_totalCycles :: u64

definition startCriticalSection :: "u64 \<Rightarrow> CriticalSections \<Rightarrow> CriticalSections" where
  "startCriticalSection now c =
    (let c = c\<lparr>cr_numOfOwningLocks := cr_numOfOwningLocks c + 1\<rparr> in
     if cr_numOfOwningLocks c = 1 then c\<lparr>cr_cyclesBefore := now\<rparr> else c)"

definition stopCriticalSection :: "u64 \<Rightarrow> CriticalSections \<Rightarrow> CriticalSections" where
  "stopCriticalSection now c =
    (let c = c\<lparr>cr_numOfOwningLocks := cr_numOfOwningLocks c - 1\<rparr> in
     if cr_numOfOwningLocks c = 0
     then (let c = c\<lparr>cr_cyclesAfter := now, cr_numOfCriticalSections := cr_numOfCriticalSections c + 1\<rparr> in
           c\<lparr>cr_totalCycles := cr_totalCycles c + (cr_cyclesAfter c - cr_cyclesBefore c)\<rparr>)
     else c)"

definition CriticalSections_cleanUp :: "CriticalSections \<Rightarrow> CriticalSections" where
  "CriticalSections_cleanUp c = c\<lparr>cr_numOfCriticalSections := 0, cr_totalCycles := 0\<rparr>"

section \<open>The allocating status\<close>

record EarlierStatus =
  ea_allocatingType :: EarlierType
  ea_typeForOutputData :: AllocationTypeForOutputData
  ea_typeForPrediction :: AllocationTypeForOutputData
  ea_cyclesBefore :: u64
  ea_cyclesAfter :: u64
  ea_cyclesInReal :: u64
  ea_cyclesMinus :: u64
  ea_countingBefore :: PerfReadInfo
  ea_countingAfter :: PerfReadInfo
  ea_countingInReal :: PerfReadInfo
  ea_nowRunningLockType :: LockTypes
  ea_queue :: EarlierQueue
  ea_overview :: "OverviewLockDataInAllocatingStatus list"
  ea_critical :: CriticalSections
  ea_systemCallData :: "SystemCallData list"
  ea_firstAllocation :: bool
  ea_sampled :: bool

definition EarlierStatus_zero :: EarlierStatus where
  "EarlierStatus_zero = \<lparr>ea_allocatingType = \<lparr>ey_doingAllocation = False, ey_objectSizeType = SMALL,
      ey_allocatingFunction = MALLOC, ey_objectSize = 0, ey_newTouchedPageSize = 0, ey_objectAddress = 0,
      ey_isReusedObject = False, ey_classSizeIndex = 0, ey_classSize = 0\<rparr>,
    ea_typeForOutputData = SERIAL_SMALL_NEW_MALLOC, ea_typeForPrediction = SERIAL_SMALL_NEW_MALLOC,
    ea_cyclesBefore = 0, ea_cyclesAfter = 0, ea_cyclesInReal = 0, ea_cyclesMinus = 0,
    ea_countingBefore = PerfReadInfo_zero, ea_countingAfter = PerfReadInfo_zero, ea_countingInReal = PerfReadInfo_zero,
    ea_nowRunningLockType = MUTEX,
    ea_queue = \<lparr>eq_tail = -1, eq_queue = replicate EARLIER_LENGTH_OF_QUEUE LockRecord_zero\<rparr>,
    ea_overview = replicate NUM_OF_LOCKTYPES Overview_zero,
    ea_critical = \<lparr>cr_numOfOwningLocks = 0, cr_numOfCriticalSections = 0, cr_cyclesBefore = 0, cr_cyclesAfter = 0, cr_totalCycles = 0\<rparr>,
    ea_systemCallData = replicate NUM_OF_SYSTEMCALLTYPES SystemCallData_zero,
    ea_firstAllocation = False, ea_sampled = False\<rparr>"

definition earlier_isFirstFunction :: "EarlierStatus \<Rightarrow> bool \<times> EarlierStatus" where
  "earlier_isFirstFunction a =
    (if \<not> ea_firstAllocation a then (True, a\<lparr>ea_firstAllocation := True\<rparr>) else (False, a))"

definition set_type :: "(EarlierType \<Rightarrow> EarlierType) \<Rightarrow> EarlierStatus \<Rightarrow> EarlierStatus" where
  "set_type f a = a\<lparr>ea_allocatingType := f (ea_allocatingType a)\<rparr>"

definition earlier_updateAllocatingTypeBefore ::
  "ProgramStatus \<Rightarrow> AllocationFunction \<Rightarrow> u32 \<Rightarrow> EarlierStatus \<Rightarrow> EarlierStatus" where
  "earlier_updateAllocatingTypeBefore ps f sz =
    set_type (\<lambda>y. y\<lparr>ey_allocatingFunction := f, ey_objectSize := sz, ey_objectSizeType := getObjectSizeType ps sz,
                   ey_doingAllocation := True\<rparr>)"

definition earlier_updateFreeingTypeBefore :: "AllocationFunction \<Rightarrow> u64 \<Rightarrow> EarlierStatus \<Rightarrow> EarlierStatus" where
  "earlier_updateFreeingTypeBefore f address =
    set_type (\<lambda>y. y\<lparr>ey_allocatingFunction := f, ey_objectAddress := address, ey_doingAllocation := True\<rparr>)"

definition startCountCountingEvents :: "PerfReadInfo \<Rightarrow> u64 \<Rightarrow> EarlierStatus \<Rightarrow> EarlierStatus" where
  "startCountCountingEvents counts now a =
    (if ea_sampled a then a\<lparr>ea_countingBefore := counts\<rparr> else a)\<lparr>ea_cyclesBefore := now\<rparr>"

text \<open>Large objects are sampled more often.\<close>

definition decide_sampling :: "bool \<Rightarrow> u32 \<Rightarrow> u32 \<Rightarrow> EarlierThread \<Rightarrow> EarlierStatus \<Rightarrow> crash + EarlierStatus" where
  "decide_sampling counting drawn sz t a =
    bindR (if unat sz < 64 * ONE_KB then earlier_randomProcessForCountingEvent counting drawn t
           else randomProcessForLargeCountingEvent counting drawn t) (\<lambda>b. Inr (a\<lparr>ea_sampled := b\<rparr>))"

definition earlier_updateAllocatingStatusBefore ::
  "ProgramStatus \<Rightarrow> AllocationFunction \<Rightarrow> u32 \<Rightarrow> bool \<Rightarrow> u32 \<Rightarrow> PerfReadInfo \<Rightarrow> u64 \<Rightarrow> EarlierThread
    \<Rightarrow> EarlierStatus \<Rightarrow> crash + EarlierStatus" where
  "earlier_updateAllocatingStatusBefore ps f sz counting drawn counts now t a =
    bindR (decide_sampling counting drawn sz t (earlier_updateAllocatingTypeBefore ps f sz a)) (\<lambda>a.
    Inr (startCountCountingEvents counts now a))"

definition lost :: "u64 \<Rightarrow> u64" where
  "lost x = (if x > of_nat ABNORMAL_VALUE then 0 else x)"

definition calculateCountingDataInRealFunction :: "EarlierStatus \<Rightarrow> EarlierStatus" where
  "calculateCountingDataInRealFunction a =
    (let b = ea_countingBefore a; e = ea_countingAfter a in
     a\<lparr>ea_countingInReal := \<lparr>pr_faults = pr_faults e - pr_faults b, pr_cache = pr_cache e - pr_cache b,
                             pr_instructions = pr_instructions e - pr_instructions b\<rparr>\<rparr>)"

definition removeAbnormalCountingEventValues :: "EarlierStatus \<Rightarrow> EarlierStatus" where
  "removeAbnormalCountingEventValues a =
    (let d = ea_countingInReal a in
     a\<lparr>ea_countingInReal := \<lparr>pr_faults = lost (pr_faults d), pr_cache = lost (pr_cache d),
                             pr_instructions = lost (pr_instructions d)\<rparr>\<rparr>)"

text \<open>\<open>cyclesMinus\<close> is what recording itself has cost since the last call.\<close>

definition calculateCycleInRealFunction :: "EarlierStatus \<Rightarrow> EarlierStatus" where
  "calculateCycleInRealFunction a =
    (let c = ea_cyclesAfter a - ea_cyclesBefore a in
     a\<lparr>ea_cyclesInReal := (if c > ea_cyclesMinus a then c - ea_cyclesMinus a else 0), ea_cyclesMinus := 0\<rparr>)"

definition removeAbnormalCycleValues :: "EarlierStatus \<Rightarrow> EarlierStatus" where
  "removeAbnormalCycleValues a = a\<lparr>ea_cyclesInReal := lost (ea_cyclesInReal a)\<rparr>"

definition stopCountCountingEvents :: "PerfReadInfo \<Rightarrow> u64 \<Rightarrow> EarlierStatus \<Rightarrow> EarlierStatus" where
  "stopCountCountingEvents counts now a =
    (let a = a\<lparr>ea_cyclesAfter := now\<rparr>;
         a = (if ea_sampled a then a\<lparr>ea_countingAfter := counts\<rparr> else a);
         a = removeAbnormalCycleValues (calculateCycleInRealFunction a)
     in if ea_sampled a then removeAbnormalCountingEventValues (calculateCountingDataInRealFunction a) else a)"

definition minusCycles :: "u64 \<Rightarrow> EarlierStatus \<Rightarrow> EarlierStatus" where
  "minusCycles cycles a = a\<lparr>ea_cyclesMinus := ea_cyclesMinus a + cycles\<rparr>"

section \<open>The memory status\<close>

text \<open>
  Objects and call sites are in \<open>MemoryWaste\<close>, which this version has as \<^verbatim>\<open>src_temp\<close> does (\<^verbatim>\<open>memwaste.cpp\<close>,
  \<^verbatim>\<open>memoryusage.cpp\<close>, \<^verbatim>\<open>backtrace.cpp\<close>); only there the lowest and the highest address are kept, too.
\<close>

record EarlierMemory =
  em_map :: MegaMap
  em_waste :: MemoryWaste
  em_usage :: MemoryUsage

text \<open>\<open>frames\<close> and their number are what \<open>backtrace\<close> of the C library finds. The key is that of \<open>ObjTable\<close>'s call keys.\<close>

definition doABackTrace :: "CallEnv \<Rightarrow> u8 \<Rightarrow> u64 list \<Rightarrow> u32 \<Rightarrow> MemoryWaste \<Rightarrow> crash + (u8 \<times> MemoryWaste)" where
  "doABackTrace env n frames sz w =
    (let key = callKey_of env; bt = mw_backtrace w in
     bindR (HashMap_find (BTMemMap bt) key) (\<lambda>status.
     bindR (case status of
              None \<Rightarrow> bindR (HashMap_insert (BTMemMap bt) (mw_memory w) (unat (ce_tid env)) key newBackTraceMemory) (\<lambda>(e, m, mm).
                Inr (e, HashMap_assign m e ((hm_value m e)\<lparr>numberOfFrame := n, bt_frames := frames\<rparr>), mm))
            | Some e \<Rightarrow> Inr (e, BTMemMap bt, mw_memory w)) (\<lambda>(e, m, mm).
     let v = hm_value m e; m = HashMap_assign m e (v\<lparr>memAllocated := memAllocated v + ucast sz\<rparr>) in
     Inr (key, w\<lparr>mw_backtrace := bt\<lparr>BTMemMap := m\<rparr>, mw_memory := mm\<rparr>))))"

definition earlier_updateMemoryStatusAfterAllocation ::
  "CallEnv \<Rightarrow> u8 \<Rightarrow> u64 list \<Rightarrow> bool \<Rightarrow> nat \<Rightarrow> EarlierStatus \<Rightarrow> EarlierMemory \<Rightarrow> crash + (EarlierStatus \<times> EarlierMemory)" where
  "earlier_updateMemoryStatusAfterAllocation env n frames try_lock_succeeds threads a m =
    (let tid = ce_tid env; sz = ey_objectSize (ea_allocatingType a); address = ey_objectAddress (ea_allocatingType a) in
     bindR (doABackTrace env n frames sz (em_waste m)) (\<lambda>(callsiteKey, w).
     bindR (allocUpdate tid sz address callsiteKey w) (\<lambda>(reused, w).
     let a = set_type (\<lambda>y. y\<lparr>ey_isReusedObject := reused, ey_classSizeIndex := classSizeIndex (mw_current w tid),
                             ey_classSize := sc_classSize (mw_current w tid)\<rparr>) a in
     bindR (updateObject tid address sz False (em_map m)) (\<lambda>(touched, map).
     let a = set_type (\<lambda>y. y\<lparr>ey_newTouchedPageSize := touched\<rparr>) a;
         (u, w) = addToMemoryUsage try_lock_succeeds threads tid sz touched (em_usage m) w
     in Inr (a, \<lparr>em_map = map, em_waste = w, em_usage = u\<rparr>)))))"

definition switchFreeingType :: "ProgramStatus \<Rightarrow> u32 \<Rightarrow> u16 \<Rightarrow> u32 \<Rightarrow> EarlierStatus \<Rightarrow> EarlierStatus" where
  "switchFreeingType ps sz class_index class_size =
    set_type (\<lambda>y. y\<lparr>ey_objectSize := sz, ey_objectSizeType := getObjectSizeType ps sz, ey_isReusedObject := False,
                   ey_classSizeIndex := class_index, ey_classSize := class_size\<rparr>)"

definition earlier_updateMemoryStatusBeforeFree ::
  "ProgramStatus \<Rightarrow> u16 \<Rightarrow> EarlierStatus \<Rightarrow> EarlierMemory \<Rightarrow> crash + (EarlierStatus \<times> EarlierMemory)" where
  "earlier_updateMemoryStatusBeforeFree ps tid a m =
    bindR (freeUpdate tid (ey_objectAddress (ea_allocatingType a)) (em_waste m)) (\<lambda>(ob, w).
    let c = mw_current w tid;
        a = (case ob of None \<Rightarrow> switchFreeingType ps 0 0 0 a
             | Some _ \<Rightarrow> switchFreeingType ps (sc_size c) (classSizeIndex c) (sc_classSize c) a);
        m = m\<lparr>em_waste := w\<rparr>; y = ea_allocatingType a
    in if ey_objectSize y \<noteq> 0
       then bindR (updateObject tid (ey_objectAddress y) (ey_objectSize y) True (em_map m)) (\<lambda>(touched, map).
         Inr (set_type (\<lambda>y. y\<lparr>ey_newTouchedPageSize := touched\<rparr>) a,
              m\<lparr>em_map := map, em_usage := subRealSizeFromMemoryUsage tid (ey_objectSize y) (em_usage m)\<rparr>))
       else Inr (a, m))"

text \<open>Pages given back, by \<open>madvise\<close> and \<open>munmap\<close>.\<close>

definition earlier_give_back :: "u16 \<Rightarrow> u64 \<Rightarrow> u64 \<Rightarrow> EarlierMemory \<Rightarrow> crash + EarlierMemory" where
  "earlier_give_back tid addr len m =
    bindR (mega_cleanupPages addr len (em_map m)) (\<lambda>(cleanedPageSize, map).
    Inr (m\<lparr>em_map := map, em_usage := subTotalSizeFromMemoryUsage tid (ucast cleanedPageSize) (em_usage m)\<rparr>))"

section \<open>Before and after the real function\<close>

definition earlier_updateFreeingStatusBefore ::
  "ProgramStatus \<Rightarrow> AllocationFunction \<Rightarrow> u64 \<Rightarrow> u16 \<Rightarrow> bool \<Rightarrow> u32 \<Rightarrow> PerfReadInfo \<Rightarrow> u64 \<Rightarrow> EarlierThread
    \<Rightarrow> EarlierStatus \<Rightarrow> EarlierMemory \<Rightarrow> crash + (EarlierStatus \<times> EarlierMemory)" where
  "earlier_updateFreeingStatusBefore ps f address tid counting drawn counts now t a m =
    bindR (earlier_updateMemoryStatusBeforeFree ps tid (earlier_updateFreeingTypeBefore f address a) m) (\<lambda>(a, m).
    if f = FREE
    then bindR (decide_sampling counting drawn (ey_objectSize (ea_allocatingType a)) t a) (\<lambda>a.
      Inr (startCountCountingEvents counts now a, m))
    else Inr (a, m))"

definition earlier_updateAllocatingStatusAfter ::
  "CallEnv \<Rightarrow> u8 \<Rightarrow> u64 list \<Rightarrow> bool \<Rightarrow> nat \<Rightarrow> PerfReadInfo \<Rightarrow> u64 \<Rightarrow> u64 \<Rightarrow> EarlierStatus \<Rightarrow> EarlierMemory
    \<Rightarrow> crash + (EarlierStatus \<times> EarlierMemory)" where
  "earlier_updateAllocatingStatusAfter env n frames try_lock_succeeds threads counts now object a m =
    (let a = stopCountCountingEvents counts now a; f = ey_allocatingFunction (ea_allocatingType a) in
     bindR (if f = MALLOC \<or> f = REALLOC
            then earlier_updateMemoryStatusAfterAllocation env n frames try_lock_succeeds threads
                   (set_type (\<lambda>y. y\<lparr>ey_objectAddress := object\<rparr>) a) m
            else Inr (a, m))
       (\<lambda>(a, m). Inr (set_type (\<lambda>y. y\<lparr>ey_doingAllocation := False\<rparr>) a, m)))"

definition earlier_updateFreeingStatusAfter :: "PerfReadInfo \<Rightarrow> u64 \<Rightarrow> EarlierStatus \<Rightarrow> EarlierStatus" where
  "earlier_updateFreeingStatusAfter counts now a =
    set_type (\<lambda>y. y\<lparr>ey_doingAllocation := False\<rparr>) (stopCountCountingEvents counts now a)"

section \<open>Classifying the call\<close>

text \<open>The tree of cases, which the source has twice with different tests for a large and for a small object.\<close>

definition choose_type :: "bool \<Rightarrow> AllocationFunction \<Rightarrow> bool \<Rightarrow> bool \<Rightarrow> bool \<Rightarrow> AllocationTypeForOutputData" where
  "choose_type single f large small reused =
    (if f = MALLOC
     then (if large then (if single then SERIAL_LARGE_MALLOC else PARALLEL_LARGE_MALLOC)
           else if small
           then (if reused then (if single then SERIAL_SMALL_REUSED_MALLOC else PARALLEL_SMALL_REUSED_MALLOC)
                 else (if single then SERIAL_SMALL_NEW_MALLOC else PARALLEL_SMALL_NEW_MALLOC))
           else (if reused then (if single then SERIAL_MEDIUM_REUSED_MALLOC else PARALLEL_MEDIUM_REUSED_MALLOC)
                 else (if single then SERIAL_MEDIUM_NEW_MALLOC else PARALLEL_MEDIUM_NEW_MALLOC)))
     else if f = FREE
     then (if large then (if single then SERIAL_LARGE_FREE else PARALLEL_LARGE_FREE)
           else if small then (if single then SERIAL_SMALL_FREE else PARALLEL_SMALL_FREE)
           else (if single then SERIAL_MEDIUM_FREE else PARALLEL_MEDIUM_FREE))
     else if f = CALLOC then (if single then SERIAL_NORMAL_CALLOC else PARALLEL_NORMAL_CALLOC)
     else if f = REALLOC then (if single then SERIAL_NORMAL_REALLOC else PARALLEL_NORMAL_REALLOC)
     else if f = POSIX_MEMALIGN then (if single then SERIAL_NORMAL_POSIX_MEMALIGN else PARALLEL_NORMAL_POSIX_MEMALIGN)
     else (if single then SERIAL_NORMAL_MEMALIGN else PARALLEL_NORMAL_MEMALIGN))"

definition earlier_setAllocationTypeForOutputData :: "EarlierCounts \<Rightarrow> EarlierStatus \<Rightarrow> EarlierStatus" where
  "earlier_setAllocationTypeForOutputData g a =
    (let y = ea_allocatingType a in
     a\<lparr>ea_typeForOutputData := choose_type (earlier_isCurrentlySingleThread g) (ey_allocatingFunction y)
        (ey_objectSizeType y = LARGE) (ey_objectSizeType y = SMALL) (ey_isReusedObject y)\<rparr>)"

text \<open>Here the number of the size type, 0 to 2, is compared with the thresholds, which are sizes in bytes.\<close>

definition earlier_setAllocationTypeForPrediction :: "EarlierCounts \<Rightarrow> Predictor \<Rightarrow> EarlierStatus \<Rightarrow> EarlierStatus" where
  "earlier_setAllocationTypeForPrediction g p a =
    (let y = ea_allocatingType a; code = ObjectSizeType_code (ey_objectSizeType y) in
     a\<lparr>ea_typeForPrediction := choose_type (earlier_isCurrentlySingleThread g) (ey_allocatingFunction y)
        (of_int code > replacedLargeObjectThreshold p) (code \<le> uint (replacedMiddleObjectThreshold p)) (ey_isReusedObject y)\<rparr>)"

section \<open>Adding up\<close>

definition add_overview :: "nat \<Rightarrow> OverviewLockData \<Rightarrow> OverviewLockDataInAllocatingStatus \<Rightarrow> OverviewLockData" where
  "add_overview ty d n =
    d\<lparr>ov_numOfLocks := ov_numOfLocks d + ao_numOfLocks n,
      ov_numOfCalls := (ov_numOfCalls d)[ty := ov_numOfCalls d ! ty + ao_numOfCalls n],
      ov_numOfCallsWithContentions :=
        (ov_numOfCallsWithContentions d)[ty := ov_numOfCallsWithContentions d ! ty + ao_numOfCallsWithContentions n],
      ov_totalCycles := (ov_totalCycles d)[ty := ov_totalCycles d ! ty + ao_cycles n]\<rparr>"

definition earlier_addUpOverview :: "EarlierStatus \<Rightarrow> EarlierThread \<Rightarrow> EarlierThread" where
  "earlier_addUpOverview a t =
    t\<lparr>eth_overviewLockData := for_loop NUM_OF_LOCKTYPES
        (\<lambda>i ds. ds[i := add_overview (earlier_index (ea_typeForOutputData a)) (ds ! i) (ea_overview a ! i)])
        (eth_overviewLockData t)\<rparr>"

definition earlier_addUpDetail :: "EarlierStatus \<Rightarrow> contended_locks \<Rightarrow> contended_locks" where
  "earlier_addUpDetail a hm = earlier_writingIntoHashTable (earlier_index (ea_typeForOutputData a)) (ea_queue a) hm"

definition earlier_addUpCriticalSection :: "EarlierStatus \<Rightarrow> EarlierThread \<Rightarrow> EarlierThread" where
  "earlier_addUpCriticalSection a t =
    (let ty = earlier_index (ea_typeForOutputData a); c = ea_critical a; xs = eth_criticalSectionStatus t in
     t\<lparr>eth_criticalSectionStatus := xs[ty := (xs ! ty)\<lparr>csec_num := csec_num (xs ! ty) + cr_numOfCriticalSections c,
                                                     csec_cycles := csec_cycles (xs ! ty) + cr_totalCycles c\<rparr>]\<rparr>)"

definition earlier_addUpSyscalls :: "EarlierStatus \<Rightarrow> EarlierThread \<Rightarrow> EarlierThread" where
  "earlier_addUpSyscalls a t =
    (let ty = earlier_index (ea_typeForOutputData a) in
     t\<lparr>eth_systemCallData := for_loop NUM_OF_SYSTEMCALLTYPES
        (\<lambda>i ds. ds[i := (ds ! i)[ty := SystemCallData_add (ds ! i ! ty) (ea_systemCallData a ! i)]])
        (eth_systemCallData t)\<rparr>)"

definition earlier_addUpOtherFunctionsInfo ::
  "EarlierStatus \<Rightarrow> EarlierThread \<times> contended_locks \<Rightarrow> EarlierThread \<times> contended_locks" where
  "earlier_addUpOtherFunctionsInfo a = (\<lambda>(t, hm).
    let t = earlier_addUpOverview a t; hm = earlier_addUpDetail a hm; t = earlier_addUpCriticalSection a t
    in (earlier_addUpSyscalls a t, hm))"

definition earlier_addUpCountingEvents :: "EarlierStatus \<Rightarrow> EarlierThread \<Rightarrow> EarlierThread" where
  "earlier_addUpCountingEvents a t =
    (let ty = earlier_index (ea_typeForOutputData a) in
     t\<lparr>eth_numOfSampledCountingFunctions :=
         (eth_numOfSampledCountingFunctions t)[ty := eth_numOfSampledCountingFunctions t ! ty + 1],
       eth_cycles := (eth_cycles t)[ty := eth_cycles t ! ty + ea_cyclesInReal a],
       eth_countingEvents := (eth_countingEvents t)[ty := PerfReadInfo_add (eth_countingEvents t ! ty) (ea_countingInReal a)]\<rparr>)"

definition earlier_cleanLockFunctionsInfo :: "EarlierStatus \<Rightarrow> EarlierStatus" where
  "earlier_cleanLockFunctionsInfo a =
    a\<lparr>ea_overview := replicate NUM_OF_LOCKTYPES Overview_zero, ea_queue := earlier_cleanUpQueue (ea_queue a),
      ea_critical := CriticalSections_cleanUp (ea_critical a)\<rparr>"

definition earlier_cleanSyscallsInfo :: "EarlierStatus \<Rightarrow> EarlierStatus" where
  "earlier_cleanSyscallsInfo a = a\<lparr>ea_systemCallData := map SystemCallData_cleanup (ea_systemCallData a)\<rparr>"

text \<open>One round of adding up.\<close>

definition earlier_add_up ::
  "EarlierStatus \<Rightarrow> EarlierThread \<times> contended_locks \<Rightarrow> EarlierThread \<times> contended_locks" where
  "earlier_add_up a s = (let (t, hm) = earlier_addUpOtherFunctionsInfo a s in (earlier_addUpCountingEvents a t, hm))"

definition earlier_updateAllocatingInfoToThreadLocalData ::
  "EarlierCounts \<Rightarrow> EarlierStatus \<times> EarlierThread \<times> contended_locks \<Rightarrow> EarlierStatus \<times> EarlierThread \<times> contended_locks" where
  "earlier_updateAllocatingInfoToThreadLocalData g = (\<lambda>(a, t, hm).
    let a = earlier_setAllocationTypeForOutputData g a; ty = earlier_index (ea_typeForOutputData a);
        t = t\<lparr>eth_numOfFunctions := (eth_numOfFunctions t)[ty := eth_numOfFunctions t ! ty + 1]\<rparr>
    in if ea_sampled a
       then (let (t, hm) = (if unat (ey_objectSize (ea_allocatingType a)) < 64 * ONE_KB
                            then for_loop 20 (\<lambda>_. earlier_add_up a) (t, hm) else earlier_add_up a (t, hm))
             in (earlier_cleanSyscallsInfo (earlier_cleanLockFunctionsInfo a), t, hm))
       else (a, t, hm))"

definition earlier_updateAllocatingInfoToPredictor ::
  "EarlierCounts \<Rightarrow> Predictor \<Rightarrow> EarlierStatus \<times> EarlierPredictorThread \<Rightarrow> EarlierStatus \<times> EarlierPredictorThread" where
  "earlier_updateAllocatingInfoToPredictor g p = (\<lambda>(a, pt).
    let a = earlier_setAllocationTypeForPrediction g p a; ty = earlier_index (ea_typeForPrediction a) in
    (a, pt\<lparr>et_numOfFunctions := (et_numOfFunctions pt)[ty := et_numOfFunctions pt ! ty + 1],
           et_functionCycles := (et_functionCycles pt)[ty := et_functionCycles pt ! ty + ea_cyclesInReal a]\<rparr>))"

section \<open>Recording inside a call\<close>

definition earlier_outsideTrackedAllocation :: "EarlierStatus \<Rightarrow> bool" where
  "earlier_outsideTrackedAllocation a \<longleftrightarrow> \<not> ey_doingAllocation (ea_allocatingType a)"

definition earlier_addOneSyscall :: "SystemCallTypes \<Rightarrow> u64 \<Rightarrow> EarlierStatus \<Rightarrow> EarlierStatus" where
  "earlier_addOneSyscall sc cycles a =
    (let i = SystemCallTypes_index sc in
     a\<lparr>ea_systemCallData := (ea_systemCallData a)[i := SystemCallData_addOneSystemCall (ea_systemCallData a ! i) cycles]\<rparr>)"

definition earlier_on_overview ::
  "LockTypes \<Rightarrow> (OverviewLockDataInAllocatingStatus \<Rightarrow> OverviewLockDataInAllocatingStatus) \<Rightarrow> EarlierStatus \<Rightarrow> EarlierStatus" where
  "earlier_on_overview ty f a =
    (let i = LockTypes_index ty in a\<lparr>ea_overview := (ea_overview a)[i := f (ea_overview a ! i)]\<rparr>)"

definition earlier_recordANewLock :: "LockTypes \<Rightarrow> EarlierStatus \<Rightarrow> EarlierStatus" where
  "earlier_recordANewLock ty = earlier_on_overview ty Overview_addANewLock"

definition earlier_initForWritingOneLockData ::
  "LockTypes \<Rightarrow> u64 \<Rightarrow> EarlierStatus \<times> contended_locks \<Rightarrow> EarlierStatus \<times> contended_locks" where
  "earlier_initForWritingOneLockData ty address = (\<lambda>(a, hm).
    let (q, hm) = earlier_writingNewDataInTheQueue (earlier_index (ea_typeForOutputData a)) address (ea_queue a, hm)
    in (a\<lparr>ea_nowRunningLockType := ty, ea_queue := q\<rparr>, hm))"

definition earlier_recordALockContention :: "EarlierStatus \<Rightarrow> crash + EarlierStatus" where
  "earlier_recordALockContention a =
    (let a = earlier_on_overview (ea_nowRunningLockType a) Overview_addAContention a in
     bindR (EarlierQueue_addAContention (ea_queue a)) (\<lambda>q. Inr (a\<lparr>ea_queue := q\<rparr>)))"

definition earlier_recordLockCallAndCycles :: "u32 \<Rightarrow> u64 \<Rightarrow> EarlierStatus \<Rightarrow> crash + EarlierStatus" where
  "earlier_recordLockCallAndCycles calls cycles a =
    (let a = earlier_on_overview (ea_nowRunningLockType a) (Overview_addCallAndCycles calls cycles) a in
     bindR (EarlierQueue_addCallAndCycles calls cycles (ea_queue a)) (\<lambda>q. Inr (a\<lparr>ea_queue := q\<rparr>)))"

definition on_critical :: "(CriticalSections \<Rightarrow> CriticalSections) \<Rightarrow> EarlierStatus \<Rightarrow> EarlierStatus" where
  "on_critical f a = a\<lparr>ea_critical := f (ea_critical a)\<rparr>"

section \<open>Lock functions and system calls\<close>

text \<open>
  The interposed functions of \<^verbatim>\<open>src/libmallocprof.cpp\<close>. The time the recording itself takes, 120 cycles, is taken off
  the call's cycles. The locks' table is per thread; its entries come from the profiler's memory.
\<close>

type_synonym locking = "EarlierStatus \<times> contended_locks \<times> MyMalloc"

definition earlier_not_recorded :: "EarlierStatus \<Rightarrow> bool" where
  "earlier_not_recorded a \<longleftrightarrow> earlier_outsideTrackedAllocation a \<or> \<not> ea_sampled a"

definition earlier_start_lock :: "LockTypes \<Rightarrow> nat \<Rightarrow> u64 \<Rightarrow> locking \<Rightarrow> crash + locking" where
  "earlier_start_lock ty tid lock = (\<lambda>(a, hm, mm).
    bindR (HashMap_find hm lock) (\<lambda>status.
    bindR (case status of
             Some e \<Rightarrow> Inr (e, a, hm, mm)
           | None \<Rightarrow> bindR (HashMap_insert hm mm tid lock (newContendedLockData ty)) (\<lambda>(e, hm, mm).
               Inr (e, earlier_recordANewLock ty a, hm, mm))) (\<lambda>(e, a, hm, mm).
    let (a, hm) = earlier_initForWritingOneLockData ty e (a, hm) in Inr (a, hm, mm))))"

text \<open>\<open>contended\<close>: the lock word is not free when it is looked at.\<close>

definition earlier_lock :: "LockTypes \<Rightarrow> nat \<Rightarrow> u64 \<Rightarrow> bool \<Rightarrow> u64 \<Rightarrow> u64 \<Rightarrow> u64 \<Rightarrow> locking \<Rightarrow> crash + locking" where
  "earlier_lock ty tid lock contended start stop now s =
    (if earlier_not_recorded (fst s) then Inr s
     else bindR (earlier_start_lock ty tid lock s) (\<lambda>(a, hm, mm).
          bindR (if contended then earlier_recordALockContention a else Inr a) (\<lambda>a.
          bindR (earlier_recordLockCallAndCycles 1 (stop - start) (minusCycles 120 a)) (\<lambda>a.
          Inr (on_critical (startCriticalSection now) a, hm, mm)))))"

definition earlier_pthread_mutex_lock :: "nat \<Rightarrow> u64 \<Rightarrow> int \<Rightarrow> u64 \<Rightarrow> u64 \<Rightarrow> u64 \<Rightarrow> locking \<Rightarrow> crash + locking" where
  "earlier_pthread_mutex_lock tid mutex lock_word = earlier_lock MUTEX tid mutex (lock_word \<noteq> 0)"

definition earlier_pthread_spin_lock :: "nat \<Rightarrow> u64 \<Rightarrow> int \<Rightarrow> u64 \<Rightarrow> u64 \<Rightarrow> u64 \<Rightarrow> locking \<Rightarrow> crash + locking" where
  "earlier_pthread_spin_lock tid lock lock_word = earlier_lock SPIN tid lock (lock_word \<noteq> 1)"

definition earlier_trylock :: "LockTypes \<Rightarrow> nat \<Rightarrow> u64 \<Rightarrow> int \<Rightarrow> u64 \<Rightarrow> u64 \<Rightarrow> u64 \<Rightarrow> locking \<Rightarrow> crash + locking" where
  "earlier_trylock ty tid lock result start stop now s =
    (if earlier_not_recorded (fst s) then Inr s
     else bindR (earlier_start_lock ty tid lock s) (\<lambda>(a, hm, mm).
          bindR (if result \<noteq> 0 then earlier_recordALockContention a else Inr (on_critical (startCriticalSection now) a)) (\<lambda>a.
          bindR (earlier_recordLockCallAndCycles 1 (stop - start) (minusCycles 120 a)) (\<lambda>a. Inr (a, hm, mm)))))"

definition earlier_pthread_spin_trylock :: "nat \<Rightarrow> u64 \<Rightarrow> int \<Rightarrow> u64 \<Rightarrow> u64 \<Rightarrow> u64 \<Rightarrow> locking \<Rightarrow> crash + locking" where
  "earlier_pthread_spin_trylock = earlier_trylock SPINTRY"

definition earlier_pthread_mutex_trylock :: "nat \<Rightarrow> u64 \<Rightarrow> int \<Rightarrow> u64 \<Rightarrow> u64 \<Rightarrow> u64 \<Rightarrow> locking \<Rightarrow> crash + locking" where
  "earlier_pthread_mutex_trylock = earlier_trylock MUTEXTRY"

definition earlier_pthread_mutex_unlock :: "u64 \<Rightarrow> locking \<Rightarrow> locking" where
  "earlier_pthread_mutex_unlock now = (\<lambda>(a, hm, mm).
    (if earlier_not_recorded a then a else on_critical (stopCriticalSection now) a, hm, mm))"

definition earlier_pthread_spin_unlock :: "u64 \<Rightarrow> locking \<Rightarrow> locking" where
  "earlier_pthread_spin_unlock now = (\<lambda>(a, hm, mm).
    (if earlier_not_recorded a then a else on_critical (stopCriticalSection now) (minusCycles 120 a), hm, mm))"

definition earlier_syscall :: "SystemCallTypes \<Rightarrow> u64 \<Rightarrow> u64 \<Rightarrow> EarlierStatus \<Rightarrow> EarlierStatus" where
  "earlier_syscall sc start stop a =
    (if earlier_not_recorded a then a else earlier_addOneSyscall sc (stop - start) (minusCycles 120 a))"

text \<open>Before the profiler is initialised \<open>mmap\<close> goes to the real one at once.\<close>

definition earlier_yymmap :: "bool \<Rightarrow> u64 \<Rightarrow> u64 \<Rightarrow> EarlierStatus \<Rightarrow> EarlierStatus" where
  "earlier_yymmap initialized start stop a = (if \<not> initialized then a else earlier_syscall MMAP start stop a)"

definition earlier_sbrk :: "u64 \<Rightarrow> u64 \<Rightarrow> EarlierStatus \<Rightarrow> EarlierStatus" where
  "earlier_sbrk = earlier_syscall SBRK"

definition earlier_mprotect :: "u64 \<Rightarrow> u64 \<Rightarrow> EarlierStatus \<Rightarrow> EarlierStatus" where
  "earlier_mprotect = earlier_syscall MPROTECT"

definition earlier_mremap :: "u64 \<Rightarrow> u64 \<Rightarrow> EarlierStatus \<Rightarrow> EarlierStatus" where
  "earlier_mremap = earlier_syscall MREMAP"

text \<open>Only pages given back while an allocation function runs are seen; 4 is \<open>MADV_DONTNEED\<close>.\<close>

definition earlier_madvise ::
  "u16 \<Rightarrow> u64 \<Rightarrow> u64 \<Rightarrow> int \<Rightarrow> u64 \<Rightarrow> u64 \<Rightarrow> EarlierStatus \<times> EarlierMemory \<Rightarrow> crash + (EarlierStatus \<times> EarlierMemory)" where
  "earlier_madvise tid addr len advice start stop = (\<lambda>(a, m).
    if earlier_outsideTrackedAllocation a then Inr (a, m)
    else bindR (if advice = 4 then earlier_give_back tid addr len m else Inr m) (\<lambda>m.
      Inr (if \<not> ea_sampled a then a else earlier_addOneSyscall MADVISE (stop - start) (minusCycles 120 a), m)))"

definition earlier_munmap ::
  "u16 \<Rightarrow> u64 \<Rightarrow> u64 \<Rightarrow> u64 \<Rightarrow> u64 \<Rightarrow> EarlierStatus \<times> EarlierMemory \<Rightarrow> crash + (EarlierStatus \<times> EarlierMemory)" where
  "earlier_munmap tid addr len start stop = (\<lambda>(a, m).
    if earlier_outsideTrackedAllocation a then Inr (a, m)
    else bindR (earlier_give_back tid addr len m) (\<lambda>m.
      Inr (if \<not> ea_sampled a then a else earlier_addOneSyscall MUNMAP (stop - start) (minusCycles 120 a), m)))"

end
