(* ===== verification/EarlierStatus_Correct.thy ===== *)
theory EarlierStatus_Correct
  imports EarlierStatus AllocatingStatus_Correct
begin

text \<open>
  What the earlier version records for a call: the type of the call is the one \<^verbatim>\<open>src_light\<close> computes by arithmetic, the
  critical sections are the time a lock was held, and the locks arrive in the table, under two types if the
  queue was full in between.
\<close>

section \<open>The type of a call\<close>

lemma earlier_index_less [simp]: "earlier_index t < 24"
  by (cases t) simp_all

lemma earlier_index_inj: "earlier_index s = earlier_index t \<longleftrightarrow> s = t"
  by (cases s; cases t) simp_all

text \<open>
  C37: the type of a call. The tree of cases of this version and the arithmetic on enumerators of \<^verbatim>\<open>src_light\<close> name the same
  type, for every function, size, reuse and number of running threads.
\<close>

theorem earlier_type_agrees:
  assumes "ey_allocatingFunction (ea_allocatingType e) = allocatingFunction (allocatingType a)"
    and "ey_objectSizeType (ea_allocatingType e) = objectSizeType (allocatingType a)"
    and "ey_isReusedObject (ea_allocatingType e) = isReuse (allocatingType a)"
    and "ec_totalNumOfRunningThread h = totalNumOfRunningThread g"
  shows "AllocationType_of_int (int (allocationTypeForOutputData (setAllocationTypeForOutputData g a)))
    = Some (ea_typeForOutputData (earlier_setAllocationTypeForOutputData h e))"
proof -
  have "isCurrentlyParallelThread g \<longleftrightarrow> \<not> earlier_isCurrentlySingleThread h"
    using assms(4) by (simp add: isCurrentlyParallelThread_def earlier_isCurrentlySingleThread_def not_le)
  then show ?thesis
    using assms(1-3) unfolding setAllocationTypeForOutputData_def earlier_setAllocationTypeForOutputData_def
    by (cases "allocatingFunction (allocatingType a)"; cases "objectSizeType (allocatingType a)")
      (simp_all add: Let_def choose_type_def malloc_type_def other_type_def AllocationType_of_int_def allocation_types_def)
qed

theorem earlier_type_agrees_witness:
  "AllocationType_of_int (int (allocationTypeForOutputData (setAllocationTypeForOutputData \<lparr>totalNumOfThread = 1, totalNumOfRunningThread = 1\<rparr>
      (AllocatingStatus_zero\<lparr>allocatingType := (allocatingType AllocatingStatus_zero)
        \<lparr>allocatingFunction := FREE, objectSizeType := LARGE, isReuse := False\<rparr>\<rparr>))))
    = Some (ea_typeForOutputData (earlier_setAllocationTypeForOutputData \<lparr>ec_totalNumOfThread = 1, ec_maxNumOfRunningThread = 1,
        ec_totalNumOfRunningThread = 1\<rparr> (set_type (\<lambda>y. y\<lparr>ey_allocatingFunction := FREE, ey_objectSizeType := LARGE\<rparr>) EarlierStatus_zero)))"
  by (rule earlier_type_agrees) (simp_all add: set_type_def EarlierStatus_zero_def)

text \<open>Any thresholds of two bytes or more: every object is predicted to be small.\<close>

theorem earlier_prediction_is_small:
  assumes "2 \<le> replacedLargeObjectThreshold p" and "2 \<le> replacedMiddleObjectThreshold p"
  shows "ea_typeForPrediction (earlier_setAllocationTypeForPrediction g p a)
    = choose_type (earlier_isCurrentlySingleThread g) (ey_allocatingFunction (ea_allocatingType a)) False True
        (ey_isReusedObject (ea_allocatingType a))"
proof -
  let ?c = "ObjectSizeType_code (ey_objectSizeType (ea_allocatingType a))"
  have c: "?c = 0 \<or> ?c = 1 \<or> ?c = 2" by (cases "ey_objectSizeType (ea_allocatingType a)") simp_all
  then have "\<not> (of_int ?c :: u32) > replacedLargeObjectThreshold p"
    using assms(1) by (auto simp: word_less_nat_alt word_le_nat_alt)
  moreover have "2 \<le> uint (replacedMiddleObjectThreshold p)"
    using assms(2) by (simp add: word_le_def)
  then have "?c \<le> uint (replacedMiddleObjectThreshold p)" using c by linarith
  ultimately show ?thesis by (simp add: earlier_setAllocationTypeForPrediction_def Let_def)
qed

section \<open>Critical sections\<close>

text \<open>A history of locking (\<open>True\<close>) and unlocking with the times, and how many locks are held after it.\<close>

fun owning :: "nat \<Rightarrow> (bool \<times> u64) list \<Rightarrow> nat" where
  "owning d [] = d"
| "owning d ((l, t) # es) = owning (if l then d + 1 else d - 1) es"

fun balanced :: "nat \<Rightarrow> nat \<Rightarrow> (bool \<times> u64) list \<Rightarrow> bool" where
  "balanced mx d [] = True"
| "balanced mx d ((l, t) # es) = (if l then d < mx \<and> balanced mx (d + 1) es else 0 < d \<and> balanced mx (d - 1) es)"

text \<open>The time from \<open>t0\<close> on during which a lock was held, and how often the last one was released.\<close>

fun time_held :: "nat \<Rightarrow> u64 \<Rightarrow> (bool \<times> u64) list \<Rightarrow> u64" where
  "time_held d t0 [] = 0"
| "time_held d t0 ((l, t) # es) = (if 0 < d then t - t0 else 0) + time_held (if l then d + 1 else d - 1) t es"

fun releases :: "nat \<Rightarrow> (bool \<times> u64) list \<Rightarrow> nat" where
  "releases d [] = 0"
| "releases d ((l, t) # es) = (if \<not> l \<and> d = 1 then 1 else 0) + releases (if l then d + 1 else d - 1) es"

definition section_step :: "bool \<times> u64 \<Rightarrow> CriticalSections \<Rightarrow> CriticalSections" where
  "section_step e = (case e of (l, t) \<Rightarrow> if l then startCriticalSection t else stopCriticalSection t)"

lemma owning_word:
  assumes "d < 2 ^ 32"
  shows "(of_nat d :: u32) = 0 \<longleftrightarrow> d = 0" "(of_nat d :: u32) = 1 \<longleftrightarrow> d = 1"
  using assms by (simp_all add: word_unat_eq_iff unat_of_nat take_bit_nat_eq_self)

text \<open>While a lock is held, the section's start is still to be taken off: \<open>cr_cyclesBefore\<close> is the time since when.\<close>

lemma sections_run:
  assumes "balanced mx d es" and "mx < 2 ^ 32" and "d \<le> mx" and "cr_numOfOwningLocks c = of_nat d" and "owning d es = 0"
  shows "let c' = fold section_step es c in cr_numOfOwningLocks c' = 0
    \<and> cr_numOfCriticalSections c' = cr_numOfCriticalSections c + of_nat (releases d es)
    \<and> cr_totalCycles c' = cr_totalCycles c + (if 0 < d then t0 - cr_cyclesBefore c else 0) + time_held d t0 es"
  using assms
proof (induction es arbitrary: d c t0)
  case (Cons e es)
  obtain l t where e: "e = (l, t)" by (cases e)
  define c1 where "c1 = section_step e c"
  define d1 where "d1 = (if l then d + 1 else d - 1)"
  have d: "d < 2 ^ 32" "d1 < 2 ^ 32" "d1 \<le> mx" using Cons.prems(1-3) by (auto simp: e d1_def split: if_splits)
  have b: "balanced mx d1 es" "l \<or> 0 < d" "owning d1 es = 0" using Cons.prems by (auto simp: e d1_def split: if_splits)
  have own: "cr_numOfOwningLocks c1 = of_nat d1"
    using Cons.prems(4) b(2) by (auto simp: c1_def d1_def e section_step_def startCriticalSection_def stopCriticalSection_def Let_def of_nat_diff)
  have z: "(of_nat d1 :: u32) = 0 \<longleftrightarrow> d1 = 0" "(of_nat d1 :: u32) = 1 \<longleftrightarrow> d1 = 1" by (rule owning_word [OF d(2)])+
  note ih = Cons.IH [OF b(1) Cons.prems(2) d(3) own b(3), of t, unfolded Let_def]
  show ?case
  proof (cases l)
    case True
    then have "cr_totalCycles c1 = cr_totalCycles c" "cr_numOfCriticalSections c1 = cr_numOfCriticalSections c"
        "cr_cyclesBefore c1 = (if d = 0 then t else cr_cyclesBefore c)"
      using own z by (auto simp: c1_def d1_def e section_step_def startCriticalSection_def Let_def split: if_splits)
    with ih True show ?thesis by (simp add: e c1_def d1_def Let_def)
  next
    case False
    then have "cr_totalCycles c1 = (if d = 1 then cr_totalCycles c + (t - cr_cyclesBefore c) else cr_totalCycles c)"
        "cr_numOfCriticalSections c1 = cr_numOfCriticalSections c + (if d = 1 then 1 else 0)"
        "cr_cyclesBefore c1 = cr_cyclesBefore c"
      using own z b(2) by (auto simp: c1_def d1_def e section_step_def stopCriticalSection_def Let_def split: if_splits)
    with ih False b(2) show ?thesis by (auto simp: e c1_def d1_def Let_def)
  qed
qed (simp add: Let_def)

lemma sections_owning:
  assumes "balanced mx d es" and "cr_numOfOwningLocks c = of_nat d"
  shows "cr_numOfOwningLocks (fold section_step es c) = of_nat (owning d es)"
  using assms
proof (induction es arbitrary: d c)
  case (Cons e es)
  obtain l t where e: "e = (l, t)" by (cases e)
  have "cr_numOfOwningLocks (section_step e c) = of_nat (if l then d + 1 else d - 1)"
    using Cons.prems by (auto simp: e section_step_def startCriticalSection_def stopCriticalSection_def Let_def of_nat_diff split: if_splits)
  with Cons show ?case by (auto simp: e split: if_splits)
qed simp

text \<open>C11: the critical sections of an allocator that releases the locks it takes: the cycles are the time during which it
  held a lock, however many, and the number is how often it let go of the last one.\<close>

theorem critical_sections_are_the_time_held:
  assumes "balanced mx 0 es" and "mx < 2 ^ 32" and "owning 0 es = 0" and "cr_numOfOwningLocks c = 0"
  shows "let c' = fold section_step es c in cr_numOfOwningLocks c' = 0
    \<and> cr_numOfCriticalSections c' = cr_numOfCriticalSections c + of_nat (releases 0 es)
    \<and> cr_totalCycles c' = cr_totalCycles c + time_held 0 0 es"
  using sections_run [OF assms(1,2) _ _ assms(3), of c 0] assms(4) by simp

theorem critical_sections_are_the_time_held_witness:
  "let es = [(True, 100), (True, 110), (False, 130), (False, 150), (True, 200), (False, 207)];
       c' = fold section_step es (ea_critical EarlierStatus_zero)
   in cr_numOfCriticalSections c' = 2 \<and> cr_totalCycles c' = 57"
  using critical_sections_are_the_time_held [of 2 "[(True, 100), (True, 110), (False, 130), (False, 150), (True, 200), (False, 207)]"
      "ea_critical EarlierStatus_zero"]
  by (simp add: EarlierStatus_zero_def Let_def)

text \<open>A lock that is kept when the call ends stays counted; of the calls after it nothing is recorded.\<close>

lemma sections_hidden:
  assumes "balanced mx d es" and "0 < k" and "k + mx < 2 ^ 32" and "d \<le> mx" and "cr_numOfOwningLocks c = of_nat (k + d)"
  shows "cr_numOfCriticalSections (fold section_step es c) = cr_numOfCriticalSections c
    \<and> cr_totalCycles (fold section_step es c) = cr_totalCycles c"
  using assms
proof (induction es arbitrary: d c)
  case (Cons e es)
  obtain l t where e: "e = (l, t)" by (cases e)
  define c1 where "c1 = section_step e c"
  define d1 where "d1 = (if l then d + 1 else d - 1)"
  have d1: "d1 \<le> mx" "balanced mx d1 es" "l \<or> 0 < d" using Cons.prems(1,4) by (auto simp: e d1_def split: if_splits)
  have "cr_numOfOwningLocks c1 = (if l then cr_numOfOwningLocks c + 1 else cr_numOfOwningLocks c - 1)"
    by (auto simp: c1_def e section_step_def startCriticalSection_def stopCriticalSection_def Let_def)
  then have own: "cr_numOfOwningLocks c1 = of_nat (k + d1)"
    using Cons.prems(5) d1(3) by (cases d) (auto simp: d1_def)
  have z: "(of_nat (k + d1) :: u32) \<noteq> 0"
    using owning_word(1) [of "k + d1"] d1(1) Cons.prems(2,3) by simp
  have "cr_totalCycles c1 = cr_totalCycles c" "cr_numOfCriticalSections c1 = cr_numOfCriticalSections c"
    using own z by (auto simp: c1_def e section_step_def startCriticalSection_def stopCriticalSection_def Let_def split: if_splits)
  with Cons.IH [OF d1(2) Cons.prems(2,3) d1(1) own] show ?case by (simp add: e c1_def)
qed simp

text \<open>C38: cleaning up after a call does not reset the number of locks held. An allocator that keeps a lock at the end of one sampled
  call, to release it in one that is not sampled, has no critical sections in any sampled call after it.\<close>

theorem kept_lock_hides_critical_sections:
  assumes "balanced mx 0 es" and "cr_numOfOwningLocks c = 0" and "0 < owning 0 es"
    and "balanced mx' 0 es'" and "owning 0 es + mx' < 2 ^ 32"
  shows "let c' = fold section_step es' (CriticalSections_cleanUp (fold section_step es c))
    in cr_numOfCriticalSections c' = 0 \<and> cr_totalCycles c' = 0"
proof -
  let ?c = "CriticalSections_cleanUp (fold section_step es c)"
  have "cr_numOfOwningLocks ?c = of_nat (owning 0 es + 0)"
    using sections_owning [OF assms(1), of c] assms(2) by (simp add: CriticalSections_cleanUp_def)
  from sections_hidden [OF assms(4,3,5) _ this] show ?thesis by (simp add: Let_def CriticalSections_cleanUp_def)
qed

theorem kept_lock_hides_critical_sections_witness:
  "let c' = fold section_step [(True, 300), (False, 340)]
      (CriticalSections_cleanUp (fold section_step [(True, 100)] (ea_critical EarlierStatus_zero)))
   in releases 0 [(True, 300), (False, 340)] = 1 \<and> cr_numOfCriticalSections c' = 0"
  using kept_lock_hides_critical_sections [of 1 "[(True, 100)]" "ea_critical EarlierStatus_zero" 1 "[(True, 300), (False, 340)]"]
  by (simp add: EarlierStatus_zero_def Let_def)

section \<open>Locks of a call\<close>

text \<open>A lock call: its type, the entry of the lock in the table, whether it had to wait, and the cycles it took.\<close>

type_synonym earlier_lock_call = "LockTypes \<times> u64 \<times> bool \<times> u64"

fun lock_record :: "earlier_lock_call \<Rightarrow> LockRecord" where
  "lock_record (ty, e, waited, cycles) = LockRecord_zero\<lparr>lr_address := e, lr_numOfCalls := 1,
    lr_numOfCallsWithContentions := (if waited then 1 else 0), lr_cycles := cycles\<rparr>"

fun record_earlier_call ::
  "earlier_lock_call \<Rightarrow> EarlierStatus \<times> contended_locks \<Rightarrow> crash + (EarlierStatus \<times> contended_locks)" where
  "record_earlier_call (ty, e, waited, cycles) s =
    (let (a, hm) = earlier_initForWritingOneLockData ty e s in
     bindR (if waited then earlier_recordALockContention a else Inr a) (\<lambda>a.
     bindR (earlier_recordLockCallAndCycles 1 cycles a) (\<lambda>a. Inr (a, hm))))"

fun record_earlier_calls ::
  "earlier_lock_call list \<Rightarrow> EarlierStatus \<times> contended_locks \<Rightarrow> crash + (EarlierStatus \<times> contended_locks)" where
  "record_earlier_calls [] s = Inr s"
| "record_earlier_calls (c # cs) s = bindR (record_earlier_call c s) (record_earlier_calls cs)"

text \<open>How many of \<open>n\<close> records a full queue has been emptied of.\<close>

definition flushed :: "nat \<Rightarrow> nat" where
  "flushed n = EARLIER_LENGTH_OF_QUEUE * ((n - 1) div EARLIER_LENGTH_OF_QUEUE)"

lemma flushed_le: "flushed n \<le> n" "n - flushed n \<le> EARLIER_LENGTH_OF_QUEUE"
proof -
  have "flushed n + (n - 1) mod EARLIER_LENGTH_OF_QUEUE = n - 1" by (simp add: flushed_def)
  moreover have "(n - 1) mod EARLIER_LENGTH_OF_QUEUE < EARLIER_LENGTH_OF_QUEUE" by (simp add: EARLIER_LENGTH_OF_QUEUE_def)
  ultimately show "flushed n \<le> n" "n - flushed n \<le> EARLIER_LENGTH_OF_QUEUE" by linarith+
qed

lemma flushed_Suc:
  "flushed (Suc n) = (if n - flushed n = EARLIER_LENGTH_OF_QUEUE then n else flushed n)"
proof (cases n)
  case (Suc k)
  define q r where "q = k div 500" and "r = k mod 500"
  then have k: "k = 500 * q + r" "r < 500" by simp_all
  have "flushed (Suc n) = 500 * (if r = 499 then Suc q else q)" "flushed n = 500 * q"
    by (simp_all add: flushed_def EARLIER_LENGTH_OF_QUEUE_def Suc div_Suc mod_Suc q_def r_def)
  with k show ?thesis by (auto simp: EARLIER_LENGTH_OF_QUEUE_def Suc)
qed (simp add: flushed_def)

lemma record_earlier_call_eq:
  assumes "length (eq_queue (ea_queue a)) = EARLIER_LENGTH_OF_QUEUE" and "-1 \<le> eq_tail (ea_queue a)"
    and "eq_tail (ea_queue a) < int EARLIER_LENGTH_OF_QUEUE"
    and "full \<longleftrightarrow> eq_tail (ea_queue a) = int EARLIER_LENGTH_OF_QUEUE - 1"
    and "i = (if full then 0 else nat (eq_tail (ea_queue a) + 1))"
  shows "\<exists>ov. record_earlier_call c (a, hm)
    = Inr (a\<lparr>ea_nowRunningLockType := fst c, ea_overview := ov,
             ea_queue := \<lparr>eq_tail = int i, eq_queue = (eq_queue (ea_queue a))[i := lock_record c]\<rparr>\<rparr>,
           if full then earlier_writingIntoHashTable (earlier_index (ea_typeForOutputData a)) (ea_queue a) hm else hm)"
proof -
  obtain ty e w cy where c: "c = (ty, e, w, cy)" by (metis prod_cases4)
  have i: "i < length (eq_queue (ea_queue a))" "int i < 500" using assms by (auto simp: EARLIER_LENGTH_OF_QUEUE_def)
  obtain q0 ql where q: "ea_queue a = \<lparr>eq_tail = q0, eq_queue = ql\<rparr>" by (cases "ea_queue a")
  let ?q = "\<lparr>eq_tail = int i, eq_queue = ql[i := LockRecord_zero\<lparr>lr_address := e\<rparr>]\<rparr>"
  let ?hm = "if full then earlier_writingIntoHashTable (earlier_index (ea_typeForOutputData a)) (ea_queue a) hm else hm"
  have init: "earlier_initForWritingOneLockData ty e (a, hm) = (a\<lparr>ea_nowRunningLockType := ty, ea_queue := ?q\<rparr>, ?hm)"
    using assms by (auto simp: earlier_initForWritingOneLockData_def earlier_writingNewDataInTheQueue_def q Let_def earlier_cleanUpQueue_def)
  have ql: "i < length ql" using i(1) q by simp
  show ?thesis
    by (cases w) (auto simp: c init earlier_recordALockContention_def earlier_recordLockCallAndCycles_def earlier_on_overview_def
        EarlierQueue_addAContention_def EarlierQueue_addCallAndCycles_def update_last_record_def Let_def ql q LockRecord_zero_def)
qed

lemma record_earlier_calls_snoc:
  "record_earlier_calls (cs @ [c]) s = bindR (record_earlier_calls cs s) (record_earlier_call c)"
proof (induction cs arbitrary: s)
  case Nil
  then show ?case by (cases "record_earlier_call c s") simp_all
next
  case (Cons x cs)
  have "record_earlier_calls (cs @ [c]) = (\<lambda>s. bindR (record_earlier_calls cs s) (record_earlier_call c))"
    using Cons.IH by (rule ext)
  then show ?case by (simp add: bindR_assoc)
qed

text \<open>What is in the queue and what in the table after some calls.\<close>

definition calls_recorded ::
  "earlier_lock_call list \<Rightarrow> EarlierStatus \<Rightarrow> contended_locks \<Rightarrow> EarlierStatus \<Rightarrow> contended_locks \<Rightarrow> bool" where
  "calls_recorded cs a0 hm0 a hm \<longleftrightarrow>
    (let n = length cs; m = flushed n; q = ea_queue a in
     a\<lparr>ea_queue := ea_queue a0, ea_nowRunningLockType := ea_nowRunningLockType a0, ea_overview := ea_overview a0\<rparr> = a0
     \<and> length (eq_queue q) = EARLIER_LENGTH_OF_QUEUE \<and> eq_tail q = int (n - m) - 1
     \<and> take (n - m) (eq_queue q) = map lock_record (drop m cs)
     \<and> hm = fold (earlier_writingIntoAddress (earlier_index (ea_typeForOutputData a0))) (map lock_record (take m cs)) hm0)"

lemma calls_recorded_ok:
  assumes "eq_tail (ea_queue a0) = -1" and "length (eq_queue (ea_queue a0)) = EARLIER_LENGTH_OF_QUEUE"
  shows "\<exists>a hm. record_earlier_calls cs (a0, hm0) = Inr (a, hm) \<and> calls_recorded cs a0 hm0 a hm"
proof (induction cs rule: rev_induct)
  case Nil
  then show ?case using assms by (simp add: calls_recorded_def flushed_def)
next
  case (snoc c cs)
  define n where "n = length cs"
  obtain a hm where run: "record_earlier_calls cs (a0, hm0) = Inr (a, hm)" and rec: "calls_recorded cs a0 hm0 a hm"
    using snoc by blast
  note R = rec [unfolded calls_recorded_def Let_def, folded n_def]
  have le: "flushed n \<le> n" "n - flushed n \<le> EARLIER_LENGTH_OF_QUEUE" by (rule flushed_le)+
  define full where "full \<longleftrightarrow> n - flushed n = EARLIER_LENGTH_OF_QUEUE"
  define i where "i = (if full then 0 else n - flushed n)"
  have ty: "ea_typeForOutputData a = ea_typeForOutputData a0" 
    using arg_cong [OF conjunct1 [OF R], of ea_typeForOutputData] by simp
  have full: "full \<longleftrightarrow> eq_tail (ea_queue a) = int EARLIER_LENGTH_OF_QUEUE - 1"
    using R le by (auto simp: full_def)
  have i: "i = (if full then 0 else nat (eq_tail (ea_queue a) + 1))" using R by (auto simp: i_def)
  have il: "i < EARLIER_LENGTH_OF_QUEUE" using le by (auto simp: i_def full_def EARLIER_LENGTH_OF_QUEUE_def)
  have bounds: "-1 \<le> eq_tail (ea_queue a)" "eq_tail (ea_queue a) < int EARLIER_LENGTH_OF_QUEUE" using R le by auto
  let ?hm = "if full then earlier_writingIntoHashTable (earlier_index (ea_typeForOutputData a)) (ea_queue a) hm else hm"
  obtain ov where step: "record_earlier_call c (a, hm)
      = Inr (a\<lparr>ea_nowRunningLockType := fst c, ea_overview := ov,
               ea_queue := \<lparr>eq_tail = int i, eq_queue = (eq_queue (ea_queue a))[i := lock_record c]\<rparr>\<rparr>, ?hm)"
    using record_earlier_call_eq [OF _ bounds full i, of c hm] R by blast
  have m: "flushed (Suc n) = (if full then n else flushed n)" by (simp add: flushed_Suc full_def)
  have table: "?hm = fold (earlier_writingIntoAddress (earlier_index (ea_typeForOutputData a0))) (map lock_record (take (flushed (Suc n)) (cs @ [c]))) hm0"
  proof (cases full)
    case True
    then have "take (nat (eq_tail (ea_queue a) + 1)) (eq_queue (ea_queue a)) = map lock_record (drop (flushed n) cs)" using R by simp
    moreover have "fold f (map lock_record (drop k cs)) (fold f (map lock_record (take k cs)) hm0) = fold f (map lock_record cs) hm0"
      for f :: "LockRecord \<Rightarrow> contended_locks \<Rightarrow> contended_locks" and k
    proof -
      have "fold f (map lock_record cs) hm0 = fold f (map lock_record (take k cs @ drop k cs)) hm0" by simp
      then show ?thesis by (simp only: map_append fold_append comp_apply)
    qed
    moreover have "take n (cs @ [c]) = cs" by (simp add: n_def)
    ultimately show ?thesis using True R ty by (simp add: m earlier_writingIntoHashTable_def)
  qed (use R le in \<open>simp add: m n_def [symmetric]\<close>)
  have queue: "take (Suc n - flushed (Suc n)) ((eq_queue (ea_queue a))[i := lock_record c]) = map lock_record (drop (flushed (Suc n)) (cs @ [c]))"
  proof (cases full)
    case True
    with R il show ?thesis by (cases "eq_queue (ea_queue a)") (simp_all add: m i_def n_def [symmetric])
  next
    case False
    then have "Suc n - flushed (Suc n) = Suc i" using le by (simp add: m i_def)
    with False R il le show ?thesis by (simp add: m i_def n_def [symmetric] take_Suc_conv_app_nth)
  qed
  have "calls_recorded (cs @ [c]) a0 hm0 (a\<lparr>ea_nowRunningLockType := fst c, ea_overview := ov,
      ea_queue := \<lparr>eq_tail = int i, eq_queue = (eq_queue (ea_queue a))[i := lock_record c]\<rparr>\<rparr>) ?hm"
    unfolding calls_recorded_def Let_def using R table queue le by (simp add: m i_def n_def [symmetric])
  with run step show ?case by (simp only: record_earlier_calls_snoc bindR.simps) blast
qed

text \<open>What writing records adds to the cells of an entry.\<close>

definition records_of :: "u64 \<Rightarrow> LockRecord list \<Rightarrow> LockRecord list" where
  "records_of e rs = filter (\<lambda>r. lr_address r = e) rs"

lemma write_records:
  "hm_value (fold (earlier_writingIntoAddress ty) rs hm) e
    = (hm_value hm e)\<lparr>cl_lock := fold (add_lock_record ty) (records_of e rs) (cl_lock (hm_value hm e))\<rparr>"
  by (induction rs arbitrary: hm) (auto simp: records_of_def earlier_writingIntoAddress_def Let_def HashMap_assign_def)

text \<open>The three cells of a type, of a table entry and of a record.\<close>

datatype lock_counts = Counts (n_calls: u32) (n_waits: u32) (n_cycles: u64)

instantiation lock_counts :: comm_monoid_add
begin

definition zero_lock_counts :: lock_counts where
  "0 = Counts 0 0 0"

definition plus_lock_counts :: "lock_counts \<Rightarrow> lock_counts \<Rightarrow> lock_counts" where
  "x + y = Counts (n_calls x + n_calls y) (n_waits x + n_waits y) (n_cycles x + n_cycles y)"

instance
  by standard (simp_all add: zero_lock_counts_def plus_lock_counts_def ac_simps)

end

definition lock_cells :: "DetailLockData \<Rightarrow> nat \<Rightarrow> lock_counts" where
  "lock_cells d i = Counts (dl_numOfCalls d ! i) (dl_numOfCallsWithContentions d ! i) (dl_cycles d ! i)"

definition record_cells :: "LockRecord \<Rightarrow> lock_counts" where
  "record_cells r = Counts (lr_numOfCalls r) (lr_numOfCallsWithContentions r) (lr_cycles r)"

lemma add_lock_record_wf: "DetailLockData_wf d \<Longrightarrow> DetailLockData_wf (add_lock_record ty r d)"
  by (simp add: DetailLockData_wf_def add_lock_record_def cells_def)

lemma lock_cells_add:
  assumes "DetailLockData_wf d" and "ty < 24"
  shows "lock_cells (add_lock_record ty r d) i = lock_cells d i + (if i = ty then record_cells r else 0)"
  using assms by (auto simp: lock_cells_def record_cells_def add_lock_record_def DetailLockData_wf_def cells_def config
      nth_list_update zero_lock_counts_def plus_lock_counts_def)

lemma lock_cells_fold:
  assumes "DetailLockData_wf d" and "ty < 24"
  shows "DetailLockData_wf (fold (add_lock_record ty) rs d)
    \<and> lock_cells (fold (add_lock_record ty) rs d) i = lock_cells d i + (if i = ty then sum_list (map record_cells rs) else 0)"
  using assms(1)
proof (induction rs arbitrary: d)
  case (Cons r rs)
  from Cons.IH [OF add_lock_record_wf [OF Cons.prems], of ty r] show ?case
    by (simp add: lock_cells_add [OF Cons.prems assms(2)] add.assoc)
qed simp

lemma lock_cells_written:
  assumes "DetailLockData_wf (cl_lock (hm_value hm e))" and "ty < 24"
  shows "DetailLockData_wf (cl_lock (hm_value (fold (earlier_writingIntoAddress ty) rs hm) e))
    \<and> lock_cells (cl_lock (hm_value (fold (earlier_writingIntoAddress ty) rs hm) e)) i
      = lock_cells (cl_lock (hm_value hm e)) i + (if i = ty then sum_list (map record_cells (records_of e rs)) else 0)"
  using lock_cells_fold [OF assms] by (simp add: write_records)

text \<open>Adding up many times.\<close>

fun times_added :: "nat \<Rightarrow> 'a :: monoid_add \<Rightarrow> 'a" where
  "times_added 0 x = 0"
| "times_added (Suc k) x = times_added k x + x"

lemma times_added_one [simp]: "times_added 1 x = x"
  by (simp add: numeral_eq_Suc)

lemma earlier_add_up_snd: "snd (earlier_add_up a s) = earlier_addUpDetail a (snd s)"
  by (cases s) (simp add: earlier_add_up_def earlier_addUpOtherFunctionsInfo_def Let_def)

lemma earlier_add_up_table: "snd (for_loop k (\<lambda>_. earlier_add_up a) s) = (earlier_addUpDetail a ^^ k) (snd s)"
  by (induction k) (simp_all add: for_loop_Suc earlier_add_up_snd)

lemma written_many_times:
  assumes "DetailLockData_wf (cl_lock (hm_value hm e))" and "ty < 24"
  shows "DetailLockData_wf (cl_lock (hm_value ((fold (earlier_writingIntoAddress ty) rs ^^ k) hm) e))
    \<and> lock_cells (cl_lock (hm_value ((fold (earlier_writingIntoAddress ty) rs ^^ k) hm) e)) i
      = lock_cells (cl_lock (hm_value hm e)) i
        + (if i = ty then times_added k (sum_list (map record_cells (records_of e rs))) else 0)"
proof (induction k)
  case (Suc k)
  note w = lock_cells_written [OF conjunct1 [OF Suc] assms(2), where rs = rs and i = i]
  from w conjunct2 [OF Suc] show ?case by (simp add: add.assoc)
qed (use assms in simp)

lemma update_table:
  assumes "ea_sampled a" and "earlier_updateAllocatingInfoToThreadLocalData g (a, t, hm) = (a', t', hm')"
    and "k = (if unat (ey_objectSize (ea_allocatingType a)) < 64 * ONE_KB then 20 else 1)"
  shows "hm' = (fold (earlier_writingIntoAddress (earlier_index (ea_typeForOutputData a')))
      (take (nat (eq_tail (ea_queue a) + 1)) (eq_queue (ea_queue a))) ^^ k) hm \<and> eq_tail (ea_queue a') = -1
    \<and> ea_typeForOutputData a' = ea_typeForOutputData (earlier_setAllocationTypeForOutputData g a)"
proof -
  let ?b = "earlier_setAllocationTypeForOutputData g a"
  let ?ty = "earlier_index (ea_typeForOutputData ?b)"
  let ?t = "t\<lparr>eth_numOfFunctions := (eth_numOfFunctions t)[?ty := eth_numOfFunctions t ! ?ty + 1]\<rparr>"
  have b: "ea_sampled ?b" "ea_allocatingType ?b = ea_allocatingType a" "ea_queue ?b = ea_queue a"
    using assms(1) by (simp_all add: earlier_setAllocationTypeForOutputData_def Let_def)
  obtain t2 hm2 where up: "for_loop k (\<lambda>_. earlier_add_up ?b) (?t, hm) = (t2, hm2)" by fastforce
  have "(if unat (ey_objectSize (ea_allocatingType a)) < 64 * ONE_KB then for_loop 20 (\<lambda>_. earlier_add_up ?b) (?t, hm)
      else earlier_add_up ?b (?t, hm)) = (t2, hm2)"
    using up assms(3) for_loop_Suc [of 0 "\<lambda>_. earlier_add_up ?b"] by (auto split: if_splits)
  then have "(a', t', hm') = (earlier_cleanSyscallsInfo (earlier_cleanLockFunctionsInfo ?b), t2, hm2)"
    using assms(2) b by (simp add: earlier_updateAllocatingInfoToThreadLocalData_def Let_def split: prod.splits)
  then have a': "a' = earlier_cleanSyscallsInfo (earlier_cleanLockFunctionsInfo ?b)" and hm': "hm' = hm2" by simp_all
  have "hm2 = (earlier_addUpDetail ?b ^^ k) hm" using earlier_add_up_table [of k ?b "(?t, hm)"] up by simp
  then show ?thesis
    unfolding a' hm'
    by (simp add: earlier_cleanSyscallsInfo_def earlier_cleanLockFunctionsInfo_def earlier_cleanUpQueue_def
        earlier_addUpDetail_def [abs_def] earlier_writingIntoHashTable_def [abs_def] b)
qed

text \<open>What some calls have recorded of the lock with entry \<open>e\<close>.\<close>

definition calls_of :: "u64 \<Rightarrow> earlier_lock_call list \<Rightarrow> lock_counts" where
  "calls_of e cs =
    (\<Sum>(ty, e', waited, cycles) \<leftarrow> cs. if e' = e then Counts 1 (if waited then 1 else 0) cycles else 0)"

lemma records_of_calls: "sum_list (map record_cells (records_of e (map lock_record cs))) = calls_of e cs"
  by (induction cs) (auto simp: records_of_def calls_of_def record_cells_def LockRecord_zero_def)

text \<open>C10: a sampled call and the locks taken in it, any number of them: an entry of the table gains what was recorded of its lock, 20 times
  if the object is small, under the type of the call. But of every 500 records a full queue is emptied in between;
  they are added once, and under the type of the call before, because the type of this one is not known yet.\<close>

theorem full_lock_queue_goes_to_the_call_before:
  assumes queue: "eq_tail (ea_queue a) = -1" "length (eq_queue (ea_queue a)) = EARLIER_LENGTH_OF_QUEUE"
    and wf: "\<forall>e. DetailLockData_wf (cl_lock (hm_value hm e))" and sampled: "ea_sampled a"
    and k: "k = (if unat (ey_objectSize (ea_allocatingType a)) < 64 * ONE_KB then 20 else 1)" and m: "m = flushed (length cs)"
  shows "\<exists>b hm1 a' t' hm'. record_earlier_calls cs (a, hm) = Inr (b, hm1)
    \<and> earlier_updateAllocatingInfoToThreadLocalData g (b, t, hm1) = (a', t', hm') \<and> eq_tail (ea_queue a') = -1
    \<and> ea_typeForOutputData a' = ea_typeForOutputData (earlier_setAllocationTypeForOutputData g a)
    \<and> (\<forall>e i. lock_cells (cl_lock (hm_value hm' e)) i = lock_cells (cl_lock (hm_value hm e)) i
        + (if i = earlier_index (ea_typeForOutputData a) then calls_of e (take m cs) else 0)
        + (if i = earlier_index (ea_typeForOutputData a') then times_added k (calls_of e (drop m cs)) else 0))"
proof -
  obtain b hm1 where run: "record_earlier_calls cs (a, hm) = Inr (b, hm1)" and rec: "calls_recorded cs a hm b hm1"
    using calls_recorded_ok [OF queue] by blast
  obtain a' t' hm' where up: "earlier_updateAllocatingInfoToThreadLocalData g (b, t, hm1) = (a', t', hm')"
    by (cases "earlier_updateAllocatingInfoToThreadLocalData g (b, t, hm1)")
  let ?ty = "earlier_index (ea_typeForOutputData a)" and ?ty' = "earlier_index (ea_typeForOutputData a')"
  note R = rec [unfolded calls_recorded_def Let_def, folded m]
  have same: "ea_sampled b" "ea_allocatingType b = ea_allocatingType a"
    using arg_cong [OF conjunct1 [OF R], of ea_sampled] arg_cong [OF conjunct1 [OF R], of ea_allocatingType] sampled by simp_all
  have "take (nat (eq_tail (ea_queue b) + 1)) (eq_queue (ea_queue b)) = map lock_record (drop m cs)" using R by simp
  with update_table [OF same(1) up k [folded same(2)]]
  have hm': "hm' = (fold (earlier_writingIntoAddress ?ty') (map lock_record (drop m cs)) ^^ k) hm1"
    and tail: "eq_tail (ea_queue a') = -1"
    and ty': "ea_typeForOutputData a' = ea_typeForOutputData (earlier_setAllocationTypeForOutputData g a)"
    using same(2) by (simp_all add: earlier_setAllocationTypeForOutputData_def Let_def)
  have hm1: "hm1 = fold (earlier_writingIntoAddress ?ty) (map lock_record (take m cs)) hm" using R by simp
  have "lock_cells (cl_lock (hm_value hm' e)) i = lock_cells (cl_lock (hm_value hm e)) i
      + (if i = ?ty then calls_of e (take m cs) else 0) + (if i = ?ty' then times_added k (calls_of e (drop m cs)) else 0)" for e i
  proof -
    note w1 = lock_cells_written [OF spec [OF wf, of e], where ty = ?ty and rs = "map lock_record (take m cs)" and i = i,
        OF earlier_index_less, folded hm1]
    note w2 = written_many_times [OF conjunct1 [OF w1], where ty = ?ty' and rs = "map lock_record (drop m cs)" and k = k and i = i,
        OF earlier_index_less, folded hm']
    from w1 w2 show ?thesis by (simp add: records_of_calls)
  qed
  with run up tail ty' show ?thesis by blast
qed

lemma calls_of_replicate: "n_cycles (calls_of e (replicate n (ty, e, w, cy))) = of_nat n * cy"
  by (induction n) (simp_all add: calls_of_def zero_lock_counts_def plus_lock_counts_def algebra_simps)

theorem full_lock_queue_goes_to_the_call_before_witness:
  fixes c :: earlier_lock_call
  defines "c \<equiv> (MUTEX, 64, True, 30)"
  shows "\<exists>b hm1 a' t' hm'. record_earlier_calls (replicate 501 c) (EarlierStatus_zero\<lparr>ea_sampled := True, ea_typeForOutputData := SERIAL_LARGE_FREE\<rparr>,
        empty_map hashAddr compareAddr 64 (newContendedLockData MUTEX) 0) = Inr (b, hm1)
    \<and> earlier_updateAllocatingInfoToThreadLocalData \<lparr>ec_totalNumOfThread = 1, ec_maxNumOfRunningThread = 1, ec_totalNumOfRunningThread = 1\<rparr>
        (b, EarlierThread_zero, hm1) = (a', t', hm')
    \<and> dl_cycles (cl_lock (hm_value hm' 64)) ! earlier_index SERIAL_LARGE_FREE = 15000"
proof -
  let ?a = "EarlierStatus_zero\<lparr>ea_sampled := True, ea_typeForOutputData := SERIAL_LARGE_FREE\<rparr>"
  let ?hm = "empty_map hashAddr compareAddr 64 (newContendedLockData MUTEX) 0"
  let ?g = "\<lparr>ec_totalNumOfThread = 1, ec_maxNumOfRunningThread = 1, ec_totalNumOfRunningThread = 1\<rparr>"
  have v: "cl_lock (hm_value ?hm e) = DetailLockData_newDetailLockData MUTEX" for e
    by (simp add: empty_map_def newContendedLockData_def)
  have q: "eq_tail (ea_queue ?a) = -1" "length (eq_queue (ea_queue ?a)) = EARLIER_LENGTH_OF_QUEUE" "ea_sampled ?a"
    by (simp_all add: EarlierStatus_zero_def)
  have m: "500 = flushed (length (replicate 501 c))" by (simp add: flushed_def EARLIER_LENGTH_OF_QUEUE_def)
  have wf: "\<forall>e. DetailLockData_wf (cl_lock (hm_value ?hm e))" by (simp add: v)
  have ty: "ea_typeForOutputData (earlier_setAllocationTypeForOutputData ?g ?a) = SERIAL_SMALL_NEW_MALLOC"
    by (simp add: earlier_setAllocationTypeForOutputData_def EarlierStatus_zero_def choose_type_def earlier_isCurrentlySingleThread_def)
  have k: "20 = (if unat (ey_objectSize (ea_allocatingType ?a)) < 64 * ONE_KB then 20 else 1)"
    by (simp add: EarlierStatus_zero_def ONE_KB_def)
  obtain b hm1 a' t' hm' where r: "record_earlier_calls (replicate 501 c) (?a, ?hm) = Inr (b, hm1)"
      "earlier_updateAllocatingInfoToThreadLocalData ?g (b, EarlierThread_zero, hm1) = (a', t', hm')"
      "ea_typeForOutputData a' = ea_typeForOutputData (earlier_setAllocationTypeForOutputData ?g ?a)"
      "\<forall>e i. lock_cells (cl_lock (hm_value hm' e)) i = lock_cells (cl_lock (hm_value ?hm e)) i
        + (if i = earlier_index (ea_typeForOutputData ?a) then calls_of e (take 500 (replicate 501 c)) else 0)
        + (if i = earlier_index (ea_typeForOutputData a') then times_added 20 (calls_of e (drop 500 (replicate 501 c))) else 0)"
    using full_lock_queue_goes_to_the_call_before [OF q(1,2) wf q(3) k m, of ?g EarlierThread_zero] by (elim exE conjE) (rule that)
  have "lock_cells (cl_lock (hm_value hm' 64)) 7 = lock_cells (DetailLockData_newDetailLockData MUTEX) 7 + calls_of 64 (replicate 500 c)"
    using spec [OF spec [OF r(4), of 64], of 7] unfolding r(3) ty v by simp
  then have "n_cycles (lock_cells (cl_lock (hm_value hm' 64)) 7) = 15000"
    by (simp add: plus_lock_counts_def c_def calls_of_replicate)
      (simp add: lock_cells_def DetailLockData_newDetailLockData_def)
  with r(1,2) show ?thesis by (auto simp: lock_cells_def)
qed

end
