(* ===== verification/EarlierMemory_Correct.thy ===== *)
theory EarlierMemory_Correct
  imports EarlierStatus MegaMap_Cleanup MemoryProfile_Correct
begin

text \<open>
  The memory status of the earlier version, through any allocations, frees and pages given back: the map of pages, the
  table of objects, the memory usage and the memory of every call site agree.
\<close>

section \<open>The profiler's memory grows\<close>

definition memory_grows :: "nat \<Rightarrow> MyMalloc \<Rightarrow> MyMalloc \<Rightarrow> bool" where
  "memory_grows tid mm mm' \<longleftrightarrow> threadLocalProfilerHashMemory mm' = threadLocalProfilerHashMemory mm
    \<or> (\<exists>sz. bump_ok mm tid sz \<and> threadLocalProfilerHashMemory mm' = bump mm tid sz)"

lemma table_invar_region:
  "threadLocalProfilerHashMemory mm' = threadLocalProfilerHashMemory mm \<Longrightarrow> table_invar tid (hm, mm') = table_invar tid (hm, mm)"
  by (simp add: table_invar_def region_ok_def)

lemma table_invar_grows: "table_invar tid (hm, mm) \<Longrightarrow> memory_grows tid mm mm' \<Longrightarrow> table_invar tid (hm, mm')"
proof (unfold memory_grows_def, elim disjE exE conjE)
  fix sz
  assume "table_invar tid (hm, mm)" and b: "bump_ok mm tid sz" and t: "threadLocalProfilerHashMemory mm' = bump mm tid sz"
  from table_invar_bump [OF this(1) b] show "table_invar tid (hm, mm')"
    using table_invar_region [of mm' "mm\<lparr>threadLocalProfilerHashMemory := bump mm tid sz\<rparr>" tid hm] t by simp
qed (blast intro: table_invar_region [THEN iffD2])

lemma bump_ok_room: "table_invar tid (hm, mm) \<Longrightarrow> table_room tid (hm, mm) 1 \<Longrightarrow> bump_ok mm tid (hm_sizeof_entry hm)"
  by (auto simp: table_invar_def table_room_def bump_ok_def region_ok_def)

lemma HashMap_insert_memory:
  assumes "HashMap_insert hm mm tid k v = Inr (e, hm', mm')" and "table_invar tid (hm, mm)"
  shows "mm' = mm\<lparr>threadLocalProfilerHashMemory := bump mm tid (hm_sizeof_entry hm)\<rparr>"
proof -
  have "tid < length (threadLocalProfilerHashMemory mm)" using assms(2) by (simp add: table_invar_def)
  from hashMalloc_eq [OF this] show ?thesis
    using assms(1) by (auto simp: HashMap_insert_def with_bucket_def insertEntry_def createNewEntry_def Let_def bindR_Inr_iff split: if_splits option.splits)
qed

lemma allocUpdate_memory:
  assumes run: "allocUpdate tid sz a key w = Inr (r, w')" and ok: "waste_ok tid w"
    and room: "mw_look w a = None \<Longrightarrow> table_room (unat tid) (mw_objects w, mw_memory w) 1"
  shows "memory_grows (unat tid) (mw_memory w) (mw_memory w')"
proof -
  have inv: "table_invar (unat tid) (mw_objects w, mw_memory w)" using ok by (simp add: waste_ok_def)
  have written: "mw_memory (write_object e f s) = mw_memory s" for e f s by (simp add: write_object_def)
  note unfold = on_counters_def classify_def set_current_def Let_def bindR_Inr_iff written
  have reused: "alloc_reused tid sz e s = Inr s' \<Longrightarrow> mw_memory s' = mw_memory s" for e s s'
    by (auto simp: alloc_reused_def unfold split: if_splits)
  have new: "memory_grows (unat tid) (mw_memory w) (mw_memory s')" if n: "alloc_new tid sz a w = Inr (e, s')" "mw_look w a = None" for e s'
  proof -
    obtain v m mm where s1: "HashMap_insert (mw_objects w) (mw_memory w) (unat tid) a v = Inr (e, m, mm)" "mw_memory s' = mm"
      using n(1) by (auto simp: alloc_new_def unfold)
    show ?thesis
      using bump_ok_room [OF inv room [OF n(2)]] HashMap_insert_memory [OF s1(1) inv] s1(2) by (auto simp: memory_grows_def)
  qed
  obtain status where st: "HashMap_find (mw_objects w) a = Inr status" "mw_look w a = map_option (hm_value (mw_objects w)) status"
    using table_find_Inr [OF inv] by metis
  show ?thesis
  proof (cases status)
    case None
    then have none: "mw_look w a = None" using st(2) by simp
    obtain e s1 where "alloc_new tid sz a w = Inr (e, s1)" "mw_memory w' = mw_memory s1"
      using run st(1) None by (auto simp: allocUpdate_def unfold)
    with new none show ?thesis by simp
  next
    case (Some e)
    obtain s1 where "alloc_reused tid sz e w = Inr s1" "mw_memory w' = mw_memory s1"
      using run st(1) Some by (auto simp: allocUpdate_def unfold)
    with reused show ?thesis by (simp add: memory_grows_def)
  qed
qed

lemma freeUpdate_memory: "freeUpdate tid a w = Inr (r, w') \<Longrightarrow> mw_memory w' = mw_memory w"
  by (auto simp: freeUpdate_def Let_def bindR_Inr_iff on_counters_def write_object_def set_current_def split: option.splits if_splits)

section \<open>Call sites\<close>

abbreviation site_look :: "MemoryWaste \<Rightarrow> u8 \<Rightarrow> BackTraceMemory option" where
  "site_look w \<equiv> table_lookup (BTMemMap (mw_backtrace w), mw_memory w)"

definition site_allocated :: "u32 \<Rightarrow> u8 \<Rightarrow> u64 list \<Rightarrow> BackTraceMemory option \<Rightarrow> BackTraceMemory" where
  "site_allocated sz n frames old =
    (let v = (case old of None \<Rightarrow> newBackTraceMemory\<lparr>numberOfFrame := n, bt_frames := frames\<rparr> | Some v \<Rightarrow> v)
     in v\<lparr>memAllocated := memAllocated v + ucast sz\<rparr>)"

lemma assign_found:
  assumes inv: "table_invar tid (hm, mm)" and found: "HashMap_find hm k = Inr (Some e)"
  shows "table_invar tid (HashMap_assign hm e v, mm)"
    and "table_lookup (HashMap_assign hm e v, mm) = (table_lookup (hm, mm))(k \<mapsto> v)"
proof -
  have "table_lookup (hm, mm) k = Some (hm_value hm e)" by (simp add: table_lookup_def found)
  from table_assign_old [OF inv this, of v] found
  show "table_invar tid (HashMap_assign hm e v, mm)" "table_lookup (HashMap_assign hm e v, mm) = (table_lookup (hm, mm))(k \<mapsto> v)"
    by (simp_all add: table_assign_def)
qed

lemma lookup_any_memory: "table_lookup (hm, mm) = table_lookup (hm, mm')"
  by (rule ext) (simp add: table_lookup_def split: sum.split option.split)

lemma doABackTrace_ok:
  assumes ok: "waste_ok (ce_tid env) w"
    and room: "site_look w (callKey_of env) = None
      \<Longrightarrow> table_room (unat (ce_tid env)) (BTMemMap (mw_backtrace w), mw_memory w) 1"
  obtains w' where "doABackTrace env n frames sz w = Inr (callKey_of env, w')" and "waste_ok (ce_tid env) w'"
    and "mw_look w' = mw_look w"
    and "site_look w' = (site_look w)(callKey_of env \<mapsto> site_allocated sz n frames (site_look w (callKey_of env)))"
    and "mw_objects w' = mw_objects w"
    and "mw_memory w' = mw_memory w \<or> mw_memory w' = (mw_memory w)\<lparr>threadLocalProfilerHashMemory :=
      bump (mw_memory w) (unat (ce_tid env)) (hm_sizeof_entry (BTMemMap (mw_backtrace w)))\<rparr>"
    and "memory_grows (unat (ce_tid env)) (mw_memory w) (mw_memory w')"
proof -
  let ?tid = "unat (ce_tid env)" and ?k = "callKey_of env" and ?bt = "BTMemMap (mw_backtrace w)" and ?mm = "mw_memory w"
  have objects: "table_invar ?tid (mw_objects w, ?mm)" and sites: "table_invar ?tid (?bt, ?mm)"
    using ok by (simp_all add: waste_ok_def)
  obtain r where r: "HashMap_find ?bt ?k = Inr r" "site_look w ?k = map_option (hm_value ?bt) r"
    using table_find_Inr [OF sites] by metis
  show thesis
  proof (cases r)
    case (Some e)
    let ?v = "site_allocated sz n frames (Some (hm_value ?bt e))"
    let ?w = "w\<lparr>mw_backtrace := mw_backtrace w\<lparr>BTMemMap := HashMap_assign ?bt e ?v\<rparr>, mw_memory := ?mm\<rparr>"
    note as = assign_found [OF sites r(1) [unfolded Some], of ?v]
    have "doABackTrace env n frames sz w = Inr (?k, ?w)"
      using r(1) Some by (simp add: doABackTrace_def Let_def site_allocated_def)
    moreover have "waste_ok (ce_tid env) ?w" using ok as by (simp add: waste_ok_def)
    ultimately show thesis using that [of ?w] as r(2) Some by (simp add: memory_grows_def)
  next
    case None
    then have absent: "site_look w ?k = None" using r(2) by simp
    let ?e = "next_block ?mm ?tid" and ?mm' = "?mm\<lparr>threadLocalProfilerHashMemory := bump ?mm ?tid (hm_sizeof_entry ?bt)\<rparr>"
    let ?m = "linked_entry ?bt ?e (bucket_at ?bt (bucket_of ?bt ?k)) ?k newBackTraceMemory"
    note ins = insert_linked [OF sites absent, of 0 newBackTraceMemory] room [OF absent]
    have bm: "bump_ok ?mm ?tid (hm_sizeof_entry ?bt)"
      and new: "HashMap_insert ?bt ?mm ?tid ?k newBackTraceMemory = Inr (?e, ?m, ?mm')"
      and found: "HashMap_find ?m ?k = Inr (Some ?e)"
      using ins by auto
    obtain s'' where "table_insert ?tid (?bt, ?mm) ?k newBackTraceMemory = Inr s''" "table_invar ?tid s''"
        "table_lookup s'' = (site_look w)(?k \<mapsto> newBackTraceMemory)"
      using hash_table.insert_new [OF sites absent, of 0 newBackTraceMemory] room [OF absent] by auto
    then have inv: "table_invar ?tid (?m, ?mm')" and look: "table_lookup (?m, ?mm') = (site_look w)(?k \<mapsto> newBackTraceMemory)"
      using new by (auto simp: table_insert_def)
    let ?v1 = "newBackTraceMemory\<lparr>numberOfFrame := n, bt_frames := frames\<rparr>" and ?v = "site_allocated sz n frames None"
    let ?m2 = "HashMap_assign (HashMap_assign ?m ?e ?v1) ?e ?v"
    note as1 = assign_found [OF inv found, of ?v1]
    have found2: "HashMap_find (HashMap_assign ?m ?e ?v1) ?k = Inr (Some ?e)" using found by simp
    note as = assign_found [OF as1(1) found2, of ?v]
    let ?w = "w\<lparr>mw_backtrace := mw_backtrace w\<lparr>BTMemMap := ?m2\<rparr>, mw_memory := ?mm'\<rparr>"
    have val: "hm_value ?m ?e = newBackTraceMemory" by simp
    have "doABackTrace env n frames sz w = Inr (?k, ?w)"
      using r(1) None new val by (simp add: doABackTrace_def Let_def site_allocated_def)
    moreover have "waste_ok (ce_tid env) ?w"
      using ok as(1) table_invar_bump [OF objects bm] lookup_any_memory [of "mw_objects w" ?mm ?mm'] by (simp add: waste_ok_def)
    moreover have "mw_look ?w = mw_look w" using lookup_any_memory [of "mw_objects w" ?mm ?mm'] by simp
    moreover have "memory_grows ?tid ?mm ?mm'" using bm by (auto simp: memory_grows_def)
    ultimately show thesis using that [of ?w] as(2) as1(2) look absent by simp
  qed
qed

section \<open>What is measured\<close>

definition object_size :: "MemoryWaste \<Rightarrow> u64 \<Rightarrow> u32" where
  "object_size w a = sc_size (ob_class (the (mw_look w a)))"

definition object_range :: "MemoryWaste \<Rightarrow> u64 \<Rightarrow> nat \<times> nat" where
  "object_range w a = (unat a, unat (object_size w a))"

text \<open>The bytes in use that were allocated at a call site.\<close>

definition site_bytes :: "MemoryWaste \<Rightarrow> u8 \<Rightarrow> u64" where
  "site_bytes w key = (\<Sum>a \<in> in_use w. if ob_callKey (the (mw_look w a)) = key then ucast (object_size w a) else 0)"

definition sites_exact :: "MemoryWaste \<Rightarrow> bool" where
  "sites_exact w \<longleftrightarrow> (\<forall>key. case site_look w key of
      None \<Rightarrow> \<forall>a \<in> in_use w. ob_callKey (the (mw_look w a)) \<noteq> key
    | Some v \<Rightarrow> memAllocated v = site_bytes w key)"

definition touched_set :: "MegaMap \<Rightarrow> nat set" where
  "touched_set s = {q. mega_touched s q}"

definition map_exact :: "MegaMap \<Rightarrow> MemoryWaste \<Rightarrow> bool" where
  "map_exact s w \<longleftrightarrow> (\<exists>L. mega_accounted L s \<and> distinct (map fst L) \<and> set L = object_range w ` in_use w)
    \<and> (\<forall>a \<in> in_use w. a \<noteq> 0 \<and> object_size w a \<noteq> 0 \<and> unat a + unat (object_size w a) \<le> 2 ^ 47)"

definition earlier_exact :: "EarlierMemory \<Rightarrow> bool" where
  "earlier_exact m \<longleftrightarrow> map_exact (em_map m) (em_waste m) \<and> finite (touched_set (em_map m))
    \<and> totalMemoryUsage (globalMemoryUsage (em_usage m)) = of_nat (4096 * card (touched_set (em_map m)))
    \<and> realMemoryUsage (globalMemoryUsage (em_usage m)) = used_bytes (em_waste m)
    \<and> sites_exact (em_waste m)"

lemma unat_same: "unat a = unat b \<longleftrightarrow> a = b" for a b :: u64
  by (simp add: word_unat_eq_iff)

lemma distinct_map_remove1: "distinct (map f L) \<Longrightarrow> distinct (map f (remove1 x L))"
  by (induction L) (auto dest!: set_mp [OF set_remove1_subset])

text \<open>Allocating \<open>ob\<close> at \<open>a\<close>, and freeing it again.\<close>

lemma in_use_alloc: "mw_look w' = (mw_look w)(a \<mapsto> ob) \<Longrightarrow> ob_allocated ob \<Longrightarrow> in_use w' = insert a (in_use w)"
  by (auto simp: in_use_def)

lemma in_use_free: "mw_look w' = (mw_look w)(a \<mapsto> ob\<lparr>ob_allocated := False\<rparr>) \<Longrightarrow> in_use w' = in_use w - {a}"
  by (auto simp: in_use_def)

lemma object_size_upd: "mw_look w' = (mw_look w)(a \<mapsto> ob) \<Longrightarrow> object_size w' b = (if b = a then sc_size (ob_class ob) else object_size w b)"
  by (simp add: object_size_def)

lemma object_range_upd:
  "mw_look w' = (mw_look w)(a \<mapsto> ob) \<Longrightarrow>
    object_range w' b = (if b = a then (unat a, unat (sc_size (ob_class ob))) else object_range w b)"
  by (simp add: object_range_def object_size_upd)

lemma site_bytes_alloc:
  assumes "finite (in_use w)" and "a \<notin> in_use w" and "mw_look w' = (mw_look w)(a \<mapsto> ob)" and "ob_allocated ob"
  shows "site_bytes w' key = site_bytes w key + (if ob_callKey ob = key then ucast (sc_size (ob_class ob)) else 0)"
proof -
  have "(\<Sum>b \<in> in_use w. if ob_callKey (the (mw_look w' b)) = key then ucast (object_size w' b) else 0) = site_bytes w key"
    unfolding site_bytes_def by (rule sum.cong) (use assms(2,3) in \<open>auto simp: object_size_def\<close>)
  then show ?thesis using assms by (simp add: site_bytes_def in_use_alloc object_size_def)
qed

lemma site_bytes_free:
  assumes "finite (in_use w)" and "mw_look w a = Some ob" and "ob_allocated ob"
    and "mw_look w' = (mw_look w)(a \<mapsto> ob\<lparr>ob_allocated := False\<rparr>)"
  shows "site_bytes w' key = site_bytes w key - (if ob_callKey ob = key then ucast (sc_size (ob_class ob)) else 0)"
proof -
  have a: "a \<in> in_use w" using assms(2,3) by (auto simp: in_use_def)
  have "(\<Sum>b \<in> in_use w - {a}. if ob_callKey (the (mw_look w' b)) = key then ucast (object_size w' b) else (0 :: u64))
      = (\<Sum>b \<in> in_use w - {a}. if ob_callKey (the (mw_look w b)) = key then ucast (object_size w b) else 0)"
    by (rule sum.cong) (use assms(4) in \<open>auto simp: object_size_def\<close>)
  moreover have "site_bytes w key = (if ob_callKey ob = key then ucast (sc_size (ob_class ob)) else 0)
      + (\<Sum>b \<in> in_use w - {a}. if ob_callKey (the (mw_look w b)) = key then ucast (object_size w b) else 0)"
    using assms(1,2) a by (simp add: site_bytes_def sum.remove [of "in_use w" a] object_size_def)
  ultimately show ?thesis using assms(4) by (simp add: site_bytes_def in_use_free)
qed

text \<open>The map, when an object is allocated at an address that is free, when it is freed, and when pages without objects are cleared.\<close>

lemma map_exact_alloc:
  assumes ex: "map_exact s w" and look: "mw_look w' = (mw_look w)(a \<mapsto> ob)" and ob: "ob_allocated ob" "sc_size (ob_class ob) = sz"
    and new: "a \<notin> in_use w" "a \<noteq> 0" "sz \<noteq> 0" "unat a + unat sz \<le> 2 ^ 47"
    and free: "\<forall>b \<in> in_use w. {unat a..<unat a + unat sz} \<inter> {unat b..<unat b + unat (object_size w b)} = {}"
    and room: "mg_page_bump s + 256 * card (blockless (object_pages (unat a) (unat sz)) s) < MEGA_PAGE_ENTRIES"
      "mg_cache_bump s + 64 * card (lineless (object_pages (unat a) (unat sz)) s) < MEGA_CACHE_ENTRIES"
  shows "\<exists>s'. updateObject tid a sz False s = Inr (of_nat (4096 * card (object_pages (unat a) (unat sz) - touched_set s)), s')
    \<and> map_exact s' w' \<and> touched_set s' = touched_set s \<union> object_pages (unat a) (unat sz)"
proof -
  let ?Q = "object_pages (unat a) (unat sz)" and ?x = "(unat a, unat sz)"
  obtain L where L: "mega_accounted L s" "distinct (map fst L)" "set L = object_range w ` in_use w"
    and sizes: "\<forall>a \<in> in_use w. a \<noteq> 0 \<and> object_size w a \<noteq> 0 \<and> unat a + unat (object_size w a) \<le> 2 ^ 47"
    using ex by (auto simp: map_exact_def)
  have dis: "disjoint_ranges (?x # L)"
    using L free by (auto simp: disjoint_ranges_def mega_accounted_def object_range_def)
  have bytes: "int (bytes_in B (?x # L) q) = int (bytes_in B L q) + (if False then -1 else 1) * int (overlap B (unat a) (unat sz) q)" for B q
    by (simp add: bytes_in_def)
  obtain s' where s': "updateObject tid a sz False s = Inr (of_nat (4096 * card (untouched ?Q s)), s')" "mega_accounted (?x # L) s'"
      "\<forall>q. mega_touched s' q \<longleftrightarrow> mega_touched s q \<or> q \<in> ?Q"
    using updateObject_accounted [OF L(1) new(2,3) object_megas [OF new(4)] room dis bytes, of tid] by auto
  have iu: "in_use w' = insert a (in_use w)" by (rule in_use_alloc [OF look ob(1)])
  have "object_range w' ` in_use w = object_range w ` in_use w"
    using new(1) by (intro image_cong) (auto simp: object_range_upd [OF look])
  moreover have "object_range w' a = ?x" by (simp add: object_range_upd [OF look] ob(2))
  ultimately have "set (?x # L) = object_range w' ` in_use w'" using L(3) by (simp add: iu)
  moreover have "distinct (map fst (?x # L))" using L(2,3) new(1) by (auto simp: object_range_def unat_same)
  moreover have "\<forall>b \<in> in_use w'. b \<noteq> 0 \<and> object_size w' b \<noteq> 0 \<and> unat b + unat (object_size w' b) \<le> 2 ^ 47"
    using sizes new ob(2) by (auto simp: iu object_size_upd [OF look])
  ultimately have "map_exact s' w'" using s'(2) unfolding map_exact_def by blast
  moreover have "untouched ?Q s = ?Q - touched_set s" by (auto simp: untouched_def touched_set_def)
  ultimately show ?thesis using s'(1,3) by (auto simp: touched_set_def)
qed

lemma map_exact_free:
  assumes ex: "map_exact s w" and l: "mw_look w a = Some ob" and live: "ob_allocated ob"
    and look: "mw_look w' = (mw_look w)(a \<mapsto> ob\<lparr>ob_allocated := False\<rparr>)"
  shows "\<exists>s'. updateObject tid a (sc_size (ob_class ob)) True s = Inr (0, s') \<and> map_exact s' w' \<and> touched_set s' = touched_set s"
proof -
  let ?x = "(unat a, unat (sc_size (ob_class ob)))"
  obtain L where L: "mega_accounted L s" "distinct (map fst L)" "set L = object_range w ` in_use w"
    and sizes: "\<forall>a \<in> in_use w. a \<noteq> 0 \<and> object_size w a \<noteq> 0 \<and> unat a + unat (object_size w a) \<le> 2 ^ 47"
    using ex by (auto simp: map_exact_def)
  have a: "a \<in> in_use w" and x: "object_range w a = ?x" "object_size w a = sc_size (ob_class ob)"
    using l live by (auto simp: in_use_def object_range_def object_size_def)
  have mem: "?x \<in> set L" using a x(1) L(3) by (metis image_eqI)
  obtain s' where s': "updateObject tid a (sc_size (ob_class ob)) True s = Inr (0, s')" "mega_accounted (remove1 ?x L) s'"
      "\<forall>q. mega_touched s' q = mega_touched s q"
    using updateObject_freed [OF L(1) _ _ mem, of tid] bspec [OF sizes a] x(2) by auto
  have iu: "in_use w' = in_use w - {a}" by (rule in_use_free [OF look])
  have "object_range w' ` (in_use w - {a}) = object_range w ` (in_use w - {a})"
    by (intro image_cong) (auto simp: object_range_upd [OF look])
  also have "\<dots> = object_range w ` in_use w - {?x}"
    using x(1) by (auto simp: object_range_def unat_same)
  finally have "set (remove1 ?x L) = object_range w' ` in_use w'"
    using L(2,3) by (simp add: iu distinct_map set_remove1_eq)
  moreover have "distinct (map fst (remove1 ?x L))" using L(2) by (rule distinct_map_remove1)
  moreover have "\<forall>b \<in> in_use w'. b \<noteq> 0 \<and> object_size w' b \<noteq> 0 \<and> unat b + unat (object_size w' b) \<le> 2 ^ 47"
    using sizes by (auto simp: iu object_size_upd [OF look])
  ultimately have "map_exact s' w'" using s'(2) unfolding map_exact_def by blast
  with s'(1,3) show ?thesis by (auto simp: touched_set_def)
qed

lemma map_exact_give_back:
  fixes addr len :: u64
  defines "q \<equiv> unat addr div 4096" and "n \<equiv> unat (alignup len 4096) div 4096"
  assumes ex: "map_exact s w" and m: "mega_index_of addr < NUM_MEGABYTE_MAP_ENTRIES"
    and room: "mg_page_bump s + 256 < MEGA_PAGE_ENTRIES" and n: "q mod 256 + n \<le> 256"
    and free: "\<forall>a \<in> in_use w. object_pages (unat a) (unat (object_size w a)) \<inter> {q..<q + n} = {}"
  shows "\<exists>s'. mega_cleanupPages addr len s = Inr (of_nat (4096 * card ({q..<q + n} \<inter> touched_set s)), s')
    \<and> map_exact s' w \<and> touched_set s' = touched_set s - {q..<q + n}"
proof -
  obtain L where L: "mega_accounted L s" "distinct (map fst L)" "set L = object_range w ` in_use w"
    and sizes: "\<forall>a \<in> in_use w. a \<noteq> 0 \<and> object_size w a \<noteq> 0 \<and> unat a + unat (object_size w a) \<le> 2 ^ 47"
    using ex by (auto simp: map_exact_def)
  have wf: "pages_wf s" "mega_lines_wf s" using L(1) by (simp_all add: mega_accounted_def)
  obtain s' where s': "mega_cleanupPages addr len s = Inr (of_nat (4096 * card {q' \<in> {q..<q + n}. mega_touched s q'}), s')"
      "pages_wf s'" "mega_lines_wf s'"
      "page_at s' = (\<lambda>q'. if q' \<in> {q..<q + n} then cleared_entry (page_at s q') else page_at s q')"
      "line_at s' = (\<lambda>l. if l div 64 \<in> {q..<q + n} \<and> mega_touched s (l div 64) then FSLine_zero else line_at s l)"
    using mega_cleanup_clears [OF wf m room n [unfolded q_def n_def]] unfolding q_def n_def by blast
  have none: "bytes_in 4096 L q' = 0" if "q' \<in> {q..<q + n}" for q'
    using free that overlap_in_page L(3) by (fastforce simp: bytes_in_def object_range_def)
  have none_line: "bytes_in 64 L l = 0" if "l div 64 \<in> {q..<q + n}" for l
    using free that overlap_line_page L(3) by (fastforce simp: bytes_in_def object_range_def)
  have used: "mega_used s' q' = int (bytes_in 4096 L q')" for q'
    using L(1) none [of q'] by (simp add: s'(4) cleared_entry_def mega_accounted_def fun_eq_iff)
  have "mega_line_used s' l = int (bytes_in 64 L l)" for l
    using L(1) none_line [of l] by (simp add: s'(5) FSLine_zero_def mega_accounted_def fun_eq_iff)
  moreover have "used_touched s'"
    using L(1) none used by (auto simp: used_touched_def mega_accounted_def s'(4) fun_eq_iff)
  ultimately have "mega_accounted L s'" using L(1) s'(2,3) used by (simp add: mega_accounted_def fun_eq_iff)
  then have "map_exact s' w" using L(2,3) sizes unfolding map_exact_def by blast
  moreover have "touched_set s' = touched_set s - {q..<q + n}"
    by (auto simp: touched_set_def s'(4) cleared_entry_def split: if_splits)
  moreover have "{q' \<in> {q..<q + n}. mega_touched s q'} = {q..<q + n} \<inter> touched_set s" by (auto simp: touched_set_def)
  ultimately show ?thesis using s'(1) by metis
qed

text \<open>The call sites.\<close>

lemma site_bytes_none: "\<forall>a \<in> in_use w. ob_callKey (the (mw_look w a)) \<noteq> key \<Longrightarrow> site_bytes w key = 0"
  by (simp add: site_bytes_def sum.neutral)

lemma sites_exact_alloc:
  assumes ex: "sites_exact w" and fin: "finite (in_use w)" and new: "a \<notin> in_use w" and look: "mw_look w' = (mw_look w)(a \<mapsto> ob)"
    and ob: "ob_allocated ob" "ob_callKey ob = k" "sc_size (ob_class ob) = sz"
    and site: "site_look w' = (site_look w)(k \<mapsto> site_allocated sz n frames (site_look w k))"
  shows "sites_exact w'"
proof -
  have "case site_look w' key of None \<Rightarrow> \<forall>a \<in> in_use w'. ob_callKey (the (mw_look w' a)) \<noteq> key
      | Some v \<Rightarrow> memAllocated v = site_bytes w' key" for key
  proof -
    have old: "case site_look w key of None \<Rightarrow> \<forall>a \<in> in_use w. ob_callKey (the (mw_look w a)) \<noteq> key
        | Some v \<Rightarrow> memAllocated v = site_bytes w key" using ex by (simp add: sites_exact_def)
    note sum = site_bytes_alloc [OF fin new look ob(1), of key] in_use_alloc [OF look ob(1)]
    show ?thesis
    proof (cases "key = k")
      case True
      then show ?thesis using old site_bytes_none [of w k] sum(1) ob(2,3)
        by (simp add: site site_allocated_def newBackTraceMemory_def split: option.splits)
    next
      case False
      then show ?thesis using old sum ob(2) by (simp add: site look split: option.splits)
    qed
  qed
  then show ?thesis by (simp add: sites_exact_def)
qed

lemma sites_exact_free:
  assumes ex: "sites_exact w" and fin: "finite (in_use w)" and l: "mw_look w a = Some ob" and live: "ob_allocated ob"
    and look: "mw_look w' = (mw_look w)(a \<mapsto> ob\<lparr>ob_allocated := False\<rparr>)"
    and site: "site_look w' = upd_at (ob_callKey ob) (\<lambda>m. m\<lparr>memAllocated := memAllocated m - ucast (sc_size (ob_class ob))\<rparr>) (site_look w)"
  shows "sites_exact w'"
proof -
  have "case site_look w' key of None \<Rightarrow> \<forall>a \<in> in_use w'. ob_callKey (the (mw_look w' a)) \<noteq> key
      | Some v \<Rightarrow> memAllocated v = site_bytes w' key" for key
  proof -
    have old: "case site_look w key of None \<Rightarrow> \<forall>a \<in> in_use w. ob_callKey (the (mw_look w a)) \<noteq> key
        | Some v \<Rightarrow> memAllocated v = site_bytes w key" using ex by (simp add: sites_exact_def)
    note sum = site_bytes_free [OF fin l live look, of key] in_use_free [OF look]
    have site: "site_look w' key = (if key = ob_callKey ob
        then map_option (\<lambda>m. m\<lparr>memAllocated := memAllocated m - ucast (sc_size (ob_class ob))\<rparr>) (site_look w key) else site_look w key)"
      unfolding site by (simp add: upd_at_def split: option.split)
    show ?thesis
    proof (cases "site_look w key")
      case None
      then have "site_look w' key = None" unfolding site by auto
      then show ?thesis using old None sum(2) by (simp add: look)
    next
      case (Some v)
      then show ?thesis using old sum(1) site by (cases "key = ob_callKey ob") simp_all
    qed
  qed
  then show ?thesis by (simp add: sites_exact_def)
qed

section \<open>Every step keeps the measures exact\<close>

lemma few_pages: "n \<le> 2 ^ 32 - 8192 \<Longrightarrow> card (object_pages a n - T) < 2 ^ 20"
proof -
  assume n: "n \<le> 2 ^ 32 - 8192"
  have "card (object_pages a n - T) \<le> card (object_pages a n)" by (rule card_mono) (auto simp: object_pages_def)
  also have "\<dots> = (a + n - 1) div 4096 + 1 - a div 4096" by (simp add: object_pages_def)
  also have "\<dots> < 2 ^ 20"
  proof -
    have "a < 4096 * (a div 4096) + 4096" using dividend_less_div_times [of 4096 a] by (simp add: mult.commute)
    with n have "a + n - 1 < (a div 4096 + 1048575) * 4096" by simp
    then have "(a + n - 1) div 4096 < a div 4096 + 1048575" by (rule less_mult_imp_div_less)
    then show ?thesis by simp
  qed
  finally show ?thesis .
qed

lemma addToMemoryUsage_keeps:
  assumes "addToMemoryUsage b n tid sz touched u w = (u', w')"
  shows "site_look w' = site_look w" and "mw_memory w' = mw_memory w"
  using assms by (auto simp: addToMemoryUsage_def Let_def compareMemoryUsageAndRecordStatus_def updateStatus_def recordMem_def
      split: if_splits)

definition object_of :: "EarlierStatus \<Rightarrow> u64" where
  "object_of a = ey_objectAddress (ea_allocatingType a)"

definition size_of :: "EarlierStatus \<Rightarrow> u32" where
  "size_of a = ey_objectSize (ea_allocatingType a)"

text \<open>An allocator that works: the object it returns is not null, lies in user space and apart from the objects in use.\<close>

definition new_object :: "EarlierStatus \<Rightarrow> EarlierMemory \<Rightarrow> bool" where
  "new_object a m \<longleftrightarrow> object_of a \<noteq> 0 \<and> size_of a \<noteq> 0 \<and> unat (object_of a) + unat (size_of a) \<le> 2 ^ 47
    \<and> unat (size_of a) \<le> 2 ^ 32 - 8192 \<and> object_of a \<notin> in_use (em_waste m)
    \<and> (\<forall>b \<in> in_use (em_waste m). {unat (object_of a)..<unat (object_of a) + unat (size_of a)}
          \<inter> {unat b..<unat b + unat (object_size (em_waste m) b)} = {})"

text \<open>Room for it in the profiler's tables.\<close>

definition tables_room :: "CallEnv \<Rightarrow> EarlierStatus \<Rightarrow> EarlierMemory \<Rightarrow> bool" where
  "tables_room env a m \<longleftrightarrow> (let w = em_waste m; tid = unat (ce_tid env); Q = object_pages (unat (object_of a)) (unat (size_of a)) in
     (site_look w (callKey_of env) = None \<longrightarrow> table_room tid (BTMemMap (mw_backtrace w), mw_memory w) 1)
     \<and> (\<forall>n frames key w'. doABackTrace env n frames (size_of a) w = Inr (key, w') \<longrightarrow> mw_look w (object_of a) = None
          \<longrightarrow> table_room tid (mw_objects w', mw_memory w') 1)
     \<and> mg_page_bump (em_map m) + 256 * card (blockless Q (em_map m)) < MEGA_PAGE_ENTRIES
     \<and> mg_cache_bump (em_map m) + 64 * card (lineless Q (em_map m)) < MEGA_CACHE_ENTRIES)"

definition memory_regions :: "EarlierMemory \<Rightarrow> nat" where
  "memory_regions m = length (threadLocalProfilerHashMemory (mw_memory (em_waste m)))"

lemma earlier_alloc_exact:
  assumes ok: "waste_ok (ce_tid env) (em_waste m)" and ex: "earlier_exact m" and new: "new_object a m" and room: "tables_room env a m"
  shows "\<exists>a' m'. earlier_updateMemoryStatusAfterAllocation env n frames lock threads a m = Inr (a', m')
    \<and> earlier_exact m' \<and> waste_ok (ce_tid env) (em_waste m') \<and> memory_regions m' = memory_regions m
    \<and> mw_look (em_waste m') = (mw_look (em_waste m))(object_of a \<mapsto> the (mw_look (em_waste m') (object_of a)))
    \<and> object_of a \<in> in_use (em_waste m') \<and> object_size (em_waste m') (object_of a) = size_of a
    \<and> (\<exists>mm. memory_grows (unat (ce_tid env)) (mw_memory (em_waste m)) mm
        \<and> memory_grows (unat (ce_tid env)) mm (mw_memory (em_waste m')))"
proof -
  let ?w = "em_waste m" and ?k = "callKey_of env" and ?tid = "ce_tid env" and ?a = "object_of a" and ?sz = "size_of a"
  let ?Q = "object_pages (unat ?a) (unat ?sz)" and ?T = "touched_set (em_map m)"
  have objects: "\<And>n frames key w'. doABackTrace env n frames ?sz ?w = Inr (key, w') \<Longrightarrow> mw_look ?w ?a = None
      \<Longrightarrow> table_room (unat ?tid) (mw_objects w', mw_memory w') 1" and sites: "site_look ?w ?k = None
      \<Longrightarrow> table_room (unat ?tid) (BTMemMap (mw_backtrace ?w), mw_memory ?w) 1"
    and map_room: "mg_page_bump (em_map m) + 256 * card (blockless ?Q (em_map m)) < MEGA_PAGE_ENTRIES"
      "mg_cache_bump (em_map m) + 64 * card (lineless ?Q (em_map m)) < MEGA_CACHE_ENTRIES"
    using room unfolding tables_room_def Let_def by blast+
  obtain w1 where w1: "doABackTrace env n frames ?sz ?w = Inr (?k, w1)" "waste_ok ?tid w1" "mw_look w1 = mw_look ?w"
      "site_look w1 = (site_look ?w)(?k \<mapsto> site_allocated ?sz n frames (site_look ?w ?k))" "mw_objects w1 = mw_objects ?w"
      "mw_memory w1 = mw_memory ?w \<or> mw_memory w1 = (mw_memory ?w)\<lparr>threadLocalProfilerHashMemory :=
        bump (mw_memory ?w) (unat ?tid) (hm_sizeof_entry (BTMemMap (mw_backtrace ?w)))\<rparr>"
      "memory_grows (unat ?tid) (mw_memory ?w) (mw_memory w1)"
    by (rule doABackTrace_ok [OF ok sites])
  have len1: "length (threadLocalProfilerHashMemory (mw_memory w1)) = length (threadLocalProfilerHashMemory (mw_memory ?w))"
    using w1(6) by (auto simp: bump_def)
  have room1: "mw_look w1 ?a = None \<Longrightarrow> table_room (unat ?tid) (mw_objects w1, mw_memory w1) 1"
    using objects [OF w1(1)] w1(3) by simp
  obtain ob w2 where w2: "allocUpdate ?tid ?sz ?a ?k w1 = Inr (mw_look w1 ?a \<noteq> None, w2)" and at: "allocated_at ?tid ?sz ?a ?k w1 ob w2"
    using allocUpdate_eq [OF w1(2) room1] by metis
  have look2: "mw_look w2 = (mw_look ?w)(?a \<mapsto> ob)" and ob: "ob_allocated ob" "ob_callKey ob = ?k" "sc_size (ob_class ob) = ?sz"
    and wok: "waste_ok ?tid w2" and bt2: "mw_backtrace w2 = mw_backtrace w1"
    and len2: "length (threadLocalProfilerHashMemory (mw_memory w2)) = length (threadLocalProfilerHashMemory (mw_memory w1))"
    using at by (simp_all add: allocated_at_def w1(3))
  have fin: "finite (in_use ?w)" by (rule finite_in_use [OF ok])
  have new': "?a \<notin> in_use ?w" "?a \<noteq> 0" "?sz \<noteq> 0" "unat ?a + unat ?sz \<le> 2 ^ 47" "unat ?sz \<le> 2 ^ 32 - 8192"
      "\<forall>b \<in> in_use ?w. {unat ?a..<unat ?a + unat ?sz} \<inter> {unat b..<unat b + unat (object_size ?w b)} = {}"
    using new by (simp_all add: new_object_def)
  have map_ex: "map_exact (em_map m) ?w" and fin_T: "finite ?T"
    and use: "totalMemoryUsage (globalMemoryUsage (em_usage m)) = of_nat (4096 * card ?T)"
      "realMemoryUsage (globalMemoryUsage (em_usage m)) = used_bytes ?w" and site_ex: "sites_exact ?w"
    using ex by (simp_all add: earlier_exact_def)
  obtain u w3 where add: "addToMemoryUsage lock threads ?tid ?sz (of_nat (4096 * card (?Q - ?T))) (em_usage m) w2 = (u, w3)" by fastforce
  note fr = addToMemoryUsage_frame [OF add] addToMemoryUsage_keeps [OF add]
  have look: "mw_look w3 = (mw_look ?w)(?a \<mapsto> ob)" unfolding fr(1) by (rule look2)
  obtain s' where s': "updateObject ?tid ?a ?sz False (em_map m) = Inr (of_nat (4096 * card (?Q - ?T)), s')" "map_exact s' w3"
      "touched_set s' = ?T \<union> ?Q"
    using map_exact_alloc [OF map_ex look ob(1,3) new'(1-4,6) map_room] by blast
  define m' where "m' = \<lparr>em_map = s', em_waste = w3, em_usage = u\<rparr>"
  have run: "\<exists>a'. earlier_updateMemoryStatusAfterAllocation env n frames lock threads a m = Inr (a', m')"
    using w1(1) w2 s'(1) add
    by (simp add: earlier_updateMemoryStatusAfterAllocation_def Let_def object_of_def size_of_def m'_def)
  have "card (touched_set s') = card ?T + card (?Q - ?T)"
    unfolding s'(3) using fin_T by (subst card_Un_disjoint [symmetric]) (auto simp: object_pages_def)
  moreover have "ucast (of_nat (4096 * card (?Q - ?T)) :: u32) = (of_nat (4096 * card (?Q - ?T)) :: u64)"
    using page_bytes [OF few_pages [OF new'(5), of "unat ?a" ?T]] by (simp add: mult.commute)
  ultimately have "totalMemoryUsage (globalMemoryUsage u) = of_nat (4096 * card (touched_set s'))"
    using fr(4) use(1) by (simp add: algebra_simps)
  moreover have "realMemoryUsage (globalMemoryUsage u) = used_bytes w3"
    using fr(5) use(2) used_bytes_alloc [OF fin new'(1) look ob(1)] ob(3) by simp
  moreover have "site_look w3 = (site_look ?w)(?k \<mapsto> site_allocated ?sz n frames (site_look ?w ?k))"
    using w1(4) lookup_any_memory [of "BTMemMap (mw_backtrace w1)" "mw_memory w2" "mw_memory w1"] by (simp add: fr(6) bt2)
  then have "sites_exact w3" by (rule sites_exact_alloc [OF site_ex fin new'(1) look ob])
  ultimately have "earlier_exact m'" using s'(2) fin_T by (simp add: earlier_exact_def m'_def s'(3) object_pages_def)
  moreover have "memory_regions m' = memory_regions m" by (simp add: memory_regions_def m'_def fr(7) len1 len2)
  moreover have "?a \<in> in_use w3" "object_size w3 ?a = ?sz" using look ob by (simp_all add: in_use_def object_size_def)
  moreover have "memory_grows (unat ?tid) (mw_memory w1) (mw_memory w3)"
    unfolding fr(7) by (rule allocUpdate_memory [OF w2 w1(2) room1])
  ultimately show ?thesis using run fr(2) wok look w1(7) by (auto simp: m'_def)
qed

lemma earlier_free_exact:
  assumes ok: "waste_ok tid (em_waste m)" and ex: "earlier_exact m"
  shows "\<exists>a' m'. earlier_updateMemoryStatusBeforeFree ps tid a m = Inr (a', m')
    \<and> earlier_exact m' \<and> waste_ok tid (em_waste m') \<and> memory_regions m' = memory_regions m
    \<and> in_use (em_waste m') = in_use (em_waste m) - {object_of a} \<and> mw_memory (em_waste m') = mw_memory (em_waste m)
    \<and> (\<forall>b. b \<noteq> object_of a \<longrightarrow> mw_look (em_waste m') b = mw_look (em_waste m) b)"
proof (cases "object_of a \<in> in_use (em_waste m)")
  case False
  then have "freeUpdate tid (object_of a) (em_waste m) = Inr (None, em_waste m)"
    by (intro freeUpdate_none [OF ok]) (auto simp: in_use_def)
  with False ok ex show ?thesis
    by (simp add: earlier_updateMemoryStatusBeforeFree_def object_of_def Let_def switchFreeingType_def set_type_def)
next
  case True
  let ?w = "em_waste m" and ?a = "object_of a"
  obtain ob where l: "mw_look ?w ?a = Some ob" and live: "ob_allocated ob" using True by (auto simp: in_use_def)
  obtain w where w: "freeUpdate tid ?a ?w = Inr (Some (ob\<lparr>ob_allocated := False\<rparr>), w)" and at: "freed_at tid ?a ?w ob w"
    using freeUpdate_eq [OF ok l live] by metis
  let ?sz = "sc_size (ob_class ob)"
  have wok: "waste_ok tid w" and look: "mw_look w = (mw_look ?w)(?a \<mapsto> ob\<lparr>ob_allocated := False\<rparr>)"
    and site: "site_look w = upd_at (ob_callKey ob) (\<lambda>m. m\<lparr>memAllocated := memAllocated m - ucast ?sz\<rparr>) (site_look ?w)"
    and cur: "mw_current w tid = ob_class ob"
    and len: "length (threadLocalProfilerHashMemory (mw_memory w)) = length (threadLocalProfilerHashMemory (mw_memory ?w))"
    using at by (simp_all add: freed_at_def)
  have map_ex: "map_exact (em_map m) ?w" and site_ex: "sites_exact ?w" using ex by (simp_all add: earlier_exact_def)
  have "object_size ?w ?a = ?sz" using l by (simp add: object_size_def)
  with map_ex True have sz: "?sz \<noteq> 0" unfolding map_exact_def by metis
  obtain s' where s': "updateObject tid ?a ?sz True (em_map m) = Inr (0, s')" "map_exact s' w" "touched_set s' = touched_set (em_map m)"
    using map_exact_free [OF map_ex l live look] by blast
  let ?m' = "\<lparr>em_map = s', em_waste = w, em_usage = subRealSizeFromMemoryUsage tid ?sz (em_usage m)\<rparr>"
  have "\<exists>a'. earlier_updateMemoryStatusBeforeFree ps tid a m = Inr (a', ?m')"
    using w s'(1) sz cur
    by (simp add: earlier_updateMemoryStatusBeforeFree_def object_of_def Let_def switchFreeingType_def set_type_def)
  moreover have "earlier_exact ?m'"
    using ex s'(2,3) used_bytes_free [OF finite_in_use [OF ok] l live look]
      sites_exact_free [OF site_ex finite_in_use [OF ok] l live look site]
    by (simp add: earlier_exact_def subRealSizeFromMemoryUsage_def add_usage_def)
  moreover have "memory_regions ?m' = memory_regions m" using len by (simp add: memory_regions_def)
  moreover have "mw_memory (em_waste ?m') = mw_memory ?w" using freeUpdate_memory [OF w] by simp
  moreover have "\<forall>b. b \<noteq> ?a \<longrightarrow> mw_look (em_waste ?m') b = mw_look ?w b" using look by simp
  moreover have "waste_ok tid (em_waste ?m')" "in_use (em_waste ?m') = in_use ?w - {?a}" using wok in_use_free [OF look] by simp_all
  ultimately show ?thesis by blast
qed

text \<open>Pages without objects, within a megabyte.\<close>

definition pages_unused :: "u64 \<Rightarrow> u64 \<Rightarrow> EarlierMemory \<Rightarrow> bool" where
  "pages_unused addr len m \<longleftrightarrow> (let q = unat addr div 4096; n = unat (alignup len 4096) div 4096 in
     mega_index_of addr < NUM_MEGABYTE_MAP_ENTRIES \<and> mg_page_bump (em_map m) + 256 < MEGA_PAGE_ENTRIES \<and> q mod 256 + n \<le> 256
     \<and> (\<forall>a \<in> in_use (em_waste m). object_pages (unat a) (unat (object_size (em_waste m) a)) \<inter> {q..<q + n} = {}))"

lemma earlier_give_back_exact:
  assumes ex: "earlier_exact m" and unused: "pages_unused addr len m"
  shows "\<exists>m'. earlier_give_back tid addr len m = Inr m' \<and> earlier_exact m' \<and> em_waste m' = em_waste m"
proof -
  let ?q = "unat addr div 4096" and ?n = "unat (alignup len 4096) div 4096" and ?T = "touched_set (em_map m)"
  have c: "mega_index_of addr < NUM_MEGABYTE_MAP_ENTRIES" "mg_page_bump (em_map m) + 256 < MEGA_PAGE_ENTRIES"
      "?q mod 256 + ?n \<le> 256" "\<forall>a \<in> in_use (em_waste m). object_pages (unat a) (unat (object_size (em_waste m) a)) \<inter> {?q..<?q + ?n} = {}"
    using unused by (simp_all add: pages_unused_def Let_def)
  have map_ex: "map_exact (em_map m) (em_waste m)" and fin: "finite ?T" using ex by (simp_all add: earlier_exact_def)
  obtain s' where s': "mega_cleanupPages addr len (em_map m) = Inr (of_nat (4096 * card ({?q..<?q + ?n} \<inter> ?T)), s')"
      "map_exact s' (em_waste m)" "touched_set s' = ?T - {?q..<?q + ?n}"
    using map_exact_give_back [OF map_ex c] by blast
  let ?k = "card ({?q..<?q + ?n} \<inter> ?T)"
  have "?k \<le> card {?q..<?q + ?n}" by (intro card_mono) auto
  then have k: "?k < 2 ^ 20" using c(3) by simp
  have "card ?T = card (touched_set s') + ?k"
    unfolding s'(3) using fin by (subst card_Un_disjoint [symmetric]) (auto intro: arg_cong [where f = card])
  moreover have "ucast (ucast (of_nat (4096 * ?k) :: u64) :: u32) = (of_nat (4096 * ?k) :: u64)"
    using page_bytes [OF k] ucast_back [of "of_nat ?k * 4096"] by (simp add: mult.commute)
  ultimately show ?thesis
    using ex s' by (simp add: earlier_give_back_def earlier_exact_def subTotalSizeFromMemoryUsage_def add_usage_def algebra_simps)
qed

inductive earlier_run :: "EarlierMemory \<Rightarrow> EarlierMemory \<Rightarrow> bool" for m0 where
  start: "earlier_run m0 m0"
| alloc: "earlier_run m0 m \<Longrightarrow> thread_ok (ce_tid env) (em_waste m) \<Longrightarrow> new_object a m \<Longrightarrow> tables_room env a m
    \<Longrightarrow> earlier_updateMemoryStatusAfterAllocation env n frames lock threads a m = Inr (a', m') \<Longrightarrow> earlier_run m0 m'"
| free: "earlier_run m0 m \<Longrightarrow> thread_ok tid (em_waste m)
    \<Longrightarrow> earlier_updateMemoryStatusBeforeFree ps tid a m = Inr (a', m') \<Longrightarrow> earlier_run m0 m'"
| give_back: "earlier_run m0 m \<Longrightarrow> pages_unused addr len m \<Longrightarrow> earlier_give_back tid addr len m = Inr m' \<Longrightarrow> earlier_run m0 m'"

lemma same_regions: "memory_regions m' = memory_regions m \<Longrightarrow> thread_ok u (em_waste m') = thread_ok u (em_waste m)"
  by (simp add: memory_regions_def thread_ok_def)

lemma earlier_run_exact:
  assumes "earlier_run m0 m" and "waste_ok t (em_waste m0)" and "earlier_exact m0"
  shows "earlier_exact m \<and> waste_ok t (em_waste m)"
  using assms(1)
proof induction
  case (alloc m env a n frames lock threads a' m')
  have ok: "waste_ok (ce_tid env) (em_waste m)" using alloc waste_ok_thread by blast
  from earlier_alloc_exact [OF ok _ alloc(3,4), of n frames lock threads] alloc(5) alloc.IH
  show ?case using waste_ok_thread waste_ok_has_thread same_regions by (metis Inr_inject prod.inject)
next
  case (free m tid ps a a' m')
  have ok: "waste_ok tid (em_waste m)" using free waste_ok_thread by blast
  from earlier_free_exact [OF ok, of ps a] free(3) free.IH
  show ?case using waste_ok_thread waste_ok_has_thread same_regions by (metis Inr_inject prod.inject)
next
  case (give_back m addr len tid m')
  then show ?case using earlier_give_back_exact [of m addr len tid] by auto
qed (use assms in auto)

definition bytes_in_use :: "MemoryWaste \<Rightarrow> nat set" where
  "bytes_in_use w = (\<Union>a \<in> in_use w. {unat a..<unat a + unat (object_size w a)})"

lemma page_bytes_in_use:
  assumes "map_exact s w"
  shows "mega_used s q = int (card (bytes_in_use w \<inter> {q * 4096..<q * 4096 + 4096}))"
    and "bytes_in_use w \<inter> {q * 4096..<q * 4096 + 4096} \<noteq> {} \<Longrightarrow> mega_touched s q"
proof -
  obtain L where L: "mega_accounted L s" "set L = object_range w ` in_use w" using assms by (auto simp: map_exact_def)
  have B: "bytes_in_use w = (\<Union>r \<in> set L. {fst r..<fst r + snd r})" by (simp add: L(2) bytes_in_use_def object_range_def)
  show u: "mega_used s q = int (card (bytes_in_use w \<inter> {q * 4096..<q * 4096 + 4096}))"
    using L(1) sum_overlap_card [of L 4096 q] by (simp add: mega_accounted_def bytes_in_def B fun_eq_iff)
  assume "bytes_in_use w \<inter> {q * 4096..<q * 4096 + 4096} \<noteq> {}"
  then have "0 < card (bytes_in_use w \<inter> {q * 4096..<q * 4096 + 4096})" by (simp add: card_gt_0_iff)
  then show "mega_touched s q" using L(1) u by (simp add: mega_accounted_def used_touched_def)
qed

section \<open>A run\<close>

definition fresh_earlier :: EarlierMemory where
  "fresh_earlier = \<lparr>em_map = fresh_mega, em_waste = empty_waste, em_usage = sample_usage 0\<rparr>"

lemma fresh_untouched: "touched_set fresh_mega = {}"
  by (simp add: touched_set_def page_at_def page_entry_def fresh_mega_def MegaPage_zero_def)

lemma fresh_earlier_exact: "earlier_exact fresh_earlier" "waste_ok 0 (em_waste fresh_earlier)" "in_use (em_waste fresh_earlier) = {}"
proof -
  have none: "in_use empty_waste = {}" by (simp add: in_use_def empty_waste_ok(3))
  then show "in_use (em_waste fresh_earlier) = {}" by (simp add: fresh_earlier_def)
  show "waste_ok 0 (em_waste fresh_earlier)" using empty_waste_ok(1) by (simp add: fresh_earlier_def)
  have "map_exact fresh_mega empty_waste" using fresh_mega_accounted none by (auto simp: map_exact_def)
  moreover have "sites_exact empty_waste"
    using sample_sites_ok(2) [of sample_memory] none by (simp add: sites_exact_def empty_waste_def sample_waste_def)
  ultimately show "earlier_exact fresh_earlier"
    using none by (simp add: earlier_exact_def fresh_earlier_def fresh_untouched sample_usage_def Let_def used_bytes_def)
qed

definition sample_call :: EarlierStatus where
  "sample_call = set_type (\<lambda>y. y\<lparr>ey_allocatingFunction := MALLOC, ey_objectSize := 200, ey_objectAddress := 0x556000000fa0\<rparr>) EarlierStatus_zero"

lemma sample_call_fields: "object_of sample_call = 0x556000000fa0" "size_of sample_call = 200"
  by (simp_all add: sample_call_def set_type_def object_of_def size_of_def)

lemma sample_call_ok: "new_object sample_call fresh_earlier" "tables_room sample_env sample_call fresh_earlier"
proof -
  show "new_object sample_call fresh_earlier"
    using fresh_earlier_exact(3) by (simp add: new_object_def sample_call_fields)
  have w: "em_waste fresh_earlier = empty_waste" "em_map fresh_earlier = fresh_mega" by (simp_all add: fresh_earlier_def)
  have sites: "BTMemMap (mw_backtrace empty_waste) = sample_sites" "mw_memory empty_waste = sample_memory"
    by (simp_all add: empty_waste_def sample_waste_def)
  have site_room: "table_room 0 (sample_sites, sample_memory) 1" using sample_sites_room by simp
  have "table_room 0 (mw_objects w', mw_memory w') 1" if run: "doABackTrace sample_env n frames 200 empty_waste = Inr (key, w')"
    for n frames key w'
  proof -
    obtain w1 where "doABackTrace sample_env n frames 200 empty_waste = Inr (callKey_of sample_env, w1)"
        and o: "mw_objects w1 = mw_objects empty_waste" and
        "mw_memory w1 = sample_memory \<or> mw_memory w1 = sample_memory\<lparr>threadLocalProfilerHashMemory := bump sample_memory 0 (hm_sizeof_entry sample_sites)\<rparr>"
      by (rule doABackTrace_ok [of sample_env empty_waste n frames 200])
        (use empty_waste_ok(1) site_room in \<open>simp_all add: sample_env_def sites\<close>)
    with run have mem: "mw_objects w' = mw_objects empty_waste" "mw_memory w' = sample_memory
        \<or> mw_memory w' = sample_memory\<lparr>threadLocalProfilerHashMemory := bump sample_memory 0 (hm_sizeof_entry sample_sites)\<rparr>"
      by auto
    have "hm_sizeof_entry sample_sites = 96" "hm_sizeof_entry (mw_objects empty_waste) = 64"
      using HashMap_initialize_rep(5) [of "empty_map hash_uint8_t compare_uint8_t 96 newBackTraceMemory 0" 256 "0x200000000000" compare_uint8_t]
        HashMap_initialize_rep(5) [of "empty_map hashAddr compareAddr 64 (newObjectStatus no_class 0) 0" 256 "0x100000000000" compareAddr]
      by (simp_all add: sample_sites_def empty_waste_def sample_waste_def compare_uint8_t_def compareAddr_def)
        (simp_all add: empty_map_def)
    with mem empty_waste_ok(4) show ?thesis
      by (auto simp: table_room_def sites bump_def sample_region MMAPProfilerMemory_GetASpaceFromMemory_def)
  qed
  then show "tables_room sample_env sample_call fresh_earlier"
    using fresh_mega_rooms(1,2) site_room
    by (simp add: tables_room_def Let_def w sites sample_call_fields sample_env_def)
      (simp add: fresh_mega_def MEGA_PAGE_ENTRIES_def MEGA_CACHE_ENTRIES_def)
qed

section \<open>Properties\<close>


text \<open>A run with one object of 200 bytes, which lies on two pages.\<close>

lemma sample_run:
  obtains m where "earlier_run fresh_earlier m" and "in_use (em_waste m) = {0x556000000fa0}"
    and "object_size (em_waste m) 0x556000000fa0 = 200"
proof -
  have ok: "waste_ok (ce_tid sample_env) (em_waste fresh_earlier)" using fresh_earlier_exact(2) by (simp add: sample_env_def)
  obtain a' m where m: "earlier_updateMemoryStatusAfterAllocation sample_env 2 [0x401230, 0x401000] True 1 sample_call fresh_earlier = Inr (a', m)"
      "mw_look (em_waste m) = (mw_look (em_waste fresh_earlier))(0x556000000fa0 \<mapsto> the (mw_look (em_waste m) 0x556000000fa0))"
      "0x556000000fa0 \<in> in_use (em_waste m)" "object_size (em_waste m) 0x556000000fa0 = 200"
    using earlier_alloc_exact [OF ok fresh_earlier_exact(1) sample_call_ok, of 2 "[0x401230, 0x401000]" True 1, unfolded sample_call_fields]
    by blast
  have "earlier_run fresh_earlier m"
    by (rule earlier_run.alloc [OF earlier_run.start waste_ok_has_thread [OF ok] sample_call_ok m(1)])
  moreover have "in_use (em_waste m) = {0x556000000fa0}"
  proof -
    obtain ob where "mw_look (em_waste m) 0x556000000fa0 = Some ob" "ob_allocated ob" using m(3) by (auto simp: in_use_def)
    with m(2) have "mw_look (em_waste m) = (mw_look (em_waste fresh_earlier))(0x556000000fa0 \<mapsto> ob)" by simp
    from in_use_alloc [OF this \<open>ob_allocated ob\<close>] fresh_earlier_exact(3) show ?thesis by simp
  qed
  ultimately show thesis using that m(4) by blast
qed




end
