(* ===== verification/EarlierMallocProf.thy ===== *)
theory EarlierMallocProf
  imports EarlierStatus LibMallocProf
begin

text \<open>
  The allocation functions of the earlier version (\<^verbatim>\<open>src/libmallocprof.cpp\<close>), with the counting of performance events
  (\<^verbatim>\<open>src/memsample.c\<close>) that a thread's first tracked call sets up. The sampling is that of \<open>MemSample\<close>: the two
  versions differ in the kind of event only. As in \<open>LibMallocProf\<close>, a call of a real function is the address it returns and
  the interposed functions it calls.

  The program status is the one of the size classes in \<open>MemoryWaste\<close>, which also holds the profiler's memory.
\<close>

section \<open>Counting events\<close>

record Counting =
  cnt_init :: bool
  cnt_fault :: int
  cnt_cache :: int
  cnt_instr :: int

text \<open>\<open>read\<close> is what the kernel gives; without counting the old values stay.\<close>

definition getPerfCounts :: "Counting \<Rightarrow> PerfReadInfo \<Rightarrow> PerfReadInfo \<Rightarrow> PerfReadInfo" where
  "getPerfCounts c read old = (if \<not> cnt_init c then old else read)"

definition create_perf_event :: "int \<Rightarrow> Counting \<Rightarrow> int \<times> Counting" where
  "create_perf_event opened c = (opened, if opened = -1 then c\<lparr>cnt_init := False\<rparr> else c)"

text \<open>The descriptors that \<open>perf_event_open\<close> returns for faults, cache misses and instructions; closing them is left out.\<close>

definition setupCounting :: "int \<times> int \<times> int \<Rightarrow> Counting \<Rightarrow> Counting" where
  "setupCounting = (\<lambda>(fault, cache, instr) c.
    if cnt_init c then c
    else (let c = c\<lparr>cnt_init := True\<rparr>;
              (fd, c) = create_perf_event fault c; c = c\<lparr>cnt_fault := fd\<rparr>;
              (fd, c) = create_perf_event cache c; c = c\<lparr>cnt_cache := fd\<rparr>;
              (fd, c) = create_perf_event instr c
          in c\<lparr>cnt_instr := fd\<rparr>))"

definition stopCounting :: "Counting \<Rightarrow> Counting" where
  "stopCounting c = (if \<not> cnt_init c then c else c\<lparr>cnt_init := False\<rparr>)"

section \<open>State\<close>

record EarlierProfThread =
  ept_flags :: ThreadFlags
  ept_local :: EarlierThread
  ept_status :: EarlierStatus
  ept_predict :: EarlierPredictorThread
  ept_locks :: contended_locks
  ept_sampling :: Sampling
  ept_counting :: Counting

record EarlierProfiler =
  epf_counts :: EarlierCounts
  epf_predictor :: EarlierPredictor
  epf_memory :: EarlierMemory

type_synonym earlier_state = "EarlierProfThread \<times> EarlierProfiler"

abbreviation epf_waste :: "EarlierProfiler \<Rightarrow> MemoryWaste" where
  "epf_waste p \<equiv> em_waste (epf_memory p)"

abbreviation epf_status :: "EarlierProfiler \<Rightarrow> ProgramStatus" where
  "epf_status p \<equiv> sc_status (mw_classes (epf_waste p))"

definition set_earlier_memory :: "MyMalloc \<Rightarrow> EarlierProfiler \<Rightarrow> EarlierProfiler" where
  "set_earlier_memory mm p =
    p\<lparr>epf_memory := (epf_memory p)\<lparr>em_waste := (em_waste (epf_memory p))\<lparr>mw_memory := mm\<rparr>\<rparr>\<rparr>"

text \<open>What the processor and the kernel contribute to one call.\<close>

record EarlierMachine =
  emx_outsideStop :: u64
  emx_before :: u64
  emx_after :: u64
  emx_outsideStart :: u64
  emx_countsBefore :: PerfReadInfo
  emx_countsAfter :: PerfReadInfo
  emx_drawn :: u32
  emx_stackTop :: u64
  emx_returnAddr :: u64
  emx_numOfFrames :: u8
  emx_frames :: "u64 list"
  emx_tryLock :: bool
  emx_events :: "int \<times> int \<times> int"
  emx_pmu :: PMU
  emx_restarted :: bool

definition earlier_env :: "EarlierMachine \<Rightarrow> EarlierProfThread \<Rightarrow> CallEnv" where
  "earlier_env m t = \<lparr>ce_stackTop = emx_stackTop m, ce_returnAddr = emx_returnAddr m,
    ce_stackBottom = eth_stackStart (ept_local t), ce_tid = eth_index (ept_local t)\<rparr>"

section \<open>What a real function calls\<close>

datatype earlier_event =
    EarlierMmap u64 u64
  | EarlierMadvise u64 u64 int u64 u64
  | EarlierSbrk u64 u64
  | EarlierMprotect u64 u64
  | EarlierMunmap u64 u64 u64 u64
  | EarlierMremap u64 u64
  | EarlierMutexLock u64 int u64 u64 u64
  | EarlierSpinLock u64 int u64 u64 u64
  | EarlierSpinTrylock u64 int u64 u64 u64
  | EarlierMutexTrylock u64 int u64 u64 u64
  | EarlierMutexUnlock u64
  | EarlierSpinUnlock u64

definition on_thread_status :: "(EarlierStatus \<Rightarrow> EarlierStatus) \<Rightarrow> earlier_state \<Rightarrow> earlier_state" where
  "on_thread_status f = (\<lambda>(t, p). (t\<lparr>ept_status := f (ept_status t)\<rparr>, p))"

definition on_locking :: "(nat \<Rightarrow> locking \<Rightarrow> crash + locking) \<Rightarrow> earlier_state \<Rightarrow> crash + earlier_state" where
  "on_locking f = (\<lambda>(t, p).
    bindR (f (unat (eth_index (ept_local t))) (ept_status t, ept_locks t, mw_memory (epf_waste p))) (\<lambda>(a, hm, mm).
    Inr (t\<lparr>ept_status := a, ept_locks := hm\<rparr>, set_earlier_memory mm p)))"

definition on_memory ::
  "(u16 \<Rightarrow> EarlierStatus \<times> EarlierMemory \<Rightarrow> crash + (EarlierStatus \<times> EarlierMemory)) \<Rightarrow> earlier_state \<Rightarrow> crash + earlier_state" where
  "on_memory f = (\<lambda>(t, p).
    bindR (f (eth_index (ept_local t)) (ept_status t, epf_memory p)) (\<lambda>(a, mem).
    Inr (t\<lparr>ept_status := a\<rparr>, p\<lparr>epf_memory := mem\<rparr>)))"

fun earlier_inner_step :: "earlier_event \<Rightarrow> earlier_state \<Rightarrow> crash + earlier_state" where
  "earlier_inner_step (EarlierMmap a b) s = Inr (on_thread_status (earlier_yymmap (profilerInitialized (ept_flags (fst s))) a b) s)"
| "earlier_inner_step (EarlierMadvise addr len advice a b) s = on_memory (\<lambda>tid. earlier_madvise tid addr len advice a b) s"
| "earlier_inner_step (EarlierSbrk a b) s = Inr (on_thread_status (earlier_sbrk a b) s)"
| "earlier_inner_step (EarlierMprotect a b) s = Inr (on_thread_status (earlier_mprotect a b) s)"
| "earlier_inner_step (EarlierMunmap addr len a b) s = on_memory (\<lambda>tid. earlier_munmap tid addr len a b) s"
| "earlier_inner_step (EarlierMremap a b) s = Inr (on_thread_status (earlier_mremap a b) s)"
| "earlier_inner_step (EarlierMutexLock l w a b c) s = on_locking (\<lambda>tid. earlier_pthread_mutex_lock tid l w a b c) s"
| "earlier_inner_step (EarlierSpinLock l w a b c) s = on_locking (\<lambda>tid. earlier_pthread_spin_lock tid l w a b c) s"
| "earlier_inner_step (EarlierSpinTrylock l r a b c) s = on_locking (\<lambda>tid. earlier_pthread_spin_trylock tid l r a b c) s"
| "earlier_inner_step (EarlierMutexTrylock l r a b c) s = on_locking (\<lambda>tid. earlier_pthread_mutex_trylock tid l r a b c) s"
| "earlier_inner_step (EarlierMutexUnlock now) s = on_locking (\<lambda>_ l. Inr (earlier_pthread_mutex_unlock now l)) s"
| "earlier_inner_step (EarlierSpinUnlock now) s = on_locking (\<lambda>_ l. Inr (earlier_pthread_spin_unlock now l)) s"

fun earlier_inner_steps :: "earlier_event list \<Rightarrow> earlier_state \<Rightarrow> crash + earlier_state" where
  "earlier_inner_steps [] s = Inr s"
| "earlier_inner_steps (e # es) s = bindR (earlier_inner_step e s) (earlier_inner_steps es)"

record EarlierCall =
  erx_object :: u64
  erx_inner :: "earlier_event list"

section \<open>Around a real function\<close>

definition earlier_profiler_malloc :: "u64 \<Rightarrow> earlier_state \<Rightarrow> u64 \<times> earlier_state" where
  "earlier_profiler_malloc sz = (\<lambda>(t, p).
    let (a, mm) = MyMalloc_malloc (mw_memory (epf_waste p)) sz in (a, (t, set_earlier_memory mm p)))"

definition earlier_in_profiler_memory :: "u64 \<Rightarrow> earlier_state \<Rightarrow> bool \<times> earlier_state" where
  "earlier_in_profiler_memory ptr = (\<lambda>(t, p).
    let (b, mm) = MyMalloc_ifInProfilerMemoryThenFree (mw_memory (epf_waste p)) ptr in (b, (t, set_earlier_memory mm p)))"

definition outside_stop :: "EarlierMachine \<Rightarrow> earlier_state \<Rightarrow> earlier_state" where
  "outside_stop m = (\<lambda>(t, p). (t\<lparr>ept_predict := earlier_outsideCyclesStop (emx_outsideStop m) (ept_predict t)\<rparr>, p))"

definition outside_start :: "EarlierMachine \<Rightarrow> earlier_state \<Rightarrow> earlier_state" where
  "outside_start m = (\<lambda>(t, p). (t\<lparr>ept_predict := earlier_outsideCycleStart (emx_outsideStart m) (ept_predict t)\<rparr>, p))"

definition counts_before :: "EarlierMachine \<Rightarrow> EarlierProfThread \<Rightarrow> PerfReadInfo" where
  "counts_before m t = getPerfCounts (ept_counting t) (emx_countsBefore m) (ea_countingBefore (ept_status t))"

definition counts_after :: "EarlierMachine \<Rightarrow> EarlierProfThread \<Rightarrow> PerfReadInfo" where
  "counts_after m t = getPerfCounts (ept_counting t) (emx_countsAfter m) (ea_countingAfter (ept_status t))"

text \<open>The statement before a real allocation function, and that function.\<close>

definition earlier_before :: "AllocationFunction \<Rightarrow> u64 \<Rightarrow> EarlierMachine \<Rightarrow> earlier_state \<Rightarrow> crash + earlier_state" where
  "earlier_before f sz m = (\<lambda>(t, p).
    bindR (earlier_updateAllocatingStatusBefore (epf_status p) f (ucast sz) (cnt_init (ept_counting t)) (emx_drawn m)
             (counts_before m t) (emx_before m) (ept_local t) (ept_status t)) (\<lambda>a. Inr (t\<lparr>ept_status := a\<rparr>, p)))"

definition earlier_real_allocation ::
  "AllocationFunction \<Rightarrow> u64 \<Rightarrow> EarlierMachine \<Rightarrow> EarlierCall \<Rightarrow> earlier_state \<Rightarrow> crash + earlier_state" where
  "earlier_real_allocation f sz m rx s = bindR (earlier_before f sz m s) (earlier_inner_steps (erx_inner rx))"

definition earlier_after_allocation :: "EarlierMachine \<Rightarrow> u64 \<Rightarrow> earlier_state \<Rightarrow> crash + earlier_state" where
  "earlier_after_allocation m object = (\<lambda>(t, p).
    bindR (earlier_updateAllocatingStatusAfter (earlier_env m t) (emx_numOfFrames m) (emx_frames m) (emx_tryLock m)
             (unat (ec_totalNumOfThread (epf_counts p))) (counts_after m t) (emx_after m) object (ept_status t) (epf_memory p))
      (\<lambda>(a, mem). Inr (t\<lparr>ept_status := a\<rparr>, p\<lparr>epf_memory := mem\<rparr>)))"

definition earlier_update_infos :: "earlier_state \<Rightarrow> earlier_state" where
  "earlier_update_infos = (\<lambda>(t, p).
    let (a, ts, locks) = earlier_updateAllocatingInfoToThreadLocalData (epf_counts p) (ept_status t, ept_local t, ept_locks t);
        (a, pt) = earlier_updateAllocatingInfoToPredictor (epf_counts p) (ep_shared (epf_predictor p)) (a, ept_predict t)
    in (t\<lparr>ept_status := a, ept_local := ts, ept_locks := locks, ept_predict := pt\<rparr>, p))"

text \<open>The five statements that all allocation functions have in common.\<close>

definition earlier_tracked_allocation ::
  "AllocationFunction \<Rightarrow> u64 \<Rightarrow> EarlierMachine \<Rightarrow> EarlierCall \<Rightarrow> earlier_state \<Rightarrow> crash + earlier_state" where
  "earlier_tracked_allocation f sz m rx s =
    bindR (earlier_real_allocation f sz m rx s) (\<lambda>s.
    bindR (earlier_after_allocation m (erx_object rx) s) (\<lambda>s. Inr (earlier_update_infos s)))"

definition earlier_pass_through :: "EarlierCall \<Rightarrow> earlier_state \<Rightarrow> RealCall \<Rightarrow> crash + (u64 \<times> RealCall \<times> earlier_state)" where
  "earlier_pass_through rx s call = bindR (earlier_inner_steps (erx_inner rx) s) (\<lambda>s. Inr (erx_object rx, call, s))"

definition earlier_not_tracking :: "earlier_state \<Rightarrow> bool" where
  "earlier_not_tracking s \<longleftrightarrow> \<not> earlier_outsideTrackedAllocation (ept_status (fst s)) \<or> conclusionHasStarted (epf_status (snd s))"

abbreviation earlier_not_initialized :: "earlier_state \<Rightarrow> bool" where
  "earlier_not_initialized s \<equiv> profilerNotInitialized (ept_flags (fst s))"

definition earlier_first :: "earlier_state \<Rightarrow> bool \<times> earlier_state" where
  "earlier_first = (\<lambda>(t, p). let (b, a) = earlier_isFirstFunction (ept_status t) in (b, (t\<lparr>ept_status := a\<rparr>, p)))"

definition earlier_setup_counting :: "EarlierMachine \<Rightarrow> earlier_state \<Rightarrow> earlier_state" where
  "earlier_setup_counting m = (\<lambda>(t, p). (t\<lparr>ept_counting := setupCounting (emx_events m) (ept_counting t)\<rparr>, p))"

text \<open>Sampling is paused while the counting is set up.\<close>

definition counting_between_samples :: "EarlierMachine \<Rightarrow> earlier_state \<Rightarrow> crash + earlier_state" where
  "counting_between_samples m = (\<lambda>(t, p).
    let t = t\<lparr>ept_sampling := pauseSampling (ept_sampling t)\<rparr>; (t, p) = earlier_setup_counting m (t, p) in
    bindR (restartSampling (emx_restarted m) (ept_sampling t)) (\<lambda>sp. Inr (t\<lparr>ept_sampling := sp\<rparr>, p)))"

definition earlier_init_sampling :: "EarlierMachine \<Rightarrow> earlier_state \<Rightarrow> crash + earlier_state" where
  "earlier_init_sampling m = (\<lambda>(t, p). bindR (initPMU (emx_pmu m) (ept_sampling t)) (\<lambda>sp. Inr (t\<lparr>ept_sampling := sp\<rparr>, p)))"

section \<open>The allocation functions\<close>

text \<open>
  The first call of a thread sets up the counting; the first thread's sampling starts only after this call, that of the
  others has started with the thread.
\<close>

definition earlier_prepare_malloc :: "EarlierMachine \<Rightarrow> earlier_state \<Rightarrow> crash + (bool \<times> earlier_state)" where
  "earlier_prepare_malloc m s =
    (let (first, s) = earlier_first s; s = outside_stop m s; main = (eth_index (ept_local (fst s)) = 0) in
     bindR (if first \<and> main then Inr (earlier_setup_counting m s)
            else if first then counting_between_samples m s else Inr s) (\<lambda>s.
     Inr (first \<and> main, s)))"

definition earlier_yymalloc :: "u64 \<Rightarrow> EarlierMachine \<Rightarrow> EarlierCall \<Rightarrow> earlier_state \<Rightarrow> crash + (u64 \<times> RealCall \<times> earlier_state)" where
  "earlier_yymalloc sz m rx s =
    (if sz = 0 then Inr (0, NoCall, s)
     else if earlier_not_initialized s then (let (a, s) = earlier_profiler_malloc sz s in Inr (a, NoCall, s))
     else if earlier_not_tracking s then earlier_pass_through rx s (RealMalloc sz)
     else bindR (earlier_prepare_malloc m s) (\<lambda>(init, s).
       bindR (earlier_tracked_allocation MALLOC sz m rx s) (\<lambda>s.
       bindR (if init then earlier_init_sampling m s else Inr s) (\<lambda>s.
       Inr (erx_object rx, RealMalloc sz, outside_start m s)))))"

definition earlier_yycalloc ::
  "u64 \<Rightarrow> u64 \<Rightarrow> EarlierMachine \<Rightarrow> EarlierCall \<Rightarrow> earlier_state \<Rightarrow> crash + (u64 \<times> RealCall \<times> earlier_state)" where
  "earlier_yycalloc nelem elsize m rx s =
    (if nelem * elsize = 0 then Inr (0, NoCall, s)
     else if earlier_not_initialized s then (let (a, s) = earlier_profiler_malloc (nelem * elsize) s in Inr (a, NoCall, s))
     else if earlier_not_tracking s then earlier_pass_through rx s (RealCalloc nelem elsize)
     else bindR (earlier_tracked_allocation CALLOC (nelem * elsize) m rx (outside_stop m s)) (\<lambda>s.
       Inr (erx_object rx, RealCalloc nelem elsize, outside_start m s)))"

definition earlier_free_before :: "AllocationFunction \<Rightarrow> u64 \<Rightarrow> EarlierMachine \<Rightarrow> earlier_state \<Rightarrow> crash + earlier_state" where
  "earlier_free_before f ptr m = (\<lambda>(t, p).
    bindR (earlier_updateFreeingStatusBefore (epf_status p) f ptr (eth_index (ept_local t)) (cnt_init (ept_counting t))
             (emx_drawn m) (counts_before m t) (emx_before m) (ept_local t) (ept_status t) (epf_memory p)) (\<lambda>(a, mem).
    Inr (t\<lparr>ept_status := a\<rparr>, p\<lparr>epf_memory := mem\<rparr>)))"

definition earlier_free_after :: "EarlierMachine \<Rightarrow> earlier_state \<Rightarrow> earlier_state" where
  "earlier_free_after m = (\<lambda>(t, p).
    earlier_update_infos (t\<lparr>ept_status := earlier_updateFreeingStatusAfter (counts_after m t) (emx_after m) (ept_status t)\<rparr>, p))"

definition earlier_prepare_free :: "EarlierMachine \<Rightarrow> earlier_state \<Rightarrow> crash + earlier_state" where
  "earlier_prepare_free m s =
    (let (first, s) = earlier_first (outside_stop m s) in if first then counting_between_samples m s else Inr s)"

definition earlier_yyfree :: "u64 \<Rightarrow> EarlierMachine \<Rightarrow> EarlierCall \<Rightarrow> earlier_state \<Rightarrow> crash + (RealCall \<times> earlier_state)" where
  "earlier_yyfree ptr m rx s =
    (if ptr = 0 then Inr (NoCall, s)
     else (let (inside, s) = earlier_in_profiler_memory ptr s in
       if inside \<or> earlier_not_initialized s then Inr (NoCall, s)
       else if earlier_not_tracking s
       then bindR (earlier_pass_through rx s (RealFree ptr)) (\<lambda>(_, call, s). Inr (call, s))
       else bindR (earlier_prepare_free m s) (\<lambda>s.
         bindR (earlier_free_before FREE ptr m s) (\<lambda>s.
         bindR (earlier_inner_steps (erx_inner rx) s) (\<lambda>s.
         Inr (RealFree ptr, outside_start m (earlier_free_after m s)))))))"

definition earlier_yyrealloc ::
  "u64 \<Rightarrow> u64 \<Rightarrow> EarlierMachine \<Rightarrow> EarlierCall \<Rightarrow> earlier_state \<Rightarrow> crash + (u64 \<times> RealCall \<times> earlier_state)" where
  "earlier_yyrealloc ptr sz m rx s =
    (if earlier_not_initialized s
     then (let (_, s) = earlier_in_profiler_memory ptr s; (a, s) = earlier_profiler_malloc sz s in Inr (a, NoCall, s))
     else (let (inside, s) = earlier_in_profiler_memory ptr s in
       if inside then earlier_pass_through rx s (RealMalloc sz)
       else if earlier_not_tracking s then earlier_pass_through rx s (RealRealloc ptr sz)
       else (let s = outside_stop m s in
         bindR (if ptr \<noteq> 0 then earlier_free_before REALLOC ptr m s else Inr s) (\<lambda>s.
         bindR (earlier_tracked_allocation REALLOC sz m rx s) (\<lambda>s.
         Inr (erx_object rx, RealRealloc ptr sz, outside_start m s))))))"

text \<open>The address \<open>posix_memalign\<close> stores is \<open>erx_object\<close>; for size zero it stores none.\<close>

definition earlier_yyposix_memalign ::
  "u64 \<Rightarrow> u64 \<Rightarrow> EarlierMachine \<Rightarrow> EarlierCall \<Rightarrow> earlier_state \<Rightarrow> crash + (u64 \<times> RealCall \<times> earlier_state)" where
  "earlier_yyposix_memalign alignment sz m rx s =
    (if sz = 0 then Inr (0, NoCall, s)
     else if \<not> earlier_outsideTrackedAllocation (ept_status (fst s)) \<or> earlier_not_initialized s
       \<or> conclusionHasStarted (epf_status (snd s))
     then earlier_pass_through rx s (RealPosixMemalign alignment sz)
     else bindR (earlier_tracked_allocation POSIX_MEMALIGN sz m rx (outside_stop m s)) (\<lambda>s.
       Inr (erx_object rx, RealPosixMemalign alignment sz, outside_start m s)))"

definition earlier_yymemalign ::
  "u64 \<Rightarrow> u64 \<Rightarrow> EarlierMachine \<Rightarrow> EarlierCall \<Rightarrow> earlier_state \<Rightarrow> crash + (u64 \<times> RealCall \<times> earlier_state)" where
  "earlier_yymemalign alignment sz m rx s =
    (if sz = 0 then Inr (0, NoCall, s)
     else if earlier_not_initialized s then (let (a, s) = earlier_profiler_malloc sz s in Inr (a, NoCall, s))
     else if earlier_not_tracking s then earlier_pass_through rx s (RealMemalign alignment sz)
     else bindR (earlier_tracked_allocation MEMALIGN sz m rx (outside_stop m s)) (\<lambda>s.
       Inr (erx_object rx, RealMemalign alignment sz, outside_start m s)))"

end
