(* ===== verification/EarlierMallocProf_Correct.thy ===== *)
theory EarlierMallocProf_Correct
  imports EarlierMallocProf EarlierMemory_Correct MemSample_Correct
begin

text \<open>
  A thread of the earlier version that calls \<^verbatim>\<open>malloc\<close>, \<^verbatim>\<open>calloc\<close>, \<^verbatim>\<open>free\<close> and \<^verbatim>\<open>realloc\<close>, with everything the allocator does inside:
  the measures of memory are those of the objects the thread holds.
\<close>

section \<open>Locks inside a call\<close>

lemma table_invar_assign [simp]: "table_invar tid (HashMap_assign hm e v, mm) = table_invar tid (hm, mm)"
  by (simp add: table_invar_def hm_rep_assign region_ok_def nbuckets_def bucket_at_def bucket_addr_def) (simp add: HashMap_assign_def)

lemma table_invar_written [simp]: "table_invar tid (earlier_writingIntoHashTable ty q hm, mm) = table_invar tid (hm, mm)"
proof -
  have "table_invar tid (fold (earlier_writingIntoAddress ty) ds hm, mm) = table_invar tid (hm, mm)" for ds
    by (induction ds arbitrary: hm) (simp_all add: earlier_writingIntoAddress_def Let_def)
  then show ?thesis by (simp add: earlier_writingIntoHashTable_def)
qed

abbreviation lock_room :: "nat \<Rightarrow> u64 \<Rightarrow> contended_locks \<Rightarrow> MyMalloc \<Rightarrow> bool" where
  "lock_room tid lock hm mm \<equiv> HashMap_find hm lock = Inr None \<longrightarrow> table_room tid (hm, mm) 1"

definition locking_kept :: "nat \<Rightarrow> locking \<Rightarrow> locking \<Rightarrow> bool" where
  "locking_kept tid = (\<lambda>(a, hm, mm) (a', hm', mm'). table_invar tid (hm', mm') \<and> memory_grows tid mm mm'
    \<and> ea_allocatingType a' = ea_allocatingType a)"

lemma start_lock_kept:
  assumes run: "earlier_start_lock ty tid lock (a, hm, mm) = Inr s'" and inv: "table_invar tid (hm, mm)"
    and room: "lock_room tid lock hm mm"
  shows "locking_kept tid (a, hm, mm) s'"
proof -
  obtain r where r: "HashMap_find hm lock = Inr r" "table_lookup (hm, mm) lock = map_option (hm_value hm) r"
    using table_find_Inr [OF inv] by metis
  have init: "table_invar tid (snd (earlier_initForWritingOneLockData ty e (b, h)), m) = table_invar tid (h, m)"
    "ea_allocatingType (fst (earlier_initForWritingOneLockData ty e (b, h))) = ea_allocatingType b" for e b h and m :: MyMalloc
    by (auto simp: earlier_initForWritingOneLockData_def earlier_writingNewDataInTheQueue_def Let_def split: prod.splits)
  have new_lock: "ea_allocatingType (earlier_recordANewLock ty b) = ea_allocatingType b" for b
    by (simp add: earlier_recordANewLock_def earlier_on_overview_def Let_def)
  show ?thesis
  proof (cases r)
    case (Some e)
    obtain a' hm' where i: "earlier_initForWritingOneLockData ty e (a, hm) = (a', hm')" by fastforce
    have "s' = (a', hm', mm)" using run r(1) Some i by (simp add: earlier_start_lock_def)
    then show ?thesis using init [of e a hm] i inv by (simp add: locking_kept_def memory_grows_def)
  next
    case None
    then have absent: "table_lookup (hm, mm) lock = None" and rm: "table_room tid (hm, mm) 1" using r room by simp_all
    obtain e h m where ins: "HashMap_insert hm mm tid lock (newContendedLockData ty) = Inr (e, h, m)"
      using run r(1) None by (auto simp: earlier_start_lock_def bindR_Inr_iff)
    obtain s'' where "table_insert tid (hm, mm) lock (newContendedLockData ty) = Inr s''" "table_invar tid s''"
      using hash_table.insert_new [OF inv absent, of 0 "newContendedLockData ty"] rm by auto
    then have inv': "table_invar tid (h, m)" using ins by (simp add: table_insert_def)
    have grows: "memory_grows tid mm m"
      using HashMap_insert_memory [OF ins inv] bump_ok_room [OF inv rm] by (auto simp: memory_grows_def)
    obtain a' hm' where i: "earlier_initForWritingOneLockData ty e (earlier_recordANewLock ty a, h) = (a', hm')" by fastforce
    have "s' = (a', hm', m)" using run r(1) None ins i by (simp add: earlier_start_lock_def)
    then show ?thesis using init [of e "earlier_recordANewLock ty a" h] i inv' grows new_lock by (simp add: locking_kept_def)
  qed
qed

lemma lock_fields [simp]:
  "ea_allocatingType (minusCycles c a) = ea_allocatingType a" "ea_allocatingType (on_critical f a) = ea_allocatingType a"
  by (simp_all add: minusCycles_def on_critical_def)

lemma contention_type: "earlier_recordALockContention a = Inr a' \<Longrightarrow> ea_allocatingType a' = ea_allocatingType a"
  by (auto simp: earlier_recordALockContention_def earlier_on_overview_def Let_def bindR_Inr_iff)

lemma call_type: "earlier_recordLockCallAndCycles n c a = Inr a' \<Longrightarrow> ea_allocatingType a' = ea_allocatingType a"
  by (auto simp: earlier_recordLockCallAndCycles_def earlier_on_overview_def Let_def bindR_Inr_iff)

lemma locking_kept_status: "locking_kept tid s (a, hm, mm) \<Longrightarrow> ea_allocatingType a' = ea_allocatingType a \<Longrightarrow> locking_kept tid s (a', hm, mm)"
  by (cases s) (simp add: locking_kept_def)

lemma locking_kept_refl: "table_invar tid (hm, mm) \<Longrightarrow> locking_kept tid (a, hm, mm) (a, hm, mm)"
  by (simp add: locking_kept_def memory_grows_def)

lemma lock_kept:
  assumes run: "earlier_lock ty tid lock waits b c now (a, hm, mm) = Inr s'" and inv: "table_invar tid (hm, mm)"
    and room: "lock_room tid lock hm mm"
  shows "locking_kept tid (a, hm, mm) s'"
proof (cases "earlier_not_recorded a")
  case True
  then show ?thesis using run locking_kept_refl [OF inv, of a] by (simp add: earlier_lock_def)
next
  case False
  obtain a1 hm1 mm1 a2 a3 where s: "earlier_start_lock ty tid lock (a, hm, mm) = Inr (a1, hm1, mm1)"
      "(if waits then earlier_recordALockContention a1 else Inr a1) = Inr a2"
      "earlier_recordLockCallAndCycles 1 (c - b) (minusCycles 120 a2) = Inr a3"
      "s' = (on_critical (startCriticalSection now) a3, hm1, mm1)"
    using run False by (auto simp: earlier_lock_def bindR_Inr_iff)
  have "ea_allocatingType a2 = ea_allocatingType a1" using s(2) contention_type by (auto split: if_splits)
  with call_type [OF s(3)] show ?thesis
    unfolding s(4) by (intro locking_kept_status [OF start_lock_kept [OF s(1) inv room]]) simp
qed

lemma trylock_kept:
  assumes run: "earlier_trylock ty tid lock result b c now (a, hm, mm) = Inr s'" and inv: "table_invar tid (hm, mm)"
    and room: "lock_room tid lock hm mm"
  shows "locking_kept tid (a, hm, mm) s'"
proof (cases "earlier_not_recorded a")
  case True
  then show ?thesis using run locking_kept_refl [OF inv, of a] by (simp add: earlier_trylock_def)
next
  case False
  obtain a1 hm1 mm1 a2 a3 where s: "earlier_start_lock ty tid lock (a, hm, mm) = Inr (a1, hm1, mm1)"
      "(if result \<noteq> 0 then earlier_recordALockContention a1 else Inr (on_critical (startCriticalSection now) a1)) = Inr a2"
      "earlier_recordLockCallAndCycles 1 (c - b) (minusCycles 120 a2) = Inr a3" "s' = (a3, hm1, mm1)"
    using run False by (auto simp: earlier_trylock_def bindR_Inr_iff)
  have "ea_allocatingType a2 = ea_allocatingType a1" using s(2) contention_type by (auto split: if_splits)
  with call_type [OF s(3)] show ?thesis
    unfolding s(4) by (intro locking_kept_status [OF start_lock_kept [OF s(1) inv room]]) simp
qed

section \<open>What a call inside leaves alone\<close>

definition prof_ok :: "earlier_state \<Rightarrow> bool" where
  "prof_ok = (\<lambda>(t, p). waste_ok (eth_index (ept_local t)) (epf_waste p) \<and> earlier_exact (epf_memory p)
    \<and> table_invar (unat (eth_index (ept_local t))) (ept_locks t, mw_memory (epf_waste p)))"

definition same_objects :: "earlier_state \<Rightarrow> earlier_state \<Rightarrow> bool" where
  "same_objects = (\<lambda>(t, p) (t', p'). mw_look (epf_waste p') = mw_look (epf_waste p)
    \<and> eth_index (ept_local t') = eth_index (ept_local t) \<and> ea_allocatingType (ept_status t') = ea_allocatingType (ept_status t))"

lemma same_objects_refl [simp]: "same_objects s s"
  by (cases s) (simp add: same_objects_def)

lemma same_objects_trans: "same_objects s1 s2 \<Longrightarrow> same_objects s2 s3 \<Longrightarrow> same_objects s1 s3"
  by (auto simp: same_objects_def)

lemma earlier_exact_cong:
  assumes "em_map m' = em_map m" "em_usage m' = em_usage m" "mw_look (em_waste m') = mw_look (em_waste m)"
    and "site_look (em_waste m') = site_look (em_waste m)"
  shows "earlier_exact m' = earlier_exact m"
  unfolding earlier_exact_def map_exact_def sites_exact_def in_use_def object_range_def object_size_def used_bytes_def site_bytes_def
    assms ..

lemma waste_ok_grows: "waste_ok tid w \<Longrightarrow> memory_grows (unat tid) (mw_memory w) mm \<Longrightarrow> waste_ok tid (w\<lparr>mw_memory := mm\<rparr>)"
  using table_invar_grows [of "unat tid" "mw_objects w" "mw_memory w" mm] table_invar_grows [of "unat tid" "BTMemMap (mw_backtrace w)" "mw_memory w" mm]
    lookup_any_memory [of "mw_objects w" mm "mw_memory w"]
  by (simp add: waste_ok_def)

lemma set_memory_ok:
  assumes "prof_ok (t, p)" and "memory_grows (unat (eth_index (ept_local t))) (mw_memory (epf_waste p)) mm"
    and "table_invar (unat (eth_index (ept_local t))) (hm, mm)" and "eth_index (ept_local t') = eth_index (ept_local t)" "ept_locks t' = hm"
  shows "prof_ok (t', set_earlier_memory mm p)" and "mw_look (epf_waste (set_earlier_memory mm p)) = mw_look (epf_waste p)"
proof -
  let ?p = "set_earlier_memory mm p"
  have w: "epf_waste ?p = (epf_waste p)\<lparr>mw_memory := mm\<rparr>" "em_map (epf_memory ?p) = em_map (epf_memory p)"
      "em_usage (epf_memory ?p) = em_usage (epf_memory p)" by (simp_all add: set_earlier_memory_def)
  show look: "mw_look (epf_waste ?p) = mw_look (epf_waste p)"
    unfolding w using lookup_any_memory [of "mw_objects (epf_waste p)" mm "mw_memory (epf_waste p)"] by simp
  have "site_look (epf_waste ?p) = site_look (epf_waste p)"
    unfolding w using lookup_any_memory [of "BTMemMap (mw_backtrace (epf_waste p))" mm "mw_memory (epf_waste p)"] by simp
  from earlier_exact_cong [OF w(2,3) look this] show "prof_ok (t', ?p)"
    using assms waste_ok_grows by (simp add: prof_ok_def w(1))
qed

text \<open>What the allocator may do inside a call: give back pages without objects, and take locks the table has room for.\<close>

fun event_ok :: "earlier_event \<Rightarrow> earlier_state \<Rightarrow> bool" where
  "event_ok (EarlierMadvise addr len advice a b) (t, p) = (advice = 4 \<longrightarrow> pages_unused addr len (epf_memory p))"
| "event_ok (EarlierMunmap addr len a b) (t, p) = pages_unused addr len (epf_memory p)"
| "event_ok (EarlierMutexLock l w a b c) (t, p) = lock_room (unat (eth_index (ept_local t))) l (ept_locks t) (mw_memory (epf_waste p))"
| "event_ok (EarlierSpinLock l w a b c) (t, p) = lock_room (unat (eth_index (ept_local t))) l (ept_locks t) (mw_memory (epf_waste p))"
| "event_ok (EarlierSpinTrylock l r a b c) (t, p) = lock_room (unat (eth_index (ept_local t))) l (ept_locks t) (mw_memory (epf_waste p))"
| "event_ok (EarlierMutexTrylock l r a b c) (t, p) = lock_room (unat (eth_index (ept_local t))) l (ept_locks t) (mw_memory (epf_waste p))"
| "event_ok _ _ = True"

fun events_ok :: "earlier_event list \<Rightarrow> earlier_state \<Rightarrow> bool" where
  "events_ok [] s = True"
| "events_ok (e # es) s = (event_ok e s \<and> (\<forall>s'. earlier_inner_step e s = Inr s' \<longrightarrow> events_ok es s'))"

lemma status_only:
  "prof_ok s \<Longrightarrow> (\<And>a. ea_allocatingType (f a) = ea_allocatingType a) \<Longrightarrow> prof_ok (on_thread_status f s) \<and> same_objects s (on_thread_status f s)"
  by (cases s) (simp add: on_thread_status_def prof_ok_def same_objects_def)

lemma syscall_type: "ea_allocatingType (earlier_syscall sc a b st) = ea_allocatingType st"
  by (simp add: earlier_syscall_def earlier_addOneSyscall_def Let_def)

lemma locking_only:
  assumes ok: "prof_ok (t, p)" and run: "on_locking f (t, p) = Inr s'"
    and kept: "\<And>l'. f (unat (eth_index (ept_local t))) (ept_status t, ept_locks t, mw_memory (epf_waste p)) = Inr l'
      \<Longrightarrow> locking_kept (unat (eth_index (ept_local t))) (ept_status t, ept_locks t, mw_memory (epf_waste p)) l'"
  shows "prof_ok s' \<and> same_objects (t, p) s'"
proof -
  obtain a hm mm where l: "f (unat (eth_index (ept_local t))) (ept_status t, ept_locks t, mw_memory (epf_waste p)) = Inr (a, hm, mm)"
      and s': "s' = (t\<lparr>ept_status := a, ept_locks := hm\<rparr>, set_earlier_memory mm p)"
    using run by (auto simp: on_locking_def bindR_Inr_iff)
  have k: "table_invar (unat (eth_index (ept_local t))) (hm, mm)"
      "memory_grows (unat (eth_index (ept_local t))) (mw_memory (epf_waste p)) mm" "ea_allocatingType a = ea_allocatingType (ept_status t)"
    using kept [OF l] by (simp_all add: locking_kept_def)
  from set_memory_ok [OF ok k(2,1), of "t\<lparr>ept_status := a, ept_locks := hm\<rparr>"] k(3) show ?thesis
    by (simp add: s' same_objects_def)
qed

lemma give_back_only:
  assumes ok: "prof_ok (t, p)" and unused: "pages_unused addr len (epf_memory p)" and run: "earlier_give_back tid addr len (epf_memory p) = Inr m'"
    and "ea_allocatingType a = ea_allocatingType (ept_status t)"
  shows "prof_ok (t\<lparr>ept_status := a\<rparr>, p\<lparr>epf_memory := m'\<rparr>) \<and> same_objects (t, p) (t\<lparr>ept_status := a\<rparr>, p\<lparr>epf_memory := m'\<rparr>)"
proof -
  have "earlier_exact (epf_memory p)" using ok by (simp add: prof_ok_def)
  from earlier_give_back_exact [OF this unused, of tid] run have "earlier_exact m'" "em_waste m' = em_waste (epf_memory p)" by auto
  then show ?thesis using assms(1,4) by (simp add: prof_ok_def same_objects_def)
qed

lemma madvise_only:
  assumes ok: "prof_ok (t, p)" and unused: "advice = 4 \<longrightarrow> pages_unused addr len (epf_memory p)"
    and run: "on_memory (\<lambda>tid. earlier_madvise tid addr len advice a b) (t, p) = Inr s'"
  shows "prof_ok s' \<and> same_objects (t, p) s'"
proof -
  have ty: "ea_allocatingType (earlier_addOneSyscall MADVISE (b - a) (minusCycles 120 st)) = ea_allocatingType st" for st
    by (simp add: earlier_addOneSyscall_def Let_def)
  obtain st m where r: "earlier_madvise (eth_index (ept_local t)) addr len advice a b (ept_status t, epf_memory p) = Inr (st, m)"
      and s': "s' = (t\<lparr>ept_status := st\<rparr>, p\<lparr>epf_memory := m\<rparr>)"
    using run by (auto simp: on_memory_def bindR_Inr_iff)
  have st: "ea_allocatingType st = ea_allocatingType (ept_status t)"
    and m: "m = epf_memory p \<or> advice = 4 \<and> earlier_give_back (eth_index (ept_local t)) addr len (epf_memory p) = Inr m"
    using r ty by (auto simp: earlier_madvise_def bindR_Inr_iff split: if_splits)
  from m show ?thesis
  proof
    assume "m = epf_memory p"
    then show ?thesis using ok st by (simp add: s' prof_ok_def same_objects_def)
  next
    assume "advice = 4 \<and> earlier_give_back (eth_index (ept_local t)) addr len (epf_memory p) = Inr m"
    with unused st give_back_only [OF ok] show ?thesis unfolding s' by blast
  qed
qed

lemma munmap_only:
  assumes ok: "prof_ok (t, p)" and unused: "pages_unused addr len (epf_memory p)"
    and run: "on_memory (\<lambda>tid. earlier_munmap tid addr len a b) (t, p) = Inr s'"
  shows "prof_ok s' \<and> same_objects (t, p) s'"
proof -
  have ty: "ea_allocatingType (earlier_addOneSyscall MUNMAP (b - a) (minusCycles 120 st)) = ea_allocatingType st" for st
    by (simp add: earlier_addOneSyscall_def Let_def)
  obtain st m where r: "earlier_munmap (eth_index (ept_local t)) addr len a b (ept_status t, epf_memory p) = Inr (st, m)"
      and s': "s' = (t\<lparr>ept_status := st\<rparr>, p\<lparr>epf_memory := m\<rparr>)"
    using run by (auto simp: on_memory_def bindR_Inr_iff)
  have st: "ea_allocatingType st = ea_allocatingType (ept_status t)"
    and m: "m = epf_memory p \<or> earlier_give_back (eth_index (ept_local t)) addr len (epf_memory p) = Inr m"
    using r ty by (auto simp: earlier_munmap_def bindR_Inr_iff split: if_splits)
  from m show ?thesis
  proof
    assume "m = epf_memory p"
    then show ?thesis using ok st by (simp add: s' prof_ok_def same_objects_def)
  next
    assume "earlier_give_back (eth_index (ept_local t)) addr len (epf_memory p) = Inr m"
    with unused st give_back_only [OF ok] show ?thesis unfolding s' by blast
  qed
qed

lemma inner_step_ok:
  assumes ok: "prof_ok s" and ev: "event_ok e s" and run: "earlier_inner_step e s = Inr s'"
  shows "prof_ok s' \<and> same_objects s s'"
proof -
  obtain t p where s: "s = (t, p)" by (cases s)
  let ?tid = "unat (eth_index (ept_local t))"
  have inv: "table_invar ?tid (ept_locks t, mw_memory (epf_waste p))" using ok by (simp add: s prof_ok_def)
  note only = locking_only [OF ok [unfolded s]] and refl = locking_kept_refl [OF inv]
  show ?thesis
  proof (cases e)
    case (EarlierMmap a b)
    then show ?thesis using run status_only [OF ok, of "earlier_yymmap (profilerInitialized (ept_flags (fst s))) a b"]
      by (auto simp: earlier_yymmap_def syscall_type)
  next
    case (EarlierMadvise addr len advice a b)
    then show ?thesis using madvise_only [OF ok [unfolded s], of advice addr len a b s'] ev run by (simp add: s)
  next
    case (EarlierSbrk a b)
    then show ?thesis using run status_only [OF ok, of "earlier_sbrk a b"] by (auto simp: earlier_sbrk_def syscall_type)
  next
    case (EarlierMprotect a b)
    then show ?thesis using run status_only [OF ok, of "earlier_mprotect a b"] by (auto simp: earlier_mprotect_def syscall_type)
  next
    case (EarlierMunmap addr len a b)
    then show ?thesis using munmap_only [OF ok [unfolded s], of addr len a b s'] ev run by (simp add: s)
  next
    case (EarlierMremap a b)
    then show ?thesis using run status_only [OF ok, of "earlier_mremap a b"] by (auto simp: earlier_mremap_def syscall_type)
  next
    case (EarlierMutexLock l w a b c)
    then show ?thesis
      using only [of "\<lambda>tid. earlier_pthread_mutex_lock tid l w a b c" s'] lock_kept [OF _ inv] ev run
      by (simp add: s earlier_pthread_mutex_lock_def)
  next
    case (EarlierSpinLock l w a b c)
    then show ?thesis
      using only [of "\<lambda>tid. earlier_pthread_spin_lock tid l w a b c" s'] lock_kept [OF _ inv] ev run
      by (simp add: s earlier_pthread_spin_lock_def)
  next
    case (EarlierSpinTrylock l w a b c)
    then show ?thesis
      using only [of "\<lambda>tid. earlier_pthread_spin_trylock tid l w a b c" s'] trylock_kept [OF _ inv] ev run
      by (simp add: s earlier_pthread_spin_trylock_def)
  next
    case (EarlierMutexTrylock l w a b c)
    then show ?thesis
      using only [of "\<lambda>tid. earlier_pthread_mutex_trylock tid l w a b c" s'] trylock_kept [OF _ inv] ev run
      by (simp add: s earlier_pthread_mutex_trylock_def)
  next
    case (EarlierMutexUnlock now)
    then show ?thesis
      using only [of "\<lambda>_ l. Inr (earlier_pthread_mutex_unlock now l)" s'] locking_kept_status [OF refl] run
      by (simp add: s earlier_pthread_mutex_unlock_def)
  next
    case (EarlierSpinUnlock now)
    then show ?thesis
      using only [of "\<lambda>_ l. Inr (earlier_pthread_spin_unlock now l)" s'] locking_kept_status [OF refl] run
      by (simp add: s earlier_pthread_spin_unlock_def)
  qed
qed

lemma inner_steps_ok:
  "prof_ok s \<Longrightarrow> events_ok es s \<Longrightarrow> earlier_inner_steps es s = Inr s' \<Longrightarrow> prof_ok s' \<and> same_objects s s'"
proof (induction es arbitrary: s)
  case (Cons e es)
  obtain s1 where s1: "earlier_inner_step e s = Inr s1" "earlier_inner_steps es s1 = Inr s'"
    using Cons.prems(3) by (auto simp: bindR_Inr_iff)
  have "prof_ok s1 \<and> same_objects s s1" using inner_step_ok [OF Cons.prems(1) _ s1(1)] Cons.prems(2) by simp
  then show ?case using Cons.IH [OF _ _ s1(2)] Cons.prems(2) s1(1) same_objects_trans by simp blast
qed simp

section \<open>Before and after the real function\<close>

text \<open>The objects in use with their sizes.\<close>

definition heap_of :: "earlier_state \<Rightarrow> u64 \<Rightarrow> u32 option" where
  "heap_of = (\<lambda>(t, p) a. if a \<in> in_use (epf_waste p) then Some (object_size (epf_waste p) a) else None)"

lemma heap_of_cong:
  assumes "mw_look (epf_waste p') = mw_look (epf_waste p)"
  shows "heap_of (t', p') = heap_of (t, p)"
  unfolding heap_of_def in_use_def object_size_def assms prod.case ..

lemma same_objects_heap: "same_objects s s' \<Longrightarrow> heap_of s' = heap_of s"
  by (cases s; cases s') (auto simp: same_objects_def intro: heap_of_cong)

text \<open>A change of the thread that leaves its index, its table of locks and the process alone.\<close>

lemma thread_only:
  assumes "prof_ok (t, p)" and "eth_index (ept_local t') = eth_index (ept_local t)" and "ept_locks t' = ept_locks t"
  shows "prof_ok (t', p)" and "heap_of (t', p) = heap_of (t, p)"
  using assms by (simp_all add: prof_ok_def heap_of_def)

lemma outside_ok: "prof_ok (outside_stop m s) = prof_ok s" "heap_of (outside_stop m s) = heap_of s"
  "prof_ok (outside_start m s) = prof_ok s" "heap_of (outside_start m s) = heap_of s"
  by (cases s; simp add: outside_stop_def outside_start_def prof_ok_def heap_of_def)+

lemma before_type:
  assumes "earlier_before f sz m (t, p) = Inr s'"
  obtains a where "s' = (t\<lparr>ept_status := a\<rparr>, p)" and "ey_objectSize (ea_allocatingType a) = ucast sz"
    and "ey_allocatingFunction (ea_allocatingType a) = f"
  using assms by (auto simp: earlier_before_def bindR_Inr_iff earlier_updateAllocatingStatusBefore_def decide_sampling_def
      earlier_updateAllocatingTypeBefore_def set_type_def startCountCountingEvents_def split: if_splits)

definition call_of :: "EarlierStatus \<Rightarrow> u64 \<Rightarrow> EarlierStatus" where
  "call_of a object = set_type (\<lambda>y. y\<lparr>ey_objectAddress := object\<rparr>) a"

lemma call_of_fields [simp]: "object_of (call_of a object) = object" "size_of (call_of a object) = ey_objectSize (ea_allocatingType a)"
  by (simp_all add: call_of_def set_type_def object_of_def size_of_def)

lemma new_object_cong: "object_of a' = object_of a \<Longrightarrow> size_of a' = size_of a \<Longrightarrow> new_object a' m = new_object a m"
  by (simp add: new_object_def)

lemma tables_room_cong: "object_of a' = object_of a \<Longrightarrow> size_of a' = size_of a \<Longrightarrow> tables_room env a' m = tables_room env a m"
  by (simp add: tables_room_def)

text \<open>What is asked of the allocator for a call that records its object.\<close>

definition object_ok :: "EarlierMachine \<Rightarrow> u64 \<Rightarrow> earlier_state \<Rightarrow> bool" where
  "object_ok m object = (\<lambda>(t, p). new_object (call_of (ept_status t) object) (epf_memory p)
    \<and> tables_room (earlier_env m t) (call_of (ept_status t) object) (epf_memory p))"

lemma stop_type [simp]: "ea_allocatingType (stopCountCountingEvents counts now a) = ea_allocatingType a"
  by (simp add: stopCountCountingEvents_def removeAbnormalCountingEventValues_def calculateCountingDataInRealFunction_def
      removeAbnormalCycleValues_def calculateCycleInRealFunction_def Let_def)

lemma recorded_ok:
  assumes ok: "prof_ok (t, p)" and rec: "ey_allocatingFunction (ea_allocatingType (ept_status t)) \<in> {MALLOC, REALLOC}"
    and new: "object_ok m object (t, p)" and run: "earlier_after_allocation m object (t, p) = Inr s'"
  shows "prof_ok s'" and "heap_of s' = (heap_of (t, p))(object \<mapsto> ey_objectSize (ea_allocatingType (ept_status t)))"
    and "eth_index (ept_local (fst s')) = eth_index (ept_local t)"
proof -
  let ?a = "call_of (stopCountCountingEvents (counts_after m t) (emx_after m) (ept_status t)) object" and ?env = "earlier_env m t"
  let ?threads = "unat (ec_totalNumOfThread (epf_counts p))" and ?tid = "unat (eth_index (ept_local t))"
  have f: "object_of ?a = object_of (call_of (ept_status t) object)" "size_of ?a = size_of (call_of (ept_status t) object)" by simp_all
  have tid: "ce_tid ?env = eth_index (ept_local t)" by (simp add: earlier_env_def)
  have pre: "waste_ok (ce_tid ?env) (epf_waste p)" "earlier_exact (epf_memory p)" "new_object ?a (epf_memory p)" "tables_room ?env ?a (epf_memory p)"
    using ok new new_object_cong [OF f] tables_room_cong [OF f] by (simp_all add: prof_ok_def object_ok_def tid)
  obtain a1 mem where m: "earlier_updateMemoryStatusAfterAllocation ?env (emx_numOfFrames m) (emx_frames m) (emx_tryLock m) ?threads ?a (epf_memory p) = Inr (a1, mem)"
      "earlier_exact mem" "waste_ok (ce_tid ?env) (em_waste mem)"
      "mw_look (em_waste mem) = (mw_look (epf_waste p))(object_of ?a \<mapsto> the (mw_look (em_waste mem) (object_of ?a)))"
      "object_of ?a \<in> in_use (em_waste mem)" "object_size (em_waste mem) (object_of ?a) = size_of ?a"
    and grows: "\<exists>mm. memory_grows ?tid (mw_memory (epf_waste p)) mm \<and> memory_grows ?tid mm (mw_memory (em_waste mem))"
    using earlier_alloc_exact [OF pre, of "emx_numOfFrames m" "emx_frames m" "emx_tryLock m" ?threads] tid by auto
  have s': "s' = (t\<lparr>ept_status := set_type (\<lambda>y. y\<lparr>ey_doingAllocation := False\<rparr>) a1\<rparr>, p\<lparr>epf_memory := mem\<rparr>)"
    using run rec m(1) by (auto simp: earlier_after_allocation_def earlier_updateAllocatingStatusAfter_def Let_def call_of_def)
  have "table_invar ?tid (ept_locks t, mw_memory (em_waste mem))"
  proof -
    obtain mm where g: "memory_grows ?tid (mw_memory (epf_waste p)) mm" "memory_grows ?tid mm (mw_memory (em_waste mem))"
      using grows by blast
    have inv: "table_invar ?tid (ept_locks t, mw_memory (epf_waste p))" using ok by (simp add: prof_ok_def)
    show ?thesis by (rule table_invar_grows [OF table_invar_grows [OF inv g(1)] g(2)])
  qed
  then show "prof_ok s'" using m(2,3) by (simp add: s' prof_ok_def tid)
  have "ob_allocated (the (mw_look (em_waste mem) object))" using m(5) by (auto simp: in_use_def)
  from in_use_alloc [OF m(4) ] this have "in_use (em_waste mem) = insert object (in_use (epf_waste p))" by simp
  moreover have "object_size (em_waste mem) b = object_size (epf_waste p) b" if "b \<noteq> object" for b
    using m(4) that by (metis call_of_fields(1) fun_upd_other object_size_def)
  ultimately show "heap_of s' = (heap_of (t, p))(object \<mapsto> ey_objectSize (ea_allocatingType (ept_status t)))"
    using m(6) by (auto simp: s' heap_of_def fun_eq_iff)
  show "eth_index (ept_local (fst s')) = eth_index (ept_local t)" by (simp add: s')
qed

lemma unrecorded_ok:
  assumes ok: "prof_ok (t, p)" and rec: "ey_allocatingFunction (ea_allocatingType (ept_status t)) \<notin> {MALLOC, REALLOC}"
    and run: "earlier_after_allocation m object (t, p) = Inr s'"
  shows "prof_ok s'" and "heap_of s' = heap_of (t, p)" and "eth_index (ept_local (fst s')) = eth_index (ept_local t)"
proof -
  obtain a where "s' = (t\<lparr>ept_status := a\<rparr>, p)"
    using run rec by (auto simp: earlier_after_allocation_def earlier_updateAllocatingStatusAfter_def Let_def)
  then show "prof_ok s'" "heap_of s' = heap_of (t, p)" "eth_index (ept_local (fst s')) = eth_index (ept_local t)"
    using ok by (simp_all add: prof_ok_def heap_of_def)
qed

text \<open>Adding up writes into the thread's counters and its table of locks.\<close>

lemma add_up_kept:
  "eth_index (fst (earlier_add_up a (t, hm))) = eth_index t \<and> table_invar tid (snd (earlier_add_up a (t, hm)), mm) = table_invar tid (hm, mm)"
  by (simp add: earlier_add_up_def earlier_addUpOtherFunctionsInfo_def Let_def earlier_addUpOverview_def earlier_addUpDetail_def
      earlier_addUpCriticalSection_def earlier_addUpSyscalls_def earlier_addUpCountingEvents_def)

lemma add_ups_kept:
  "eth_index (fst (for_loop n (\<lambda>_. earlier_add_up a) (t, hm))) = eth_index t
    \<and> table_invar tid (snd (for_loop n (\<lambda>_. earlier_add_up a) (t, hm)), mm) = table_invar tid (hm, mm)"
proof (induction n)
  case (Suc n)
  then show ?case
    using add_up_kept [of a "fst (for_loop n (\<lambda>_. earlier_add_up a) (t, hm))" "snd (for_loop n (\<lambda>_. earlier_add_up a) (t, hm))" tid mm]
    by (simp add: for_loop_Suc)
qed simp

lemma infos_kept:
  assumes "earlier_updateAllocatingInfoToThreadLocalData g (a, t, hm) = (a', t', hm')"
  shows "eth_index t' = eth_index t" and "table_invar tid (hm', mm) = table_invar tid (hm, mm)"
proof -
  define b where "b = earlier_setAllocationTypeForOutputData g a"
  define u where "u = t\<lparr>eth_numOfFunctions := (eth_numOfFunctions t)[earlier_index (ea_typeForOutputData b) :=
    eth_numOfFunctions t ! earlier_index (ea_typeForOutputData b) + 1]\<rparr>"
  define r where "r = (if unat (ey_objectSize (ea_allocatingType b)) < 64 * ONE_KB then for_loop 20 (\<lambda>_. earlier_add_up b) (u, hm) else earlier_add_up b (u, hm))"
  have r: "eth_index (fst r) = eth_index t \<and> table_invar tid (snd r, mm) = table_invar tid (hm, mm)"
    using add_up_kept [of b u hm tid mm] add_ups_kept [of 20 b u hm tid mm] by (simp add: r_def) (simp add: u_def)
  have "(t', hm') = (if ea_sampled b then r else (u, hm))"
    using assms unfolding earlier_updateAllocatingInfoToThreadLocalData_def Let_def prod.case b_def [symmetric] u_def [symmetric] r_def [symmetric]
    by (simp split: prod.splits if_splits)
  moreover have "eth_index u = eth_index t" by (simp add: u_def)
  ultimately show "eth_index t' = eth_index t" "table_invar tid (hm', mm) = table_invar tid (hm, mm)"
    using r by (cases r; simp split: if_splits)+
qed

lemma infos_ok: "prof_ok s \<Longrightarrow> prof_ok (earlier_update_infos s) \<and> heap_of (earlier_update_infos s) = heap_of s"
proof -
  assume ok: "prof_ok s"
  obtain t p where s: "s = (t, p)" by (cases s)
  obtain a ts locks where u: "earlier_updateAllocatingInfoToThreadLocalData (epf_counts p) (ept_status t, ept_local t, ept_locks t) = (a, ts, locks)"
    by (metis prod_cases3)
  show ?thesis using ok infos_kept [OF u] by (simp add: s earlier_update_infos_def u prof_ok_def heap_of_def split: prod.split)
qed

section \<open>A tracked call\<close>

text \<open>What is asked of the allocator during a call: its events, and where it places an object that is recorded.\<close>

definition call_ok :: "AllocationFunction \<Rightarrow> u64 \<Rightarrow> EarlierMachine \<Rightarrow> EarlierCall \<Rightarrow> earlier_state \<Rightarrow> bool" where
  "call_ok f sz m rx s \<longleftrightarrow> (\<forall>s1. earlier_before f sz m s = Inr s1 \<longrightarrow> events_ok (erx_inner rx) s1)
    \<and> (f \<in> {MALLOC, REALLOC} \<longrightarrow> (\<forall>s2. earlier_real_allocation f sz m rx s = Inr s2 \<longrightarrow> object_ok m (erx_object rx) s2))"

abbreviation heap_after :: "AllocationFunction \<Rightarrow> u64 \<Rightarrow> u64 \<Rightarrow> (u64 \<Rightarrow> u32 option) \<Rightarrow> u64 \<Rightarrow> u32 option" where
  "heap_after f sz object H \<equiv> if f \<in> {MALLOC, REALLOC} then H(object \<mapsto> ucast sz) else H"

lemma tracked_ok:
  assumes ok: "prof_ok s" and call: "call_ok f sz m rx s" and run: "earlier_tracked_allocation f sz m rx s = Inr s'"
  shows "prof_ok s'" and "heap_of s' = heap_after f sz (erx_object rx) (heap_of s)"
proof -
  obtain t p where s: "s = (t, p)" by (cases s)
  obtain s1 s2 s3 where r: "earlier_before f sz m s = Inr s1" "earlier_inner_steps (erx_inner rx) s1 = Inr s2"
      "earlier_after_allocation m (erx_object rx) s2 = Inr s3" "s' = earlier_update_infos s3"
    using run by (auto simp: earlier_tracked_allocation_def earlier_real_allocation_def bindR_Inr_iff)
  obtain a where a: "s1 = (t\<lparr>ept_status := a\<rparr>, p)" "ey_objectSize (ea_allocatingType a) = ucast sz" "ey_allocatingFunction (ea_allocatingType a) = f"
    using before_type [OF r(1) [unfolded s]] by metis
  have ok1: "prof_ok s1" "heap_of s1 = heap_of s" using thread_only [OF ok [unfolded s], of "t\<lparr>ept_status := a\<rparr>"] by (simp_all add: s a(1))
  have "events_ok (erx_inner rx) s1" using call r(1) by (simp add: call_ok_def)
  from inner_steps_ok [OF ok1(1) this r(2)] have ok2: "prof_ok s2" "same_objects s1 s2" by simp_all
  obtain t2 p2 where s2: "s2 = (t2, p2)" by (cases s2)
  have ty: "ea_allocatingType (ept_status t2) = ea_allocatingType a" using ok2(2) by (simp add: s2 a(1) same_objects_def)
  have h2: "heap_of s2 = heap_of s" using same_objects_heap [OF ok2(2)] ok1(2) by simp
  have "prof_ok s3 \<and> heap_of s3 = heap_after f sz (erx_object rx) (heap_of s)"
  proof (cases "f \<in> {MALLOC, REALLOC}")
    case True
    then have "object_ok m (erx_object rx) (t2, p2)"
      using call r(1,2) by (simp add: call_ok_def earlier_real_allocation_def s2)
    with True recorded_ok [OF ok2(1) [unfolded s2] _ _ r(3) [unfolded s2]] show ?thesis by (simp add: ty a h2 [symmetric] s2)
  next
    case False
    then show ?thesis using unrecorded_ok [OF ok2(1) [unfolded s2] _ r(3) [unfolded s2]] by (simp add: ty a h2 [symmetric] s2)
  qed
  with infos_ok [of s3] r(4) show "prof_ok s'" "heap_of s' = heap_after f sz (erx_object rx) (heap_of s)" by simp_all
qed

lemma free_before_ok:
  assumes ok: "prof_ok s" and run: "earlier_free_before f ptr m s = Inr s'"
  shows "prof_ok s'" and "heap_of s' = (heap_of s)(ptr := None)"
proof -
  obtain t p where s: "s = (t, p)" by (cases s)
  let ?a = "earlier_updateFreeingTypeBefore f ptr (ept_status t)"
  have obj: "object_of ?a = ptr" by (simp add: earlier_updateFreeingTypeBefore_def set_type_def object_of_def)
  have pre: "waste_ok (eth_index (ept_local t)) (epf_waste p)" "earlier_exact (epf_memory p)" using ok by (simp_all add: s prof_ok_def)
  obtain a1 mem where m: "earlier_updateMemoryStatusBeforeFree (epf_status p) (eth_index (ept_local t)) ?a (epf_memory p) = Inr (a1, mem)"
      "earlier_exact mem" "waste_ok (eth_index (ept_local t)) (em_waste mem)" "in_use (em_waste mem) = in_use (epf_waste p) - {ptr}"
      "mw_memory (em_waste mem) = mw_memory (epf_waste p)" "\<forall>b. b \<noteq> ptr \<longrightarrow> mw_look (em_waste mem) b = mw_look (epf_waste p) b"
    using earlier_free_exact [OF pre, of "epf_status p" ?a] unfolding obj by blast
  obtain a2 where s': "s' = (t\<lparr>ept_status := a2\<rparr>, p\<lparr>epf_memory := mem\<rparr>)"
    using run m(1) by (auto simp: s earlier_free_before_def earlier_updateFreeingStatusBefore_def bindR_Inr_iff split: if_splits)
  show "prof_ok s'" using ok m(2,3,5) by (simp add: s s' prof_ok_def)
  have "object_size (em_waste mem) b = object_size (epf_waste p) b" if "b \<noteq> ptr" for b
    using m(6) that by (simp add: object_size_def)
  then show "heap_of s' = (heap_of s)(ptr := None)" using m(4) by (auto simp: s s' heap_of_def fun_eq_iff)
qed

lemma free_after_ok: "prof_ok s \<Longrightarrow> prof_ok (earlier_free_after m s) \<and> heap_of (earlier_free_after m s) = heap_of s"
proof (cases s)
  case (Pair t p)
  let ?t = "t\<lparr>ept_status := earlier_updateFreeingStatusAfter (counts_after m t) (emx_after m) (ept_status t)\<rparr>"
  assume "prof_ok s"
  then show ?thesis using thread_only [of t p ?t] infos_ok [of "(?t, p)"] by (simp add: Pair earlier_free_after_def)
qed

lemma profiler_memory_only:
  assumes "prof_ok s" and "earlier_in_profiler_memory ptr s = (b, s')"
  shows "prof_ok s'" and "heap_of s' = heap_of s"
proof -
  obtain t p where s: "s = (t, p)" by (cases s)
  obtain mm where mm: "s' = (t, set_earlier_memory mm p)" "threadLocalProfilerHashMemory mm = threadLocalProfilerHashMemory (mw_memory (epf_waste p))"
    using assms(2) by (auto simp: s earlier_in_profiler_memory_def MyMalloc_ifInProfilerMemoryThenFree_def split: prod.splits)
  have inv: "table_invar (unat (eth_index (ept_local t))) (ept_locks t, mm)"
    using assms(1) by (intro iffD2 [OF table_invar_region [OF mm(2)]]) (simp add: s prof_ok_def)
  have "memory_grows (unat (eth_index (ept_local t))) (mw_memory (epf_waste p)) mm" using mm(2) by (simp add: memory_grows_def)
  from set_memory_ok [OF assms(1) [unfolded s] this inv, of t] show "prof_ok s'" "heap_of s' = heap_of s"
    by (auto simp: s mm(1) intro: heap_of_cong)
qed

text \<open>Setting up the counting and the sampling.\<close>

lemma counting_only:
  "counting_between_samples m s = Inr s' \<Longrightarrow> prof_ok s \<Longrightarrow> prof_ok s' \<and> heap_of s' = heap_of s"
  by (cases s) (auto simp: counting_between_samples_def earlier_setup_counting_def Let_def bindR_Inr_iff prof_ok_def heap_of_def)

lemma setup_only: "prof_ok (earlier_setup_counting m s) = prof_ok s" "heap_of (earlier_setup_counting m s) = heap_of s"
  by (cases s; simp add: earlier_setup_counting_def prof_ok_def heap_of_def)+

lemma init_only: "earlier_init_sampling m s = Inr s' \<Longrightarrow> prof_ok s \<Longrightarrow> prof_ok s' \<and> heap_of s' = heap_of s"
  by (cases s) (auto simp: earlier_init_sampling_def bindR_Inr_iff prof_ok_def heap_of_def)

lemma first_only: "earlier_first s = (b, s') \<Longrightarrow> prof_ok s' = prof_ok s \<and> heap_of s' = heap_of s"
  by (cases s) (auto simp: earlier_first_def prof_ok_def heap_of_def split: prod.splits)

lemma prepare_malloc_only:
  assumes "earlier_prepare_malloc m s = Inr (init, s')" and "prof_ok s"
  shows "prof_ok s' \<and> heap_of s' = heap_of s"
proof -
  obtain b s1 where f: "earlier_first s = (b, s1)" by (cases "earlier_first s")
  show ?thesis
    using assms first_only [OF f] outside_ok [of m s1] counting_only [of m "outside_stop m s1" s'] setup_only [of m "outside_stop m s1"]
    by (auto simp: earlier_prepare_malloc_def f Let_def bindR_Inr_iff split: if_splits)
qed

lemma prepare_free_only:
  assumes "earlier_prepare_free m s = Inr s'" and "prof_ok s"
  shows "prof_ok s' \<and> heap_of s' = heap_of s"
proof -
  obtain b s1 where f: "earlier_first (outside_stop m s) = (b, s1)" by (cases "earlier_first (outside_stop m s)")
  show ?thesis
    using assms first_only [OF f] outside_ok [of m s] counting_only [of m s1 s']
    by (auto simp: earlier_prepare_free_def f Let_def split: if_splits)
qed

section \<open>The calls of a thread\<close>

definition tracks :: "earlier_state \<Rightarrow> bool" where
  "tracks s \<longleftrightarrow> \<not> earlier_not_initialized s \<and> \<not> earlier_not_tracking s"

definition malloc_ok :: "u64 \<Rightarrow> EarlierMachine \<Rightarrow> EarlierCall \<Rightarrow> earlier_state \<Rightarrow> bool" where
  "malloc_ok sz m rx s \<longleftrightarrow> (\<forall>init s1. earlier_prepare_malloc m s = Inr (init, s1) \<longrightarrow> call_ok MALLOC sz m rx s1)"

definition free_ok :: "u64 \<Rightarrow> EarlierMachine \<Rightarrow> EarlierCall \<Rightarrow> earlier_state \<Rightarrow> bool" where
  "free_ok ptr m rx s \<longleftrightarrow> (\<forall>s1 s2. earlier_prepare_free m (snd (earlier_in_profiler_memory ptr s)) = Inr s1
    \<longrightarrow> earlier_free_before FREE ptr m s1 = Inr s2 \<longrightarrow> events_ok (erx_inner rx) s2)"

definition realloc_ok :: "u64 \<Rightarrow> u64 \<Rightarrow> EarlierMachine \<Rightarrow> EarlierCall \<Rightarrow> earlier_state \<Rightarrow> bool" where
  "realloc_ok ptr sz m rx s \<longleftrightarrow> (let (inside, s1) = earlier_in_profiler_memory ptr s; s2 = outside_stop m s1 in
    if inside then events_ok (erx_inner rx) s1
    else (\<forall>s3. (if ptr \<noteq> 0 then earlier_free_before REALLOC ptr m s2 else Inr s2) = Inr s3 \<longrightarrow> call_ok REALLOC sz m rx s3))"

text \<open>
  The calls, with the objects that the thread has from \<^verbatim>\<open>malloc\<close> and \<^verbatim>\<open>realloc\<close>; \<open>NoCall\<close> means that no real function was
  called, \<open>RealMalloc\<close> in a \<^verbatim>\<open>realloc\<close> that the block was one of the profiler's memory.
\<close>

inductive prof_run :: "earlier_state \<Rightarrow> (u64 \<Rightarrow> u32 option) \<Rightarrow> earlier_state \<Rightarrow> bool" for s0 where
  start: "prof_run s0 (heap_of s0) s0"
| malloc: "prof_run s0 H s \<Longrightarrow> tracks s \<Longrightarrow> malloc_ok sz m rx s \<Longrightarrow> earlier_yymalloc sz m rx s = Inr (object, call, s')
    \<Longrightarrow> prof_run s0 (if call = NoCall then H else H(object \<mapsto> ucast sz)) s'"
| calloc: "prof_run s0 H s \<Longrightarrow> tracks s \<Longrightarrow> call_ok CALLOC (n * sz) m rx (outside_stop m s)
    \<Longrightarrow> earlier_yycalloc n sz m rx s = Inr (object, call, s') \<Longrightarrow> prof_run s0 H s'"
| posix_memalign: "prof_run s0 H s \<Longrightarrow> tracks s \<Longrightarrow> call_ok POSIX_MEMALIGN sz m rx (outside_stop m s)
    \<Longrightarrow> earlier_yyposix_memalign al sz m rx s = Inr (object, call, s') \<Longrightarrow> prof_run s0 H s'"
| memalign: "prof_run s0 H s \<Longrightarrow> tracks s \<Longrightarrow> call_ok MEMALIGN sz m rx (outside_stop m s)
    \<Longrightarrow> earlier_yymemalign al sz m rx s = Inr (object, call, s') \<Longrightarrow> prof_run s0 H s'"
| free: "prof_run s0 H s \<Longrightarrow> tracks s \<Longrightarrow> free_ok ptr m rx s \<Longrightarrow> earlier_yyfree ptr m rx s = Inr (call, s')
    \<Longrightarrow> prof_run s0 (if call = NoCall then H else H(ptr := None)) s'"
| realloc: "prof_run s0 H s \<Longrightarrow> tracks s \<Longrightarrow> realloc_ok ptr sz m rx s \<Longrightarrow> earlier_yyrealloc ptr sz m rx s = Inr (object, call, s')
    \<Longrightarrow> prof_run s0 (if call = RealMalloc sz then H else (if ptr = 0 then H else H(ptr := None))(object \<mapsto> ucast sz)) s'"

lemma in_profiler_tracks: "earlier_in_profiler_memory ptr s = (b, s') \<Longrightarrow> tracks s' = tracks s"
  by (cases s) (auto simp: earlier_in_profiler_memory_def set_earlier_memory_def tracks_def earlier_not_tracking_def split: prod.splits)

lemma prof_malloc_step:
  assumes ok: "prof_ok s" "tracks s" "malloc_ok sz m rx s" and run: "earlier_yymalloc sz m rx s = Inr (object, call, s')"
  shows "prof_ok s' \<and> heap_of s' = (if call = NoCall then heap_of s else (heap_of s)(object \<mapsto> ucast sz))"
proof (cases "sz = 0")
  case True
  then show ?thesis using ok run by (simp add: earlier_yymalloc_def)
next
  case False
  obtain init s1 s2 s3 where r: "earlier_prepare_malloc m s = Inr (init, s1)" "earlier_tracked_allocation MALLOC sz m rx s1 = Inr s2"
      "(if init then earlier_init_sampling m s2 else Inr s2) = Inr s3" "s' = outside_start m s3" "object = erx_object rx" "call = RealMalloc sz"
    using run ok(2) False by (auto simp: earlier_yymalloc_def tracks_def bindR_Inr_iff)
  have "prof_ok s1 \<and> heap_of s1 = heap_of s" using prepare_malloc_only [OF r(1) ok(1)] .
  moreover have "call_ok MALLOC sz m rx s1" using ok(3) [unfolded malloc_ok_def, rule_format, OF r(1)] .
  ultimately have "prof_ok s2" "heap_of s2 = (heap_of s)(object \<mapsto> ucast sz)"
    using tracked_ok [OF _ _ r(2)] by (simp_all add: r(5))
  with init_only [of m s2 s3] r(3) show ?thesis by (auto simp: r(4,6) outside_ok split: if_splits)
qed

lemma unrecorded_step:
  assumes ok: "prof_ok s" and call: "call_ok f sz m rx (outside_stop m s)" and f: "f \<notin> {MALLOC, REALLOC}"
    and run: "earlier_tracked_allocation f sz m rx (outside_stop m s) = Inr s1"
  shows "prof_ok (outside_start m s1) \<and> heap_of (outside_start m s1) = heap_of s"
  using tracked_ok [OF _ call run] ok f by (simp add: outside_ok)

lemma free_step:
  assumes ok: "prof_ok s" "tracks s" "free_ok ptr m rx s" and run: "earlier_yyfree ptr m rx s = Inr (call, s')"
  shows "prof_ok s' \<and> heap_of s' = (if call = NoCall then heap_of s else (heap_of s)(ptr := None))"
proof (cases "ptr = 0")
  case True
  then show ?thesis using ok run by (simp add: earlier_yyfree_def)
next
  case False
  obtain inside s1 where i: "earlier_in_profiler_memory ptr s = (inside, s1)" by (cases "earlier_in_profiler_memory ptr s")
  note ok1 = profiler_memory_only [OF ok(1) i] in_profiler_tracks [OF i]
  show ?thesis
  proof (cases inside)
    case True
    then show ?thesis using run False ok1 by (simp add: earlier_yyfree_def i)
  next
    case outside: False
    obtain s2 s3 s4 where r: "earlier_prepare_free m s1 = Inr s2" "earlier_free_before FREE ptr m s2 = Inr s3"
        "earlier_inner_steps (erx_inner rx) s3 = Inr s4" "s' = outside_start m (earlier_free_after m s4)" "call = RealFree ptr"
      using run ok(2) False outside ok1(3) by (auto simp: earlier_yyfree_def i tracks_def bindR_Inr_iff)
    have s2: "prof_ok s2" "heap_of s2 = heap_of s" using prepare_free_only [OF r(1) ok1(1)] ok1(2) by simp_all
    have s3: "prof_ok s3" "heap_of s3 = (heap_of s)(ptr := None)" using free_before_ok [OF s2(1) r(2)] s2(2) by simp_all
    have "events_ok (erx_inner rx) s3" using ok(3) [unfolded free_ok_def i snd_conv, rule_format, OF r(1,2)] .
    from inner_steps_ok [OF s3(1) this r(3)] have s4: "prof_ok s4" and same: "same_objects s3 s4" by simp_all
    have "heap_of s4 = (heap_of s)(ptr := None)" using same_objects_heap [OF same] s3(2) by simp
    with s4 show ?thesis using free_after_ok [of s4 m] by (simp add: r(4,5) outside_ok)
  qed
qed

lemma realloc_step:
  assumes ok: "prof_ok s" "tracks s" "realloc_ok ptr sz m rx s" and run: "earlier_yyrealloc ptr sz m rx s = Inr (object, call, s')"
  shows "prof_ok s' \<and> heap_of s' = (if call = RealMalloc sz then heap_of s
    else (if ptr = 0 then heap_of s else (heap_of s)(ptr := None))(object \<mapsto> ucast sz))"
proof -
  obtain inside s1 where i: "earlier_in_profiler_memory ptr s = (inside, s1)" by (cases "earlier_in_profiler_memory ptr s")
  note ok1 = profiler_memory_only [OF ok(1) i] in_profiler_tracks [OF i]
  show ?thesis
  proof (cases inside)
    case True
    then have inner: "earlier_inner_steps (erx_inner rx) s1 = Inr s'" and call: "call = RealMalloc sz"
      using run ok(2) by (auto simp: earlier_yyrealloc_def i tracks_def earlier_pass_through_def bindR_Inr_iff)
    have "events_ok (erx_inner rx) s1" using ok(3) True by (simp add: realloc_ok_def i Let_def)
    from inner_steps_ok [OF ok1(1) this inner] have "prof_ok s'" and same: "same_objects s1 s'" by simp_all
    then show ?thesis using same_objects_heap [OF same] ok1(2) call by simp
  next
    case False
    obtain s3 s4 where r: "(if ptr \<noteq> 0 then earlier_free_before REALLOC ptr m (outside_stop m s1) else Inr (outside_stop m s1)) = Inr s3"
        "earlier_tracked_allocation REALLOC sz m rx s3 = Inr s4" "s' = outside_start m s4" "object = erx_object rx" "call = RealRealloc ptr sz"
      using run ok(2) False ok1(3) by (auto simp: earlier_yyrealloc_def i tracks_def Let_def bindR_Inr_iff)
    have stopped: "prof_ok (outside_stop m s1)" "heap_of (outside_stop m s1) = heap_of s" using ok1 by (simp_all add: outside_ok)
    have s3: "prof_ok s3 \<and> heap_of s3 = (if ptr = 0 then heap_of s else (heap_of s)(ptr := None))"
      using r(1) stopped free_before_ok [OF stopped(1), of REALLOC ptr m s3] by (auto split: if_splits)
    have "\<forall>s3. (if ptr \<noteq> 0 then earlier_free_before REALLOC ptr m (outside_stop m s1) else Inr (outside_stop m s1)) = Inr s3
        \<longrightarrow> call_ok REALLOC sz m rx s3"
      using ok(3) False unfolding realloc_ok_def i Let_def by simp
    from this [rule_format, OF r(1)] have "call_ok REALLOC sz m rx s3" .
    from tracked_ok [OF conjunct1 [OF s3] this r(2)] s3 show ?thesis by (simp add: r(3,4,5) outside_ok)
  qed
qed

lemma prof_run_ok:
  assumes "prof_run s0 H s" and "prof_ok s0"
  shows "prof_ok s \<and> heap_of s = H"
  using assms(1)
proof induction
  case (calloc H s n sz m rx object call s')
  then show ?case using unrecorded_step [of s CALLOC "n * sz" m rx]
    by (auto simp: earlier_yycalloc_def tracks_def bindR_Inr_iff split: if_splits)
next
  case (posix_memalign H s sz m rx al object call s')
  then show ?case using unrecorded_step [of s POSIX_MEMALIGN sz m rx]
    by (auto simp: earlier_yyposix_memalign_def tracks_def earlier_not_tracking_def bindR_Inr_iff split: if_splits)
next
  case (memalign H s sz m rx al object call s')
  then show ?case using unrecorded_step [of s MEMALIGN sz m rx]
    by (auto simp: earlier_yymemalign_def tracks_def bindR_Inr_iff split: if_splits)
next
  case (malloc H s sz m rx object call s')
  then show ?case using prof_malloc_step [of s sz m rx object call s'] by simp
next
  case (free H s ptr m rx call s')
  then show ?case using free_step [of s ptr m rx call s'] by simp
next
  case (realloc H s ptr sz m rx object call s')
  then show ?case using realloc_step [of s ptr sz m rx object call s'] by simp
qed (use assms(2) in simp)

section \<open>A first call\<close>

lemma recorded_returns:
  assumes ok: "prof_ok (t, p)" and new: "object_ok m object (t, p)"
    and rec: "ey_allocatingFunction (ea_allocatingType (ept_status t)) \<in> {MALLOC, REALLOC}"
  shows "\<exists>s'. earlier_after_allocation m object (t, p) = Inr s'"
proof -
  let ?a = "call_of (stopCountCountingEvents (counts_after m t) (emx_after m) (ept_status t)) object" and ?env = "earlier_env m t"
  have f: "object_of ?a = object_of (call_of (ept_status t) object)" "size_of ?a = size_of (call_of (ept_status t) object)" by simp_all
  have pre: "waste_ok (ce_tid ?env) (epf_waste p)" "earlier_exact (epf_memory p)" "new_object ?a (epf_memory p)" "tables_room ?env ?a (epf_memory p)"
    using ok new new_object_cong [OF f] tables_room_cong [OF f] by (simp_all add: prof_ok_def object_ok_def) (simp add: earlier_env_def)
  from earlier_alloc_exact [OF pre, of "emx_numOfFrames m" "emx_frames m" "emx_tryLock m" "unat (ec_totalNumOfThread (epf_counts p))"] rec
  show ?thesis by (auto simp: earlier_after_allocation_def earlier_updateAllocatingStatusAfter_def Let_def call_of_def)
qed

text \<open>A thread without counting that calls \<^verbatim>\<open>malloc(200)\<close> in a new process; the allocator calls nothing.\<close>

definition sample_lock_table :: contended_locks where
  "sample_lock_table = HashMap_initialize 0x300000000000 hashAddr compareAddr 512 (empty_map hashAddr compareAddr 88 (newContendedLockData MUTEX) 0)"

definition sample_prof_thread :: EarlierProfThread where
  "sample_prof_thread = \<lparr>ept_flags = \<lparr>profilerInitialized = True\<rparr>, ept_local = EarlierThread_zero\<lparr>eth_stackStart := ce_stackBottom sample_env\<rparr>,
    ept_status = EarlierStatus_zero\<lparr>ea_firstAllocation := True\<rparr>, ept_predict = EarlierPredictorThread_zero, ept_locks = sample_lock_table,
    ept_sampling = Sampling_zero, ept_counting = \<lparr>cnt_init = False, cnt_fault = 0, cnt_cache = 0, cnt_instr = 0\<rparr>\<rparr>"

definition sample_process :: EarlierProfiler where
  "sample_process = \<lparr>epf_counts = \<lparr>ec_totalNumOfThread = 1, ec_maxNumOfRunningThread = 1, ec_totalNumOfRunningThread = 1\<rparr>,
    epf_predictor = EarlierPredictor_zero, epf_memory = fresh_earlier\<rparr>"

definition sample_prof_machine :: EarlierMachine where
  "sample_prof_machine = \<lparr>emx_outsideStop = 10, emx_before = 20, emx_after = 30, emx_outsideStart = 40, emx_countsBefore = PerfReadInfo_zero,
    emx_countsAfter = PerfReadInfo_zero, emx_drawn = 0, emx_stackTop = ce_stackTop sample_env, emx_returnAddr = ce_returnAddr sample_env,
    emx_numOfFrames = 2, emx_frames = [0x401230, 0x401000], emx_tryLock = True, emx_events = (3, 4, 5), emx_pmu = sample_pmu, emx_restarted = True\<rparr>"

definition sample_allocator :: EarlierCall where
  "sample_allocator = \<lparr>erx_object = 0x556000000fa0, erx_inner = []\<rparr>"

lemma sample_lock_table_invar: "table_invar 0 (sample_lock_table, sample_memory)"
proof -
  let ?em = "empty_map hashAddr compareAddr 88 (newContendedLockData MUTEX) 0"
  have owned: "\<forall>i < 512. (0x300000000000 :: u64) + of_nat i * 24 \<notin> owned (threadLocalProfilerHashMemory sample_memory)"
  proof (intro allI impI)
    fix i :: nat assume i: "i < 512"
    have "unat ((0x300000000000 :: u64) + of_nat i * 24) = 0x300000000000 + 24 * i"
      using unat_bucket_addr [of "0x300000000000" 512 i] i by simp
    with i show "(0x300000000000 :: u64) + of_nat i * 24 \<notin> owned (threadLocalProfilerHashMemory sample_memory)"
      by (simp add: owned_def region_span_def sample_region word_le_nat_alt)
  qed
  have reg: "regions_ok (threadLocalProfilerHashMemory sample_memory)" "0 < length (threadLocalProfilerHashMemory sample_memory)"
    by (simp_all add: regions_ok_def sample_region)
  have fresh: "\<not> hm_initialized ?em" and sz: "hm_sizeof_entry ?em = 88" by (simp_all add: empty_map_def)
  have cmp: "compareAddr a b \<longleftrightarrow> a = b" for a b by (simp add: compareAddr_def)
  show ?thesis
    using table_invar_initialize [of ?em 512 "0x300000000000" compareAddr 0 sample_memory hashAddr, OF fresh _ _ cmp _ reg(2,1)] sz owned
    by (simp add: sample_lock_table_def)
qed

lemma sample_prof_ok: "prof_ok (sample_prof_thread, sample_process)" "heap_of (sample_prof_thread, sample_process) = Map.empty"
    "tracks (sample_prof_thread, sample_process)"
proof -
  have mem: "mw_memory (em_waste fresh_earlier) = sample_memory" by (simp add: fresh_earlier_def empty_waste_def sample_waste_def)
  show "prof_ok (sample_prof_thread, sample_process)"
    using fresh_earlier_exact(1,2) sample_lock_table_invar
    by (simp add: prof_ok_def sample_prof_thread_def sample_process_def EarlierThread_zero_def mem)
  show "heap_of (sample_prof_thread, sample_process) = Map.empty"
    by (simp add: heap_of_def sample_process_def fresh_earlier_exact(3) fun_eq_iff)
  show "tracks (sample_prof_thread, sample_process)"
    by (simp add: tracks_def earlier_not_tracking_def sample_prof_thread_def sample_process_def profilerNotInitialized_def conclusionHasStarted_def
        earlier_outsideTrackedAllocation_def EarlierStatus_zero_def fresh_earlier_def empty_waste_def sample_waste_def sample_classes_def ProgramStatus_zero_def)
qed

lemma sample_prof_malloc:
  obtains s where "prof_run (sample_prof_thread, sample_process) [0x556000000fa0 \<mapsto> 200] s"
proof -
  let ?s = "(sample_prof_thread, sample_process)" and ?m = sample_prof_machine and ?rx = sample_allocator
  let ?s1 = "outside_stop ?m ?s"
  define t1 where "t1 = fst ?s1"
  have s1: "?s1 = (t1, sample_process)" by (simp add: t1_def outside_stop_def)
  have t1: "ea_firstAllocation (ept_status t1)" "\<not> cnt_init (ept_counting t1)" "ept_local t1 = ept_local sample_prof_thread"
    by (simp_all add: t1_def outside_stop_def sample_prof_thread_def)
  have prep: "earlier_prepare_malloc ?m ?s = Inr (False, (t1, sample_process))"
    by (simp add: earlier_prepare_malloc_def earlier_first_def earlier_isFirstFunction_def sample_prof_thread_def t1_def outside_stop_def Let_def)
  obtain s2 where s2: "earlier_before MALLOC 200 ?m (t1, sample_process) = Inr s2"
    using t1(2) by (simp add: earlier_before_def earlier_updateAllocatingStatusBefore_def decide_sampling_def
        earlier_randomProcessForCountingEvent_def randomProcessForLargeCountingEvent_def)
  obtain a where a: "s2 = (t1\<lparr>ept_status := a\<rparr>, sample_process)" "ey_objectSize (ea_allocatingType a) = ucast (200 :: u64)"
      "ey_allocatingFunction (ea_allocatingType a) = MALLOC" by (rule before_type [OF s2])
  let ?t = "t1\<lparr>ept_status := a\<rparr>"
  have real: "earlier_real_allocation MALLOC 200 ?m ?rx (t1, sample_process) = Inr (?t, sample_process)"
    using s2 a(1) by (simp add: earlier_real_allocation_def sample_allocator_def)
  have env: "earlier_env ?m ?t = sample_env"
    using t1(3) by (simp add: earlier_env_def sample_prof_machine_def sample_prof_thread_def EarlierThread_zero_def sample_env_def)
  have f: "object_of (call_of a 0x556000000fa0) = object_of sample_call" "size_of (call_of a 0x556000000fa0) = size_of sample_call"
    using a(2) by (simp_all add: sample_call_fields)
  have new: "object_ok ?m 0x556000000fa0 (?t, sample_process)"
    using sample_call_ok new_object_cong [OF f] tables_room_cong [OF f] env by (simp add: object_ok_def sample_process_def)
  have "malloc_ok 200 ?m ?rx ?s"
    using prep s2 real new by (auto simp: malloc_ok_def call_ok_def sample_allocator_def)
  moreover have "prof_ok (?t, sample_process)"
    using thread_only(1) [OF sample_prof_ok(1), of ?t] t1(3) by (simp add: t1_def outside_stop_def)
  from recorded_returns [OF this new] a(3) obtain s3 where "earlier_after_allocation ?m 0x556000000fa0 (?t, sample_process) = Inr s3" by auto
  then have "earlier_yymalloc 200 ?m ?rx ?s = Inr (0x556000000fa0, RealMalloc 200, outside_start ?m (earlier_update_infos s3))"
    using prep real sample_prof_ok(3) by (simp add: earlier_yymalloc_def tracks_def earlier_tracked_allocation_def sample_allocator_def)
  ultimately have "prof_run ?s (if RealMalloc 200 = NoCall then heap_of ?s else (heap_of ?s)(0x556000000fa0 \<mapsto> ucast (200 :: u64)))
      (outside_start ?m (earlier_update_infos s3))"
    by (rule prof_run.malloc [OF prof_run.start sample_prof_ok(3)])
  then show thesis using sample_prof_ok(2) that by simp
qed

section \<open>A first call that frees\<close>

text \<open>The first thread's sampling is set up by its first \<^verbatim>\<open>malloc\<close>; a \<^verbatim>\<open>free\<close> before that enables events that were never opened.\<close>

lemma first_free_aborts:
  assumes "tracks s" and "ptr \<noteq> 0" and "\<not> fst (earlier_in_profiler_memory ptr s)"
    and "\<not> ea_firstAllocation (ept_status (fst s))" and "\<not> isSamplingInit (ept_sampling (fst s))" and "\<not> emx_restarted m"
  shows "earlier_yyfree ptr m rx s = Inl (Aborted ''Failed to enable perf event'')"
proof -
  obtain t p where s: "s = (t, p)" by (cases s)
  obtain p' where i: "earlier_in_profiler_memory ptr s = (False, (t, p'))"
    using assms(3) by (auto simp: s earlier_in_profiler_memory_def split: prod.splits)
  have "earlier_prepare_free m (t, p') = Inl (Aborted ''Failed to enable perf event'')"
    using assms(4-6) by (simp add: s earlier_prepare_free_def earlier_first_def earlier_isFirstFunction_def outside_stop_def
        counting_between_samples_def earlier_setup_counting_def pauseSampling_def restartSampling_def require_def Let_def)
  then show ?thesis using assms(1,2) in_profiler_tracks [OF i] by (simp add: earlier_yyfree_def i tracks_def)
qed

section \<open>Properties\<close>



end
