(* ===== verification/Spec2Isabelle.thy ===== *)
theory Spec2Isabelle
  imports Prelude DefineValues Structs HashList MyMalloc HashMap HashMap_Correct Table ObjTable
    ConflictData Blocks ShadowMemory ShadowMemory_Correct Spinlock
    ThreadLocalStatus ProgramStatus Predictor AllocatingStatus AllocatingStatus_Correct
    GlobalStatus GlobalStatus_Correct LibMallocProf LibMallocProf_Correct LibMallocProf_Locks
    XThread XThread_Correct MemSample MemSample_Correct
    SizeClasses SizeClasses_Correct MemoryWaste MemoryWaste_Correct MemoryWaste_Counts MemoryWaste_Report
    LeakCheck LeakCheck_Correct MemoryProfile MemoryProfile_Correct PreRun PreRun_Correct
    FalseSharing MegaMap MegaMap_Correct MegaMap_Lines MegaMap_Objects MegaMap_Cleanup
    EarlierPredictor EarlierStatus EarlierStatus_Correct EarlierMemory_Correct EarlierMallocProf
    EarlierMallocProf_Correct
begin

text \<open>
  MemPerf, a profiler for memory allocators, as it is in \<^verbatim>\<open>src_light/\<close> (the \<^verbatim>\<open>README\<close> names this directory as
  the current one). The profiler is a library that is loaded before the allocator: it interposes the
  allocation functions, the system calls an allocator makes, the lock functions and the creation of
  threads, keeps statistics per thread and per cache line, and prints a report when the program ends.

  \<^bold>\<open>The parts and how they interact.\<close> A call of \<^verbatim>\<open>malloc\<close> reaches \<open>yymalloc\<close> (\<open>LibMallocProf\<close>,
  \<^verbatim>\<open>libmallocprof.cpp\<close>). It classifies the call and takes the time around the real one
  (\<open>AllocatingStatus\<close>, \<^verbatim>\<open>allocatingstatus.cpp\<close>); the system calls and locks the allocator uses in
  between come back through the interposed functions of the same file and are recorded in the status of
  that call. Afterwards the object is entered into the table of objects (\<open>ObjTable\<close>, \<^verbatim>\<open>objTable.cpp\<close>,
  \<^verbatim>\<open>callsite.cpp\<close>) and its bytes are counted in the pages and cache lines it occupies (\<open>ShadowMemory\<close>,
  \<^verbatim>\<open>shadowmemory.cpp\<close>); the times go to the thread's counters (\<open>ThreadLocalStatus\<close>,
  \<^verbatim>\<open>threadlocalstatus.cpp\<close>, with the records of \<open>Structs\<close>, \<^verbatim>\<open>structs.cpp\<close>) and to the predictor (\<open>Predictor\<close>,
  \<^verbatim>\<open>predictor.cpp\<close>), which estimates the critical path with another allocator. Signals of the performance
  counters (\<open>MemSample\<close>, \<^verbatim>\<open>memsample.c\<close>) interrupt a thread and pass sampled accesses on to the shadow memory
  and its conflict and coherency statistics (\<open>ConflictData\<close>). Threads are created, started, ended and
  joined in \<open>XThread\<close> (\<^verbatim>\<open>xthreadx.cpp\<close>): this ends the predictor's serial and parallel stages and adds a
  thread's counters and locks to the global ones (\<open>GlobalStatus\<close>, \<^verbatim>\<open>globalstatus.cpp\<close>), from which the
  report is made. Size classes and the flags of the profiler's life are in \<open>ProgramStatus\<close>
  (\<^verbatim>\<open>programstatus.cpp\<close>). All tables are one hash map (\<open>HashMap\<close>, \<^verbatim>\<open>hashmap.hh\<close>) over an intrusive list
  (\<open>HashList\<close>, \<^verbatim>\<open>hashlist.hh\<close>) in memory of the profiler's own allocators (\<open>MyMalloc\<close>, \<^verbatim>\<open>mymalloc.cpp\<close>).

  \<^bold>\<open>Measuring memory.\<close> \<^verbatim>\<open>src_temp/\<close> is a copy of \<^verbatim>\<open>src_light/\<close> with measurements of memory added; what it adds is
  modelled over the parts above. \<open>SizeClasses\<close> (\<^verbatim>\<open>programstatus.cpp\<close>) reads the allocator's size classes and finds
  the class of a size. \<open>MemoryWaste\<close> (\<^verbatim>\<open>memwaste.cpp\<close>, \<^verbatim>\<open>memoryusage.cpp\<close>, \<^verbatim>\<open>backtrace.cpp\<close>) counts, per thread and
  class, the objects allocated, freed and on free lists, the internal fragmentation and the memory in use with its peak,
  also per call site. \<open>MemoryProfile\<close> (\<^verbatim>\<open>shadowmemory.cpp\<close>, \<^verbatim>\<open>allocatingstatus.cpp\<close>) marks the pages that objects touch and
  calls all of these around an allocation, a free and the giving back of pages. \<open>LeakCheck\<close> (\<^verbatim>\<open>leakcheck.cpp\<close>,
  \<^verbatim>\<open>selfmap.hh\<close>) marks from a signal handler what a thread can still reach and reports the rest.
  \<open>PreRun\<close> (\<^verbatim>\<open>prerun/libmallochelp.cpp\<close>) is the tool that is run on an allocator beforehand: it finds out its style,
  its threshold for large objects and its classes, and writes the info file.

  \<^bold>\<open>The earlier version.\<close> \<^verbatim>\<open>src/\<close> is an earlier version of the profiler, with parts that \<^verbatim>\<open>src_light/\<close> dropped or
  wrote again. \<open>FalseSharing\<close> (\<^verbatim>\<open>shadowmemory.hh\<close>, \<^verbatim>\<open>structs.h\<close>, \<^verbatim>\<open>structs.cpp\<close>) holds the entry of a cache line with the
  kind of false sharing it is suspected of, and the detector of conflicting cache misses. \<open>MegaMap\<close>
  (\<^verbatim>\<open>shadowmemory.cpp\<close>) is a shadow memory for any address below 2 to the 47th: a table of megabytes, of which each gets
  256 entries of pages, and each page 64 entries of lines, when an object first reaches it. \<open>EarlierStatus\<close>
  (\<^verbatim>\<open>allocatingstatus.h\<close>, \<^verbatim>\<open>allocatingstatus.cpp\<close>, \<^verbatim>\<open>threadlocalstatus.cpp\<close>, \<^verbatim>\<open>structs.cpp\<close>, \<^verbatim>\<open>backtrace.cpp\<close>, and the system
  calls and lock functions of \<^verbatim>\<open>libmallocprof.cpp\<close>) is what it records of a call: the type, the counting events, the locks,
  the critical sections, and the memory in \<open>MegaMap\<close> and in the tables of \<open>MemoryWaste\<close>, which it has, too.
  \<open>EarlierPredictor\<close> (\<^verbatim>\<open>predictor.cpp\<close>) is its predictor, which keeps the cycles per type of call and the total of all threads.
  \<open>EarlierMallocProf\<close> (\<^verbatim>\<open>libmallocprof.cpp\<close>, \<^verbatim>\<open>memsample.c\<close>) holds its allocation functions, which call all of these, and the
  counting of performance events.

  \<^bold>\<open>How the code is represented.\<close> A struct or a group of static members is a record, an enumeration a
  datatype, an integer a word of its width, a pointer into an array its index, a pointer to an object its
  address. \<open>thread_local\<close> variables are fields of a thread's record (\<open>Thread\<close>), static ones of the process'
  (\<open>Profiler\<close>, \<open>Process\<close>). An operation takes the states it uses and returns them changed. An abort, a division by zero
  or an access outside an array is \<open>Inl\<close> with its reason (\<open>Prelude\<close>); a loop that may not end returns
  \<open>None\<close>. What the allocator, the kernel and the processor contribute is an argument: the address
  a real allocation function returns and the interposed functions it calls inside (\<open>RealX_call\<close>), time stamps, random numbers,
  the stack and uninitialised memory (\<open>Machine\<close>), the answers of the system calls (\<open>SetupResults\<close>, \<open>Startup\<close>).

  \<^bold>\<open>The interfaces.\<close> \<open>Table\<close> states what a client may rely on when it finds, inserts and overwrites
  entries, and proves the find-or-insert pattern of the object table, the lock tables and their merging
  from that; the hash map provides it (\<open>hash_table\<close>). \<open>Blocks\<close> states what the update of one block has to do
  for the loop over an object's blocks to keep exact counts; the pages and the cache lines provide it,
  each for allocating and freeing (\<open>page_malloc\<close>, \<open>page_free\<close>, \<open>line_malloc\<close>, \<open>line_free\<close>), and so do the entries of
  the earlier version, which are created on the way (\<open>mega_page_malloc\<close>, \<open>mega_page_free\<close>, \<open>mega_line_malloc\<close>,
  \<open>mega_line_free\<close>).

  \<^bold>\<open>What the theorems show.\<close>
  \<^item> The whole of a thread's run (\<open>LibMallocProf_Correct\<close>): through any allocations, frees, reallocations and
    samples the byte counts are those of the live objects, and every live object can be freed.
    \<open>LibMallocProf_Locks\<close>: the lock functions implement the list of their calls.
  \<^item> The whole of a process (\<open>XThread_Correct\<close>): through any creations, starts, ends and joins of threads
    the critical path is the serial time plus the longest thread of each parallel stage.
  \<^item> The tables (\<open>HashList\<close>, \<open>HashMap_Correct\<close>, \<open>Table\<close>, \<open>ObjTable\<close>, \<open>MyMalloc\<close>): the list is a queue, the hash map a
    finite map whose iteration visits each entry once, blocks of memory do not overlap.
  \<^item> The shadow memory (\<open>ShadowMemory_Correct\<close>, \<open>ConflictData\<close>): exact counts, samples that do not disturb
    them, reports that stay in bounds.
  \<^item> The accounting (\<open>AllocatingStatus_Correct\<close>, \<open>GlobalStatus_Correct\<close>, \<open>Predictor\<close>, \<open>ProgramStatus\<close>): the
    arithmetic on enumerators names the right ones, lock data arrive exactly, threads may end in any order, a
    prediction with equal costs changes nothing.
  \<^item> The sampling (\<open>MemSample_Correct\<close>): records are read back as they were written, wherever they lie in the ring.
  \<^item> Measured memory (\<open>MemoryProfile_Correct\<close>, \<open>MemoryWaste_Counts\<close>, \<open>MemoryWaste_Report\<close>): the memory usage is that of the
    touched pages and of the objects in use; the counters of every class are those of the objects in the table; the parts of
    the report add up. \<open>MemoryWaste_Correct\<close>: the recorded peak is close to the real one. Both with the cases that break them.
  \<^item> The leak check (\<open>LeakCheck_Correct\<close>): it ends and reports exactly the objects no chain of pointers reaches.
  \<^item> The pre-run tool (\<open>PreRun_Correct\<close>) and the classes (\<open>SizeClasses_Correct\<close>): the tool finds the threshold and the
    classes of an allocator that behaves as it expects, and the profiler then uses these classes.
  \<^item> The earlier shadow memory (\<open>MegaMap_Correct\<close>, \<open>MegaMap_Lines\<close>, \<open>MegaMap_Objects\<close>, \<open>MegaMap_Cleanup\<close>): allocating and
    freeing an object, in however many megabytes, keeps the counts of its pages and lines exact and returns the memory first touched;
    giving pages back clears exactly these, and across the end of a megabyte something else. \<open>FalseSharing\<close>: the kind
    a line is given is that of its history of accesses, and the detected conflicts are the changes of line.
  \<^item> The earlier measures (\<open>EarlierMemory_Correct\<close>): through any allocations, frees and pages given back the map, the table of
    objects, the memory usage and the memory of each call site agree. \<open>EarlierMallocProf_Correct\<close>: so they do through any calls
    of a thread, with the allocator's system calls and locks inside, and they are those of the objects the program holds
    from \<^verbatim>\<open>malloc\<close> and \<^verbatim>\<open>realloc\<close>. \<open>EarlierStatus_Correct\<close>: its types of calls
    are those of \<^verbatim>\<open>src_light/\<close>, its critical sections the time a lock was held, its locks arrive in the table;
    where a lock is kept after the call, or the queue of locks is full, they do not. \<open>EarlierPredictor\<close>: the critical
    path has the time in the allocator, the total of a serial stage has not.
  \<^item> Concurrency (\<open>Spinlock\<close>): any number of threads exclude each other and none is shut out for good by the lock's
    state; and one place where a flag is visible before what it announces.

  The theorems with \<open>_iff\<close> in their names, and those about errors, state exactly when an operation fails or does
  something other than it means to; the ones that are defects are listed with the project's findings.

  \<^bold>\<open>Bounds and fuel.\<close> The walk over a hash table takes fuel (\<open>iterate\<close>, and \<open>globalize\<close> and the report that use
  it); as much as the table has entries is enough (\<open>iteration_visits_every_entry_once\<close>). The reader of
  samples may not end and is a \<open>partial_function\<close>; it ends for well-formed records. So is the
  marking of the leak check (\<open>mark_loop\<close>), which ends because each object is marked once; its sweep takes the number of entries
  of the table as fuel. The loops of the pre-run tool are partial functions, too: they end when the sizes
  they try reach the largest class size and the threshold. A bucket of the hash map holds at
  most 65535 entries, a program has at most 1024 threads in its life, a call at most 1000 lock records and
  the cache map 2 to the 35th entries; the theorems name these bounds as hypotheses, and say what happens beyond
  them where the code does not test.

  \<^bold>\<open>Not modelled.\<close> Formatting and writing the report, opening files, and symbol resolution (\<^verbatim>\<open>real.cpp\<close>) are I/O
  and linking. The locks around single updates are not repeated in each operation, which runs alone; the lock itself
  and one interleaving that matters are in \<open>Spinlock\<close>. Code behind macros that are not defined (debugging, CPU
  binding, the lock protection of the hash map) and code commented out are not translated. Of \<^verbatim>\<open>src_temp/\<close> the
  code it shares with \<^verbatim>\<open>src_light/\<close> is not modelled a second time; nor are the parser of the map file, its back trace (which
  does not compile) and its counting of events (those of \<^verbatim>\<open>src/\<close> are in \<open>EarlierStatus\<close> and \<open>EarlierMallocProf\<close>) and
  the locks around the waste counters. Of the pre-run tool the messages and the flags that nothing reads
  are left out. Of \<^verbatim>\<open>src/\<close>, which the \<^verbatim>\<open>README\<close> calls stale, the code that is the same in \<^verbatim>\<open>src_light/\<close> or \<^verbatim>\<open>src_temp/\<close> is not
  modelled again, nor its measurements of huge pages and of blowup, which its switches leave out, its start-up and its report;
  \<^verbatim>\<open>libc-2.24/\<close> is a copy of glibc's allocator, to be profiled; benchmarks, tests and scripts are not part of the library.
\<close>

end
